(* ===== verification/PyDecimal.thy ===== *)
theory PyDecimal
  imports Complex_Main
begin

text \<open>
  Python's \<^verbatim>\<open>decimal.Decimal\<close> as the sources use it: finite values under the default context
  (28 significant digits, ROUND_HALF_EVEN). A finite decimal is represented by its numerical
  value, a rational; the exponent of the representation (\<open>1.0\<close> against \<open>1.00\<close>) is not kept,
  since no modelled operation branches on it. Every arithmetic operator computes the exact result
  and rounds it to 28 significant digits (\<open>rnd\<close>), which is what the context does; comparisons,
  \<^verbatim>\<open>min\<close>, \<^verbatim>\<open>max\<close> and \<^verbatim>\<open>to_integral_value\<close> are exact, as in Python. The exponent
  limits of the context (Emax 999999) are not modelled.

  The lemmas are what the components rely on: rounding is monotone, odd, idempotent and
  sign-preserving, its relative error is at most half a unit in the 28th digit, and it is the
  identity on a fixed-point grid of 28 digits, so that money on such a grid adds up exactly.
\<close>

section \<open>Decimal arithmetic under the default context\<close>

type_synonym decimal = rat

function ndigits :: "int \<Rightarrow> int" where
  "ndigits n = (if n < 10 then 1 else 1 + ndigits (n div 10))"
  by pat_completeness auto
termination
  by (relation "measure nat") auto

declare ndigits.simps [simp del]

definition adjusted :: "decimal \<Rightarrow> int" where
  "adjusted x =
     (let (p, q) = quotient_of \<bar>x\<bar>;
          k = ndigits p - ndigits q
      in if 10 powi k \<le> \<bar>x\<bar> then k else k - 1)"

definition round_half_even :: "rat \<Rightarrow> int" where
  "round_half_even y =
     (let f = \<lfloor>y\<rfloor>; d = y - of_int f
      in if d < 1/2 then f else if 1/2 < d then f + 1 else if even f then f else f + 1)"

definition context_prec :: int where
  "context_prec = 28"

definition rnd :: "rat \<Rightarrow> decimal" where
  "rnd x =
     (if x = 0 then 0
      else let u = 10 powi (adjusted x - context_prec + 1) in of_int (round_half_even (x / u)) * u)"

definition dadd :: "decimal \<Rightarrow> decimal \<Rightarrow> decimal" where
  "dadd a b = rnd (a + b)"

definition dsub :: "decimal \<Rightarrow> decimal \<Rightarrow> decimal" where
  "dsub a b = rnd (a - b)"

definition dmul :: "decimal \<Rightarrow> decimal \<Rightarrow> decimal" where
  "dmul a b = rnd (a * b)"

definition ddiv :: "decimal \<Rightarrow> decimal \<Rightarrow> decimal" where
  "ddiv a b = rnd (a / b)"

definition dneg :: "decimal \<Rightarrow> decimal" where
  "dneg a = rnd (- a)"

definition dabs :: "decimal \<Rightarrow> decimal" where
  "dabs a = rnd \<bar>a\<bar>"

lemmas dec_ops = dadd_def dsub_def dmul_def ddiv_def dneg_def dabs_def

text \<open>The unit in the last place of a value, and the fixed-point grid with \<open>k\<close> fractional
  digits and at most 28 digits in all, on which sums and differences are exact.\<close>

definition ulp :: "rat \<Rightarrow> rat" where
  "ulp x = 10 powi (adjusted x - context_prec + 1)"

definition dec_grid :: "nat \<Rightarrow> decimal \<Rightarrow> bool" where
  "dec_grid k x \<longleftrightarrow> (let n = \<lfloor>x * 10 ^ k\<rfloor> in x * 10 ^ k = of_int n \<and> \<bar>n\<bar> < 10 ^ 28)"

subsection \<open>Powers of ten and the adjusted exponent\<close>

lemma ten_powi_pos [simp]: "(0::rat) < 10 powi k"
  by (simp add: zero_less_power_int)

lemma ten_powi_nonzero [simp]: "(10::rat) powi k \<noteq> 0"
  using ten_powi_pos [of k] by linarith

lemma ten_powi_mono: "i \<le> j \<Longrightarrow> (10::rat) powi i \<le> 10 powi j"
  by (rule power_int_increasing) auto

lemma ten_powi_less_imp: "(10::rat) powi i < 10 powi j \<Longrightarrow> i < j"
  using ten_powi_mono [of j i] by (meson linorder_not_less)

lemma ten_powi_add: "(10::rat) powi (i + j) = 10 powi i * 10 powi j"
  by (simp add: power_int_add)

lemma ten_powi_diff: "(10::rat) powi (i - j) = 10 powi i / 10 powi j"
  by (simp add: power_int_diff)

lemma ndigits_bounds:
  "0 < n \<Longrightarrow> 10 powi (ndigits n - 1) \<le> (of_int n :: rat) \<and> (of_int n :: rat) < 10 powi ndigits n"
proof (induction n rule: ndigits.induct)
  case (1 n)
  show ?case
  proof (cases "n < 10")
    case True
    with "1.prems" show ?thesis by (simp add: ndigits.simps [of n])
  next
    case False
    let ?m = "n div 10"
    from False have m: "0 < ?m" by auto
    from "1.IH" [OF False m]
    have lo: "10 powi (ndigits ?m - 1) \<le> (of_int ?m :: rat)"
      and hi: "(of_int ?m :: rat) < 10 powi ndigits ?m" by auto
    have d: "ndigits n = 1 + ndigits ?m" using False by (simp add: ndigits.simps [of n])
    have "10 powi (ndigits n - 1) = 10 * (10::rat) powi (ndigits ?m - 1)"
      using ten_powi_add [of 1 "ndigits ?m - 1"] by (simp add: d)
    also have "\<dots> \<le> 10 * of_int ?m" using lo by simp
    also have "\<dots> \<le> of_int n"
    proof -
      have "10 * ?m \<le> n" by auto
      then have "(of_int (10 * ?m) :: rat) \<le> of_int n" by (simp only: of_int_le_iff)
      then show ?thesis by simp
    qed
    finally have L: "10 powi (ndigits n - 1) \<le> (of_int n :: rat)" .
    have nn: "ndigits ?m \<ge> 0"
      using ten_powi_less_imp [of 0 "ndigits ?m"] lo hi m
      by (metis (no_types, lifting) int_one_le_iff_zero_less less_le of_int_1_le_iff order_le_less_trans power_int_0_right)
    define t where "t = (10::int) ^ nat (ndigits ?m)"
    have t: "(10::rat) powi ndigits ?m = of_int t"
      using nn by (simp add: t_def power_int_def)
    have "?m < t" using hi by (simp add: t)
    then have "n < 10 * t" by auto
    then have "(of_int n :: rat) < of_int (10 * t)" by (simp only: of_int_less_iff)
    also have "\<dots> = 10 powi ndigits n"
      using ten_powi_add [of 1 "ndigits ?m"] by (simp add: d t)
    finally show ?thesis using L by simp
  qed
qed

lemma adjusted_bounds:
  assumes "x \<noteq> 0"
  shows "10 powi adjusted x \<le> \<bar>x\<bar>" and "\<bar>x\<bar> < 10 powi (adjusted x + 1)"
proof -
  obtain p q where pq: "quotient_of \<bar>x\<bar> = (p, q)" by (cases "quotient_of \<bar>x\<bar>")
  then have q: "0 < q" and eq: "\<bar>x\<bar> = of_int p / of_int q"
    by (auto dest: quotient_of_denom_pos quotient_of_div)
  have p: "0 < p"
  proof -
    have "0 < of_int p / (of_int q :: rat)" using assms eq by (metis zero_less_abs_iff)
    then show ?thesis using q by (simp add: zero_less_divide_iff)
  qed
  let ?k = "ndigits p - ndigits q"
  note P = ndigits_bounds [OF p] and Q = ndigits_bounds [OF q]
  have qpos: "(0::rat) < of_int q" using q by simp
  have up: "\<bar>x\<bar> < 10 powi (?k + 1)"
  proof -
    have "\<bar>x\<bar> < 10 powi ndigits p / of_int q"
      unfolding eq using P qpos by (simp add: divide_strict_right_mono)
    also have "\<dots> \<le> 10 powi ndigits p / 10 powi (ndigits q - 1)"
      using Q qpos by (intro divide_left_mono) auto
    also have "\<dots> = 10 powi (?k + 1)"
      by (simp add: algebra_simps flip: ten_powi_diff)
    finally show ?thesis .
  qed
  have low: "10 powi (?k - 1) < \<bar>x\<bar>"
  proof -
    have "10 powi (?k - 1) = (10::rat) powi (ndigits p - 1) / 10 powi ndigits q"
      by (simp add: algebra_simps flip: ten_powi_diff)
    also have "\<dots> < 10 powi (ndigits p - 1) / of_int q"
      using Q qpos by (intro divide_strict_left_mono) auto
    also have "\<dots> \<le> \<bar>x\<bar>" unfolding eq using P qpos by (simp add: divide_right_mono)
    finally show ?thesis .
  qed
  have "adjusted x = (if 10 powi ?k \<le> \<bar>x\<bar> then ?k else ?k - 1)"
    by (simp add: adjusted_def pq)
  with up low show "10 powi adjusted x \<le> \<bar>x\<bar>" and "\<bar>x\<bar> < 10 powi (adjusted x + 1)"
    by (auto split: if_splits)
qed

lemma adjusted_unique:
  assumes "10 powi k \<le> \<bar>x\<bar>" and "\<bar>x\<bar> < 10 powi (k + 1)"
  shows "adjusted x = k"
proof -
  have "0 < \<bar>x\<bar>" using assms(1) ten_powi_pos [of k] by linarith
  then have "x \<noteq> 0" by simp
  note b = adjusted_bounds [OF this]
  have "k < adjusted x + 1" by (rule ten_powi_less_imp) (use assms b in linarith)
  moreover have "adjusted x < k + 1" by (rule ten_powi_less_imp) (use assms b in linarith)
  ultimately show ?thesis by linarith
qed

lemma adjusted_minus [simp]: "adjusted (- x) = adjusted x"
  by (simp add: adjusted_def)

lemma adjusted_mono:
  assumes "x \<noteq> 0" and "\<bar>x\<bar> \<le> \<bar>y\<bar>"
  shows "adjusted x \<le> adjusted y"
proof -
  have y: "y \<noteq> 0" using assms by auto
  have "adjusted x < adjusted y + 1"
    by (rule ten_powi_less_imp) (use adjusted_bounds [OF assms(1)] adjusted_bounds [OF y] assms(2) in linarith)
  then show ?thesis by linarith
qed


subsection \<open>Rounding to the nearest integer, ties to even\<close>

lemma rhe_of_int [simp]: "round_half_even (of_int n) = n"
  by (simp add: round_half_even_def)

lemma rhe_error: "\<bar>of_int (round_half_even y) - y\<bar> \<le> 1/2"
proof -
  have "of_int \<lfloor>y\<rfloor> \<le> y" "y < of_int \<lfloor>y\<rfloor> + 1"
    using floor_less_iff [of y "\<lfloor>y\<rfloor> + 1"] by (auto simp: of_int_floor_le)
  then show ?thesis by (auto simp: round_half_even_def Let_def abs_if field_simps; linarith)
qed

lemma rhe_mono:
  assumes "y \<le> z" shows "round_half_even y \<le> round_half_even z"
proof (rule ccontr)
  assume "\<not> ?thesis"
  then have lt: "round_half_even z + 1 \<le> round_half_even y" by simp
  then have lt': "(of_int (round_half_even z) :: rat) + 1 \<le> of_int (round_half_even y)"
    by (metis of_int_1 of_int_add of_int_le_iff)
  have ey: "of_int (round_half_even y) \<le> y + 1/2" using rhe_error [of y] by linarith
  have ez: "z - 1/2 \<le> of_int (round_half_even z)" using rhe_error [of z] by linarith
  from lt' ey ez assms have "y = z" by linarith
  with lt show False by simp
qed

lemma rhe_minus [simp]: "round_half_even (- y) = - round_half_even y"
proof (cases "of_int \<lfloor>y\<rfloor> = y")
  case True
  then obtain n where "y = of_int n" by metis
  then show ?thesis by (metis of_int_minus rhe_of_int)
next
  case False
  have fl: "\<lfloor>- y\<rfloor> = - \<lfloor>y\<rfloor> - 1"
    using False of_int_floor_le [of y] floor_less_iff [of y "\<lfloor>y\<rfloor> + 1"]
    by (intro floor_unique) (auto simp del: of_int_floor_le intro: order.not_eq_order_implies_strict)
  show ?thesis by (auto simp: round_half_even_def Let_def fl)
qed

lemma rhe_ge_int: "of_int n \<le> y \<Longrightarrow> n \<le> round_half_even y"
  using rhe_mono [of "of_int n" y] by simp

lemma rhe_le_int: "y \<le> of_int n \<Longrightarrow> round_half_even y \<le> n"
  using rhe_mono [of y "of_int n"] by simp

subsection \<open>Correct rounding\<close>

lemma rnd_0 [simp]: "rnd 0 = 0"
  by (simp add: rnd_def)

lemma rnd_minus [simp]: "rnd (- x) = - rnd x"
  by (simp add: rnd_def Let_def)

lemma ulp_pos [simp]: "0 < ulp x"
  by (simp add: ulp_def)

lemma rnd_ulp: "x \<noteq> 0 \<Longrightarrow> rnd x = of_int (round_half_even (x / ulp x)) * ulp x"
  by (simp add: rnd_def ulp_def Let_def)

lemma ten_powi_27: "(10::rat) powi adjusted x = of_int (10 ^ 27) * ulp x"
proof -
  have "(10::rat) powi adjusted x = 10 powi (27 + (adjusted x - context_prec + 1))"
    by (simp add: context_prec_def)
  also have "\<dots> = 10 powi 27 * ulp x" unfolding ulp_def by (rule ten_powi_add)
  finally show ?thesis by (simp add: power_int_def)
qed

lemma ten_powi_28: "(10::rat) powi (adjusted x + 1) = of_int (10 ^ 28) * ulp x"
  using ten_powi_27 [of x] by (simp add: ten_powi_add)

lemma rnd_in_decade:
  assumes "0 < x"
  shows "10 powi adjusted x \<le> rnd x" and "rnd x \<le> 10 powi (adjusted x + 1)"
proof -
  have x: "x \<noteq> 0" using assms by simp
  note b = adjusted_bounds [OF x]
  have "of_int (10 ^ 27) \<le> x / ulp x"
    using b(1) assms ten_powi_27 [of x] by (simp add: pos_le_divide_eq)
  then have "10 ^ 27 \<le> round_half_even (x / ulp x)" by (rule rhe_ge_int)
  then have "(of_int (10 ^ 27) :: rat) \<le> of_int (round_half_even (x / ulp x))"
    by (simp only: of_int_le_iff)
  then have "of_int (10 ^ 27) * ulp x \<le> of_int (round_half_even (x / ulp x)) * ulp x"
    by (intro mult_right_mono) (auto intro: less_imp_le)
  then show "10 powi adjusted x \<le> rnd x" unfolding ten_powi_27 rnd_ulp [OF x] .
  have "x / ulp x \<le> of_int (10 ^ 28)"
    using b(2) assms ten_powi_28 [of x] by (simp add: pos_divide_le_eq)
  then have "round_half_even (x / ulp x) \<le> 10 ^ 28" by (rule rhe_le_int)
  then have "(of_int (round_half_even (x / ulp x)) :: rat) \<le> of_int (10 ^ 28)"
    by (simp only: of_int_le_iff)
  then have "of_int (round_half_even (x / ulp x)) * ulp x \<le> of_int (10 ^ 28) * ulp x"
    by (intro mult_right_mono) (auto intro: less_imp_le)
  then show "rnd x \<le> 10 powi (adjusted x + 1)" unfolding ten_powi_28 rnd_ulp [OF x] .
qed

lemma rnd_pos [intro]: "0 < x \<Longrightarrow> 0 < rnd x"
  using rnd_in_decade(1) [of x] ten_powi_pos [of "adjusted x"] by linarith

lemma rnd_pos_iff [simp]: "0 < rnd x \<longleftrightarrow> 0 < x"
proof -
  have "0 < x \<or> x = 0 \<or> 0 < - x" by linarith
  then show ?thesis using rnd_pos [of x] rnd_pos [of "- x"] by auto
qed

lemma rnd_neg_iff [simp]: "rnd x < 0 \<longleftrightarrow> x < 0"
  using rnd_pos_iff [of "- x"] by simp

lemma rnd_nonneg_iff [simp]: "0 \<le> rnd x \<longleftrightarrow> 0 \<le> x"
  using rnd_neg_iff [of x] by linarith

lemma rnd_nonpos_iff [simp]: "rnd x \<le> 0 \<longleftrightarrow> x \<le> 0"
  using rnd_pos_iff [of x] by linarith

lemma rnd_zero_iff [simp]: "rnd x = 0 \<longleftrightarrow> x = 0"
  using rnd_nonneg_iff [of x] rnd_nonpos_iff [of x] by linarith

lemma rnd_mono_pos:
  assumes "0 < x" and "x \<le> y"
  shows "rnd x \<le> rnd y"
proof (cases "adjusted x = adjusted y")
  case True
  have nz: "x \<noteq> 0" "y \<noteq> 0" using assms by auto
  have u: "ulp x = ulp y" by (simp add: ulp_def True)
  have "x / ulp y \<le> y / ulp y" using assms(2) by (simp add: divide_right_mono less_imp_le)
  then have "round_half_even (x / ulp y) \<le> round_half_even (y / ulp y)" by (rule rhe_mono)
  then show ?thesis by (simp add: rnd_ulp nz u mult_right_mono less_imp_le)
next
  case False
  have "adjusted x \<le> adjusted y" using assms by (intro adjusted_mono) auto
  with False have "adjusted x + 1 \<le> adjusted y" by simp
  then have "(10::rat) powi (adjusted x + 1) \<le> 10 powi adjusted y" by (rule ten_powi_mono)
  moreover have "0 < y" using assms by linarith
  ultimately show ?thesis
    using rnd_in_decade(2) [OF assms(1)] rnd_in_decade(1) [of y] by linarith
qed

lemma rnd_mono: "x \<le> y \<Longrightarrow> rnd x \<le> rnd y"
proof -
  assume le: "x \<le> y"
  consider "0 < x" | "y < 0" | "x \<le> 0" "0 \<le> y" by linarith
  then show ?thesis
  proof cases
    case 1 then show ?thesis using le by (rule rnd_mono_pos)
  next
    case 2 then show ?thesis using rnd_mono_pos [of "- y" "- x"] le by simp
  next
    case 3
    then have "rnd x \<le> 0" "0 \<le> rnd y" by simp_all
    then show ?thesis by linarith
  qed
qed

lemma rnd_exact:
  assumes x: "x = of_int n * 10 powi k" and n: "\<bar>n\<bar> < 10 ^ 28"
  shows "rnd x = x"
proof (cases "x = 0")
  case False
  have "\<bar>x\<bar> = of_int \<bar>n\<bar> * 10 powi k" by (simp add: x abs_mult)
  also have "\<dots> < of_int (10 ^ 28) * 10 powi k"
    using n by (intro mult_strict_right_mono) (simp_all only: of_int_less_iff ten_powi_pos)
  also have "\<dots> = 10 powi (28 + k)" by (simp add: ten_powi_add)
  finally have "10 powi adjusted x < (10::rat) powi (28 + k)"
    using adjusted_bounds(1) [OF False] by linarith
  then have less: "adjusted x < 28 + k" by (rule ten_powi_less_imp)
  define j where "j = nat (k - (adjusted x - context_prec + 1))"
  have j: "k = adjusted x - context_prec + 1 + int j"
    using less by (simp add: j_def context_prec_def)
  have "10 powi k = ulp x * 10 ^ j"
    using arg_cong [OF j, of "\<lambda>i. (10::rat) powi i"]
    by (simp only: ten_powi_add ulp_def power_int_of_nat)
  then have "x = of_int n * (ulp x * 10 ^ j)" using x by metis
  then have q: "x = of_int (n * 10 ^ j) * ulp x" by (simp add: ac_simps)
  then have "x / ulp x = of_int (n * 10 ^ j)"
    by (metis nonzero_eq_divide_eq ulp_pos less_irrefl)
  then have "rnd x = of_int (n * 10 ^ j) * ulp x" by (metis rnd_ulp rhe_of_int False)
  with q show ?thesis by simp
qed simp


lemma rnd_idem [simp]: "rnd (rnd x) = rnd x"
proof (cases "x = 0")
  case False
  define m where "m = round_half_even (x / ulp x)"
  have r: "rnd x = of_int m * 10 powi (adjusted x - context_prec + 1)"
    using rnd_ulp [OF False] by (simp add: m_def ulp_def)
  have "\<bar>x\<bar> / ulp x \<le> of_int (10 ^ 28)"
    using adjusted_bounds(2) [OF False] ten_powi_28 [of x] by (simp add: pos_divide_le_eq)
  then have "x / ulp x \<le> of_int (10 ^ 28)" and "of_int (- (10 ^ 28)) \<le> x / ulp x"
    using ulp_pos [of x] by (simp_all add: pos_divide_le_eq pos_le_divide_eq abs_le_iff)
  then have "m \<le> 10 ^ 28" and "- (10 ^ 28) \<le> m"
    unfolding m_def by (blast intro: rhe_le_int rhe_ge_int)+
  then consider "\<bar>m\<bar> < 10 ^ 28" | "m = 10 ^ 28" | "m = - (10 ^ 28)" by linarith
  then show ?thesis
  proof cases
    case 1
    then show ?thesis using rnd_exact [OF r] by simp
  next
    case 2
    have "rnd x = of_int 1 * 10 powi (28 + (adjusted x - context_prec + 1))"
      by (simp only: r 2 ten_powi_add) simp
    then show ?thesis by (rule rnd_exact) simp
  next
    case 3
    have "rnd x = of_int (- 1) * 10 powi (28 + (adjusted x - context_prec + 1))"
      by (simp only: r 3 ten_powi_add) simp
    then show ?thesis by (rule rnd_exact) simp
  qed
qed simp

lemma rnd_le: "x \<le> y \<Longrightarrow> rnd y = y \<Longrightarrow> rnd x \<le> y"
  using rnd_mono [of x y] by simp

lemma rnd_ge: "y \<le> x \<Longrightarrow> rnd y = y \<Longrightarrow> y \<le> rnd x"
  using rnd_mono [of y x] by simp

lemma rnd_error: "\<bar>rnd x - x\<bar> \<le> \<bar>x\<bar> * (5 / 10 ^ 28)"
proof (cases "x = 0")
  case False
  have "rnd x - x = (of_int (round_half_even (x / ulp x)) - x / ulp x) * ulp x"
    by (simp add: rnd_ulp [OF False] left_diff_distrib less_imp_neq [THEN not_sym])
  then have "\<bar>rnd x - x\<bar> = \<bar>of_int (round_half_even (x / ulp x)) - x / ulp x\<bar> * ulp x"
    by (simp add: abs_mult less_imp_le)
  also have "\<dots> \<le> 1/2 * ulp x"
    by (intro mult_right_mono rhe_error) (simp add: less_imp_le)
  finally have "\<bar>rnd x - x\<bar> \<le> 1/2 * ulp x" .
  moreover have "of_int (10 ^ 27) * ulp x \<le> \<bar>x\<bar>"
    using adjusted_bounds(1) [OF False] ten_powi_27 [of x] by simp
  ultimately show ?thesis by simp
qed simp

subsection \<open>Fixed-point grids on which the arithmetic is exact\<close>

lemma rnd_upper: "0 \<le> x \<Longrightarrow> rnd x \<le> x * (1 + 5 / 10 ^ 28)"
  using rnd_error [of x] abs_ge_self [of "rnd x - x"] by (simp only: distrib_left abs_of_nonneg)

lemma dec_gridI: "x = of_int n / 10 ^ k \<Longrightarrow> \<bar>n\<bar> < 10 ^ 28 \<Longrightarrow> dec_grid k x"
  by (simp add: dec_grid_def)

lemma dec_gridE:
  assumes "dec_grid k x"
  obtains n where "x = of_int n / 10 ^ k" and "\<bar>n\<bar> < 10 ^ 28"
proof
  show "x = of_int \<lfloor>x * 10 ^ k\<rfloor> / 10 ^ k" and "\<bar>\<lfloor>x * 10 ^ k\<rfloor>\<bar> < 10 ^ 28"
    using assms by (auto simp: dec_grid_def Let_def field_simps)
qed

lemma rnd_grid [simp]:
  assumes "dec_grid k x" shows "rnd x = x"
proof -
  from assms obtain n where n: "x = of_int n / 10 ^ k" "\<bar>n\<bar> < 10 ^ 28" by (rule dec_gridE)
  have "x = of_int n * 10 powi (- int k)"
    by (simp add: n(1) power_int_minus divide_inverse)
  then show ?thesis using n(2) by (rule rnd_exact)
qed

lemma dec_grid_0 [simp]: "dec_grid k 0"
  by (simp add: dec_grid_def)

lemma grid_nonneg_iff: "(0 :: rat) \<le> of_int n / 10 ^ k \<longleftrightarrow> 0 \<le> n"
  by (simp add: pos_le_divide_eq)

lemma dec_grid_diff:
  assumes "dec_grid k x" "dec_grid k y" "0 \<le> y" "y \<le> x"
  shows "dec_grid k (x - y)"
proof -
  from assms obtain n m where n: "x = of_int n / 10 ^ k" "\<bar>n\<bar> < 10 ^ 28"
    and m: "y = of_int m / 10 ^ k" "\<bar>m\<bar> < 10 ^ 28" by (meson dec_gridE)
  have "0 \<le> m" "m \<le> n" using assms(3,4) by (simp_all add: n m divide_le_cancel grid_nonneg_iff)
  then show ?thesis
    using n m by (intro dec_gridI [of _ "n - m"]) (auto simp: diff_divide_distrib)
qed

lemma dec_grid_add:
  assumes "dec_grid k x" "dec_grid k y" "dec_grid k z" "0 \<le> x" "0 \<le> y" "x + y \<le> z"
  shows "dec_grid k (x + y)"
proof -
  from assms obtain n m l where n: "x = of_int n / 10 ^ k" "\<bar>n\<bar> < 10 ^ 28"
    and m: "y = of_int m / 10 ^ k" "\<bar>m\<bar> < 10 ^ 28"
    and l: "z = of_int l / 10 ^ k" "\<bar>l\<bar> < 10 ^ 28" by (meson dec_gridE)
  have "0 \<le> m" "0 \<le> n" using assms(4,5) by (simp_all add: n m grid_nonneg_iff)
  moreover have "n + m \<le> l"
  proof -
    have "of_int (n + m) / 10 ^ k \<le> (of_int l / 10 ^ k :: rat)"
      using assms(6) by (simp add: n m l add_divide_distrib)
    then show ?thesis by (simp add: divide_le_cancel)
  qed
  ultimately show ?thesis
    using n m l by (intro dec_gridI [of _ "n + m"]) (auto simp: add_divide_distrib)
qed

lemma dec_grid_min [intro]: "dec_grid k x \<Longrightarrow> dec_grid k y \<Longrightarrow> dec_grid k (min x y)"
  by (simp add: min_def)

text \<open>Comparing a rounded value with a value of the grid decides the comparison of the exact value.\<close>

lemma rnd_next_grid: "\<bar>n\<bar> \<le> 10 ^ 28 \<Longrightarrow> rnd (of_int n / 10 ^ k) = of_int n / 10 ^ k"
proof (cases "\<bar>n\<bar> < 10 ^ 28")
  case True
  then show ?thesis by (intro rnd_grid dec_gridI) auto
next
  case False
  assume "\<bar>n\<bar> \<le> 10 ^ 28"
  with False have "n = sgn n * 10 ^ 28" by (auto simp: sgn_if abs_if split: if_splits)
  then have "of_int n / 10 ^ k = of_int (sgn n) * (10::rat) powi (28 - int k)"
    by (subst \<open>n = _\<close>) (simp add: power_int_diff)
  moreover have "\<bar>sgn n\<bar> < (10::int) ^ 28" by (auto simp: sgn_if)
  ultimately show ?thesis by (rule rnd_exact)
qed

lemma rnd_le_gridD:
  assumes w: "w = of_int n / 10 ^ k" and l: "dec_grid k l" "0 \<le> l" and le: "rnd w \<le> l"
  shows "w \<le> l"
proof (rule ccontr)
  assume "\<not> w \<le> l"
  from l obtain m where m: "l = of_int m / 10 ^ k" "\<bar>m\<bar> < 10 ^ 28" by (auto elim: dec_gridE)
  have "0 \<le> m" using l m by (simp add: grid_nonneg_iff)
  have "m < n" using \<open>\<not> w \<le> l\<close> by (simp add: w m divide_le_cancel)
  then have "(of_int (m + 1) :: rat) \<le> of_int n" by (simp only: of_int_le_iff)
  then have "rnd (of_int (m + 1) / 10 ^ k) \<le> rnd w"
    unfolding w by (intro rnd_mono divide_right_mono) auto
  moreover have "rnd (of_int (m + 1) / 10 ^ k) = of_int (m + 1) / 10 ^ k"
    using m \<open>0 \<le> m\<close> by (intro rnd_next_grid) auto
  ultimately have "of_int (m + 1) / 10 ^ k \<le> (of_int m / 10 ^ k :: rat)" using le m by linarith
  then show False by (simp add: divide_le_cancel)
qed

lemma grid_sum_le:
  assumes g: "dec_grid k x" "dec_grid k y" "dec_grid k z" and l: "dec_grid k l" "0 \<le> l" and z: "0 \<le> z"
    and le: "rnd (rnd (x + y) + z) \<le> l" and nn: "0 \<le> x" "0 \<le> y"
  shows "x + y + z \<le> l"
proof -
  from g obtain a b c where abc: "x = of_int a / 10 ^ k" "y = of_int b / 10 ^ k" "z = of_int c / 10 ^ k"
    by (meson dec_gridE)
  have "rnd (x + y) \<le> rnd (rnd (x + y) + z)" using z by (intro rnd_ge) auto
  with le have "rnd (x + y) \<le> l" by simp
  moreover have "x + y = of_int (a + b) / 10 ^ k" by (simp add: abc add_divide_distrib)
  ultimately have "x + y \<le> l" using l by (rule rnd_le_gridD [rotated -1])
  then have "dec_grid k (x + y)" using g l nn by (intro dec_grid_add [of k x y l])
  then have "rnd (x + y + z) \<le> l" using le by simp
  moreover have "x + y + z = of_int (a + b + c) / 10 ^ k" by (simp add: abc add_divide_distrib)
  ultimately show ?thesis using l by (rule rnd_le_gridD [rotated -1])
qed

end
