(* ===== verification/Prelude.thy ===== *)
theory Prelude
  imports PyDecimal "HOL-Library.Word" "HOL-Library.List_Lexorder" "HOL-Library.Char_ord"
begin

text \<open>
  What every component shares: exceptions as values and the validation chains of the dataclass
  constructors, timestamps, identifiers, the parts of \<^verbatim>\<open>str\<close> the sources use, the enumerations
  of \<^verbatim>\<open>domain/enums.py\<close>, and the generic lemmas the component proofs are built from
  (validation chains, sorted and deduplicated reason lists, and the induction principle for
  transition systems, as a locale).
\<close>

unbundle bit_operations_syntax

section \<open>Exceptions and validation\<close>

text \<open>A raised exception is a value; its class and its message are kept.\<close>

datatype py_error =
    ValueError string
  | TypeError string
  | RuntimeError string
  | LookupError string
  | PermissionError string
  | DomainInvariantError string
  | FloatRejectedError string
  | InvalidOrderTransitionError string
  | BigTradesUnmeasured
  | AssertionError
  | IntegrityError
  | PendingRollbackError

type_synonym 'a result = "py_error + 'a"

text \<open>
  A \<^verbatim>\<open>__post_init__\<close> is a sequence of checks, each raising its own exception: the list holds
  the failing condition and the exception, in the order of the source, and the first condition
  that holds decides.
\<close>

type_synonym checks = "(bool \<times> py_error) list"

fun first_error :: "checks \<Rightarrow> py_error option" where
  "first_error [] = None"
| "first_error ((bad, e) # cs) = (if bad then Some e else first_error cs)"

definition validated :: "checks \<Rightarrow> 'a \<Rightarrow> 'a result" where
  "validated cs x = (case first_error cs of None \<Rightarrow> Inr x | Some e \<Rightarrow> Inl e)"

definition and_then :: "'a result \<Rightarrow> ('a \<Rightarrow> 'b result) \<Rightarrow> 'b result" where
  "and_then r f = (case r of Inl e \<Rightarrow> Inl e | Inr x \<Rightarrow> f x)"

definition failed :: "'a result \<Rightarrow> bool" where
  "failed r = (case r of Inl _ \<Rightarrow> True | Inr _ \<Rightarrow> False)"

section \<open>Enumerations of the domain\<close>

datatype BrokerProvider = TOSS | KIS | BINANCE

datatype Side = BUY | SELL

datatype IntentType = ENTRY | EXIT | PROTECTIVE

datatype OrderStyle = MARKET | LIMIT

datatype RuntimeMode = SHADOW_MODE | PAPER_MODE | LIVE_MODE

section \<open>Timestamps\<close>

text \<open>
  An instant is a number of microseconds since the epoch and a \<^verbatim>\<open>timedelta\<close> a difference of
  two. Where the source tests the time zone, the timestamp is a \<open>py_datetime\<close>: naive, aware with
  the exact UTC singleton, or aware with another zone.
\<close>

type_synonym instant = int
type_synonym timedelta = int

datatype py_datetime = Naive int | AwareUTC int | AwareOther int

fun require_utc :: "py_datetime \<Rightarrow> instant result" where
  "require_utc (Naive _) = Inl (ValueError ''timezone-aware UTC datetime is required'')"
| "require_utc (AwareUTC t) = Inr t"
| "require_utc (AwareOther t) = Inr t"

section \<open>Decimals at a domain boundary\<close>

datatype py_object = PyFloat | PyDecimal decimal | PyNonFinite | PyOther

fun require_decimal :: "py_object \<Rightarrow> decimal result" where
  "require_decimal PyFloat =
     Inl (FloatRejectedError ''float values are not allowed at a domain boundary'')"
| "require_decimal PyOther = Inl (TypeError ''Decimal is required at a domain boundary'')"
| "require_decimal PyNonFinite = Inl (DomainInvariantError ''finite Decimal is required'')"
| "require_decimal (PyDecimal x) = Inr x"

definition require_non_negative :: "py_object \<Rightarrow> decimal result" where
  "require_non_negative v =
     and_then (require_decimal v)
       (\<lambda>x. if x < 0 then Inl (DomainInvariantError ''non-negative Decimal is required'') else Inr x)"

section \<open>Text\<close>

text \<open>
  A \<open>string\<close> is a list of code points below 256; \<^verbatim>\<open>strip\<close>, \<^verbatim>\<open>isascii\<close>, \<^verbatim>\<open>isupper\<close>
  and \<^verbatim>\<open>isalpha\<close> are Python's on that range.
\<close>

definition code_point :: "char \<Rightarrow> nat" where
  "code_point c = of_char c"

definition is_space :: "char \<Rightarrow> bool" where
  "is_space c =
     (let n = code_point c in (9 \<le> n \<and> n \<le> 13) \<or> (28 \<le> n \<and> n \<le> 32) \<or> n = 133 \<or> n = 160)"

definition strip :: "string \<Rightarrow> string" where
  "strip s = rev (dropWhile is_space (rev (dropWhile is_space s)))"

definition trimmed_text :: "string \<Rightarrow> bool" where
  "trimmed_text s \<longleftrightarrow> s \<noteq> [] \<and> strip s = s"

definition isascii :: "string \<Rightarrow> bool" where
  "isascii s = list_all (\<lambda>c. code_point c < 128) s"

definition is_ascii_upper :: "char \<Rightarrow> bool" where
  "is_ascii_upper c = (let n = code_point c in 65 \<le> n \<and> n \<le> 90)"

definition is_ascii_lower :: "char \<Rightarrow> bool" where
  "is_ascii_lower c = (let n = code_point c in 97 \<le> n \<and> n \<le> 122)"

text \<open>\<^verbatim>\<open>isupper\<close> of an ASCII string: some letter is upper case and none is lower case.\<close>

definition isupper_ascii :: "string \<Rightarrow> bool" where
  "isupper_ascii s = (list_ex is_ascii_upper s \<and> \<not> list_ex is_ascii_lower s)"

definition is_alpha :: "char \<Rightarrow> bool" where
  "is_alpha c =
     (let n = code_point c in
        (65 \<le> n \<and> n \<le> 90) \<or> (97 \<le> n \<and> n \<le> 122) \<or> n = 170 \<or> n = 181 \<or> n = 186
        \<or> (192 \<le> n \<and> n \<le> 255 \<and> n \<noteq> 215 \<and> n \<noteq> 247))"

definition isalpha :: "string \<Rightarrow> bool" where
  "isalpha s = (s \<noteq> [] \<and> list_all is_alpha s)"

type_synonym bytes = "8 word list"

text \<open>\<^verbatim>\<open>tuple(sorted(set(xs)))\<close>\<close>

definition sorted_set :: "'a::linorder list \<Rightarrow> 'a list" where
  "sorted_set xs = sort (remdups xs)"

text \<open>The first element with a property, as \<^verbatim>\<open>next((x for x in xs if P x), None)\<close>.\<close>

definition next_where :: "('a \<Rightarrow> bool) \<Rightarrow> 'a list \<Rightarrow> 'a option" where
  "next_where P xs = find P xs"

text \<open>Decimal text of an integer, as \<^verbatim>\<open>f"{n}"\<close>.\<close>

definition digit_char :: "int \<Rightarrow> char" where
  "digit_char d = ''0123456789'' ! nat d"

function nat_str :: "int \<Rightarrow> string" where
  "nat_str n = (if n < 10 then [digit_char n] else nat_str (n div 10) @ [digit_char (n mod 10)])"
  by pat_completeness auto
termination
  by (relation "measure nat") auto

declare nat_str.simps [simp del]

definition int_str :: "int \<Rightarrow> string" where
  "int_str n = (if n < 0 then CHR ''-'' # nat_str (- n) else nat_str n)"

section \<open>Generic lemmas\<close>

named_theorems checks_simps \<open>unfolding of validation chains\<close>

lemma first_error_None_iff:
  "first_error cs = None \<longleftrightarrow> (\<forall>c \<in> set cs. \<not> fst c)"
  by (induction cs rule: first_error.induct) auto

lemma first_error_append:
  "first_error (cs @ ds) = (case first_error cs of None \<Rightarrow> first_error ds | Some e \<Rightarrow> Some e)"
  by (induction cs rule: first_error.induct) auto

lemma first_error_append_None:
  "first_error (cs @ ds) = None \<longleftrightarrow> first_error cs = None \<and> first_error ds = None"
  by (auto simp: first_error_append split: option.splits)

lemma first_error_Cons_None:
  "first_error ((bad, e) # cs) = None \<longleftrightarrow> \<not> bad \<and> first_error cs = None"
  by simp

lemma validated_Inr_iff [checks_simps]:
  "validated cs x = Inr y \<longleftrightarrow> first_error cs = None \<and> y = x"
  by (auto simp: validated_def split: option.splits)

lemma validated_Inl_iff [checks_simps]:
  "validated cs x = Inl e \<longleftrightarrow> first_error cs = Some e"
  by (auto simp: validated_def split: option.splits)

lemma and_then_Inl [simp]: "and_then (Inl e) f = Inl e"
  by (simp add: and_then_def)

lemma and_then_Inr [simp]: "and_then (Inr x) f = f x"
  by (simp add: and_then_def)

lemma and_then_eq_Inr_iff:
  "and_then r f = Inr y \<longleftrightarrow> (\<exists>x. r = Inr x \<and> f x = Inr y)"
  by (cases r) auto

lemma require_utc_Inr_iff:
  "require_utc d = Inr t \<longleftrightarrow> d = AwareUTC t \<or> d = AwareOther t"
  by (cases d) auto

lemma set_sorted_set [simp]: "set (sorted_set xs) = set xs"
  by (simp add: sorted_set_def)

lemma sorted_sorted_set [simp]: "sorted (sorted_set xs)"
  by (simp add: sorted_set_def)

lemma distinct_sorted_set [simp]: "distinct (sorted_set xs)"
  by (simp add: sorted_set_def)

lemma sorted_set_eq_Nil_iff [simp]: "sorted_set xs = [] \<longleftrightarrow> xs = []"
  by (metis set_sorted_set set_empty)

lemma next_where_Some:
  "next_where P xs = Some x \<Longrightarrow> x \<in> set xs \<and> P x"
  by (auto simp: next_where_def find_Some_iff)

lemma next_where_None:
  "next_where P xs = None \<longleftrightarrow> (\<forall>x \<in> set xs. \<not> P x)"
  by (auto simp: next_where_def find_None_iff)

lemma digit_char_inj:
  assumes "0 \<le> d" "d < 10" "0 \<le> e" "e < 10" "digit_char d = digit_char e"
  shows "d = e"
proof -
  have "distinct ''0123456789''" by simp
  from nth_eq_iff_index_eq [OF this, of "nat d" "nat e"] assms show ?thesis
    by (simp add: digit_char_def)
qed

lemma nat_str_inj: "0 \<le> m \<Longrightarrow> 0 \<le> n \<Longrightarrow> nat_str m = nat_str n \<Longrightarrow> m = n"
proof (induction m arbitrary: n rule: nat_str.induct)
  case (1 m)
  have ne: "nat_str k \<noteq> []" for k by (subst nat_str.simps) simp
  show ?case
  proof (cases "m < 10")
    case True
    with "1.prems" have m: "[digit_char m] = nat_str n" by (simp add: nat_str.simps [of m])
    have "n < 10"
    proof (rule ccontr)
      assume "\<not> n < 10"
      with m show False by (simp add: nat_str.simps [of n] ne [symmetric])
    qed
    with m True "1.prems" show ?thesis
      by (auto simp: nat_str.simps [of n] intro: digit_char_inj)
  next
    case False
    have n: "\<not> n < 10"
      using "1.prems" False ne by (auto simp: nat_str.simps [of m] nat_str.simps [of n])
    with "1.prems" False have "nat_str (m div 10) = nat_str (n div 10)"
      and l: "digit_char (m mod 10) = digit_char (n mod 10)"
      by (simp_all add: nat_str.simps [of m] nat_str.simps [of n])
    with "1.IH" [OF False] "1.prems" have "m div 10 = n div 10" by simp
    moreover have "m mod 10 = n mod 10" by (rule digit_char_inj [OF _ _ _ _ l]) simp_all
    ultimately show ?thesis by (metis div_mult_mod_eq)
  qed
qed

section \<open>Transition systems\<close>

text \<open>
  The interface of a component with a state and a partial step function: a step that raises or is
  refused is \<open>None\<close> and leaves the state as it was. A component that proves the two laws gets the
  invariant for every run.
\<close>

fun run_steps :: "('s \<Rightarrow> 'e \<Rightarrow> 's option) \<Rightarrow> 's \<Rightarrow> 'e list \<Rightarrow> 's" where
  "run_steps step s [] = s"
| "run_steps step s (e # es) =
     run_steps step (case step s e of None \<Rightarrow> s | Some s' \<Rightarrow> s') es"

locale transition_system =
  fixes step :: "'s \<Rightarrow> 'e \<Rightarrow> 's option"
    and inv :: "'s \<Rightarrow> bool"
  assumes step_inv: "inv s \<Longrightarrow> step s e = Some s' \<Longrightarrow> inv s'"
begin

lemma run_inv: "inv s \<Longrightarrow> inv (run_steps step s es)"
  by (induction es arbitrary: s) (auto split: option.splits intro: step_inv)

end

text \<open>A transition system in which every step also moves along a preorder.\<close>

locale monotone_system = transition_system +
  fixes below :: "'a \<Rightarrow> 'a \<Rightarrow> bool"
  assumes below_refl: "below s s"
    and below_trans: "below s t \<Longrightarrow> below t u \<Longrightarrow> below s u"
    and step_below: "inv s \<Longrightarrow> step s e = Some s' \<Longrightarrow> below s s'"
begin

lemma run_below: "inv s \<Longrightarrow> below s (run_steps step s es)"
proof (induction es arbitrary: s)
  case Nil
  show ?case by (simp add: below_refl)
next
  case (Cons e es)
  show ?case
  proof (cases "step s e")
    case None
    with Cons show ?thesis by simp
  next
    case (Some s')
    with Cons.prems have "inv s'" and "below s s'" by (auto intro: step_inv step_below)
    with Cons.IH [of s'] Some show ?thesis by (auto intro: below_trans)
  qed
qed

end

end
