(* ===== verification/Ids.thy ===== *)
theory Ids
  imports Prelude
begin

text \<open>
  \<^verbatim>\<open>shared/ids.py\<close>: version 7 UUIDs as 128-bit words. The hexadecimal text of an identifier is
  what idempotency keys are made of, its big-endian bytes are what the database stores, and
  \<open>uuid7_from_sha256\<close> derives one from a timestamp and a digest. Shown here: the text and the byte
  forms are injective and the byte form round-trips, the derived identifier always carries version
  7, and derived identifiers sort by their timestamps.
\<close>

section \<open>Definitions\<close>

type_synonym uuid = "128 word"

definition hex_digit :: "uuid \<Rightarrow> char" where
  "hex_digit w = ''0123456789abcdef'' ! unat (take_bit 4 w)"

text \<open>\<^verbatim>\<open>UUID.hex\<close>\<close>

definition uuid_hex :: "uuid \<Rightarrow> string" where
  "uuid_hex u = map (\<lambda>i. hex_digit (drop_bit (4 * i) u)) (rev [0..<32])"

text \<open>\<^verbatim>\<open>UUID.bytes\<close> and \<^verbatim>\<open>UUID(bytes=...)\<close>\<close>

definition uuid_bytes :: "uuid \<Rightarrow> bytes" where
  "uuid_bytes u = map (\<lambda>i. ucast (drop_bit (8 * i) u)) (rev [0..<16])"

definition uuid_of_bytes :: "bytes \<Rightarrow> uuid" where
  "uuid_of_bytes bs = foldl (\<lambda>acc b. push_bit 8 acc OR ucast b) 0 bs"

text \<open>\<^verbatim>\<open>UUID.version\<close>: the version nibble of an RFC 4122 variant, absent for another variant.\<close>

definition uuid_version :: "uuid \<Rightarrow> nat option" where
  "uuid_version u =
     (if bit u 63 \<and> \<not> bit u 62 then Some (unat (drop_bit 76 u AND 15)) else None)"

definition require_uuid7 :: "uuid \<Rightarrow> unit result" where
  "require_uuid7 u =
     (if uuid_version u = Some 7 then Inr () else Inl (ValueError ''UUIDv7 is required''))"

definition uuid_to_binary :: "uuid \<Rightarrow> bytes result" where
  "uuid_to_binary u = and_then (require_uuid7 u) (\<lambda>_. Inr (uuid_bytes u))"

definition uuid_from_binary :: "bytes \<Rightarrow> uuid result" where
  "uuid_from_binary bs =
     (if length bs \<noteq> 16 then Inl (ValueError ''bytes is not a 16-char string'')
      else and_then (require_uuid7 (uuid_of_bytes bs)) (\<lambda>_. Inr (uuid_of_bytes bs)))"

definition int_to_bytes6 :: "int \<Rightarrow> bytes" where
  "int_to_bytes6 n = map (\<lambda>i. word_of_int (drop_bit (8 * i) n)) (rev [0..<6])"

definition uuid7_value :: "int \<Rightarrow> bytes \<Rightarrow> bytes" where
  "uuid7_value ms digest =
     (let v = int_to_bytes6 ms @ take 10 digest;
          v = v[6 := (v ! 6 AND 0x0F) OR 0x70]
      in v[8 := (v ! 8 AND 0x3F) OR 0x80])"

definition timestamp_ms :: "instant \<Rightarrow> int" where
  "timestamp_ms t = (t div 1000000) * 1000"

definition uuid7_from_sha256 :: "py_datetime \<Rightarrow> bytes \<Rightarrow> uuid result" where
  "uuid7_from_sha256 timestamp digest =
     (case timestamp of
        AwareUTC t \<Rightarrow>
          if t mod 1000000 \<noteq> 0 then Inl (ValueError ''timestamp must be whole-second UTC'')
          else if length digest \<noteq> 32 then Inl (ValueError ''digest must be SHA-256'')
          else if \<not> (0 \<le> timestamp_ms t \<and> timestamp_ms t < 2 ^ 48)
            then Inl (ValueError ''timestamp is outside UUIDv7 range'')
          else Inr (uuid_of_bytes (uuid7_value (timestamp_ms t) digest))
      | _ \<Rightarrow> Inl (ValueError ''timestamp must be whole-second UTC''))"

section \<open>Text and byte forms\<close>

lemma length_uuid_hex [simp]: "length (uuid_hex u) = 32"
  by (simp add: uuid_hex_def)

lemma length_uuid_bytes [simp]: "length (uuid_bytes u) = 16"
  by (simp add: uuid_bytes_def)

lemma byte_index: "n < 128 \<Longrightarrow> n div 8 < (16::nat)"
  by simp

lemma hex_digits_distinct: "distinct ''0123456789abcdef''"
  by simp

lemma take_bit_4_less: "unat (take_bit 4 (w :: uuid)) < 16"
  using take_bit_nat_less_exp [of 4 "unat w"] by (simp add: unsigned_take_bit_eq)

lemma hex_digit_inj: "hex_digit v = hex_digit w \<Longrightarrow> take_bit 4 v = take_bit 4 w"
proof -
  assume "hex_digit v = hex_digit w"
  then have "unat (take_bit 4 v) = unat (take_bit 4 w)"
    using nth_eq_iff_index_eq [OF hex_digits_distinct, of "unat (take_bit 4 v)" "unat (take_bit 4 w)"]
      take_bit_4_less [of v] take_bit_4_less [of w]
    by (simp add: hex_digit_def)
  then show ?thesis by (simp only: word_unat_eq_iff)
qed

lemma word_eq_by_nibbles:
  assumes "\<And>i. i < 32 \<Longrightarrow> take_bit 4 (drop_bit (4 * i) u) = take_bit 4 (drop_bit (4 * i) (v :: uuid))"
  shows "u = v"
proof (rule bit_word_eqI)
  fix n assume n: "n < LENGTH(128)"
  then have "n div 4 < 32" by simp
  from assms [OF this]
  have "bit (take_bit 4 (drop_bit (4 * (n div 4)) u)) (n mod 4)
        = bit (take_bit 4 (drop_bit (4 * (n div 4)) v)) (n mod 4)" by simp
  then show "bit u n = bit v n" by (simp add: bit_take_bit_iff bit_drop_bit_eq)
qed

lemma uuid_hex_inj: "uuid_hex u = uuid_hex v \<longleftrightarrow> u = v"
proof
  assume eq: "uuid_hex u = uuid_hex v"
  show "u = v"
  proof (rule word_eq_by_nibbles)
    fix i :: nat assume i: "i < 32"
    from eq have "hex_digit (drop_bit (4 * i) u) = hex_digit (drop_bit (4 * i) v)"
      using i by (auto simp: uuid_hex_def)
    then show "take_bit 4 (drop_bit (4 * i) u) = take_bit 4 (drop_bit (4 * i) v)"
      by (rule hex_digit_inj)
  qed
qed simp

lemma uuid_of_bytes_snoc:
  "uuid_of_bytes (bs @ [b]) = push_bit 8 (uuid_of_bytes bs) OR ucast b"
  by (simp add: uuid_of_bytes_def)

lemma bit_uuid_of_bytes:
  "n < 128 \<Longrightarrow> bit (uuid_of_bytes bs) n \<longleftrightarrow> n div 8 < length bs \<and> bit (rev bs ! (n div 8)) (n mod 8)"
proof (induction bs arbitrary: n rule: rev_induct)
  case Nil
  show ?case by (simp add: uuid_of_bytes_def)
next
  case (snoc b bs)
  show ?case
  proof (cases "n < 8")
    case True
    then show ?thesis
      by (simp add: uuid_of_bytes_snoc bit_or_iff bit_push_bit_iff bit_ucast_iff)
  next
    case False
    with snoc.prems have m: "n - 8 < 128" "n div 8 = Suc ((n - 8) div 8)" "n mod 8 = (n - 8) mod 8"
      by (auto simp: le_div_geq le_mod_geq)
    have nb: "\<not> bit b n" using False bit_imp_le_length [of b n] by auto
    show ?thesis
      using snoc.IH [OF m(1)] False snoc.prems nb
      by (simp add: uuid_of_bytes_snoc bit_or_iff bit_push_bit_iff bit_ucast_iff m(2,3))
  qed
qed

lemma uuid_of_bytes_bytes [simp]: "uuid_of_bytes (uuid_bytes u) = u"
proof (rule bit_word_eqI)
  fix n assume n: "n < LENGTH(128)"
  have "rev (uuid_bytes u) ! (n div 8) = ucast (drop_bit (8 * (n div 8)) u)"
    using n byte_index [of n] by (simp add: uuid_bytes_def rev_map)
  then show "bit (uuid_of_bytes (uuid_bytes u)) n = bit u n"
    using n by (simp add: bit_uuid_of_bytes byte_index bit_ucast_iff bit_drop_bit_eq)
qed

section \<open>Derived version 7 identifiers\<close>

lemma length_uuid7_value: "length digest = 32 \<Longrightarrow> length (uuid7_value ms digest) = 16"
  by (simp add: uuid7_value_def int_to_bytes6_def Let_def)

lemma uuid7_value_6: "length digest = 32 \<Longrightarrow> \<exists>x. uuid7_value ms digest ! 6 = (x AND 0x0F) OR 0x70"
  by (auto simp: uuid7_value_def int_to_bytes6_def Let_def)

lemma uuid7_value_8: "length digest = 32 \<Longrightarrow> \<exists>x. uuid7_value ms digest ! 8 = (x AND 0x3F) OR 0x80"
  by (auto simp: uuid7_value_def int_to_bytes6_def Let_def)

lemma uuid7_value_time:
  "length digest = 32 \<Longrightarrow> i < 6 \<Longrightarrow> uuid7_value ms digest ! i = word_of_int (drop_bit (8 * (5 - i)) ms)"
  by (simp add: uuid7_value_def int_to_bytes6_def Let_def nth_append rev_nth)

lemma rev_nth_value:
  "length digest = 32 \<Longrightarrow> i < 16 \<Longrightarrow> rev (uuid7_value ms digest) ! i = uuid7_value ms digest ! (15 - i)"
  by (simp add: rev_nth length_uuid7_value)

lemma nibble_seven:
  fixes w :: uuid
  assumes "bit w 0" "bit w 1" "bit w 2" "\<not> bit w 3"
  shows "w AND 15 = 7"
proof -
  let ?n = "unat w"
  have b: "bit ?n 0" "bit ?n 1" "bit ?n 2" "\<not> bit ?n 3"
    using assms by (simp_all add: bit_unsigned_iff)
  have "w AND 15 = take_bit 4 w" by (simp add: take_bit_eq_mask mask_numeral)
  then have "unat (w AND 15) = take_bit 4 ?n" by (simp add: unsigned_take_bit_eq)
  also have "\<dots> = 2 ^ 3 * of_bool (bit ?n 3) + (2 ^ 2 * of_bool (bit ?n 2)
      + (2 ^ 1 * of_bool (bit ?n 1) + (2 ^ 0 * of_bool (bit ?n 0) + take_bit 0 ?n)))"
    using take_bit_Suc_from_most [of 3 ?n] take_bit_Suc_from_most [of 2 ?n]
      take_bit_Suc_from_most [of 1 ?n] take_bit_Suc_from_most [of 0 ?n]
    by (simp only: Suc_numeral One_nat_def Suc_1 add_One BitM.simps numeral_eq_Suc pred_numeral_simps)
  also have "\<dots> = unat (7 :: uuid)" using b by simp
  finally show ?thesis by (simp only: word_unat_eq_iff)
qed

lemma uuid7_version:
  assumes d: "length digest = 32"
  shows "uuid_version (uuid_of_bytes (uuid7_value ms digest)) = Some 7"
proof -
  let ?u = "uuid_of_bytes (uuid7_value ms digest)"
  obtain x where x: "uuid7_value ms digest ! 6 = (x AND 0x0F) OR 0x70" using uuid7_value_6 [OF d] by blast
  obtain y where y: "uuid7_value ms digest ! 8 = (y AND 0x3F) OR 0x80" using uuid7_value_8 [OF d] by blast
  have b: "bit ?u n \<longleftrightarrow> bit (uuid7_value ms digest ! (15 - n div 8)) (n mod 8)" if "n < 128" for n
    using that by (simp add: bit_uuid_of_bytes byte_index rev_nth_value [OF d] length_uuid7_value [OF d])
  have v: "bit ?u 63" "\<not> bit ?u 62"
    using b [of 63] b [of 62] by (simp_all add: y bit_or_iff bit_and_iff)
  have "bit ?u 76" "bit ?u 77" "bit ?u 78" "\<not> bit ?u 79"
    using b [of 76] b [of 77] b [of 78] b [of 79] by (simp_all add: x bit_or_iff bit_and_iff)
  then have "drop_bit 76 ?u AND 15 = 7"
    by (intro nibble_seven) (simp_all add: bit_drop_bit_eq)
  with v show ?thesis by (simp add: uuid_version_def)
qed

lemma uuid7_time:
  assumes d: "length digest = 32" and ms: "0 \<le> ms" "ms < 2 ^ 48"
  shows "uint (uuid_of_bytes (uuid7_value ms digest)) div 2 ^ 80 = ms"
proof -
  let ?u = "uuid_of_bytes (uuid7_value ms digest)"
  have "drop_bit 80 ?u = word_of_int ms"
  proof (rule bit_word_eqI)
    fix n assume n: "n < LENGTH(128)"
    show "bit (drop_bit 80 ?u) n = bit (word_of_int ms :: uuid) n"
    proof (cases "n < 48")
      case True
      let ?i = "(80 + n) div 8"
      have i: "?i < 16" "15 - ?i < 6" "5 - (15 - ?i) = n div 8" "(80 + n) mod 8 = n mod 8"
        using True div_mult_self1 [of 8 n 10] mod_mult_self1 [of n 10 8] by (auto simp: add.commute)
      have "bit ?u (80 + n) \<longleftrightarrow> bit (uuid7_value ms digest ! (15 - ?i)) ((80 + n) mod 8)"
        using True i by (simp add: bit_uuid_of_bytes rev_nth_value [OF d] length_uuid7_value [OF d])
      also have "\<dots> \<longleftrightarrow> bit ms n"
        using i by (simp add: uuid7_value_time [OF d] bit_word_of_int_iff bit_drop_bit_eq)
      finally show ?thesis using n by (simp add: bit_drop_bit_eq bit_word_of_int_iff)
    next
      case False
      have "take_bit 48 ms = ms" using ms by (simp add: take_bit_int_eq_self)
      then have "\<not> bit ms n" using False by (metis bit_take_bit_iff)
      moreover have "\<not> bit ?u (80 + n)" using False bit_imp_le_length [of ?u "80 + n"] by auto
      ultimately show ?thesis using n by (simp add: bit_drop_bit_eq bit_word_of_int_iff)
    qed
  qed
  then have "uint (drop_bit 80 ?u) = ms"
    using ms by (simp add: uint_word_of_int take_bit_int_eq_self)
  moreover have "uint (drop_bit 80 ?u) = uint ?u div 2 ^ 80"
    by (simp add: drop_bit_eq_div uint_div_distrib)
  ultimately show ?thesis by simp
qed

lemma uuid7_from_sha256_Inr:
  assumes "uuid7_from_sha256 ts digest = Inr u"
  obtains t where "ts = AwareUTC t" and "t mod 1000000 = 0" and "length digest = 32"
    and "0 \<le> timestamp_ms t" and "timestamp_ms t < 2 ^ 48"
    and "u = uuid_of_bytes (uuid7_value (timestamp_ms t) digest)"
  using assms by (cases ts) (auto simp: uuid7_from_sha256_def split: if_splits)

text \<open>C39: the byte form of every version 7 identifier reads back as the same identifier, the bytes
  of any other identifier are refused on both sides, and hexadecimal text determines the identifier.\<close>

theorem uuid_binary_roundtrip:
  "(case uuid_to_binary u of Inl _ \<Rightarrow> uuid_version u \<noteq> Some 7 \<and> failed (uuid_from_binary (uuid_bytes u))
    | Inr bs \<Rightarrow> uuid_from_binary bs = Inr u)
   \<and> (uuid_hex u = uuid_hex v \<longleftrightarrow> u = v)"
  by (auto simp: uuid_to_binary_def uuid_from_binary_def require_uuid7_def uuid_hex_inj failed_def)

text \<open>An identifier derived from a timestamp and a digest is always a version 7 identifier, and
  identifiers derived at different seconds sort in the order of their timestamps, whatever the
  digests.\<close>

theorem uuid7_from_sha256_time_ordered:
  assumes "uuid7_from_sha256 (AwareUTC s) d = Inr u" and "uuid7_from_sha256 (AwareUTC t) e = Inr v"
    and "s < t"
  shows "uuid_version u = Some 7 \<and> uuid_version v = Some 7 \<and> u < v"
proof -
  from assms(1) have u: "u = uuid_of_bytes (uuid7_value (timestamp_ms s) d)" and d: "length d = 32"
    and s: "0 \<le> timestamp_ms s" "timestamp_ms s < 2 ^ 48" and s0: "s mod 1000000 = 0"
    by (auto elim: uuid7_from_sha256_Inr)
  from assms(2) have v: "v = uuid_of_bytes (uuid7_value (timestamp_ms t) e)" and e: "length e = 32"
    and t: "0 \<le> timestamp_ms t" "timestamp_ms t < 2 ^ 48" and t0: "t mod 1000000 = 0"
    by (auto elim: uuid7_from_sha256_Inr)
  have "timestamp_ms s < timestamp_ms t"
    using assms(3) s0 t0 by (auto simp: timestamp_ms_def)
  then have "uint u div 2 ^ 80 < uint v div 2 ^ 80"
    using uuid7_time [OF d s] uuid7_time [OF e t] by (simp add: u v)
  then have "uint u < uint v" by (metis not_le zdiv_mono1 zero_less_numeral zero_less_power)
  then have "u < v" by (simp add: word_less_def)
  with uuid7_version [OF d] uuid7_version [OF e] show ?thesis by (simp add: u v)
qed

theorem uuid7_from_sha256_time_ordered_witness:
  "\<exists>u v. uuid7_from_sha256 (AwareUTC 0) (replicate 32 255) = Inr u
     \<and> uuid7_from_sha256 (AwareUTC 1000000) (replicate 32 0) = Inr v
     \<and> uuid_version u = Some 7 \<and> uuid_version v = Some 7 \<and> u < v"
proof -
  have u: "uuid7_from_sha256 (AwareUTC 0) (replicate 32 255)
      = Inr (uuid_of_bytes (uuid7_value 0 (replicate 32 255)))"
    by (simp add: uuid7_from_sha256_def timestamp_ms_def)
  have v: "uuid7_from_sha256 (AwareUTC 1000000) (replicate 32 0)
      = Inr (uuid_of_bytes (uuid7_value 1000 (replicate 32 0)))"
    by (simp add: uuid7_from_sha256_def timestamp_ms_def)
  have "(0::int) < 1000000" by simp
  from uuid7_from_sha256_time_ordered [OF u v this] u v show ?thesis by blast
qed

end
