(* ===== verification/Orders.thy ===== *)
theory Orders
  imports Ids
begin

text \<open>
  \<^verbatim>\<open>execution/orders/models.py\<close> and \<^verbatim>\<open>execution/orders/state_machine.py\<close>: the order, the
  broker status events and the state machine that applies them. Shown here: the allowed
  transitions, what a transition may change, when an order may become terminal, in which order
  sequenced events are accepted, and the invariants of every run of the machine.
\<close>

section \<open>Order models\<close>

datatype OrderStatus =
    CREATED | SUBMITTED | ACKNOWLEDGED | PARTIALLY_FILLED | FILLED
  | CANCEL_PENDING | CANCELED | REJECTED | EXPIRED | UNKNOWN

definition TERMINAL_ORDER_STATUSES :: "OrderStatus list" where
  "TERMINAL_ORDER_STATUSES = [FILLED, CANCELED, REJECTED, EXPIRED]"

definition all_order_statuses :: "OrderStatus list" where
  "all_order_statuses =
     [CREATED, SUBMITTED, ACKNOWLEDGED, PARTIALLY_FILLED, FILLED, CANCEL_PENDING, CANCELED,
      REJECTED, EXPIRED, UNKNOWN]"

definition WORKING_ORDER_STATUSES :: "OrderStatus list" where
  "WORKING_ORDER_STATUSES =
     filter (\<lambda>s. s \<notin> set TERMINAL_ORDER_STATUSES \<and> s \<noteq> UNKNOWN) all_order_statuses"

fun status_value :: "OrderStatus \<Rightarrow> string" where
  "status_value CREATED = ''CREATED''"
| "status_value SUBMITTED = ''SUBMITTED''"
| "status_value ACKNOWLEDGED = ''ACKNOWLEDGED''"
| "status_value PARTIALLY_FILLED = ''PARTIALLY_FILLED''"
| "status_value FILLED = ''FILLED''"
| "status_value CANCEL_PENDING = ''CANCEL_PENDING''"
| "status_value CANCELED = ''CANCELED''"
| "status_value REJECTED = ''REJECTED''"
| "status_value EXPIRED = ''EXPIRED''"
| "status_value UNKNOWN = ''UNKNOWN''"

datatype CommandType = SUBMIT | CANCEL | REPLACE

record BrokerOrderLinkState =
  bl_id :: uuid
  bl_broker_order_id :: string
  bl_link_sequence :: int
  bl_exposure_bearing :: bool
  bl_status :: OrderStatus

definition is_terminal :: "BrokerOrderLinkState \<Rightarrow> bool" where
  "is_terminal link \<longleftrightarrow> bl_status link \<in> set TERMINAL_ORDER_STATUSES"

record BrokerStatusWatermark =
  wm_source_partition :: string
  wm_last_contiguous_sequence :: int

record Order =
  ord_id :: uuid
  ord_order_intent_id :: uuid
  ord_risk_decision_id :: uuid
  ord_account_id :: uuid
  ord_instrument_id :: uuid
  ord_side :: Side
  ord_order_style :: OrderStyle
  ord_requested_quantity :: decimal
  ord_limit_price :: "decimal option"
  ord_status :: OrderStatus
  ord_aggregate_version :: int
  ord_broker_client_order_id :: string
  ord_created_at :: instant
  ord_trigger_price :: "decimal option"

text \<open>\<^verbatim>\<open>Order.__post_init__\<close>\<close>

definition limit_price_checks :: "OrderStyle \<Rightarrow> decimal option \<Rightarrow> string \<Rightarrow> string \<Rightarrow> checks" where
  "limit_price_checks style price missing forbidden =
     (case style of
        LIMIT \<Rightarrow> [((case price of None \<Rightarrow> True | Some p \<Rightarrow> p \<le> 0), ValueError missing)]
      | MARKET \<Rightarrow> [(price \<noteq> None, ValueError forbidden)])"

definition trigger_price_checks :: "OrderStyle \<Rightarrow> decimal option \<Rightarrow> string \<Rightarrow> checks" where
  "trigger_price_checks style trigger not_market =
     (case trigger of
        None \<Rightarrow> []
      | Some p \<Rightarrow> [(style \<noteq> MARKET, ValueError not_market),
                   (p \<le> 0, ValueError ''trigger_price must be positive'')])"

definition Order_checks :: "Order \<Rightarrow> checks" where
  "Order_checks ord =
     [(ord_requested_quantity ord \<le> 0, ValueError ''order requested quantity must be positive'')]
     @ limit_price_checks (ord_order_style ord) (ord_limit_price ord)
         ''limit order requires a positive limit price'' ''market order cannot carry a limit price''
     @ trigger_price_checks (ord_order_style ord) (ord_trigger_price ord)
         ''a triggered order must be a market order''
     @ [(ord_aggregate_version ord < 0, ValueError ''aggregate version must be non-negative'')]"

definition wf_order :: "Order \<Rightarrow> bool" where
  "wf_order ord \<longleftrightarrow> first_error (Order_checks ord) = None"

record BrokerOrderStatusEvent =
  bse_broker_id :: uuid
  bse_account_id :: uuid
  bse_source_partition :: string
  bse_dedupe_key :: string
  bse_raw_status :: string
  bse_occurred_at :: instant
  bse_source_sequence :: "int option"
  bse_broker_order_id :: "string option"
  bse_order_id :: "uuid option"
  bse_broker_client_order_id :: "string option"
  bse_requested_quantity :: "decimal option"
  bse_cumulative_filled_quantity :: "decimal option"
  bse_observed_at :: "instant option"
  bse_payload_hash :: bytes

record OrderDomainEvent =
  ode_order_id :: uuid
  ode_aggregate_version :: int
  ode_status :: OrderStatus
  ode_raw_status :: string
  ode_occurred_at :: instant

record OrderTransition =
  tr_order :: Order
  tr_event :: OrderDomainEvent
  tr_watermark :: "BrokerStatusWatermark option"

text \<open>\<^verbatim>\<open>OrderTransition.create\<close>; \<^verbatim>\<open>replace\<close> runs the constructor's checks again.\<close>

definition OrderTransition_create ::
  "Order \<Rightarrow> OrderStatus \<Rightarrow> string \<Rightarrow> instant \<Rightarrow> OrderTransition result" where
  "OrderTransition_create ord status raw_status occurred_at =
     (let updated = ord\<lparr>ord_status := status,
                        ord_aggregate_version := ord_aggregate_version ord + 1\<rparr>
      in validated (Order_checks updated)
           \<lparr>tr_order = updated,
            tr_event = \<lparr>ode_order_id = ord_id ord,
                        ode_aggregate_version = ord_aggregate_version updated,
                        ode_status = status,
                        ode_raw_status = raw_status,
                        ode_occurred_at = occurred_at\<rparr>,
            tr_watermark = None\<rparr>)"

record DeferredBrokerStatus =
  dbs_order :: Order
  dbs_event :: BrokerOrderStatusEvent
  dbs_reason :: string
  dbs_missing_from_sequence :: "int option"

definition all_exposure_links_terminal :: "BrokerOrderLinkState list \<Rightarrow> bool" where
  "all_exposure_links_terminal links = list_all is_terminal (filter bl_exposure_bearing links)"

record BrokerOrderCommand =
  cmd_id :: uuid
  cmd_order_id :: uuid
  cmd_account_id :: uuid
  cmd_instrument_id :: uuid
  cmd_command_type :: CommandType
  cmd_target_aggregate_version :: int
  cmd_idempotency_key :: string
  cmd_command_sequence :: int
  cmd_canonical_payload_hash :: bytes
  cmd_broker_client_order_id :: string
  cmd_target_broker_order_id :: "string option"
  cmd_replaces_command_id :: "uuid option"
  cmd_origin_type :: string
  cmd_authority_class :: string
  cmd_owner_runtime_instance_id :: "uuid option"
  cmd_fencing_token :: int
  cmd_not_after :: instant
  cmd_side :: Side
  cmd_order_style :: OrderStyle
  cmd_quantity :: decimal
  cmd_limit_price :: "decimal option"
  cmd_time_in_force :: string
  cmd_trigger_price :: "decimal option"
  cmd_status :: string
  cmd_dispatch_attempted_at :: "instant option"

section \<open>The state machine\<close>

text \<open>\<^verbatim>\<open>OrderStateMachine._STATUSES\<close> and \<^verbatim>\<open>_ALLOWED\<close>\<close>

definition parse_status :: "string \<Rightarrow> OrderStatus option" where
  "parse_status raw = next_where (\<lambda>s. status_value s = raw) all_order_statuses"

fun ALLOWED :: "OrderStatus \<Rightarrow> OrderStatus list" where
  "ALLOWED CREATED = [SUBMITTED, EXPIRED, UNKNOWN]"
| "ALLOWED SUBMITTED = [ACKNOWLEDGED, REJECTED, CANCEL_PENDING, CANCELED, EXPIRED, UNKNOWN]"
| "ALLOWED ACKNOWLEDGED = [PARTIALLY_FILLED, FILLED, CANCEL_PENDING, CANCELED, UNKNOWN]"
| "ALLOWED PARTIALLY_FILLED = [PARTIALLY_FILLED, FILLED, CANCEL_PENDING, CANCELED, UNKNOWN]"
| "ALLOWED CANCEL_PENDING = [CANCELED, PARTIALLY_FILLED, FILLED, UNKNOWN]"
| "ALLOWED UNKNOWN = [UNKNOWN]"
| "ALLOWED FILLED = []"
| "ALLOWED CANCELED = []"
| "ALLOWED REJECTED = []"
| "ALLOWED EXPIRED = []"

definition can_terminalize ::
  "BrokerOrderStatusEvent \<Rightarrow> BrokerOrderLinkState list option \<Rightarrow> bool result" where
  "can_terminalize event links =
     (case links of
        None \<Rightarrow> Inr False
      | Some [] \<Rightarrow> Inr False
      | Some (l # ls) \<Rightarrow>
         (case bse_broker_order_id event of
            None \<Rightarrow> Inr False
          | Some bid \<Rightarrow>
             (case next_where (\<lambda>link. bl_broker_order_id link = bid) (l # ls) of
                None \<Rightarrow> Inr False
              | Some matching_link \<Rightarrow>
                 (case parse_status (bse_raw_status event) of
                    None \<Rightarrow> Inl (ValueError ''not a valid OrderStatus'')
                  | Some status \<Rightarrow>
                      Inr (all_exposure_links_terminal
                        (map (\<lambda>link. if bl_id link = bl_id matching_link
                                     then link\<lparr>bl_status := status\<rparr> else link) (l # ls)))))))"

datatype apply_outcome = Transition OrderTransition | Deferred DeferredBrokerStatus

definition defer_status ::
  "Order \<Rightarrow> BrokerOrderStatusEvent \<Rightarrow> string \<Rightarrow> int option \<Rightarrow> apply_outcome" where
  "defer_status ord event reason missing =
     Deferred \<lparr>dbs_order = ord, dbs_event = event, dbs_reason = reason,
               dbs_missing_from_sequence = missing\<rparr>"

text \<open>The part of \<^verbatim>\<open>apply\<close> after the sequence checks: target, terminal guard, transition.\<close>

definition apply_target ::
  "Order \<Rightarrow> BrokerOrderStatusEvent \<Rightarrow> BrokerOrderLinkState list option \<Rightarrow> int
    \<Rightarrow> apply_outcome result" where
  "apply_target ord event links expected_sequence =
     (let target = (case parse_status (bse_raw_status event) of None \<Rightarrow> UNKNOWN | Some s \<Rightarrow> s) in
      and_then (if target \<in> set [FILLED, CANCELED, REJECTED, EXPIRED]
                then can_terminalize event links else Inr True)
        (\<lambda>may.
          if \<not> may then Inr (defer_status ord event ''LIVE_SUCCESSOR_LINK'' (Some expected_sequence))
          else if target \<notin> set (ALLOWED (ord_status ord)) then
            (if ord_status ord = PARTIALLY_FILLED \<and> target = ACKNOWLEDGED
                \<and> bse_source_sequence event \<noteq> None
             then Inr (defer_status ord event ''STALE_STATUS'' None)
             else Inl (InvalidOrderTransitionError
                         (status_value (ord_status ord) @ '' cannot transition to '' @ status_value target)))
          else and_then
            (OrderTransition_create ord target (bse_raw_status event) (bse_occurred_at event))
            (\<lambda>transition.
              case bse_source_sequence event of
                None \<Rightarrow> Inr (Transition transition)
              | Some n \<Rightarrow> Inr (Transition (transition\<lparr>tr_watermark :=
                  Some \<lparr>wm_source_partition = bse_source_partition event,
                        wm_last_contiguous_sequence = n\<rparr>\<rparr>)))))"

definition find_watermark ::
  "BrokerStatusWatermark list \<Rightarrow> string \<Rightarrow> BrokerStatusWatermark option" where
  "find_watermark wms part = next_where (\<lambda>w. wm_source_partition w = part) wms"

definition expected_sequence :: "BrokerStatusWatermark option \<Rightarrow> int" where
  "expected_sequence w = (case w of None \<Rightarrow> 1 | Some w \<Rightarrow> wm_last_contiguous_sequence w + 1)"

text \<open>\<^verbatim>\<open>OrderStateMachine.apply\<close>\<close>

definition apply_status_event ::
  "Order \<Rightarrow> BrokerOrderStatusEvent \<Rightarrow> BrokerOrderLinkState list option
    \<Rightarrow> BrokerStatusWatermark list \<Rightarrow> apply_outcome result" where
  "apply_status_event ord event links watermarks =
     (if bse_account_id event \<noteq> ord_account_id ord
      then Inl (InvalidOrderTransitionError ''broker event account does not match order'')
      else let w = find_watermark watermarks (bse_source_partition event);
               expected = expected_sequence w
      in case bse_source_sequence event of
           None \<Rightarrow> apply_target ord event links expected
         | Some n \<Rightarrow>
             if (case w of None \<Rightarrow> False | Some w \<Rightarrow> n \<le> wm_last_contiguous_sequence w)
             then Inr (defer_status ord event ''STALE_SEQUENCE'' None)
             else if n > expected
             then Inr (defer_status ord event ''SEQUENCE_GAP'' (Some expected))
             else apply_target ord event links expected)"

text \<open>
  The machine as a transition system on orders: an event that is applied moves the order, one that
  is deferred or refused leaves it.
\<close>

definition order_step ::
  "Order \<Rightarrow> BrokerOrderStatusEvent \<times> BrokerOrderLinkState list option \<times> BrokerStatusWatermark list
    \<Rightarrow> Order option" where
  "order_step ord e =
     (case e of (event, links, wms) \<Rightarrow>
        (case apply_status_event ord event links wms of
           Inr (Transition t) \<Rightarrow> Some (tr_order t)
         | _ \<Rightarrow> None))"

text \<open>The graph of \<open>ALLOWED\<close> as a step relation, and the statuses an order can pass through.\<close>

inductive status_step :: "OrderStatus \<Rightarrow> OrderStatus \<Rightarrow> bool" where
  allowed: "t \<in> set (ALLOWED s) \<Longrightarrow> status_step s t"

inductive status_path :: "OrderStatus list \<Rightarrow> bool" where
  start: "status_path [CREATED]"
| move: "status_path (s # ss) \<Longrightarrow> status_step s t \<Longrightarrow> status_path (t # s # ss)"

fun order_history ::
  "Order \<Rightarrow> OrderStatus list
    \<Rightarrow> (BrokerOrderStatusEvent \<times> BrokerOrderLinkState list option \<times> BrokerStatusWatermark list) list
    \<Rightarrow> OrderStatus list" where
  "order_history ord past [] = past"
| "order_history ord past (e # es) =
     (case order_step ord e of
        None \<Rightarrow> order_history ord past es
      | Some ord' \<Rightarrow> order_history ord' (ord_status ord' # past) es)"

inductive_cases status_path_Cons: "status_path (s # ss)"
inductive_simps status_step_iff: "status_step s t"

section \<open>Lemmas\<close>

named_theorems order_defs \<open>definitions of the order state machine\<close>

lemmas [order_defs] = defer_status_def

lemma parse_status_value [simp]: "parse_status (status_value s) = Some s"
  by (cases s) (simp_all add: parse_status_def next_where_def all_order_statuses_def)

lemma parse_status_Some: "parse_status raw = Some s \<Longrightarrow> status_value s = raw"
  by (auto simp: parse_status_def dest: next_where_Some)

lemma ALLOWED_terminal: "s \<in> set TERMINAL_ORDER_STATUSES \<Longrightarrow> ALLOWED s = []"
  by (auto simp: TERMINAL_ORDER_STATUSES_def)

lemma transition_create_Inr:
  "OrderTransition_create ord s raw moment = Inr t \<longleftrightarrow>
     wf_order (ord\<lparr>ord_status := s, ord_aggregate_version := ord_aggregate_version ord + 1\<rparr>)
     \<and> t = \<lparr>tr_order = ord\<lparr>ord_status := s, ord_aggregate_version := ord_aggregate_version ord + 1\<rparr>,
            tr_event = \<lparr>ode_order_id = ord_id ord,
                        ode_aggregate_version = ord_aggregate_version ord + 1,
                        ode_status = s, ode_raw_status = raw, ode_occurred_at = moment\<rparr>,
            tr_watermark = None\<rparr>"
  by (auto simp: OrderTransition_create_def wf_order_def checks_simps Let_def)

lemma wf_order_step:
  "wf_order ord \<Longrightarrow> wf_order (ord\<lparr>ord_status := s, ord_aggregate_version := ord_aggregate_version ord + 1\<rparr>)"
  by (auto simp: wf_order_def Order_checks_def first_error_append split: option.splits if_splits)

text \<open>What an applied event says about the order before and after it.\<close>

lemma apply_target_Transition:
  assumes "apply_target ord event links n = Inr (Transition t)"
  obtains target where "target \<in> set (ALLOWED (ord_status ord))"
    and "tr_order t = ord\<lparr>ord_status := target, ord_aggregate_version := ord_aggregate_version ord + 1\<rparr>"
    and "wf_order (tr_order t)"
    and "target = (case parse_status (bse_raw_status event) of None \<Rightarrow> UNKNOWN | Some s \<Rightarrow> s)"
    and "target \<in> set TERMINAL_ORDER_STATUSES \<Longrightarrow> can_terminalize event links = Inr True"
    and "map_option wm_last_contiguous_sequence (tr_watermark t) = bse_source_sequence event"
    and "ode_status (tr_event t) = target \<and> ode_aggregate_version (tr_event t) = ord_aggregate_version ord + 1"
  using assms
  by (auto simp: apply_target_def Let_def and_then_eq_Inr_iff transition_create_Inr order_defs
        TERMINAL_ORDER_STATUSES_def split: if_splits option.splits)

lemma apply_status_Transition:
  assumes "apply_status_event ord event links wms = Inr (Transition t)"
  shows "apply_target ord event links (expected_sequence (find_watermark wms (bse_source_partition event)))
           = Inr (Transition t)"
    and "bse_account_id event = ord_account_id ord"
  using assms
  by (auto simp: apply_status_event_def Let_def order_defs split: if_splits option.splits)

lemma can_terminalize_True:
  assumes "can_terminalize event links = Inr True"
  obtains ls m status where "links = Some ls" and "m \<in> set ls"
    and "bse_broker_order_id event = Some (bl_broker_order_id m)"
    and "parse_status (bse_raw_status event) = Some status"
    and "\<And>l. l \<in> set ls \<Longrightarrow> bl_exposure_bearing l \<Longrightarrow> bl_id l \<noteq> bl_id m \<Longrightarrow> is_terminal l"
  using assms
  by (fastforce simp: can_terminalize_def all_exposure_links_terminal_def list_all_iff
        split: option.splits list.splits if_splits dest!: next_where_Some)

interpretation order_machine: transition_system order_step wf_order
proof
  fix s e s' assume "wf_order s" "order_step s e = Some s'"
  then show "wf_order s'"
    by (auto simp: order_step_def split: prod.splits sum.splits apply_outcome.splits
          dest!: apply_status_Transition(1) elim!: apply_target_Transition)
qed

lemma order_step_Some:
  assumes "order_step ord e = Some ord'"
  shows "status_step (ord_status ord) (ord_status ord')"
    and "ord' = ord\<lparr>ord_status := ord_status ord', ord_aggregate_version := ord_aggregate_version ord + 1\<rparr>"
proof -
  obtain event links wms where e: "e = (event, links, wms)" by (cases e) auto
  from assms obtain t where t: "apply_status_event ord event links wms = Inr (Transition t)"
    and o: "ord' = tr_order t"
    by (auto simp: order_step_def e split: sum.splits apply_outcome.splits)
  from apply_status_Transition(1) [OF t] obtain target where
    "target \<in> set (ALLOWED (ord_status ord))"
    "tr_order t = ord\<lparr>ord_status := target, ord_aggregate_version := ord_aggregate_version ord + 1\<rparr>"
    by (rule apply_target_Transition)
  then show "status_step (ord_status ord) (ord_status ord')"
    and "ord' = ord\<lparr>ord_status := ord_status ord', ord_aggregate_version := ord_aggregate_version ord + 1\<rparr>"
    by (simp_all add: o status_step_iff)
qed

lemma order_step_terminal: "ord_status ord \<in> set TERMINAL_ORDER_STATUSES \<Longrightarrow> order_step ord e = None"
  by (cases "order_step ord e") (auto dest!: order_step_Some(1) simp: status_step_iff ALLOWED_terminal)

lemma order_history_path:
  "status_path (ord_status ord # past) \<Longrightarrow> status_path (order_history ord (ord_status ord # past) es)"
proof (induction es arbitrary: ord past)
  case Nil
  then show ?case by simp
next
  case (Cons e es)
  show ?case
  proof (cases "order_step ord e")
    case None
    with Cons show ?thesis by simp
  next
    case (Some ord')
    with Cons.prems have "status_path (ord_status ord' # ord_status ord # past)"
      by (blast intro: status_path.move order_step_Some(1))
    with Cons.IH [of ord'] Some show ?thesis by simp
  qed
qed

text \<open>The shapes a status path can have before an order is known to the broker.\<close>

lemma ALLOWED_predecessors [simp]:
  "CREATED \<notin> set (ALLOWED s)"
  "SUBMITTED \<in> set (ALLOWED s) \<longleftrightarrow> s = CREATED"
  "REJECTED \<in> set (ALLOWED s) \<longleftrightarrow> s = SUBMITTED"
  "EXPIRED \<in> set (ALLOWED s) \<longleftrightarrow> s = CREATED \<or> s = SUBMITTED"
  by (cases s; simp)+

lemma status_path_CREATED: "status_path ss \<Longrightarrow> hd ss = CREATED \<Longrightarrow> ss = [CREATED]"
  by (induction rule: status_path.induct) (auto simp: status_step_iff)

lemma status_path_SUBMITTED: "status_path ss \<Longrightarrow> hd ss = SUBMITTED \<Longrightarrow> ss = [SUBMITTED, CREATED]"
  by (induction rule: status_path.induct)
     (auto simp: status_step_iff dest: status_path_CREATED)

lemma status_path_early:
  "status_path (CREATED # ss) \<Longrightarrow> ss = []" "status_path (SUBMITTED # ss) \<Longrightarrow> ss = [CREATED]"
  using status_path_CREATED status_path_SUBMITTED by fastforce+

lemma status_path_not_filled:
  "status_path ss \<Longrightarrow> hd ss = REJECTED \<or> hd ss = EXPIRED \<Longrightarrow>
     PARTIALLY_FILLED \<notin> set ss \<and> FILLED \<notin> set ss"
  by (induction rule: status_path.induct)
     (auto simp: status_step_iff dest!: status_path_early)

lemma status_path_submitted_before:
  "status_path ss \<Longrightarrow> hd ss \<notin> set [CREATED, EXPIRED, UNKNOWN] \<Longrightarrow> SUBMITTED \<in> set ss"
proof (induction rule: status_path.induct)
  case (move s ss t)
  then show ?case by (cases s) (auto simp: status_step_iff)
qed simp

section \<open>Properties\<close>

text \<open>An applied broker status changes nothing of a well-formed order but its status and its
  version: the status moves along the transition table, the version grows by one, the domain event
  records both, and the order stays well-formed. A terminal status is only taken when the event
  names a link of the order and every other exposure-bearing link is already terminal.\<close>

theorem apply_status_event_sound:
  assumes "wf_order ord" and "apply_status_event ord event links wms = Inr (Transition t)"
  shows "let ord' = tr_order t in
      ord_status ord' \<in> set (ALLOWED (ord_status ord))
      \<and> ord' = ord\<lparr>ord_status := ord_status ord', ord_aggregate_version := ord_aggregate_version ord + 1\<rparr>
      \<and> wf_order ord'
      \<and> ode_status (tr_event t) = ord_status ord'
      \<and> ode_aggregate_version (tr_event t) = ord_aggregate_version ord'
      \<and> (ord_status ord' \<in> set TERMINAL_ORDER_STATUSES \<longrightarrow>
          (\<exists>ls m. links = Some ls \<and> m \<in> set ls \<and> bse_broker_order_id event = Some (bl_broker_order_id m)
            \<and> (\<forall>l \<in> set ls. bl_exposure_bearing l \<and> bl_id l \<noteq> bl_id m \<longrightarrow> is_terminal l)))"
proof -
  from apply_status_Transition(1) [OF assms(2)] obtain target where
    t: "target \<in> set (ALLOWED (ord_status ord))"
      "tr_order t = ord\<lparr>ord_status := target, ord_aggregate_version := ord_aggregate_version ord + 1\<rparr>"
      "wf_order (tr_order t)"
      "ode_status (tr_event t) = target \<and> ode_aggregate_version (tr_event t) = ord_aggregate_version ord + 1"
    and trm: "target \<in> set TERMINAL_ORDER_STATUSES \<Longrightarrow> can_terminalize event links = Inr True"
    by (rule apply_target_Transition) metis
  have "\<exists>ls m. links = Some ls \<and> m \<in> set ls \<and> bse_broker_order_id event = Some (bl_broker_order_id m)
      \<and> (\<forall>l \<in> set ls. bl_exposure_bearing l \<and> bl_id l \<noteq> bl_id m \<longrightarrow> is_terminal l)"
    if "target \<in> set TERMINAL_ORDER_STATUSES"
    using trm [OF that] by (blast elim: can_terminalize_True)
  with t show ?thesis by (simp add: Let_def)
qed

text \<open>Whatever sequence of broker events, links and watermarks arrives, a terminal order is
  never changed again.\<close>

theorem terminal_order_is_final:
  assumes "ord_status ord \<in> set TERMINAL_ORDER_STATUSES"
  shows "run_steps order_step ord es = ord"
  using order_step_terminal [OF assms] by (induction es) auto

text \<open>Along every run of the state machine from a newly created order, an order that ends
  REJECTED or EXPIRED was never partially or fully filled, an order that is acknowledged, working,
  filled or cancelled was submitted first, and the order stays well-formed.\<close>

theorem order_run_history:
  assumes "wf_order ord" and "ord_status ord = CREATED"
  shows "let h = order_history ord [CREATED] es in
      status_path h
      \<and> (hd h \<in> set [REJECTED, EXPIRED] \<longrightarrow> PARTIALLY_FILLED \<notin> set h \<and> FILLED \<notin> set h)
      \<and> (hd h \<notin> set [CREATED, EXPIRED, UNKNOWN] \<longrightarrow> SUBMITTED \<in> set h)
      \<and> wf_order (run_steps order_step ord es)"
proof -
  have "status_path (order_history ord [CREATED] es)"
    using order_history_path [of ord "[]" es] assms(2) by (simp add: status_path.start)
  then show ?thesis
    using status_path_not_filled status_path_submitted_before order_machine.run_inv [OF assms(1)]
    by (auto simp: Let_def)
qed

text \<open>A sequenced event is applied only at the next number of its partition: one more than the
  watermark, or at most one where the partition has none. The transition then carries the
  watermark advanced to exactly that number, and an event the order does not own is refused.\<close>

theorem sequenced_events_in_order:
  assumes "apply_status_event ord event links wms = Inr (Transition t)"
  shows "bse_account_id event = ord_account_id ord
    \<and> map_option wm_last_contiguous_sequence (tr_watermark t) = bse_source_sequence event
    \<and> (case (bse_source_sequence event, find_watermark wms (bse_source_partition event)) of
         (Some n, Some w) \<Rightarrow> n = wm_last_contiguous_sequence w + 1
       | (Some n, None) \<Rightarrow> n \<le> 1
       | (None, _) \<Rightarrow> True)"
proof -
  have "map_option wm_last_contiguous_sequence (tr_watermark t) = bse_source_sequence event"
    using apply_status_Transition(1) [OF assms] by (rule apply_target_Transition)
  with assms show ?thesis
    by (auto simp: apply_status_event_def Let_def order_defs expected_sequence_def
          split: if_splits option.splits)
qed

section \<open>Witnesses\<close>

definition sample_order :: Order where
  "sample_order =
     \<lparr>ord_id = 1, ord_order_intent_id = 2, ord_risk_decision_id = 3, ord_account_id = 4,
      ord_instrument_id = 5, ord_side = BUY, ord_order_style = MARKET, ord_requested_quantity = 2,
      ord_limit_price = None, ord_status = CREATED, ord_aggregate_version = 1,
      ord_broker_client_order_id = ''c1'', ord_created_at = 0, ord_trigger_price = None\<rparr>"

definition sample_status_event :: "OrderStatus \<Rightarrow> int option \<Rightarrow> BrokerOrderStatusEvent" where
  "sample_status_event s n =
     \<lparr>bse_broker_id = 9, bse_account_id = 4, bse_source_partition = ''p'', bse_dedupe_key = ''d'',
      bse_raw_status = status_value s, bse_occurred_at = 7, bse_source_sequence = n,
      bse_broker_order_id = Some ''b1'', bse_order_id = None, bse_broker_client_order_id = None,
      bse_requested_quantity = None, bse_cumulative_filled_quantity = None, bse_observed_at = None,
      bse_payload_hash = []\<rparr>"

definition sample_link :: "uuid \<Rightarrow> string \<Rightarrow> OrderStatus \<Rightarrow> BrokerOrderLinkState" where
  "sample_link i b s =
     \<lparr>bl_id = i, bl_broker_order_id = b, bl_link_sequence = 1, bl_exposure_bearing = True, bl_status = s\<rparr>"

lemmas sample_order_defs = sample_order_def sample_status_event_def sample_link_def

lemma sample_order_wf: "wf_order sample_order" "ord_status sample_order = CREATED"
  by (simp_all add: wf_order_def Order_checks_def limit_price_checks_def trigger_price_checks_def
      sample_order_def)

lemma sample_fill_applied:
  "apply_status_event (sample_order\<lparr>ord_status := ACKNOWLEDGED\<rparr>) (sample_status_event FILLED (Some 8))
     (Some [sample_link 1 ''b1'' ACKNOWLEDGED, sample_link 2 ''b0'' CANCELED])
     [\<lparr>wm_source_partition = ''p'', wm_last_contiguous_sequence = 7\<rparr>]
   = Inr (Transition
       \<lparr>tr_order = sample_order\<lparr>ord_status := FILLED, ord_aggregate_version := 2\<rparr>,
        tr_event = \<lparr>ode_order_id = 1, ode_aggregate_version = 2, ode_status = FILLED,
                    ode_raw_status = ''FILLED'', ode_occurred_at = 7\<rparr>,
        tr_watermark = Some \<lparr>wm_source_partition = ''p'', wm_last_contiguous_sequence = 8\<rparr>\<rparr>)"
  by code_simp

theorem apply_status_event_sound_witness:
  "\<exists>t. apply_status_event (sample_order\<lparr>ord_status := ACKNOWLEDGED\<rparr>) (sample_status_event FILLED (Some 8))
     (Some [sample_link 1 ''b1'' ACKNOWLEDGED, sample_link 2 ''b0'' CANCELED])
     [\<lparr>wm_source_partition = ''p'', wm_last_contiguous_sequence = 7\<rparr>] = Inr (Transition t)
   \<and> ord_status (tr_order t) = FILLED
   \<and> ord_status (tr_order t) \<in> set (ALLOWED ACKNOWLEDGED)"
proof -
  have "wf_order (sample_order\<lparr>ord_status := ACKNOWLEDGED\<rparr>)"
    by (simp add: wf_order_def Order_checks_def limit_price_checks_def trigger_price_checks_def sample_order_def)
  from apply_status_event_sound [OF this sample_fill_applied] sample_fill_applied
  show ?thesis by (auto simp: Let_def)
qed

theorem terminal_order_is_final_witness:
  "run_steps order_step (sample_order\<lparr>ord_status := CANCELED\<rparr>)
     [(sample_status_event FILLED None, Some [sample_link 1 ''b1'' CANCELED], [])]
   = sample_order\<lparr>ord_status := CANCELED\<rparr>"
  by (rule terminal_order_is_final) (simp add: TERMINAL_ORDER_STATUSES_def)

theorem order_run_history_witness:
  "hd (order_history sample_order [CREATED]
     [(sample_status_event SUBMITTED None, None, []), (sample_status_event REJECTED None, Some [sample_link 1 ''b1'' SUBMITTED], [])])
     = REJECTED
   \<and> FILLED \<notin> set (order_history sample_order [CREATED]
     [(sample_status_event SUBMITTED None, None, []), (sample_status_event REJECTED None, Some [sample_link 1 ''b1'' SUBMITTED], [])])"
proof -
  have h: "hd (order_history sample_order [CREATED]
     [(sample_status_event SUBMITTED None, None, []), (sample_status_event REJECTED None, Some [sample_link 1 ''b1'' SUBMITTED], [])])
     = REJECTED" by code_simp
  with order_run_history [OF sample_order_wf, of "[(sample_status_event SUBMITTED None, None, []),
      (sample_status_event REJECTED None, Some [sample_link 1 ''b1'' SUBMITTED], [])]"]
  show ?thesis by (simp add: Let_def)
qed

theorem sequenced_events_in_order_witness:
  "\<exists>t. apply_status_event (sample_order\<lparr>ord_status := ACKNOWLEDGED\<rparr>) (sample_status_event FILLED (Some 8))
     (Some [sample_link 1 ''b1'' ACKNOWLEDGED, sample_link 2 ''b0'' CANCELED])
     [\<lparr>wm_source_partition = ''p'', wm_last_contiguous_sequence = 7\<rparr>] = Inr (Transition t)
   \<and> map_option wm_last_contiguous_sequence (tr_watermark t) = Some (7 + 1)"
  using sequenced_events_in_order [OF sample_fill_applied] sample_fill_applied
  by (auto simp: sample_status_event_def)

end
