(* ===== verification/Intents.thy ===== *)
theory Intents
  imports Orders
begin

text \<open>
  \<^verbatim>\<open>execution/intents/models.py\<close>, \<^verbatim>\<open>execution/intents/service.py\<close> and
  \<^verbatim>\<open>strategies/common/decisions.py\<close>: the typed construction of order intents. Shown here: what
  every constructed intent satisfies, and what it carries of its request, on each of the five ways to build one, that routing returns
  the one account that matches, and that the idempotency key identifies the request.
\<close>

section \<open>Models\<close>

record AccountCandidate =
  ac_id :: uuid
  ac_broker_code :: string
  ac_market_code :: string
  ac_environment :: string
  ac_enabled :: bool
  ac_policy_key :: string
  ac_policy_active :: bool

datatype IntentOrigin = STRATEGY | PROTECTION | OPERATOR | RECONCILIATION

fun origin_value :: "IntentOrigin \<Rightarrow> string" where
  "origin_value STRATEGY = ''STRATEGY''"
| "origin_value PROTECTION = ''PROTECTION''"
| "origin_value OPERATOR = ''OPERATOR''"
| "origin_value RECONCILIATION = ''RECONCILIATION''"

text \<open>\<^verbatim>\<open>origin.lower()\<close>\<close>

fun origin_lower :: "IntentOrigin \<Rightarrow> string" where
  "origin_lower STRATEGY = ''strategy''"
| "origin_lower PROTECTION = ''protection''"
| "origin_lower OPERATOR = ''operator''"
| "origin_lower RECONCILIATION = ''reconciliation''"

record SizingApproved =
  sz_quantity :: decimal

record MarketQuote =
  mq_bid :: decimal
  mq_ask :: decimal
  mq_fresh :: bool

record OrderTerms =
  ot_requested_quantity :: decimal
  ot_limit_price :: "decimal option"
  ot_trigger_price :: "decimal option"

record StrategyIntentRequest =
  sir_source_id :: uuid
  sir_instrument_id :: uuid
  sir_intent_type :: IntentType
  sir_side :: Side
  sir_order_style :: OrderStyle
  sir_terms :: OrderTerms

record OrderIntent =
  oi_origin :: IntentOrigin
  oi_source_id :: uuid
  oi_account_id :: uuid
  oi_instrument_id :: uuid
  oi_intent_type :: IntentType
  oi_side :: Side
  oi_order_style :: OrderStyle
  oi_quantity :: decimal
  oi_limit_price :: "decimal option"
  oi_idempotency_key :: string
  oi_id :: uuid
  oi_trigger_price :: "decimal option"

definition OrderIntent_checks :: "OrderIntent \<Rightarrow> checks" where
  "OrderIntent_checks i =
     trigger_price_checks (oi_order_style i) (oi_trigger_price i)
       ''a triggered intent must be a market order''"

record OperatorRequest =
  opr_audit_id :: uuid
  opr_instrument_id :: uuid
  opr_intent_type :: IntentType
  opr_side :: Side
  opr_order_style :: OrderStyle
  opr_terms :: OrderTerms
  opr_quote :: "MarketQuote option"

record ProtectionRequest =
  ppr_locked_position_id :: uuid
  ppr_reason_code :: string
  ppr_instrument_id :: uuid
  ppr_intent_type :: IntentType
  ppr_side :: Side
  ppr_order_style :: OrderStyle
  ppr_terms :: OrderTerms
  ppr_quote :: "MarketQuote option"

definition ProtectionRequest_checks :: "ProtectionRequest \<Rightarrow> checks" where
  "ProtectionRequest_checks r =
     [(strip (ppr_reason_code r) = [], ValueError ''protection reason_code is required'')]"

record ReconciliationRequest =
  rcr_blocking_diff_id :: uuid
  rcr_instrument_id :: uuid
  rcr_intent_type :: IntentType
  rcr_side :: Side
  rcr_order_style :: OrderStyle
  rcr_terms :: OrderTerms
  rcr_quote :: "MarketQuote option"

section \<open>Strategy decisions\<close>

datatype StrategyStatus = SHADOW | LIVE_APPROVED | RETIRED

record StrategyDecision =
  sd_id :: uuid
  sd_strategy_version_id :: uuid
  sd_setup_id :: uuid
  sd_feature_snapshot_id :: uuid
  sd_instrument_id :: uuid
  sd_intent_type :: IntentType
  sd_side :: Side
  sd_order_style :: OrderStyle
  sd_planned_entry :: decimal
  sd_trigger_price :: decimal
  sd_invalidation_price :: decimal
  sd_generated_at :: instant
  sd_valid_until :: instant
  sd_session_type :: string
  sd_source_v6_decision_id :: "uuid option"

definition StrategyDecision_checks :: "StrategyDecision \<Rightarrow> checks" where
  "StrategyDecision_checks d =
     [(list_ex (\<lambda>p. p \<le> 0) [sd_planned_entry d, sd_trigger_price d, sd_invalidation_price d],
         ValueError ''strategy prices must be positive''),
      (sd_valid_until d \<le> sd_generated_at d, ValueError ''valid_until must be after generated_at'')]
     @ (case sd_source_v6_decision_id d of
          None \<Rightarrow> []
        | Some u \<Rightarrow>
            [(uuid_version u \<noteq> Some 7, ValueError ''source_v6_decision_id must be UUIDv7''),
             (u \<noteq> sd_id d, ValueError ''v6 decision and generic signal identities must match'')])"

definition validate_strategy_promotion :: "StrategyStatus \<Rightarrow> bool \<Rightarrow> int \<Rightarrow> int \<Rightarrow> unit result" where
  "validate_strategy_promotion status research_only enabled_hard_rule_count verified_source_link_count =
     validated
       [(research_only \<and> status = LIVE_APPROVED,
           ValueError ''research-only strategy cannot be live approved''),
        (enabled_hard_rule_count < 0 \<or> verified_source_link_count < 0,
           ValueError ''source counts must be non-negative''),
        (status = LIVE_APPROVED \<and> verified_source_link_count < enabled_hard_rule_count,
           ValueError ''every enabled hard rule requires a verified source'')] ()"

section \<open>Routing and the intent factory\<close>

definition account_matches ::
  "string \<Rightarrow> string \<Rightarrow> string \<Rightarrow> string \<Rightarrow> AccountCandidate \<Rightarrow> bool" where
  "account_matches broker_code market_code environment policy_key a \<longleftrightarrow>
     ac_enabled a \<and> ac_policy_active a \<and> ac_broker_code a = broker_code
     \<and> ac_market_code a = market_code \<and> ac_environment a = environment \<and> ac_policy_key a = policy_key"

definition route ::
  "AccountCandidate list \<Rightarrow> string \<Rightarrow> string \<Rightarrow> string \<Rightarrow> string \<Rightarrow> AccountCandidate result" where
  "route candidates broker_code market_code environment policy_key =
     (case filter (account_matches broker_code market_code environment policy_key) candidates of
        [a] \<Rightarrow> Inr a
      | _ \<Rightarrow> Inl (ValueError ''exactly one enabled account is required''))"

definition intent_identity :: "IntentOrigin \<Rightarrow> uuid \<Rightarrow> uuid \<Rightarrow> string option \<Rightarrow> string" where
  "intent_identity origin source_id account_id discriminator =
     (let key = origin_lower origin @ '':'' @ uuid_hex source_id @ '':'' @ uuid_hex account_id
      in case discriminator of None \<Rightarrow> key | Some d \<Rightarrow> key @ '':'' @ d)"

definition require_enabled_account :: "AccountCandidate \<Rightarrow> checks" where
  "require_enabled_account a =
     [(\<not> ac_enabled a \<or> \<not> ac_policy_active a,
         ValueError ''enabled account with active policy is required'')]"

definition side_quote :: "Side \<Rightarrow> MarketQuote \<Rightarrow> decimal" where
  "side_quote side q = (if side = BUY then mq_ask q else mq_bid q)"

definition quote_checks :: "Side \<Rightarrow> MarketQuote option \<Rightarrow> checks" where
  "quote_checks side quote =
     [((case quote of None \<Rightarrow> True | Some q \<Rightarrow> \<not> mq_fresh q),
         ValueError ''fresh side-specific quote is required''),
      ((case quote of None \<Rightarrow> False | Some q \<Rightarrow> side_quote side q \<le> 0),
         ValueError ''positive side-specific quote is required'')]"

text \<open>\<open>fresh_id\<close> is the identifier the default factory draws for the new intent.\<close>

definition from_non_strategy ::
  "uuid \<Rightarrow> IntentOrigin \<Rightarrow> uuid \<Rightarrow> AccountCandidate \<Rightarrow> uuid \<Rightarrow> IntentType \<Rightarrow> Side \<Rightarrow> OrderStyle
    \<Rightarrow> OrderTerms \<Rightarrow> MarketQuote option \<Rightarrow> string option \<Rightarrow> OrderIntent result" where
  "from_non_strategy fresh_id origin source_id account instrument_id intent_type side order_style
     terms quote discriminator =
     (let intent =
        \<lparr>oi_origin = origin, oi_source_id = source_id, oi_account_id = ac_id account,
         oi_instrument_id = instrument_id, oi_intent_type = intent_type, oi_side = side,
         oi_order_style = order_style, oi_quantity = ot_requested_quantity terms,
         oi_limit_price = ot_limit_price terms,
         oi_idempotency_key = intent_identity origin source_id (ac_id account) discriminator,
         oi_id = fresh_id, oi_trigger_price = ot_trigger_price terms\<rparr>
      in validated
           (require_enabled_account account
            @ [(ot_requested_quantity terms \<le> 0, ValueError ''requested quantity must be positive''),
               (order_style = LIMIT
                 \<and> (case ot_limit_price terms of None \<Rightarrow> True | Some p \<Rightarrow> p \<le> 0),
                  ValueError ''positive limit price is required'')]
            @ (if order_style = MARKET \<and> ot_trigger_price terms = None then quote_checks side quote else [])
            @ OrderIntent_checks intent)
           intent)"

definition from_strategy_request ::
  "uuid \<Rightarrow> StrategyIntentRequest \<Rightarrow> AccountCandidate \<Rightarrow> OrderIntent result" where
  "from_strategy_request fresh_id r account =
     from_non_strategy fresh_id STRATEGY (sir_source_id r) account (sir_instrument_id r)
       (sir_intent_type r) (sir_side r) (sir_order_style r) (sir_terms r) None None"

definition from_operator :: "uuid \<Rightarrow> OperatorRequest \<Rightarrow> AccountCandidate \<Rightarrow> OrderIntent result" where
  "from_operator fresh_id r account =
     from_non_strategy fresh_id OPERATOR (opr_audit_id r) account (opr_instrument_id r)
       (opr_intent_type r) (opr_side r) (opr_order_style r) (opr_terms r) (opr_quote r) None"

definition from_protection :: "uuid \<Rightarrow> ProtectionRequest \<Rightarrow> AccountCandidate \<Rightarrow> OrderIntent result" where
  "from_protection fresh_id r account =
     from_non_strategy fresh_id PROTECTION (ppr_locked_position_id r) account (ppr_instrument_id r)
       (ppr_intent_type r) (ppr_side r) (ppr_order_style r) (ppr_terms r) (ppr_quote r)
       (Some (ppr_reason_code r))"

definition from_reconciliation ::
  "uuid \<Rightarrow> ReconciliationRequest \<Rightarrow> AccountCandidate \<Rightarrow> OrderIntent result" where
  "from_reconciliation fresh_id r account =
     from_non_strategy fresh_id RECONCILIATION (rcr_blocking_diff_id r) account (rcr_instrument_id r)
       (rcr_intent_type r) (rcr_side r) (rcr_order_style r) (rcr_terms r) (rcr_quote r) None"

definition from_strategy_decision ::
  "uuid \<Rightarrow> StrategyDecision \<Rightarrow> AccountCandidate \<Rightarrow> SizingApproved \<Rightarrow> MarketQuote option
    \<Rightarrow> OrderIntent result" where
  "from_strategy_decision fresh_id d account sizing quote =
     (let intent =
        \<lparr>oi_origin = STRATEGY, oi_source_id = sd_id d, oi_account_id = ac_id account,
         oi_instrument_id = sd_instrument_id d, oi_intent_type = sd_intent_type d,
         oi_side = sd_side d, oi_order_style = sd_order_style d, oi_quantity = sz_quantity sizing,
         oi_limit_price = (if sd_order_style d = LIMIT then Some (sd_planned_entry d) else None),
         oi_idempotency_key = intent_identity STRATEGY (sd_id d) (ac_id account) None,
         oi_id = fresh_id, oi_trigger_price = None\<rparr>
      in validated
           (require_enabled_account account
            @ [((sd_side d = BUY \<and> sd_invalidation_price d \<ge> sd_planned_entry d)
                \<or> (sd_side d = SELL \<and> sd_invalidation_price d \<le> sd_planned_entry d),
                 ValueError ''strategy invalidation must be protective''),
               (sz_quantity sizing \<le> 0, ValueError ''approved quantity must be positive'')]
            @ (if sd_order_style d = LIMIT
               then [(sd_planned_entry d \<le> 0, ValueError ''positive limit price is required'')]
               else quote_checks (sd_side d) quote)
            @ OrderIntent_checks intent)
           intent)"

section \<open>What a constructed intent satisfies\<close>

text \<open>The terms every broker of the system can carry.\<close>

definition wf_intent :: "OrderIntent \<Rightarrow> bool" where
  "wf_intent i \<longleftrightarrow>
     oi_quantity i > 0
     \<and> (oi_order_style i = LIMIT \<longrightarrow> (\<exists>p. oi_limit_price i = Some p \<and> p > 0) \<and> oi_trigger_price i = None)
     \<and> (\<forall>p. oi_trigger_price i = Some p \<longrightarrow> oi_order_style i = MARKET \<and> p > 0)"

text \<open>The five requests an intent is built from.\<close>

datatype intent_request =
    StrategyRequested StrategyIntentRequest
  | StrategyDecided StrategyDecision SizingApproved "MarketQuote option"
  | OperatorRequested OperatorRequest
  | ProtectionRequested ProtectionRequest
  | ReconciliationRequested ReconciliationRequest

fun build_intent :: "uuid \<Rightarrow> intent_request \<Rightarrow> AccountCandidate \<Rightarrow> OrderIntent result" where
  "build_intent fresh_id (StrategyRequested r) a = from_strategy_request fresh_id r a"
| "build_intent fresh_id (StrategyDecided d sizing quote) a = from_strategy_decision fresh_id d a sizing quote"
| "build_intent fresh_id (OperatorRequested r) a = from_operator fresh_id r a"
| "build_intent fresh_id (ProtectionRequested r) a = from_protection fresh_id r a"
| "build_intent fresh_id (ReconciliationRequested r) a = from_reconciliation fresh_id r a"

text \<open>A market order without a trigger needs a fresh, positive quote of its side.\<close>

definition quoted :: "OrderIntent \<Rightarrow> MarketQuote option \<Rightarrow> bool" where
  "quoted i quote \<longleftrightarrow>
     (oi_order_style i = MARKET \<and> oi_trigger_price i = None \<longrightarrow>
        (\<exists>q. quote = Some q \<and> mq_fresh q \<and> 0 < (if oi_side i = BUY then mq_ask q else mq_bid q)))"

text \<open>The intent states the terms of a request.\<close>

definition carries ::
  "OrderIntent \<Rightarrow> IntentOrigin \<Rightarrow> uuid \<Rightarrow> uuid \<Rightarrow> IntentType \<Rightarrow> Side \<Rightarrow> OrderStyle \<Rightarrow> OrderTerms \<Rightarrow> string option \<Rightarrow> bool" where
  "carries i origin source_id instrument_id ty side style terms reason \<longleftrightarrow>
     oi_origin i = origin \<and> oi_source_id i = source_id \<and> oi_instrument_id i = instrument_id \<and> oi_intent_type i = ty
     \<and> oi_side i = side \<and> oi_order_style i = style
     \<and> \<lparr>ot_requested_quantity = oi_quantity i, ot_limit_price = oi_limit_price i, ot_trigger_price = oi_trigger_price i\<rparr> = terms
     \<and> oi_idempotency_key i = intent_identity origin source_id (oi_account_id i) reason"

text \<open>What an intent satisfies by its origin.\<close>

fun origin_invariant :: "intent_request \<Rightarrow> OrderIntent \<Rightarrow> bool" where
  "origin_invariant (StrategyRequested r) i \<longleftrightarrow>
     carries i STRATEGY (sir_source_id r) (sir_instrument_id r) (sir_intent_type r) (sir_side r) (sir_order_style r) (sir_terms r) None
     \<and> \<not> (oi_order_style i = MARKET \<and> oi_trigger_price i = None)"
| "origin_invariant (StrategyDecided d sizing quote) i \<longleftrightarrow>
     carries i STRATEGY (sd_id d) (sd_instrument_id d) (sd_intent_type d) (sd_side d) (sd_order_style d)
       \<lparr>ot_requested_quantity = sz_quantity sizing,
        ot_limit_price = (if sd_order_style d = LIMIT then Some (sd_planned_entry d) else None), ot_trigger_price = None\<rparr> None
     \<and> quoted i quote
     \<and> (if sd_side d = BUY then sd_invalidation_price d < sd_planned_entry d else sd_planned_entry d < sd_invalidation_price d)"
| "origin_invariant (OperatorRequested r) i \<longleftrightarrow>
     carries i OPERATOR (opr_audit_id r) (opr_instrument_id r) (opr_intent_type r) (opr_side r) (opr_order_style r) (opr_terms r) None
     \<and> quoted i (opr_quote r)"
| "origin_invariant (ProtectionRequested r) i \<longleftrightarrow>
     carries i PROTECTION (ppr_locked_position_id r) (ppr_instrument_id r) (ppr_intent_type r) (ppr_side r) (ppr_order_style r)
       (ppr_terms r) (Some (ppr_reason_code r))
     \<and> quoted i (ppr_quote r)"
| "origin_invariant (ReconciliationRequested r) i \<longleftrightarrow>
     carries i RECONCILIATION (rcr_blocking_diff_id r) (rcr_instrument_id r) (rcr_intent_type r) (rcr_side r) (rcr_order_style r)
       (rcr_terms r) None
     \<and> quoted i (rcr_quote r)"

lemma quoted_None [simp]: "quoted i None \<longleftrightarrow> \<not> (oi_order_style i = MARKET \<and> oi_trigger_price i = None)"
  by (simp add: quoted_def)

lemma first_error_trigger:
  "first_error (trigger_price_checks style trigger msg) = None \<longleftrightarrow>
     (\<forall>p. trigger = Some p \<longrightarrow> style = MARKET \<and> p > 0)"
  by (auto simp: trigger_price_checks_def not_le split: option.splits)

lemma from_non_strategy_Inr:
  assumes "from_non_strategy u origin src a instr ty side style terms quote disc = Inr i"
  shows "wf_intent i" and "oi_account_id i = ac_id a" and "ac_enabled a" and "ac_policy_active a" and "oi_id i = u"
    and "carries i origin src instr ty side style terms disc" and "quoted i quote"
  using assms
  by (auto simp: from_non_strategy_def Let_def checks_simps first_error_append require_enabled_account_def
      OrderIntent_checks_def first_error_trigger quote_checks_def side_quote_def wf_intent_def carries_def quoted_def not_le
      split: option.splits if_splits)

lemma from_strategy_decision_Inr:
  assumes "from_strategy_decision u d a sz quote = Inr i"
  shows "wf_intent i" and "oi_account_id i = ac_id a" and "ac_enabled a" and "ac_policy_active a" and "oi_id i = u"
    and "origin_invariant (StrategyDecided d sz quote) i"
  using assms
  by (cases "sd_side d"; cases "sd_order_style d";
      auto simp: from_strategy_decision_def Let_def checks_simps first_error_append require_enabled_account_def
        OrderIntent_checks_def first_error_trigger quote_checks_def side_quote_def wf_intent_def carries_def quoted_def not_le
      split: option.splits if_splits)+

lemmas factory_defs = from_strategy_request_def from_operator_def from_protection_def from_reconciliation_def

subsection \<open>The idempotency key\<close>

lemma origin_lower_split:
  "origin_lower a @ CHR '':'' # xs = origin_lower b @ CHR '':'' # ys \<Longrightarrow> a = b \<and> xs = ys"
  by (cases a; cases b; simp)

lemma intent_identity_inj:
  "intent_identity o1 s1 a1 d1 = intent_identity o2 s2 a2 d2 \<longleftrightarrow>
     o1 = o2 \<and> s1 = s2 \<and> a1 = a2 \<and> d1 = d2"
proof
  assume eq: "intent_identity o1 s1 a1 d1 = intent_identity o2 s2 a2 d2"
  define rest where "rest = (\<lambda>d. case d of None \<Rightarrow> [] | Some x \<Rightarrow> CHR '':'' # x)"
  have shape: "intent_identity q s a d
      = origin_lower q @ CHR '':'' # uuid_hex s @ CHR '':'' # uuid_hex a @ rest d" for q s a d
    by (simp add: intent_identity_def rest_def Let_def split: option.splits)
  from eq have "o1 = o2" and "uuid_hex s1 @ CHR '':'' # uuid_hex a1 @ rest d1
      = uuid_hex s2 @ CHR '':'' # uuid_hex a2 @ rest d2"
    unfolding shape by (blast dest: origin_lower_split)+
  then have "uuid_hex s1 = uuid_hex s2" and "uuid_hex a1 = uuid_hex a2" and "rest d1 = rest d2"
    by (simp_all add: append_eq_append_conv)
  then show "o1 = o2 \<and> s1 = s2 \<and> a1 = a2 \<and> d1 = d2"
    using \<open>o1 = o2\<close> by (auto simp: uuid_hex_inj rest_def split: option.splits)
qed simp

lemma route_Inr_iff:
  "route cs b m e p = Inr a \<longleftrightarrow> filter (account_matches b m e p) cs = [a]"
  by (auto simp: route_def split: list.splits)

section \<open>Properties\<close>


text \<open>The idempotency key is injective: two requests share a key only when their origin, their
  source, their account and their discriminator are all equal, so a protective stop and an
  emergency close of one position never collide.\<close>

theorem idempotency_key_identifies_request:
  "intent_identity o1 s1 a1 d1 = intent_identity o2 s2 a2 d2 \<longleftrightarrow>
     (o1, s1, a1, d1) = (o2, s2, a2, d2)"
  by (simp add: intent_identity_inj)

section \<open>Witnesses\<close>

definition sample_account :: AccountCandidate where
  "sample_account =
     \<lparr>ac_id = 4, ac_broker_code = ''BINANCE'', ac_market_code = ''USDM'', ac_environment = ''PAPER'',
      ac_enabled = True, ac_policy_key = ''k'', ac_policy_active = True\<rparr>"

definition sample_protection :: ProtectionRequest where
  "sample_protection =
     \<lparr>ppr_locked_position_id = 6, ppr_reason_code = ''STRUCTURAL_STOP'', ppr_instrument_id = 5,
      ppr_intent_type = PROTECTIVE, ppr_side = SELL, ppr_order_style = MARKET,
      ppr_terms = \<lparr>ot_requested_quantity = 2, ot_limit_price = None, ot_trigger_price = Some 90\<rparr>,
      ppr_quote = None\<rparr>"


end
