(* ===== verification/V6Models.thy ===== *)
theory V6Models
  imports Intents
begin

text \<open>
  \<^verbatim>\<open>strategies/david_v6/models.py\<close>: the enumerations of the david v6 strategy and the
  \<^verbatim>\<open>V6Decision\<close> with every check of its constructor. The exact-type checks of the source hold by
  typing here. The SHA-256 of the canonical JSON is a parameter of the definitions that use it.
\<close>

section \<open>Enumerations\<close>

datatype EvidenceState = AVAILABLE | UNAVAILABLE | STALE | NOT_APPLICABLE | EVIDENCE_UNKNOWN

datatype StrategyFamily = METODO | HLIT

datatype SetupGrade = GRADE_REJECT | GRADE_NORMAL | GRADE_A_CANDIDATE | GRADE_A

datatype V6Market = KRX_CASH | US_CASH | BINANCE_USDM

definition SPOT_ONLY_MARKETS :: "V6Market list" where
  "SPOT_ONLY_MARKETS = [KRX_CASH, US_CASH]"

definition MAXIMUM_RISK_FRACTION :: decimal where
  "MAXIMUM_RISK_FRACTION = 75 / 10000"

section \<open>Indicators and decisions\<close>

record MatchedIndicator =
  mi_key :: string
  mi_mandatory :: bool
  mi_evidence_state :: EvidenceState
  mi_evidence_hash :: bytes

definition MatchedIndicator_checks :: "MatchedIndicator \<Rightarrow> checks" where
  "MatchedIndicator_checks m =
     [(\<not> trimmed_text (mi_key m), ValueError ''indicator key must be non-empty and trimmed''),
      (mi_evidence_state m \<noteq> AVAILABLE, ValueError ''matched indicator evidence must be AVAILABLE''),
      (length (mi_evidence_hash m) \<noteq> 32, TypeError ''indicator evidence_hash must be SHA-256 bytes'')]"

record V6Decision =
  vd_id :: uuid
  vd_strategy_version_id :: uuid
  vd_setup_id :: uuid
  vd_feature_snapshot_id :: uuid
  vd_instrument_id :: uuid
  vd_market :: V6Market
  vd_family :: StrategyFamily
  vd_grade :: SetupGrade
  vd_side :: Side
  vd_order_style :: OrderStyle
  vd_matched_indicators :: "MatchedIndicator list"
  vd_blockers :: "string list"
  vd_planned_entry :: "decimal option"
  vd_structural_stop :: "decimal option"
  vd_target_price :: "decimal option"
  vd_risk_fraction :: decimal
  vd_calculated_quantity :: decimal
  vd_expected_cost :: "decimal option"
  vd_source_evidence_hashes :: "bytes list"
  vd_exhaustion_timeframe :: "string option"
  vd_completed_evidence_at :: instant
  vd_generated_at :: instant
  vd_valid_until :: instant

definition require_canonical_indicators :: "MatchedIndicator list \<Rightarrow> checks" where
  "require_canonical_indicators indicators =
     [(\<not> sorted (map mi_key indicators), ValueError ''matched indicator keys must be sorted''),
      (\<not> distinct (map mi_key indicators), ValueError ''matched indicator keys must be unique'')]"

definition require_sorted_unique_text :: "string list \<Rightarrow> string \<Rightarrow> checks" where
  "require_sorted_unique_text values name =
     [(list_ex (\<lambda>v. \<not> trimmed_text v) values, TypeError (name @ '' must contain non-empty strings'')),
      (\<not> sorted values, ValueError (name @ '' must be sorted'')),
      (\<not> distinct values, ValueError (name @ '' must be unique''))]"

definition require_canonical_hashes :: "bytes list \<Rightarrow> checks" where
  "require_canonical_hashes values =
     [(values = [], ValueError ''source_evidence_hashes must be a non-empty tuple''),
      (list_ex (\<lambda>v. length v \<noteq> 32) values, TypeError ''source evidence hash must be SHA-256 bytes''),
      (\<not> sorted values, ValueError ''source_evidence_hashes must be sorted''),
      (\<not> distinct values, ValueError ''source_evidence_hashes must be unique'')]"

definition uuid7_checks :: "(string \<times> uuid) list \<Rightarrow> checks" where
  "uuid7_checks named =
     map (\<lambda>(name, u). (uuid_version u \<noteq> Some 7, ValueError (name @ '' must be UUIDv7''))) named"

definition validate_rejected :: "V6Decision \<Rightarrow> checks" where
  "validate_rejected d =
     [(vd_blockers d = [], ValueError ''REJECT decision requires a blocker''),
      (vd_risk_fraction d \<noteq> 0, ValueError ''REJECT decision requires zero risk''),
      (vd_calculated_quantity d \<noteq> 0, ValueError ''REJECT decision requires zero quantity''),
      (list_ex (\<lambda>v. v \<noteq> None)
         [vd_planned_entry d, vd_structural_stop d, vd_target_price d, vd_expected_cost d],
       ValueError ''REJECT decision cannot carry order terms'')]"

definition positive_prices :: "V6Decision \<Rightarrow> bool" where
  "positive_prices d =
     (case (vd_planned_entry d, vd_structural_stop d, vd_target_price d) of
        (Some e, Some s, Some t) \<Rightarrow> 0 < min e (min s t)
      | _ \<Rightarrow> False)"

definition validate_tradeable :: "V6Decision \<Rightarrow> checks" where
  "validate_tradeable d =
     (let entry = vd_planned_entry d; stop = vd_structural_stop d; target = vd_target_price d
      in [(vd_blockers d \<noteq> [], ValueError ''tradeable decision cannot carry blockers''),
          (vd_risk_fraction d \<le> 0, ValueError ''tradeable decision requires positive risk''),
          (vd_calculated_quantity d \<le> 0, ValueError ''tradeable decision requires positive quantity''),
          ((case vd_expected_cost d of None \<Rightarrow> True | Some c \<Rightarrow> c < 0),
             ValueError ''tradeable decision requires non-negative expected cost''),
          (\<not> positive_prices d, ValueError ''tradeable decision prices must be positive''),
          (vd_side d = BUY \<and> \<not> (the stop < the entry \<and> the entry < the target),
             ValueError ''BUY decision requires stop below entry below target''),
          (vd_side d = SELL \<and> \<not> (the target < the entry \<and> the entry < the stop),
             ValueError ''SELL decision requires target below entry below stop'')])"

text \<open>\<^verbatim>\<open>V6Decision.__post_init__\<close>; the two price-order checks are reached only with all three
  prices present, because the check before them fails otherwise.\<close>

definition V6Decision_checks :: "V6Decision \<Rightarrow> checks" where
  "V6Decision_checks d =
     uuid7_checks
       [(''id'', vd_id d), (''strategy_version_id'', vd_strategy_version_id d),
        (''setup_id'', vd_setup_id d), (''feature_snapshot_id'', vd_feature_snapshot_id d),
        (''instrument_id'', vd_instrument_id d)]
     @ [(vd_family d = METODO \<and> vd_market d \<notin> {KRX_CASH, US_CASH},
           ValueError ''METODO is available only for cash markets'')]
     @ require_canonical_indicators (vd_matched_indicators d)
     @ require_sorted_unique_text (vd_blockers d) ''blockers''
     @ require_canonical_hashes (vd_source_evidence_hashes d)
     @ [(\<not> (0 \<le> vd_risk_fraction d \<and> vd_risk_fraction d \<le> MAXIMUM_RISK_FRACTION),
           ValueError ''risk fraction exceeds the absolute ceiling''),
        (vd_calculated_quantity d < 0, ValueError ''calculated quantity must be non-negative''),
        (vd_completed_evidence_at d > vd_generated_at d,
           ValueError ''completed evidence cannot be later than generation''),
        (vd_valid_until d \<le> vd_generated_at d, ValueError ''valid_until must be after generated_at'')]
     @ (if vd_grade d = GRADE_REJECT then validate_rejected d else validate_tradeable d)"

definition wf_v6_decision :: "V6Decision \<Rightarrow> bool" where
  "wf_v6_decision d \<longleftrightarrow> first_error (V6Decision_checks d) = None"

section \<open>What a constructed decision satisfies\<close>

lemmas v6_decision_check_defs =
  V6Decision_checks_def uuid7_checks_def require_canonical_indicators_def
  require_sorted_unique_text_def require_canonical_hashes_def validate_rejected_def
  validate_tradeable_def Let_def

text \<open>The contract of a decision that proposes a trade.\<close>

definition tradeable_terms ::
  "Side \<Rightarrow> decimal \<Rightarrow> decimal \<Rightarrow> decimal \<Rightarrow> bool" where
  "tradeable_terms side entry stop target \<longleftrightarrow>
     0 < entry \<and> 0 < stop \<and> 0 < target
     \<and> (case side of BUY \<Rightarrow> stop < entry \<and> entry < target | SELL \<Rightarrow> target < entry \<and> entry < stop)"

lemma wf_v6_decision_common:
  assumes "wf_v6_decision d"
  shows "0 \<le> vd_risk_fraction d" and "vd_risk_fraction d \<le> 75 / 10000"
    and "vd_completed_evidence_at d \<le> vd_generated_at d" and "vd_generated_at d < vd_valid_until d"
    and "vd_family d = METODO \<Longrightarrow> vd_market d \<in> set SPOT_ONLY_MARKETS"
    and "uuid_version (vd_id d) = Some 7"
  using assms
  by (auto simp: wf_v6_decision_def v6_decision_check_defs first_error_append MAXIMUM_RISK_FRACTION_def
      SPOT_ONLY_MARKETS_def split: option.splits if_splits)

lemma wf_v6_decision_rejected:
  assumes "wf_v6_decision d" and "vd_grade d = GRADE_REJECT"
  shows "vd_blockers d \<noteq> []" and "vd_risk_fraction d = 0" and "vd_calculated_quantity d = 0"
    and "vd_planned_entry d = None" and "vd_structural_stop d = None" and "vd_target_price d = None"
    and "vd_expected_cost d = None"
  using assms
  by (auto simp: wf_v6_decision_def v6_decision_check_defs first_error_append
      split: option.splits if_splits)

lemma wf_v6_decision_tradeable:
  assumes "wf_v6_decision d" and "vd_grade d \<noteq> GRADE_REJECT"
  shows "\<exists>e s t c. vd_planned_entry d = Some e \<and> vd_structural_stop d = Some s
      \<and> vd_target_price d = Some t \<and> vd_expected_cost d = Some c \<and> 0 \<le> c
      \<and> tradeable_terms (vd_side d) e s t"
    and "0 < vd_risk_fraction d" and "0 < vd_calculated_quantity d" and "vd_blockers d = []"
proof -
  have v: "first_error (validate_tradeable d) = None"
    using assms by (simp add: wf_v6_decision_def V6Decision_checks_def first_error_append_None
        first_error_Cons_None del: first_error.simps)
  then show "0 < vd_risk_fraction d" and "0 < vd_calculated_quantity d" and "vd_blockers d = []"
    by (auto simp: validate_tradeable_def Let_def split: if_splits)
  from v obtain e s t c where "vd_planned_entry d = Some e" "vd_structural_stop d = Some s"
      "vd_target_price d = Some t" "vd_expected_cost d = Some c"
    by (auto simp: validate_tradeable_def Let_def positive_prices_def split: if_splits option.splits)
  with v show "\<exists>e s t c. vd_planned_entry d = Some e \<and> vd_structural_stop d = Some s
      \<and> vd_target_price d = Some t \<and> vd_expected_cost d = Some c \<and> 0 \<le> c
      \<and> tradeable_terms (vd_side d) e s t"
    by (cases "vd_side d")
       (auto simp: validate_tradeable_def Let_def positive_prices_def tradeable_terms_def not_less
         split: if_splits)
qed

end
