(* ===== verification/RiskModels.thy ===== *)
theory RiskModels
  imports V6Models
begin

text \<open>
  \<^verbatim>\<open>risk/models.py\<close>, \<^verbatim>\<open>risk/reservations.py\<close> and \<^verbatim>\<open>risk/sizing.py\<close>: the views the risk
  engine reads, the david v6 policy and session anchor with their constructors' checks, the
  reservation of risk and its three operations, and the sizing calculator. Shown here: the bounds a
  valid policy puts on a trade, the accounting of a reservation along every sequence of
  operations, and what the calculator returns.
\<close>

section \<open>Views of the account\<close>

text \<open>\<^verbatim>\<open>str(uuid)\<close>: the hexadecimal digits with hyphens.\<close>

definition uuid_str :: "uuid \<Rightarrow> string" where
  "uuid_str u =
     (let h = uuid_hex u
      in take 8 h @ ''-'' @ take 4 (drop 8 h) @ ''-'' @ take 4 (drop 12 h) @ ''-''
           @ take 4 (drop 16 h) @ ''-'' @ drop 20 h)"

definition TRADE_RISK_CEILING :: decimal where
  "TRADE_RISK_CEILING = 1 / 100"

record LockedAccountSnapshot =
  las_account_id :: uuid
  las_environment :: string
  las_equity :: decimal
  las_cash :: decimal
  las_buying_power :: decimal
  las_currency :: string
  las_captured_at :: instant
  las_row_version :: int

record LockedPosition =
  lp_instrument_id :: uuid
  lp_quantity :: decimal
  lp_available_quantity :: decimal
  lp_average_cost :: decimal
  lp_position_risk_amount :: decimal
  lp_currency :: string
  lp_row_version :: int

record OpenOrderExposure =
  ooe_order_id :: uuid
  ooe_instrument_id :: uuid
  ooe_side :: Side
  ooe_unfilled_quantity :: decimal
  ooe_worst_case_price :: decimal
  ooe_risk_amount :: decimal
  ooe_currency :: string

record RiskReservationView =
  rrv_reservation_id :: uuid
  rrv_initial_risk_amount :: decimal
  rrv_consumed_risk_amount :: decimal
  rrv_remaining_risk_amount :: decimal
  rrv_released_risk_amount :: decimal
  rrv_status :: string

record RiskBudgetAnchorView =
  av_scope_type :: string
  av_scope_key :: string
  av_currency :: string
  av_position_risk_amount :: decimal
  av_remaining_reservation_amount :: decimal
  av_hard_limit_amount :: decimal
  av_row_version :: int

record RiskSnapshotView =
  rs_id :: uuid
  rs_account_id :: uuid
  rs_as_of :: instant
  rs_currency :: "string option"
  rs_equity :: decimal
  rs_cash :: decimal
  rs_gross_exposure :: decimal
  rs_net_exposure :: decimal
  rs_open_risk :: decimal
  rs_daily_realized_pnl :: decimal
  rs_daily_unrealized_pnl :: decimal
  rs_drawdown :: decimal
  rs_position_hash :: bytes
  rs_open_order_hash :: bytes
  rs_settlement_asset :: "string option"

definition require_asset_denomination :: "string option \<Rightarrow> string option \<Rightarrow> checks" where
  "require_asset_denomination currency settlement_asset =
     [((currency = None) = (settlement_asset = None),
         ValueError ''exactly one of currency and settlement_asset is required''),
      ((case currency of
          None \<Rightarrow> False
        | Some c \<Rightarrow> length c \<noteq> 3 \<or> \<not> isascii c \<or> \<not> isupper_ascii c),
         ValueError ''currency must be a three-letter uppercase code''),
      ((case settlement_asset of
          None \<Rightarrow> False
        | Some a \<Rightarrow> \<not> (1 \<le> length a \<and> length a \<le> 16) \<or> \<not> isascii a \<or> \<not> isupper_ascii a),
         ValueError ''settlement_asset must be an uppercase asset code'')]"

definition RiskSnapshotView_checks :: "RiskSnapshotView \<Rightarrow> checks" where
  "RiskSnapshotView_checks s = require_asset_denomination (rs_currency s) (rs_settlement_asset s)"

section \<open>The david v6 policy and session anchor\<close>

record V6RiskPolicySnapshot =
  vp_policy_version_id :: uuid
  vp_market :: V6Market
  vp_normal_risk_fraction :: decimal
  vp_a_candidate_risk_fraction :: "decimal option"
  vp_a_risk_fraction :: decimal
  vp_absolute_trade_risk_fraction :: decimal
  vp_daily_loss_fraction :: decimal
  vp_weekly_loss_fraction :: decimal
  vp_max_consecutive_losses :: int
  vp_max_open_structural_risk_fraction :: decimal
  vp_account_age :: timedelta
  vp_risk_age :: timedelta
  vp_quote_age :: timedelta
  vp_provider_age :: timedelta
  vp_stream_gap_age :: "timedelta option"
  vp_completed_intraday_bar_arrival_age :: timedelta
  vp_daily_requires_authoritative_close :: bool

definition unit_fraction_check :: "string \<times> decimal \<Rightarrow> bool \<times> py_error" where
  "unit_fraction_check nv =
     (\<not> (0 < snd nv \<and> snd nv \<le> 1), ValueError (fst nv @ '' must be in (0, 1]''))"

definition require_positive_timedelta :: "string \<times> timedelta \<Rightarrow> bool \<times> py_error" where
  "require_positive_timedelta nv = (snd nv \<le> 0, ValueError (fst nv @ '' must be positive''))"

definition list_of_option :: "'a option \<Rightarrow> 'a list" where
  "list_of_option x = (case x of None \<Rightarrow> [] | Some y \<Rightarrow> [y])"

definition V6RiskPolicySnapshot_checks :: "V6RiskPolicySnapshot \<Rightarrow> checks" where
  "V6RiskPolicySnapshot_checks p =
     uuid7_checks [(''policy_version_id'', vp_policy_version_id p)]
     @ map unit_fraction_check
         [(''normal_risk_fraction'', vp_normal_risk_fraction p),
          (''a_risk_fraction'', vp_a_risk_fraction p),
          (''absolute_trade_risk_fraction'', vp_absolute_trade_risk_fraction p),
          (''daily_loss_fraction'', vp_daily_loss_fraction p),
          (''weekly_loss_fraction'', vp_weekly_loss_fraction p),
          (''max_open_structural_risk_fraction'', vp_max_open_structural_risk_fraction p)]
     @ map (\<lambda>c. unit_fraction_check (''a_candidate_risk_fraction'', c))
         (list_of_option (vp_a_candidate_risk_fraction p))
     @ [(vp_max_consecutive_losses p \<le> 0, ValueError ''max_consecutive_losses must be positive''),
        (list_ex (\<lambda>v. v > vp_absolute_trade_risk_fraction p)
           ([vp_normal_risk_fraction p, vp_a_risk_fraction p]
            @ list_of_option (vp_a_candidate_risk_fraction p)),
           ValueError ''grade risk cannot exceed the absolute trade ceiling''),
        (vp_absolute_trade_risk_fraction p > TRADE_RISK_CEILING,
           ValueError ''absolute trade risk cannot exceed one percent'')]
     @ (if vp_market p = BINANCE_USDM
        then [(vp_a_candidate_risk_fraction p = None \<or> vp_stream_gap_age p = None,
                 ValueError ''Binance policy requires candidate and stream ages''),
              (vp_daily_requires_authoritative_close p,
                 ValueError ''Binance daily evidence uses the UTC session'')]
        else [(vp_a_candidate_risk_fraction p \<noteq> None \<or> vp_stream_gap_age p \<noteq> None,
                 ValueError ''cash policy cannot define futures-only fields''),
              (\<not> vp_daily_requires_authoritative_close p,
                 ValueError ''cash policy requires an authoritative close'')])
     @ map require_positive_timedelta
         [(''account_age'', vp_account_age p), (''risk_age'', vp_risk_age p),
          (''quote_age'', vp_quote_age p), (''provider_age'', vp_provider_age p),
          (''completed_intraday_bar_arrival_age'', vp_completed_intraday_bar_arrival_age p)]
     @ map (\<lambda>a. require_positive_timedelta (''stream_gap_age'', a))
         (list_of_option (vp_stream_gap_age p))"

definition wf_policy :: "V6RiskPolicySnapshot \<Rightarrow> bool" where
  "wf_policy p \<longleftrightarrow> first_error (V6RiskPolicySnapshot_checks p) = None"

definition risk_fraction_for :: "V6RiskPolicySnapshot \<Rightarrow> SetupGrade \<Rightarrow> decimal option" where
  "risk_fraction_for p grade =
     (case grade of
        GRADE_REJECT \<Rightarrow> Some 0
      | GRADE_NORMAL \<Rightarrow> Some (vp_normal_risk_fraction p)
      | GRADE_A_CANDIDATE \<Rightarrow> vp_a_candidate_risk_fraction p
      | GRADE_A \<Rightarrow> Some (vp_a_risk_fraction p))"

definition is_fresh :: "timedelta \<Rightarrow> timedelta \<Rightarrow> bool" where
  "is_fresh age maximum \<longleftrightarrow> 0 \<le> age \<and> age \<le> maximum"

definition is_account_fresh :: "V6RiskPolicySnapshot \<Rightarrow> timedelta \<Rightarrow> bool" where
  "is_account_fresh p age = is_fresh age (vp_account_age p)"

definition is_risk_fresh :: "V6RiskPolicySnapshot \<Rightarrow> timedelta \<Rightarrow> bool" where
  "is_risk_fresh p age = is_fresh age (vp_risk_age p)"

definition is_quote_fresh :: "V6RiskPolicySnapshot \<Rightarrow> timedelta \<Rightarrow> bool" where
  "is_quote_fresh p age = is_fresh age (vp_quote_age p)"

definition is_provider_fresh :: "V6RiskPolicySnapshot \<Rightarrow> timedelta \<Rightarrow> bool" where
  "is_provider_fresh p age = is_fresh age (vp_provider_age p)"

definition is_stream_gap_fresh :: "V6RiskPolicySnapshot \<Rightarrow> timedelta \<Rightarrow> bool" where
  "is_stream_gap_fresh p age =
     (case vp_stream_gap_age p of None \<Rightarrow> False | Some maximum \<Rightarrow> is_fresh age maximum)"

definition is_completed_intraday_bar_fresh :: "V6RiskPolicySnapshot \<Rightarrow> timedelta \<Rightarrow> bool" where
  "is_completed_intraday_bar_fresh p age = is_fresh age (vp_completed_intraday_bar_arrival_age p)"

record V6SessionRiskAnchor =
  sa_id :: uuid
  sa_account_id :: uuid
  sa_policy_version_id :: uuid
  sa_account_snapshot_id :: uuid
  sa_risk_snapshot_id :: uuid
  sa_market :: V6Market
  sa_session_key :: string
  sa_session_started_at :: instant
  sa_captured_at :: instant
  sa_starting_equity :: decimal
  sa_currency :: "string option"
  sa_settlement_asset :: "string option"
  sa_evidence_hash :: bytes

definition V6SessionRiskAnchor_checks :: "V6SessionRiskAnchor \<Rightarrow> checks" where
  "V6SessionRiskAnchor_checks a =
     uuid7_checks
       [(''id'', sa_id a), (''account_id'', sa_account_id a),
        (''policy_version_id'', sa_policy_version_id a),
        (''account_snapshot_id'', sa_account_snapshot_id a),
        (''risk_snapshot_id'', sa_risk_snapshot_id a)]
     @ [(\<not> trimmed_text (sa_session_key a), ValueError ''session_key must be non-empty and trimmed''),
        (sa_captured_at a < sa_session_started_at a,
           ValueError ''anchor capture cannot precede session start''),
        (sa_starting_equity a \<le> 0, ValueError ''starting_equity must be positive'')]
     @ require_asset_denomination (sa_currency a) (sa_settlement_asset a)
     @ [(length (sa_evidence_hash a) \<noteq> 32, ValueError ''evidence_hash must be SHA-256'')]"

definition risk_base :: "V6SessionRiskAnchor \<Rightarrow> py_object \<Rightarrow> decimal result" where
  "risk_base a current_equity =
     and_then (require_decimal current_equity)
       (\<lambda>current. if current \<le> 0 then Inl (ValueError ''current_equity must be positive'')
                  else Inr (min (sa_starting_equity a) current))"

section \<open>The context and the outcome of an evaluation\<close>

record RiskQuote =
  rq_instrument_id :: uuid
  rq_bid :: decimal
  rq_ask :: decimal
  rq_currency :: string
  rq_as_of :: instant

record RiskPolicySnapshot =
  rp_policy_version_id :: uuid
  rp_active :: bool
  rp_max_total_risk :: decimal
  rp_max_position_value :: decimal
  rp_max_daily_loss :: decimal
  rp_max_drawdown :: decimal
  rp_max_slippage_bps :: decimal
  rp_max_account_snapshot_age :: timedelta
  rp_max_risk_snapshot_age :: timedelta
  rp_max_market_data_age :: timedelta

record TradingControlSnapshot =
  tc_trading_enabled :: bool

record RiskContext =
  rc_decision_at :: instant
  rc_account_snapshot :: LockedAccountSnapshot
  rc_risk_snapshot :: RiskSnapshotView
  rc_positions :: "LockedPosition list"
  rc_open_orders :: "OpenOrderExposure list"
  rc_active_reservations :: "RiskReservationView list"
  rc_budget_anchors :: "RiskBudgetAnchorView list"
  rc_quote :: RiskQuote
  rc_active_policy :: RiskPolicySnapshot
  rc_trading_control :: TradingControlSnapshot
  rc_blocking_incident_count :: int
  rc_unresolved_unknown_count :: int
  rc_blocking_reconciliation_count :: int
  rc_position_hash :: bytes
  rc_open_order_hash :: bytes

datatype RiskOutcome = APPROVE | REJECT | REDUCE | OBSERVED_BLOCKING

record RiskDecision =
  rd_id :: uuid
  rd_order_intent_id :: uuid
  rd_risk_snapshot_id :: uuid
  rd_outcome :: RiskOutcome
  rd_requested_quantity :: decimal
  rd_reason_codes :: "string list"
  rd_approved_quantity :: decimal
  rd_approved_limit_price :: "decimal option"
  rd_reserved_risk_amount :: decimal
  rd_currency :: string
  rd_policy_version_id :: uuid
  rd_decided_at :: instant
  rd_decision_hash :: bytes

section \<open>Reservations\<close>

datatype ReservationStatus = ACTIVE | PARTIALLY_CONSUMED | CONSUMED | RELEASED

record RiskReservation =
  rr_id :: uuid
  rr_risk_decision_id :: uuid
  rr_order_intent_id :: uuid
  rr_account_id :: uuid
  rr_initial_risk_amount :: decimal
  rr_consumed_risk_amount :: decimal
  rr_remaining_risk_amount :: decimal
  rr_released_risk_amount :: decimal
  rr_status :: ReservationStatus
  rr_expires_at :: instant
  rr_release_reason :: "string option"

text \<open>\<^verbatim>\<open>RiskReservation.__post_init__\<close>, run by the constructor and by every \<^verbatim>\<open>replace\<close>.\<close>

definition RiskReservation_checks :: "RiskReservation \<Rightarrow> checks" where
  "RiskReservation_checks r =
     [(list_ex (\<lambda>a. a < 0)
         [rr_initial_risk_amount r, rr_consumed_risk_amount r, rr_remaining_risk_amount r,
          rr_released_risk_amount r],
         ValueError ''reservation amounts must be non-negative''),
      (dadd (dadd (rr_consumed_risk_amount r) (rr_remaining_risk_amount r)) (rr_released_risk_amount r)
         \<noteq> rr_initial_risk_amount r,
         ValueError ''reservation accounting invariant is required'')]"

definition reservation_create ::
  "uuid \<Rightarrow> uuid \<Rightarrow> uuid \<Rightarrow> uuid \<Rightarrow> py_object \<Rightarrow> instant \<Rightarrow> RiskReservation result" where
  "reservation_create res_id risk_decision_id order_intent_id account_id initial_risk_amount expires_at =
     and_then (require_decimal initial_risk_amount) (\<lambda>amount.
       if amount < 0 then Inl (ValueError ''initial risk amount must be non-negative'')
       else let r = \<lparr>rr_id = res_id, rr_risk_decision_id = risk_decision_id,
                     rr_order_intent_id = order_intent_id, rr_account_id = account_id,
                     rr_initial_risk_amount = amount, rr_consumed_risk_amount = 0,
                     rr_remaining_risk_amount = amount, rr_released_risk_amount = 0,
                     rr_status = ACTIVE, rr_expires_at = expires_at, rr_release_reason = None\<rparr>
            in validated (RiskReservation_checks r) r)"

definition reservation_consume :: "RiskReservation \<Rightarrow> py_object \<Rightarrow> RiskReservation result" where
  "reservation_consume r risk_amount =
     and_then (require_decimal risk_amount) (\<lambda>amount.
       if amount < 0 then Inl (ValueError ''consumed risk amount must be non-negative'')
       else let moved = min amount (rr_remaining_risk_amount r);
                remaining = dsub (rr_remaining_risk_amount r) moved;
                consumed = dadd (rr_consumed_risk_amount r) moved;
                r' = r\<lparr>rr_consumed_risk_amount := consumed, rr_remaining_risk_amount := remaining,
                       rr_status := (if remaining = 0 then CONSUMED else PARTIALLY_CONSUMED)\<rparr>
            in validated (RiskReservation_checks r') r')"

definition reservation_release :: "RiskReservation \<Rightarrow> string \<Rightarrow> RiskReservation result" where
  "reservation_release r reason =
     (if strip reason = [] then Inl (ValueError ''release reason is required'')
      else let r' = r\<lparr>rr_remaining_risk_amount := 0,
                      rr_released_risk_amount :=
                        dadd (rr_released_risk_amount r) (rr_remaining_risk_amount r),
                      rr_status := RELEASED, rr_release_reason := Some reason\<rparr>
           in validated (RiskReservation_checks r') r')"

section \<open>Sizing\<close>

text \<open>\<^verbatim>\<open>except FloatRejectedError\<close>: a rejected float becomes a \<^verbatim>\<open>ValueError\<close>.\<close>

definition float_as_value_error :: "'a result \<Rightarrow> 'a result" where
  "float_as_value_error r =
     (case r of Inl (FloatRejectedError m) \<Rightarrow> Inl (ValueError m) | _ \<Rightarrow> r)"

definition sizing_calculate :: "py_object \<Rightarrow> py_object \<Rightarrow> py_object \<Rightarrow> Side \<Rightarrow> decimal result" where
  "sizing_calculate risk_budget entry_price invalidation_price side =
     and_then (float_as_value_error (require_decimal risk_budget)) (\<lambda>budget.
     and_then (float_as_value_error (require_decimal entry_price)) (\<lambda>entry.
     and_then (float_as_value_error (require_decimal invalidation_price)) (\<lambda>invalidation.
       let stop_distance = (if side = BUY then dsub entry invalidation else dsub invalidation entry)
       in if budget \<le> 0 \<or> stop_distance \<le> 0
          then Inl (ValueError ''positive risk budget and stop distance are required'')
          else let quantity = ddiv budget stop_distance
               in if quantity \<le> 0 then Inl (ValueError ''positive quantity is required'')
                  else Inr quantity)))"

definition sizing_calculate_market ::
  "py_object \<Rightarrow> py_object \<Rightarrow> Side \<Rightarrow> py_object \<Rightarrow> py_object \<Rightarrow> py_object \<Rightarrow> bool \<Rightarrow> decimal result" where
  "sizing_calculate_market risk_budget invalidation_price side best_bid best_ask policy_slippage fresh =
     and_then (float_as_value_error (require_decimal best_bid)) (\<lambda>bid.
     and_then (float_as_value_error (require_decimal best_ask)) (\<lambda>ask.
     and_then (float_as_value_error (require_decimal policy_slippage)) (\<lambda>slippage.
       if \<not> fresh \<or> bid \<le> 0 \<or> ask \<le> 0 \<or> slippage < 0
       then Inl (ValueError ''fresh positive quote and non-negative slippage are required'')
       else let worst_case_entry = (if side = BUY then dadd ask slippage else dsub bid slippage)
            in if worst_case_entry \<le> 0
               then Inl (ValueError ''worst-case entry price must be positive'')
               else sizing_calculate risk_budget (PyDecimal worst_case_entry) invalidation_price side)))"

section \<open>Bounds of a valid policy\<close>

lemma wf_policy_fractions:
  assumes "wf_policy p"
  shows "vp_absolute_trade_risk_fraction p \<le> 1 / 100"
    and "0 < vp_normal_risk_fraction p" and "vp_normal_risk_fraction p \<le> vp_absolute_trade_risk_fraction p"
    and "0 < vp_a_risk_fraction p" and "vp_a_risk_fraction p \<le> vp_absolute_trade_risk_fraction p"
    and "\<And>c. vp_a_candidate_risk_fraction p = Some c \<Longrightarrow>
           0 < c \<and> c \<le> vp_absolute_trade_risk_fraction p"
    and "vp_a_candidate_risk_fraction p = None \<longleftrightarrow> vp_market p \<noteq> BINANCE_USDM"
    and "vp_stream_gap_age p = None \<longleftrightarrow> vp_market p \<noteq> BINANCE_USDM"
    and "0 < vp_max_open_structural_risk_fraction p" and "0 < vp_daily_loss_fraction p"
    and "0 < vp_weekly_loss_fraction p" and "0 < vp_max_consecutive_losses p"
  using assms
  by (auto simp: wf_policy_def V6RiskPolicySnapshot_checks_def first_error_append_None uuid7_checks_def
      unit_fraction_check_def require_positive_timedelta_def list_of_option_def TRADE_RISK_CEILING_def
      not_less split: if_splits option.splits)

section \<open>Reservation accounting\<close>

text \<open>What every reservation object satisfies, its amounts being 28-digit decimals.\<close>

definition res_inv :: "RiskReservation \<Rightarrow> bool" where
  "res_inv r \<longleftrightarrow>
     first_error (RiskReservation_checks r) = None
     \<and> rnd (rr_initial_risk_amount r) = rr_initial_risk_amount r
     \<and> rnd (rr_consumed_risk_amount r) = rr_consumed_risk_amount r
     \<and> rnd (rr_remaining_risk_amount r) = rr_remaining_risk_amount r
     \<and> rnd (rr_released_risk_amount r) = rr_released_risk_amount r"

text \<open>Risk moves one way: out of what remains, into what is consumed or released.\<close>

definition res_below :: "RiskReservation \<Rightarrow> RiskReservation \<Rightarrow> bool" where
  "res_below r s \<longleftrightarrow>
     rr_initial_risk_amount s = rr_initial_risk_amount r
     \<and> rr_consumed_risk_amount r \<le> rr_consumed_risk_amount s
     \<and> rr_released_risk_amount r \<le> rr_released_risk_amount s
     \<and> rr_remaining_risk_amount s \<le> rr_remaining_risk_amount r"

datatype reservation_op = Consume py_object | Release string

fun reservation_step :: "RiskReservation \<Rightarrow> reservation_op \<Rightarrow> RiskReservation option" where
  "reservation_step r (Consume amount) =
     (case reservation_consume r amount of Inl _ \<Rightarrow> None | Inr r' \<Rightarrow> Some r')"
| "reservation_step r (Release reason) =
     (case reservation_release r reason of Inl _ \<Rightarrow> None | Inr r' \<Rightarrow> Some r')"

lemma res_inv_nonneg:
  assumes "res_inv r"
  shows "0 \<le> rr_initial_risk_amount r" "0 \<le> rr_consumed_risk_amount r"
    "0 \<le> rr_remaining_risk_amount r" "0 \<le> rr_released_risk_amount r"
    and "rnd (rnd (rr_consumed_risk_amount r + rr_remaining_risk_amount r) + rr_released_risk_amount r)
         = rr_initial_risk_amount r"
  using assms by (auto simp: res_inv_def RiskReservation_checks_def dec_ops split: if_splits)

lemma res_inv_consumed_le:
  assumes "res_inv r"
  shows "rr_consumed_risk_amount r \<le> rr_initial_risk_amount r"
proof -
  note nn = res_inv_nonneg [OF assms]
  have "rr_consumed_risk_amount r \<le> rnd (rr_consumed_risk_amount r + rr_remaining_risk_amount r)"
    using assms nn by (intro rnd_ge) (auto simp: res_inv_def)
  then have "rr_consumed_risk_amount r
      \<le> rnd (rnd (rr_consumed_risk_amount r + rr_remaining_risk_amount r) + rr_released_risk_amount r)"
    using assms nn by (intro rnd_ge) (auto simp: res_inv_def)
  with nn show ?thesis by simp
qed

lemma consume_fields:
  assumes "reservation_consume r amount = Inr r'"
  obtains a where "amount = PyDecimal a" and "0 \<le> a"
    and "first_error (RiskReservation_checks r') = None"
    and "rr_consumed_risk_amount r' = rnd (rr_consumed_risk_amount r + min a (rr_remaining_risk_amount r))"
    and "rr_remaining_risk_amount r' = rnd (rr_remaining_risk_amount r - min a (rr_remaining_risk_amount r))"
    and "rr_initial_risk_amount r' = rr_initial_risk_amount r"
    and "rr_released_risk_amount r' = rr_released_risk_amount r"
  using assms
  by (cases amount) (force simp: reservation_consume_def Let_def checks_simps dec_ops split: if_splits)+

lemma consume_Inr:
  assumes inv: "res_inv r" and c: "reservation_consume r amount = Inr r'"
  shows "res_inv r' \<and> res_below r r'"
proof -
  from c obtain a where a: "0 \<le> a" and chk: "first_error (RiskReservation_checks r') = None"
    and f: "rr_consumed_risk_amount r' = rnd (rr_consumed_risk_amount r + min a (rr_remaining_risk_amount r))"
      "rr_remaining_risk_amount r' = rnd (rr_remaining_risk_amount r - min a (rr_remaining_risk_amount r))"
      "rr_initial_risk_amount r' = rr_initial_risk_amount r"
      "rr_released_risk_amount r' = rr_released_risk_amount r"
    by (rule consume_fields)
  note nn = res_inv_nonneg [OF inv]
  have "res_inv r'" using inv chk by (simp add: res_inv_def f)
  moreover have "rr_consumed_risk_amount r \<le> rnd (rr_consumed_risk_amount r + min a (rr_remaining_risk_amount r))"
    using inv nn a by (intro rnd_ge) (auto simp: res_inv_def)
  moreover have "rnd (rr_remaining_risk_amount r - min a (rr_remaining_risk_amount r)) \<le> rr_remaining_risk_amount r"
    using inv nn a by (intro rnd_le) (auto simp: res_inv_def)
  ultimately show ?thesis by (simp add: res_below_def f)
qed

lemma release_Inr:
  assumes "res_inv r" "reservation_release r reason = Inr r'"
  shows "res_inv r' \<and> res_below r r'" and "rr_remaining_risk_amount r' = 0"
    and "rr_status r' = RELEASED" and "rr_release_reason r' = Some reason"
proof -
  note nn = res_inv_nonneg [OF assms(1)]
  have "rr_released_risk_amount r \<le> rnd (rr_released_risk_amount r + rr_remaining_risk_amount r)"
    using assms(1) nn by (intro rnd_ge) (auto simp: res_inv_def)
  with assms nn show "res_inv r' \<and> res_below r r'"
    by (auto simp: reservation_release_def Let_def checks_simps res_inv_def res_below_def dec_ops
        split: if_splits)
  show "rr_remaining_risk_amount r' = 0" "rr_status r' = RELEASED" "rr_release_reason r' = Some reason"
    using assms by (auto simp: reservation_release_def Let_def checks_simps split: if_splits)
qed

interpretation reservation: monotone_system reservation_step res_inv res_below
proof
  fix r e r'
  assume inv: "res_inv r" and st: "reservation_step r e = Some r'"
  show "res_inv r'" using inv st by (cases e) (auto dest: consume_Inr release_Inr split: sum.splits)
  show "res_below r r'" using inv st by (cases e) (auto dest: consume_Inr release_Inr split: sum.splits)
qed (auto simp: res_below_def)

text \<open>Amounts with at most eighteen fractional digits, as the columns hold them, whose accounting is
  exact.\<close>

definition res_grid :: "nat \<Rightarrow> RiskReservation \<Rightarrow> bool" where
  "res_grid k r \<longleftrightarrow>
     dec_grid k (rr_initial_risk_amount r) \<and> dec_grid k (rr_consumed_risk_amount r)
     \<and> dec_grid k (rr_remaining_risk_amount r) \<and> dec_grid k (rr_released_risk_amount r)
     \<and> 0 \<le> rr_consumed_risk_amount r \<and> 0 \<le> rr_remaining_risk_amount r \<and> 0 \<le> rr_released_risk_amount r
     \<and> rr_consumed_risk_amount r + rr_remaining_risk_amount r + rr_released_risk_amount r
       = rr_initial_risk_amount r"

text \<open>The ledger a reservation implements: consumed, remaining and released, in exact arithmetic.\<close>

type_synonym ledger = "rat \<times> rat \<times> rat"

definition ledger_of :: "RiskReservation \<Rightarrow> ledger" where
  "ledger_of r = (rr_consumed_risk_amount r, rr_remaining_risk_amount r, rr_released_risk_amount r)"

fun ledger_step :: "ledger \<Rightarrow> reservation_op \<Rightarrow> ledger" where
  "ledger_step (c, m, l) (Consume (PyDecimal a)) = (c + min a m, m - min a m, l)"
| "ledger_step (c, m, l) (Consume _) = (c, m, l)"
| "ledger_step (c, m, l) (Release reason) = (if strip reason = [] then (c, m, l) else (c, 0, l + m))"

fun op_on_grid :: "nat \<Rightarrow> reservation_op \<Rightarrow> bool" where
  "op_on_grid k (Consume (PyDecimal a)) \<longleftrightarrow> 0 \<le> a \<and> dec_grid k a"
| "op_on_grid k (Consume _) \<longleftrightarrow> False"
| "op_on_grid k (Release reason) \<longleftrightarrow> strip reason \<noteq> []"

lemma consume_grid:
  assumes g: "res_grid k r" and a: "0 \<le> a" "dec_grid k a"
  shows "\<exists>r'. reservation_consume r (PyDecimal a) = Inr r' \<and> res_grid k r'
     \<and> ledger_of r' = ledger_step (ledger_of r) (Consume (PyDecimal a))"
proof -
  let ?c = "rr_consumed_risk_amount r" and ?m = "rr_remaining_risk_amount r"
  let ?l = "rr_released_risk_amount r" and ?i = "rr_initial_risk_amount r"
  define v where "v = min a ?m"
  have v: "0 \<le> v" "v \<le> ?m" "dec_grid k v" using g a by (auto simp: v_def res_grid_def)
  have c': "dec_grid k (?c + v)"
    using g v by (intro dec_grid_add [of k _ _ ?i]) (auto simp: res_grid_def)
  have m': "dec_grid k (?m - v)" using g v by (intro dec_grid_diff) (auto simp: res_grid_def)
  have cm: "dec_grid k (?c + ?m)"
    using g by (intro dec_grid_add [of k _ _ ?i]) (auto simp: res_grid_def)
  have i: "dec_grid k ?i" "?c + ?m + ?l = ?i" and nn: "0 \<le> ?c" "0 \<le> ?l" "0 \<le> ?m"
    using g by (auto simp: res_grid_def)
  have bal: "rnd (rnd (?c + v + (?m - v)) + ?l) = ?i" using cm i by simp
  have "0 \<le> ?i" using i nn by linarith
  then show ?thesis
    using a v c' m' i nn bal g
    by (simp add: reservation_consume_def Let_def validated_def RiskReservation_checks_def dec_ops
        ledger_of_def res_grid_def flip: v_def)
qed

lemma release_grid:
  assumes g: "res_grid k r" and reason: "strip reason \<noteq> []"
  shows "\<exists>r'. reservation_release r reason = Inr r' \<and> res_grid k r'
     \<and> ledger_of r' = ledger_step (ledger_of r) (Release reason)"
proof -
  let ?c = "rr_consumed_risk_amount r" and ?m = "rr_remaining_risk_amount r"
  let ?l = "rr_released_risk_amount r" and ?i = "rr_initial_risk_amount r"
  have lm: "dec_grid k (?l + ?m)"
    using g by (intro dec_grid_add [of k _ _ ?i]) (auto simp: res_grid_def)
  have i: "dec_grid k ?i" "?c + (?l + ?m) = ?i" "dec_grid k ?c" and nn: "0 \<le> ?c" "0 \<le> ?l" "0 \<le> ?m"
    using g by (auto simp: res_grid_def)
  have "0 \<le> ?i" using i nn by linarith
  then show ?thesis
    using reason lm i nn
    by (simp add: reservation_release_def Let_def validated_def RiskReservation_checks_def dec_ops
        ledger_of_def res_grid_def rnd_grid [of k])
qed

lemma step_grid:
  assumes "res_grid k r" and "op_on_grid k x"
  shows "\<exists>r'. reservation_step r x = Some r' \<and> res_grid k r'
     \<and> ledger_of r' = ledger_step (ledger_of r) x"
proof (cases x)
  case (Consume v)
  with assms(2) obtain a where "v = PyDecimal a" "0 \<le> a" "dec_grid k a" by (cases v) auto
  with consume_grid [OF assms(1), of a] Consume show ?thesis by auto
next
  case (Release reason)
  with assms(2) have "strip reason \<noteq> []" by simp
  with release_grid [OF assms(1), of reason] Release show ?thesis by auto
qed

section \<open>The calculator\<close>

lemma sizing_calculate_decimal:
  "sizing_calculate (PyDecimal budget) (PyDecimal entry) (PyDecimal invalidation) side =
     (let d = (if side = BUY then dsub entry invalidation else dsub invalidation entry)
      in if budget \<le> 0 \<or> d \<le> 0
         then Inl (ValueError ''positive risk budget and stop distance are required'')
         else Inr (ddiv budget d))"
  by (auto simp: sizing_calculate_def float_as_value_error_def Let_def dec_ops divide_le_0_iff)

lemma division_error:
  assumes "0 < b" "0 < d"
  shows "\<bar>rnd (b / d) * d - b\<bar> \<le> b * (5 / 10 ^ 28)"
proof -
  have "\<bar>rnd (b / d) * d - b\<bar> = \<bar>(rnd (b / d) - b / d) * d\<bar>"
    using assms by (simp add: left_diff_distrib)
  also have "\<dots> \<le> \<bar>b / d\<bar> * (5 / 10 ^ 28) * d"
    using assms rnd_error [of "b / d"] by (simp only: abs_mult) (intro mult_mono; simp)
  finally show ?thesis using assms by simp
qed

section \<open>Properties\<close>

text \<open>Along every sequence of consume and release operations, whatever their arguments, a
  reservation keeps the initial amount and its accounting equation, risk only leaves the remaining
  amount, and never more than the initial amount is consumed.\<close>

theorem reservation_run_sound:
  assumes "res_inv r"
  shows "res_inv (run_steps reservation_step r ops)
    \<and> res_below r (run_steps reservation_step r ops)
    \<and> rr_consumed_risk_amount (run_steps reservation_step r ops) \<le> rr_initial_risk_amount r"
  using reservation.run_inv [OF assms] reservation.run_below [OF assms]
    res_inv_consumed_le [OF reservation.run_inv [OF assms]]
  by (simp add: res_below_def)

text \<open>On amounts with a fixed number of fractional digits a reservation implements the exact
  ledger: no operation with a non-negative amount or a reason is refused, each moves exactly what the
  ledger moves, and the three amounts always sum to the initial one.\<close>

theorem reservation_refines_ledger:
  assumes "res_grid k r" and "\<forall>x \<in> set ops. op_on_grid k x"
  shows "ledger_of (run_steps reservation_step r ops) = foldl ledger_step (ledger_of r) ops
    \<and> res_grid k (run_steps reservation_step r ops)"
  using assms
proof (induction ops arbitrary: r)
  case (Cons x ops)
  from Cons.prems step_grid [of k r x] obtain r' where "reservation_step r x = Some r'"
    "res_grid k r'" "ledger_of r' = ledger_step (ledger_of r) x" by auto
  with Cons.IH [of r'] Cons.prems show ?case by simp
qed simp

text \<open>A valid policy never lets one trade risk more than one percent of the account, whatever
  the grade; only a rejected setup has fraction zero, and only the futures market grades
  A candidates.\<close>

theorem valid_policy_bounds_trade_risk:
  assumes "wf_policy p"
  shows "(\<forall>g x. risk_fraction_for p g = Some x \<longrightarrow>
            0 \<le> x \<and> x \<le> vp_absolute_trade_risk_fraction p \<and> x \<le> 1 / 100 \<and> (x = 0 \<longleftrightarrow> g = GRADE_REJECT))
    \<and> (risk_fraction_for p g = None \<longleftrightarrow> g = GRADE_A_CANDIDATE \<and> vp_market p \<noteq> BINANCE_USDM)"
  using wf_policy_fractions [OF assms]
  by (auto simp: risk_fraction_for_def split: SetupGrade.splits dest: less_imp_le intro: order_trans)

text \<open>The calculator answers exactly when the budget is positive and the invalidation price lies
  on the protective side of the entry, and then the loss at that price is the budget up to the
  rounding of one 28-digit division.\<close>

theorem sizing_spends_the_budget:
  "sizing_calculate (PyDecimal budget) (PyDecimal entry) (PyDecimal invalidation) side = Inr q \<longleftrightarrow>
     0 < budget \<and> (case side of BUY \<Rightarrow> invalidation < entry | SELL \<Rightarrow> entry < invalidation)
     \<and> q = rnd (budget / rnd \<bar>entry - invalidation\<bar>)
     \<and> 0 < q \<and> \<bar>q * rnd \<bar>entry - invalidation\<bar> - budget\<bar> \<le> budget * (5 / 10 ^ 28)"
proof (cases "0 < budget \<and> (case side of BUY \<Rightarrow> invalidation < entry | SELL \<Rightarrow> entry < invalidation)")
  case True
  let ?d = "rnd \<bar>entry - invalidation\<bar>"
  have d: "0 < ?d" and signed: "?d = (if side = BUY then dsub entry invalidation else dsub invalidation entry)"
    using True by (auto simp: dec_ops abs_if split: Side.splits)
  have "0 < rnd (budget / ?d)" using True d by simp
  with division_error [of budget ?d] d True show ?thesis
    by (auto simp: sizing_calculate_decimal signed [symmetric] dec_ops not_le)
next
  case False
  then show ?thesis
    by (cases side) (auto simp: sizing_calculate_decimal dec_ops not_le)
qed

section \<open>Witnesses\<close>

definition sample_reservation :: RiskReservation where
  "sample_reservation =
     \<lparr>rr_id = 1, rr_risk_decision_id = 2, rr_order_intent_id = 3, rr_account_id = 4,
      rr_initial_risk_amount = 100, rr_consumed_risk_amount = 0, rr_remaining_risk_amount = 100,
      rr_released_risk_amount = 0, rr_status = ACTIVE, rr_expires_at = 0, rr_release_reason = None\<rparr>"

theorem reservation_run_sound_witness:
  "res_inv sample_reservation
   \<and> rr_consumed_risk_amount (run_steps reservation_step sample_reservation
        [Consume (PyDecimal (1 / 3)), Release ''done'', Consume PyFloat]) \<le> 100"
proof -
  have "res_inv sample_reservation" by code_simp
  moreover have "rr_initial_risk_amount sample_reservation = 100" by (simp add: sample_reservation_def)
  ultimately show ?thesis using reservation_run_sound [of sample_reservation] by metis
qed

theorem reservation_refines_ledger_witness:
  "res_grid 18 sample_reservation
   \<and> ledger_of (run_steps reservation_step sample_reservation
        [Consume (PyDecimal 30), Consume (PyDecimal (5 / 2)), Release ''done'']) = (65 / 2, 0, 135 / 2)"
proof -
  let ?ops = "[Consume (PyDecimal 30), Consume (PyDecimal (5 / 2)), Release ''done'']"
  have "res_grid 18 sample_reservation" by code_simp
  moreover have "\<forall>x \<in> set ?ops. op_on_grid 18 x" by code_simp
  ultimately have "ledger_of (run_steps reservation_step sample_reservation ?ops)
      = foldl ledger_step (ledger_of sample_reservation) ?ops"
    using reservation_refines_ledger by blast
  also have "\<dots> = (65 / 2, 0, 135 / 2)" by code_simp
  finally show ?thesis using \<open>res_grid 18 sample_reservation\<close> by simp
qed

definition sample_policy :: V6RiskPolicySnapshot where
  "sample_policy =
     \<lparr>vp_policy_version_id = 0x0198000000007000800000000000000a, vp_market = BINANCE_USDM,
      vp_normal_risk_fraction = 5 / 1000, vp_a_candidate_risk_fraction = Some (6 / 1000),
      vp_a_risk_fraction = 75 / 10000, vp_absolute_trade_risk_fraction = 75 / 10000,
      vp_daily_loss_fraction = 3 / 100, vp_weekly_loss_fraction = 6 / 100,
      vp_max_consecutive_losses = 3, vp_max_open_structural_risk_fraction = 2 / 100,
      vp_account_age = 60, vp_risk_age = 60, vp_quote_age = 5, vp_provider_age = 60,
      vp_stream_gap_age = Some 5, vp_completed_intraday_bar_arrival_age = 60,
      vp_daily_requires_authoritative_close = False\<rparr>"

lemma sample_policy_wf: "wf_policy sample_policy"
  by code_simp

theorem valid_policy_bounds_trade_risk_witness:
  "wf_policy sample_policy \<and> risk_fraction_for sample_policy GRADE_A = Some (75 / 10000)
   \<and> (75 / 10000 :: rat) \<le> 1 / 100"
proof -
  have "risk_fraction_for sample_policy GRADE_A = Some (75 / 10000)"
    by (simp add: risk_fraction_for_def sample_policy_def)
  with valid_policy_bounds_trade_risk [OF sample_policy_wf] sample_policy_wf show ?thesis by blast
qed

end
