(* ===== verification/RiskEngine.thy ===== *)
theory RiskEngine
  imports RiskModels
begin

text \<open>
  \<^verbatim>\<open>risk/engine.py\<close>: the evaluation of an order intent against the locked context. The SHA-256 of
  the canonical JSON payloads is code of the standard library that the decisions carry but never
  read: the two digests are parameters, functions of the payload. Shown here: what an approval and a
  reduction guarantee, that every rejection names one reason, and that a well-formed intent is
  always decided.
\<close>

section \<open>Payloads of the digests\<close>

record IntentPayload =
  ipl_id :: uuid
  ipl_origin :: IntentOrigin
  ipl_source_id :: uuid
  ipl_account_id :: uuid
  ipl_instrument_id :: uuid
  ipl_intent_type :: IntentType
  ipl_side :: Side
  ipl_order_style :: OrderStyle
  ipl_quantity :: decimal
  ipl_limit_price :: "decimal option"
  ipl_idempotency_key :: string

definition intent_payload :: "OrderIntent \<Rightarrow> IntentPayload" where
  "intent_payload i =
     \<lparr>ipl_id = oi_id i, ipl_origin = oi_origin i, ipl_source_id = oi_source_id i,
      ipl_account_id = oi_account_id i, ipl_instrument_id = oi_instrument_id i,
      ipl_intent_type = oi_intent_type i, ipl_side = oi_side i, ipl_order_style = oi_order_style i,
      ipl_quantity = oi_quantity i, ipl_limit_price = oi_limit_price i,
      ipl_idempotency_key = oi_idempotency_key i\<rparr>"

record DecisionPayload =
  dpl_intent_id :: uuid
  dpl_canonical_intent_hash :: bytes
  dpl_policy_version_id :: uuid
  dpl_risk_snapshot_id :: uuid
  dpl_position_hash :: bytes
  dpl_open_order_hash :: bytes
  dpl_anchor_versions :: "int list"
  dpl_quote :: RiskQuote
  dpl_outcome :: RiskOutcome
  dpl_requested_quantity :: decimal
  dpl_approved_quantity :: decimal
  dpl_approved_price :: "decimal option"
  dpl_reserved :: decimal
  dpl_currency :: string
  dpl_reasons :: "string list"
  dpl_decided_at :: instant

section \<open>The engine\<close>

text \<open>A chain of early returns: the first condition that holds names the reason.\<close>

fun first_reason :: "(bool \<times> string) list \<Rightarrow> string option" where
  "first_reason [] = None"
| "first_reason ((bad, reason) # rs) = (if bad then Some reason else first_reason rs)"

definition risk_price :: "OrderIntent \<Rightarrow> RiskContext \<Rightarrow> decimal result" where
  "risk_price i c =
     (if oi_order_style i = LIMIT
      then (case oi_limit_price i of None \<Rightarrow> Inl AssertionError | Some p \<Rightarrow> Inr p)
      else let slippage = ddiv (rp_max_slippage_bps (rc_active_policy c)) 10000
           in Inr (if oi_side i = BUY
                   then dmul (rq_ask (rc_quote c)) (dadd 1 slippage)
                   else dmul (rq_bid (rc_quote c)) (dsub 1 slippage)))"

definition is_global_anchor :: "RiskBudgetAnchorView \<Rightarrow> bool" where
  "is_global_anchor a \<longleftrightarrow> av_scope_type a = ''GLOBAL'' \<and> av_scope_key a = ''GLOBAL''"

definition is_account_anchor :: "uuid \<Rightarrow> RiskBudgetAnchorView \<Rightarrow> bool" where
  "is_account_anchor account a \<longleftrightarrow> av_scope_type a = ''ACCOUNT'' \<and> av_scope_key a = uuid_str account"

definition matching_anchors :: "RiskContext \<Rightarrow> (RiskBudgetAnchorView \<times> RiskBudgetAnchorView) option" where
  "matching_anchors c =
     (case (filter is_global_anchor (rc_budget_anchors c),
            filter (is_account_anchor (las_account_id (rc_account_snapshot c))) (rc_budget_anchors c)) of
        ([g], [a]) \<Rightarrow>
          if list_ex (\<lambda>x. Some (av_currency x) \<noteq> rs_currency (rc_risk_snapshot c)) [g, a]
          then None else Some (g, a)
      | _ \<Rightarrow> None)"

definition context_rejection :: "OrderIntent \<Rightarrow> RiskContext \<Rightarrow> string option" where
  "context_rejection i c =
     (let policy = rc_active_policy c; snapshot = rc_risk_snapshot c; account = rc_account_snapshot c;
          quote = rc_quote c; decision_at = rc_decision_at c
      in first_reason
        [(oi_account_id i \<noteq> las_account_id account \<or> rs_account_id snapshot \<noteq> oi_account_id i,
            ''ACCOUNT_SNAPSHOT_MISMATCH''),
         (\<not> rp_active policy, ''INACTIVE_POLICY''),
         (min (rc_blocking_incident_count c)
              (min (rc_blocking_reconciliation_count c) (rc_unresolved_unknown_count c)) < 0,
            ''INVALID_BLOCKER_COUNT''),
         (\<not> tc_trading_enabled (rc_trading_control c), ''TRADING_CONTROL_BLOCKED''),
         (rc_blocking_incident_count c > 0, ''BLOCKING_INCIDENT''),
         (rc_blocking_reconciliation_count c > 0, ''BLOCKING_RECONCILIATION''),
         (rc_unresolved_unknown_count c > 0, ''UNRESOLVED_UNKNOWN''),
         (decision_at - las_captured_at account > rp_max_account_snapshot_age policy,
            ''STALE_ACCOUNT_SNAPSHOT''),
         (decision_at - rs_as_of snapshot > rp_max_risk_snapshot_age policy, ''STALE_RISK_SNAPSHOT''),
         (decision_at - rq_as_of quote > rp_max_market_data_age policy, ''STALE_QUOTE''),
         (rq_instrument_id quote \<noteq> oi_instrument_id i, ''QUOTE_INSTRUMENT_MISMATCH''),
         (rq_bid quote \<le> 0 \<or> rq_ask quote \<le> 0, ''INVALID_QUOTE''),
         (rp_max_slippage_bps policy < 0 \<or> rp_max_slippage_bps policy \<ge> 10000,
            ''INVALID_SLIPPAGE_POLICY''),
         (rs_position_hash snapshot \<noteq> rc_position_hash c
          \<or> rs_open_order_hash snapshot \<noteq> rc_open_order_hash c, ''RISK_SNAPSHOT_HASH_MISMATCH''),
         (Some (las_currency account) \<noteq> rs_currency snapshot
          \<or> Some (rq_currency quote) \<noteq> rs_currency snapshot, ''CURRENCY_MISMATCH''),
         (matching_anchors c = None, ''BUDGET_ANCHOR_MISMATCH''),
         (dneg (dadd (rs_daily_realized_pnl snapshot) (rs_daily_unrealized_pnl snapshot))
            > rp_max_daily_loss policy, ''DAILY_LOSS_LIMIT''),
         (rs_drawdown snapshot > rp_max_drawdown policy, ''DRAWDOWN_LIMIT'')])"

definition matching_anchors_from :: "RiskBudgetAnchorView list \<Rightarrow> RiskBudgetAnchorView list option" where
  "matching_anchors_from anchors = (if length anchors \<noteq> 2 then None else Some anchors)"

definition exceeds_anchor_limit :: "RiskBudgetAnchorView list \<Rightarrow> decimal \<Rightarrow> decimal \<Rightarrow> bool" where
  "exceeds_anchor_limit anchors proposed policy_limit =
     (case matching_anchors_from anchors of
        None \<Rightarrow> True
      | Some matching \<Rightarrow>
          list_ex (\<lambda>a. dadd (dadd (av_position_risk_amount a) (av_remaining_reservation_amount a)) proposed
                       > min (av_hard_limit_amount a) policy_limit) matching)"

text \<open>\<^verbatim>\<open>_decision\<close>; \<open>fresh_id\<close> is the identifier drawn for the decision.\<close>

definition risk_decision ::
  "(DecisionPayload \<Rightarrow> bytes) \<Rightarrow> (IntentPayload \<Rightarrow> bytes) \<Rightarrow> uuid \<Rightarrow> OrderIntent \<Rightarrow> RiskContext
    \<Rightarrow> RiskOutcome \<Rightarrow> string option \<Rightarrow> decimal \<Rightarrow> RiskDecision result" where
  "risk_decision decision_sha intent_sha fresh_id i c outcome reason reserved =
     (let decision_currency = (case rs_currency (rc_risk_snapshot c) of
            Some x \<Rightarrow> x | None \<Rightarrow> las_currency (rc_account_snapshot c));
          approved_quantity = (if outcome \<in> {APPROVE, REDUCE} then oi_quantity i else 0);
          reasons = list_of_option reason
      in and_then (if approved_quantity > 0 then and_then (risk_price i c) (\<lambda>p. Inr (Some p)) else Inr None)
         (\<lambda>approved_price. Inr
           \<lparr>rd_id = fresh_id, rd_order_intent_id = oi_id i,
            rd_risk_snapshot_id = rs_id (rc_risk_snapshot c), rd_outcome = outcome,
            rd_requested_quantity = oi_quantity i, rd_reason_codes = reasons,
            rd_approved_quantity = approved_quantity, rd_approved_limit_price = approved_price,
            rd_reserved_risk_amount = reserved, rd_currency = decision_currency,
            rd_policy_version_id = rp_policy_version_id (rc_active_policy c),
            rd_decided_at = rc_decision_at c,
            rd_decision_hash = decision_sha
              \<lparr>dpl_intent_id = oi_id i, dpl_canonical_intent_hash = intent_sha (intent_payload i),
               dpl_policy_version_id = rp_policy_version_id (rc_active_policy c),
               dpl_risk_snapshot_id = rs_id (rc_risk_snapshot c),
               dpl_position_hash = rc_position_hash c, dpl_open_order_hash = rc_open_order_hash c,
               dpl_anchor_versions =
                 (case matching_anchors c of None \<Rightarrow> []
                  | Some (g, a) \<Rightarrow> [av_row_version g, av_row_version a]),
               dpl_quote = rc_quote c, dpl_outcome = outcome,
               dpl_requested_quantity = oi_quantity i, dpl_approved_quantity = approved_quantity,
               dpl_approved_price = approved_price, dpl_reserved = reserved,
               dpl_currency = decision_currency, dpl_reasons = reasons,
               dpl_decided_at = rc_decision_at c\<rparr>\<rparr>))"

definition held_position :: "OrderIntent \<Rightarrow> RiskContext \<Rightarrow> LockedPosition option" where
  "held_position i c = next_where (\<lambda>p. lp_instrument_id p = oi_instrument_id i) (rc_positions c)"

definition risk_evaluate ::
  "(DecisionPayload \<Rightarrow> bytes) \<Rightarrow> (IntentPayload \<Rightarrow> bytes) \<Rightarrow> uuid \<Rightarrow> OrderIntent \<Rightarrow> RiskContext
    \<Rightarrow> RiskDecision result" where
  "risk_evaluate decision_sha intent_sha fresh_id i c =
     (let decide = risk_decision decision_sha intent_sha fresh_id i c;
          reject = (\<lambda>reason. decide REJECT (Some reason) 0)
      in case context_rejection i c of
           Some reason \<Rightarrow> reject reason
         | None \<Rightarrow> and_then (risk_price i c) (\<lambda>price.
             let position = held_position i c in
             if oi_side i = SELL then
               if (case position of None \<Rightarrow> True | Some p \<Rightarrow> lp_available_quantity p < oi_quantity i)
               then reject ''INSUFFICIENT_SELLABLE_QUANTITY''
               else decide REDUCE None 0
             else if (case position of None \<Rightarrow> False
                      | Some p \<Rightarrow> lp_quantity p > 0 \<and> price < lp_average_cost p)
             then reject ''AVERAGING_DOWN_BLOCKED''
             else let reserved = dmul (oi_quantity i) price in
               if reserved > las_cash (rc_account_snapshot c)
                  \<or> reserved > las_buying_power (rc_account_snapshot c)
               then reject ''INSUFFICIENT_CASH''
               else let current_value = (case position of None \<Rightarrow> 0 | Some p \<Rightarrow> dmul (lp_quantity p) price) in
               if dadd current_value reserved > rp_max_position_value (rc_active_policy c)
               then reject ''CONCENTRATION_LIMIT''
               else if exceeds_anchor_limit (rc_budget_anchors c) reserved
                         (rp_max_total_risk (rc_active_policy c))
               then reject ''TOTAL_OPEN_RISK_LIMIT''
               else decide APPROVE None reserved))"

section \<open>Facts about a decision\<close>

lemma first_reason_None_iff: "first_reason rs = None \<longleftrightarrow> (\<forall>r \<in> set rs. \<not> fst r)"
  by (induction rs rule: first_reason.induct) auto

text \<open>What the context must be for an intent to be decided on its own terms.\<close>

definition context_ok :: "OrderIntent \<Rightarrow> RiskContext \<Rightarrow> bool" where
  "context_ok i c \<longleftrightarrow>
     oi_account_id i = las_account_id (rc_account_snapshot c)
     \<and> oi_account_id i = rs_account_id (rc_risk_snapshot c)
     \<and> rp_active (rc_active_policy c) \<and> tc_trading_enabled (rc_trading_control c)
     \<and> rc_blocking_incident_count c = 0 \<and> rc_blocking_reconciliation_count c = 0
     \<and> rc_unresolved_unknown_count c = 0
     \<and> rc_decision_at c \<le> las_captured_at (rc_account_snapshot c)
         + rp_max_account_snapshot_age (rc_active_policy c)
     \<and> rc_decision_at c \<le> rs_as_of (rc_risk_snapshot c) + rp_max_risk_snapshot_age (rc_active_policy c)
     \<and> rc_decision_at c \<le> rq_as_of (rc_quote c) + rp_max_market_data_age (rc_active_policy c)
     \<and> rq_instrument_id (rc_quote c) = oi_instrument_id i
     \<and> 0 < rq_bid (rc_quote c) \<and> 0 < rq_ask (rc_quote c)
     \<and> 0 \<le> rp_max_slippage_bps (rc_active_policy c) \<and> rp_max_slippage_bps (rc_active_policy c) < 10000
     \<and> rs_position_hash (rc_risk_snapshot c) = rc_position_hash c
     \<and> rs_open_order_hash (rc_risk_snapshot c) = rc_open_order_hash c
     \<and> rs_currency (rc_risk_snapshot c) = Some (las_currency (rc_account_snapshot c))
     \<and> rs_currency (rc_risk_snapshot c) = Some (rq_currency (rc_quote c))
     \<and> matching_anchors c \<noteq> None
     \<and> - rnd (rs_daily_realized_pnl (rc_risk_snapshot c) + rs_daily_unrealized_pnl (rc_risk_snapshot c))
         \<le> rp_max_daily_loss (rc_active_policy c)
     \<and> rs_drawdown (rc_risk_snapshot c) \<le> rp_max_drawdown (rc_active_policy c)"

lemma context_rejection_None_iff: "context_rejection i c = None \<longleftrightarrow> context_ok i c"
  unfolding context_rejection_def Let_def first_reason_None_iff context_ok_def
  by (simp add: dec_ops) (auto simp: not_less not_le)

lemma risk_decision_Inr:
  assumes "risk_decision dsha isha u i c outcome reason reserved = Inr d"
  shows "rd_outcome d = outcome" and "rd_reserved_risk_amount d = reserved"
    and "rd_reason_codes d = list_of_option reason" and "rd_order_intent_id d = oi_id i"
    and "rd_requested_quantity d = oi_quantity i"
    and "rd_approved_quantity d = (if outcome \<in> {APPROVE, REDUCE} then oi_quantity i else 0)"
    and "0 < rd_approved_quantity d \<Longrightarrow> \<exists>p. risk_price i c = Inr p \<and> rd_approved_limit_price d = Some p"
    and "rd_approved_quantity d \<le> 0 \<Longrightarrow> rd_approved_limit_price d = None"
  using assms
  by (auto simp: risk_decision_def Let_def and_then_eq_Inr_iff split: if_splits)

lemma risk_decision_rejects: "\<exists>d. risk_decision dsha isha u i c REJECT reason reserved = Inr d"
  by (simp add: risk_decision_def Let_def)

lemma risk_decision_total:
  assumes "risk_price i c = Inr p"
  shows "\<exists>d. risk_decision dsha isha u i c outcome reason reserved = Inr d"
  using assms by (simp add: risk_decision_def Let_def)

lemma risk_price_total: "wf_intent i \<Longrightarrow> \<exists>p. risk_price i c = Inr p"
  by (cases "oi_order_style i") (auto simp: wf_intent_def risk_price_def Let_def)

text \<open>The anchors of an accepted context: the two in the list are the global one and the account's.\<close>

lemma matching_anchors_set:
  assumes "matching_anchors c = Some (g, a)" and "length (rc_budget_anchors c) = 2"
  shows "set (rc_budget_anchors c) = {g, a}"
proof -
  let ?acc = "is_account_anchor (las_account_id (rc_account_snapshot c))"
  from assms(1) have g: "filter is_global_anchor (rc_budget_anchors c) = [g]"
    and a: "filter ?acc (rc_budget_anchors c) = [a]"
    by (auto simp: matching_anchors_def split: list.splits if_splits)
  obtain x y where xy: "rc_budget_anchors c = [x, y]"
    using assms(2) by (auto simp: length_Suc_conv numeral_2_eq_2)
  have "\<not> (is_global_anchor z \<and> ?acc z)" for z by (auto simp: is_global_anchor_def is_account_anchor_def)
  with g a show ?thesis by (auto simp: xy split: if_splits)
qed

text \<open>The budget of a buy: cash, buying power, position value and both anchors, at the decided
  price.\<close>

definition anchor_admits :: "RiskContext \<Rightarrow> decimal \<Rightarrow> RiskBudgetAnchorView \<Rightarrow> bool" where
  "anchor_admits c reserved a \<longleftrightarrow>
     rnd (rnd (av_position_risk_amount a + av_remaining_reservation_amount a) + reserved)
     \<le> min (av_hard_limit_amount a) (rp_max_total_risk (rc_active_policy c))"

definition buy_admissible :: "OrderIntent \<Rightarrow> RiskContext \<Rightarrow> decimal \<Rightarrow> bool" where
  "buy_admissible i c price \<longleftrightarrow>
     (let reserved = rnd (oi_quantity i * price) in
      (\<forall>p. held_position i c = Some p \<longrightarrow> 0 < lp_quantity p \<longrightarrow> lp_average_cost p \<le> price)
      \<and> reserved \<le> las_cash (rc_account_snapshot c)
      \<and> reserved \<le> las_buying_power (rc_account_snapshot c)
      \<and> rnd ((case held_position i c of None \<Rightarrow> 0 | Some p \<Rightarrow> rnd (lp_quantity p * price)) + reserved)
          \<le> rp_max_position_value (rc_active_policy c)
      \<and> length (rc_budget_anchors c) = 2
      \<and> (\<forall>g a. matching_anchors c = Some (g, a) \<longrightarrow> anchor_admits c reserved g \<and> anchor_admits c reserved a))"

definition sell_admissible :: "OrderIntent \<Rightarrow> RiskContext \<Rightarrow> bool" where
  "sell_admissible i c \<longleftrightarrow>
     (\<exists>p. held_position i c = Some p \<and> oi_quantity i \<le> lp_available_quantity p)"

lemma exceeds_anchor_limit_iff:
  assumes "matching_anchors c = Some (g, a)"
  shows "exceeds_anchor_limit (rc_budget_anchors c) reserved (rp_max_total_risk (rc_active_policy c))
    \<longleftrightarrow> \<not> (length (rc_budget_anchors c) = 2 \<and> anchor_admits c reserved g \<and> anchor_admits c reserved a)"
  using matching_anchors_set [OF assms]
  by (auto simp: exceeds_anchor_limit_def matching_anchors_from_def anchor_admits_def dec_ops list_ex_iff
      not_less simp del: min_less_iff_disj min.bounded_iff)

lemma risk_evaluate_buy:
  assumes "context_ok i c" "oi_side i = BUY" "risk_price i c = Inr price"
    and "buy_admissible i c price"
  shows "risk_evaluate dsha isha u i c = risk_decision dsha isha u i c APPROVE None (rnd (oi_quantity i * price))"
proof -
  obtain g a where ga: "matching_anchors c = Some (g, a)" using assms(1) by (auto simp: context_ok_def)
  have "\<not> exceeds_anchor_limit (rc_budget_anchors c) (rnd (oi_quantity i * price))
      (rp_max_total_risk (rc_active_policy c))"
    using assms(4) ga by (simp add: exceeds_anchor_limit_iff [OF ga] buy_admissible_def Let_def)
  moreover have "context_rejection i c = None" using assms(1) by (simp add: context_rejection_None_iff)
  ultimately show ?thesis
    using assms
    by (auto simp: risk_evaluate_def Let_def dec_ops buy_admissible_def not_less split: option.splits)
qed

lemma risk_evaluate_buy_refused:
  assumes "context_ok i c" "oi_side i = BUY" "risk_price i c = Inr price"
    and "\<not> buy_admissible i c price"
  shows "\<exists>reason. risk_evaluate dsha isha u i c = risk_decision dsha isha u i c REJECT (Some reason) 0"
proof -
  obtain g a where ga: "matching_anchors c = Some (g, a)" using assms(1) by (auto simp: context_ok_def)
  have "context_rejection i c = None" using assms(1) by (simp add: context_rejection_None_iff)
  with assms ga exceeds_anchor_limit_iff [OF ga] show ?thesis
    by (auto simp: risk_evaluate_def Let_def dec_ops buy_admissible_def not_less split: option.splits)
qed

lemma risk_evaluate_sell:
  assumes "context_ok i c" "oi_side i = SELL" "risk_price i c = Inr price"
  shows "risk_evaluate dsha isha u i c =
     (if sell_admissible i c then risk_decision dsha isha u i c REDUCE None 0
      else risk_decision dsha isha u i c REJECT (Some ''INSUFFICIENT_SELLABLE_QUANTITY'') 0)"
proof -
  have "context_rejection i c = None" using assms(1) by (simp add: context_rejection_None_iff)
  with assms show ?thesis
    by (auto simp: risk_evaluate_def Let_def sell_admissible_def not_less split: option.splits)
qed

lemma risk_evaluate_blocked:
  assumes "\<not> context_ok i c"
  shows "\<exists>reason. risk_evaluate dsha isha u i c = risk_decision dsha isha u i c REJECT (Some reason) 0"
  using assms context_rejection_None_iff [of i c]
  by (cases "context_rejection i c") (auto simp: risk_evaluate_def Let_def)

text \<open>The decision an evaluation takes, as a specification.\<close>

definition decided_as :: "OrderIntent \<Rightarrow> RiskContext \<Rightarrow> decimal \<Rightarrow> RiskOutcome" where
  "decided_as i c price =
     (if \<not> context_ok i c then REJECT
      else if oi_side i = SELL then (if sell_admissible i c then REDUCE else REJECT)
      else if buy_admissible i c price then APPROVE else REJECT)"

lemma risk_evaluate_decided:
  assumes "risk_price i c = Inr price"
  shows "\<exists>reason. risk_evaluate dsha isha u i c =
      risk_decision dsha isha u i c (decided_as i c price) reason
        (if decided_as i c price = APPROVE then rnd (oi_quantity i * price) else 0)
    \<and> (reason = None \<longleftrightarrow> decided_as i c price \<noteq> REJECT)"
proof -
  consider "\<not> context_ok i c" | "context_ok i c" "oi_side i = SELL"
    | "context_ok i c" "oi_side i = BUY" "buy_admissible i c price"
    | "context_ok i c" "oi_side i = BUY" "\<not> buy_admissible i c price"
    using Side.exhaust by metis
  then show ?thesis
  proof cases
    case 1
    with risk_evaluate_blocked [OF 1, of dsha isha u] show ?thesis by (auto simp: decided_as_def)
  next
    case 2
    with risk_evaluate_sell [OF 2 assms, of dsha isha u] show ?thesis by (auto simp: decided_as_def)
  next
    case 3
    with risk_evaluate_buy [OF 3(1,2) assms 3(3), of dsha isha u] show ?thesis
      by (auto simp: decided_as_def)
  next
    case 4
    with risk_evaluate_buy_refused [OF 4(1,2) assms 4(3), of dsha isha u] show ?thesis
      by (auto simp: decided_as_def)
  qed
qed

section \<open>Properties\<close>

text \<open>C32: the risk engine decides every well-formed intent, and decides it as specified: it approves
  exactly the buys whose context is current and unblocked and whose worst-case value fits cash, buying
  power, the position limit and both risk budget anchors without averaging down, reducing exactly the
  sells covered by available quantity, and rejecting everything else. An approval carries the decided
  price and reserves quantity times price; every other decision reserves nothing, and exactly the
  rejections carry a reason and no quantity.\<close>

theorem risk_engine_decides_as_specified:
  assumes "wf_intent i"
  shows "\<exists>d price reason. risk_evaluate dsha isha u i c = Inr d \<and> risk_price i c = Inr price
    \<and> rd_outcome d = decided_as i c price
    \<and> rd_reserved_risk_amount d = (if rd_outcome d = APPROVE then rnd (oi_quantity i * price) else 0)
    \<and> rd_approved_quantity d = (if rd_outcome d = REJECT then 0 else oi_quantity i)
    \<and> rd_approved_limit_price d = (if rd_outcome d = REJECT then None else Some price)
    \<and> rd_reason_codes d = (if rd_outcome d = REJECT then [reason] else [])"
proof -
  obtain price where p: "risk_price i c = Inr price" using risk_price_total [OF assms] by blast
  obtain reason where e: "risk_evaluate dsha isha u i c =
      risk_decision dsha isha u i c (decided_as i c price) reason
        (if decided_as i c price = APPROVE then rnd (oi_quantity i * price) else 0)"
    and r: "reason = None \<longleftrightarrow> decided_as i c price \<noteq> REJECT"
    using risk_evaluate_decided [OF p, of dsha isha u] by blast
  obtain d where d: "risk_evaluate dsha isha u i c = Inr d"
    using risk_decision_total [OF p] e by metis
  have q: "0 < oi_quantity i" using assms by (simp add: wf_intent_def)
  have outcomes: "decided_as i c price = REJECT \<or> decided_as i c price \<in> {APPROVE, REDUCE}"
    by (simp add: decided_as_def)
  show ?thesis
    using risk_decision_Inr [OF d [unfolded e]] d p r q outcomes
    by (intro exI [of _ d] exI [of _ price] exI [of _ "the reason"])
       (auto simp: list_of_option_def split: option.splits)
qed

section \<open>Witnesses\<close>

definition sample_anchor :: "string \<Rightarrow> string \<Rightarrow> RiskBudgetAnchorView" where
  "sample_anchor ty key =
     \<lparr>av_scope_type = ty, av_scope_key = key, av_currency = ''USD'', av_position_risk_amount = 0,
      av_remaining_reservation_amount = 0, av_hard_limit_amount = 1000, av_row_version = 0\<rparr>"

definition sample_context :: RiskContext where
  "sample_context =
     \<lparr>rc_decision_at = 100,
      rc_account_snapshot = \<lparr>las_account_id = 4, las_environment = ''PAPER'', las_equity = 1000,
         las_cash = 1000, las_buying_power = 1000, las_currency = ''USD'', las_captured_at = 99,
         las_row_version = 0\<rparr>,
      rc_risk_snapshot = \<lparr>rs_id = 8, rs_account_id = 4, rs_as_of = 99, rs_currency = Some ''USD'',
         rs_equity = 1000, rs_cash = 1000, rs_gross_exposure = 0, rs_net_exposure = 0, rs_open_risk = 0,
         rs_daily_realized_pnl = 0, rs_daily_unrealized_pnl = 0, rs_drawdown = 0,
         rs_position_hash = [], rs_open_order_hash = [], rs_settlement_asset = None\<rparr>,
      rc_positions = [], rc_open_orders = [], rc_active_reservations = [],
      rc_budget_anchors = [sample_anchor ''GLOBAL'' ''GLOBAL'', sample_anchor ''ACCOUNT'' (uuid_str 4)],
      rc_quote = \<lparr>rq_instrument_id = 5, rq_bid = 99, rq_ask = 100, rq_currency = ''USD'', rq_as_of = 99\<rparr>,
      rc_active_policy = \<lparr>rp_policy_version_id = 9, rp_active = True, rp_max_total_risk = 500,
         rp_max_position_value = 600, rp_max_daily_loss = 50, rp_max_drawdown = 50,
         rp_max_slippage_bps = 10, rp_max_account_snapshot_age = 5, rp_max_risk_snapshot_age = 5,
         rp_max_market_data_age = 5\<rparr>,
      rc_trading_control = \<lparr>tc_trading_enabled = True\<rparr>,
      rc_blocking_incident_count = 0, rc_unresolved_unknown_count = 0,
      rc_blocking_reconciliation_count = 0, rc_position_hash = [], rc_open_order_hash = []\<rparr>"

definition sample_buy :: OrderIntent where
  "sample_buy =
     \<lparr>oi_origin = STRATEGY, oi_source_id = 6, oi_account_id = 4, oi_instrument_id = 5,
      oi_intent_type = ENTRY, oi_side = BUY, oi_order_style = MARKET, oi_quantity = 3,
      oi_limit_price = None, oi_idempotency_key = ''k'', oi_id = 7, oi_trigger_price = None\<rparr>"

theorem risk_engine_decides_as_specified_witness:
  "wf_intent sample_buy
   \<and> (\<exists>d. risk_evaluate (\<lambda>_. []) (\<lambda>_. []) 1 sample_buy sample_context = Inr d \<and> rd_outcome d = APPROVE
        \<and> rd_reserved_risk_amount d = 3003 / 10)"
proof -
  have wf: "wf_intent sample_buy" by (simp add: wf_intent_def sample_buy_def)
  have price: "risk_price sample_buy sample_context = Inr (1001 / 10)" by code_simp
  obtain d p where d: "risk_evaluate (\<lambda>_. []) (\<lambda>_. []) 1 sample_buy sample_context = Inr d"
    and p: "risk_price sample_buy sample_context = Inr p"
    and res: "rd_reserved_risk_amount d = (if rd_outcome d = APPROVE then rnd (oi_quantity sample_buy * p) else 0)"
    using risk_engine_decides_as_specified [OF wf, of "\<lambda>_. []" "\<lambda>_. []" 1 sample_context] by blast
  have "(case risk_evaluate (\<lambda>_. []) (\<lambda>_. []) 1 sample_buy sample_context of
      Inr d \<Rightarrow> rd_outcome d = APPROVE | Inl _ \<Rightarrow> False)" by code_simp
  then have a: "rd_outcome d = APPROVE" by (simp add: d)
  have "p = 1001 / 10" using p price by simp
  moreover have "rnd (oi_quantity sample_buy * (1001 / 10)) = 3003 / 10" by code_simp
  ultimately have "rd_reserved_risk_amount d = 3003 / 10" using res a by (simp only: if_True simp_thms)
  with d a wf show ?thesis by blast
qed

end
