(* ===== verification/RiskStore.thy ===== *)
theory RiskStore
  imports RiskEngine
begin

text \<open>
  \<^verbatim>\<open>risk/service.py\<close> over \<^verbatim>\<open>persistence/mysql/repositories/risk.py\<close>: the transaction that
  stores a decision with its reservation and charges the two risk budget anchors. The tables are
  lists of rows with the unique keys and the check constraints of
  \<^verbatim>\<open>persistence/mysql/models/intents.py\<close> and \<^verbatim>\<open>models/risk.py\<close>; an exception rolls the
  transaction back, so a raising operation returns no tables. Shown here: the hard limits are never
  exceeded by an approval, the reserved amount of an anchor is exactly the sum of the remaining
  amounts of the reservations in its scope, and storing an approval again changes nothing.
\<close>

section \<open>Tables\<close>

record ReservationRow = RiskReservation +
  rw_currency :: "string option"
  rw_settlement_asset :: "string option"

record RiskTables =
  rt_anchors :: "RiskBudgetAnchorView list"
  rt_decisions :: "RiskDecision list"
  rt_reservations :: "ReservationRow list"

definition anchor_key :: "RiskBudgetAnchorView \<Rightarrow> string \<times> string \<times> string" where
  "anchor_key a = (av_scope_type a, av_scope_key a, av_currency a)"

text \<open>Writing a changed row back under its key.\<close>

definition put_anchor :: "RiskBudgetAnchorView \<Rightarrow> RiskBudgetAnchorView list \<Rightarrow> RiskBudgetAnchorView list" where
  "put_anchor a anchors = map (\<lambda>x. if anchor_key x = anchor_key a then a else x) anchors"

section \<open>Repositories\<close>

definition lock_global_and_account ::
  "RiskBudgetAnchorView list \<Rightarrow> uuid \<Rightarrow> string \<Rightarrow> (RiskBudgetAnchorView \<times> RiskBudgetAnchorView) option" where
  "lock_global_and_account anchors account_id currency =
     (case (next_where (\<lambda>a. anchor_key a = (''GLOBAL'', ''GLOBAL'', currency)) anchors,
            next_where (\<lambda>a. anchor_key a = (''ACCOUNT'', uuid_str account_id, currency)) anchors) of
        (Some g, Some a) \<Rightarrow> Some (g, a)
      | _ \<Rightarrow> None)"

definition decision_row_ok :: "RiskDecision \<Rightarrow> bool" where
  "decision_row_ok d \<longleftrightarrow>
     (rd_outcome d = OBSERVED_BLOCKING \<longrightarrow> rd_approved_quantity d = 0 \<and> rd_reserved_risk_amount d > 0)
     \<and> rd_requested_quantity d > 0 \<and> rd_approved_quantity d \<ge> 0
     \<and> rd_approved_quantity d \<le> rd_requested_quantity d \<and> rd_reserved_risk_amount d \<ge> 0"

definition persist_decision :: "'a RiskTables_scheme \<Rightarrow> RiskDecision \<Rightarrow> ('a RiskTables_scheme \<times> RiskDecision) result" where
  "persist_decision db d =
     (let duplicate = list_ex (\<lambda>x. rd_id x = rd_id d \<or> rd_order_intent_id x = rd_order_intent_id d)
                        (rt_decisions db);
          db' = (if \<not> duplicate \<and> decision_row_ok d
                 then db\<lparr>rt_decisions := rt_decisions db @ [d]\<rparr> else db)
      in case next_where (\<lambda>x. rd_order_intent_id x = rd_order_intent_id d) (rt_decisions db') of
           None \<Rightarrow> Inl (RuntimeError ''inserted risk decision cannot be read'')
         | Some existing \<Rightarrow>
             if rd_decision_hash existing \<noteq> rd_decision_hash d
             then Inl (ValueError ''risk decision identity payload collision'')
             else Inr (db', existing))"

definition active_marker :: "ReservationRow \<Rightarrow> bool" where
  "active_marker r \<longleftrightarrow> rr_status r \<in> {ACTIVE, PARTIALLY_CONSUMED}"

definition reservation_row_ok :: "ReservationRow \<Rightarrow> bool" where
  "reservation_row_ok r \<longleftrightarrow>
     rr_initial_risk_amount r \<ge> 0 \<and> rr_consumed_risk_amount r \<ge> 0 \<and> rr_remaining_risk_amount r \<ge> 0
     \<and> rr_released_risk_amount r \<ge> 0
     \<and> rr_consumed_risk_amount r + rr_remaining_risk_amount r + rr_released_risk_amount r
       = rr_initial_risk_amount r
     \<and> (rw_currency r = None) \<noteq> (rw_settlement_asset r = None)"

definition reservation_duplicate :: "ReservationRow list \<Rightarrow> ReservationRow \<Rightarrow> bool" where
  "reservation_duplicate rows r =
     list_ex (\<lambda>x. rr_id x = rr_id r \<or> rr_risk_decision_id x = rr_risk_decision_id r
                  \<or> (active_marker x \<and> active_marker r \<and> rr_order_intent_id x = rr_order_intent_id r)) rows"

text \<open>\<^verbatim>\<open>reservation.currency or denomination\<close>\<close>

definition or_else :: "string option \<Rightarrow> string \<Rightarrow> string" where
  "or_else x y = (case x of None \<Rightarrow> y | Some c \<Rightarrow> if c = [] then y else c)"

definition persist_reservation ::
  "'a RiskTables_scheme \<Rightarrow> ReservationRow \<Rightarrow> ('a RiskTables_scheme \<times> ReservationRow \<times> bool) result" where
  "persist_reservation db r =
     (case next_where (\<lambda>d. rd_id d = rr_risk_decision_id r) (rt_decisions db) of
        None \<Rightarrow> Inl (ValueError ''risk reservation requires denomination authority'')
      | Some d \<Rightarrow>
          (let currency = Some (or_else (rw_currency r) (rd_currency d));
               row = r\<lparr>rw_currency := currency\<rparr>;
               inserted = \<not> reservation_duplicate (rt_reservations db) row \<and> reservation_row_ok row;
               db' = (if inserted then db\<lparr>rt_reservations := rt_reservations db @ [row]\<rparr> else db)
           in case next_where (\<lambda>x. rr_risk_decision_id x = rr_risk_decision_id r) (rt_reservations db') of
                None \<Rightarrow> Inl (RuntimeError ''inserted risk reservation cannot be read'')
              | Some existing \<Rightarrow>
                  if rr_order_intent_id existing \<noteq> rr_order_intent_id r
                     \<or> rr_initial_risk_amount existing \<noteq> rr_initial_risk_amount r
                     \<or> rw_currency existing \<noteq> currency
                     \<or> rw_settlement_asset existing \<noteq> rw_settlement_asset r
                  then Inl (ValueError ''risk reservation identity payload collision'')
                  else Inr (db', existing, inserted)))"

section \<open>The reservation service\<close>

text \<open>The body of the loop over the two anchors.\<close>

definition charge_anchor :: "decimal \<Rightarrow> RiskBudgetAnchorView \<Rightarrow> RiskBudgetAnchorView result" where
  "charge_anchor amount a =
     (if dadd (dadd (av_position_risk_amount a) (av_remaining_reservation_amount a)) amount
         > av_hard_limit_amount a
      then Inl (ValueError ''risk budget anchor limit exceeded'')
      else Inr (a\<lparr>av_remaining_reservation_amount := dadd (av_remaining_reservation_amount a) amount,
                  av_row_version := av_row_version a + 1\<rparr>))"

definition persist_approval_checks :: "RiskDecision \<Rightarrow> ReservationRow \<Rightarrow> uuid \<Rightarrow> string \<Rightarrow> checks" where
  "persist_approval_checks decision reservation account_id currency =
     [(rr_risk_decision_id reservation \<noteq> rd_id decision,
         ValueError ''reservation must belong to the risk decision''),
      (rr_account_id reservation \<noteq> account_id \<or> rd_currency decision \<noteq> currency,
         ValueError ''reservation account and decision currency must match''),
      (rd_outcome decision = APPROVE
       \<and> rr_remaining_risk_amount reservation \<noteq> rd_reserved_risk_amount decision,
         ValueError ''reservation amount must equal the approved risk''),
      (rd_outcome decision = REDUCE
       \<and> (rd_reserved_risk_amount decision \<noteq> 0 \<or> rr_initial_risk_amount reservation \<noteq> 0
          \<or> rr_remaining_risk_amount reservation \<noteq> 0 \<or> rr_status reservation \<noteq> CONSUMED),
         ValueError ''reduction requires a zero-risk consumed reservation''),
      (rd_outcome decision \<notin> {APPROVE, REDUCE},
         ValueError ''only approved or reduce decisions create a reservation'')]"

definition persist_approval ::
  "'a RiskTables_scheme \<Rightarrow> RiskDecision \<Rightarrow> ReservationRow \<Rightarrow> uuid \<Rightarrow> string \<Rightarrow> 'a RiskTables_scheme result" where
  "persist_approval db decision reservation account_id currency =
     (case lock_global_and_account (rt_anchors db) account_id currency of
        None \<Rightarrow> Inl (ValueError ''locked GLOBAL and ACCOUNT budget anchors are required'')
      | Some (global_anchor, account_anchor) \<Rightarrow>
          and_then (validated (persist_approval_checks decision reservation account_id currency) ()) (\<lambda>_.
          and_then (persist_decision db decision) (\<lambda>(db1, stored_decision).
          and_then (persist_reservation db1 (reservation\<lparr>rr_risk_decision_id := rd_id stored_decision\<rparr>))
            (\<lambda>(db2, _, created).
               if \<not> created \<or> rd_outcome decision \<noteq> APPROVE then Inr db2
               else
                 and_then (charge_anchor (rr_remaining_risk_amount reservation) global_anchor) (\<lambda>g.
                 and_then (charge_anchor (rr_remaining_risk_amount reservation) account_anchor) (\<lambda>a.
                   Inr (db2\<lparr>rt_anchors := put_anchor a (put_anchor g (rt_anchors db2))\<rparr>)))))))"

section \<open>Invariants\<close>

text \<open>The reservations in the scope of an anchor, and their sum.\<close>

definition in_scope :: "RiskBudgetAnchorView \<Rightarrow> ReservationRow \<Rightarrow> bool" where
  "in_scope a r \<longleftrightarrow>
     rw_currency r = Some (av_currency a)
     \<and> (is_global_anchor a \<or> is_account_anchor (rr_account_id r) a)"

definition reserved_total :: "RiskBudgetAnchorView \<Rightarrow> ReservationRow list \<Rightarrow> rat" where
  "reserved_total a rows = sum_list (map rr_remaining_risk_amount (filter (in_scope a) rows))"

definition anchor_grid :: "nat \<Rightarrow> RiskBudgetAnchorView \<Rightarrow> bool" where
  "anchor_grid k a \<longleftrightarrow>
     dec_grid k (av_position_risk_amount a) \<and> dec_grid k (av_remaining_reservation_amount a)
     \<and> dec_grid k (av_hard_limit_amount a) \<and> 0 \<le> av_position_risk_amount a
     \<and> 0 \<le> av_remaining_reservation_amount a \<and> 0 \<le> av_hard_limit_amount a"

definition within_limit :: "RiskBudgetAnchorView \<Rightarrow> bool" where
  "within_limit a \<longleftrightarrow>
     av_position_risk_amount a + av_remaining_reservation_amount a \<le> av_hard_limit_amount a"

definition keys_inv :: "'a RiskTables_scheme \<Rightarrow> bool" where
  "keys_inv db \<longleftrightarrow>
     distinct (map anchor_key (rt_anchors db))
     \<and> distinct (map rd_id (rt_decisions db)) \<and> distinct (map rd_order_intent_id (rt_decisions db))
     \<and> distinct (map rr_risk_decision_id (rt_reservations db))"

definition conserved :: "'a RiskTables_scheme \<Rightarrow> bool" where
  "conserved db \<longleftrightarrow>
     (\<forall>a \<in> set (rt_anchors db). av_remaining_reservation_amount a = reserved_total a (rt_reservations db))"

text \<open>A decision stored for the same intent is in the same currency.\<close>

definition one_currency :: "'a RiskTables_scheme \<Rightarrow> RiskDecision \<Rightarrow> bool" where
  "one_currency db d \<longleftrightarrow>
     list_all (\<lambda>z. rd_order_intent_id z = rd_order_intent_id d \<longrightarrow> rd_currency z = rd_currency d) (rt_decisions db)"

section \<open>Lemmas on the tables\<close>

lemma uuid_str_inj: "uuid_str u = uuid_str v \<longleftrightarrow> u = v"
proof -
  define unhyphen where
    "unhyphen = (\<lambda>s :: string. take 8 s @ take 4 (drop 9 s) @ take 4 (drop 14 s) @ take 4 (drop 19 s) @ drop 24 s)"
  have join: "take 8 h @ take 4 (drop 8 h) @ take 4 (drop 12 h) @ take 4 (drop 16 h) @ drop 20 h = h" for h :: string
  proof -
    have step: "take 4 (drop n h) @ drop (n + 4) h = drop n h" for n
      by (metis add.commute append_take_drop_id drop_drop)
    show ?thesis using step [of 16] step [of 12] step [of 8] by simp
  qed
  have "unhyphen (uuid_str w) = uuid_hex w" for w
    unfolding unhyphen_def uuid_str_def Let_def by (simp add: join)
  then show ?thesis by (metis uuid_hex_inj)
qed

lemma lock_Some:
  assumes "lock_global_and_account anchors account currency = Some (g, a)"
  shows "g \<in> set anchors" "a \<in> set anchors"
    and "anchor_key g = (''GLOBAL'', ''GLOBAL'', currency)"
    and "anchor_key a = (''ACCOUNT'', uuid_str account, currency)"
  using assms by (auto simp: lock_global_and_account_def dest!: next_where_Some split: option.splits)

lemma charge_anchor_Inr:
  assumes "charge_anchor amount a = Inr a'"
  shows "anchor_key a' = anchor_key a" and "av_position_risk_amount a' = av_position_risk_amount a"
    and "av_hard_limit_amount a' = av_hard_limit_amount a"
    and "av_remaining_reservation_amount a' = rnd (av_remaining_reservation_amount a + amount)"
    and "rnd (rnd (av_position_risk_amount a + av_remaining_reservation_amount a) + amount) \<le> av_hard_limit_amount a"
  using assms by (auto simp: charge_anchor_def anchor_key_def dec_ops not_less split: if_splits)

lemma charge_anchor_exact:
  assumes c: "charge_anchor amount a = Inr a'" and g: "anchor_grid k a"
    and amt: "dec_grid k amount" "0 \<le> amount"
  shows "av_remaining_reservation_amount a' = av_remaining_reservation_amount a + amount"
    and "anchor_grid k a'" and "within_limit a'"
proof -
  note f = charge_anchor_Inr [OF c]
  let ?p = "av_position_risk_amount a" and ?m = "av_remaining_reservation_amount a"
  have le: "?p + ?m + amount \<le> av_hard_limit_amount a"
    using g amt f(5) by (intro grid_sum_le [of k]) (auto simp: anchor_grid_def)
  then have grid: "dec_grid k (?m + amount)"
    using g amt by (intro dec_grid_add [of k _ _ "av_hard_limit_amount a"]) (auto simp: anchor_grid_def)
  with f(4) show eq: "av_remaining_reservation_amount a' = ?m + amount" by simp
  show "anchor_grid k a'" using g amt grid by (simp add: anchor_grid_def f(2,3) eq)
  show "within_limit a'" using le by (simp add: within_limit_def f(2,3) eq)
qed

text \<open>Both charged anchors written back, on the whole table.\<close>

definition replaced :: "RiskBudgetAnchorView \<Rightarrow> RiskBudgetAnchorView \<Rightarrow> RiskBudgetAnchorView \<Rightarrow> RiskBudgetAnchorView" where
  "replaced g a x = (if anchor_key x = anchor_key a then a else if anchor_key x = anchor_key g then g else x)"

lemma put_both:
  assumes "anchor_key g \<noteq> anchor_key a"
  shows "put_anchor a (put_anchor g xs) = map (replaced g a) xs"
  using assms by (simp add: put_anchor_def replaced_def)

lemma key_replaced [simp]: "anchor_key (replaced g a x) = anchor_key x"
  by (simp add: replaced_def)

lemma in_scope_key: "anchor_key a = anchor_key b \<Longrightarrow> in_scope a r \<longleftrightarrow> in_scope b r"
  by (simp add: in_scope_def anchor_key_def is_global_anchor_def is_account_anchor_def)

lemma reserved_total_key: "anchor_key a = anchor_key b \<Longrightarrow> reserved_total a rows = reserved_total b rows"
proof -
  assume "anchor_key a = anchor_key b"
  then have "in_scope a = in_scope b" by (intro ext in_scope_key)
  then show ?thesis by (simp add: reserved_total_def)
qed

lemma reserved_total_append [simp]:
  "reserved_total a (rows @ [r]) =
     reserved_total a rows + (if in_scope a r then rr_remaining_risk_amount r else 0)"
  by (simp add: reserved_total_def)

lemma in_scope_iff_key:
  assumes "rw_currency r = Some currency" and "rr_account_id r = account"
  shows "in_scope x r \<longleftrightarrow>
     anchor_key x \<in> {(''GLOBAL'', ''GLOBAL'', currency), (''ACCOUNT'', uuid_str account, currency)}"
  using assms by (auto simp: in_scope_def anchor_key_def is_global_anchor_def is_account_anchor_def)

lemma unique_by_key:
  assumes "distinct (map f xs)" "x \<in> set xs" "y \<in> set xs" "f x = f y"
  shows "x = y"
  using assms by (meson distinct_map inj_onD)

section \<open>What a stored approval did\<close>

lemma persist_decision_Inr:
  assumes "persist_decision db d = Inr (db1, x)"
  shows "rt_anchors db1 = rt_anchors db" and "rt_reservations db1 = rt_reservations db"
    and "x \<in> set (rt_decisions db1)" and "rd_order_intent_id x = rd_order_intent_id d"
    and "rd_decision_hash x = rd_decision_hash d"
    and "db1 = db \<or> (x = d \<and> db1 = db\<lparr>rt_decisions := rt_decisions db @ [d]\<rparr>
           \<and> d \<notin> set (rt_decisions db)
           \<and> rd_id d \<notin> rd_id ` set (rt_decisions db)
           \<and> rd_order_intent_id d \<notin> rd_order_intent_id ` set (rt_decisions db))"
proof -
  from assms obtain "next_where (\<lambda>y. rd_order_intent_id y = rd_order_intent_id d) (rt_decisions db1) = Some x"
    and h: "rd_decision_hash x = rd_decision_hash d"
    and db1: "db1 = db \<or> (db1 = db\<lparr>rt_decisions := rt_decisions db @ [d]\<rparr>
       \<and> \<not> list_ex (\<lambda>y. rd_id y = rd_id d \<or> rd_order_intent_id y = rd_order_intent_id d) (rt_decisions db))"
    by (auto simp: persist_decision_def Let_def split: option.splits if_splits)
  then have x: "x \<in> set (rt_decisions db1)" "rd_order_intent_id x = rd_order_intent_id d"
    by (auto dest: next_where_Some)
  show "rt_anchors db1 = rt_anchors db" "rt_reservations db1 = rt_reservations db" using db1 by auto
  show "x \<in> set (rt_decisions db1)" "rd_order_intent_id x = rd_order_intent_id d"
    "rd_decision_hash x = rd_decision_hash d" using x h by auto
  show "db1 = db \<or> (x = d \<and> db1 = db\<lparr>rt_decisions := rt_decisions db @ [d]\<rparr>
           \<and> d \<notin> set (rt_decisions db) \<and> rd_id d \<notin> rd_id ` set (rt_decisions db)
           \<and> rd_order_intent_id d \<notin> rd_order_intent_id ` set (rt_decisions db))"
    using db1 x by (auto simp: list_ex_iff)
qed

lemma persist_reservation_Inr:
  assumes "persist_reservation db r = Inr (db2, existing, created)"
  shows "rt_anchors db2 = rt_anchors db" and "rt_decisions db2 = rt_decisions db"
    and "\<not> created \<Longrightarrow> db2 = db"
    and "created \<Longrightarrow> \<exists>d row. d \<in> set (rt_decisions db) \<and> rd_id d = rr_risk_decision_id r
       \<and> row = r\<lparr>rw_currency := Some (or_else (rw_currency r) (rd_currency d))\<rparr>
       \<and> reservation_row_ok row \<and> \<not> reservation_duplicate (rt_reservations db) row
       \<and> db2 = db\<lparr>rt_reservations := rt_reservations db @ [row]\<rparr>"
  using assms
  by (auto simp: persist_reservation_def Let_def dest!: next_where_Some split: option.splits if_splits)

text \<open>The three ways a stored approval can change the tables: not at all, by a zero reservation, or
  by a reservation that both anchors are charged for.\<close>

definition approval_effect ::
  "'a RiskTables_scheme \<Rightarrow> RiskDecision \<Rightarrow> RiskDecision \<Rightarrow> ReservationRow \<Rightarrow> RiskBudgetAnchorView
    \<Rightarrow> RiskBudgetAnchorView \<Rightarrow> 'a RiskTables_scheme \<Rightarrow> bool" where
  "approval_effect db1 x d r g a db' \<longleftrightarrow>
     (\<exists>y. persist_reservation db1 (r\<lparr>rr_risk_decision_id := rd_id x\<rparr>) = Inr (db', y, False) \<and> db' = db1)
      \<or> (\<exists>y. rd_outcome d \<noteq> APPROVE
           \<and> persist_reservation db1 (r\<lparr>rr_risk_decision_id := rd_id x\<rparr>) = Inr (db', y, True))
      \<or> (\<exists>db2 y g' a'. rd_outcome d = APPROVE
           \<and> persist_reservation db1 (r\<lparr>rr_risk_decision_id := rd_id x\<rparr>) = Inr (db2, y, True)
           \<and> charge_anchor (rr_remaining_risk_amount r) g = Inr g'
           \<and> charge_anchor (rr_remaining_risk_amount r) a = Inr a'
           \<and> db' = db2\<lparr>rt_anchors := put_anchor a' (put_anchor g' (rt_anchors db2))\<rparr>)"

lemma persist_approval_cases:
  assumes "persist_approval db d r account currency = Inr db'"
  obtains g a db1 x where
    "lock_global_and_account (rt_anchors db) account currency = Some (g, a)"
    "first_error (persist_approval_checks d r account currency) = None"
    "persist_decision db d = Inr (db1, x)"
    and "approval_effect db1 x d r g a db'"
proof -
  from assms obtain g a db1 x db2 y created where
    l: "lock_global_and_account (rt_anchors db) account currency = Some (g, a)"
    and c: "first_error (persist_approval_checks d r account currency) = None"
    and pd: "persist_decision db d = Inr (db1, x)"
    and pr: "persist_reservation db1 (r\<lparr>rr_risk_decision_id := rd_id x\<rparr>) = Inr (db2, y, created)"
    and rest: "(if \<not> created \<or> rd_outcome d \<noteq> APPROVE then Inr db2
               else and_then (charge_anchor (rr_remaining_risk_amount r) g) (\<lambda>g.
                 and_then (charge_anchor (rr_remaining_risk_amount r) a) (\<lambda>a.
                   Inr (db2\<lparr>rt_anchors := put_anchor a (put_anchor g (rt_anchors db2))\<rparr>)))) = Inr db'"
    by (auto simp: persist_approval_def and_then_eq_Inr_iff checks_simps split: option.splits)
  show thesis
  proof (rule that [OF l c pd])
    show "approval_effect db1 x d r g a db'"
      using pr rest persist_reservation_Inr(3) [OF pr]
      by (auto simp: and_then_eq_Inr_iff approval_effect_def split: if_splits)
  qed
qed

text \<open>The stored reservation of a new approval: the service's row in the decision's currency.\<close>

lemma created_row:
  assumes pd: "persist_decision db d = Inr (db1, x)"
    and pr: "persist_reservation db1 (r\<lparr>rr_risk_decision_id := rd_id x\<rparr>) = Inr (db2, y, True)"
    and c: "first_error (persist_approval_checks d r account currency) = None"
    and cur: "one_currency db d"
    and k: "keys_inv db" and rc: "rw_currency r = None"
  obtains row where "rt_reservations db2 = rt_reservations db @ [row]"
    "rt_anchors db2 = rt_anchors db" "rt_decisions db2 = rt_decisions db1"
    "rr_remaining_risk_amount row = rr_remaining_risk_amount r" "rr_account_id row = account"
    "rw_currency row = Some currency" "rr_risk_decision_id row = rd_id x"
    "rd_id x \<notin> rr_risk_decision_id ` set (rt_reservations db)" "reservation_row_ok row"
proof -
  note pdf = persist_decision_Inr [OF pd]
  have keys1: "distinct (map rd_id (rt_decisions db1))"
    using pdf(6) k by (auto simp: keys_inv_def)
  from persist_reservation_Inr(4) [OF pr] obtain e row where
    e: "e \<in> set (rt_decisions db1)" "rd_id e = rd_id x"
    and row: "row = r\<lparr>rr_risk_decision_id := rd_id x, rw_currency := Some (or_else (rw_currency r) (rd_currency e))\<rparr>"
      "reservation_row_ok row" "\<not> reservation_duplicate (rt_reservations db1) row"
      "db2 = db1\<lparr>rt_reservations := rt_reservations db1 @ [row]\<rparr>" by auto
  have "e = x" using unique_by_key [OF keys1 e(1) pdf(3)] e(2) by simp
  moreover have "rd_currency x = rd_currency d" using pdf(3,4,6) cur by (auto simp: one_currency_def list_all_iff)
  ultimately have "rw_currency row = Some currency"
    using c rc by (auto simp: row(1) or_else_def persist_approval_checks_def split: if_splits)
  then show thesis
    using row c pdf(1,2)
    by (intro that [of row])
       (auto simp: persist_approval_checks_def reservation_duplicate_def list_ex_iff split: if_splits)
qed

lemma keys_inv_persist_approval:
  assumes k: "keys_inv db" and p: "persist_approval db d r account currency = Inr db'"
    and cur: "one_currency db d"
    and rc: "rw_currency r = None"
  shows "keys_inv db'"
  using p
proof (rule persist_approval_cases)
  fix g a db1 x
  assume l: "lock_global_and_account (rt_anchors db) account currency = Some (g, a)"
    and c: "first_error (persist_approval_checks d r account currency) = None"
    and pd: "persist_decision db d = Inr (db1, x)"
    and alt: "approval_effect db1 x d r g a db'"
  note pdf = persist_decision_Inr [OF pd]
  have k1: "keys_inv db1" using pdf(6) k by (auto simp: keys_inv_def)
  have new: "keys_inv db2" if "persist_reservation db1 (r\<lparr>rr_risk_decision_id := rd_id x\<rparr>) = Inr (db2, y, True)" for db2 y
  proof -
    from created_row [OF pd that c cur k rc] obtain row where
      "rt_reservations db2 = rt_reservations db @ [row]" "rt_anchors db2 = rt_anchors db"
      "rt_decisions db2 = rt_decisions db1" "rr_risk_decision_id row = rd_id x"
      "rd_id x \<notin> rr_risk_decision_id ` set (rt_reservations db)" by metis
    with k1 k show ?thesis by (simp add: keys_inv_def)
  qed
  have put: "keys_inv (t\<lparr>rt_anchors := put_anchor a' (put_anchor g' (rt_anchors t))\<rparr>)" if "keys_inv t" for t g' a'
    using that by (simp add: keys_inv_def put_anchor_def comp_def if_distrib cong: if_cong)
  show ?thesis using alt k1 new put unfolding approval_effect_def by blast
qed

text \<open>Adding one reservation to the table and charging the two anchors of its scope.\<close>

lemma conserved_charged:
  assumes inv: "keys_inv db" "conserved db" and grid: "\<forall>z \<in> set (rt_anchors db). anchor_grid k z"
    and l: "lock_global_and_account (rt_anchors db) account currency = Some (g, a)"
    and ch: "charge_anchor amount g = Inr g'" "charge_anchor amount a = Inr a'"
    and amt: "dec_grid k amount" "0 \<le> amount"
    and row: "rr_remaining_risk_amount row = amount" "rr_account_id row = account" "rw_currency row = Some currency"
    and x: "x \<in> set (rt_anchors db)"
  shows "av_remaining_reservation_amount (replaced g' a' x) = reserved_total x (rt_reservations db @ [row])"
    and "anchor_grid k (replaced g' a' x)" and "within_limit x \<Longrightarrow> within_limit (replaced g' a' x)"
proof -
  note lk = lock_Some [OF l] and cg = charge_anchor_Inr [OF ch(1)] and ca = charge_anchor_Inr [OF ch(2)]
  have eg: "av_remaining_reservation_amount g' = av_remaining_reservation_amount g + amount"
      "anchor_grid k g'" "within_limit g'"
    using charge_anchor_exact [OF ch(1) _ amt] grid lk by auto
  have ea: "av_remaining_reservation_amount a' = av_remaining_reservation_amount a + amount"
      "anchor_grid k a'" "within_limit a'"
    using charge_anchor_exact [OF ch(2) _ amt] grid lk by auto
  have keys: "distinct (map anchor_key (rt_anchors db))" using inv by (simp add: keys_inv_def)
  have xg: "anchor_key x = anchor_key g \<Longrightarrow> x = g" and xa: "anchor_key x = anchor_key a \<Longrightarrow> x = a"
    using unique_by_key [OF keys x] lk by auto
  have cons: "av_remaining_reservation_amount x = reserved_total x (rt_reservations db)"
    using inv x by (auto simp: conserved_def)
  consider "anchor_key x = anchor_key g" | "anchor_key x = anchor_key a"
    | "anchor_key x \<noteq> anchor_key g" "anchor_key x \<noteq> anchor_key a" by blast
  then have "av_remaining_reservation_amount (replaced g' a' x) = reserved_total x (rt_reservations db @ [row])
    \<and> anchor_grid k (replaced g' a' x) \<and> (within_limit x \<longrightarrow> within_limit (replaced g' a' x))"
  proof cases
    case 1
    with xg have "x = g" by simp
    then show ?thesis using cons eg lk cg(1) ca(1) row(1) in_scope_iff_key [OF row(3,2), of x]
      by (simp add: replaced_def)
  next
    case 2
    with xa have "x = a" by simp
    then show ?thesis using cons ea lk ca(1) row(1) in_scope_iff_key [OF row(3,2), of x]
      by (simp add: replaced_def)
  next
    case 3
    then show ?thesis using cons lk cg(1) ca(1) grid x in_scope_iff_key [OF row(3,2), of x]
      by (simp add: replaced_def)
  qed
  then show "av_remaining_reservation_amount (replaced g' a' x) = reserved_total x (rt_reservations db @ [row])"
    "anchor_grid k (replaced g' a' x)" "within_limit x \<Longrightarrow> within_limit (replaced g' a' x)" by auto
qed

definition risk_inv :: "nat \<Rightarrow> 'a RiskTables_scheme \<Rightarrow> bool" where
  "risk_inv k db \<longleftrightarrow> keys_inv db \<and> conserved db \<and> (\<forall>a \<in> set (rt_anchors db). anchor_grid k a)"

definition within_limits :: "'a RiskTables_scheme \<Rightarrow> bool" where
  "within_limits db \<longleftrightarrow> (\<forall>a \<in> set (rt_anchors db). within_limit a)"

lemma put_both_charged:
  assumes "lock_global_and_account anchors account currency = Some (g, a)"
    "charge_anchor amount g = Inr g'" "charge_anchor amount a = Inr a'"
  shows "put_anchor a' (put_anchor g' xs) = map (replaced g' a') xs"
  using lock_Some [OF assms(1)] charge_anchor_Inr(1) [OF assms(2)] charge_anchor_Inr(1) [OF assms(3)]
  by (intro put_both) simp

lemma conserved_unchanged:
  assumes "conserved db" "rt_anchors db' = rt_anchors db" "rt_reservations db' = rt_reservations db"
  shows "conserved db'"
  using assms by (simp add: conserved_def)

lemma conserved_zero_row:
  assumes "conserved db" "rt_anchors db' = rt_anchors db" "rt_reservations db' = rt_reservations db @ [row]"
    "rr_remaining_risk_amount row = 0"
  shows "conserved db'"
  using assms by (simp add: conserved_def)

section \<open>Storing again\<close>

lemma lock_map:
  assumes "\<And>x. anchor_key (f x) = anchor_key x"
  shows "lock_global_and_account (map f xs) account currency =
    map_option (map_prod f f) (lock_global_and_account xs account currency)"
proof -
  have "next_where (\<lambda>x. anchor_key x = key) (map f xs) = map_option f (next_where (\<lambda>x. anchor_key x = key) xs)" for key
    by (induction xs) (simp_all add: next_where_def assms)
  then show ?thesis by (auto simp: lock_global_and_account_def split: option.splits)
qed

lemma relock:
  assumes l: "lock_global_and_account (rt_anchors db) account currency = Some (g, a)"
    and alt: "approval_effect db1 x d r g a db'" and "rt_anchors db1 = rt_anchors db"
  shows "lock_global_and_account (rt_anchors db') account currency \<noteq> None"
  using alt unfolding approval_effect_def
proof (elim disjE exE conjE)
  fix db2 y g' a'
  assume pr: "persist_reservation db1 (r\<lparr>rr_risk_decision_id := rd_id x\<rparr>) = Inr (db2, y, True)"
    and ch: "charge_anchor (rr_remaining_risk_amount r) g = Inr g'"
      "charge_anchor (rr_remaining_risk_amount r) a = Inr a'"
    and db': "db' = db2\<lparr>rt_anchors := put_anchor a' (put_anchor g' (rt_anchors db2))\<rparr>"
  have "rt_anchors db' = map (replaced g' a') (rt_anchors db)"
    by (simp add: db' persist_reservation_Inr(1) [OF pr] assms(3) put_both_charged [OF l ch])
  then show ?thesis by (simp add: lock_map l)
qed (use l assms(3) persist_reservation_Inr(1) in force)+

lemma persist_decision_again:
  assumes pd: "persist_decision db d = Inr (db1, x)" and dec: "rt_decisions db' = rt_decisions db1"
  shows "persist_decision db' d = Inr (db', x)"
proof -
  note f = persist_decision_Inr [OF pd]
  have "next_where (\<lambda>y. rd_order_intent_id y = rd_order_intent_id d) (rt_decisions db1) = Some x"
    using pd by (auto simp: persist_decision_def Let_def split: option.splits if_splits)
  moreover have "list_ex (\<lambda>y. rd_id y = rd_id d \<or> rd_order_intent_id y = rd_order_intent_id d) (rt_decisions db1)"
    using f(3,4) by (auto simp: list_ex_iff)
  ultimately show ?thesis using f(5) by (simp add: persist_decision_def Let_def dec)
qed

lemma next_where_append_new:
  "next_where P xs = None \<Longrightarrow> next_where P (xs @ [y]) = (if P y then Some y else None)"
  by (induction xs) (auto simp: next_where_def split: if_splits)

text \<open>Whatever happened to the anchors in between, the reservation is found as it was stored.\<close>

lemma persist_reservation_again:
  assumes pr: "persist_reservation db1 r = Inr (db2, y, True)"
  shows "\<exists>y. persist_reservation (db2\<lparr>rt_anchors := anchors\<rparr>) r = Inr (db2\<lparr>rt_anchors := anchors\<rparr>, y, False)"
proof -
  from pr obtain e where e: "next_where (\<lambda>d. rd_id d = rr_risk_decision_id r) (rt_decisions db1) = Some e"
    by (auto simp: persist_reservation_def split: option.splits)
  define row where "row = r\<lparr>rw_currency := Some (or_else (rw_currency r) (rd_currency e))\<rparr>"
  from pr e have new: "\<not> reservation_duplicate (rt_reservations db1) row"
    and db2: "db2 = db1\<lparr>rt_reservations := rt_reservations db1 @ [row]\<rparr>"
    by (auto simp: persist_reservation_def Let_def row_def split: option.splits if_splits)
  have "next_where (\<lambda>x. rr_risk_decision_id x = rr_risk_decision_id r) (rt_reservations db1) = None"
    using new by (auto simp: next_where_None reservation_duplicate_def list_ex_iff row_def)
  then have "next_where (\<lambda>x. rr_risk_decision_id x = rr_risk_decision_id r) (rt_reservations db2) = Some row"
    by (simp add: db2 next_where_append_new row_def)
  moreover have "reservation_duplicate (rt_reservations db2) row"
    by (simp add: db2 reservation_duplicate_def)
  ultimately show ?thesis
    using e by (auto simp: persist_reservation_def Let_def db2 row_def)
qed

section \<open>Properties\<close>

text \<open>C30: storing an approval never breaks the risk budget. For amounts with \<open>k\<close> fractional digits,
  the reserved amount of every anchor stays exactly the sum of what remains of the reservations in
  its scope (all of a currency for the global anchor, an account's for its own), and when every
  anchor was within its hard limit it still is, so concurrent approvals cannot reserve more than
  the limit together.\<close>

theorem approval_keeps_risk_budget:
  assumes inv: "risk_inv k db" and p: "persist_approval db d r account currency = Inr db'"
    and cur: "one_currency db d" and rc: "rw_currency r = None"
    and amt: "dec_grid k (rr_remaining_risk_amount r)" "0 \<le> rr_remaining_risk_amount r"
  shows "risk_inv k db' \<and> (within_limits db \<longrightarrow> within_limits db')"
  using p
proof (rule persist_approval_cases)
  fix g a db1 x
  assume l: "lock_global_and_account (rt_anchors db) account currency = Some (g, a)"
    and c: "first_error (persist_approval_checks d r account currency) = None"
    and pd: "persist_decision db d = Inr (db1, x)"
    and alt: "approval_effect db1 x d r g a db'"
  have k: "keys_inv db" "conserved db" "\<forall>z \<in> set (rt_anchors db). anchor_grid k z"
    using inv by (auto simp: risk_inv_def)
  have k': "keys_inv db'" by (rule keys_inv_persist_approval [OF k(1) p cur rc])
  note pdf = persist_decision_Inr [OF pd]
  from alt show ?thesis unfolding approval_effect_def
  proof (elim disjE exE conjE)
    assume "db' = db1"
    with pdf(1,2) k k' conserved_unchanged [OF k(2)] show ?thesis by (simp add: risk_inv_def within_limits_def)
  next
    fix y
    assume out: "rd_outcome d \<noteq> APPROVE"
      and pr: "persist_reservation db1 (r\<lparr>rr_risk_decision_id := rd_id x\<rparr>) = Inr (db', y, True)"
    have "rr_remaining_risk_amount r = 0"
      using c out by (auto simp: persist_approval_checks_def split: if_splits)
    with created_row [OF pd pr c cur k(1) rc] conserved_zero_row [OF k(2), of db'] k k'
    show ?thesis by (metis risk_inv_def within_limits_def)
  next
    fix db2 y g' a'
    assume pr: "persist_reservation db1 (r\<lparr>rr_risk_decision_id := rd_id x\<rparr>) = Inr (db2, y, True)"
      and ch: "charge_anchor (rr_remaining_risk_amount r) g = Inr g'"
        "charge_anchor (rr_remaining_risk_amount r) a = Inr a'"
      and db': "db' = db2\<lparr>rt_anchors := put_anchor a' (put_anchor g' (rt_anchors db2))\<rparr>"
    from created_row [OF pd pr c cur k(1) rc] obtain row where
      row: "rt_reservations db2 = rt_reservations db @ [row]" "rt_anchors db2 = rt_anchors db"
        "rr_remaining_risk_amount row = rr_remaining_risk_amount r" "rr_account_id row = account"
        "rw_currency row = Some currency" by metis
    note one = conserved_charged [OF k l ch amt row(3,4,5)]
    have "rt_anchors db' = map (replaced g' a') (rt_anchors db)"
      by (simp add: db' row(2) put_both_charged [OF l ch])
    then show ?thesis
      using one k' row(1) db' reserved_total_key [OF key_replaced, of g' a']
      by (auto simp: risk_inv_def within_limits_def conserved_def simp del: reserved_total_append)
  qed
qed

text \<open>Storing an approval is idempotent: once it has been stored, storing the same decision and
  reservation again succeeds and leaves every table as it is, so a retried transaction charges the
  anchors once.\<close>

theorem approval_is_idempotent:
  assumes k: "keys_inv db" and p: "persist_approval db d r account currency = Inr db'"
    and cur: "one_currency db d" and rc: "rw_currency r = None"
  shows "persist_approval db' d r account currency = Inr db'"
  using p
proof (rule persist_approval_cases)
  fix g a db1 x
  assume l: "lock_global_and_account (rt_anchors db) account currency = Some (g, a)"
    and c: "first_error (persist_approval_checks d r account currency) = None"
    and pd: "persist_decision db d = Inr (db1, x)"
    and alt: "approval_effect db1 x d r g a db'"
  let ?r = "r\<lparr>rr_risk_decision_id := rd_id x\<rparr>"
  have dec: "rt_decisions db' = rt_decisions db1"
    using alt by (auto simp: approval_effect_def dest: persist_reservation_Inr(2))
  have lock': "lock_global_and_account (rt_anchors db') account currency \<noteq> None"
    using relock [OF l alt] persist_decision_Inr(1) [OF pd] by simp
  have pd': "persist_decision db' d = Inr (db', x)"
    by (rule persist_decision_again [OF pd dec])
  have "\<exists>y. persist_reservation db' ?r = Inr (db', y, False)"
    using alt unfolding approval_effect_def
  proof (elim disjE exE conjE)
    fix y
    assume "persist_reservation db1 ?r = Inr (db', y, True)"
    from persist_reservation_again [OF this, of "rt_anchors db'"] show ?thesis by simp
  qed (auto dest: persist_reservation_again)
  with lock' c pd' show ?thesis
    by (auto simp: persist_approval_def validated_def)
qed

section \<open>Witnesses\<close>

definition sample_tables :: RiskTables where
  "sample_tables =
     \<lparr>rt_anchors = [sample_anchor ''GLOBAL'' ''GLOBAL'', sample_anchor ''ACCOUNT'' (uuid_str 4)],
      rt_decisions = [], rt_reservations = []\<rparr>"

definition sample_decision :: RiskDecision where
  "sample_decision =
     \<lparr>rd_id = 2, rd_order_intent_id = 3, rd_risk_snapshot_id = 8, rd_outcome = APPROVE,
      rd_requested_quantity = 1, rd_reason_codes = [], rd_approved_quantity = 1,
      rd_approved_limit_price = Some 100, rd_reserved_risk_amount = 100, rd_currency = ''USD'',
      rd_policy_version_id = 9, rd_decided_at = 0, rd_decision_hash = []\<rparr>"

definition sample_row :: ReservationRow where
  "sample_row = RiskReservation.extend sample_reservation
     \<lparr>rw_currency = None, rw_settlement_asset = None\<rparr>"

definition stored_sample :: "RiskTables result" where
  "stored_sample = persist_approval sample_tables sample_decision sample_row 4 ''USD''"

lemma sample_tables_inv: "risk_inv 18 sample_tables" "one_currency sample_tables sample_decision"
  "rw_currency sample_row = None" "dec_grid 18 (rr_remaining_risk_amount sample_row)"
  "0 \<le> rr_remaining_risk_amount sample_row" "within_limits sample_tables"
  by code_simp+

lemma stored_sample_Inr: "\<exists>db'. stored_sample = Inr db' \<and> rt_anchors db' \<noteq> rt_anchors sample_tables"
proof -
  have "case stored_sample of Inr db' \<Rightarrow> rt_anchors db' \<noteq> rt_anchors sample_tables | Inl _ \<Rightarrow> False"
    by code_simp
  then show ?thesis by (auto split: sum.splits)
qed

theorem approval_keeps_risk_budget_witness:
  "\<exists>db'. persist_approval sample_tables sample_decision sample_row 4 ''USD'' = Inr db'
     \<and> rt_anchors db' \<noteq> rt_anchors sample_tables \<and> risk_inv 18 db' \<and> within_limits db'"
  using stored_sample_Inr approval_keeps_risk_budget [OF sample_tables_inv(1) _ sample_tables_inv(2-5)]
    sample_tables_inv(6)
  unfolding stored_sample_def by blast

theorem approval_is_idempotent_witness:
  "\<exists>db'. persist_approval sample_tables sample_decision sample_row 4 ''USD'' = Inr db'
     \<and> persist_approval db' sample_decision sample_row 4 ''USD'' = Inr db'"
  using stored_sample_Inr approval_is_idempotent [OF _ _ sample_tables_inv(2,3)] sample_tables_inv(1)
  unfolding stored_sample_def risk_inv_def by blast

end
