(* ===== verification/Events.thy ===== *)
theory Events
  imports Ids
begin

text \<open>
  \<^verbatim>\<open>contracts/envelope.py\<close>, \<^verbatim>\<open>contracts/execution_events.py\<close>, the outbox and inbox repositories
  and \<^verbatim>\<open>persistence/mysql/outbox_dispatcher.py\<close>: the envelope of a domain event, the outbox it is
  stored in with the write that caused it, the claim a publisher takes on it, and the inbox that
  makes a consumer process it once. The SHA-256 of an envelope is a parameter. Shown here: at most
  one publisher holds a claim, an event is marked published once and only under a claim, and an
  inbox accepts one payload per event.
\<close>

section \<open>Envelopes\<close>

datatype EventPayload =
    OrderCreatedPayload string string string decimal
  | FillAppliedPayload string decimal decimal bool
  | OrderStatusAppliedPayload string string string bool
  | ReservationReleasedPayload decimal string
  | BrokerOrderAdoptedPayload string string string

record EventEnvelope =
  env_event_id :: uuid
  env_event_type :: string
  env_schema_version :: int
  env_occurred_at :: instant
  env_observed_at :: instant
  env_producer :: string
  env_partition_key :: string
  env_aggregate_type :: string
  env_aggregate_id :: uuid
  env_aggregate_version :: int
  env_correlation_id :: uuid
  env_causation_id :: "uuid option"
  env_trace_id :: string
  env_payload :: EventPayload

text \<open>The field constraints of the payload models.\<close>

fun payload_ok :: "EventPayload \<Rightarrow> bool" where
  "payload_ok (OrderCreatedPayload intent_id decision_id status quantity) \<longleftrightarrow>
     intent_id \<noteq> [] \<and> decision_id \<noteq> [] \<and> status = ''CREATED'' \<and> quantity > 0"
| "payload_ok (FillAppliedPayload execution_id quantity total_filled _) \<longleftrightarrow>
     execution_id \<noteq> [] \<and> quantity > 0 \<and> total_filled > 0"
| "payload_ok (OrderStatusAppliedPayload broker_order_id raw_status status _) \<longleftrightarrow>
     broker_order_id \<noteq> [] \<and> raw_status \<noteq> [] \<and> status \<noteq> []"
| "payload_ok (ReservationReleasedPayload amount reason) \<longleftrightarrow> amount \<ge> 0 \<and> reason \<noteq> []"
| "payload_ok (BrokerOrderAdoptedPayload diff_id broker_order_id reservation_id) \<longleftrightarrow>
     diff_id \<noteq> [] \<and> broker_order_id \<noteq> [] \<and> reservation_id \<noteq> []"

definition envelope_ok :: "EventEnvelope \<Rightarrow> bool" where
  "envelope_ok e \<longleftrightarrow>
     env_event_type e \<noteq> [] \<and> env_schema_version e \<ge> 1 \<and> env_producer e \<noteq> []
     \<and> env_partition_key e \<noteq> [] \<and> env_aggregate_type e \<noteq> [] \<and> env_aggregate_version e \<ge> 1
     \<and> env_trace_id e \<noteq> [] \<and> payload_ok (env_payload e)
     \<and> list_all (\<lambda>u. uuid_version u = Some 7)
         ([env_event_id e, env_aggregate_id e, env_correlation_id e]
          @ (case env_causation_id e of None \<Rightarrow> [] | Some u \<Rightarrow> [u]))"

text \<open>Construction of an envelope; the model library raises a \<^verbatim>\<open>ValueError\<close>.\<close>

definition make_envelope :: "EventEnvelope \<Rightarrow> EventEnvelope result" where
  "make_envelope e = (if envelope_ok e then Inr e else Inl (ValueError ''validation error for EventEnvelope''))"

section \<open>The outbox\<close>

record OutboxRow =
  ob_event_id :: uuid
  ob_producer :: string
  ob_aggregate_type :: string
  ob_aggregate_id :: uuid
  ob_aggregate_version :: int
  ob_payload :: EventEnvelope
  ob_payload_hash :: bytes
  ob_next_attempt_at :: instant
  ob_claimed_by :: "string option"
  ob_claim_expires_at :: "instant option"
  ob_published_at :: "instant option"
  ob_created_at :: instant

definition outbox_row :: "(EventEnvelope \<Rightarrow> bytes) \<Rightarrow> EventEnvelope \<Rightarrow> instant \<Rightarrow> instant \<Rightarrow> OutboxRow" where
  "outbox_row sha e next_attempt_at created_at =
     \<lparr>ob_event_id = env_event_id e, ob_producer = env_producer e,
      ob_aggregate_type = env_aggregate_type e, ob_aggregate_id = env_aggregate_id e,
      ob_aggregate_version = env_aggregate_version e, ob_payload = e, ob_payload_hash = sha e,
      ob_next_attempt_at = next_attempt_at, ob_claimed_by = None, ob_claim_expires_at = None,
      ob_published_at = None, ob_created_at = created_at\<rparr>"

text \<open>The two unique keys of the table.\<close>

definition outbox_duplicate :: "OutboxRow list \<Rightarrow> OutboxRow \<Rightarrow> bool" where
  "outbox_duplicate rows r =
     list_ex (\<lambda>x. ob_event_id x = ob_event_id r
        \<or> (ob_producer x = ob_producer r \<and> ob_aggregate_type x = ob_aggregate_type r
           \<and> ob_aggregate_id x = ob_aggregate_id r \<and> ob_aggregate_version x = ob_aggregate_version r)) rows"

definition find_outbox :: "uuid \<Rightarrow> OutboxRow list \<Rightarrow> OutboxRow option" where
  "find_outbox event_id rows = next_where (\<lambda>x. ob_event_id x = event_id) rows"

definition enqueue_once ::
  "(EventEnvelope \<Rightarrow> bytes) \<Rightarrow> OutboxRow list \<Rightarrow> EventEnvelope \<Rightarrow> instant \<Rightarrow> instant \<Rightarrow> OutboxRow list result" where
  "enqueue_once sha rows e next_attempt_at created_at =
     (let r = outbox_row sha e next_attempt_at created_at;
          rows' = (if outbox_duplicate rows r then rows else rows @ [r])
      in case find_outbox (env_event_id e) rows' of
           None \<Rightarrow> Inl (RuntimeError ''inserted outbox event cannot be read'')
         | Some existing \<Rightarrow>
             if ob_payload_hash existing \<noteq> sha e
             then Inl (ValueError ''outbox event identity payload collision'') else Inr rows')"

definition claimable :: "instant \<Rightarrow> OutboxRow \<Rightarrow> bool" where
  "claimable now r \<longleftrightarrow>
     ob_published_at r = None \<and> ob_next_attempt_at r \<le> now
     \<and> (case ob_claim_expires_at r of None \<Rightarrow> True | Some t \<Rightarrow> t \<le> now)"

text \<open>\<^verbatim>\<open>claim_batch\<close>; \<open>locked\<close> are the events other transactions hold, which
  \<^verbatim>\<open>skip_locked\<close> leaves out. The result is the table and the claimed identifiers.\<close>

definition claim_batch ::
  "(uuid \<Rightarrow> bool) \<Rightarrow> OutboxRow list \<Rightarrow> int \<Rightarrow> instant \<Rightarrow> string \<Rightarrow> instant \<Rightarrow> (OutboxRow list \<times> uuid list) result" where
  "claim_batch locked rows limit now claim_owner claim_expires_at =
     (if limit \<le> 0 then Inl (ValueError ''limit must be positive'')
      else if claim_expires_at \<le> now then Inl (ValueError ''claim_expires_at must be after now'')
      else let chosen = take (nat limit)
                 (sort_key ob_created_at (filter (\<lambda>r. claimable now r \<and> \<not> locked (ob_event_id r)) rows));
               ids = map ob_event_id chosen
           in Inr (map (\<lambda>r. if ob_event_id r \<in> set ids
                            then r\<lparr>ob_claimed_by := Some claim_owner, ob_claim_expires_at := Some claim_expires_at\<rparr>
                            else r) rows, ids))"

definition put_outbox :: "OutboxRow \<Rightarrow> OutboxRow list \<Rightarrow> OutboxRow list" where
  "put_outbox r rows = map (\<lambda>x. if ob_event_id x = ob_event_id r then r else x) rows"

definition claim_expired :: "instant \<Rightarrow> OutboxRow \<Rightarrow> bool" where
  "claim_expired now r = (case ob_claim_expires_at r of None \<Rightarrow> True | Some t \<Rightarrow> t \<le> now)"

definition mark_published ::
  "OutboxRow list \<Rightarrow> uuid \<Rightarrow> string \<Rightarrow> instant \<Rightarrow> instant \<Rightarrow> (OutboxRow list \<times> OutboxRow) result" where
  "mark_published rows event_id claim_owner now published_at =
     (case find_outbox event_id rows of
        None \<Rightarrow> Inl (LookupError ''outbox event not found'')
      | Some event \<Rightarrow>
          if ob_claimed_by event \<noteq> Some claim_owner
          then Inl (PermissionError ''outbox claim owner mismatch'')
          else if claim_expired now event then Inl (PermissionError ''outbox claim expired'')
          else if ob_published_at event \<noteq> None then Inr (rows, event)
          else let event' = event\<lparr>ob_published_at := Some published_at\<rparr>
               in Inr (put_outbox event' rows, event'))"

text \<open>\<^verbatim>\<open>publish_then_acknowledge\<close>: the first transaction decides whether to publish, the second,
  after the publisher has been called, marks the event. \<open>between\<close> is what other transactions did to
  the table in between; the result is the table, whether the publisher was called, and the
  outcome.\<close>

definition publish_then_acknowledge ::
  "(OutboxRow list \<Rightarrow> OutboxRow list) \<Rightarrow> OutboxRow list \<Rightarrow> uuid \<Rightarrow> string \<Rightarrow> instant \<Rightarrow> instant
    \<Rightarrow> OutboxRow list \<times> bool \<times> OutboxRow result" where
  "publish_then_acknowledge between rows event_id claim_owner now published_at =
     (case find_outbox event_id rows of
        None \<Rightarrow> (rows, False, Inl (LookupError ''outbox event not found''))
      | Some event \<Rightarrow>
          if ob_claimed_by event \<noteq> Some claim_owner
          then (rows, False, Inl (PermissionError ''outbox claim owner mismatch''))
          else if ob_published_at event \<noteq> None then (rows, False, Inr event)
          else if claim_expired now event
          then (rows, False, Inl (PermissionError ''outbox claim expired''))
          else case mark_published (between rows) event_id claim_owner now published_at of
                 Inl e \<Rightarrow> (between rows, True, Inl e)
               | Inr (rows', published) \<Rightarrow> (rows', True, Inr published))"

section \<open>The inbox\<close>

datatype InboxResult = NEW | ALREADY_PROCESSED | PAYLOAD_CONFLICT

record InboxRow =
  ib_consumer_name :: string
  ib_event_id :: uuid
  ib_payload_hash :: bytes
  ib_status :: string

definition begin_once ::
  "(EventEnvelope \<Rightarrow> bytes) \<Rightarrow> InboxRow list \<Rightarrow> string \<Rightarrow> EventEnvelope \<Rightarrow> InboxRow list \<times> InboxResult" where
  "begin_once sha rows consumer_name e =
     (case next_where (\<lambda>x. ib_consumer_name x = consumer_name \<and> ib_event_id x = env_event_id e) rows of
        None \<Rightarrow> (rows @ [\<lparr>ib_consumer_name = consumer_name, ib_event_id = env_event_id e,
                        ib_payload_hash = sha e, ib_status = ''PROCESSED''\<rparr>], NEW)
      | Some existing \<Rightarrow>
          (rows, if ib_payload_hash existing = sha e then ALREADY_PROCESSED else PAYLOAD_CONFLICT))"

section \<open>Invariants\<close>

definition outbox_inv :: "OutboxRow list \<Rightarrow> bool" where
  "outbox_inv rows \<longleftrightarrow> distinct (map ob_event_id rows)"

lemma find_outbox_Some:
  assumes "find_outbox u rows = Some r"
  shows "r \<in> set rows" and "ob_event_id r = u"
  using assms by (auto simp: find_outbox_def dest: next_where_Some)

lemma find_outbox_mem:
  assumes "outbox_inv rows" "r \<in> set rows"
  shows "find_outbox (ob_event_id r) rows = Some r"
proof -
  have "find_outbox (ob_event_id r) rows \<noteq> None"
    using assms(2) by (auto simp: find_outbox_def next_where_None)
  then obtain x where x: "find_outbox (ob_event_id r) rows = Some x" by blast
  have "x = r"
    using assms find_outbox_Some [OF x] by (metis distinct_map inj_onD outbox_inv_def)
  with x show ?thesis by simp
qed

definition claim_row :: "uuid list \<Rightarrow> string \<Rightarrow> instant \<Rightarrow> OutboxRow \<Rightarrow> OutboxRow" where
  "claim_row ids claim_owner expires r =
     (if ob_event_id r \<in> set ids
      then r\<lparr>ob_claimed_by := Some claim_owner, ob_claim_expires_at := Some expires\<rparr> else r)"

lemma claim_row_id [simp]: "ob_event_id (claim_row ids claim_owner expires r) = ob_event_id r"
  by (simp add: claim_row_def)

lemma claim_batch_Inr:
  assumes "claim_batch locked rows limit now claim_owner expires = Inr (rows', ids)"
  shows "now < expires" and "rows' = map (claim_row ids claim_owner expires) rows"
    and "u \<in> set ids \<Longrightarrow> \<exists>r \<in> set rows. ob_event_id r = u \<and> claimable now r \<and> \<not> locked u"
proof -
  define chosen where "chosen = take (nat limit)
    (sort_key ob_created_at (filter (\<lambda>r. claimable now r \<and> \<not> locked (ob_event_id r)) rows))"
  from assms have f: "now < expires" "ids = map ob_event_id chosen"
    "rows' = map (claim_row ids claim_owner expires) rows"
    by (auto simp: claim_batch_def Let_def chosen_def claim_row_def split: if_splits)
  show "now < expires" "rows' = map (claim_row ids claim_owner expires) rows" using f by auto
  assume "u \<in> set ids"
  then obtain r where "r \<in> set chosen" "u = ob_event_id r" using f(2) by auto
  then show "\<exists>r \<in> set rows. ob_event_id r = u \<and> claimable now r \<and> \<not> locked u"
    unfolding chosen_def by (auto dest!: in_set_takeD)
qed

lemma claim_batch_inv:
  assumes "claim_batch locked rows limit now claim_owner expires = Inr (rows', ids)" "outbox_inv rows"
  shows "outbox_inv rows'"
  using assms(2) by (simp add: claim_batch_Inr(2) [OF assms(1)] outbox_inv_def comp_def)

lemma mark_published_Inr:
  assumes "mark_published rows u claim_owner now published_at = Inr (rows', event)"
  obtains r where "find_outbox u rows = Some r" "ob_claimed_by r = Some claim_owner"
    "\<not> claim_expired now r"
    and "ob_published_at r \<noteq> None \<and> rows' = rows \<and> event = r
         \<or> ob_published_at r = None \<and> event = r\<lparr>ob_published_at := Some published_at\<rparr>
           \<and> rows' = put_outbox event rows"
  using assms by (auto simp: mark_published_def Let_def split: option.splits if_splits)

section \<open>Properties\<close>

text \<open>A claim is exclusive while it lasts. An event claimed by one publisher cannot be claimed
  by another batch, nor published by another owner, before the claim expires, whatever batch sizes and
  lock states the transactions see.\<close>

theorem outbox_claim_exclusive:
  assumes inv: "outbox_inv rows"
    and c: "claim_batch locked rows limit now owner1 expires = Inr (rows1, ids)" and u: "u \<in> set ids"
    and later: "now' < expires"
  shows "(\<forall>locked' limit' owner2 expires' rows2 ids2.
            claim_batch locked' rows1 limit' now' owner2 expires' = Inr (rows2, ids2) \<longrightarrow> u \<notin> set ids2)
     \<and> (\<forall>owner2 published_at rows2 e. mark_published rows1 u owner2 now' published_at = Inr (rows2, e) \<longrightarrow>
            owner2 = owner1)"
proof -
  note f = claim_batch_Inr [OF c]
  have inv1: "outbox_inv rows1" by (rule claim_batch_inv [OF c inv])
  obtain r0 where r0: "r0 \<in> set rows" "ob_event_id r0 = u" using f(3) [OF u] by blast
  define r where "r = claim_row ids owner1 expires r0"
  have r: "r \<in> set rows1" "ob_event_id r = u" "ob_claimed_by r = Some owner1"
    "ob_claim_expires_at r = Some expires"
    using r0 u by (simp_all add: r_def f(2), simp_all add: claim_row_def)
  have found: "find_outbox u rows1 = Some r" using find_outbox_mem [OF inv1 r(1)] r(2) by simp
  have "\<not> claimable now' r" using r(4) later by (simp add: claimable_def)
  moreover have "x = r" if "x \<in> set rows1" "ob_event_id x = u" for x
    using that r inv1 by (metis distinct_map inj_onD outbox_inv_def)
  ultimately have "u \<notin> set ids2" if "claim_batch l2 rows1 n2 now' o2 e2 = Inr (rows2, ids2)" for l2 n2 o2 e2 rows2 ids2
    using claim_batch_Inr(3) [OF that, of u] by metis
  then show ?thesis using found r(3) by (auto elim!: mark_published_Inr)
qed

text \<open>An event is marked published at most once: marking it succeeds only under a claim that has
  not expired, never changes an earlier publication time, never touches another event, and after it
  the event is no longer claimable.\<close>

theorem outbox_published_once:
  assumes inv: "outbox_inv rows" and m: "mark_published rows u owner now published_at = Inr (rows', e)"
  shows "find_outbox u rows' = Some e \<and> ob_published_at e \<noteq> None
    \<and> (\<forall>r t. find_outbox u rows = Some r \<longrightarrow> ob_published_at r = Some t \<longrightarrow> ob_published_at e = Some t)
    \<and> (\<forall>v. v \<noteq> u \<longrightarrow> find_outbox v rows' = find_outbox v rows)
    \<and> (\<forall>now'. \<not> claimable now' e) \<and> outbox_inv rows'"
  using m
proof (rule mark_published_Inr)
  fix r
  assume found: "find_outbox u rows = Some r"
    and alt: "ob_published_at r \<noteq> None \<and> rows' = rows \<and> e = r
         \<or> ob_published_at r = None \<and> e = r\<lparr>ob_published_at := Some published_at\<rparr> \<and> rows' = put_outbox e rows"
  note fr = find_outbox_Some [OF found]
  have put: "find_outbox v (put_outbox x xs) = (if v = ob_event_id x \<and> find_outbox v xs \<noteq> None then Some x else find_outbox v xs)"
    for v x xs by (induction xs) (auto simp: find_outbox_def next_where_def put_outbox_def split: if_splits)
  have "outbox_inv (put_outbox x xs) \<longleftrightarrow> outbox_inv xs" for x xs
    by (simp add: outbox_inv_def put_outbox_def comp_def if_distrib cong: if_cong)
  then show ?thesis using alt found fr inv by (auto simp: put claimable_def)
qed

text \<open>The inbox processes an event once per consumer: the first delivery is new, every later
  delivery of the same envelope is already processed and changes nothing, and one with another digest
  is a conflict.\<close>

theorem inbox_processes_once:
  assumes "begin_once sha rows consumer e = (rows1, result)" and "env_event_id e' = env_event_id e"
  shows "fst (begin_once sha rows1 consumer e') = rows1 \<and> snd (begin_once sha rows1 consumer e') \<noteq> NEW
    \<and> (result = NEW \<longrightarrow>
        snd (begin_once sha rows1 consumer e') = (if sha e' = sha e then ALREADY_PROCESSED else PAYLOAD_CONFLICT))"
proof -
  have snoc: "next_where P (rows @ [x]) = (case next_where P rows of None \<Rightarrow> if P x then Some x else None | Some y \<Rightarrow> Some y)"
    for P and x :: InboxRow by (induction rows) (auto simp: next_where_def)
  show ?thesis
    using assms by (auto simp: begin_once_def snoc split: option.splits)
qed

section \<open>Witnesses\<close>

definition sample_envelope :: EventEnvelope where
  "sample_envelope =
     \<lparr>env_event_id = 1, env_event_type = ''execution.fill.applied'', env_schema_version = 1,
      env_occurred_at = 0, env_observed_at = 0, env_producer = ''execution-fill-service'',
      env_partition_key = ''a'', env_aggregate_type = ''Order'', env_aggregate_id = 2,
      env_aggregate_version = 1, env_correlation_id = 3, env_causation_id = None, env_trace_id = ''t'',
      env_payload = FillAppliedPayload ''x'' 1 1 False\<rparr>"

definition sample_outbox :: "OutboxRow list" where
  "sample_outbox = [outbox_row (\<lambda>_. []) sample_envelope 0 0]"

definition claimed_outbox :: "OutboxRow list" where
  "claimed_outbox = map (claim_row [1] ''a'' 10) sample_outbox"

lemma sample_claim: "claim_batch (\<lambda>_. False) sample_outbox 5 1 ''a'' 10 = Inr (claimed_outbox, [1])"
  by (simp add: claim_batch_def Let_def sample_outbox_def claimable_def outbox_row_def sample_envelope_def
      claimed_outbox_def claim_row_def)

lemma claimed_outbox_inv: "outbox_inv sample_outbox" "outbox_inv claimed_outbox"
  by (simp_all add: outbox_inv_def sample_outbox_def claimed_outbox_def)

theorem outbox_claim_exclusive_witness:
  "claim_batch (\<lambda>_. False) sample_outbox 5 1 ''a'' 10 = Inr (claimed_outbox, [1])
   \<and> (\<exists>rows2 ids2. claim_batch (\<lambda>_. False) claimed_outbox 5 9 ''b'' 20 = Inr (rows2, ids2) \<and> 1 \<notin> set ids2)"
proof -
  obtain rows2 ids2 where c: "claim_batch (\<lambda>_. False) claimed_outbox 5 9 ''b'' 20 = Inr (rows2, ids2)"
    by (simp add: claim_batch_def Let_def)
  then show ?thesis
    using outbox_claim_exclusive [OF claimed_outbox_inv(1) sample_claim, of 1 9] sample_claim by auto
qed

theorem outbox_published_once_witness:
  "\<exists>rows' e. mark_published claimed_outbox 1 ''a'' 5 6 = Inr (rows', e)
     \<and> find_outbox 1 rows' = Some e \<and> ob_published_at e = Some 6"
proof -
  obtain rows' e where m: "mark_published claimed_outbox 1 ''a'' 5 6 = Inr (rows', e)" "ob_published_at e = Some 6"
    by (simp add: mark_published_def find_outbox_def next_where_def claimed_outbox_def sample_outbox_def
        claim_row_def outbox_row_def sample_envelope_def claim_expired_def Let_def)
  with outbox_published_once [OF claimed_outbox_inv(2) m(1)] show ?thesis by blast
qed

theorem inbox_processes_once_witness:
  "\<exists>rows. begin_once (\<lambda>_. []) [] ''c'' sample_envelope = (rows, NEW)
     \<and> begin_once (\<lambda>_. []) rows ''c'' sample_envelope = (rows, ALREADY_PROCESSED)"
proof -
  obtain rows where r: "begin_once (\<lambda>_. []) [] ''c'' sample_envelope = (rows, NEW)"
    by (simp add: begin_once_def next_where_def)
  from inbox_processes_once [OF r refl] r show ?thesis
    by (metis prod.collapse)
qed

end
