(* ===== verification/Tables.thy ===== *)
theory Tables
  imports RiskStore Events
begin

text \<open>
  The execution tables of \<^verbatim>\<open>persistence/mysql/models/\<close> as one record of row lists that extends the
  risk tables: orders, commands, broker links, events, controls, leases, incidents, fills, positions
  with their lots and lifecycles, execution watermarks and the outbox. A status that the code keeps as
  free text stays a \<open>string\<close>.
\<close>

section \<open>Orders\<close>

record OrderRow = Order +
  orow_filled_quantity :: decimal

record CommandRow = BrokerOrderCommand +
  crow_result_state :: "string option"

record LinkRow =
  lk_id :: uuid
  lk_order_id :: uuid
  lk_broker_id :: uuid
  lk_broker_order_id :: string
  lk_link_sequence :: int
  lk_exposure_bearing :: bool
  lk_status :: string

record OrderEventRow = OrderDomainEvent +
  oev_id :: uuid

record StatusEventRow = BrokerOrderStatusEvent +
  sev_id :: uuid

record StatusWatermarkRow =
  swm_order_id :: uuid
  swm_source_partition :: string
  swm_last_contiguous_sequence :: int

section \<open>Controls\<close>

record ControlRow =
  ctl_scope_type :: string
  ctl_scope_key :: string
  ctl_armed :: bool
  ctl_kill_switch_level :: string
  ctl_owner_runtime_instance_id :: "uuid option"
  ctl_acquired_at :: "instant option"
  ctl_expires_at :: "instant option"
  ctl_fencing_token :: int
  ctl_row_version :: int

record LeaseRow =
  lse_lease_name :: string
  lse_owner_runtime_instance_id :: "uuid option"
  lse_acquired_at :: "instant option"
  lse_expires_at :: "instant option"
  lse_fencing_token :: int
  lse_row_version :: int

record IncidentRow =
  inc_severity :: string
  inc_status :: string
  inc_reason_code :: string
  inc_scope_type :: "string option"
  inc_scope_key :: "string option"
  inc_created_at :: instant

record RunRow =
  rnr_id :: uuid
  rnr_broker_id :: uuid
  rnr_account_id :: uuid
  rnr_started_at :: instant
  rnr_completed_at :: "instant option"
  rnr_status :: string
  rnr_snapshot_hash :: bytes
  rnr_complete :: bool

record DiffRow =
  dfr_id :: uuid
  dfr_run_id :: uuid
  dfr_internal_order_id :: "uuid option"
  dfr_instrument_id :: "uuid option"
  dfr_broker_order_id :: "string option"
  dfr_diff_key :: string
  dfr_severity :: string
  dfr_status :: string
  dfr_expected_hash :: bytes
  dfr_observed_hash :: bytes
  dfr_created_at :: instant
  dfr_resolved_at :: "instant option"

record IntentRow =
  inr_id :: uuid
  inr_origin_type :: IntentOrigin
  inr_idempotency_key :: string
  inr_canonical_payload_hash :: bytes
  inr_account_id :: uuid
  inr_instrument_id :: uuid
  inr_intent_type :: IntentType
  inr_side :: Side
  inr_order_style :: OrderStyle
  inr_requested_quantity :: decimal
  inr_limit_price :: "decimal option"
  inr_reconciliation_diff_id :: "uuid option"
  inr_created_at :: instant

record AuditRow =
  aud_action :: string
  aud_scope_type :: string
  aud_scope_key :: string
  aud_occurred_at :: instant

record AccountRow =
  acr_id :: uuid
  acr_broker_id :: uuid
  acr_enabled :: bool

section \<open>Fills and positions\<close>

record FillRow =
  fl_id :: uuid
  fl_order_id :: uuid
  fl_account_id :: uuid
  fl_instrument_id :: uuid
  fl_broker_id :: uuid
  fl_broker_execution_id :: string
  fl_broker_order_id :: string
  fl_source_partition :: string
  fl_source_sequence :: "int option"
  fl_side :: Side
  fl_quantity :: decimal
  fl_price :: decimal
  fl_currency :: "string option"
  fl_executed_at :: instant
  fl_observed_at :: instant
  fl_canonical_payload_hash :: bytes

datatype ChargeEffect = DEBIT | CREDIT

datatype ChargeLegRole = ENTRY_LEG | EXIT_TARGET | EXIT_STOP | EXIT_OTHER

datatype ChargeBasis = PER_UNIT | PER_NOTIONAL | PER_ORDER_MINIMUM

record ExecutionChargeComponent =
  ch_component_ordinal :: int
  ch_amount :: decimal
  ch_currency :: string
  ch_charge_kind :: string
  ch_effect :: ChargeEffect
  ch_leg_role :: ChargeLegRole
  ch_charge_basis :: ChargeBasis
  ch_basis_quantity :: "decimal option"
  ch_basis_notional :: "decimal option"

text \<open>A stored charge: the fill it belongs to and its component.\<close>

type_synonym ChargeRow = "uuid \<times> ExecutionChargeComponent"

record PositionRow =
  po_id :: uuid
  po_account_id :: uuid
  po_instrument_id :: uuid
  po_quantity :: decimal
  po_average_cost :: decimal
  po_observed_at :: instant
  po_blocking_risk :: bool
  po_currency :: "string option"
  po_settlement_asset :: "string option"

record LotRow =
  lot_id :: uuid
  lot_position_id :: uuid
  lot_opening_fill_id :: uuid
  lot_opened_quantity :: decimal
  lot_remaining_quantity :: decimal
  lot_opened_at :: instant

datatype PositionLifecycleKind = AUTHORIZED | UNAUTHORIZED_OBSERVED

record PositionLifecycle =
  lc_position_id :: uuid
  lc_lifecycle_ordinal :: int
  lc_opening_fill_id :: uuid
  lc_opened_at :: instant
  lc_kind :: PositionLifecycleKind
  lc_closing_fill_id :: "uuid option"
  lc_closed_at :: "instant option"

section \<open>Execution watermarks\<close>

record WatermarkRow =
  wmr_id :: uuid
  wmr_broker_id :: uuid
  wmr_account_id :: uuid
  wmr_source_partition :: string
  wmr_contiguous_through_sequence :: "int option"
  wmr_has_gap :: bool
  wmr_covered_from_at :: "instant option"
  wmr_covered_through_at :: "instant option"
  wmr_pagination_complete :: bool
  wmr_query_fingerprint :: bytes
  wmr_evidence_hash :: bytes
  wmr_expires_at :: instant
  wmr_row_version :: int

record GapRow =
  gp_id :: uuid
  gp_watermark_id :: uuid
  gp_from_sequence :: int
  gp_through_sequence :: int
  gp_open :: bool

record ScopeRow =
  sc_watermark_id :: uuid
  sc_scope_kind :: string
  sc_scope_value :: string

section \<open>The database\<close>

record ExecTables = RiskTables +
  et_orders :: "OrderRow list"
  et_commands :: "CommandRow list"
  et_authorities :: "(uuid \<times> string) list"
  et_links :: "LinkRow list"
  et_order_events :: "OrderEventRow list"
  et_status_events :: "StatusEventRow list"
  et_status_watermarks :: "StatusWatermarkRow list"
  et_controls :: "ControlRow list"
  et_leases :: "LeaseRow list"
  et_incidents :: "IncidentRow list"
  et_runs :: "RunRow list"
  et_diffs :: "DiffRow list"
  et_intents :: "IntentRow list"
  et_audit :: "AuditRow list"
  et_accounts :: "AccountRow list"
  et_fills :: "FillRow list"
  et_charges :: "ChargeRow list"
  et_positions :: "PositionRow list"
  et_lots :: "LotRow list"
  et_lifecycles :: "PositionLifecycle list"
  et_watermarks :: "WatermarkRow list"
  et_gaps :: "GapRow list"
  et_scopes :: "ScopeRow list"
  et_outbox :: "OutboxRow list"

definition empty_tables :: ExecTables where
  "empty_tables =
     \<lparr>rt_anchors = [], rt_decisions = [], rt_reservations = [], et_orders = [], et_commands = [],
      et_authorities = [], et_links = [], et_order_events = [], et_status_events = [],
      et_status_watermarks = [], et_controls = [], et_leases = [], et_incidents = [], et_runs = [],
      et_diffs = [], et_intents = [],
      et_audit = [], et_accounts = [], et_fills = [], et_charges = [], et_positions = [], et_lots = [],
      et_lifecycles = [], et_watermarks = [], et_gaps = [], et_scopes = [], et_outbox = []\<rparr>"

text \<open>Writing a row back under its identifier, and reading it.\<close>

definition put_by :: "('a \<Rightarrow> 'k) \<Rightarrow> 'a \<Rightarrow> 'a list \<Rightarrow> 'a list" where
  "put_by key r rows = map (\<lambda>x. if key x = key r then r else x) rows"

definition get_by :: "('a \<Rightarrow> 'k) \<Rightarrow> 'k \<Rightarrow> 'a list \<Rightarrow> 'a option" where
  "get_by key k rows = next_where (\<lambda>x. key x = k) rows"

text \<open>\<^verbatim>\<open>lock_global_dispatch_guard\<close>: the global control row is created disarmed when missing.\<close>

definition is_global_control :: "ControlRow \<Rightarrow> bool" where
  "is_global_control c \<longleftrightarrow> ctl_scope_type c = ''GLOBAL'' \<and> ctl_scope_key c = ''GLOBAL''"

definition lock_global_dispatch_guard :: "ExecTables \<Rightarrow> ExecTables" where
  "lock_global_dispatch_guard db =
     (if list_ex is_global_control (et_controls db) then db
      else db\<lparr>et_controls := et_controls db @
        [\<lparr>ctl_scope_type = ''GLOBAL'', ctl_scope_key = ''GLOBAL'', ctl_armed = False,
          ctl_kill_switch_level = ''NONE'', ctl_owner_runtime_instance_id = None,
          ctl_acquired_at = None, ctl_expires_at = None, ctl_fencing_token = 0, ctl_row_version = 1\<rparr>]\<rparr>)"

definition blocking_incident :: "string \<Rightarrow> uuid \<Rightarrow> instant \<Rightarrow> IncidentRow" where
  "blocking_incident reason order_id created_at =
     \<lparr>inc_severity = ''BLOCKING'', inc_status = ''OPEN'', inc_reason_code = reason,
      inc_scope_type = Some ''ORDER'', inc_scope_key = Some (uuid_str order_id),
      inc_created_at = created_at\<rparr>"

definition add_incident :: "IncidentRow \<Rightarrow> ExecTables \<Rightarrow> ExecTables" where
  "add_incident i db = db\<lparr>et_incidents := et_incidents db @ [i]\<rparr>"

section \<open>Lemmas on row lists\<close>

lemma distinct_map_snoc:
  "distinct (map f (xs @ [x])) \<longleftrightarrow> distinct (map f xs) \<and> (\<forall>y \<in> set xs. f y \<noteq> f x)"
  by (auto simp: image_iff)

lemma get_by_Some:
  assumes "get_by key k rows = Some r"
  shows "r \<in> set rows" and "key r = k"
  using assms by (auto simp: get_by_def dest: next_where_Some)

lemma get_by_put_by [simp]:
  "get_by key k (put_by key r rows) =
     (if k = key r \<and> get_by key k rows \<noteq> None then Some r else get_by key k rows)"
  by (induction rows) (auto simp: get_by_def next_where_def put_by_def split: if_splits)

lemma map_key_put_by [simp]: "map key (put_by key r rows) = map key rows"
  by (induction rows) (auto simp: put_by_def)

lemma get_by_append [simp]:
  "get_by key k (rows @ [r]) =
     (case get_by key k rows of Some x \<Rightarrow> Some x | None \<Rightarrow> if key r = k then Some r else None)"
  by (induction rows) (auto simp: get_by_def next_where_def)

lemma get_by_mem:
  assumes "distinct (map key rows)" "r \<in> set rows"
  shows "get_by key (key r) rows = Some r"
  using assms by (induction rows) (auto simp: get_by_def next_where_def)

lemma put_by_mem: "x \<in> set rows \<Longrightarrow> key x = key r \<Longrightarrow> r \<in> set (put_by key r rows)"
  by (auto simp: put_by_def intro: rev_image_eqI)

lemma put_by_other: "x \<in> set rows \<Longrightarrow> key x \<noteq> key r \<Longrightarrow> x \<in> set (put_by key r rows)"
  by (auto simp: put_by_def intro: rev_image_eqI)

lemma put_by_set: "x \<in> set (put_by key r rows) \<Longrightarrow> x = r \<or> x \<in> set rows \<and> key x \<noteq> key r"
  by (auto simp: put_by_def)

lemma put_by_same:
  assumes "get_by key (key r) rows = Some r" "distinct (map key rows)"
  shows "put_by key r rows = rows"
proof -
  have "x = r" if "x \<in> set rows" "key x = key r" for x
    using that assms by (metis get_by_Some(1) distinct_map inj_onD)
  then show ?thesis unfolding put_by_def by (intro map_idI) metis
qed

lemma guard_simps [simp]:
  "et_orders (lock_global_dispatch_guard db) = et_orders db"
  "et_commands (lock_global_dispatch_guard db) = et_commands db"
  "et_links (lock_global_dispatch_guard db) = et_links db"
  "et_fills (lock_global_dispatch_guard db) = et_fills db"
  "et_charges (lock_global_dispatch_guard db) = et_charges db"
  "et_positions (lock_global_dispatch_guard db) = et_positions db"
  "et_lots (lock_global_dispatch_guard db) = et_lots db"
  "et_lifecycles (lock_global_dispatch_guard db) = et_lifecycles db"
  "et_status_events (lock_global_dispatch_guard db) = et_status_events db"
  "et_status_watermarks (lock_global_dispatch_guard db) = et_status_watermarks db"
  "et_order_events (lock_global_dispatch_guard db) = et_order_events db"
  "et_incidents (lock_global_dispatch_guard db) = et_incidents db"
  "et_watermarks (lock_global_dispatch_guard db) = et_watermarks db"
  "et_gaps (lock_global_dispatch_guard db) = et_gaps db"
  "et_scopes (lock_global_dispatch_guard db) = et_scopes db"
  "et_outbox (lock_global_dispatch_guard db) = et_outbox db"
  "et_audit (lock_global_dispatch_guard db) = et_audit db"
  "et_accounts (lock_global_dispatch_guard db) = et_accounts db"
  "rt_anchors (lock_global_dispatch_guard db) = rt_anchors db"
  "rt_decisions (lock_global_dispatch_guard db) = rt_decisions db"
  "rt_reservations (lock_global_dispatch_guard db) = rt_reservations db"
  by (simp_all add: lock_global_dispatch_guard_def)

end
