(* ===== verification/OrderService.thy ===== *)
theory OrderService
  imports Tables
begin

text \<open>
  \<^verbatim>\<open>execution/orders/service.py\<close> over the order store of
  \<^verbatim>\<open>persistence/mysql/repositories/orders.py\<close>: from a risk decision to one order with its submit
  command, its first event and its outbox entry, in one transaction. The digests of the canonical
  payloads are parameters. Shown here: which authority may carry which outcome, that the command of an
  order is identified by order, type and version, that creating an order twice for one intent keeps
  the first, and which identifier the stored command carries.
\<close>

section \<open>Submission context\<close>

record OrderSubmissionContext =
  osc_broker_client_order_id :: string
  osc_owner_runtime_instance_id :: "uuid option"
  osc_fencing_token :: int
  osc_not_after :: instant
  osc_time_in_force :: string
  osc_authority_class :: string
  osc_created_at :: instant
  osc_command_id :: "uuid option"

definition OrderSubmissionContext_checks :: "OrderSubmissionContext \<Rightarrow> checks" where
  "OrderSubmissionContext_checks s =
     [(\<not> isascii (osc_broker_client_order_id s) \<or> osc_broker_client_order_id s = [],
         ValueError ''broker_client_order_id must be non-empty ASCII''),
      (osc_fencing_token s \<le> 0, ValueError ''fencing_token must be positive''),
      (osc_not_after s \<le> osc_created_at s, ValueError ''not_after must be after created_at''),
      (osc_time_in_force s = [] \<or> osc_authority_class s = [],
         ValueError ''time_in_force and authority_class are required'')]"

definition NEW_EXPOSURE :: string where
  "NEW_EXPOSURE = ''SUBMIT_NEW_EXPOSURE''"

definition STRICT_REDUCTION :: string where
  "STRICT_REDUCTION = ''SUBMIT_STRICT_REDUCTION''"

section \<open>The command factory\<close>

fun allowed_authorities :: "CommandType \<Rightarrow> string list" where
  "allowed_authorities SUBMIT = [NEW_EXPOSURE, STRICT_REDUCTION]"
| "allowed_authorities CANCEL = [''CANCEL'']"
| "allowed_authorities REPLACE = [''REPLACE_NON_INCREASING'']"

fun command_type_lower :: "CommandType \<Rightarrow> string" where
  "command_type_lower SUBMIT = ''submit''"
| "command_type_lower CANCEL = ''cancel''"
| "command_type_lower REPLACE = ''replace''"

record CommandPayload =
  cpl_authority_class :: string
  cpl_account_id :: uuid
  cpl_broker_client_order_id :: string
  cpl_command_type :: CommandType
  cpl_fencing_token :: int
  cpl_limit_price :: "decimal option"
  cpl_not_after :: instant
  cpl_instrument_id :: uuid
  cpl_order_id :: uuid
  cpl_order_style :: OrderStyle
  cpl_origin_type :: IntentOrigin
  cpl_owner_runtime_instance_id :: "uuid option"
  cpl_quantity :: decimal
  cpl_side :: Side
  cpl_target_broker_order_id :: "string option"
  cpl_target_aggregate_version :: int
  cpl_time_in_force :: string
  cpl_trigger_price :: "decimal option"

text \<open>\<^verbatim>\<open>str(price) if price else None\<close>: a price of zero counts as absent.\<close>

definition if_truthy :: "decimal option \<Rightarrow> decimal option" where
  "if_truthy p = (if p = Some 0 then None else p)"

text \<open>The digests of the standard library, as functions of what they are computed from.\<close>

record Digests =
  sha_command :: "CommandPayload \<Rightarrow> bytes"
  sha_envelope :: "EventEnvelope \<Rightarrow> bytes"

definition command_identity :: "uuid \<Rightarrow> CommandType \<Rightarrow> int \<Rightarrow> string" where
  "command_identity order_id ty version = uuid_hex order_id @ '':'' @ command_type_lower ty @ '':'' @ int_str version"

definition command_create ::
  "Digests \<Rightarrow> uuid \<Rightarrow> Order \<Rightarrow> CommandType \<Rightarrow> OrderSubmissionContext \<Rightarrow> IntentOrigin \<Rightarrow> string option
    \<Rightarrow> BrokerOrderCommand result" where
  "command_create sha fresh_id ord ty s origin target_broker_order_id =
     (if osc_authority_class s \<notin> set (allowed_authorities ty)
      then Inl (ValueError ''command authority does not permit its command type'')
      else let version = ord_aggregate_version ord in Inr
        \<lparr>cmd_id = (case osc_command_id s of None \<Rightarrow> fresh_id | Some u \<Rightarrow> u),
         cmd_order_id = ord_id ord, cmd_account_id = ord_account_id ord,
         cmd_instrument_id = ord_instrument_id ord, cmd_command_type = ty,
         cmd_target_aggregate_version = version,
         cmd_idempotency_key = command_identity (ord_id ord) ty version,
         cmd_command_sequence = version,
         cmd_canonical_payload_hash = sha_command sha
           \<lparr>cpl_authority_class = osc_authority_class s, cpl_account_id = ord_account_id ord,
            cpl_broker_client_order_id = osc_broker_client_order_id s, cpl_command_type = ty,
            cpl_fencing_token = osc_fencing_token s, cpl_limit_price = if_truthy (ord_limit_price ord),
            cpl_not_after = osc_not_after s, cpl_instrument_id = ord_instrument_id ord,
            cpl_order_id = ord_id ord, cpl_order_style = ord_order_style ord, cpl_origin_type = origin,
            cpl_owner_runtime_instance_id = osc_owner_runtime_instance_id s,
            cpl_quantity = ord_requested_quantity ord, cpl_side = ord_side ord,
            cpl_target_broker_order_id = target_broker_order_id, cpl_target_aggregate_version = version,
            cpl_time_in_force = osc_time_in_force s, cpl_trigger_price = if_truthy (ord_trigger_price ord)\<rparr>,
         cmd_broker_client_order_id = osc_broker_client_order_id s,
         cmd_target_broker_order_id = target_broker_order_id, cmd_replaces_command_id = None,
         cmd_origin_type = origin_value origin, cmd_authority_class = osc_authority_class s,
         cmd_owner_runtime_instance_id = osc_owner_runtime_instance_id s,
         cmd_fencing_token = osc_fencing_token s, cmd_not_after = osc_not_after s,
         cmd_side = ord_side ord, cmd_order_style = ord_order_style ord,
         cmd_quantity = ord_requested_quantity ord, cmd_limit_price = ord_limit_price ord,
         cmd_time_in_force = osc_time_in_force s, cmd_trigger_price = ord_trigger_price ord,
         cmd_status = ''PENDING'', cmd_dispatch_attempted_at = None\<rparr>)"

section \<open>The order repository\<close>

definition order_duplicate :: "OrderRow list \<Rightarrow> OrderRow \<Rightarrow> bool" where
  "order_duplicate rows r =
     list_ex (\<lambda>x. ord_id x = ord_id r \<or> ord_order_intent_id x = ord_order_intent_id r
        \<or> (ord_account_id x = ord_account_id r
           \<and> ord_broker_client_order_id x = ord_broker_client_order_id r)) rows"

definition order_row_ok :: "OrderRow \<Rightarrow> bool" where
  "order_row_ok r \<longleftrightarrow> ord_aggregate_version r \<ge> 0 \<and> ord_requested_quantity r > 0 \<and> orow_filled_quantity r \<ge> 0"

definition order_terms_differ :: "OrderRow \<Rightarrow> OrderRow \<Rightarrow> bool" where
  "order_terms_differ x r \<longleftrightarrow>
     ord_risk_decision_id x \<noteq> ord_risk_decision_id r \<or> ord_account_id x \<noteq> ord_account_id r
     \<or> ord_instrument_id x \<noteq> ord_instrument_id r
     \<or> ord_broker_client_order_id x \<noteq> ord_broker_client_order_id r \<or> ord_side x \<noteq> ord_side r
     \<or> ord_order_style x \<noteq> ord_order_style r \<or> ord_requested_quantity x \<noteq> ord_requested_quantity r
     \<or> ord_limit_price x \<noteq> ord_limit_price r \<or> ord_trigger_price x \<noteq> ord_trigger_price r"

definition create_order_once :: "OrderRow list \<Rightarrow> OrderRow \<Rightarrow> (OrderRow list \<times> OrderRow) result" where
  "create_order_once rows r =
     (let rows' = (if \<not> order_duplicate rows r \<and> order_row_ok r then rows @ [r] else rows)
      in case next_where (\<lambda>x. ord_order_intent_id x = ord_order_intent_id r) rows' of
           None \<Rightarrow> Inl (RuntimeError ''inserted order cannot be read'')
         | Some existing \<Rightarrow>
             if order_terms_differ existing r
             then Inl (ValueError ''order intent identity payload collision'')
             else Inr (rows', existing))"

definition command_duplicate :: "CommandRow list \<Rightarrow> CommandRow \<Rightarrow> bool" where
  "command_duplicate rows r =
     list_ex (\<lambda>x. cmd_id x = cmd_id r
        \<or> (cmd_order_id x = cmd_order_id r \<and> cmd_command_sequence x = cmd_command_sequence r)
        \<or> cmd_idempotency_key x = cmd_idempotency_key r
        \<or> (cmd_order_id x = cmd_order_id r \<and> cmd_command_type x = SUBMIT \<and> cmd_command_type r = SUBMIT)) rows"

text \<open>\<^verbatim>\<open>create_command_once\<close>; a row that violates a check constraint raises, a duplicate key leaves
  the existing row.\<close>

definition create_command_once :: "CommandRow list \<Rightarrow> CommandRow \<Rightarrow> (CommandRow list \<times> CommandRow) result" where
  "create_command_once rows r =
     (if \<not> (cmd_quantity r > 0 \<and> cmd_target_aggregate_version r \<ge> 0
            \<and> cmd_authority_class r \<in> set (allowed_authorities (cmd_command_type r)))
      then Inl (RuntimeError ''check constraint violated'')
      else let rows' = (if command_duplicate rows r then rows else rows @ [r])
        in case get_by cmd_idempotency_key (cmd_idempotency_key r) rows' of
             None \<Rightarrow> Inl (RuntimeError ''inserted order command cannot be read'')
           | Some existing \<Rightarrow>
               if cmd_canonical_payload_hash existing \<noteq> cmd_canonical_payload_hash r
               then Inl (ValueError ''order command identity payload collision'')
               else Inr (rows', existing))"

definition create_event_once :: "OrderEventRow list \<Rightarrow> OrderEventRow \<Rightarrow> (OrderEventRow list \<times> OrderEventRow) result" where
  "create_event_once rows r =
     (let same = (\<lambda>x. ode_order_id x = ode_order_id r \<and> ode_aggregate_version x = ode_aggregate_version r);
          rows' = (if list_ex (\<lambda>x. oev_id x = oev_id r \<or> same x) rows then rows else rows @ [r])
      in case next_where same rows' of
           None \<Rightarrow> Inl (RuntimeError ''inserted order event cannot be read'')
         | Some existing \<Rightarrow>
             if ode_status existing \<noteq> ode_status r \<or> ode_raw_status existing \<noteq> ode_raw_status r
                \<or> ode_occurred_at existing \<noteq> ode_occurred_at r
             then Inl (ValueError ''order event identity payload collision'')
             else Inr (rows', existing))"

section \<open>The order store and the service\<close>

definition to_domain_order :: "OrderRow \<Rightarrow> Order result" where
  "to_domain_order r = validated (Order_checks (Order.truncate r)) (Order.truncate r)"

text \<open>The command row: the canonical command, not yet attempted.\<close>

definition command_row :: "BrokerOrderCommand \<Rightarrow> CommandRow" where
  "command_row c = BrokerOrderCommand.extend (c\<lparr>cmd_dispatch_attempted_at := None\<rparr>) \<lparr>crow_result_state = None\<rparr>"

text \<open>The submission context the store builds again from the command; \<^verbatim>\<open>command_id\<close> is not one of
  the fields it copies.\<close>

definition canonical_submission :: "BrokerOrderCommand \<Rightarrow> Order \<Rightarrow> OrderSubmissionContext" where
  "canonical_submission command canonical =
     \<lparr>osc_broker_client_order_id = cmd_broker_client_order_id command,
      osc_owner_runtime_instance_id = cmd_owner_runtime_instance_id command,
      osc_fencing_token = cmd_fencing_token command, osc_not_after = cmd_not_after command,
      osc_time_in_force = cmd_time_in_force command,
      osc_authority_class = cmd_authority_class command,
      osc_created_at = ord_created_at canonical, osc_command_id = None\<rparr>"

text \<open>\<^verbatim>\<open>create_approved_once\<close>. \<open>fresh_id\<close> is the identifier the factory
  draws, \<open>created_at\<close> the clock the outbox row reads.\<close>

definition create_approved_once ::
  "Digests \<Rightarrow> uuid \<Rightarrow> instant \<Rightarrow> ExecTables \<Rightarrow> Order \<Rightarrow> BrokerOrderCommand \<Rightarrow> IntentOrigin \<Rightarrow> OrderDomainEvent
    \<Rightarrow> EventEnvelope \<Rightarrow> (ExecTables \<times> Order) result" where
  "create_approved_once sha fresh_id created_at db ord command origin event envelope =
     and_then (create_order_once (et_orders db) (Order.extend ord \<lparr>orow_filled_quantity = 0\<rparr>)) (\<lambda>(orders, persisted).
     and_then (to_domain_order persisted) (\<lambda>canonical.
     and_then (validated (OrderSubmissionContext_checks (canonical_submission command canonical))
                (canonical_submission command canonical)) (\<lambda>s.
     and_then (command_create sha fresh_id canonical (cmd_command_type command) s origin None) (\<lambda>canonical_command.
       let authority = (ord_id canonical, cmd_authority_class canonical_command);
           authorities = (if authority \<in> set (et_authorities db) then et_authorities db
                          else et_authorities db @ [authority])
       in
     and_then (create_command_once (et_commands db) (command_row canonical_command)) (\<lambda>(commands, _).
     and_then (create_event_once (et_order_events db)
                (OrderDomainEvent.extend (event\<lparr>ode_order_id := ord_id canonical\<rparr>) \<lparr>oev_id = env_event_id envelope\<rparr>))
       (\<lambda>(events, persisted_event).
     and_then (enqueue_once (sha_envelope sha) (et_outbox db)
                (envelope\<lparr>env_event_id := oev_id persisted_event, env_aggregate_id := ord_id canonical,
                          env_aggregate_version := ode_aggregate_version persisted_event,
                          env_trace_id := uuid_hex (ord_id canonical)\<rparr>)
                (ode_occurred_at event) created_at) (\<lambda>outbox.
       Inr (db\<lparr>et_orders := orders, et_authorities := authorities, et_commands := commands,
              et_order_events := events, et_outbox := outbox\<rparr>, canonical))))))))"

text \<open>The identifiers a service call draws.\<close>

record FreshIds =
  fid_order :: uuid
  fid_command :: uuid
  fid_stored_command :: uuid
  fid_event :: uuid

text \<open>The order, its first event and the envelope a decision is turned into.\<close>

definition order_from_decision :: "FreshIds \<Rightarrow> RiskDecision \<Rightarrow> OrderIntent \<Rightarrow> OrderSubmissionContext \<Rightarrow> Order" where
  "order_from_decision ids decision intent s =
     \<lparr>ord_id = fid_order ids, ord_order_intent_id = rd_order_intent_id decision,
      ord_risk_decision_id = rd_id decision, ord_account_id = oi_account_id intent,
      ord_instrument_id = oi_instrument_id intent, ord_side = oi_side intent,
      ord_order_style = oi_order_style intent, ord_requested_quantity = rd_approved_quantity decision,
      ord_limit_price = (if oi_order_style intent = LIMIT then rd_approved_limit_price decision else None),
      ord_status = CREATED, ord_aggregate_version = 1,
      ord_broker_client_order_id = osc_broker_client_order_id s,
      ord_created_at = osc_created_at s, ord_trigger_price = oi_trigger_price intent\<rparr>"

definition created_event :: "Order \<Rightarrow> instant \<Rightarrow> OrderDomainEvent" where
  "created_event ord occurred_at =
     \<lparr>ode_order_id = ord_id ord, ode_aggregate_version = ord_aggregate_version ord,
      ode_status = CREATED, ode_raw_status = ''CREATED'', ode_occurred_at = occurred_at\<rparr>"

definition created_envelope :: "uuid \<Rightarrow> Order \<Rightarrow> uuid \<Rightarrow> instant \<Rightarrow> EventEnvelope" where
  "created_envelope event_id ord decision_id occurred_at =
     \<lparr>env_event_id = event_id, env_event_type = ''execution.order.created'', env_schema_version = 1,
      env_occurred_at = occurred_at, env_observed_at = occurred_at,
      env_producer = ''execution-order-service'', env_partition_key = uuid_str (ord_account_id ord),
      env_aggregate_type = ''Order'', env_aggregate_id = ord_id ord,
      env_aggregate_version = ord_aggregate_version ord, env_correlation_id = ord_order_intent_id ord,
      env_causation_id = Some decision_id, env_trace_id = uuid_hex (ord_id ord),
      env_payload = OrderCreatedPayload (uuid_str (ord_order_intent_id ord))
        (uuid_str (ord_risk_decision_id ord)) (status_value (ord_status ord)) (ord_requested_quantity ord)\<rparr>"

definition create_from_risk_decision ::
  "Digests \<Rightarrow> FreshIds \<Rightarrow> instant \<Rightarrow> ExecTables \<Rightarrow> RiskDecision \<Rightarrow> OrderIntent \<Rightarrow> OrderSubmissionContext
    \<Rightarrow> (ExecTables \<times> Order option) result" where
  "create_from_risk_decision sha ids clock db decision intent s =
     (if rd_outcome decision \<notin> {APPROVE, REDUCE} then Inr (db, None)
      else if (rd_outcome decision = REDUCE) \<noteq> (osc_authority_class s = STRICT_REDUCTION)
      then Inl (ValueError ''risk outcome and command authority must agree'')
      else if rd_order_intent_id decision \<noteq> oi_id intent
      then Inl (ValueError ''risk decision must belong to the order intent'')
      else
      and_then (validated (Order_checks (order_from_decision ids decision intent s))
                  (order_from_decision ids decision intent s)) (\<lambda>ord.
      and_then (command_create sha (fid_command ids) ord SUBMIT s (oi_origin intent) None) (\<lambda>command.
      and_then (make_envelope (created_envelope (fid_event ids) ord (rd_id decision) (osc_created_at s)))
        (\<lambda>envelope.
      and_then (create_approved_once sha (fid_stored_command ids) clock db ord command (oi_origin intent)
                  (created_event ord (osc_created_at s)) envelope)
        (\<lambda>(db', o'). Inr (db', Some o'))))))"

section \<open>Lemmas\<close>

lemma command_type_split:
  "command_type_lower a @ CHR '':'' # xs = command_type_lower b @ CHR '':'' # ys \<Longrightarrow> a = b \<and> xs = ys"
  by (cases a; cases b; simp)

lemma create_order_once_Inr:
  assumes "create_order_once rows r = Inr (rows', x)"
  shows "x \<in> set rows'" and "ord_order_intent_id x = ord_order_intent_id r" and "\<not> order_terms_differ x r"
    and "rows' = rows \<or> (rows' = rows @ [r] \<and> \<not> order_duplicate rows r)"
  using assms by (auto simp: create_order_once_def Let_def dest: next_where_Some split: option.splits if_splits)

lemma create_command_once_Inr:
  assumes "create_command_once rows r = Inr (rows', x)"
  shows "rows' = rows \<or> (rows' = rows @ [r] \<and> \<not> command_duplicate rows r)"
  using assms by (auto simp: create_command_once_def Let_def split: option.splits if_splits)

lemma command_create_Inr:
  assumes "command_create sha u ord ty s origin target = Inr c"
  shows "cmd_id c = (case osc_command_id s of None \<Rightarrow> u | Some v \<Rightarrow> v)"
    and "cmd_command_type c = ty" and "cmd_authority_class c = osc_authority_class s"
    and "osc_authority_class s \<in> set (allowed_authorities ty)"
    and "cmd_quantity c = ord_requested_quantity ord" and "cmd_side c = ord_side ord"
    and "cmd_order_id c = ord_id ord" and "cmd_account_id c = ord_account_id ord"
    and "cmd_limit_price c = ord_limit_price ord" and "cmd_trigger_price c = ord_trigger_price ord"
    and "cmd_broker_client_order_id c = osc_broker_client_order_id s"
    and "cmd_idempotency_key c = command_identity (ord_id ord) ty (ord_aggregate_version ord)"
    and "cmd_fencing_token c = osc_fencing_token s" and "cmd_not_after c = osc_not_after s"
    and "cmd_owner_runtime_instance_id c = osc_owner_runtime_instance_id s"
    and "cmd_time_in_force c = osc_time_in_force s"
  using assms by (auto simp: command_create_def Let_def split: if_splits)

lemma create_approved_once_Inr:
  assumes "create_approved_once sha u clock db ord command origin event envelope = Inr (db', canonical)"
  obtains persisted c where
    "create_order_once (et_orders db) (Order.extend ord \<lparr>orow_filled_quantity = 0\<rparr>) = Inr (et_orders db', persisted)"
    "canonical = Order.truncate persisted" "wf_order canonical"
    "cmd_id c = u" "cmd_command_type c = cmd_command_type command"
    "cmd_authority_class c = cmd_authority_class command"
    "cmd_quantity c = ord_requested_quantity canonical" "cmd_side c = ord_side canonical"
    "cmd_order_id c = ord_id canonical"
    "cmd_broker_client_order_id c = cmd_broker_client_order_id command"
    "et_commands db' = et_commands db \<or>
       (et_commands db' = et_commands db @ [command_row c] \<and> \<not> command_duplicate (et_commands db) (command_row c))"
proof -
  from assms obtain orders persisted c commands x where
    o: "create_order_once (et_orders db) (Order.extend ord \<lparr>orow_filled_quantity = 0\<rparr>) = Inr (orders, persisted)"
    and d: "to_domain_order persisted = Inr canonical"
    and c: "command_create sha u canonical (cmd_command_type command)
              (canonical_submission command canonical) origin None = Inr c"
    and cc: "create_command_once (et_commands db) (command_row c) = Inr (commands, x)"
    and r: "et_orders db' = orders" "et_commands db' = commands"
    by (auto simp: create_approved_once_def Let_def and_then_eq_Inr_iff checks_simps)
  note cf = command_create_Inr [OF c]
  show thesis
    using o d cf create_command_once_Inr [OF cc] r
    by (intro that [of persisted c])
       (auto simp: to_domain_order_def checks_simps wf_order_def canonical_submission_def)
qed

lemma create_from_risk_decision_Inr:
  assumes "create_from_risk_decision sha ids clock db d i s = Inr (db', Some ord')"
  obtains command event envelope where
    "rd_outcome d \<in> {APPROVE, REDUCE}" "rd_outcome d = REDUCE \<longleftrightarrow> osc_authority_class s = STRICT_REDUCTION"
    "rd_order_intent_id d = oi_id i"
    "create_approved_once sha (fid_stored_command ids) clock db (order_from_decision ids d i s) command
       (oi_origin i) event envelope = Inr (db', ord')"
    "cmd_command_type command = SUBMIT" "cmd_authority_class command = osc_authority_class s"
    "osc_authority_class s \<in> {NEW_EXPOSURE, STRICT_REDUCTION}"
    "cmd_broker_client_order_id command = osc_broker_client_order_id s"
proof -
  from assms obtain command envelope where
    g: "rd_outcome d \<in> {APPROVE, REDUCE}" "rd_outcome d = REDUCE \<longleftrightarrow> osc_authority_class s = STRICT_REDUCTION"
      "rd_order_intent_id d = oi_id i"
    and c: "command_create sha (fid_command ids) (order_from_decision ids d i s) SUBMIT s (oi_origin i) None = Inr command"
    and a: "create_approved_once sha (fid_stored_command ids) clock db (order_from_decision ids d i s) command
       (oi_origin i) (created_event (order_from_decision ids d i s) (osc_created_at s)) envelope = Inr (db', ord')"
    by (auto simp: create_from_risk_decision_def and_then_eq_Inr_iff checks_simps split: if_splits)
  show thesis using command_create_Inr [OF c] g a by (intro that [of command _ envelope]) auto
qed

lemma order_from_decision_simps [simp]:
  "ord_order_intent_id (order_from_decision ids d i s) = rd_order_intent_id d"
  "ord_requested_quantity (order_from_decision ids d i s) = rd_approved_quantity d"
  "ord_side (order_from_decision ids d i s) = oi_side i"
  "ord_account_id (order_from_decision ids d i s) = oi_account_id i"
  by (simp_all add: order_from_decision_def)

lemma truncate_Order_simps [simp]:
  "ord_id (Order.truncate r) = ord_id r" "ord_order_intent_id (Order.truncate r) = ord_order_intent_id r"
  "ord_requested_quantity (Order.truncate r) = ord_requested_quantity r"
  "ord_side (Order.truncate r) = ord_side r" "ord_account_id (Order.truncate r) = ord_account_id r"
  by (simp_all add: Order.truncate_def)

lemma extend_Order_simps [simp]:
  "ord_id (Order.extend x m) = ord_id x" "ord_order_intent_id (Order.extend x m) = ord_order_intent_id x"
  "ord_requested_quantity (Order.extend x m) = ord_requested_quantity x"
  "ord_side (Order.extend x m) = ord_side x" "ord_account_id (Order.extend x m) = ord_account_id x"
  "ord_risk_decision_id (Order.extend x m) = ord_risk_decision_id x"
  by (simp_all add: Order.extend_def)

lemma command_row_simps [simp]:
  "cmd_id (command_row c) = cmd_id c" "cmd_order_id (command_row c) = cmd_order_id c"
  "cmd_command_type (command_row c) = cmd_command_type c"
  "cmd_authority_class (command_row c) = cmd_authority_class c"
  "cmd_quantity (command_row c) = cmd_quantity c" "cmd_side (command_row c) = cmd_side c"
  "cmd_broker_client_order_id (command_row c) = cmd_broker_client_order_id c"
  "cmd_dispatch_attempted_at (command_row c) = None" "crow_result_state (command_row c) = None"
  by (simp_all add: command_row_def BrokerOrderCommand.extend_def)

text \<open>What a new command of the store is, whatever was stored before.\<close>

lemma new_command:
  assumes c: "create_from_risk_decision sha ids clock db d i s = Inr (db', Some ord')"
    and new: "cr \<in> set (et_commands db')" "cr \<notin> set (et_commands db)"
  shows "cmd_command_type cr = SUBMIT" and "cmd_quantity cr = rd_approved_quantity d"
    and "cmd_side cr = oi_side i" and "cmd_id cr = fid_stored_command ids"
    and "cmd_authority_class cr = (if rd_outcome d = REDUCE then STRICT_REDUCTION else NEW_EXPOSURE)"
    and "cmd_order_id cr = ord_id ord'" and "cmd_dispatch_attempted_at cr = None"
    and "cmd_broker_client_order_id cr = osc_broker_client_order_id s"
proof -
  let ?ord = "order_from_decision ids d i s"
  from create_from_risk_decision_Inr [OF c] obtain command event envelope where
    a: "create_approved_once sha (fid_stored_command ids) clock db ?ord command (oi_origin i) event envelope
       = Inr (db', ord')"
    and f: "cmd_command_type command = SUBMIT" "cmd_authority_class command = osc_authority_class s"
      "osc_authority_class s \<in> {NEW_EXPOSURE, STRICT_REDUCTION}"
      "rd_outcome d = REDUCE \<longleftrightarrow> osc_authority_class s = STRICT_REDUCTION"
      "cmd_broker_client_order_id command = osc_broker_client_order_id s" by metis
  from create_approved_once_Inr [OF a] obtain persisted k where
    p: "create_order_once (et_orders db) (Order.extend ?ord \<lparr>orow_filled_quantity = 0\<rparr>) = Inr (et_orders db', persisted)"
    and k: "ord' = Order.truncate persisted" "cmd_id k = fid_stored_command ids"
      "cmd_command_type k = cmd_command_type command" "cmd_authority_class k = cmd_authority_class command"
      "cmd_quantity k = ord_requested_quantity ord'" "cmd_side k = ord_side ord'"
      "cmd_order_id k = ord_id ord'" "cmd_broker_client_order_id k = cmd_broker_client_order_id command"
      "et_commands db' = et_commands db \<or> et_commands db' = et_commands db @ [command_row k]" by metis
  have "cr = command_row k" using k(9) new by auto
  moreover have "ord_requested_quantity persisted = rd_approved_quantity d" "ord_side persisted = oi_side i"
    using create_order_once_Inr(3) [OF p] by (auto simp: order_terms_differ_def)
  ultimately show "cmd_command_type cr = SUBMIT" "cmd_quantity cr = rd_approved_quantity d"
    "cmd_side cr = oi_side i" "cmd_id cr = fid_stored_command ids"
    "cmd_authority_class cr = (if rd_outcome d = REDUCE then STRICT_REDUCTION else NEW_EXPOSURE)"
    "cmd_order_id cr = ord_id ord'" "cmd_dispatch_attempted_at cr = None"
    "cmd_broker_client_order_id cr = osc_broker_client_order_id s"
    using f k by auto
qed

text \<open>One order per intent and one submit command per order.\<close>

definition orders_inv :: "ExecTables \<Rightarrow> bool" where
  "orders_inv db \<longleftrightarrow>
     distinct (map ord_id (et_orders db)) \<and> distinct (map ord_order_intent_id (et_orders db))
     \<and> distinct (map cmd_id (et_commands db)) \<and> distinct (map cmd_idempotency_key (et_commands db))
     \<and> distinct (map cmd_order_id (filter (\<lambda>c. cmd_command_type c = SUBMIT) (et_commands db)))"

lemma orders_inv_create:
  assumes inv: "orders_inv db"
    and a: "create_approved_once sha u clock db ord command origin event envelope = Inr (db', ord')"
  shows "orders_inv db'"
proof -
  from create_approved_once_Inr [OF a] obtain persisted k where
    p: "create_order_once (et_orders db) (Order.extend ord \<lparr>orow_filled_quantity = 0\<rparr>) = Inr (et_orders db', persisted)"
    and k: "et_commands db' = et_commands db \<or>
       (et_commands db' = et_commands db @ [command_row k] \<and> \<not> command_duplicate (et_commands db) (command_row k))"
    by metis
  let ?sub = "\<lambda>rows. filter (\<lambda>c. cmd_command_type c = SUBMIT) rows"
  have orders: "distinct (map ord_id (et_orders db')) \<and> distinct (map ord_order_intent_id (et_orders db'))"
    using create_order_once_Inr(4) [OF p] inv
    by (elim disjE conjE)
       (simp_all add: orders_inv_def order_duplicate_def list_ex_iff distinct_map_snoc del: map_append)
  have "distinct (map cmd_id (et_commands db')) \<and> distinct (map cmd_idempotency_key (et_commands db'))
      \<and> distinct (map cmd_order_id (?sub (et_commands db')))"
    using k inv
    by (elim disjE conjE)
       (simp_all add: orders_inv_def command_duplicate_def list_ex_iff distinct_map_snoc del: map_append,
        blast)
  with orders show ?thesis by (simp add: orders_inv_def)
qed

lemma create_from_risk_decision_inv:
  assumes "orders_inv db" "create_from_risk_decision sha ids clock db d i s = Inr (db', result)"
  shows "orders_inv db'"
  using assms orders_inv_create
  by (auto simp: create_from_risk_decision_def Let_def and_then_eq_Inr_iff split: if_splits)

interpretation order_store: transition_system
  "\<lambda>db (sha, ids, clock, d, i, s). case create_from_risk_decision sha ids clock db d i s of
     Inl _ \<Rightarrow> None | Inr (db', _) \<Rightarrow> Some db'" orders_inv
  by unfold_locales (auto split: sum.splits dest: create_from_risk_decision_inv)

text \<open>The client order id a Binance order is placed under (\<^verbatim>\<open>binance_usdm/orders.py\<close>).\<close>

definition binance_normal_client_order_id :: "uuid \<Rightarrow> string" where
  "binance_normal_client_order_id command_id = ''v6-'' @ uuid_hex command_id"

section \<open>Properties\<close>

text \<open>C34: a risk decision becomes an order with exactly the authority and the size it grants: a
  rejected decision creates nothing, a new command is a submit of the approved quantity on the
  intent's side, an approval carries the authority that opens exposure and a reduction only the one
  that closes it, and no command that is not yet attempted is marked as sent.\<close>

theorem order_carries_granted_authority:
  assumes "create_from_risk_decision sha ids clock db d i s = Inr (db', result)"
  shows "(result = None \<longrightarrow> db' = db \<and> rd_outcome d \<in> {REJECT, OBSERVED_BLOCKING})
    \<and> (\<forall>o'. result = Some o' \<longrightarrow>
        wf_order o' \<and> ord_order_intent_id o' = oi_id i \<and> ord_requested_quantity o' = rd_approved_quantity d
        \<and> ord_side o' = oi_side i \<and> ord_account_id o' = oi_account_id i
        \<and> (\<forall>cr \<in> set (et_commands db') - set (et_commands db).
             cmd_order_id cr = ord_id o' \<and> cmd_command_type cr = SUBMIT
             \<and> cmd_quantity cr = rd_approved_quantity d \<and> cmd_side cr = oi_side i
             \<and> cmd_authority_class cr = (if rd_outcome d = REDUCE then STRICT_REDUCTION else NEW_EXPOSURE)
             \<and> cmd_dispatch_attempted_at cr = None))"
proof (cases result)
  case None
  with assms show ?thesis
    by (cases "rd_outcome d")
       (auto simp: create_from_risk_decision_def Let_def and_then_eq_Inr_iff split: if_splits)
next
  case (Some o')
  note c = assms [unfolded Some]
  let ?ord = "order_from_decision ids d i s"
  from create_from_risk_decision_Inr [OF c] obtain command event envelope where
    a: "create_approved_once sha (fid_stored_command ids) clock db ?ord command (oi_origin i) event envelope = Inr (db', o')"
    and f: "rd_order_intent_id d = oi_id i" by metis
  from create_approved_once_Inr [OF a] obtain persisted where
    p: "create_order_once (et_orders db) (Order.extend ?ord \<lparr>orow_filled_quantity = 0\<rparr>) = Inr (et_orders db', persisted)"
      "o' = Order.truncate persisted" "wf_order o'" by metis
  have "ord_order_intent_id o' = oi_id i \<and> ord_requested_quantity o' = rd_approved_quantity d
      \<and> ord_side o' = oi_side i \<and> ord_account_id o' = oi_account_id i"
    using create_order_once_Inr [OF p(1)] f p(2) by (auto simp: order_terms_differ_def)
  with p(3) new_command [OF c] Some show ?thesis by auto
qed

text \<open>C31: one intent never becomes two orders, and one order never gets two submit commands, however
  often and in whatever order the service is called.\<close>

theorem one_order_per_intent:
  assumes "orders_inv db"
  shows "orders_inv (run_steps
     (\<lambda>db (sha, ids, clock, d, i, s). case create_from_risk_decision sha ids clock db d i s of
        Inl _ \<Rightarrow> None | Inr (db', _) \<Rightarrow> Some db') db calls)"
  by (rule order_store.run_inv [OF assms])

text \<open>The idempotency key of a command identifies the order, the kind of command and the version
  it targets.\<close>

theorem command_key_identifies_command:
  assumes "0 \<le> v" "0 \<le> w"
  shows "command_identity u a v = command_identity x b w \<longleftrightarrow> (u, a, v) = (x, b, w)"
proof
  assume "command_identity u a v = command_identity x b w"
  then have "uuid_hex u = uuid_hex x" and "command_type_lower a @ CHR '':'' # int_str v = command_type_lower b @ CHR '':'' # int_str w"
    by (simp_all add: command_identity_def append_eq_append_conv)
  then show "(u, a, v) = (x, b, w)"
    using assms command_type_split [of a "int_str v" b "int_str w"]
    by (auto simp: uuid_hex_inj int_str_def dest: nat_str_inj)
qed simp

text \<open>The stored command does not keep the identifier the submission chose. For a submission
  whose client order id names its command, as the Binance adapter requires, the stored command's
  client order id names a command that was never stored, unless the two random identifiers agree.\<close>

theorem stored_command_loses_chosen_identity:
  assumes "create_from_risk_decision sha ids clock db d i s = Inr (db', Some o')"
    and "osc_command_id s = Some u" and "osc_broker_client_order_id s = binance_normal_client_order_id u"
    and "fid_stored_command ids \<noteq> u"
  shows "\<forall>cr \<in> set (et_commands db') - set (et_commands db).
     cmd_broker_client_order_id cr \<noteq> binance_normal_client_order_id (cmd_id cr)"
  using new_command(4,8) [OF assms(1)] assms(2-4)
  by (auto simp: binance_normal_client_order_id_def uuid_hex_inj)

section \<open>Witnesses\<close>

text \<open>Version 7 identifiers for the examples.\<close>

definition v7 :: "uuid \<Rightarrow> uuid" where
  "v7 n = 0x01980000000070008000000000000000 + n"

definition sample_digests :: Digests where
  "sample_digests = \<lparr>sha_command = (\<lambda>_. []), sha_envelope = (\<lambda>_. [])\<rparr>"

definition sample_ids :: FreshIds where
  "sample_ids = \<lparr>fid_order = v7 11, fid_command = v7 12, fid_stored_command = v7 13, fid_event = v7 14\<rparr>"

definition sample_submission :: OrderSubmissionContext where
  "sample_submission =
     \<lparr>osc_broker_client_order_id = binance_normal_client_order_id (v7 15),
      osc_owner_runtime_instance_id = Some (v7 1), osc_fencing_token = 1, osc_not_after = 1000,
      osc_time_in_force = ''NONE'', osc_authority_class = NEW_EXPOSURE, osc_created_at = 0,
      osc_command_id = Some (v7 15)\<rparr>"

definition sample_v7_decision :: RiskDecision where
  "sample_v7_decision = sample_decision\<lparr>rd_id := v7 2, rd_order_intent_id := v7 3\<rparr>"

definition sample_v7_intent :: OrderIntent where
  "sample_v7_intent = sample_buy\<lparr>oi_id := v7 3\<rparr>"

definition created_sample :: "(ExecTables \<times> Order option) result" where
  "created_sample = create_from_risk_decision sample_digests sample_ids 0 empty_tables
     sample_v7_decision sample_v7_intent sample_submission"

lemma v7_versions [simp]:
  "uuid_version (v7 2) = Some 7" "uuid_version (v7 3) = Some 7" "uuid_version (v7 11) = Some 7"
  "uuid_version (v7 14) = Some 7"
  by code_simp+

lemma uuid_text_nonempty [simp]: "uuid_hex u \<noteq> []" "uuid_str u \<noteq> []"
  using length_uuid_hex [of u] by (auto simp: uuid_str_def Let_def simp del: length_uuid_hex)

lemmas sample_order_defs = created_sample_def create_from_risk_decision_def sample_v7_decision_def
  sample_decision_def sample_v7_intent_def sample_buy_def sample_submission_def sample_ids_def
  sample_digests_def empty_tables_def order_from_decision_def validated_def Order_checks_def
  limit_price_checks_def trigger_price_checks_def command_create_def NEW_EXPOSURE_def STRICT_REDUCTION_def
  make_envelope_def envelope_ok_def created_envelope_def create_approved_once_def create_order_once_def
  order_duplicate_def order_row_ok_def next_where_def order_terms_differ_def to_domain_order_def
  canonical_submission_def OrderSubmissionContext_checks_def create_command_once_def command_duplicate_def
  create_event_once_def enqueue_once_def outbox_duplicate_def find_outbox_def outbox_row_def created_event_def
  get_by_def command_row_def Let_def
  Order.defs BrokerOrderCommand.defs OrderDomainEvent.defs

lemma created_sample_Inr:
  "\<exists>db' o'. created_sample = Inr (db', Some o')
     \<and> cmd_broker_client_order_id ` (set (et_commands db') - set (et_commands empty_tables)) \<noteq> {}"
proof -
  have "isascii (binance_normal_client_order_id (v7 15))" "binance_normal_client_order_id (v7 15) \<noteq> []"
    by code_simp+
  then show ?thesis by (simp add: sample_order_defs)
qed

theorem order_carries_granted_authority_witness:
  "\<exists>db' o'. create_from_risk_decision sample_digests sample_ids 0 empty_tables sample_v7_decision
       sample_v7_intent sample_submission = Inr (db', Some o')
     \<and> ord_requested_quantity o' = 1 \<and> wf_order o'"
proof -
  obtain db' o' where c: "create_from_risk_decision sample_digests sample_ids 0 empty_tables sample_v7_decision
       sample_v7_intent sample_submission = Inr (db', Some o')"
    using created_sample_Inr unfolding created_sample_def by blast
  with order_carries_granted_authority [OF c] show ?thesis
    by (auto simp: sample_v7_decision_def sample_decision_def)
qed

theorem one_order_per_intent_witness:
  "orders_inv (run_steps
     (\<lambda>db (sha, ids, clock, d, i, s). case create_from_risk_decision sha ids clock db d i s of
        Inl _ \<Rightarrow> None | Inr (db', _) \<Rightarrow> Some db') empty_tables
     [(sample_digests, sample_ids, 0, sample_v7_decision, sample_v7_intent, sample_submission),
      (sample_digests, sample_ids, 0, sample_v7_decision, sample_v7_intent, sample_submission)])"
  by (rule one_order_per_intent) (simp add: orders_inv_def empty_tables_def)

theorem command_key_identifies_command_witness:
  "command_identity 1 SUBMIT 1 \<noteq> command_identity 1 SUBMIT 11"
  using command_key_identifies_command [of 1 11 1 SUBMIT 1 SUBMIT] by simp

theorem stored_command_loses_chosen_identity_witness:
  "\<exists>db' o'. create_from_risk_decision sample_digests sample_ids 0 empty_tables sample_v7_decision
       sample_v7_intent sample_submission = Inr (db', Some o')
     \<and> (\<exists>cr \<in> set (et_commands db').
          cmd_broker_client_order_id cr \<noteq> binance_normal_client_order_id (cmd_id cr))"
proof -
  obtain db' o' where c: "create_from_risk_decision sample_digests sample_ids 0 empty_tables sample_v7_decision
       sample_v7_intent sample_submission = Inr (db', Some o')"
    and n: "cmd_broker_client_order_id ` (set (et_commands db') - set (et_commands empty_tables)) \<noteq> {}"
    using created_sample_Inr unfolding created_sample_def by blast
  have "\<forall>cr \<in> set (et_commands db') - set (et_commands empty_tables).
     cmd_broker_client_order_id cr \<noteq> binance_normal_client_order_id (cmd_id cr)"
    by (rule stored_command_loses_chosen_identity [OF c])
       (simp_all add: sample_submission_def sample_ids_def, code_simp)
  with c n show ?thesis by blast
qed

end
