(* ===== verification/Controls.thy ===== *)
theory Controls
  imports Orders
begin

text \<open>
  \<^verbatim>\<open>execution/controls/\<close> and \<^verbatim>\<open>execution/dispatch/authorization.py\<close>: the submission gate over
  the runtime and the dispatch authorization over one locked database state. Shown here: what an
  allowed decision implies for each kind of command.
\<close>

section \<open>Models\<close>

datatype KillSwitchLevel = NO_KILL_SWITCH | BLOCK_NEW_EXPOSURE | EMERGENCY

datatype ExposureEffect = INCREASE | REDUCE_EXPOSURE | FLAT | FLIP | READ_ONLY | UNKNOWN_EFFECT

datatype GateAction = GATE_SUBMIT | GATE_CANCEL | GATE_REPLACE

record ArmLease =
  al_owner_runtime_instance_id :: uuid
  al_acquired_at :: instant
  al_expires_at :: instant
  al_fencing_token :: int
  al_row_version :: int

record GateDecision =
  gd_allowed :: bool
  gd_reason_codes :: "string list"

record SubmissionContext =
  sub_now :: instant
  sub_action :: GateAction
  sub_runtime_mode :: RuntimeMode
  sub_allow_live :: bool
  sub_account_environment :: RuntimeMode
  sub_local_runtime_instance_id :: uuid
  sub_locally_armed :: bool
  sub_arm_lease :: "ArmLease option"
  sub_database_writable :: bool
  sub_market_data_fresh :: bool
  sub_active_kill_switch :: bool
  sub_blocking_incident_count :: int
  sub_unresolved_unknown_count :: int
  sub_blocking_reconciliation_count :: int
  sub_exposure_effect :: ExposureEffect

section \<open>The submission gate\<close>

text \<open>\<^verbatim>\<open>if c: reasons.append(r)\<close>\<close>

definition reason_if :: "bool \<Rightarrow> string \<Rightarrow> string list" where
  "reason_if c r = (if c then [r] else [])"

definition authority_failures :: "SubmissionContext \<Rightarrow> string list" where
  "authority_failures c =
     reason_if (\<not> sub_database_writable c) ''DATABASE_UNWRITABLE''
     @ (case sub_arm_lease c of
          None \<Rightarrow> [''ARM_LEASE_MISSING'']
        | Some l \<Rightarrow>
            reason_if (al_expires_at l \<le> sub_now c) ''ARM_LEASE_EXPIRED''
            @ reason_if (al_owner_runtime_instance_id l \<noteq> sub_local_runtime_instance_id c)
                ''ARM_LEASE_NOT_OWNED''
            @ reason_if (al_acquired_at l > sub_now c \<or> al_fencing_token l \<le> 0 \<or> al_row_version l \<le> 0)
                ''ARM_LEASE_INVALID'')"

definition count_failures :: "int \<Rightarrow> string \<Rightarrow> string \<Rightarrow> string list" where
  "count_failures n invalid active = (if n < 0 then [invalid] else if n > 0 then [active] else [])"

definition increase_failures :: "SubmissionContext \<Rightarrow> string list" where
  "increase_failures c =
     reason_if (\<not> sub_locally_armed c) ''LOCAL_DISARMED''
     @ (case sub_runtime_mode c of
          LIVE_MODE \<Rightarrow>
            reason_if (\<not> sub_allow_live c) ''LIVE_NOT_ALLOWED''
            @ reason_if (sub_account_environment c \<noteq> LIVE_MODE) ''ACCOUNT_ENVIRONMENT_MISMATCH''
        | PAPER_MODE \<Rightarrow>
            reason_if (sub_account_environment c \<noteq> PAPER_MODE) ''ACCOUNT_ENVIRONMENT_MISMATCH''
        | SHADOW_MODE \<Rightarrow> [''RUNTIME_MODE_DENIED''])
     @ reason_if (\<not> sub_market_data_fresh c) ''MARKET_DATA_STALE''
     @ reason_if (sub_active_kill_switch c) ''KILL_SWITCH_ACTIVE''
     @ count_failures (sub_blocking_incident_count c)
         ''BLOCKING_INCIDENT_STATE_INVALID'' ''BLOCKING_INCIDENT_ACTIVE''
     @ count_failures (sub_unresolved_unknown_count c) ''UNKNOWN_ORDER_STATE_INVALID'' ''UNKNOWN_ORDER_ACTIVE''
     @ count_failures (sub_blocking_reconciliation_count c)
         ''RECONCILIATION_STATE_INVALID'' ''RECONCILIATION_BLOCKING''
     @ (if sub_exposure_effect c = UNKNOWN_EFFECT then [''EXPOSURE_EFFECT_UNKNOWN'']
        else reason_if (sub_exposure_effect c \<noteq> INCREASE) ''EXPOSURE_EFFECT_NOT_ALLOWED'')"

definition gate_evaluate :: "SubmissionContext \<Rightarrow> GateDecision" where
  "gate_evaluate c =
     (let reasons = authority_failures c in
      if reasons \<noteq> [] then \<lparr>gd_allowed = False, gd_reason_codes = reasons\<rparr>
      else if sub_action c = GATE_CANCEL \<and> sub_exposure_effect c = REDUCE_EXPOSURE
      then \<lparr>gd_allowed = True, gd_reason_codes = []\<rparr>
      else let reasons = reasons @ increase_failures c
           in \<lparr>gd_allowed = (reasons = []), gd_reason_codes = reasons\<rparr>)"

section \<open>Dispatch authorization\<close>

record DispatchAuthorizationState =
  das_now :: instant
  das_not_after :: instant
  das_attempt_recorded :: bool
  das_command_owner :: "uuid option"
  das_command_fencing_token :: int
  das_lease_owner :: "uuid option"
  das_lease_fencing_token :: "int option"
  das_lease_expires_at :: "instant option"
  das_control_owner :: "uuid option"
  das_control_fencing_token :: "int option"
  das_control_expires_at :: "instant option"
  das_control_armed :: bool
  das_kill_switch_active :: bool
  das_blocking_incident_count :: int
  das_unresolved_unknown_count :: int
  das_strict_reduction_proven :: bool
  das_cancel_authorized :: bool

definition denied :: "string \<Rightarrow> GateDecision" where
  "denied r = \<lparr>gd_allowed = False, gd_reason_codes = [r]\<rparr>"

definition allowed :: GateDecision where
  "allowed = \<lparr>gd_allowed = True, gd_reason_codes = []\<rparr>"

definition decide_dispatch :: "DispatchAuthorizationState \<Rightarrow> GateDecision" where
  "decide_dispatch s =
     (if das_attempt_recorded s then denied ''DISPATCH_ALREADY_ATTEMPTED''
      else if das_now s \<ge> das_not_after s then denied ''COMMAND_EXPIRED''
      else case (das_lease_owner s, das_lease_expires_at s, das_lease_fencing_token s) of
        (Some lease_owner, Some lease_expires_at, Some lease_token) \<Rightarrow>
          if lease_expires_at \<le> das_now s then denied ''EXECUTION_LEASE_EXPIRED''
          else if Some lease_owner \<noteq> das_command_owner s then denied ''LEASE_OWNER_MISMATCH''
          else if lease_token \<noteq> das_command_fencing_token s then denied ''LEASE_FENCING_MISMATCH''
          else if das_cancel_authorized s then allowed
          else if das_strict_reduction_proven s then allowed
          else (case (das_control_owner s, das_control_expires_at s, das_control_fencing_token s) of
            (Some control_owner, Some control_expires_at, Some control_token) \<Rightarrow>
              if control_expires_at \<le> das_now s then denied ''ARM_CONTROL_EXPIRED''
              else if Some control_owner \<noteq> das_command_owner s then denied ''ARM_CONTROL_OWNER_MISMATCH''
              else if control_token \<noteq> das_command_fencing_token s then denied ''ARM_CONTROL_FENCING_MISMATCH''
              else if \<not> das_control_armed s then denied ''GLOBAL_DISARMED''
              else if das_kill_switch_active s then denied ''KILL_SWITCH_ACTIVE''
              else if das_blocking_incident_count s \<noteq> 0 then denied ''BLOCKING_INCIDENT_ACTIVE''
              else if das_unresolved_unknown_count s \<noteq> 0 then denied ''UNKNOWN_ORDER_ACTIVE''
              else allowed
          | _ \<Rightarrow> denied ''ARM_CONTROL_MISSING'')
      | _ \<Rightarrow> denied ''EXECUTION_LEASE_MISSING'')"

section \<open>What an allowed decision implies\<close>

lemma reason_if_Nil [simp]: "reason_if c r = [] \<longleftrightarrow> \<not> c"
  by (simp add: reason_if_def)

lemma count_failures_Nil [simp]: "count_failures n a b = [] \<longleftrightarrow> n = 0"
  by (auto simp: count_failures_def)

lemma authority_failures_Nil:
  "authority_failures c = [] \<longleftrightarrow>
     sub_database_writable c
     \<and> (\<exists>l. sub_arm_lease c = Some l \<and> sub_now c < al_expires_at l
          \<and> al_owner_runtime_instance_id l = sub_local_runtime_instance_id c
          \<and> al_acquired_at l \<le> sub_now c \<and> 0 < al_fencing_token l \<and> 0 < al_row_version l)"
  by (auto simp: authority_failures_def not_le not_less split: option.splits)

lemma increase_failures_Nil:
  "increase_failures c = [] \<longleftrightarrow>
     sub_locally_armed c
     \<and> (sub_runtime_mode c = LIVE_MODE \<and> sub_allow_live c \<or> sub_runtime_mode c = PAPER_MODE)
     \<and> sub_account_environment c = sub_runtime_mode c
     \<and> sub_market_data_fresh c \<and> \<not> sub_active_kill_switch c
     \<and> sub_blocking_incident_count c = 0 \<and> sub_unresolved_unknown_count c = 0
     \<and> sub_blocking_reconciliation_count c = 0 \<and> sub_exposure_effect c = INCREASE"
  by (auto simp: increase_failures_def split: RuntimeMode.splits)

lemma gate_allowed_iff:
  "gd_allowed (gate_evaluate c) \<longleftrightarrow>
     authority_failures c = []
     \<and> (sub_action c = GATE_CANCEL \<and> sub_exposure_effect c = REDUCE_EXPOSURE \<or> increase_failures c = [])"
  by (auto simp: gate_evaluate_def Let_def)

lemma decide_dispatch_allowed:
  assumes "gd_allowed (decide_dispatch s)"
  shows "\<not> das_attempt_recorded s" and "das_now s < das_not_after s"
    and "das_lease_owner s \<noteq> None" and "das_lease_owner s = das_command_owner s"
    and "das_lease_fencing_token s = Some (das_command_fencing_token s)"
    and "\<exists>t. das_lease_expires_at s = Some t \<and> das_now s < t"
    and "das_cancel_authorized s \<or> das_strict_reduction_proven s \<or>
         das_control_owner s = das_command_owner s
         \<and> das_control_fencing_token s = Some (das_command_fencing_token s)
         \<and> (\<exists>t. das_control_expires_at s = Some t \<and> das_now s < t)
         \<and> das_control_armed s \<and> \<not> das_kill_switch_active s \<and> das_blocking_incident_count s = 0
         \<and> das_unresolved_unknown_count s = 0"
  using assms
  by (auto simp: decide_dispatch_def denied_def split: if_splits option.splits)

end
