(* ===== verification/Dispatch.thy ===== *)
theory Dispatch
  imports OrderService Controls
begin

text \<open>
  \<^verbatim>\<open>execution/dispatch/service.py\<close> over \<^verbatim>\<open>persistence/mysql/dispatch_store.py\<close>: the boundary at
  which a command reaches the broker. The service takes its store as an argument, as the code does,
  so the contract of the store is a locale in which the service's guarantees are proved once, and the
  MySQL store is shown to keep it. Its callers open a session for one dispatch and commit it when the
  dispatch returns, so a dispatch that raises leaves the tables as they were. The broker is outside the
  sources: a parameter that answers with a receipt, a rejection, an error or an interruption. Shown here:
  once a dispatch that wrote a command has returned, no later one writes it; a command is sent only
  under a lease and an armed control; an accepted result is never overwritten; and a dispatch that
  returns has recorded the result of what it sent.
\<close>

section \<open>The dispatch service\<close>

text \<open>What a broker call ends with. An interruption (cancellation, keyboard interrupt or exit) says
  whether the shielded write of UNKNOWN completed before the command's deadline.\<close>

datatype BrokerOutcome =
    Receipt string
  | SubmissionRejected
  | BrokerError
  | Interrupted bool

record 's DispatchStore =
  ds_authorize_and_record_attempt :: "'s \<Rightarrow> uuid \<Rightarrow> instant \<Rightarrow> 's \<times> BrokerOrderCommand option result"
  ds_record_unknown :: "'s \<Rightarrow> uuid \<Rightarrow> instant \<Rightarrow> 's \<times> unit result"
  ds_record_accepted :: "'s \<Rightarrow> uuid \<Rightarrow> string \<Rightarrow> instant \<Rightarrow> 's \<times> unit result"
  ds_record_rejected :: "'s \<Rightarrow> uuid \<Rightarrow> instant \<Rightarrow> 's \<times> unit result"
  ds_record_recovery_attempt :: "'s \<Rightarrow> uuid \<Rightarrow> instant \<Rightarrow> 's \<times> unit result"
  ds_command_for_recovery :: "'s \<Rightarrow> uuid \<Rightarrow> BrokerOrderCommand result"
  ds_recoverable_command :: "'s \<Rightarrow> uuid \<Rightarrow> BrokerOrderCommand option result"

record Broker =
  br_write :: "BrokerOrderCommand \<Rightarrow> BrokerOutcome"
  br_recover_submit :: "BrokerOrderCommand \<Rightarrow> instant \<Rightarrow> string option result"

text \<open>The effect of a call: the store, the calls made of the broker, and what it raised. A recovery is
  a call of its own: an adapter may look the order up or post it again under its client order id.\<close>

datatype BrokerCall = Write BrokerOrderCommand | RecoverSubmit BrokerOrderCommand instant

datatype Raised = NothingRaised | StoreError py_error | ControlError

type_synonym 's effect = "'s \<times> BrokerCall list \<times> Raised"

definition finished :: "'s \<times> unit result \<Rightarrow> 's effect" where
  "finished r = (case r of (s, Inl e) \<Rightarrow> (s, [], StoreError e) | (s, Inr _) \<Rightarrow> (s, [], NothingRaised))"

definition sent :: "BrokerCall \<Rightarrow> 's effect \<Rightarrow> 's effect" where
  "sent c r = (case r of (s, cs, e) \<Rightarrow> (s, c # cs, e))"

definition dispatch_recover :: "'s DispatchStore \<Rightarrow> Broker \<Rightarrow> 's \<Rightarrow> BrokerOrderCommand \<Rightarrow> instant \<Rightarrow> 's effect" where
  "dispatch_recover S B s c now =
     (if cmd_command_type c \<noteq> SUBMIT then finished (ds_record_unknown S s (cmd_id c) now)
      else case cmd_dispatch_attempted_at c of
        None \<Rightarrow> (s, [], NothingRaised)
      | Some attempted_at \<Rightarrow>
          if attempted_at > now \<or> now \<ge> cmd_not_after c then (s, [], NothingRaised)
          else case ds_record_recovery_attempt S s (cmd_id c) now of
                 (s1, Inl e) \<Rightarrow> (s1, [], StoreError e)
               | (s1, Inr _) \<Rightarrow> sent (RecoverSubmit c now)
                   (case br_recover_submit B c now of
                      Inl e \<Rightarrow> (s1, [], StoreError e)
                    | Inr None \<Rightarrow> finished (ds_record_unknown S s1 (cmd_id c) now)
                    | Inr (Some broker_order_id) \<Rightarrow>
                        finished (ds_record_accepted S s1 (cmd_id c) broker_order_id now)))"

definition after_broker :: "'s DispatchStore \<Rightarrow> 's \<Rightarrow> uuid \<Rightarrow> instant \<Rightarrow> BrokerOutcome \<Rightarrow> 's effect" where
  "after_broker S s command_id now outcome =
     (case outcome of
        Receipt broker_order_id \<Rightarrow>
          (case ds_record_accepted S s command_id broker_order_id now of
             (s1, Inr _) \<Rightarrow> (s1, [], NothingRaised)
           | (s1, Inl _) \<Rightarrow> finished (ds_record_unknown S s1 command_id now))
      | SubmissionRejected \<Rightarrow> finished (ds_record_rejected S s command_id now)
      | BrokerError \<Rightarrow> finished (ds_record_unknown S s command_id now)
      | Interrupted written \<Rightarrow>
          (if written then fst (ds_record_unknown S s command_id now) else s, [], ControlError))"

definition dispatch :: "'s DispatchStore \<Rightarrow> Broker \<Rightarrow> 's \<Rightarrow> uuid \<Rightarrow> instant \<Rightarrow> 's effect" where
  "dispatch S B s command_id now =
     (case ds_authorize_and_record_attempt S s command_id now of
        (s1, Inl e) \<Rightarrow> (s1, [], StoreError e)
      | (s1, Inr None) \<Rightarrow>
          (case ds_recoverable_command S s1 command_id of
             Inl e \<Rightarrow> (s1, [], StoreError e)
           | Inr None \<Rightarrow> (s1, [], NothingRaised)
           | Inr (Some c) \<Rightarrow> if cmd_command_type c = SUBMIT then dispatch_recover S B s1 c now
                            else finished (ds_record_unknown S s1 (cmd_id c) now))
      | (s1, Inr (Some c)) \<Rightarrow> sent (Write c) (after_broker S s1 command_id now (br_write B c)))"

definition recover :: "'s DispatchStore \<Rightarrow> Broker \<Rightarrow> 's \<Rightarrow> uuid \<Rightarrow> instant \<Rightarrow> 's effect" where
  "recover S B s command_id now =
     (case ds_command_for_recovery S s command_id of
        Inl e \<Rightarrow> (s, [], StoreError e)
      | Inr c \<Rightarrow> dispatch_recover S B s c now)"

section \<open>The callers\<close>

text \<open>Calls of the service, in any interleaving, each with the broker as it answers then. Every caller
  opens a session, calls the service and commits; an exception leaves the session without a commit.\<close>

datatype dispatch_call = Dispatch uuid instant Broker | Recover uuid instant Broker

fun run_call :: "'s DispatchStore \<Rightarrow> 's \<Rightarrow> dispatch_call \<Rightarrow> 's effect" where
  "run_call S s (Dispatch u t B) = dispatch S B s u t"
| "run_call S s (Recover u t B) = recover S B s u t"

definition committed :: "'s \<Rightarrow> 's effect \<Rightarrow> 's" where
  "committed s r = (if snd (snd r) = NothingRaised then fst r else s)"

text \<open>The state after the calls, and of every call what it asked of the broker and how it ended.\<close>

fun dispatch_calls :: "'s DispatchStore \<Rightarrow> 's \<Rightarrow> dispatch_call list \<Rightarrow> 's \<times> (BrokerCall list \<times> Raised) list" where
  "dispatch_calls S s [] = (s, [])"
| "dispatch_calls S s (call # calls) =
     (let r = run_call S s call; rest = dispatch_calls S (committed s r) calls in (fst rest, snd r # snd rest))"

text \<open>The identifiers of the commands written to the broker.\<close>

definition written :: "BrokerCall list \<Rightarrow> uuid list" where
  "written cs = List.map_filter (\<lambda>c. case c of Write c \<Rightarrow> Some (cmd_id c) | RecoverSubmit _ _ \<Rightarrow> None) cs"

definition wrote_and_returned :: "uuid \<Rightarrow> BrokerCall list \<times> Raised \<Rightarrow> bool" where
  "wrote_and_returned u r \<longleftrightarrow> u \<in> set (written (fst r)) \<and> snd r = NothingRaised"

definition writes_of :: "uuid \<Rightarrow> (BrokerCall list \<times> Raised) list \<Rightarrow> nat" where
  "writes_of u rs = count_list (concat (map (written \<circ> fst) rs)) u"

text \<open>A submit that was attempted before and has not expired.\<close>

definition may_recover :: "BrokerCall \<Rightarrow> bool" where
  "may_recover c \<longleftrightarrow>
     (case c of Write _ \<Rightarrow> True
      | RecoverSubmit c t \<Rightarrow> cmd_command_type c = SUBMIT
          \<and> (\<exists>a. cmd_dispatch_attempted_at c = Some a \<and> a \<le> t) \<and> t < cmd_not_after c)"

lemma written_simps [simp]:
  "written [] = []" "written (Write c # cs) = cmd_id c # written cs" "written (RecoverSubmit c t # cs) = written cs"
  by (simp_all add: written_def List.map_filter_def)

lemma writes_of_simps [simp]:
  "writes_of u [] = 0" "writes_of u (r # rs) = count_list (written (fst r)) u + writes_of u rs"
  by (simp_all add: writes_of_def)

section \<open>The contract of a dispatch store\<close>

text \<open>A session may fail (\<open>usable\<close> no longer holds); then every operation raises. \<open>attempted\<close> says that
  a command cannot be claimed any more.\<close>

locale dispatch_store =
  fixes S :: "'s DispatchStore"
    and usable :: "'s \<Rightarrow> bool"
    and attempted :: "'s \<Rightarrow> uuid \<Rightarrow> bool"
    and settled :: "'s \<Rightarrow> uuid \<Rightarrow> bool"
    and accepted :: "'s \<Rightarrow> uuid \<Rightarrow> bool"
  assumes claim_once: "ds_authorize_and_record_attempt S s u t = (s1, Inr (Some c)) \<Longrightarrow>
      \<not> attempted s u \<and> attempted s1 u \<and> cmd_id c = u"
    and claim_usable: "ds_authorize_and_record_attempt S s u t = (s1, Inr r) \<Longrightarrow> usable s1"
    and unknown_usable: "ds_record_unknown S s u t = (s1, Inr x) \<Longrightarrow> usable s1"
    and accepted_usable: "ds_record_accepted S s u b t = (s1, Inr x) \<Longrightarrow> usable s1"
    and rejected_usable: "ds_record_rejected S s u t = (s1, Inr x) \<Longrightarrow> usable s1"
    and recovery_usable: "ds_record_recovery_attempt S s u t = (s1, Inr x) \<Longrightarrow> usable s1"
    and claim_keeps: "attempted s v \<Longrightarrow> attempted (fst (ds_authorize_and_record_attempt S s u t)) v"
    and unknown_keeps: "attempted s v \<Longrightarrow> attempted (fst (ds_record_unknown S s u t)) v"
    and accepted_keeps: "attempted s v \<Longrightarrow> attempted (fst (ds_record_accepted S s u b t)) v"
    and rejected_keeps: "attempted s v \<Longrightarrow> attempted (fst (ds_record_rejected S s u t)) v"
    and recovery_keeps: "attempted s v \<Longrightarrow> attempted (fst (ds_record_recovery_attempt S s u t)) v"
    and final_claim: "accepted s v \<Longrightarrow> accepted (fst (ds_authorize_and_record_attempt S s u t)) v"
    and final_unknown: "accepted s v \<Longrightarrow> accepted (fst (ds_record_unknown S s u t)) v"
    and final_accepted: "accepted s v \<Longrightarrow> accepted (fst (ds_record_accepted S s u b t)) v"
    and final_rejected: "accepted s v \<Longrightarrow> accepted (fst (ds_record_rejected S s u t)) v"
    and final_recovery: "accepted s v \<Longrightarrow> accepted (fst (ds_record_recovery_attempt S s u t)) v"
    and unknown_settles: "ds_record_unknown S s u t = (s1, Inr x) \<Longrightarrow> settled s1 u"
    and rejected_settles: "ds_record_rejected S s u t = (s1, Inr x) \<Longrightarrow> settled s1 u"
    and accepted_settles: "ds_record_accepted S s u b t = (s1, Inr x) \<Longrightarrow> settled s1 u"
begin

lemmas keeps = claim_keeps unknown_keeps accepted_keeps rejected_keeps recovery_keeps
lemmas final = final_claim final_unknown final_accepted final_rejected final_recovery
lemmas returns_usable = claim_usable unknown_usable accepted_usable rejected_usable recovery_usable

lemma fst_finished [simp]: "fst (finished r) = fst r"
  by (simp add: finished_def split: prod.splits sum.splits)

lemma calls_finished [simp]: "fst (snd (finished r)) = []"
  by (simp add: finished_def split: prod.splits sum.splits)

lemma finished_returns: "snd (snd (finished r)) = NothingRaised \<longleftrightarrow> (\<exists>x. snd r = Inr x)"
  by (auto simp: finished_def split: prod.splits sum.splits)

lemma sent_simps [simp]: "fst (sent c r) = fst r" "fst (snd (sent c r)) = c # fst (snd r)"
  "snd (snd (sent c r)) = snd (snd r)"
  by (simp_all add: sent_def split: prod.splits)

lemma after_broker_calls: "fst (snd (after_broker S s u t out)) = []"
  by (simp add: after_broker_def split: BrokerOutcome.splits prod.splits sum.splits)

lemma recover_calls: "written (fst (snd (dispatch_recover S B s c t))) = []"
  "list_all may_recover (fst (snd (dispatch_recover S B s c t)))"
  by (simp_all add: dispatch_recover_def Let_def may_recover_def not_less not_le split: option.splits sum.splits prod.splits)

text \<open>Whatever every operation of the store preserves, the service preserves, and so does every run.\<close>

lemma preserved:
  assumes "\<And>s u t. P s \<Longrightarrow> P (fst (ds_authorize_and_record_attempt S s u t))"
    and "\<And>s u t. P s \<Longrightarrow> P (fst (ds_record_unknown S s u t))"
    and "\<And>s u b t. P s \<Longrightarrow> P (fst (ds_record_accepted S s u b t))"
    and "\<And>s u t. P s \<Longrightarrow> P (fst (ds_record_rejected S s u t))"
    and "\<And>s u t. P s \<Longrightarrow> P (fst (ds_record_recovery_attempt S s u t))"
    and "P s"
  shows "P (fst (run_call S s call))" and "P (fst (dispatch_calls S s calls))"
proof -
  have rec: "P (fst (dispatch_recover S B s c t))" if "P s" for B s c t
  proof -
    obtain s1 r where r: "ds_record_recovery_attempt S s (cmd_id c) t = (s1, r)" by fastforce
    with assms(5) [OF that, of "cmd_id c" t] have "P s1" by simp
    with r that assms(2,3) show ?thesis
      by (simp add: dispatch_recover_def split: option.splits sum.splits)
  qed
  have aft: "P (fst (after_broker S s u t out))" if "P s" for s u t out
  proof (cases out)
    case (Receipt b)
    obtain s1 r where r: "ds_record_accepted S s u b t = (s1, r)" by fastforce
    with assms(3) [OF that, of u b t] have "P s1" by simp
    with Receipt r assms(2) [of s1 u t] show ?thesis
      by (cases r) (simp_all add: after_broker_def)
  qed (use that assms(2,4) in \<open>simp_all add: after_broker_def\<close>)
  have dis: "P (fst (dispatch S B s u t))" if "P s" for B s u t
  proof -
    obtain s1 r where r: "ds_authorize_and_record_attempt S s u t = (s1, r)" by fastforce
    with assms(1) [OF that, of u t] have "P s1" by simp
    with r rec aft assms(2) show ?thesis
      by (auto simp: dispatch_def split: option.splits sum.splits)
  qed
  have call: "P (fst (run_call S s call))" if "P s" for s call
    using that dis rec by (cases call) (simp_all add: recover_def split: sum.splits)
  show "P (fst (run_call S s call))" by (rule call [OF assms(6)])
  show "P (fst (dispatch_calls S s calls))" using assms(6)
  proof (induction calls arbitrary: s)
    case (Cons c calls)
    have "P (committed s (run_call S s c))"
      using call [OF Cons.prems, of c] Cons.prems by (simp add: committed_def)
    from Cons.IH [OF this] show ?case by (simp add: Let_def)
  qed simp
qed

lemma attempted_preserved: "attempted s v \<Longrightarrow> attempted (fst (run_call S s call)) v"
  by (rule preserved [where P = "\<lambda>s. attempted s v"]; simp add: keeps)

lemma accepted_preserved: "accepted s v \<Longrightarrow> accepted (fst (dispatch_calls S s calls)) v"
  by (rule preserved [where P = "\<lambda>s. accepted s v"]; simp add: final)

lemma call_writes:
  "written (fst (snd (run_call S s call))) = [] \<or>
     (\<exists>u. written (fst (snd (run_call S s call))) = [u] \<and> \<not> attempted s u
        \<and> attempted (fst (run_call S s call)) u)"
proof (cases call)
  case (Dispatch u t B)
  obtain s1 r where r: "ds_authorize_and_record_attempt S s u t = (s1, r)" by fastforce
  show ?thesis
  proof (cases "\<exists>c. r = Inr (Some c)")
    case False
    with r Dispatch show ?thesis
      by (auto simp: dispatch_def recover_calls split: option.splits sum.splits)
  next
    case True
    then obtain c where c: "r = Inr (Some c)" by blast
    with r claim_once [of s u t s1 c] have a: "\<not> attempted s u" "attempted s1 u" "cmd_id c = u" by auto
    have "attempted s2 u" if "ds_record_accepted S s1 u b t = (s2, x)" for b s2 x
      using accepted_keeps [OF a(2), of u b t] that by simp
    then have "attempted (fst (after_broker S s1 u t (br_write B c))) u"
      using a(2) keeps by (auto simp: after_broker_def split: BrokerOutcome.splits sum.splits prod.splits)
    with a r c Dispatch show ?thesis by (simp add: dispatch_def after_broker_calls)
  qed
qed (simp add: recover_def recover_calls split: sum.splits)

lemma call_recovers: "list_all may_recover (fst (snd (run_call S s call)))"
  by (cases call)
     (auto simp: dispatch_def recover_def recover_calls after_broker_calls may_recover_def [of "Write _"]
       split: option.splits sum.splits prod.splits)

lemma calls_recover: "list_all may_recover (concat (map fst (snd (dispatch_calls S s calls))))"
proof (induction calls arbitrary: s)
  case (Cons c calls)
  from Cons.IH [of "committed s (run_call S s c)"] call_recovers [of s c] show ?case
    by (simp add: Let_def)
qed simp

lemma attempted_committed: "attempted s v \<Longrightarrow> attempted (committed s (run_call S s c)) v"
  using attempted_preserved [of s v c] by (simp add: committed_def)

lemma no_write_after_attempt: "attempted s u \<Longrightarrow> writes_of u (snd (dispatch_calls S s calls)) = 0"
proof (induction calls arbitrary: s)
  case (Cons c calls)
  have "count_list (written (fst (snd (run_call S s c)))) u = 0"
    using call_writes [of s c] Cons.prems by auto
  with Cons.IH [OF attempted_committed [OF Cons.prems, of c]] show ?case
    by (simp add: Let_def)
qed simp

lemma write_bound:
  "writes_of u (dropWhile (Not \<circ> wrote_and_returned u) (snd (dispatch_calls S s calls))) \<le> 1"
proof (induction calls arbitrary: s)
  case (Cons c calls)
  let ?r = "run_call S s c"
  show ?case
  proof (cases "wrote_and_returned u (snd ?r)")
    case True
    then have "written (fst (snd ?r)) = [u]" "attempted (committed s ?r) u"
      using call_writes [of s c] by (auto simp: wrote_and_returned_def committed_def)
    with True no_write_after_attempt [of "committed s ?r" u calls] show ?thesis
      by (simp add: Let_def)
  next
    case False
    with Cons.IH [of "committed s ?r"] show ?thesis by (simp add: Let_def)
  qed
qed simp

text \<open>A call that returns leaves a usable session, and a dispatch that wrote a command has settled it.\<close>

lemma call_usable:
  assumes "usable s" "snd (snd (run_call S s call)) = NothingRaised"
  shows "usable (fst (run_call S s call))"
proof -
  have fin: "usable (fst r)" if "snd (snd (finished r)) = NothingRaised" "\<And>x. snd r = Inr x \<Longrightarrow> usable (fst r)" for r :: "'s \<times> unit result"
    using that by (auto simp: finished_returns)
  have unk: "usable (fst (ds_record_unknown S s u t))" if "snd (snd (finished (ds_record_unknown S s u t))) = NothingRaised" for s u t
    by (rule fin [OF that]) (metis prod.collapse unknown_usable)
  have acc: "usable (fst (ds_record_accepted S s u b t))" if "snd (snd (finished (ds_record_accepted S s u b t))) = NothingRaised" for s u b t
    by (rule fin [OF that]) (metis prod.collapse accepted_usable)
  have rej: "usable (fst (ds_record_rejected S s u t))" if "snd (snd (finished (ds_record_rejected S s u t))) = NothingRaised" for s u t
    by (rule fin [OF that]) (metis prod.collapse rejected_usable)
  have rec: "usable (fst (dispatch_recover S B s c t))" if "usable s" "snd (snd (dispatch_recover S B s c t)) = NothingRaised" for B s c t
    using that unk acc by (auto simp: dispatch_recover_def split: option.splits sum.splits prod.splits if_splits)
  have aft: "usable (fst (after_broker S s u t out))" if "snd (snd (after_broker S s u t out)) = NothingRaised" for s u t out
    using that unk rej accepted_usable
    by (auto simp: after_broker_def split: BrokerOutcome.splits sum.splits prod.splits)
  show ?thesis
    using assms rec aft unk claim_usable
    by (cases call) (auto simp: dispatch_def recover_def split: option.splits sum.splits prod.splits if_splits)
qed

lemma calls_usable: "usable s \<Longrightarrow> usable (fst (dispatch_calls S s calls))"
proof (induction calls arbitrary: s)
  case (Cons c calls)
  have "usable (committed s (run_call S s c))"
    using call_usable [OF Cons.prems, of c] Cons.prems by (simp add: committed_def)
  from Cons.IH [OF this] show ?case by (simp add: Let_def)
qed simp

lemma dispatch_settles:
  assumes claim: "ds_authorize_and_record_attempt S s u t = (s1, Inr (Some c))"
    and ok: "snd (snd (dispatch S B s u t)) = NothingRaised"
  shows "settled (fst (dispatch S B s u t)) u"
proof -
  have "snd (snd (after_broker S s1 u t (br_write B c))) = NothingRaised" using claim ok by (simp add: dispatch_def)
  then have "settled (fst (after_broker S s1 u t (br_write B c))) u"
    using unknown_settles rejected_settles accepted_settles
    by (auto simp: after_broker_def finished_returns split: BrokerOutcome.splits sum.splits prod.splits)
       (metis prod.collapse)+
  then show ?thesis using claim by (simp add: dispatch_def)
qed

end

section \<open>The MySQL dispatch store\<close>

record RuntimeFacts =
  rf_runtime_mode :: RuntimeMode
  rf_allow_live :: bool
  rf_account_environment :: RuntimeMode
  rf_local_runtime_instance_id :: uuid
  rf_market_data_fresh :: "instant \<Rightarrow> bool"

definition ACCEPTED_STATE :: string where "ACCEPTED_STATE = ''ACCEPTED''"
definition REJECTED_STATE :: string where "REJECTED_STATE = ''REJECTED''"
definition UNKNOWN_STATE :: string where "UNKNOWN_STATE = ''UNKNOWN''"

definition CLOSING_AUTHORITY :: string where
  "CLOSING_AUTHORITY = ''SUBMIT_STRICT_REDUCTION''"

fun gate_action :: "CommandType \<Rightarrow> GateAction" where
  "gate_action SUBMIT = GATE_SUBMIT"
| "gate_action CANCEL = GATE_CANCEL"
| "gate_action REPLACE = GATE_REPLACE"

definition arm_lease :: "ControlRow \<Rightarrow> ArmLease option" where
  "arm_lease c =
     (case (ctl_owner_runtime_instance_id c, ctl_acquired_at c, ctl_expires_at c) of
        (Some owner, Some acquired_at, Some expires_at) \<Rightarrow>
          Some \<lparr>al_owner_runtime_instance_id = owner, al_acquired_at = acquired_at,
                al_expires_at = expires_at, al_fencing_token = ctl_fencing_token c,
                al_row_version = ctl_row_version c\<rparr>
      | _ \<Rightarrow> None)"

definition blocking_incidents :: "ExecTables \<Rightarrow> int" where
  "blocking_incidents db =
     int (length (filter (\<lambda>i. inc_severity i = ''BLOCKING'' \<and> inc_status i = ''OPEN'') (et_incidents db)))"

definition blocking_reconciliations :: "ExecTables \<Rightarrow> int" where
  "blocking_reconciliations db =
     int (length (filter (\<lambda>d. dfr_severity d = ''BLOCKING'' \<and> dfr_status d = ''OPEN'') (et_diffs db)))"

definition unresolved_unknowns :: "ExecTables \<Rightarrow> int" where
  "unresolved_unknowns db =
     int (length (filter (\<lambda>c. crow_result_state c = Some UNKNOWN_STATE) (et_commands db)))"

definition find_command :: "ExecTables \<Rightarrow> uuid \<Rightarrow> CommandRow option" where
  "find_command db u = get_by cmd_id u (et_commands db)"

definition held_lease :: "ExecTables \<Rightarrow> LeaseRow option" where
  "held_lease db =
     (case filter (\<lambda>l. lse_owner_runtime_instance_id l \<noteq> None) (et_leases db) of
        [l] \<Rightarrow> Some l | _ \<Rightarrow> None)"

definition dispatch_state :: "ExecTables \<Rightarrow> CommandRow \<Rightarrow> instant \<Rightarrow> ControlRow \<Rightarrow> DispatchAuthorizationState" where
  "dispatch_state db row now control =
     \<lparr>das_now = now, das_not_after = cmd_not_after row,
      das_attempt_recorded = (cmd_dispatch_attempted_at row \<noteq> None),
      das_command_owner = cmd_owner_runtime_instance_id row,
      das_command_fencing_token = cmd_fencing_token row,
      das_lease_owner = (case held_lease db of None \<Rightarrow> None | Some l \<Rightarrow> lse_owner_runtime_instance_id l),
      das_lease_fencing_token = map_option lse_fencing_token (held_lease db),
      das_lease_expires_at = (case held_lease db of None \<Rightarrow> None | Some l \<Rightarrow> lse_expires_at l),
      das_control_owner = ctl_owner_runtime_instance_id control,
      das_control_fencing_token = Some (ctl_fencing_token control),
      das_control_expires_at = ctl_expires_at control, das_control_armed = ctl_armed control,
      das_kill_switch_active = (ctl_kill_switch_level control \<noteq> ''NONE''),
      das_blocking_incident_count = blocking_incidents db,
      das_unresolved_unknown_count = unresolved_unknowns db,
      das_strict_reduction_proven = (cmd_authority_class row = CLOSING_AUTHORITY),
      das_cancel_authorized = (cmd_command_type row = CANCEL)\<rparr>"

definition may_dispatch :: "ExecTables \<Rightarrow> uuid \<Rightarrow> instant \<Rightarrow> bool" where
  "may_dispatch db u now =
     (case find_command db u of
        None \<Rightarrow> False
      | Some row \<Rightarrow> et_controls db \<noteq> []
          \<and> list_all (\<lambda>c. gd_allowed (decide_dispatch (dispatch_state db row now c))) (et_controls db))"

definition submission_state :: "RuntimeFacts \<Rightarrow> ExecTables \<Rightarrow> CommandRow \<Rightarrow> instant \<Rightarrow> ControlRow \<Rightarrow> SubmissionContext" where
  "submission_state facts db row now control =
     \<lparr>sub_now = now, sub_action = gate_action (cmd_command_type row),
      sub_runtime_mode = rf_runtime_mode facts, sub_allow_live = rf_allow_live facts,
      sub_account_environment = rf_account_environment facts,
      sub_local_runtime_instance_id = rf_local_runtime_instance_id facts,
      sub_locally_armed = ctl_armed control, sub_arm_lease = arm_lease control,
      sub_database_writable = True, sub_market_data_fresh = rf_market_data_fresh facts now,
      sub_active_kill_switch = (ctl_kill_switch_level control \<noteq> ''NONE''),
      sub_blocking_incident_count = blocking_incidents db,
      sub_unresolved_unknown_count = unresolved_unknowns db,
      sub_blocking_reconciliation_count = blocking_reconciliations db,
      sub_exposure_effect =
        (if cmd_authority_class row = CLOSING_AUTHORITY then REDUCE_EXPOSURE else INCREASE)\<rparr>"

definition may_submit :: "RuntimeFacts option \<Rightarrow> ExecTables \<Rightarrow> uuid \<Rightarrow> instant \<Rightarrow> bool" where
  "may_submit facts db u now =
     (case (facts, find_command db u) of
        (Some f, Some row) \<Rightarrow> et_controls db \<noteq> []
          \<and> list_all (\<lambda>c. gd_allowed (gate_evaluate (submission_state f db row now c))) (et_controls db)
      | _ \<Rightarrow> False)"

definition put_command :: "ExecTables \<Rightarrow> CommandRow \<Rightarrow> ExecTables" where
  "put_command db row = db\<lparr>et_commands := put_by cmd_id row (et_commands db)\<rparr>"

definition authorize_and_record_attempt ::
  "RuntimeFacts option \<Rightarrow> ExecTables \<Rightarrow> uuid \<Rightarrow> instant \<Rightarrow> ExecTables \<times> BrokerOrderCommand option" where
  "authorize_and_record_attempt facts db u now =
     (if \<not> may_dispatch db u now then (db, None)
      else if \<not> may_submit facts db u now then (db, None)
      else case find_command db u of
        None \<Rightarrow> (db, None)
      | Some row \<Rightarrow>
          if cmd_dispatch_attempted_at row = None \<and> crow_result_state row = None \<and> cmd_not_after row > now
          then let row' = row\<lparr>cmd_dispatch_attempted_at := Some now\<rparr>
               in (put_command db row', Some (BrokerOrderCommand.truncate row'))
          else (db, None))"

definition recoverable_command :: "ExecTables \<Rightarrow> uuid \<Rightarrow> BrokerOrderCommand option" where
  "recoverable_command db u =
     (case find_command db u of
        None \<Rightarrow> None
      | Some row \<Rightarrow>
          if cmd_dispatch_attempted_at row = None then None
          else if crow_result_state row \<in> {Some ACCEPTED_STATE, Some REJECTED_STATE} then None
          else Some (BrokerOrderCommand.truncate row))"

definition command_for_recovery :: "ExecTables \<Rightarrow> uuid \<Rightarrow> BrokerOrderCommand result" where
  "command_for_recovery db u =
     (case find_command db u of
        None \<Rightarrow> Inl (ValueError ''dispatch recovery requires an existing command'')
      | Some row \<Rightarrow> Inr (BrokerOrderCommand.truncate row))"

definition record_recovery_attempt :: "ExecTables \<Rightarrow> uuid \<Rightarrow> instant \<Rightarrow> ExecTables" where
  "record_recovery_attempt db u now =
     (case find_command db u of
        None \<Rightarrow> db
      | Some row \<Rightarrow> if crow_result_state row = Some ACCEPTED_STATE then db
                    else put_command db (row\<lparr>cmd_dispatch_attempted_at := Some now\<rparr>))"

definition attempted_or :: "instant \<Rightarrow> CommandRow \<Rightarrow> instant option" where
  "attempted_or now row = (case cmd_dispatch_attempted_at row of None \<Rightarrow> Some now | Some t \<Rightarrow> Some t)"

text \<open>The link of an accepted order; its status is the text \<^verbatim>\<open>ACTIVE\<close>. The flush that follows raises
  when the broker's order id is linked to another order: the unique key
  \<^verbatim>\<open>uq_exec_broker_link_broker_order\<close>.\<close>

definition broker_order_taken :: "ExecTables \<Rightarrow> uuid \<Rightarrow> uuid \<Rightarrow> string \<Rightarrow> bool" where
  "broker_order_taken db order_id broker_id broker_order_id \<longleftrightarrow>
     list_ex (\<lambda>l. lk_broker_id l = broker_id \<and> lk_broker_order_id l = broker_order_id) (et_links db)
     \<and> \<not> list_ex (\<lambda>l. lk_order_id l = order_id \<and> lk_broker_id l = broker_id \<and> lk_broker_order_id l = broker_order_id)
           (et_links db)"

definition link_broker_order :: "uuid \<Rightarrow> ExecTables \<Rightarrow> CommandRow \<Rightarrow> string \<Rightarrow> ExecTables \<times> unit result" where
  "link_broker_order fresh_id db row broker_order_id =
     (case get_by acr_id (cmd_account_id row) (et_accounts db) of
        None \<Rightarrow> (db, Inl (ValueError ''dispatch result requires an existing account''))
      | Some account \<Rightarrow>
          if list_ex (\<lambda>l. lk_order_id l = cmd_order_id row \<and> lk_broker_id l = acr_broker_id account
                          \<and> lk_broker_order_id l = broker_order_id) (et_links db)
          then (db, Inr ())
          else if broker_order_taken db (cmd_order_id row) (acr_broker_id account) broker_order_id
          then (db, Inl IntegrityError)
          else let highest = foldr (\<lambda>l m. max (lk_link_sequence l) m)
                     (filter (\<lambda>l. lk_order_id l = cmd_order_id row) (et_links db)) 0
               in (db\<lparr>et_links := et_links db @
                     [\<lparr>lk_id = fresh_id, lk_order_id = cmd_order_id row, lk_broker_id = acr_broker_id account,
                       lk_broker_order_id = broker_order_id, lk_link_sequence = highest + 1,
                       lk_exposure_bearing = (cmd_command_type row = SUBMIT), lk_status = ''ACTIVE''\<rparr>]\<rparr>, Inr ()))"

definition record_accepted :: "uuid \<Rightarrow> ExecTables \<Rightarrow> uuid \<Rightarrow> string \<Rightarrow> instant \<Rightarrow> ExecTables \<times> unit result" where
  "record_accepted fresh_id db u broker_order_id now =
     (if \<not> trimmed_text broker_order_id
      then (db, Inl (ValueError ''broker_order_id must be non-empty trimmed text''))
      else case find_command db u of
        None \<Rightarrow> (db, Inl (ValueError ''dispatch result requires an existing command''))
      | Some row \<Rightarrow>
          if crow_result_state row = Some ACCEPTED_STATE then (db, Inr ())
          else let row' = row\<lparr>crow_result_state := Some ACCEPTED_STATE,
                             cmd_dispatch_attempted_at := attempted_or now row\<rparr>
               in link_broker_order fresh_id (put_command db row') row' broker_order_id)"

definition record_terminal :: "ExecTables \<Rightarrow> uuid \<Rightarrow> string \<Rightarrow> instant \<Rightarrow> ExecTables \<times> unit result" where
  "record_terminal db u state now =
     (case find_command db u of
        None \<Rightarrow> (db, Inl (ValueError ''dispatch result requires an existing command''))
      | Some row \<Rightarrow>
          if crow_result_state row \<in> {Some ACCEPTED_STATE, Some state} then (db, Inr ())
          else (put_command db (row\<lparr>crow_result_state := Some state,
                                   cmd_dispatch_attempted_at := attempted_or now row\<rparr>), Inr ()))"

definition record_rejected :: "ExecTables \<Rightarrow> uuid \<Rightarrow> instant \<Rightarrow> ExecTables \<times> unit result" where
  "record_rejected db u now = record_terminal db u REJECTED_STATE now"

definition record_unknown :: "ExecTables \<Rightarrow> uuid \<Rightarrow> instant \<Rightarrow> ExecTables \<times> unit result" where
  "record_unknown db u now = record_terminal db u UNKNOWN_STATE now"

text \<open>A database session: the tables as its transaction sees them, or no tables once a flush has failed.
  Then the transaction is rolled back and every later operation of the session raises.\<close>

type_synonym session = "ExecTables option"

definition in_session :: "(ExecTables \<Rightarrow> ExecTables \<times> 'a result) \<Rightarrow> session \<Rightarrow> session \<times> 'a result" where
  "in_session f s =
     (case s of
        None \<Rightarrow> (None, Inl PendingRollbackError)
      | Some db \<Rightarrow> (case f db of (db1, r) \<Rightarrow> (if r = Inl IntegrityError then None else Some db1, r)))"

text \<open>The store object: its runtime facts, and the identifier drawn for the link of each command.\<close>

definition mysql_dispatch_store :: "RuntimeFacts option \<Rightarrow> (uuid \<Rightarrow> uuid) \<Rightarrow> session DispatchStore" where
  "mysql_dispatch_store facts link_id =
     \<lparr>ds_authorize_and_record_attempt =
        (\<lambda>s u t. in_session (\<lambda>db. map_prod id Inr (authorize_and_record_attempt facts db u t)) s),
      ds_record_unknown = (\<lambda>s u t. in_session (\<lambda>db. record_unknown db u t) s),
      ds_record_accepted = (\<lambda>s u b t. in_session (\<lambda>db. record_accepted (link_id u) db u b t) s),
      ds_record_rejected = (\<lambda>s u t. in_session (\<lambda>db. record_rejected db u t) s),
      ds_record_recovery_attempt = (\<lambda>s u t. in_session (\<lambda>db. (record_recovery_attempt db u t, Inr ())) s),
      ds_command_for_recovery = (\<lambda>s u. snd (in_session (\<lambda>db. (db, command_for_recovery db u)) s)),
      ds_recoverable_command = (\<lambda>s u. snd (in_session (\<lambda>db. (db, Inr (recoverable_command db u))) s))\<rparr>"

section \<open>The MySQL store keeps the contract\<close>

definition attempted_in :: "ExecTables \<Rightarrow> uuid \<Rightarrow> bool" where
  "attempted_in db u = (case find_command db u of None \<Rightarrow> False | Some row \<Rightarrow> cmd_dispatch_attempted_at row \<noteq> None)"

definition settled_in :: "ExecTables \<Rightarrow> uuid \<Rightarrow> bool" where
  "settled_in db u = (case find_command db u of None \<Rightarrow> False | Some row \<Rightarrow> crow_result_state row \<noteq> None)"

definition accepted_in :: "ExecTables \<Rightarrow> uuid \<Rightarrow> bool" where
  "accepted_in db u =
     (case find_command db u of None \<Rightarrow> False | Some row \<Rightarrow> crow_result_state row = Some ACCEPTED_STATE)"

lemma find_command_id: "find_command db u = Some row \<Longrightarrow> cmd_id row = u"
  unfolding find_command_def by (rule get_by_Some)

lemma find_command_link [simp]:
  "find_command (fst (link_broker_order l db row b)) v = find_command db v"
  by (simp add: link_broker_order_def find_command_def Let_def split: option.splits)

text \<open>Replacing the row of a command changes that command only.\<close>

lemma find_command_updated:
  assumes "find_command db u = Some row" and "cmd_id row' = cmd_id row"
  shows "find_command (put_command db row') v = (if v = u then Some row' else find_command db v)"
  using assms find_command_id [OF assms(1)] by (auto simp: find_command_def put_command_def)

text \<open>What an operation may do to the row of a command, whichever operation it is: nothing, or mark
  it attempted and give it a result that does not replace an acceptance.\<close>

definition row_progress :: "CommandRow \<Rightarrow> CommandRow \<Rightarrow> bool" where
  "row_progress r r' \<longleftrightarrow>
     cmd_id r' = cmd_id r \<and> (cmd_dispatch_attempted_at r \<noteq> None \<longrightarrow> cmd_dispatch_attempted_at r' \<noteq> None)
     \<and> (crow_result_state r = Some ACCEPTED_STATE \<longrightarrow> crow_result_state r' = Some ACCEPTED_STATE)"

definition commands_progress :: "ExecTables \<Rightarrow> ExecTables \<Rightarrow> bool" where
  "commands_progress db db' \<longleftrightarrow>
     (\<forall>v r. find_command db v = Some r \<longrightarrow> (\<exists>r'. find_command db' v = Some r' \<and> row_progress r r'))"

lemma progress_refl [simp]: "commands_progress db db"
  by (auto simp: commands_progress_def row_progress_def)

lemma progress_put:
  assumes "find_command db u = Some row" "row_progress row row'"
  shows "commands_progress db (put_command db row')"
  using assms find_command_updated [OF assms(1), of row']
  by (auto simp: commands_progress_def row_progress_def)

lemma progress_attempted: "commands_progress db db' \<Longrightarrow> attempted_in db v \<Longrightarrow> attempted_in db' v"
  by (force simp: attempted_in_def commands_progress_def row_progress_def split: option.splits)

lemma progress_accepted: "commands_progress db db' \<Longrightarrow> accepted_in db v \<Longrightarrow> accepted_in db' v"
  by (force simp: accepted_in_def commands_progress_def row_progress_def split: option.splits)

lemma store_progress:
  "commands_progress db (fst (authorize_and_record_attempt facts db u t))"
  "commands_progress db (fst (record_terminal db u st t))"
  "commands_progress db (fst (record_accepted l db u b t))"
  "commands_progress db (record_recovery_attempt db u t)"
proof -
  show "commands_progress db (fst (authorize_and_record_attempt facts db u t))"
    by (simp add: authorize_and_record_attempt_def Let_def split: option.splits)
       (auto intro!: progress_put simp: row_progress_def)
  show "commands_progress db (fst (record_terminal db u st t))"
    by (simp add: record_terminal_def split: option.splits)
       (auto intro!: progress_put simp: row_progress_def attempted_or_def split: option.splits)
  show "commands_progress db (record_recovery_attempt db u t)"
    by (simp add: record_recovery_attempt_def split: option.splits)
       (auto intro!: progress_put simp: row_progress_def)
  have link: "commands_progress db (fst (link_broker_order l db1 row b)) \<longleftrightarrow> commands_progress db db1" for db1 row
    by (simp add: commands_progress_def)
  show "commands_progress db (fst (record_accepted l db u b t))"
    by (simp add: record_accepted_def Let_def link split: option.splits)
       (auto intro!: progress_put simp: row_progress_def attempted_or_def split: option.splits)
qed

lemmas store_keeps_attempted = store_progress [THEN progress_attempted]
lemmas store_keeps_accepted = store_progress [THEN progress_accepted]

lemma store_settles:
  shows "record_terminal db u st t = (db1, Inr y) \<Longrightarrow> settled_in db1 u"
    and "record_accepted l db u b t = (db1, Inr x) \<Longrightarrow> settled_in db1 u"
proof -
  show "record_terminal db u st t = (db1, Inr y) \<Longrightarrow> settled_in db1 u"
    by (auto simp: record_terminal_def settled_in_def find_command_updated split: option.splits if_splits)
  assume r: "record_accepted l db u b t = (db1, Inr x)"
  then obtain row where row: "find_command db u = Some row"
    by (auto simp: record_accepted_def split: if_splits option.splits)
  have "trimmed_text b" using r by (simp add: record_accepted_def split: if_splits)
  then have "settled_in (fst (record_accepted l db u b t)) u"
    using row
    by (auto simp: record_accepted_def Let_def settled_in_def find_command_updated [OF row] split: if_splits)
  with r show "settled_in db1 u" by simp
qed

lemma claim_Some:
  assumes "authorize_and_record_attempt facts db u t = (db1, Some c)"
  obtains row where "find_command db u = Some row" "may_dispatch db u t" "may_submit facts db u t"
    "cmd_dispatch_attempted_at row = None" "crow_result_state row = None" "t < cmd_not_after row"
    "db1 = put_command db (row\<lparr>cmd_dispatch_attempted_at := Some t\<rparr>)"
    "c = BrokerOrderCommand.truncate (row\<lparr>cmd_dispatch_attempted_at := Some t\<rparr>)"
  using assms
  by (auto simp: authorize_and_record_attempt_def Let_def split: if_splits option.splits)

text \<open>In a failed session nothing can be claimed or recorded.\<close>

definition in_open :: "(ExecTables \<Rightarrow> uuid \<Rightarrow> bool) \<Rightarrow> session \<Rightarrow> uuid \<Rightarrow> bool" where
  "in_open P s u = (case s of None \<Rightarrow> True | Some db \<Rightarrow> P db u)"

lemma in_session_keeps:
  assumes "\<And>db. P db v \<Longrightarrow> P (fst (f db)) v"
  shows "in_open P s v \<Longrightarrow> in_open P (fst (in_session f s)) v"
  using assms by (auto simp: in_open_def in_session_def split: option.splits prod.splits)
     (metis fst_conv)+

lemma in_session_Inr:
  assumes "in_session f s = (s1, Inr x)"
  obtains db db1 where "s = Some db" "s1 = Some db1" "f db = (db1, Inr x)"
  using assms by (auto simp: in_session_def split: option.splits prod.splits if_splits)

interpretation mysql_store: dispatch_store "mysql_dispatch_store facts link_id" "\<lambda>s. s \<noteq> None"
  "in_open attempted_in" "in_open settled_in" "in_open accepted_in"
proof
  fix s u t s1 c
  assume "ds_authorize_and_record_attempt (mysql_dispatch_store facts link_id) s u t = (s1, Inr (Some c))"
  then obtain db db1 where d: "s = Some db" "s1 = Some db1" "authorize_and_record_attempt facts db u t = (db1, Some c)"
    by (auto simp: mysql_dispatch_store_def map_prod_def elim!: in_session_Inr split: prod.splits)
  from d(3) show "\<not> in_open attempted_in s u \<and> in_open attempted_in s1 u \<and> cmd_id c = u"
  proof (rule claim_Some)
    fix row
    assume row: "find_command db u = Some row" and "cmd_dispatch_attempted_at row = None"
      "db1 = put_command db (row\<lparr>cmd_dispatch_attempted_at := Some t\<rparr>)"
      "c = BrokerOrderCommand.truncate (row\<lparr>cmd_dispatch_attempted_at := Some t\<rparr>)"
    with find_command_id [OF row] find_command_updated [OF row] d(1,2) show ?thesis
      by (simp add: in_open_def attempted_in_def BrokerOrderCommand.truncate_def)
  qed
qed (auto simp: mysql_dispatch_store_def record_unknown_def record_rejected_def in_open_def store_settles
    elim!: in_session_Inr intro!: in_session_keeps [unfolded in_open_def]
    intro: store_keeps_attempted store_keeps_accepted)

section \<open>Properties\<close>

text \<open>C29: once a dispatch that wrote a command to its broker has returned, no later dispatch or recovery
  writes that command, however often it is called and whatever the broker answers; a command whose
  attempt was stored before is not written at all. A recovery, which may post an order again under its
  client order id, is asked for only for a submit that was attempted and has not expired.\<close>

theorem command_sent_at_most_once:
  "let rs = snd (dispatch_calls (mysql_dispatch_store facts link_id) (Some db) calls) in
     writes_of u (dropWhile (Not \<circ> wrote_and_returned u) rs) \<le> 1
     \<and> (attempted_in db u \<longrightarrow> writes_of u rs = 0)
     \<and> list_all may_recover (concat (map fst rs))"
  using mysql_store.write_bound mysql_store.calls_recover mysql_store.no_write_after_attempt [of "Some db" u facts link_id calls]
  by (simp add: Let_def in_open_def)

text \<open>The attempt is stored in the same transaction as its result, so a dispatch that is interrupted at
  the broker leaves no trace: dispatched again, the command is written a second time.\<close>

theorem interrupted_dispatch_sends_again:
  assumes "authorize_and_record_attempt facts db u t = (db1, Some c)" "br_write B c = Interrupted w"
  shows "dispatch_calls (mysql_dispatch_store facts link_id) (Some db) [Dispatch u t B, Dispatch u t B]
    = (Some db, [([Write c], ControlError), ([Write c], ControlError)])"
proof -
  have "snd (dispatch (mysql_dispatch_store facts link_id) B (Some db) u t) = ([Write c], ControlError)"
    using assms by (simp add: dispatch_def mysql_dispatch_store_def in_session_def after_broker_def sent_def)
  then show ?thesis by (simp add: Let_def committed_def)
qed

text \<open>What recording a result does right after the claim.\<close>

lemma claimed_settles:
  assumes "authorize_and_record_attempt facts db u t = (db1, Some c)"
  obtains row where "cmd_order_id c = cmd_order_id row" "cmd_account_id c = cmd_account_id row"
    "\<And>st. record_terminal db1 u st t = (put_command db1 (row\<lparr>crow_result_state := Some st\<rparr>), Inr ())"
    "\<And>l b. trimmed_text b \<Longrightarrow> record_accepted l db1 u b t =
      link_broker_order l (put_command db1 (row\<lparr>crow_result_state := Some ACCEPTED_STATE\<rparr>)) (row\<lparr>crow_result_state := Some ACCEPTED_STATE\<rparr>) b"
    "\<And>r. et_links (put_command db1 r) = et_links db" "\<And>r. et_accounts (put_command db1 r) = et_accounts db"
    "\<And>r. cmd_id r = cmd_id row \<Longrightarrow> find_command (put_command db1 r) u = Some r"
  using assms
proof (rule claim_Some)
  fix row :: CommandRow
  let ?row = "row\<lparr>cmd_dispatch_attempted_at := Some t\<rparr>"
  assume row: "find_command db u = Some row" "crow_result_state row = None" "db1 = put_command db ?row"
    and c: "c = BrokerOrderCommand.truncate ?row"
  have found: "find_command db1 u = Some ?row" "et_links db1 = et_links db" "et_accounts db1 = et_accounts db"
    using find_command_updated [OF row(1), of ?row] by (simp_all add: row(3)) (simp_all add: put_command_def)
  have swap: "row\<lparr>crow_result_state := x, cmd_dispatch_attempted_at := y\<rparr> = row\<lparr>cmd_dispatch_attempted_at := y, crow_result_state := x\<rparr>" for x y
    by (cases row) simp
  show thesis
  proof (rule that [of ?row])
    show "record_terminal db1 u st t = (put_command db1 (?row\<lparr>crow_result_state := Some st\<rparr>), Inr ())" for st
      using row(2) swap by (simp add: record_terminal_def found attempted_or_def swap)
    show "record_accepted l db1 u b t = link_broker_order l (put_command db1 (?row\<lparr>crow_result_state := Some ACCEPTED_STATE\<rparr>))
        (?row\<lparr>crow_result_state := Some ACCEPTED_STATE\<rparr>) b" if "trimmed_text b" for l b
      using row(2) that by (simp add: record_accepted_def found attempted_or_def swap Let_def)
    show "et_links (put_command db1 r) = et_links db" "et_accounts (put_command db1 r) = et_accounts db" for r
      by (simp_all add: put_command_def found)
    show "find_command (put_command db1 r) u = Some r" if "cmd_id r = cmd_id ?row" for r
      using find_command_updated [OF found(1), of r] that by simp
  qed (simp_all add: c BrokerOrderCommand.truncate_def)
qed

definition result_in :: "session \<Rightarrow> uuid \<Rightarrow> string option" where
  "result_in s u = (case s of None \<Rightarrow> None | Some db \<Rightarrow> (case find_command db u of None \<Rightarrow> None | Some row \<Rightarrow> crow_result_state row))"

definition linked_in :: "session \<Rightarrow> uuid \<Rightarrow> uuid \<Rightarrow> string \<Rightarrow> bool" where
  "linked_in s order_id broker_id broker_order_id =
     (case s of None \<Rightarrow> False | Some db \<Rightarrow> list_ex (\<lambda>l. lk_order_id l = order_id \<and> lk_broker_id l = broker_id
        \<and> lk_broker_order_id l = broker_order_id) (et_links db))"

text \<open>C36: how the dispatch of a claimed command ends, for a command whose account exists. A receipt makes
  the command accepted and links the order, unless the identifier is not trimmed text (then it is
  unknown); a rejection makes it rejected and any other error unknown; in each case the dispatch returns.
  It raises, and leaves the tables as they were, exactly when the call was interrupted or the identifier of
  the receipt is linked to another order.\<close>

theorem dispatched_command_is_settled:
  assumes claim: "authorize_and_record_attempt facts db u t = (db1, Some c)"
    and account: "get_by acr_id (cmd_account_id c) (et_accounts db) = Some account"
  shows "let (s, rs) = dispatch_calls (mysql_dispatch_store facts link_id) (Some db) [Dispatch u t B] in
    case br_write B c of
      Receipt b \<Rightarrow>
        if \<not> trimmed_text b then rs = [([Write c], NothingRaised)] \<and> result_in s u = Some UNKNOWN_STATE
        else if broker_order_taken db (cmd_order_id c) (acr_broker_id account) b
        then rs = [([Write c], StoreError PendingRollbackError)] \<and> s = Some db
        else rs = [([Write c], NothingRaised)] \<and> result_in s u = Some ACCEPTED_STATE
          \<and> linked_in s (cmd_order_id c) (acr_broker_id account) b
    | SubmissionRejected \<Rightarrow> rs = [([Write c], NothingRaised)] \<and> result_in s u = Some REJECTED_STATE
    | BrokerError \<Rightarrow> rs = [([Write c], NothingRaised)] \<and> result_in s u = Some UNKNOWN_STATE
    | Interrupted w \<Rightarrow> rs = [([Write c], ControlError)] \<and> s = Some db"
proof -
  from claimed_settles [OF claim] obtain row where ids: "cmd_order_id c = cmd_order_id row" "cmd_account_id c = cmd_account_id row"
    and terminal: "\<And>st. record_terminal db1 u st t = (put_command db1 (row\<lparr>crow_result_state := Some st\<rparr>), Inr ())"
    and accepted: "\<And>l b. trimmed_text b \<Longrightarrow> record_accepted l db1 u b t =
      link_broker_order l (put_command db1 (row\<lparr>crow_result_state := Some ACCEPTED_STATE\<rparr>)) (row\<lparr>crow_result_state := Some ACCEPTED_STATE\<rparr>) b"
    and put: "\<And>r. et_links (put_command db1 r) = et_links db" "\<And>r. et_accounts (put_command db1 r) = et_accounts db"
      "\<And>r. cmd_id r = cmd_id row \<Longrightarrow> find_command (put_command db1 r) u = Some r"
    by blast
  have d: "dispatch_calls (mysql_dispatch_store facts link_id) (Some db) [Dispatch u t B]
      = (let r = sent (Write c) (after_broker (mysql_dispatch_store facts link_id) (Some db1) u t (br_write B c))
         in (committed (Some db) r, [snd r]))"
    using claim by (simp add: dispatch_def mysql_dispatch_store_def in_session_def Let_def)
  have links: "find_command (x\<lparr>et_links := ls\<rparr>) u = find_command x u" for x :: ExecTables and ls
    by (simp add: find_command_def)
  note ends = after_broker_def in_session_def finished_def sent_def committed_def Let_def result_in_def
    mysql_dispatch_store_def record_unknown_def record_rejected_def
  show ?thesis
  proof (cases "br_write B c")
    case (Receipt b)
    show ?thesis
    proof (cases "trimmed_text b")
      case False
      then have "record_accepted (link_id u) db1 u b t = (db1, Inl (ValueError ''broker_order_id must be non-empty trimmed text''))"
        by (simp add: record_accepted_def)
      with False Receipt show ?thesis unfolding d by (simp add: terminal ends put)
    next
      case True
      with Receipt account show ?thesis unfolding d
        by (simp add: ends links put accepted link_broker_order_def broker_order_taken_def linked_in_def ids)
    qed
  qed (unfold d, simp_all add: terminal ends put)
qed

text \<open>Once a broker has accepted a command, no later dispatch, recovery, rejection or unknown
  report overwrites that.\<close>

theorem accepted_command_is_final:
  assumes "accepted_in db u"
  shows "\<exists>db1. fst (dispatch_calls (mysql_dispatch_store facts link_id) (Some db) calls) = Some db1 \<and> accepted_in db1 u"
  using mysql_store.accepted_preserved [of "Some db" u facts link_id calls] mysql_store.calls_usable [of "Some db" facts link_id calls] assms
  by (auto simp: in_open_def)

text \<open>C33: a command is claimed only under authority. The claim happens before the command expires,
  by the one process that holds the execution lease with the command's fencing token; every trading
  control is armed by the running process with a lease that has not expired, no kill switch, blocking
  incident, blocking reconciliation difference or unresolved command exists, market data is fresh, and
  a live venue is written to only by a live build that allows it.\<close>

theorem claimed_command_is_authorized:
  assumes claim: "authorize_and_record_attempt facts db u t = (db1, Some c)"
    and authorities: "list_all (\<lambda>r. cmd_authority_class r \<in> set (allowed_authorities (cmd_command_type r))) (et_commands db)"
  shows "\<exists>f row l. facts = Some f \<and> find_command db u = Some row \<and> held_lease db = Some l
     \<and> t < cmd_not_after row \<and> lse_owner_runtime_instance_id l = cmd_owner_runtime_instance_id row
     \<and> lse_fencing_token l = cmd_fencing_token row \<and> (\<exists>e. lse_expires_at l = Some e \<and> t < e)
     \<and> (rf_runtime_mode f = LIVE_MODE \<and> rf_allow_live f \<or> rf_runtime_mode f = PAPER_MODE)
     \<and> rf_account_environment f = rf_runtime_mode f \<and> rf_market_data_fresh f t
     \<and> blocking_incidents db = 0 \<and> unresolved_unknowns db = 0 \<and> blocking_reconciliations db = 0
     \<and> et_controls db \<noteq> []
     \<and> (\<forall>k \<in> set (et_controls db). ctl_armed k \<and> ctl_kill_switch_level k = ''NONE''
          \<and> ctl_owner_runtime_instance_id k = Some (rf_local_runtime_instance_id f)
          \<and> (\<exists>e. ctl_expires_at k = Some e \<and> t < e) \<and> 0 < ctl_fencing_token k)"
  using claim
proof (rule claim_Some)
  fix row
  assume row: "find_command db u = Some row" and d: "may_dispatch db u t" and m: "may_submit facts db u t"
    and e: "t < cmd_not_after row"
  from m row obtain f where f: "facts = Some f" and ne: "et_controls db \<noteq> []"
    and g: "\<forall>k \<in> set (et_controls db). gd_allowed (gate_evaluate (submission_state f db row t k))"
    by (auto simp: may_submit_def list_all_iff split: option.splits)
  from d row have a: "\<forall>k \<in> set (et_controls db). gd_allowed (decide_dispatch (dispatch_state db row t k))"
    by (auto simp: may_dispatch_def list_all_iff)
  obtain k where k: "k \<in> set (et_controls db)" using ne by (meson hd_in_set)
  note dd = decide_dispatch_allowed [OF a [rule_format, OF k]]
  obtain l where l: "held_lease db = Some l" using dd(3) by (auto simp: dispatch_state_def split: option.splits)
  have "cmd_authority_class row \<in> set (allowed_authorities (cmd_command_type row))"
    using authorities row by (auto simp: find_command_def list_all_iff dest: get_by_Some)
  then have closing: "cmd_authority_class row = CLOSING_AUTHORITY \<Longrightarrow> cmd_command_type row = SUBMIT"
    by (cases "cmd_command_type row") (auto simp: CLOSING_AUTHORITY_def)
  have gates: "authority_failures (submission_state f db row t k') = []
      \<and> increase_failures (submission_state f db row t k') = []" if "k' \<in> set (et_controls db)" for k'
    using g that closing by (auto simp: gate_allowed_iff submission_state_def split: if_splits)
  have armed: "ctl_armed k' \<and> ctl_kill_switch_level k' = ''NONE''
      \<and> ctl_owner_runtime_instance_id k' = Some (rf_local_runtime_instance_id f)
      \<and> (\<exists>e. ctl_expires_at k' = Some e \<and> t < e) \<and> 0 < ctl_fencing_token k'"
    if "k' \<in> set (et_controls db)" for k'
    using gates [OF that]
    by (auto simp: authority_failures_Nil increase_failures_Nil submission_state_def arm_lease_def
        split: option.splits)
  have lease: "lse_owner_runtime_instance_id l = cmd_owner_runtime_instance_id row"
    "lse_fencing_token l = cmd_fencing_token row" "\<exists>e. lse_expires_at l = Some e \<and> t < e"
    using dd l by (simp_all add: dispatch_state_def)
  have runtime: "rf_runtime_mode f = LIVE_MODE \<and> rf_allow_live f \<or> rf_runtime_mode f = PAPER_MODE"
    "rf_account_environment f = rf_runtime_mode f" "rf_market_data_fresh f t" "blocking_incidents db = 0"
    "unresolved_unknowns db = 0" "blocking_reconciliations db = 0"
    using gates [OF k] by (simp_all add: increase_failures_Nil submission_state_def)
  show ?thesis
    by (intro exI [of _ f] exI [of _ row] exI [of _ l] conjI ballI f row l ne e lease runtime)
       (use armed in blast)+
qed

text \<open>C40: a closing order can never be sent. The dispatch authorization lets a strict reduction past
  the arming checks, but the submission gate refuses every submit whose effect is not an increase,
  and a strict reduction is presented to it as a reduction: whatever the tables, the runtime facts and
  the time, the claim is refused and nothing changes.\<close>

theorem closing_order_never_claimed:
  assumes "find_command db u = Some row" and "cmd_command_type row = SUBMIT"
    and "cmd_authority_class row = CLOSING_AUTHORITY"
  shows "authorize_and_record_attempt facts db u t = (db, None)"
proof -
  have "\<not> may_submit facts db u t"
  proof
    assume "may_submit facts db u t"
    then obtain f k where "gd_allowed (gate_evaluate (submission_state f db row t k))"
      using assms(1) by (auto simp: may_submit_def list_all_iff split: option.splits dest: hd_in_set)
    then show False using assms by (simp add: gate_allowed_iff increase_failures_Nil submission_state_def)
  qed
  then show ?thesis by (simp add: authorize_and_record_attempt_def)
qed

section \<open>Witnesses\<close>

definition sample_facts :: RuntimeFacts where
  "sample_facts =
     \<lparr>rf_runtime_mode = PAPER_MODE, rf_allow_live = False, rf_account_environment = PAPER_MODE,
      rf_local_runtime_instance_id = 1, rf_market_data_fresh = (\<lambda>_. True)\<rparr>"

definition sample_command :: "string \<Rightarrow> CommandRow" where
  "sample_command authority =
     \<lparr>cmd_id = 13, cmd_order_id = 11, cmd_account_id = 4, cmd_instrument_id = 5, cmd_command_type = SUBMIT,
      cmd_target_aggregate_version = 1, cmd_idempotency_key = ''k'', cmd_command_sequence = 1,
      cmd_canonical_payload_hash = [], cmd_broker_client_order_id = ''c'', cmd_target_broker_order_id = None,
      cmd_replaces_command_id = None, cmd_origin_type = ''STRATEGY'', cmd_authority_class = authority,
      cmd_owner_runtime_instance_id = Some 1, cmd_fencing_token = 7, cmd_not_after = 1000, cmd_side = BUY,
      cmd_order_style = MARKET, cmd_quantity = 1, cmd_limit_price = None, cmd_time_in_force = ''NONE'',
      cmd_trigger_price = None, cmd_status = ''PENDING'', cmd_dispatch_attempted_at = None,
      crow_result_state = None\<rparr>"

definition sample_control :: ControlRow where
  "sample_control =
     \<lparr>ctl_scope_type = ''GLOBAL'', ctl_scope_key = ''GLOBAL'', ctl_armed = True, ctl_kill_switch_level = ''NONE'',
      ctl_owner_runtime_instance_id = Some 1, ctl_acquired_at = Some 0, ctl_expires_at = Some 1000,
      ctl_fencing_token = 7, ctl_row_version = 1\<rparr>"

definition sample_lease :: LeaseRow where
  "sample_lease =
     \<lparr>lse_lease_name = ''EXECUTION'', lse_owner_runtime_instance_id = Some 1, lse_acquired_at = Some 0,
      lse_expires_at = Some 1000, lse_fencing_token = 7, lse_row_version = 1\<rparr>"

definition dispatch_tables :: "string \<Rightarrow> ExecTables" where
  "dispatch_tables authority = empty_tables
     \<lparr>et_commands := [sample_command authority], et_controls := [sample_control],
      et_leases := [sample_lease], et_accounts := [\<lparr>acr_id = 4, acr_broker_id = 9, acr_enabled = True\<rparr>]\<rparr>"

definition sample_broker :: Broker where
  "sample_broker = \<lparr>br_write = (\<lambda>_. Receipt ''B-1''), br_recover_submit = (\<lambda>_ _. Inr None)\<rparr>"

lemma sample_claim_Some:
  "\<exists>db1 c. authorize_and_record_attempt (Some sample_facts) (dispatch_tables NEW_EXPOSURE) 13 10 = (db1, Some c)"
proof -
  have "snd (authorize_and_record_attempt (Some sample_facts) (dispatch_tables NEW_EXPOSURE) 13 10) \<noteq> None"
    by code_simp
  then show ?thesis by (metis option.exhaust prod.collapse)
qed

theorem command_sent_at_most_once_witness:
  "\<exists>db1 c. authorize_and_record_attempt (Some sample_facts) (dispatch_tables NEW_EXPOSURE) 13 10 = (db1, Some c)
     \<and> writes_of 13 (snd (dispatch_calls (mysql_dispatch_store (Some sample_facts) (\<lambda>u. u)) (Some db1)
          [Dispatch 13 10 sample_broker, Dispatch 13 11 sample_broker])) = 0"
proof -
  obtain db1 c where c: "authorize_and_record_attempt (Some sample_facts) (dispatch_tables NEW_EXPOSURE) 13 10 = (db1, Some c)"
    using sample_claim_Some by blast
  then have "attempted_in db1 13"
    by (rule claim_Some) (simp add: attempted_in_def find_command_updated find_command_id)
  with c command_sent_at_most_once [of "Some sample_facts" "\<lambda>u. u" db1 "[Dispatch 13 10 sample_broker, Dispatch 13 11 sample_broker]" 13]
  show ?thesis by (simp only: Let_def) blast
qed

theorem dispatched_command_is_settled_witness:
  "result_in (fst (dispatch_calls (mysql_dispatch_store (Some sample_facts) (\<lambda>u. u)) (Some (dispatch_tables NEW_EXPOSURE))
      [Dispatch 13 10 sample_broker])) 13 = Some ACCEPTED_STATE"
proof -
  obtain db1 c where c: "authorize_and_record_attempt (Some sample_facts) (dispatch_tables NEW_EXPOSURE) 13 10 = (db1, Some c)"
    using sample_claim_Some by blast
  have "get_by acr_id (cmd_account_id c) (et_accounts (dispatch_tables NEW_EXPOSURE)) = Some \<lparr>acr_id = 4, acr_broker_id = 9, acr_enabled = True\<rparr>"
    using c
  proof (rule claim_Some)
    fix row
    assume "find_command (dispatch_tables NEW_EXPOSURE) 13 = Some row"
      and c: "c = BrokerOrderCommand.truncate (row\<lparr>cmd_dispatch_attempted_at := Some 10\<rparr>)"
    then have "row = sample_command NEW_EXPOSURE"
      by (simp add: find_command_def dispatch_tables_def get_by_def next_where_def sample_command_def)
    then show ?thesis by (simp add: c BrokerOrderCommand.truncate_def sample_command_def dispatch_tables_def get_by_def next_where_def)
  qed
  note s = dispatched_command_is_settled [OF c this, of "\<lambda>u. u" sample_broker]
  have "\<not> broker_order_taken (dispatch_tables NEW_EXPOSURE) (cmd_order_id c) 9 ''B-1''" "trimmed_text ''B-1''"
    by (simp add: broker_order_taken_def dispatch_tables_def empty_tables_def, code_simp)
  with s show ?thesis by (simp add: sample_broker_def split: prod.splits del: dispatch_calls.simps)
qed

theorem accepted_command_is_final_witness:
  "\<exists>db1. fst (dispatch_calls (mysql_dispatch_store None (\<lambda>u. u))
      (Some (put_command (dispatch_tables NEW_EXPOSURE) ((sample_command NEW_EXPOSURE)\<lparr>crow_result_state := Some ACCEPTED_STATE\<rparr>)))
      [Dispatch 13 10 sample_broker, Recover 13 11 sample_broker]) = Some db1 \<and> accepted_in db1 13"
  by (rule accepted_command_is_final) code_simp

theorem interrupted_dispatch_sends_again_witness:
  "\<exists>c. dispatch_calls (mysql_dispatch_store (Some sample_facts) (\<lambda>u. u)) (Some (dispatch_tables NEW_EXPOSURE))
      [Dispatch 13 10 (sample_broker\<lparr>br_write := \<lambda>_. Interrupted True\<rparr>), Dispatch 13 10 (sample_broker\<lparr>br_write := \<lambda>_. Interrupted True\<rparr>)]
    = (Some (dispatch_tables NEW_EXPOSURE), [([Write c], ControlError), ([Write c], ControlError)])"
  using sample_claim_Some interrupted_dispatch_sends_again [where B = "sample_broker\<lparr>br_write := \<lambda>_. Interrupted True\<rparr>"]
  by fastforce

theorem claimed_command_is_authorized_witness:
  "\<exists>db1 c l. authorize_and_record_attempt (Some sample_facts) (dispatch_tables NEW_EXPOSURE) 13 10 = (db1, Some c)
     \<and> held_lease (dispatch_tables NEW_EXPOSURE) = Some l \<and> lse_fencing_token l = 7"
proof -
  obtain db1 c where c: "authorize_and_record_attempt (Some sample_facts) (dispatch_tables NEW_EXPOSURE) 13 10 = (db1, Some c)"
    using sample_claim_Some by blast
  have "list_all (\<lambda>r. cmd_authority_class r \<in> set (allowed_authorities (cmd_command_type r)))
      (et_commands (dispatch_tables NEW_EXPOSURE))" by code_simp
  moreover have "find_command (dispatch_tables NEW_EXPOSURE) 13 = Some (sample_command NEW_EXPOSURE)"
    by (simp add: find_command_def dispatch_tables_def get_by_def next_where_def sample_command_def)
  ultimately show ?thesis using claimed_command_is_authorized [OF c] c
    by (auto simp: sample_command_def)
qed

theorem closing_order_never_claimed_witness:
  "may_dispatch (dispatch_tables CLOSING_AUTHORITY) 13 10
   \<and> authorize_and_record_attempt (Some sample_facts) (dispatch_tables CLOSING_AUTHORITY) 13 10
     = (dispatch_tables CLOSING_AUTHORITY, None)"
proof
  show "may_dispatch (dispatch_tables CLOSING_AUTHORITY) 13 10" by code_simp
  show "authorize_and_record_attempt (Some sample_facts) (dispatch_tables CLOSING_AUTHORITY) 13 10
     = (dispatch_tables CLOSING_AUTHORITY, None)"
    by (rule closing_order_never_claimed [where row = "sample_command CLOSING_AUTHORITY"])
       (simp_all add: find_command_def dispatch_tables_def get_by_def next_where_def sample_command_def)
qed

end
