(* ===== verification/StatusHandler.thy ===== *)
theory StatusHandler
  imports Dispatch "HOL-Library.Product_Lexorder"
begin

text \<open>
  \<^verbatim>\<open>persistence/mysql/broker_status_handler.py\<close> with the status part of the order repository:
  broker status evidence is stored once, sequenced evidence is applied in order as long as it is
  contiguous, and unsequenced evidence the state machine refuses turns the order UNKNOWN under a
  blocking incident. Shown here: every change of an order row is a step of the state machine or that
  ambiguity, evidence is applied once, the backlog is drained in finitely many steps, and the handler
  refuses an order whose link the dispatch store has just written.
\<close>

section \<open>Stored evidence and watermarks\<close>

datatype BrokerStatusInsertResult = STATUS_INSERTED | STATUS_DUPLICATE | STATUS_PAYLOAD_CONFLICT

definition status_identity :: "'a BrokerOrderStatusEvent_scheme \<Rightarrow> uuid \<times> uuid \<times> string \<times> string" where
  "status_identity e = (bse_broker_id e, bse_account_id e, bse_source_partition e, bse_dedupe_key e)"

definition record_broker_status_once :: "ExecTables \<Rightarrow> StatusEventRow \<Rightarrow> ExecTables \<times> BrokerStatusInsertResult" where
  "record_broker_status_once db event =
     (let db = lock_global_dispatch_guard db in
      case next_where (\<lambda>x. status_identity x = status_identity event) (et_status_events db) of
        None \<Rightarrow> (db\<lparr>et_status_events := et_status_events db @ [event]\<rparr>, STATUS_INSERTED)
      | Some existing \<Rightarrow>
          if bse_payload_hash existing \<noteq> bse_payload_hash event
          then (db\<lparr>et_incidents := et_incidents db @
                  [\<lparr>inc_severity = ''BLOCKING'', inc_status = ''OPEN'',
                    inc_reason_code = ''BROKER_STATUS_IDENTITY_PAYLOAD_CONFLICT'',
                    inc_scope_type = None, inc_scope_key = None,
                    inc_created_at = (case bse_observed_at event of None \<Rightarrow> 0 | Some t \<Rightarrow> t)\<rparr>]\<rparr>,
                STATUS_PAYLOAD_CONFLICT)
          else (db, STATUS_DUPLICATE))"

definition watermark_key :: "StatusWatermarkRow \<Rightarrow> uuid \<times> string" where
  "watermark_key w = (swm_order_id w, swm_source_partition w)"

definition find_status_watermark :: "ExecTables \<Rightarrow> uuid \<Rightarrow> string \<Rightarrow> StatusWatermarkRow option" where
  "find_status_watermark db order_id part = get_by watermark_key (order_id, part) (et_status_watermarks db)"

definition advance_status_watermark :: "ExecTables \<Rightarrow> uuid \<Rightarrow> string \<Rightarrow> int \<Rightarrow> ExecTables result" where
  "advance_status_watermark db order_id part n =
     (case find_status_watermark db order_id part of
        None \<Rightarrow>
          if n \<noteq> 1 then Inl (ValueError ''cannot advance a non-contiguous status watermark'')
          else Inr (db\<lparr>et_status_watermarks := et_status_watermarks db @
                 [\<lparr>swm_order_id = order_id, swm_source_partition = part, swm_last_contiguous_sequence = n\<rparr>]\<rparr>)
      | Some w \<Rightarrow>
          if n = swm_last_contiguous_sequence w + 1
          then Inr (db\<lparr>et_status_watermarks :=
                 put_by watermark_key (w\<lparr>swm_last_contiguous_sequence := n\<rparr>) (et_status_watermarks db)\<rparr>)
          else if n \<noteq> swm_last_contiguous_sequence w
          then Inl (ValueError ''cannot advance a non-contiguous status watermark'')
          else Inr db)"

section \<open>Applying one piece of evidence\<close>

record BrokerStatusApplication =
  bsa_applied :: bool
  bsa_terminal_release_pending :: bool

definition domain_link :: "LinkRow \<Rightarrow> BrokerOrderLinkState result" where
  "domain_link l =
     (case parse_status (lk_status l) of
        None \<Rightarrow> Inl (ValueError ''not a valid OrderStatus'')
      | Some s \<Rightarrow> Inr \<lparr>bl_id = lk_id l, bl_broker_order_id = lk_broker_order_id l,
                     bl_link_sequence = lk_link_sequence l, bl_exposure_bearing = lk_exposure_bearing l,
                     bl_status = s\<rparr>)"

fun domain_links :: "LinkRow list \<Rightarrow> BrokerOrderLinkState list result" where
  "domain_links [] = Inr []"
| "domain_links (l # ls) = and_then (domain_link l) (\<lambda>x. and_then (domain_links ls) (\<lambda>xs. Inr (x # xs)))"

definition order_links :: "ExecTables \<Rightarrow> uuid \<Rightarrow> LinkRow list" where
  "order_links db order_id =
     sort_key (\<lambda>l. (lk_link_sequence l, lk_id l)) (filter (\<lambda>l. lk_order_id l = order_id) (et_links db))"

definition matching_link :: "ExecTables \<Rightarrow> uuid \<Rightarrow> string option \<Rightarrow> LinkRow option" where
  "matching_link db order_id broker_order_id =
     next_where (\<lambda>l. lk_order_id l = order_id \<and> Some (lk_broker_order_id l) = broker_order_id) (et_links db)"

definition put_link :: "LinkRow \<Rightarrow> ExecTables \<Rightarrow> ExecTables" where
  "put_link l db = db\<lparr>et_links := put_by lk_id l (et_links db)\<rparr>"

definition put_order :: "OrderRow \<Rightarrow> ExecTables \<Rightarrow> ExecTables" where
  "put_order r db = db\<lparr>et_orders := put_by ord_id r (et_orders db)\<rparr>"

definition handler_domain_order :: "OrderRow \<Rightarrow> Order result" where
  "handler_domain_order r =
     (let ord = (Order.truncate r)\<lparr>ord_trigger_price := None\<rparr> in validated (Order_checks ord) ord)"

definition status_applied_envelope ::
  "uuid \<Rightarrow> OrderRow \<Rightarrow> StatusEventRow \<Rightarrow> bool \<Rightarrow> EventEnvelope" where
  "status_applied_envelope event_id ord e pending =
     \<lparr>env_event_id = event_id, env_event_type = ''execution.order.status-applied'', env_schema_version = 1,
      env_occurred_at = bse_occurred_at e,
      env_observed_at = (case bse_observed_at e of None \<Rightarrow> bse_occurred_at e | Some t \<Rightarrow> t),
      env_producer = ''execution-broker-status-handler'', env_partition_key = uuid_str (ord_account_id ord),
      env_aggregate_type = ''Order'', env_aggregate_id = ord_id ord,
      env_aggregate_version = ord_aggregate_version ord, env_correlation_id = ord_order_intent_id ord,
      env_causation_id = Some (sev_id e), env_trace_id = uuid_hex (ord_id ord),
      env_payload = OrderStatusAppliedPayload
        (case bse_broker_order_id e of None \<Rightarrow> [] | Some b \<Rightarrow> b) (bse_raw_status e)
        (status_value (ord_status ord)) pending\<rparr>"

definition enqueue :: "Digests \<Rightarrow> instant \<Rightarrow> ExecTables \<Rightarrow> EventEnvelope \<Rightarrow> instant \<Rightarrow> ExecTables result" where
  "enqueue sha clock db e next_attempt_at =
     and_then (make_envelope e) (\<lambda>e.
     and_then (enqueue_once (sha_envelope sha) (et_outbox db) e next_attempt_at clock) (\<lambda>rows.
       Inr (db\<lparr>et_outbox := rows\<rparr>)))"

definition observed :: "StatusEventRow \<Rightarrow> instant" where
  "observed e = (case bse_observed_at e of None \<Rightarrow> bse_occurred_at e | Some t \<Rightarrow> t)"

text \<open>Evidence that carries no sequence and that the state machine refuses.\<close>

definition record_unsequenced_ordering_ambiguity ::
  "Digests \<Rightarrow> instant \<Rightarrow> uuid \<Rightarrow> ExecTables \<Rightarrow> OrderRow \<Rightarrow> StatusEventRow \<Rightarrow> (ExecTables \<times> BrokerStatusApplication) result" where
  "record_unsequenced_ordering_ambiguity sha clock fresh db ord e =
     (case matching_link db (ord_id ord) (bse_broker_order_id e) of
        None \<Rightarrow> Inl (RuntimeError ''locked broker link cannot be read'')
      | Some l \<Rightarrow>
          let db1 = put_link (l\<lparr>lk_status := status_value UNKNOWN\<rparr>) db;
              ord' = ord\<lparr>ord_status := UNKNOWN, ord_aggregate_version := ord_aggregate_version ord + 1\<rparr>;
              incident = blocking_incident ''UNSEQUENCED_BROKER_STATUS_ORDERING_AMBIGUITY'' (ord_id ord) (observed e)
          in and_then
               (if ord_status ord = UNKNOWN then Inr db1
                else let db2 = (put_order ord' db1)\<lparr>et_order_events := et_order_events db1 @
                       [\<lparr>ode_order_id = ord_id ord, ode_aggregate_version = ord_aggregate_version ord',
                         ode_status = UNKNOWN, ode_raw_status = ''UNSEQUENCED_STATUS_ORDERING_AMBIGUITY'',
                         ode_occurred_at = bse_occurred_at e, oev_id = fresh\<rparr>]\<rparr>
                     in enqueue sha clock db2 (status_applied_envelope fresh ord' e False) (observed e))
               (\<lambda>db3. Inr (add_incident incident db3, \<lparr>bsa_applied = True, bsa_terminal_release_pending = False\<rparr>)))"

text \<open>The part of \<^verbatim>\<open>_apply_one\<close> after the watermark: the order event, the check whether every
  exposure-bearing link is terminal, and the outbox.\<close>

definition finish_transition ::
  "Digests \<Rightarrow> instant \<Rightarrow> uuid \<times> uuid \<Rightarrow> OrderRow \<Rightarrow> StatusEventRow \<Rightarrow> ExecTables
    \<Rightarrow> (ExecTables \<times> BrokerStatusApplication) result" where
  "finish_transition sha clock fresh ord' e db =
     (let db1 = db\<lparr>et_order_events := et_order_events db @
            [\<lparr>ode_order_id = ord_id ord', ode_aggregate_version = ord_aggregate_version ord',
              ode_status = ord_status ord', ode_raw_status = bse_raw_status e,
              ode_occurred_at = bse_occurred_at e, oev_id = fst fresh\<rparr>]\<rparr>;
          statuses = map lk_status (filter (\<lambda>l. lk_order_id l = ord_id ord' \<and> lk_exposure_bearing l) (et_links db1));
          pending = (statuses \<noteq> [] \<and>
            list_all (\<lambda>s. s \<in> set (map status_value TERMINAL_ORDER_STATUSES)) statuses);
          db2 = (if pending
                 then db1\<lparr>et_audit := et_audit db1 @
                        [\<lparr>aud_action = ''TERMINAL_RELEASE_PENDING'', aud_scope_type = ''ORDER'',
                          aud_scope_key = uuid_str (ord_id ord'), aud_occurred_at = observed e\<rparr>]\<rparr>
                 else db1)
      in and_then (enqueue sha clock db2 (status_applied_envelope (snd fresh) ord' e pending) (observed e))
           (\<lambda>db3. Inr (db3, \<lparr>bsa_applied = True, bsa_terminal_release_pending = pending\<rparr>)))"

definition apply_transition ::
  "Digests \<Rightarrow> instant \<Rightarrow> uuid \<times> uuid \<Rightarrow> ExecTables \<Rightarrow> OrderRow \<Rightarrow> StatusEventRow \<Rightarrow> OrderTransition
    \<Rightarrow> (ExecTables \<times> BrokerStatusApplication) result" where
  "apply_transition sha clock fresh db ord e t =
     (let ord' = ord\<lparr>ord_status := ord_status (tr_order t),
                     ord_aggregate_version := ord_aggregate_version (tr_order t)\<rparr>
      in case matching_link db (ord_id ord) (bse_broker_order_id e) of
        None \<Rightarrow> Inl (RuntimeError ''locked broker link cannot be read'')
      | Some l \<Rightarrow>
          let db1 = put_link (l\<lparr>lk_status := status_value (ord_status ord')\<rparr>) (put_order ord' db)
          in and_then
               (case tr_watermark t of
                  None \<Rightarrow> Inr db1
                | Some w \<Rightarrow> advance_status_watermark db1 (ord_id ord) (wm_source_partition w)
                             (wm_last_contiguous_sequence w))
               (finish_transition sha clock fresh ord' e))"

definition apply_deferred ::
  "ExecTables \<Rightarrow> OrderRow \<Rightarrow> StatusEventRow \<Rightarrow> DeferredBrokerStatus \<Rightarrow> (ExecTables \<times> BrokerStatusApplication) result" where
  "apply_deferred db ord e d =
     (if dbs_reason d \<in> {''LIVE_SUCCESSOR_LINK'', ''STALE_STATUS''} then
        (case matching_link db (ord_id ord) (bse_broker_order_id e) of
           None \<Rightarrow> Inl (RuntimeError ''locked broker link cannot be read'')
         | Some l \<Rightarrow>
             let db1 = (if dbs_reason d = ''LIVE_SUCCESSOR_LINK''
                        then put_link (l\<lparr>lk_status := bse_raw_status e\<rparr>) db else db)
             in and_then
                  (case bse_source_sequence e of
                     None \<Rightarrow> Inr db1
                   | Some n \<Rightarrow> advance_status_watermark db1 (ord_id ord) (bse_source_partition e) n)
                  (\<lambda>db2. Inr (db2, \<lparr>bsa_applied = True, bsa_terminal_release_pending = False\<rparr>)))
      else Inr (db, \<lparr>bsa_applied = False, bsa_terminal_release_pending = False\<rparr>))"

definition status_watermarks :: "ExecTables \<Rightarrow> uuid \<Rightarrow> string \<Rightarrow> BrokerStatusWatermark list" where
  "status_watermarks db order_id part =
     (case find_status_watermark db order_id part of
        None \<Rightarrow> []
      | Some w \<Rightarrow> [\<lparr>wm_source_partition = swm_source_partition w,
                    wm_last_contiguous_sequence = swm_last_contiguous_sequence w\<rparr>])"

text \<open>What \<^verbatim>\<open>_apply_one\<close> does with the domain's answer.\<close>

definition store_outcome ::
  "Digests \<Rightarrow> instant \<Rightarrow> uuid \<times> uuid \<Rightarrow> ExecTables \<Rightarrow> OrderRow \<Rightarrow> StatusEventRow \<Rightarrow> apply_outcome result
    \<Rightarrow> (ExecTables \<times> BrokerStatusApplication) result" where
  "store_outcome sha clock fresh db ord e outcome =
     (case outcome of
        Inl (InvalidOrderTransitionError m) \<Rightarrow>
          if bse_source_sequence e \<noteq> None then Inl (InvalidOrderTransitionError m)
          else record_unsequenced_ordering_ambiguity sha clock (fst fresh) db ord e
      | Inl err \<Rightarrow> Inl err
      | Inr (Deferred d) \<Rightarrow> apply_deferred db ord e d
      | Inr (Transition t) \<Rightarrow> apply_transition sha clock fresh db ord e t)"

definition apply_one ::
  "Digests \<Rightarrow> instant \<Rightarrow> uuid \<times> uuid \<Rightarrow> ExecTables \<Rightarrow> StatusEventRow \<Rightarrow> (ExecTables \<times> BrokerStatusApplication) result" where
  "apply_one sha clock fresh db e =
     (case bse_order_id e of
        None \<Rightarrow> Inl (ValueError ''broker status is missing canonical order'')
      | Some order_id \<Rightarrow>
     (case get_by ord_id order_id (et_orders db) of
        None \<Rightarrow> Inl (LookupError ''canonical order not found'')
      | Some ord \<Rightarrow>
          if ord_account_id ord \<noteq> bse_account_id e
          then Inl (ValueError ''broker status account does not match canonical order'')
          else and_then (domain_links (order_links db order_id)) (\<lambda>links.
            if \<not> list_ex (\<lambda>l. Some (bl_broker_order_id l) = bse_broker_order_id e) links
            then Inl (ValueError ''broker status is not linked to the canonical order'')
            else and_then (handler_domain_order ord) (\<lambda>domain.
              store_outcome sha clock fresh db ord e
                (apply_status_event domain (BrokerOrderStatusEvent.truncate e) (Some links)
                   (status_watermarks db order_id (bse_source_partition e)))))))"

definition expected_status :: "ExecTables \<Rightarrow> uuid \<Rightarrow> string \<Rightarrow> int" where
  "expected_status db u part =
     (case find_status_watermark db u part of None \<Rightarrow> 1 | Some w \<Rightarrow> swm_last_contiguous_sequence w + 1)"

text \<open>The loop over contiguous evidence; \<open>None\<close> is a loop that has not ended within the fuel.\<close>

fun apply_contiguous ::
  "Digests \<Rightarrow> instant \<Rightarrow> (nat \<Rightarrow> uuid \<times> uuid) \<Rightarrow> nat \<Rightarrow> ExecTables \<Rightarrow> uuid \<Rightarrow> string \<Rightarrow> bool \<Rightarrow> bool
    \<Rightarrow> (ExecTables \<times> BrokerStatusApplication) result option" where
  "apply_contiguous sha clock fresh 0 db order_id part applied pending = None"
| "apply_contiguous sha clock fresh (Suc fuel) db order_id part applied pending =
     (case next_where (\<lambda>e. bse_order_id e = Some order_id \<and> bse_source_partition e = part
                \<and> bse_source_sequence e = Some (expected_status db order_id part)) (et_status_events db) of
           None \<Rightarrow> Some (Inr (db, \<lparr>bsa_applied = applied, bsa_terminal_release_pending = pending\<rparr>))
         | Some e \<Rightarrow>
             (case apply_one sha clock (fresh fuel) db e of
                Inl err \<Rightarrow> Some (Inl err)
              | Inr (db1, outcome) \<Rightarrow>
                  if \<not> bsa_applied outcome
                  then Some (Inr (db1, \<lparr>bsa_applied = applied \<or> bsa_applied outcome,
                         bsa_terminal_release_pending = pending \<or> bsa_terminal_release_pending outcome\<rparr>))
                  else apply_contiguous sha clock fresh fuel db1 order_id part (applied \<or> bsa_applied outcome)
                         (pending \<or> bsa_terminal_release_pending outcome)))"

definition evidence_resolved :: "BrokerOrderStatusEvent \<Rightarrow> bool" where
  "evidence_resolved e \<longleftrightarrow>
     bse_order_id e \<noteq> None \<and> bse_broker_order_id e \<noteq> None \<and> bse_broker_client_order_id e \<noteq> None
     \<and> bse_requested_quantity e \<noteq> None \<and> bse_cumulative_filled_quantity e \<noteq> None
     \<and> bse_observed_at e \<noteq> None"

definition apply_event_once ::
  "Digests \<Rightarrow> instant \<Rightarrow> (nat \<Rightarrow> uuid \<times> uuid) \<Rightarrow> uuid \<Rightarrow> nat \<Rightarrow> ExecTables \<Rightarrow> BrokerOrderStatusEvent
    \<Rightarrow> (ExecTables \<times> BrokerStatusApplication) result option" where
  "apply_event_once sha clock fresh event_id fuel db event =
     (if \<not> evidence_resolved event
      then Some (Inl (ValueError ''resolved broker status evidence is required''))
      else
        let row = BrokerOrderStatusEvent.extend event \<lparr>sev_id = event_id\<rparr>;
            (db1, result) = record_broker_status_once (lock_global_dispatch_guard db) row
        in if result \<noteq> STATUS_INSERTED
           then Some (Inr (db1, \<lparr>bsa_applied = False, bsa_terminal_release_pending = False\<rparr>))
           else case bse_source_sequence event of
             None \<Rightarrow>
               (case next_where (\<lambda>x. status_identity x = status_identity event) (et_status_events db1) of
                  None \<Rightarrow> Some (Inl (RuntimeError ''persisted broker status cannot be read''))
                | Some e \<Rightarrow> Some (apply_one sha clock (fresh fuel) db1 e))
           | Some _ \<Rightarrow>
               apply_contiguous sha clock fresh fuel db1 (the (bse_order_id event))
                 (bse_source_partition event) False False)"

section \<open>What the helpers leave alone\<close>

lemma enqueue_Inr:
  assumes "enqueue sha clock db e t = Inr db'"
  obtains rows where "db' = db\<lparr>et_outbox := rows\<rparr>"
  using assms by (auto simp: enqueue_def and_then_eq_Inr_iff)

lemma advance_Inr:
  assumes "advance_status_watermark db u part n = Inr db'"
  obtains rows where "db' = db\<lparr>et_status_watermarks := rows\<rparr>"
    and "\<exists>w. find_status_watermark db' u part = Some w \<and> swm_last_contiguous_sequence w = n"
proof (cases "find_status_watermark db u part")
  case None
  with assms show ?thesis
    by (intro that) (auto simp: advance_status_watermark_def find_status_watermark_def watermark_key_def
        split: if_splits)
next
  case (Some w)
  have key: "watermark_key (w\<lparr>swm_last_contiguous_sequence := n\<rparr>) = watermark_key w" by (simp add: watermark_key_def)
  have w: "watermark_key w = (u, part)" using Some unfolding find_status_watermark_def by (rule get_by_Some)
  from Some assms consider
      "db' = db\<lparr>et_status_watermarks :=
         put_by watermark_key (w\<lparr>swm_last_contiguous_sequence := n\<rparr>) (et_status_watermarks db)\<rparr>"
    | "db' = db" "n = swm_last_contiguous_sequence w"
    by (auto simp: advance_status_watermark_def split: if_splits)
  then show ?thesis
  proof cases
    case 1
    then have "find_status_watermark db' u part = Some (w\<lparr>swm_last_contiguous_sequence := n\<rparr>)"
      using Some w key by (simp add: find_status_watermark_def)
    then show ?thesis using 1 by (intro that) auto
  next
    case 2
    then show ?thesis using Some by (intro that [of "et_status_watermarks db"]) auto
  qed
qed

text \<open>The effect of one piece of evidence on the tables that matter: orders, evidence and watermark.\<close>

definition order_change :: "ExecTables \<Rightarrow> OrderRow \<Rightarrow> ExecTables \<Rightarrow> bool" where
  "order_change db ord db' \<longleftrightarrow>
     et_orders db' = et_orders db
     \<or> (\<exists>s. et_orders db' = put_by ord_id
              (ord\<lparr>ord_status := s, ord_aggregate_version := ord_aggregate_version ord + 1\<rparr>) (et_orders db)
            \<and> (status_step (ord_status ord) s
               \<or> s = UNKNOWN \<and> (\<exists>i. inc_severity i = ''BLOCKING'' \<and> inc_status i = ''OPEN''
                     \<and> et_incidents db' = et_incidents db @ [i])))"

lemma ambiguity_effect:
  assumes "record_unsequenced_ordering_ambiguity sha clock fresh db ord e = Inr (db', out)"
  shows "order_change db ord db'" and "et_status_events db' = et_status_events db"
proof -
  let ?ord = "ord\<lparr>ord_status := UNKNOWN, ord_aggregate_version := ord_aggregate_version ord + 1\<rparr>"
  have "et_status_events db' = et_status_events db
      \<and> (et_orders db' = et_orders db \<or> et_orders db' = put_by ord_id ?ord (et_orders db))
      \<and> et_incidents db' = et_incidents db @
          [blocking_incident ''UNSEQUENCED_BROKER_STATUS_ORDERING_AMBIGUITY'' (ord_id ord) (observed e)]"
    using assms
    by (auto simp: record_unsequenced_ordering_ambiguity_def Let_def and_then_eq_Inr_iff put_link_def
        put_order_def add_incident_def split: option.splits if_splits elim!: enqueue_Inr)
  then show "order_change db ord db'" "et_status_events db' = et_status_events db"
    by (auto simp: order_change_def blocking_incident_def)
qed

lemma finish_effect:
  assumes "finish_transition sha clock fresh ord' e db = Inr (db', out)"
  shows "et_orders db' = et_orders db \<and> et_status_events db' = et_status_events db
     \<and> et_status_watermarks db' = et_status_watermarks db \<and> et_incidents db' = et_incidents db"
  using assms
  by (auto simp: finish_transition_def Let_def and_then_eq_Inr_iff elim!: enqueue_Inr split: if_splits)

lemma transition_effect:
  assumes a: "apply_transition sha clock fresh db ord e t = Inr (db', out)"
    and s: "status_step (ord_status ord) (ord_status (tr_order t))"
    and v: "ord_aggregate_version (tr_order t) = ord_aggregate_version ord + 1"
  shows "order_change db ord db'" and "et_status_events db' = et_status_events db"
    and "tr_watermark t = Some w \<Longrightarrow>
      \<exists>r. find_status_watermark db' (ord_id ord) (wm_source_partition w) = Some r
        \<and> swm_last_contiguous_sequence r = wm_last_contiguous_sequence w"
proof -
  let ?ord = "ord\<lparr>ord_status := ord_status (tr_order t), ord_aggregate_version := ord_aggregate_version ord + 1\<rparr>"
  from a obtain l db2 where
    w: "(case tr_watermark t of None \<Rightarrow> Inr (put_link (l\<lparr>lk_status := status_value (ord_status (tr_order t))\<rparr>) (put_order ?ord db))
       | Some w \<Rightarrow> advance_status_watermark (put_link (l\<lparr>lk_status := status_value (ord_status (tr_order t))\<rparr>) (put_order ?ord db))
            (ord_id ord) (wm_source_partition w) (wm_last_contiguous_sequence w)) = Inr db2"
    and fin: "finish_transition sha clock fresh ?ord e db2 = Inr (db', out)"
    by (auto simp: apply_transition_def Let_def and_then_eq_Inr_iff v split: option.splits)
  note rest = finish_effect [OF fin]
  have "et_orders db2 = put_by ord_id ?ord (et_orders db)" "et_status_events db2 = et_status_events db"
    using w by (auto simp: put_link_def put_order_def split: option.splits elim!: advance_Inr)
  then show "order_change db ord db'" "et_status_events db' = et_status_events db"
    using rest s by (auto simp: order_change_def)
  assume "tr_watermark t = Some w"
  with w obtain r where "find_status_watermark db2 (ord_id ord) (wm_source_partition w) = Some r"
      "swm_last_contiguous_sequence r = wm_last_contiguous_sequence w" by (auto elim!: advance_Inr)
  then show "\<exists>r. find_status_watermark db' (ord_id ord) (wm_source_partition w) = Some r
        \<and> swm_last_contiguous_sequence r = wm_last_contiguous_sequence w"
    using rest by (simp add: find_status_watermark_def)
qed

lemma deferred_effect:
  assumes "apply_deferred db ord e d = Inr (db', out)"
  shows "order_change db ord db'" and "et_status_events db' = et_status_events db"
    and "bsa_applied out \<Longrightarrow> bse_source_sequence e = Some n \<Longrightarrow>
      \<exists>r. find_status_watermark db' (ord_id ord) (bse_source_partition e) = Some r \<and> swm_last_contiguous_sequence r = n"
  using assms
  by (auto simp: apply_deferred_def Let_def and_then_eq_Inr_iff order_change_def put_link_def
      split: if_splits option.splits elim!: advance_Inr)

lemma truncate_event_simps [simp]:
  "bse_source_sequence (BrokerOrderStatusEvent.truncate e) = bse_source_sequence e"
  "bse_source_partition (BrokerOrderStatusEvent.truncate e) = bse_source_partition e"
  "bse_broker_order_id (BrokerOrderStatusEvent.truncate e) = bse_broker_order_id e"
  by (simp_all add: BrokerOrderStatusEvent.truncate_def)

lemma extend_event_simps [simp]:
  "bse_source_sequence (BrokerOrderStatusEvent.extend e m) = bse_source_sequence e"
  "bse_source_partition (BrokerOrderStatusEvent.extend e m) = bse_source_partition e"
  "bse_order_id (BrokerOrderStatusEvent.extend e m) = bse_order_id e"
  "bse_payload_hash (BrokerOrderStatusEvent.extend e m) = bse_payload_hash e"
  "status_identity (BrokerOrderStatusEvent.extend e m) = status_identity e"
  by (simp_all add: BrokerOrderStatusEvent.extend_def status_identity_def)

lemma handler_domain_order_Inr:
  assumes "handler_domain_order r = Inr d"
  shows "ord_status d = ord_status r" and "ord_aggregate_version d = ord_aggregate_version r"
  using assms by (auto simp: handler_domain_order_def Let_def checks_simps Order.truncate_def)

text \<open>The watermark of an applied transition is the event's own sequence number and partition.\<close>

lemma transition_watermark:
  assumes "apply_status_event ord event links wms = Inr (Transition t)"
  shows "tr_watermark t = (case bse_source_sequence event of None \<Rightarrow> None
     | Some n \<Rightarrow> Some \<lparr>wm_source_partition = bse_source_partition event, wm_last_contiguous_sequence = n\<rparr>)"
  using apply_status_Transition(1) [OF assms]
  by (auto simp: apply_target_def Let_def and_then_eq_Inr_iff transition_create_Inr order_defs
      split: if_splits option.splits)

lemma apply_one_effect:
  assumes a: "apply_one sha clock fresh db e = Inr (db', out)"
  obtains ord where "bse_order_id e = Some (ord_id ord)" "get_by ord_id (ord_id ord) (et_orders db) = Some ord"
    "order_change db ord db'" "et_status_events db' = et_status_events db"
    and "\<forall>n. bsa_applied out \<longrightarrow> bse_source_sequence e = Some n \<longrightarrow>
      (\<exists>r. find_status_watermark db' (ord_id ord) (bse_source_partition e) = Some r \<and> swm_last_contiguous_sequence r = n)"
proof -
  from a obtain ord links d where id: "bse_order_id e = Some (ord_id ord)"
    and ord: "get_by ord_id (ord_id ord) (et_orders db) = Some ord"
    and d: "handler_domain_order ord = Inr d"
    and r: "store_outcome sha clock fresh db ord e
        (apply_status_event d (BrokerOrderStatusEvent.truncate e) (Some links)
          (status_watermarks db (ord_id ord) (bse_source_partition e))) = Inr (db', out)"
    by (auto simp: apply_one_def and_then_eq_Inr_iff split: option.splits if_splits dest: get_by_Some(2))
  note dom = handler_domain_order_Inr [OF d]
  consider "bse_source_sequence e = None"
      "record_unsequenced_ordering_ambiguity sha clock (fst fresh) db ord e = Inr (db', out)"
    | x where "apply_deferred db ord e x = Inr (db', out)"
    | t where "apply_status_event d (BrokerOrderStatusEvent.truncate e) (Some links)
          (status_watermarks db (ord_id ord) (bse_source_partition e)) = Inr (Transition t)"
        "apply_transition sha clock fresh db ord e t = Inr (db', out)"
    using r by (auto simp: store_outcome_def split: sum.splits py_error.splits apply_outcome.splits if_splits)
  then show thesis
  proof cases
    case 1
    with that [OF id ord] ambiguity_effect [OF 1(2)] show thesis by simp
  next
    case 2
    with that [OF id ord] deferred_effect [OF 2] show thesis by simp
  next
    case 3
    from apply_status_Transition(1) [OF 3(1)] obtain target where
      "target \<in> set (ALLOWED (ord_status d))"
      "tr_order t = d\<lparr>ord_status := target, ord_aggregate_version := ord_aggregate_version d + 1\<rparr>"
      by (rule apply_target_Transition)
    then have "status_step (ord_status ord) (ord_status (tr_order t))"
      "ord_aggregate_version (tr_order t) = ord_aggregate_version ord + 1"
      by (simp_all add: dom status_step_iff)
    note eff = transition_effect [OF 3(2) this]
    show thesis
      by (rule that [OF id ord eff(1,2)]) (use eff(3) transition_watermark [OF 3(1)] in auto)
  qed
qed

section \<open>The backlog\<close>

definition backlog :: "ExecTables \<Rightarrow> uuid \<Rightarrow> string \<Rightarrow> int set" where
  "backlog db u part =
     {n. expected_status db u part \<le> n \<and> (\<exists>e \<in> set (et_status_events db).
        bse_order_id e = Some u \<and> bse_source_partition e = part \<and> bse_source_sequence e = Some n)}"

lemma backlog_finite: "finite (backlog db u part)" and backlog_card: "card (backlog db u part) \<le> length (et_status_events db)"
proof -
  let ?f = "\<lambda>e :: StatusEventRow. the (bse_source_sequence e)"
  have sub: "backlog db u part \<subseteq> ?f ` set (et_status_events db)"
    by (force simp: backlog_def)
  show "finite (backlog db u part)" by (rule finite_subset [OF sub]) simp
  have "card (backlog db u part) \<le> card (?f ` set (et_status_events db))" by (rule card_mono [OF _ sub]) simp
  also have "\<dots> \<le> card (set (et_status_events db))" by (rule card_image_le) simp
  also have "\<dots> \<le> length (et_status_events db)" by (rule card_length)
  finally show "card (backlog db u part) \<le> length (et_status_events db)" .
qed

lemma next_event:
  assumes "next_where (\<lambda>e. bse_order_id e = Some u \<and> bse_source_partition e = part
      \<and> bse_source_sequence e = Some (expected_status db u part)) (et_status_events db) = Some e"
    and a: "apply_one sha clock fresh db e = Inr (db1, out)" and "bsa_applied out"
  shows "card (backlog db1 u part) < card (backlog db u part)"
    and "et_status_events db1 = et_status_events db"
    and "expected_status db1 u part = expected_status db u part + 1"
proof -
  note e = next_where_Some [OF assms(1)]
  obtain ord where o: "bse_order_id e = Some (ord_id ord)"
    and "get_by ord_id (ord_id ord) (et_orders db) = Some ord" "order_change db ord db1"
    and o2: "et_status_events db1 = et_status_events db" and o3:
    "\<forall>n. bsa_applied out \<longrightarrow> bse_source_sequence e = Some n \<longrightarrow>
      (\<exists>r. find_status_watermark db1 (ord_id ord) (bse_source_partition e) = Some r \<and> swm_last_contiguous_sequence r = n)"
    by (rule apply_one_effect [OF a])
  show ev: "et_status_events db1 = et_status_events db" by (rule o2)
  show ex: "expected_status db1 u part = expected_status db u part + 1"
  proof -
    have "ord_id ord = u" "bse_source_partition e = part" "bse_source_sequence e = Some (expected_status db u part)"
      using o e by auto
    with o3 assms(3) obtain r where "find_status_watermark db1 u part = Some r"
      "swm_last_contiguous_sequence r = expected_status db u part" by metis
    then show ?thesis by (simp add: expected_status_def [of db1])
  qed
  have "expected_status db u part \<in> backlog db u part" using e by (auto simp: backlog_def)
  moreover have "backlog db1 u part = backlog db u part - {expected_status db u part}"
    unfolding backlog_def ev ex by fastforce
  ultimately show "card (backlog db1 u part) < card (backlog db u part)"
    using card_Diff1_less [OF backlog_finite] by metis
qed

lemma contiguous_ends:
  "card (backlog db u part) < fuel \<Longrightarrow>
     \<exists>r. apply_contiguous sha clock fresh fuel db u part applied pending = Some r
       \<and> (\<forall>db' out. r = Inr (db', out) \<longrightarrow> et_status_events db' = et_status_events db)"
proof (induction fuel arbitrary: db applied pending)
  case (Suc fuel)
  let ?P = "\<lambda>e. bse_order_id e = Some u \<and> bse_source_partition e = part
      \<and> bse_source_sequence e = Some (expected_status db u part)"
  show ?case
  proof (cases "next_where ?P (et_status_events db)")
    case None
    then show ?thesis by (simp)
  next
    case (Some e)
    show ?thesis
    proof (cases "apply_one sha clock (fresh fuel) db e")
      case (Inl err)
      with Some show ?thesis by (simp)
    next
      case (Inr r)
      obtain db1 out where r: "r = (db1, out)" by fastforce
      have ev: "et_status_events db1 = et_status_events db"
        using apply_one_effect [OF Inr [unfolded r]] by metis
      show ?thesis
      proof (cases "bsa_applied out")
        case True
        have "card (backlog db1 u part) < fuel"
          using next_event(1) [OF Some Inr [unfolded r] True] Suc.prems by linarith
        from Suc.IH [OF this] Some Inr r True ev show ?thesis
          by (simp)
      next
        case False
        with Some Inr r ev show ?thesis by (simp)
      qed
    qed
  qed
qed simp

section \<open>Properties\<close>

text \<open>C35: broker evidence changes an order row only along the state machine. One applied event leaves
  every order as it was, except that the order it names may take one allowed step and one version, or,
  when unsequenced evidence contradicts its state, becomes UNKNOWN together with a new blocking
  incident.\<close>

theorem status_changes_follow_machine:
  assumes a: "apply_one sha clock fresh db e = Inr (db', out)"
  shows "\<exists>ord. bse_order_id e = Some (ord_id ord) \<and> get_by ord_id (ord_id ord) (et_orders db) = Some ord
    \<and> (\<forall>u. u \<noteq> ord_id ord \<longrightarrow> get_by ord_id u (et_orders db') = get_by ord_id u (et_orders db))
    \<and> (\<exists>ord'. get_by ord_id (ord_id ord) (et_orders db') = Some ord'
         \<and> (ord' = ord \<or>
            ord' = ord\<lparr>ord_status := ord_status ord', ord_aggregate_version := ord_aggregate_version ord + 1\<rparr>
            \<and> (status_step (ord_status ord) (ord_status ord')
               \<or> ord_status ord' = UNKNOWN \<and> (\<exists>i. inc_severity i = ''BLOCKING'' \<and> inc_status i = ''OPEN''
                    \<and> et_incidents db' = et_incidents db @ [i]))))"
proof -
  from apply_one_effect [OF a] obtain ord where o: "bse_order_id e = Some (ord_id ord)"
    "get_by ord_id (ord_id ord) (et_orders db) = Some ord" "order_change db ord db'" by metis
  then show ?thesis
    by (intro exI [of _ ord]) (auto simp: order_change_def)
qed

text \<open>C37: the handler always ends: with one more unit of fuel than stored evidence, the loop over
  contiguous evidence returns a result or raises, whatever the tables hold.\<close>

theorem status_backlog_terminates:
  "\<exists>r. apply_event_once sha clock fresh event_id (length (et_status_events db) + 2) db event = Some r"
proof -
  have "\<exists>r. apply_contiguous sha clock fresh (length (et_status_events db) + 2) db1 u part False False = Some r"
    if "length (et_status_events db1) \<le> length (et_status_events db) + 1" for db1 u part
    using contiguous_ends [of db1 u part "length (et_status_events db) + 2"] backlog_card [of db1 u part] that
    by fastforce
  then show ?thesis
    by (auto simp: apply_event_once_def record_broker_status_once_def Let_def
        simp del: apply_contiguous.simps add_2_eq_Suc' split: prod.splits option.splits)
qed

text \<open>A status update cannot be applied to an order whose acceptance the dispatch store has
  recorded. The store writes the link with the text ACTIVE, which is no order status, and the
  handler, which reads every link of the order as one, raises before it looks at the evidence.\<close>

theorem accepted_order_refuses_status:
  assumes acc: "record_accepted link_id db u broker_order_id t = (db1, Inr ())"
    and row: "find_command db u = Some row" and new: "crow_result_state row \<noteq> Some ACCEPTED_STATE"
    and fresh_link: "\<forall>l \<in> set (et_links db). lk_order_id l \<noteq> cmd_order_id row"
    and e: "bse_order_id e = Some (cmd_order_id row)"
    and ord: "get_by ord_id (cmd_order_id row) (et_orders db) = Some ord" "ord_account_id ord = bse_account_id e"
  shows "apply_one sha clock fresh db1 e = Inl (ValueError ''not a valid OrderStatus'')"
proof -
  let ?row = "row\<lparr>crow_result_state := Some ACCEPTED_STATE, cmd_dispatch_attempted_at := attempted_or t row\<rparr>"
  from acc row new have lk: "link_broker_order link_id (put_command db ?row) ?row broker_order_id = (db1, Inr ())"
    by (auto simp: record_accepted_def Let_def split: if_splits)
  then obtain l where l: "et_links db1 = et_links db @ [l]" "lk_order_id l = cmd_order_id row" "lk_status l = ''ACTIVE''"
    and o: "et_orders db1 = et_orders db"
    using fresh_link
    by (auto simp: link_broker_order_def Let_def put_command_def list_ex_iff split: option.splits if_splits)
  have "filter (\<lambda>l. lk_order_id l = cmd_order_id row) (et_links db1) = [l]"
    using l fresh_link by (simp add: filter_empty_conv)
  then have "domain_links (order_links db1 (cmd_order_id row)) = Inl (ValueError ''not a valid OrderStatus'')"
    using l(3) by (simp add: order_links_def domain_link_def parse_status_def next_where_def all_order_statuses_def)
  then show ?thesis using e ord o by (simp add: apply_one_def)
qed

section \<open>Concrete runs\<close>

definition sample_order_row :: OrderRow where
  "sample_order_row =
     \<lparr>ord_id = v7 11, ord_order_intent_id = v7 3, ord_risk_decision_id = v7 2, ord_account_id = 4,
      ord_instrument_id = 5, ord_side = BUY, ord_order_style = MARKET, ord_requested_quantity = 1,
      ord_limit_price = None, ord_status = SUBMITTED, ord_aggregate_version = 1,
      ord_broker_client_order_id = ''c'', ord_created_at = 0, ord_trigger_price = None,
      orow_filled_quantity = 0\<rparr>"

definition sample_link_row :: LinkRow where
  "sample_link_row =
     \<lparr>lk_id = 21, lk_order_id = v7 11, lk_broker_id = 9, lk_broker_order_id = ''B-1'', lk_link_sequence = 1,
      lk_exposure_bearing = True, lk_status = ''SUBMITTED''\<rparr>"

definition sample_status :: StatusEventRow where
  "sample_status =
     \<lparr>bse_broker_id = 9, bse_account_id = 4, bse_source_partition = ''p'', bse_dedupe_key = ''k'',
      bse_raw_status = ''ACKNOWLEDGED'', bse_occurred_at = 5, bse_source_sequence = Some 1,
      bse_broker_order_id = Some ''B-1'', bse_order_id = Some (v7 11), bse_broker_client_order_id = Some ''c'',
      bse_requested_quantity = Some 1, bse_cumulative_filled_quantity = Some 0, bse_observed_at = Some 6,
      bse_payload_hash = [], sev_id = v7 14\<rparr>"

definition status_tables :: ExecTables where
  "status_tables = empty_tables\<lparr>et_orders := [sample_order_row], et_links := [sample_link_row],
     et_status_events := [sample_status]\<rparr>"

lemmas sample_status_defs = sample_order_row_def sample_link_row_def sample_status_def status_tables_def
  sample_digests_def empty_tables_def Order_checks_def limit_price_checks_def trigger_price_checks_def
  make_envelope_def envelope_ok_def enqueue_def enqueue_once_def outbox_duplicate_def find_outbox_def
  outbox_row_def get_by_def put_by_def next_where_def Let_def validated_def order_links_def domain_link_def
  parse_status_def all_order_statuses_def handler_domain_order_def store_outcome_def apply_status_event_def
  find_watermark_def expected_sequence_def apply_target_def OrderTransition_create_def status_watermarks_def
  find_status_watermark_def apply_transition_def matching_link_def put_link_def put_order_def
  advance_status_watermark_def finish_transition_def status_applied_envelope_def observed_def
  TERMINAL_ORDER_STATUSES_def Order.defs BrokerOrderStatusEvent.defs

theorem status_changes_follow_machine_witness:
  "\<exists>db' out. apply_one sample_digests 0 (v7 2, v7 3) status_tables sample_status = Inr (db', out)
     \<and> bsa_applied out
     \<and> (\<exists>ord'. get_by ord_id (v7 11) (et_orders db') = Some ord' \<and> status_step SUBMITTED (ord_status ord'))"
proof -
  let ?run = "apply_one sample_digests 0 (v7 2, v7 3) status_tables sample_status"
  have "(case ?run of Inl _ \<Rightarrow> False | Inr (db', out) \<Rightarrow> bsa_applied out
      \<and> (\<forall>r \<in> set (et_orders db'). ord_status r = ACKNOWLEDGED))"
    by (simp add: apply_one_def sample_status_defs)
  then obtain db' out where c: "?run = Inr (db', out)" and applied: "bsa_applied out"
    and new: "\<And>r. r \<in> set (et_orders db') \<Longrightarrow> ord_status r = ACKNOWLEDGED"
    by (auto split: sum.splits)
  from status_changes_follow_machine [OF c] obtain ord ord' where o: "bse_order_id sample_status = Some (ord_id ord)"
    "get_by ord_id (ord_id ord) (et_orders status_tables) = Some ord"
    "get_by ord_id (ord_id ord) (et_orders db') = Some ord'"
    and s: "ord' = ord \<or> status_step (ord_status ord) (ord_status ord') \<or> ord_status ord' = UNKNOWN"
    by metis
  have "ord_id ord = v7 11" "ord_status ord = SUBMITTED" "ord_status ord' = ACKNOWLEDGED"
    using o(1,2) new [OF get_by_Some(1) [OF o(3)]]
    by (auto simp: sample_status_def status_tables_def sample_order_row_def get_by_def next_where_def split: if_splits
        dest: arg_cong [where f = ord_status])
  with o s c applied show ?thesis by auto
qed

theorem accepted_order_refuses_status_witness:
  "apply_one sample_digests 0 (1, 2)
     (fst (record_accepted 31 ((dispatch_tables NEW_EXPOSURE)\<lparr>et_orders := [sample_order_row\<lparr>ord_id := 11\<rparr>]\<rparr>)
        13 ''B-1'' 10))
     (sample_status\<lparr>bse_order_id := Some 11\<rparr>) = Inl (ValueError ''not a valid OrderStatus'')"
proof -
  let ?db = "(dispatch_tables NEW_EXPOSURE)\<lparr>et_orders := [sample_order_row\<lparr>ord_id := 11\<rparr>]\<rparr>"
  have "snd (record_accepted 31 ?db 13 ''B-1'' 10) = Inr ()" by code_simp
  then have c: "record_accepted 31 ?db 13 ''B-1'' 10 = (fst (record_accepted 31 ?db 13 ''B-1'' 10), Inr ())"
    by (metis prod.collapse)
  show ?thesis
    by (rule accepted_order_refuses_status [OF c, where row = "sample_command NEW_EXPOSURE"
          and ord = "sample_order_row\<lparr>ord_id := 11\<rparr>"])
       (simp_all add: find_command_def dispatch_tables_def get_by_def next_where_def sample_command_def
          sample_order_row_def sample_status_def empty_tables_def)
qed

end
