(* ===== verification/Watermarks.thy ===== *)
theory Watermarks
  imports StatusHandler
begin

text \<open>
  \<^verbatim>\<open>persistence/mysql/repositories/execution_watermarks.py\<close> and
  \<^verbatim>\<open>execution/fills/completeness.py\<close>, \<^verbatim>\<open>terminal_release.py\<close>: the watermark of an execution
  stream, the gaps in it, the closed-interval checkpoints, and the decision whether a terminal order's
  reservation may be released. Shown here: a stream whose watermark reports no gap has stored every
  sequence number up to the watermark and none above it, whatever the order of arrival; and an order of
  arrival that leaves a gap row open although every number has arrived.
\<close>

section \<open>The stream watermark\<close>

definition stream_key :: "WatermarkRow \<Rightarrow> uuid \<times> uuid \<times> string" where
  "stream_key w = (wmr_broker_id w, wmr_account_id w, wmr_source_partition w)"

definition find_stream :: "ExecTables \<Rightarrow> uuid \<Rightarrow> uuid \<Rightarrow> string \<Rightarrow> WatermarkRow option" where
  "find_stream db broker_id account_id part = get_by stream_key (broker_id, account_id, part) (et_watermarks db)"

text \<open>The sequence numbers of the stored fills of a stream, and those above a number, in order.\<close>

definition stream_sequences :: "ExecTables \<Rightarrow> uuid \<Rightarrow> uuid \<Rightarrow> string \<Rightarrow> int list" where
  "stream_sequences db broker_id account_id part =
     List.map_filter fl_source_sequence
       (filter (\<lambda>f. fl_broker_id f = broker_id \<and> fl_account_id f = account_id \<and> fl_source_partition f = part)
          (et_fills db))"

definition sequences_after :: "ExecTables \<Rightarrow> uuid \<Rightarrow> uuid \<Rightarrow> string \<Rightarrow> int \<Rightarrow> int list" where
  "sequences_after db broker_id account_id part c =
     sort (filter (\<lambda>n. n > c) (stream_sequences db broker_id account_id part))"

fun extend_contiguous :: "int \<Rightarrow> int list \<Rightarrow> int" where
  "extend_contiguous c [] = c"
| "extend_contiguous c (n # ns) = (if n \<noteq> c + 1 then c else extend_contiguous n ns)"

definition open_gap_of :: "uuid \<Rightarrow> GapRow \<Rightarrow> bool" where
  "open_gap_of wid g \<longleftrightarrow> gp_watermark_id g = wid \<and> gp_open g"

definition new_gap :: "uuid \<Rightarrow> uuid \<Rightarrow> int \<Rightarrow> int \<Rightarrow> GapRow" where
  "new_gap gid wid m n = \<lparr>gp_id = gid, gp_watermark_id = wid, gp_from_sequence = m, gp_through_sequence = n, gp_open = True\<rparr>"

text \<open>The branch for sequence 1 shrinks one gap that starts at 1; the branch for the next sequence
  shrinks or closes every gap that holds it.\<close>

definition shrink_initial :: "uuid \<Rightarrow> GapRow list \<Rightarrow> GapRow list" where
  "shrink_initial wid gaps =
     (case next_where (\<lambda>g. open_gap_of wid g \<and> gp_from_sequence g = 1) gaps of
        None \<Rightarrow> gaps
      | Some g \<Rightarrow> put_by gp_id (if gp_through_sequence g = 1 then g\<lparr>gp_open := False\<rparr>
                               else g\<lparr>gp_from_sequence := 2\<rparr>) gaps)"

definition shrink_gap :: "uuid \<Rightarrow> int \<Rightarrow> GapRow \<Rightarrow> GapRow" where
  "shrink_gap wid n g =
     (if open_gap_of wid g \<and> gp_from_sequence g \<le> n \<and> gp_through_sequence g \<ge> n
      then (if gp_through_sequence g = n then g\<lparr>gp_open := False\<rparr>
            else if gp_from_sequence g = n then g\<lparr>gp_from_sequence := n + 1\<rparr> else g)
      else g)"

definition add_gap :: "uuid \<Rightarrow> uuid \<Rightarrow> int \<Rightarrow> int \<Rightarrow> GapRow list \<Rightarrow> GapRow list" where
  "add_gap gid wid m n gaps =
     (if n \<ge> m \<and> \<not> list_ex (\<lambda>g. gp_watermark_id g = wid \<and> gp_from_sequence g = m \<and> gp_through_sequence g = n) gaps
      then gaps @ [new_gap gid wid m n] else gaps)"

definition put_stream :: "WatermarkRow \<Rightarrow> GapRow list \<Rightarrow> ExecTables \<Rightarrow> ExecTables" where
  "put_stream w gaps db = db\<lparr>et_watermarks := put_by stream_key w (et_watermarks db), et_gaps := gaps\<rparr>"

definition advance_stream_sequence ::
  "uuid \<times> uuid \<Rightarrow> ExecTables \<Rightarrow> uuid \<Rightarrow> uuid \<Rightarrow> string \<Rightarrow> int \<Rightarrow> instant \<Rightarrow> instant \<Rightarrow> bytes \<Rightarrow> ExecTables" where
  "advance_stream_sequence fresh db broker_id account_id part n clock expires_at evidence_hash =
     (case find_stream db broker_id account_id part of
        None \<Rightarrow>
          db\<lparr>et_watermarks := et_watermarks db @
               [\<lparr>wmr_id = fst fresh, wmr_broker_id = broker_id, wmr_account_id = account_id,
                 wmr_source_partition = part,
                 wmr_contiguous_through_sequence = (if n = 1 then Some n else None),
                 wmr_has_gap = (n \<noteq> 1), wmr_covered_from_at = Some clock, wmr_covered_through_at = Some clock,
                 wmr_pagination_complete = False, wmr_query_fingerprint = replicate 32 0,
                 wmr_evidence_hash = evidence_hash, wmr_expires_at = expires_at, wmr_row_version = 1\<rparr>],
             et_gaps := (if n > 1 then et_gaps db @ [new_gap (snd fresh) (fst fresh) 1 (n - 1)] else et_gaps db)\<rparr>
      | Some w \<Rightarrow>
          let touched = w\<lparr>wmr_evidence_hash := evidence_hash, wmr_expires_at := expires_at,
                          wmr_row_version := wmr_row_version w + 1\<rparr>
          in if wmr_contiguous_through_sequence w = None \<and> n = 1 then
               let gaps = shrink_initial (wmr_id w) (et_gaps db);
                   c = extend_contiguous 1 (sequences_after db broker_id account_id part 1)
               in put_stream (touched\<lparr>wmr_contiguous_through_sequence := Some c,
                                      wmr_has_gap := list_ex (open_gap_of (wmr_id w)) gaps\<rparr>) gaps db
             else if (case wmr_contiguous_through_sequence w of None \<Rightarrow> False | Some c \<Rightarrow> n = c + 1) then
               let gaps = map (shrink_gap (wmr_id w) n) (et_gaps db);
                   c = extend_contiguous n (sequences_after db broker_id account_id part n)
               in put_stream (touched\<lparr>wmr_contiguous_through_sequence := Some c,
                                      wmr_has_gap := list_ex (open_gap_of (wmr_id w)) gaps,
                                      wmr_covered_through_at := Some clock\<rparr>) gaps db
             else if wmr_contiguous_through_sequence w \<noteq> Some n then
               let c = (case wmr_contiguous_through_sequence w of None \<Rightarrow> 0 | Some c \<Rightarrow> c)
               in put_stream (touched\<lparr>wmr_has_gap := True\<rparr>)
                    (add_gap (snd fresh) (wmr_id w) (c + 1) (n - 1) (et_gaps db)) db
             else db)"

section \<open>Checkpoints and the completeness proof\<close>

record ExecutionCompletenessProof =
  ecp_broker_order_ids :: "string list"
  ecp_broker_client_order_ids :: "string list"
  ecp_covered_from_at :: "instant option"
  ecp_covered_through_at :: "instant option"
  ecp_pagination_complete :: bool
  ecp_has_gap :: bool
  ecp_expires_at :: instant

definition scope_values :: "ExecTables \<Rightarrow> uuid \<Rightarrow> string \<Rightarrow> string list" where
  "scope_values db wid kind =
     map sc_scope_value (filter (\<lambda>s. sc_watermark_id s = wid \<and> sc_scope_kind s = kind) (et_scopes db))"

definition terminal_completeness_proof ::
  "ExecTables \<Rightarrow> uuid \<Rightarrow> uuid \<Rightarrow> string \<Rightarrow> ExecutionCompletenessProof option" where
  "terminal_completeness_proof db broker_id account_id part =
     (case find_stream db broker_id account_id part of
        None \<Rightarrow> None
      | Some w \<Rightarrow> Some
          \<lparr>ecp_broker_order_ids = scope_values db (wmr_id w) ''BROKER_ORDER_ID'',
           ecp_broker_client_order_ids = scope_values db (wmr_id w) ''BROKER_CLIENT_ORDER_ID'',
           ecp_covered_from_at = wmr_covered_from_at w, ecp_covered_through_at = wmr_covered_through_at w,
           ecp_pagination_complete = wmr_pagination_complete w, ecp_has_gap = wmr_has_gap w,
           ecp_expires_at = wmr_expires_at w\<rparr>)"

record Checkpoint =
  cp_broker_id :: uuid
  cp_account_id :: uuid
  cp_source_partition :: string
  cp_broker_order_ids :: "string list"
  cp_broker_client_order_ids :: "string list"
  cp_covered_from_at :: instant
  cp_covered_through_at :: instant
  cp_pagination_complete :: bool
  cp_has_gap :: bool
  cp_expires_at :: instant
  cp_query_fingerprint :: bytes
  cp_evidence_hash :: bytes

definition checkpoint_checks :: "Checkpoint \<Rightarrow> checks" where
  "checkpoint_checks cp =
     [(cp_covered_from_at cp > cp_covered_through_at cp \<or> cp_expires_at cp \<le> cp_covered_through_at cp,
         ValueError ''checkpoint interval and expiry are invalid''),
      (length (cp_query_fingerprint cp) \<noteq> 32 \<or> length (cp_evidence_hash cp) \<noteq> 32,
         ValueError ''checkpoint hashes must be SHA-256 values''),
      (cp_pagination_complete cp \<and> cp_broker_order_ids cp = [] \<and> cp_broker_client_order_ids cp = [],
         ValueError ''complete checkpoint requires exact broker or client scope'')]"

text \<open>The scopes of a watermark are replaced; inserting a scope twice is ignored.\<close>

definition replace_scopes :: "uuid \<Rightarrow> Checkpoint \<Rightarrow> ExecTables \<Rightarrow> ExecTables" where
  "replace_scopes wid cp db =
     db\<lparr>et_scopes := filter (\<lambda>s. sc_watermark_id s \<noteq> wid) (et_scopes db)
        @ remdups (map (\<lambda>v. \<lparr>sc_watermark_id = wid, sc_scope_kind = ''BROKER_ORDER_ID'', sc_scope_value = v\<rparr>)
                     (cp_broker_order_ids cp)
                 @ map (\<lambda>v. \<lparr>sc_watermark_id = wid, sc_scope_kind = ''BROKER_CLIENT_ORDER_ID'', sc_scope_value = v\<rparr>)
                     (cp_broker_client_order_ids cp))\<rparr>"

definition record_closed_interval_checkpoint :: "uuid \<Rightarrow> ExecTables \<Rightarrow> Checkpoint \<Rightarrow> ExecTables result" where
  "record_closed_interval_checkpoint fresh db cp =
     (case first_error (checkpoint_checks cp) of
        Some e \<Rightarrow> Inl e
      | None \<Rightarrow>
     (case find_stream db (cp_broker_id cp) (cp_account_id cp) (cp_source_partition cp) of
        None \<Rightarrow>
          Inr (replace_scopes fresh cp (db\<lparr>et_watermarks := et_watermarks db @
            [\<lparr>wmr_id = fresh, wmr_broker_id = cp_broker_id cp, wmr_account_id = cp_account_id cp,
              wmr_source_partition = cp_source_partition cp, wmr_contiguous_through_sequence = None,
              wmr_has_gap = cp_has_gap cp, wmr_covered_from_at = Some (cp_covered_from_at cp),
              wmr_covered_through_at = Some (cp_covered_through_at cp),
              wmr_pagination_complete = cp_pagination_complete cp,
              wmr_query_fingerprint = cp_query_fingerprint cp, wmr_evidence_hash = cp_evidence_hash cp,
              wmr_expires_at = cp_expires_at cp, wmr_row_version = 1\<rparr>]\<rparr>))
      | Some w \<Rightarrow>
          if (case wmr_covered_through_at w of None \<Rightarrow> True | Some t \<Rightarrow> cp_covered_through_at cp \<ge> t)
          then Inr (replace_scopes (wmr_id w) cp
                 (put_stream (w\<lparr>wmr_has_gap := cp_has_gap cp \<or> list_ex (open_gap_of (wmr_id w)) (et_gaps db),
                               wmr_covered_from_at := Some (cp_covered_from_at cp),
                               wmr_covered_through_at := Some (cp_covered_through_at cp),
                               wmr_pagination_complete := cp_pagination_complete cp,
                               wmr_query_fingerprint := cp_query_fingerprint cp,
                               wmr_evidence_hash := cp_evidence_hash cp, wmr_expires_at := cp_expires_at cp,
                               wmr_row_version := wmr_row_version w + 1\<rparr>) (et_gaps db) db))
          else Inr db))"

section \<open>The release decision\<close>

definition is_terminal_window_complete ::
  "ExecutionCompletenessProof option \<Rightarrow> string list \<Rightarrow> string list \<Rightarrow> instant \<Rightarrow> instant \<Rightarrow> instant \<Rightarrow> bool" where
  "is_terminal_window_complete proof broker_order_ids broker_client_order_ids first_possible_acceptance_at
       terminal_at clock =
     (case proof of
        None \<Rightarrow> False
      | Some p \<Rightarrow>
          if ecp_has_gap p \<or> \<not> ecp_pagination_complete p then False
          else if ecp_expires_at p \<le> clock then False
          else (case (ecp_covered_from_at p, ecp_covered_through_at p) of
                  (Some from_at, Some through_at) \<Rightarrow>
                    if from_at > first_possible_acceptance_at \<or> through_at < terminal_at then False
                    else if \<not> set broker_order_ids \<subseteq> set (ecp_broker_order_ids p) then False
                    else set broker_client_order_ids \<subseteq> set (ecp_broker_client_order_ids p)
                | _ \<Rightarrow> False))"

record TerminalReleaseDecision =
  trd_release :: bool
  trd_reason :: "string option"

definition decide_terminal_release ::
  "BrokerOrderLinkState list \<Rightarrow> ExecutionCompletenessProof option \<Rightarrow> string list \<Rightarrow> instant \<Rightarrow> instant
    \<Rightarrow> instant \<Rightarrow> TerminalReleaseDecision" where
  "decide_terminal_release links proof broker_client_order_ids first_possible_acceptance_at terminal_at clock =
     (let exposure_links = filter bl_exposure_bearing links
      in if exposure_links = [] \<or> \<not> all_exposure_links_terminal links
         then \<lparr>trd_release = False, trd_reason = Some ''LIVE_EXPOSURE_LINK''\<rparr>
         else if \<not> is_terminal_window_complete proof (map bl_broker_order_id exposure_links)
                    broker_client_order_ids first_possible_acceptance_at terminal_at clock
         then \<lparr>trd_release = False, trd_reason = Some ''TERMINAL_RELEASE_PENDING''\<rparr>
         else \<lparr>trd_release = True, trd_reason = None\<rparr>)"

section \<open>The invariant of a stream\<close>

definition contiguous :: "WatermarkRow \<Rightarrow> int" where
  "contiguous w = (case wmr_contiguous_through_sequence w of None \<Rightarrow> 0 | Some c \<Rightarrow> c)"

definition gaps_of :: "uuid \<Rightarrow> GapRow list \<Rightarrow> GapRow list" where
  "gaps_of wid gaps = filter (\<lambda>g. gp_watermark_id g = wid) gaps"

text \<open>
  For a stream with stored sequence numbers \<open>S\<close>: everything up to the watermark has been stored, every
  stored number above it is announced by an open gap that ends just below it, a closed gap lies below
  the watermark, and a watermark that reports no gap has none open.
\<close>

definition stream_inv :: "int set \<Rightarrow> WatermarkRow \<Rightarrow> GapRow list \<Rightarrow> bool" where
  "stream_inv S w gaps \<longleftrightarrow>
     (wmr_contiguous_through_sequence w \<noteq> None \<longrightarrow> 1 \<le> contiguous w)
     \<and> {1..contiguous w} \<subseteq> S
     \<and> (\<forall>n \<in> S. contiguous w < n \<longrightarrow>
          (\<exists>g \<in> set gaps. open_gap_of (wmr_id w) g \<and> gp_from_sequence g \<le> contiguous w + 1
             \<and> gp_through_sequence g = n - 1))
     \<and> (\<forall>g \<in> set gaps. gp_watermark_id g = wmr_id w \<longrightarrow> \<not> gp_open g \<longrightarrow> gp_through_sequence g \<le> contiguous w)
     \<and> (\<not> wmr_has_gap w \<longrightarrow> \<not> list_ex (open_gap_of (wmr_id w)) gaps)"

lemma stream_invI:
  assumes "wmr_contiguous_through_sequence w \<noteq> None \<Longrightarrow> 1 \<le> contiguous w" "{1..contiguous w} \<subseteq> S"
    and "\<And>n. n \<in> S \<Longrightarrow> contiguous w < n \<Longrightarrow>
      \<exists>g \<in> set gaps. open_gap_of (wmr_id w) g \<and> gp_from_sequence g \<le> contiguous w + 1 \<and> gp_through_sequence g = n - 1"
    and "\<And>g. g \<in> set gaps \<Longrightarrow> gp_watermark_id g = wmr_id w \<Longrightarrow> \<not> gp_open g \<Longrightarrow> gp_through_sequence g \<le> contiguous w"
    and "\<not> wmr_has_gap w \<Longrightarrow> \<not> list_ex (open_gap_of (wmr_id w)) gaps"
  shows "stream_inv S w gaps"
  using assms by (simp add: stream_inv_def)

lemma stream_invD:
  assumes "stream_inv S w gaps"
  shows "{1..contiguous w} \<subseteq> S"
    and "wmr_contiguous_through_sequence w \<noteq> None \<Longrightarrow> 1 \<le> contiguous w"
    and "g \<in> set gaps \<Longrightarrow> gp_watermark_id g = wmr_id w \<Longrightarrow> \<not> gp_open g \<Longrightarrow> gp_through_sequence g \<le> contiguous w"
    and "\<not> wmr_has_gap w \<Longrightarrow> \<not> list_ex (open_gap_of (wmr_id w)) gaps"
  using assms by (auto simp: stream_inv_def)

lemma stream_inv_announced:
  assumes "stream_inv S w gaps" "n \<in> S" "contiguous w < n"
  obtains g where "g \<in> set gaps" "open_gap_of (wmr_id w) g" "gp_from_sequence g \<le> contiguous w + 1"
    "gp_through_sequence g = n - 1"
  using assms unfolding stream_inv_def by blast

lemma stream_inv_gap_free:
  assumes "stream_inv S w gaps" "\<not> wmr_has_gap w"
  shows "{n \<in> S. 1 \<le> n} = {1..contiguous w}"
  using assms by (force simp: stream_inv_def list_ex_iff)

lemma extend_contiguous_ge: "c \<le> extend_contiguous c ns"
  by (induction c ns rule: extend_contiguous.induct) auto

lemma extend_contiguous_mem: "c < m \<Longrightarrow> m \<le> extend_contiguous c ns \<Longrightarrow> m \<in> set ns"
proof (induction c ns rule: extend_contiguous.induct)
  case (2 c n ns)
  then show ?case by (cases "m = n") (auto split: if_splits)
qed simp

lemma extend_contiguous_next:
  assumes "sorted ns" "\<forall>n \<in> set ns. c < n" "c + 1 \<in> set ns"
  shows "c + 1 \<le> extend_contiguous c ns"
proof (cases ns)
  case (Cons n rest)
  with assms have "n = c + 1" by force
  then show ?thesis using Cons extend_contiguous_ge [of "c + 1" rest] by simp
qed (use assms in simp)

text \<open>The watermark after the number following it, for the stored numbers of the stream.\<close>

definition extended :: "int \<Rightarrow> int set \<Rightarrow> int \<Rightarrow> bool" where
  "extended c S e \<longleftrightarrow> c \<le> e \<and> {c<..e} \<subseteq> S \<and> (c + 1 \<in> S \<longrightarrow> c + 1 \<le> e)"

lemma extended_sequences_after:
  "extended c (set (stream_sequences db b a p)) (extend_contiguous c (sequences_after db b a p c))"
proof -
  have "c + 1 \<le> extend_contiguous c (sequences_after db b a p c)" if "c + 1 \<in> set (stream_sequences db b a p)"
    using that by (intro extend_contiguous_next) (auto simp: sequences_after_def)
  then show ?thesis
    using extend_contiguous_ge [of c] extend_contiguous_mem [of c _ "sequences_after db b a p c"]
    by (auto simp: extended_def sequences_after_def)
qed

lemma shrink_gap_same [simp]:
  "gp_watermark_id (shrink_gap wid n g) = gp_watermark_id g" "gp_id (shrink_gap wid n g) = gp_id g"
  "gp_through_sequence (shrink_gap wid n g) = gp_through_sequence g"
  by (simp_all add: shrink_gap_def)

lemma stream_inv_next:
  assumes inv: "stream_inv S w gaps" and n: "wmr_contiguous_through_sequence w = Some (n - 1)"
    and e: "extended n (insert n S) e"
    and w': "wmr_contiguous_through_sequence w' = Some e" "wmr_id w' = wmr_id w"
      "wmr_has_gap w' = list_ex (open_gap_of (wmr_id w)) (map (shrink_gap (wmr_id w) n) gaps)"
  shows "stream_inv (insert n S) w' (map (shrink_gap (wmr_id w) n) gaps)"
proof -
  have c: "contiguous w = n - 1" "contiguous w' = e" "1 \<le> n - 1" "n \<le> e"
    using n w' inv e by (auto simp: contiguous_def stream_inv_def extended_def)
  have old: "{1..n - 1} \<subseteq> S" using inv c by (simp add: stream_inv_def)
  have up: "{1..e} \<subseteq> insert n S"
  proof
    fix m assume "m \<in> {1..e}"
    then consider "m \<le> n - 1" "1 \<le> m" | "m = n" | "n < m" "m \<le> e" by fastforce
    then show "m \<in> insert n S" using old e by cases (auto simp: extended_def)
  qed
  have announced: "\<exists>g \<in> set (map (shrink_gap (wmr_id w) n) gaps). open_gap_of (wmr_id w) g
      \<and> gp_from_sequence g \<le> e + 1 \<and> gp_through_sequence g = m - 1" if m: "m \<in> insert n S" "e < m" for m
  proof -
    from m c have "m \<in> S" "n - 1 < m" "m \<noteq> n" by auto
    with c obtain g where g: "g \<in> set gaps" "open_gap_of (wmr_id w) g" "gp_from_sequence g \<le> n"
      "gp_through_sequence g = m - 1" using stream_inv_announced [OF inv, of m] by auto
    have "m - 1 \<noteq> n" using e m \<open>m \<in> S\<close> by (auto simp: extended_def)
    then have "open_gap_of (wmr_id w) (shrink_gap (wmr_id w) n g)"
      "gp_from_sequence (shrink_gap (wmr_id w) n g) \<le> e + 1"
      using g c m by (auto simp: shrink_gap_def open_gap_of_def)
    with g show ?thesis by (intro bexI [of _ "shrink_gap (wmr_id w) n g"]) auto
  qed
  have closed: "gp_through_sequence g \<le> e"
    if "g \<in> set (map (shrink_gap (wmr_id w) n) gaps)" "gp_watermark_id g = wmr_id w" "\<not> gp_open g" for g
  proof -
    from that obtain h where h: "h \<in> set gaps" "g = shrink_gap (wmr_id w) n h" by auto
    with that have "gp_through_sequence h = n \<or> \<not> gp_open h"
      by (auto simp: shrink_gap_def open_gap_of_def split: if_splits)
    with stream_invD(3) [OF inv h(1)] h that c show ?thesis by auto
  qed
  show ?thesis by (rule stream_invI) (use up announced closed c w' in auto)
qed

lemma shrink_initial_mem:
  assumes "distinct (map gp_id gaps)" "g \<in> set gaps"
  shows "\<exists>g' \<in> set (shrink_initial wid gaps). gp_through_sequence g' = gp_through_sequence g
     \<and> (g' = g \<or> open_gap_of wid g \<and> gp_from_sequence g = 1
         \<and> g' = (if gp_through_sequence g = 1 then g\<lparr>gp_open := False\<rparr> else g\<lparr>gp_from_sequence := 2\<rparr>))"
proof (cases "next_where (\<lambda>g. open_gap_of wid g \<and> gp_from_sequence g = 1) gaps")
  case None
  then show ?thesis using assms by (auto simp: shrink_initial_def)
next
  case (Some x)
  note x = next_where_Some [OF Some]
  show ?thesis
  proof (cases "gp_id g = gp_id x")
    case True
    with x assms have g: "g = x" using unique_by_key [OF assms(1)] by blast
    let ?x = "if gp_through_sequence x = 1 then x\<lparr>gp_open := False\<rparr> else x\<lparr>gp_from_sequence := 2\<rparr>"
    have "?x \<in> set (shrink_initial wid gaps)"
      using put_by_mem [of x gaps gp_id ?x] x Some by (simp add: shrink_initial_def)
    then show ?thesis using x g by (intro bexI [of _ ?x]) auto
  next
    case False
    then have "g \<in> set (shrink_initial wid gaps)"
      using put_by_other [of g gaps gp_id] Some assms(2) by (simp add: shrink_initial_def)
    then show ?thesis by blast
  qed
qed

lemma shrink_initial_from:
  assumes "g' \<in> set (shrink_initial wid gaps)"
  shows "\<exists>g \<in> set gaps. gp_watermark_id g' = gp_watermark_id g \<and> gp_through_sequence g' = gp_through_sequence g
     \<and> (gp_open g' = gp_open g \<or> gp_through_sequence g = 1)"
  using assms by (auto simp: shrink_initial_def put_by_def split: option.splits if_splits dest!: next_where_Some)

lemma stream_inv_first:
  assumes inv: "stream_inv S w gaps" and d: "distinct (map gp_id gaps)"
    and none: "wmr_contiguous_through_sequence w = None" and e: "extended 1 (insert 1 S) e"
    and w': "wmr_contiguous_through_sequence w' = Some e" "wmr_id w' = wmr_id w"
      "wmr_has_gap w' = list_ex (open_gap_of (wmr_id w)) (shrink_initial (wmr_id w) gaps)"
  shows "stream_inv (insert 1 S) w' (shrink_initial (wmr_id w) gaps)"
proof -
  have c: "contiguous w = 0" "contiguous w' = e" "1 \<le> e"
    using none w' e by (auto simp: contiguous_def extended_def)
  have up: "{1..e} \<subseteq> insert 1 S" using e by (force simp: extended_def)
  have announced: "\<exists>g \<in> set (shrink_initial (wmr_id w) gaps). open_gap_of (wmr_id w) g
      \<and> gp_from_sequence g \<le> e + 1 \<and> gp_through_sequence g = m - 1" if m: "m \<in> insert 1 S" "e < m" for m
  proof -
    from m c have "m \<in> S" "0 < m" by auto
    with c obtain g where g: "g \<in> set gaps" "open_gap_of (wmr_id w) g" "gp_from_sequence g \<le> 1"
      "gp_through_sequence g = m - 1" using stream_inv_announced [OF inv, of m] by auto
    have "m - 1 \<noteq> 1" using e m \<open>m \<in> S\<close> by (auto simp: extended_def)
    moreover obtain g' where "g' \<in> set (shrink_initial (wmr_id w) gaps)" "gp_through_sequence g' = gp_through_sequence g"
      "g' = g \<or> g' = (if gp_through_sequence g = 1 then g\<lparr>gp_open := False\<rparr> else g\<lparr>gp_from_sequence := 2\<rparr>)"
      using shrink_initial_mem [OF d g(1), of "wmr_id w"] by blast
    ultimately show ?thesis using g c by (intro bexI [of _ g']) (auto simp: open_gap_of_def)
  qed
  have "gp_through_sequence g \<le> e"
    if "g \<in> set (shrink_initial (wmr_id w) gaps)" "gp_watermark_id g = wmr_id w" "\<not> gp_open g" for g
    using shrink_initial_from [OF that(1)] that(2,3) stream_invD(3) [OF inv] c by fastforce
  then show ?thesis by (intro stream_invI) (use up announced c w' in auto)
qed

lemma stream_inv_other:
  assumes inv: "stream_inv S w gaps" and not_next: "n \<noteq> contiguous w + 1"
    and w': "wmr_contiguous_through_sequence w' = wmr_contiguous_through_sequence w" "wmr_id w' = wmr_id w"
      "wmr_has_gap w'"
  shows "stream_inv (insert n S) w' (add_gap gid (wmr_id w) (contiguous w + 1) (n - 1) gaps)"
proof -
  have c: "contiguous w' = contiguous w" using w' by (simp add: contiguous_def)
  have sub: "set gaps \<subseteq> set (add_gap gid (wmr_id w) m k gaps)" for m k by (auto simp: add_gap_def)
  have "\<exists>g \<in> set (add_gap gid (wmr_id w) (contiguous w + 1) (n - 1) gaps). open_gap_of (wmr_id w) g
      \<and> gp_from_sequence g \<le> contiguous w + 1 \<and> gp_through_sequence g = n - 1" if "contiguous w < n"
  proof (cases "list_ex (\<lambda>g. gp_watermark_id g = wmr_id w \<and> gp_from_sequence g = contiguous w + 1
      \<and> gp_through_sequence g = n - 1) gaps")
    case True
    then obtain g where g: "g \<in> set gaps" "gp_watermark_id g = wmr_id w" "gp_from_sequence g = contiguous w + 1"
      "gp_through_sequence g = n - 1" by (auto simp: list_ex_iff)
    with inv that not_next have "gp_open g" by (force simp: stream_inv_def)
    with g sub show ?thesis by (force simp: open_gap_of_def)
  next
    case False
    then show ?thesis using that not_next by (auto simp: add_gap_def new_gap_def open_gap_of_def)
  qed
  moreover have "gp_through_sequence g \<le> contiguous w"
    if "g \<in> set (add_gap gid (wmr_id w) m k gaps)" "gp_watermark_id g = wmr_id w" "\<not> gp_open g" for g m k
    using that stream_invD(3) [OF inv] by (auto simp: add_gap_def new_gap_def split: if_splits)
  moreover have "\<exists>g \<in> set (add_gap gid (wmr_id w) (contiguous w + 1) (n - 1) gaps). open_gap_of (wmr_id w) g
      \<and> gp_from_sequence g \<le> contiguous w + 1 \<and> gp_through_sequence g = m - 1" if "m \<in> S" "contiguous w < m" for m
    using stream_inv_announced [OF inv that] sub by (metis subsetD)
  ultimately show ?thesis
    by (intro stream_invI) (use stream_invD(1,2) [OF inv] w' c in auto)
qed

section \<open>The invariant of the tables\<close>

definition stored_numbers :: "ExecTables \<Rightarrow> WatermarkRow \<Rightarrow> int set" where
  "stored_numbers db w = set (stream_sequences db (wmr_broker_id w) (wmr_account_id w) (wmr_source_partition w))"

definition watermark_inv :: "ExecTables \<Rightarrow> bool" where
  "watermark_inv db \<longleftrightarrow>
     distinct (map stream_key (et_watermarks db)) \<and> distinct (map wmr_id (et_watermarks db))
     \<and> distinct (map gp_id (et_gaps db))
     \<and> gp_watermark_id ` set (et_gaps db) \<subseteq> wmr_id ` set (et_watermarks db)
     \<and> (\<forall>w \<in> set (et_watermarks db). stream_inv (stored_numbers db w) w (et_gaps db))
     \<and> (\<forall>b a p. find_stream db b a p = None \<longrightarrow> stream_sequences db b a p = [])"

lemma watermark_inv_cong:
  assumes "et_watermarks db' = et_watermarks db" "et_gaps db' = et_gaps db" "et_fills db' = et_fills db"
  shows "watermark_inv db' \<longleftrightarrow> watermark_inv db"
  by (simp add: watermark_inv_def stored_numbers_def stream_sequences_def find_stream_def assms)

lemma stream_inv_gaps_of: "stream_inv S w gaps \<longleftrightarrow> stream_inv S w (gaps_of (wmr_id w) gaps)"
proof -
  have "(\<exists>g \<in> set gaps. open_gap_of (wmr_id w) g \<and> P g)
      \<longleftrightarrow> (\<exists>g \<in> set (gaps_of (wmr_id w) gaps). open_gap_of (wmr_id w) g \<and> P g)" for P
    by (auto simp: gaps_of_def open_gap_of_def)
  moreover have "(\<forall>g \<in> set gaps. gp_watermark_id g = wmr_id w \<longrightarrow> P g)
      \<longleftrightarrow> (\<forall>g \<in> set (gaps_of (wmr_id w) gaps). gp_watermark_id g = wmr_id w \<longrightarrow> P g)" for P
    by (auto simp: gaps_of_def)
  moreover have "list_ex (open_gap_of (wmr_id w)) gaps \<longleftrightarrow> list_ex (open_gap_of (wmr_id w)) (gaps_of (wmr_id w) gaps)"
    by (auto simp: gaps_of_def list_ex_iff open_gap_of_def)
  ultimately show ?thesis unfolding stream_inv_def by presburger
qed

lemma stream_inv_local:
  assumes "gaps_of (wmr_id w) gaps' = gaps_of (wmr_id w) gaps"
  shows "stream_inv S w gaps' \<longleftrightarrow> stream_inv S w gaps"
  by (subst (1 2) stream_inv_gaps_of) (simp add: assms)

lemma stream_sequences_put [simp]: "stream_sequences (put_stream w gaps db) = stream_sequences db"
  by (intro ext) (simp add: stream_sequences_def put_stream_def)

lemma gaps_of_shrink [simp]: "v \<noteq> wid \<Longrightarrow> gaps_of v (map (shrink_gap wid n) gaps) = gaps_of v gaps"
  by (induction gaps) (auto simp: gaps_of_def shrink_gap_def open_gap_of_def)

lemma gaps_of_add [simp]: "v \<noteq> wid \<Longrightarrow> gaps_of v (add_gap gid wid m n gaps) = gaps_of v gaps"
  by (simp add: add_gap_def gaps_of_def new_gap_def)

lemma gaps_of_initial [simp]:
  assumes "v \<noteq> wid" "distinct (map gp_id gaps)"
  shows "gaps_of v (shrink_initial wid gaps) = gaps_of v gaps"
proof (cases "next_where (\<lambda>g. open_gap_of wid g \<and> gp_from_sequence g = 1) gaps")
  case (Some x)
  note x = next_where_Some [OF Some]
  have "gaps_of v (put_by gp_id y gaps) = gaps_of v gaps"
    if "gp_id y = gp_id x" "gp_watermark_id y = wid" for y
  proof -
    have other: "gp_watermark_id g \<noteq> v" if "g \<in> set gaps" "gp_id g = gp_id y" for g
      using unique_by_key [OF assms(2) that(1), of x] x that \<open>gp_id y = gp_id x\<close> assms(1) by (auto simp: open_gap_of_def)
    from other that assms(1) show ?thesis
      unfolding gaps_of_def put_by_def by (induction gaps) auto
  qed
  then show ?thesis using Some x by (auto simp: shrink_initial_def open_gap_of_def)
qed (simp add: shrink_initial_def)

lemma gap_ids_shrink [simp]:
  "map gp_id (map (shrink_gap wid n) gaps) = map gp_id gaps"
  "map gp_id (shrink_initial wid gaps) = map gp_id gaps"
proof -
  show "map gp_id (map (shrink_gap wid n) gaps) = map gp_id gaps" by simp
  show "map gp_id (shrink_initial wid gaps) = map gp_id gaps"
    by (cases "next_where (\<lambda>g. open_gap_of wid g \<and> gp_from_sequence g = 1) gaps") (simp_all add: shrink_initial_def)
qed

lemma stream_sequences_snoc:
  assumes "et_fills db1 = et_fills db @ [f]" "fl_source_sequence f = Some n"
  shows "stream_sequences db1 b a p = stream_sequences db b a p
     @ (if (fl_broker_id f, fl_account_id f, fl_source_partition f) = (b, a, p) then [n] else [])"
  using assms by (simp add: stream_sequences_def map_filter_simps List.map_filter_def)

text \<open>A changed watermark and its gaps written back keep the invariant when they keep the invariant of
  their own stream.\<close>

lemma put_stream_inv:
  assumes inv: "watermark_inv db" and w: "find_stream db b a p = Some w"
    and db1: "et_watermarks db1 = et_watermarks db" "et_gaps db1 = et_gaps db"
    and others: "\<And>x y z. (x, y, z) \<noteq> (b, a, p) \<Longrightarrow> stream_sequences db1 x y z = stream_sequences db x y z"
    and w': "stream_key w' = stream_key w" "wmr_id w' = wmr_id w"
    and own: "stream_inv (set (stream_sequences db1 b a p)) w' gaps"
    and gaps: "\<And>v. v \<noteq> wmr_id w \<Longrightarrow> gaps_of v gaps = gaps_of v (et_gaps db)" "distinct (map gp_id gaps)"
      "gp_watermark_id ` set gaps \<subseteq> wmr_id ` set (et_watermarks db)"
  shows "watermark_inv (put_stream w' gaps db1)"
proof -
  let ?ws = "put_by stream_key w' (et_watermarks db)"
  have k: "stream_key w = (b, a, p)" and mem: "w \<in> set (et_watermarks db)"
    using get_by_Some [OF w [unfolded find_stream_def]] by auto
  have d: "distinct (map stream_key (et_watermarks db))" "distinct (map wmr_id (et_watermarks db))"
    using inv by (auto simp: watermark_inv_def)
  have ids: "map wmr_id ?ws = map wmr_id (et_watermarks db)"
    using unique_by_key [OF d(1) _ mem] w' by (auto simp: put_by_def)
  have each: "stream_inv (stored_numbers (put_stream w' gaps db1) x) x gaps" if "x \<in> set ?ws" for x
    using put_by_set [OF that]
  proof
    assume "x = w'"
    then show ?thesis using own k w' by (simp add: stored_numbers_def stream_key_def)
  next
    assume x: "x \<in> set (et_watermarks db) \<and> stream_key x \<noteq> stream_key w'"
    then have "wmr_id x \<noteq> wmr_id w" using unique_by_key [OF d(2) _ mem, of x] w' by auto
    then have "gaps_of (wmr_id x) gaps = gaps_of (wmr_id x) (et_gaps db)" by (rule gaps(1))
    moreover have "stored_numbers (put_stream w' gaps db1) x = stored_numbers db x"
      using others [of "wmr_broker_id x" "wmr_account_id x" "wmr_source_partition x"] x k w'
      by (simp add: stored_numbers_def stream_key_def)
    moreover have "stream_inv (stored_numbers db x) x (et_gaps db)" using inv x by (simp add: watermark_inv_def)
    ultimately show ?thesis by (simp add: stream_inv_local [of x gaps "et_gaps db"])
  qed
  have none: "stream_sequences db1 x y z = []" if "get_by stream_key (x, y, z) ?ws = None" for x y z
  proof -
    from that w w' k have "find_stream db x y z = None" "(x, y, z) \<noteq> (b, a, p)"
      by (auto simp: find_stream_def split: if_splits)
    with inv others show ?thesis by (simp add: watermark_inv_def)
  qed
  have "wmr_id ` set ?ws = wmr_id ` set (et_watermarks db)" using ids by (metis set_map)
  moreover have "et_watermarks (put_stream w' gaps db1) = ?ws" "et_gaps (put_stream w' gaps db1) = gaps"
    by (simp_all add: put_stream_def db1)
  ultimately show ?thesis
    unfolding watermark_inv_def find_stream_def using each none d ids gaps(2,3) by simp
qed

lemma new_stream_inv:
  assumes inv: "watermark_inv db" and none: "find_stream db b a p = None"
    and others: "\<And>x y z. (x, y, z) \<noteq> (b, a, p) \<Longrightarrow> stream_sequences db' x y z = stream_sequences db x y z"
    and db': "et_watermarks db' = et_watermarks db @ [w]" "stream_key w = (b, a, p)"
      "wmr_id w \<notin> wmr_id ` set (et_watermarks db)"
    and own: "stream_inv (set (stream_sequences db' b a p)) w (et_gaps db')"
    and gaps: "\<And>v. v \<noteq> wmr_id w \<Longrightarrow> gaps_of v (et_gaps db') = gaps_of v (et_gaps db)" "distinct (map gp_id (et_gaps db'))"
      "gp_watermark_id ` set (et_gaps db') \<subseteq> insert (wmr_id w) (wmr_id ` set (et_watermarks db))"
  shows "watermark_inv db'"
proof -
  have key: "stream_key x \<noteq> (b, a, p)" if "x \<in> set (et_watermarks db)" for x
    using none that by (auto simp: find_stream_def get_by_def next_where_None)
  have each: "stream_inv (stored_numbers db' x) x (et_gaps db')" if "x \<in> set (et_watermarks db')" for x
  proof (cases "x = w")
    case True
    then show ?thesis using own db'(2) by (simp add: stored_numbers_def stream_key_def)
  next
    case False
    with that db' have x: "x \<in> set (et_watermarks db)" by auto
    with db'(3) have ne: "wmr_id x \<noteq> wmr_id w" by (metis imageI)
    have "stored_numbers db' x = stored_numbers db x"
      using others [of "wmr_broker_id x" "wmr_account_id x" "wmr_source_partition x"] key [OF x]
      by (simp add: stored_numbers_def stream_key_def)
    moreover have "stream_inv (stored_numbers db x) x (et_gaps db)" using inv x by (simp add: watermark_inv_def)
    ultimately show ?thesis by (simp add: stream_inv_local [OF gaps(1) [OF ne]])
  qed
  have "stream_sequences db' x y z = []" if "find_stream db' x y z = None" for x y z
  proof -
    from that db' have "find_stream db x y z = None" "(x, y, z) \<noteq> (b, a, p)"
      by (auto simp: find_stream_def split: option.splits if_splits)
    with inv others show ?thesis by (simp add: watermark_inv_def)
  qed
  moreover have "distinct (map stream_key (et_watermarks db'))" "distinct (map wmr_id (et_watermarks db'))"
  proof -
    have d: "distinct (map stream_key (et_watermarks db))" "distinct (map wmr_id (et_watermarks db))"
      using inv by (auto simp: watermark_inv_def)
    then show "distinct (map stream_key (et_watermarks db'))" unfolding db'(1) distinct_map_snoc db'(2) using key by blast
    show "distinct (map wmr_id (et_watermarks db'))" unfolding db'(1) distinct_map_snoc using d db'(3) by (metis imageI)
  qed
  ultimately show ?thesis using each gaps(2,3) db'(1) by (simp add: watermark_inv_def)
qed

text \<open>Storing a sequenced fill and advancing its stream keeps the invariant.\<close>

lemma advance_stream_sequence_inv:
  assumes inv: "watermark_inv db"
    and db1: "et_watermarks db1 = et_watermarks db" "et_gaps db1 = et_gaps db" "et_fills db1 = et_fills db @ [f]"
    and f: "fl_source_sequence f = Some n"
    and fresh: "fst fresh \<notin> wmr_id ` set (et_watermarks db)" "snd fresh \<notin> gp_id ` set (et_gaps db)"
  shows "watermark_inv (advance_stream_sequence fresh db1 (fl_broker_id f) (fl_account_id f) (fl_source_partition f)
     n clock expires_at evidence_hash)"
proof -
  let ?b = "fl_broker_id f" and ?a = "fl_account_id f" and ?p = "fl_source_partition f"
  let ?db' = "advance_stream_sequence fresh db1 ?b ?a ?p n clock expires_at evidence_hash"
  note seqs = stream_sequences_snoc [OF db1(3) f]
  have others: "stream_sequences db1 x y z = stream_sequences db x y z" if "(x, y, z) \<noteq> (?b, ?a, ?p)" for x y z
    using that by (auto simp: seqs)
  have S: "set (stream_sequences db1 ?b ?a ?p) = insert n (set (stream_sequences db ?b ?a ?p))" by (simp add: seqs)
  have find: "find_stream db1 = find_stream db" by (intro ext) (simp add: find_stream_def db1)
  have gaps: "distinct (map gp_id (et_gaps db))"
    "gp_watermark_id ` set (et_gaps db) \<subseteq> wmr_id ` set (et_watermarks db)"
    using inv by (auto simp: watermark_inv_def)
  show ?thesis
  proof (cases "find_stream db ?b ?a ?p")
    case None
    then have none: "stream_sequences db ?b ?a ?p = []" using inv by (simp add: watermark_inv_def)
    let ?w = "last (et_watermarks ?db')"
    have unknown: "gp_watermark_id g \<noteq> fst fresh" if "g \<in> set (et_gaps db)" for g
      using gaps(2) fresh(1) that by (metis image_subset_iff)
    have own: "stream_inv {n} ?w (et_gaps ?db')"
      using None unknown
      by (intro stream_invI) (auto simp: advance_stream_sequence_def find db1 contiguous_def new_gap_def open_gap_of_def list_ex_iff
          split: if_splits)
    have seqs': "stream_sequences ?db' = stream_sequences db1"
      using None by (intro ext) (simp add: advance_stream_sequence_def find stream_sequences_def)
    show ?thesis
    proof (rule new_stream_inv [OF inv None, where w = ?w])
      show "stream_inv (set (stream_sequences ?db' ?b ?a ?p)) ?w (et_gaps ?db')"
        using own by (simp add: seqs' S none)
    qed (use None gaps fresh others seqs' in
        \<open>auto simp: advance_stream_sequence_def find db1 stream_key_def gaps_of_def new_gap_def\<close>)
  next
    case (Some w)
    have mem: "w \<in> set (et_watermarks db)" and k: "stream_key w = (?b, ?a, ?p)"
      using get_by_Some [OF Some [unfolded find_stream_def]] by auto
    have own: "stream_inv (set (stream_sequences db ?b ?a ?p)) w (et_gaps db)"
    proof -
      have "stored_numbers db w = set (stream_sequences db ?b ?a ?p)" using k by (simp add: stored_numbers_def stream_key_def)
      then show ?thesis using inv mem by (metis watermark_inv_def)
    qed
    note put = put_stream_inv [OF inv Some db1(1,2) others]
    have wid: "wmr_id w \<in> wmr_id ` set (et_watermarks db)" using mem by simp
    consider "wmr_contiguous_through_sequence w = None" "n = 1" | "wmr_contiguous_through_sequence w = Some (n - 1)"
      | "n \<noteq> contiguous w + 1" "wmr_contiguous_through_sequence w \<noteq> Some n" | "wmr_contiguous_through_sequence w = Some n"
      by (cases "wmr_contiguous_through_sequence w"; cases "contiguous w = n - 1") (auto simp: contiguous_def)
    then show ?thesis
    proof cases
      case 1
      let ?w = "w\<lparr>wmr_evidence_hash := evidence_hash, wmr_expires_at := expires_at, wmr_row_version := wmr_row_version w + 1,
        wmr_contiguous_through_sequence := Some (extend_contiguous 1 (sequences_after db1 ?b ?a ?p 1)),
        wmr_has_gap := list_ex (open_gap_of (wmr_id w)) (shrink_initial (wmr_id w) (et_gaps db))\<rparr>"
      have eq: "?db' = put_stream ?w (shrink_initial (wmr_id w) (et_gaps db)) db1"
        using 1 by (simp add: advance_stream_sequence_def find Some Let_def db1)
      have "stream_inv (set (stream_sequences db1 ?b ?a ?p)) ?w (shrink_initial (wmr_id w) (et_gaps db))"
        using stream_inv_first [OF own gaps(1) 1(1), of _ ?w] extended_sequences_after [of 1 db1 ?b ?a ?p] S 1 by simp
      moreover have "gp_watermark_id ` set (shrink_initial (wmr_id w) (et_gaps db)) \<subseteq> wmr_id ` set (et_watermarks db)"
      proof
        fix v
        assume "v \<in> gp_watermark_id ` set (shrink_initial (wmr_id w) (et_gaps db))"
        then obtain g where "g \<in> set (et_gaps db)" "v = gp_watermark_id g" using shrink_initial_from by fastforce
        with gaps(2) show "v \<in> wmr_id ` set (et_watermarks db)" by blast
      qed
      ultimately show ?thesis unfolding eq by (intro put) (use gaps in \<open>auto simp: stream_key_def\<close>)
    next
      case 2
      let ?w = "w\<lparr>wmr_evidence_hash := evidence_hash, wmr_expires_at := expires_at, wmr_row_version := wmr_row_version w + 1,
        wmr_contiguous_through_sequence := Some (extend_contiguous n (sequences_after db1 ?b ?a ?p n)),
        wmr_has_gap := list_ex (open_gap_of (wmr_id w)) (map (shrink_gap (wmr_id w) n) (et_gaps db)),
        wmr_covered_through_at := Some clock\<rparr>"
      have eq: "?db' = put_stream ?w (map (shrink_gap (wmr_id w) n) (et_gaps db)) db1"
        using 2 by (simp add: advance_stream_sequence_def find Some Let_def db1)
      have "stream_inv (set (stream_sequences db1 ?b ?a ?p)) ?w (map (shrink_gap (wmr_id w) n) (et_gaps db))"
        using stream_inv_next [OF own 2, of _ ?w] extended_sequences_after [of n db1 ?b ?a ?p] S by simp
      then show ?thesis unfolding eq
        by (intro put) (use gaps in \<open>auto simp: stream_key_def image_subset_iff comp_def\<close>)
    next
      case 3
      let ?w = "w\<lparr>wmr_evidence_hash := evidence_hash, wmr_expires_at := expires_at,
        wmr_row_version := wmr_row_version w + 1, wmr_has_gap := True\<rparr>"
      let ?gaps = "add_gap (snd fresh) (wmr_id w) (contiguous w + 1) (n - 1) (et_gaps db)"
      have eq: "?db' = put_stream ?w ?gaps db1"
        using 3 by (auto simp: advance_stream_sequence_def find Some Let_def db1 contiguous_def split: option.splits)
      have "stream_inv (set (stream_sequences db1 ?b ?a ?p)) ?w ?gaps"
        using stream_inv_other [OF own 3(1), of ?w] S by simp
      then show ?thesis unfolding eq
        by (intro put) (use gaps fresh(2) wid in \<open>auto simp: stream_key_def image_subset_iff add_gap_def new_gap_def gaps_of_def\<close>)
    next
      case 4
      then have "?db' = db1" "n \<in> set (stream_sequences db ?b ?a ?p)"
        using stream_invD(1,2) [OF own] by (auto simp: advance_stream_sequence_def find Some contiguous_def)
      moreover have "put_stream w (et_gaps db) db1 = db1"
        using put_by_same [of stream_key w "et_watermarks db"] Some k inv db1
        by (simp add: put_stream_def find_stream_def watermark_inv_def)
      ultimately show ?thesis
        using put [of w "et_gaps db"] own gaps S by (simp add: insert_absorb)
    qed
  qed
qed

lemma checkpoint_inv:
  assumes inv: "watermark_inv db" and c: "record_closed_interval_checkpoint fresh db cp = Inr db'"
    and fresh: "fresh \<notin> wmr_id ` set (et_watermarks db)"
  shows "watermark_inv db'"
proof -
  let ?b = "cp_broker_id cp" and ?a = "cp_account_id cp" and ?p = "cp_source_partition cp"
  have gaps: "distinct (map gp_id (et_gaps db))"
    "gp_watermark_id ` set (et_gaps db) \<subseteq> wmr_id ` set (et_watermarks db)"
    using inv by (auto simp: watermark_inv_def)
  have scopes: "watermark_inv (replace_scopes u cp x) \<longleftrightarrow> watermark_inv x" for u x
    by (rule watermark_inv_cong) (simp_all add: replace_scopes_def)
  show ?thesis
  proof (cases "find_stream db ?b ?a ?p")
    case None
    then have none: "stream_sequences db ?b ?a ?p = []" using inv by (simp add: watermark_inv_def)
    from c None obtain w where db': "db' = replace_scopes fresh cp (db\<lparr>et_watermarks := et_watermarks db @ [w]\<rparr>)"
      and w: "stream_key w = (?b, ?a, ?p)" "wmr_id w = fresh" "wmr_contiguous_through_sequence w = None"
      by (auto simp: record_closed_interval_checkpoint_def stream_key_def split: option.splits)
    let ?db = "db\<lparr>et_watermarks := et_watermarks db @ [w]\<rparr>"
    have unknown: "gp_watermark_id g \<noteq> fresh" if "g \<in> set (et_gaps db)" for g
      using gaps(2) fresh that by (metis image_subset_iff)
    have seqs: "stream_sequences ?db = stream_sequences db" by (intro ext) (simp add: stream_sequences_def)
    have "watermark_inv ?db"
      by (rule new_stream_inv [OF inv None, where w = w])
         (use seqs none w fresh gaps unknown in \<open>auto simp: stream_inv_def contiguous_def list_ex_iff open_gap_of_def\<close>)
    then show ?thesis by (simp add: db' scopes)
  next
    case (Some w)
    have mem: "w \<in> set (et_watermarks db)" and k: "stream_key w = (?b, ?a, ?p)"
      using get_by_Some [OF Some [unfolded find_stream_def]] by auto
    have own: "stream_inv (set (stream_sequences db ?b ?a ?p)) w (et_gaps db)"
    proof -
      have "stored_numbers db w = set (stream_sequences db ?b ?a ?p)" using k by (simp add: stored_numbers_def stream_key_def)
      then show ?thesis using inv mem by (metis watermark_inv_def)
    qed
    from c Some consider "db' = db"
      | w' where "db' = replace_scopes (wmr_id w) cp (put_stream w' (et_gaps db) db)" "stream_key w' = stream_key w"
        "wmr_id w' = wmr_id w" "wmr_contiguous_through_sequence w' = wmr_contiguous_through_sequence w"
        "wmr_has_gap w' \<longleftrightarrow> cp_has_gap cp \<or> list_ex (open_gap_of (wmr_id w)) (et_gaps db)"
      by (auto simp: record_closed_interval_checkpoint_def stream_key_def split: option.splits if_splits)
    then show ?thesis
    proof cases
      case 2
      have "stream_inv (set (stream_sequences db ?b ?a ?p)) w' (et_gaps db)"
        using own 2(3-5) by (auto simp: stream_inv_def contiguous_def)
      then show ?thesis
        unfolding 2(1) scopes by (intro put_stream_inv [OF inv Some]) (use 2 gaps in auto)
    qed (use inv in simp)
  qed
qed

section \<open>A gap that stays open\<close>

text \<open>The arrivals of one stream: the fill of each number is stored, then the watermark advances.\<close>

definition stream_fill :: "int \<Rightarrow> FillRow" where
  "stream_fill n =
     \<lparr>fl_id = of_int n, fl_order_id = 11, fl_account_id = 4, fl_instrument_id = 5, fl_broker_id = 9,
      fl_broker_execution_id = int_str n, fl_broker_order_id = ''B-1'', fl_source_partition = ''p'',
      fl_source_sequence = Some n, fl_side = BUY, fl_quantity = 1, fl_price = 1, fl_currency = Some ''USD'',
      fl_executed_at = n, fl_observed_at = n, fl_canonical_payload_hash = []\<rparr>"

definition arrive :: "int \<Rightarrow> ExecTables \<Rightarrow> ExecTables" where
  "arrive n db = advance_stream_sequence (100, of_int (200 + n)) (db\<lparr>et_fills := et_fills db @ [stream_fill n]\<rparr>)
     9 4 ''p'' n n (n + 100) []"

definition stuck :: "ExecTables \<Rightarrow> bool" where
  "stuck db = (case find_stream db 9 4 ''p'' of
     Some w \<Rightarrow> (case wmr_contiguous_through_sequence w of
       Some c \<Rightarrow> wmr_has_gap w \<and> list_ex (\<lambda>g. open_gap_of (wmr_id w) g \<and> gp_through_sequence g \<le> c) (et_gaps db)
     | None \<Rightarrow> False)
   | None \<Rightarrow> False)"

lemma stuckD:
  assumes "stuck db"
  obtains w c g where "find_stream db 9 4 ''p'' = Some w" "wmr_contiguous_through_sequence w = Some c" "wmr_has_gap w"
    "g \<in> set (et_gaps db)" "open_gap_of (wmr_id w) g" "gp_through_sequence g \<le> c"
  using assms by (auto simp: stuck_def list_ex_iff split: option.splits)

lemma stuckI:
  assumes "find_stream db 9 4 ''p'' = Some w" "wmr_contiguous_through_sequence w = Some c" "wmr_has_gap w"
    "g \<in> set (et_gaps db)" "open_gap_of (wmr_id w) g" "gp_through_sequence g \<le> c"
  shows "stuck db"
  using assms by (auto simp: stuck_def list_ex_iff)

lemma find_put_stream:
  assumes "find_stream db b a p = Some w" "stream_key w' = stream_key w"
  shows "find_stream (put_stream w' gaps db) b a p = Some w'"
  using assms get_by_Some(2) [OF assms(1) [unfolded find_stream_def]] by (simp add: find_stream_def put_stream_def)

lemma stuck_arrive:
  assumes "stuck db" shows "stuck (arrive n db)"
  using assms
proof (rule stuckD)
  fix w c g
  assume w: "find_stream db 9 4 ''p'' = Some w" "wmr_contiguous_through_sequence w = Some c" "wmr_has_gap w"
    and g: "g \<in> set (et_gaps db)" "open_gap_of (wmr_id w) g" "gp_through_sequence g \<le> c"
  let ?db = "db\<lparr>et_fills := et_fills db @ [stream_fill n]\<rparr>"
  have w1: "find_stream ?db 9 4 ''p'' = Some w" using w by (simp add: find_stream_def)
  consider "n = c + 1" | "n = c" | "n \<noteq> c + 1" "n \<noteq> c" by blast
  then show ?thesis
  proof cases
    case 1
    have same: "shrink_gap (wmr_id w) n g = g" using g 1 by (simp add: shrink_gap_def)
    obtain w' where eq: "arrive n db = put_stream w' (map (shrink_gap (wmr_id w) n) (et_gaps db)) ?db"
      and w': "stream_key w' = stream_key w" "wmr_id w' = wmr_id w" 
        "wmr_contiguous_through_sequence w' = Some (extend_contiguous n (sequences_after ?db 9 4 ''p'' n))"
        "wmr_has_gap w' = list_ex (open_gap_of (wmr_id w)) (map (shrink_gap (wmr_id w) n) (et_gaps db))"
      using 1 w w1 by (simp add: arrive_def advance_stream_sequence_def Let_def stream_key_def)
    have mem: "g \<in> set (map (shrink_gap (wmr_id w) n) (et_gaps db))" using g same by (metis image_eqI list.set_map)
    show ?thesis unfolding eq
      by (rule stuckI [OF find_put_stream [OF w1 w'(1)] w'(3), of g])
         (use mem g w' 1 extend_contiguous_ge [of n "sequences_after ?db 9 4 ''p'' n"] in
           \<open>auto simp: put_stream_def list_ex_iff simp del: set_map\<close>)
  next
    case 2
    then show ?thesis using w w1 g by (intro stuckI [OF _ w(2,3) _ g(2,3)]) (auto simp: arrive_def advance_stream_sequence_def)
  next
    case 3
    obtain w' gaps where eq: "arrive n db = put_stream w' gaps ?db" "g \<in> set gaps"
      and w': "stream_key w' = stream_key w" "wmr_id w' = wmr_id w" "wmr_contiguous_through_sequence w' = Some c" "wmr_has_gap w'"
      using 3 w w1 g by (simp add: arrive_def advance_stream_sequence_def Let_def stream_key_def add_gap_def)
    show ?thesis unfolding eq(1)
      by (rule stuckI [OF find_put_stream [OF w1 w'(1)] w'(3,4), of g]) (use eq(2) w' g in \<open>auto simp: put_stream_def\<close>)
  qed
qed

lemma stuck_forever: "stuck db \<Longrightarrow> map_option wmr_has_gap (find_stream (foldl (\<lambda>db n. arrive n db) db later) 9 4 ''p'') = Some True"
proof (induction later arbitrary: db)
  case Nil
  then show ?case by (auto simp: stuck_def split: option.splits)
next
  case (Cons n later)
  then show ?case using stuck_arrive [OF Cons.prems] by simp
qed

text \<open>An order of arrival that leaves a gap open for good. When the executions 1, 5, 4, 2, 3 of a
  stream arrive in this order, all five are stored and the watermark reaches 5, and yet it reports a
  gap, because the row for the gap below 5 was shrunk to the number 4 and is never closed; no later
  arrivals, whatever their numbers, clear it.\<close>

theorem complete_stream_reports_gap:
  "(let db = foldl (\<lambda>db n. arrive n db) empty_tables [1, 5, 4, 2, 3] in
     stream_sequences db 9 4 ''p'' = [1, 5, 4, 2, 3]
     \<and> map_option wmr_contiguous_through_sequence (find_stream db 9 4 ''p'') = Some (Some 5)
     \<and> (\<forall>later. map_option wmr_has_gap (find_stream (foldl (\<lambda>db n. arrive n db) db later) 9 4 ''p'') = Some True))"
proof -
  let ?run = "foldl (\<lambda>db n. arrive n db)"
  let ?db = "?run empty_tables [1, 5, 4, 2, 3]"
  have "stream_sequences ?db 9 4 ''p'' = [1, 5, 4, 2, 3]"
    "map_option wmr_contiguous_through_sequence (find_stream ?db 9 4 ''p'') = Some (Some 5)" by code_simp+
  moreover have "stuck ?db" by code_simp
  ultimately show ?thesis unfolding Let_def using stuck_forever by blast
qed

end
