(* ===== verification/FillStore.thy ===== *)
theory FillStore
  imports Fills
begin

text \<open>
  \<^verbatim>\<open>persistence/mysql/repositories/fills.py\<close> and \<^verbatim>\<open>terminal_release_store.py\<close>: one broker execution
  applied to the order, its watermark, the position with its lots and lifecycle, the reservation and
  the budget anchors, and the release of what is left of a reservation once the order is over and its
  executions are complete. Shown here: an execution is applied once, a position is the running sum of
  its fills, the budget anchors stay equal to the reservations they cover, and a release happens only
  on evidence that every sequenced execution has been stored.
\<close>

section \<open>Storing a fill once\<close>

datatype FillInsertResult = FILL_INSERTED | FILL_DUPLICATE | FILL_PAYLOAD_CONFLICT

definition fill_key :: "FillRow \<Rightarrow> uuid \<times> uuid \<times> string" where
  "fill_key f = (fl_broker_id f, fl_account_id f, fl_broker_execution_id f)"

definition fill_row_ok :: "FillRow \<Rightarrow> bool" where
  "fill_row_ok f \<longleftrightarrow> fl_quantity f > 0 \<and> fl_price f > 0 \<and> fl_currency f \<noteq> None"

definition persist_once ::
  "ExecTables \<Rightarrow> FillRow \<Rightarrow> ExecutionChargeComponent list \<Rightarrow> (ExecTables \<times> FillRow \<times> FillInsertResult) result" where
  "persist_once db fill components =
     (let db = lock_global_dispatch_guard db;
          inserted = (get_by fill_key (fill_key fill) (et_fills db) = None \<and> fill_row_ok fill);
          db1 = (if inserted then db\<lparr>et_fills := et_fills db @ [fill]\<rparr> else db)
      in case get_by fill_key (fill_key fill) (et_fills db1) of
           None \<Rightarrow> Inl (RuntimeError ''inserted fill cannot be read'')
         | Some existing \<Rightarrow>
             if fl_canonical_payload_hash existing \<noteq> fl_canonical_payload_hash fill
             then Inr (add_incident (blocking_incident ''BROKER_EXECUTION_IDENTITY_PAYLOAD_CONFLICT''
                         (fl_order_id existing) (fl_observed_at fill)) db1, existing, FILL_PAYLOAD_CONFLICT)
             else if \<not> inserted then Inr (db1, existing, FILL_DUPLICATE)
             else Inr (db1\<lparr>et_charges := et_charges db1 @ map (\<lambda>c. (fl_id existing, c)) components\<rparr>,
                       existing, FILL_INSERTED))"

section \<open>The order\<close>

definition fill_status :: "decimal \<Rightarrow> decimal \<Rightarrow> OrderStatus" where
  "fill_status filled requested =
     (if filled > requested then UNKNOWN else if filled = requested then FILLED else PARTIALLY_FILLED)"

definition filled_order :: "OrderRow \<Rightarrow> decimal \<Rightarrow> OrderRow" where
  "filled_order ord q =
     (let filled = dadd (orow_filled_quantity ord) q
      in ord\<lparr>orow_filled_quantity := filled, ord_aggregate_version := ord_aggregate_version ord + 1,
             ord_status := fill_status filled (ord_requested_quantity ord)\<rparr>)"

definition apply_order_fill :: "ExecTables \<Rightarrow> OrderRow \<Rightarrow> BrokerExecutionEvent \<Rightarrow> ExecTables" where
  "apply_order_fill db ord e =
     (let ord' = filled_order ord (ex_quantity e);
          db1 = put_order ord' db
      in if orow_filled_quantity ord' > ord_requested_quantity ord
         then add_incident (blocking_incident ''ORDER_OVERFILL'' (ord_id ord) (ex_observed_at e)) db1 else db1)"

text \<open>\<^verbatim>\<open>observed_at.replace(hour=23, minute=59)\<close>, in microseconds.\<close>

definition end_of_day :: "instant \<Rightarrow> instant" where
  "end_of_day t = t - t mod 86400000000 + (23 * 3600 + 59 * 60) * 1000000 + t mod 60000000"

definition advance_for_fill :: "uuid \<times> uuid \<Rightarrow> ExecTables \<Rightarrow> BrokerExecutionEvent \<Rightarrow> ExecTables" where
  "advance_for_fill fresh db e =
     (case ex_source_sequence e of
        None \<Rightarrow> db
      | Some n \<Rightarrow> advance_stream_sequence fresh db (ex_broker_id e) (ex_account_id e) (ex_source_partition e) n
                   (ex_observed_at e) (end_of_day (ex_observed_at e)) (ex_payload_hash e))"

section \<open>The position\<close>

definition position_key :: "PositionRow \<Rightarrow> uuid \<times> uuid" where
  "position_key p = (po_account_id p, po_instrument_id p)"

text \<open>The locked position, created when missing, and its denomination.\<close>

definition locked_position :: "uuid \<Rightarrow> ExecTables \<Rightarrow> BrokerExecutionEvent \<Rightarrow> ExecTables \<times> PositionRow" where
  "locked_position fresh db e =
     (case get_by position_key (ex_account_id e, ex_instrument_id e) (et_positions db) of
        None \<Rightarrow>
          let p = \<lparr>po_id = fresh, po_account_id = ex_account_id e, po_instrument_id = ex_instrument_id e,
                   po_quantity = 0, po_average_cost = 0, po_observed_at = ex_observed_at e,
                   po_blocking_risk = False, po_currency = Some (ex_currency e), po_settlement_asset = None\<rparr>
          in (db\<lparr>et_positions := et_positions db @ [p]\<rparr>, p)
      | Some p \<Rightarrow>
          (db, if po_currency p = None \<and> po_settlement_asset p = None then p\<lparr>po_currency := Some (ex_currency e)\<rparr> else p))"

text \<open>The new average cost; a buy from a long or flat position leaves a positive quantity to divide by.\<close>

definition new_average_cost :: "PositionRow \<Rightarrow> decimal \<Rightarrow> BrokerExecutionEvent \<Rightarrow> decimal" where
  "new_average_cost p quantity e =
     (let previous = po_quantity p
      in if ex_side e = BUY \<and> previous \<ge> 0
         then ddiv (dadd (dmul (po_average_cost p) previous) (dmul (ex_price e) (ex_quantity e))) quantity
         else if quantity = 0 then 0
         else if previous = 0 \<or> dmul previous quantity < 0 then ex_price e
         else po_average_cost p)"

definition filled_position :: "PositionRow \<Rightarrow> BrokerExecutionEvent \<Rightarrow> PositionRow" where
  "filled_position p e =
     (let quantity = dadd (po_quantity p) (signed_quantity (ex_side e) (ex_quantity e))
      in p\<lparr>po_quantity := quantity, po_average_cost := new_average_cost p quantity e,
           po_observed_at := ex_observed_at e, po_blocking_risk := (quantity < 0 \<or> po_blocking_risk p)\<rparr>)"

definition put_position :: "PositionRow \<Rightarrow> ExecTables \<Rightarrow> ExecTables" where
  "put_position p db = db\<lparr>et_positions := put_by position_key p (et_positions db)\<rparr>"

fun close_lots :: "decimal \<Rightarrow> LotRow list \<Rightarrow> LotRow list" where
  "close_lots remaining [] = []"
| "close_lots remaining (lot # lots) =
     (let closed = min (lot_remaining_quantity lot) remaining;
          remaining' = dsub remaining closed;
          lot' = lot\<lparr>lot_remaining_quantity := dsub (lot_remaining_quantity lot) closed\<rparr>
      in lot' # (if remaining' = 0 then lots else close_lots remaining' lots))"

definition open_lots :: "ExecTables \<Rightarrow> uuid \<Rightarrow> LotRow list" where
  "open_lots db position_id =
     sort_key (\<lambda>l. (lot_opened_at l, lot_id l))
       (filter (\<lambda>l. lot_position_id l = position_id \<and> lot_remaining_quantity l > 0) (et_lots db))"

definition close_position_lots :: "ExecTables \<Rightarrow> PositionRow \<Rightarrow> BrokerExecutionEvent \<Rightarrow> ExecTables" where
  "close_position_lots db p e =
     (if ex_side e = SELL \<and> po_quantity p > 0
      then db\<lparr>et_lots := foldl (\<lambda>rows l. put_by lot_id l rows) (et_lots db)
                (close_lots (min (po_quantity p) (ex_quantity e)) (open_lots db (po_id p)))\<rparr>
      else db)"

section \<open>The lineage of the position\<close>

definition lifecycle_key :: "PositionLifecycle \<Rightarrow> uuid \<times> int" where
  "lifecycle_key l = (lc_position_id l, lc_lifecycle_ordinal l)"

definition active_lifecycle :: "ExecTables \<Rightarrow> uuid \<Rightarrow> PositionLifecycle option" where
  "active_lifecycle db position_id =
     next_where (\<lambda>l. lc_position_id l = position_id \<and> lc_closed_at l = None) (et_lifecycles db)"

definition next_ordinal :: "ExecTables \<Rightarrow> uuid \<Rightarrow> int" where
  "next_ordinal db position_id =
     foldl max 0 (map lc_lifecycle_ordinal (filter (\<lambda>l. lc_position_id l = position_id) (et_lifecycles db))) + 1"

definition risk_increase_quantity :: "Side \<Rightarrow> decimal \<Rightarrow> decimal \<Rightarrow> decimal" where
  "risk_increase_quantity side quantity previous =
     (if side = BUY \<and> previous \<ge> 0 then quantity
      else if side = BUY then max 0 (dadd quantity previous) else 0)"

definition record_position_lineage ::
  "uuid \<Rightarrow> ExecTables \<Rightarrow> uuid \<Rightarrow> decimal \<Rightarrow> uuid \<Rightarrow> Side \<Rightarrow> decimal \<Rightarrow> instant \<Rightarrow> ExecTables result" where
  "record_position_lineage fresh db position_id previous_quantity fill_id side quantity executed_at =
     (let active = active_lifecycle db position_id
      in and_then
           (apply_lifecycle_transition position_id previous_quantity side quantity fill_id executed_at
              (next_ordinal db position_id)
              (map_option (\<lambda>l. l\<lparr>lc_closing_fill_id := None, lc_closed_at := None\<rparr>) active))
           (\<lambda>transition.
              let closed = (case (active, plt_closed transition) of
                    (Some a, Some _) \<Rightarrow>
                      put_by lifecycle_key (a\<lparr>lc_closing_fill_id := Some fill_id, lc_closed_at := Some executed_at\<rparr>)
                        (et_lifecycles db)
                  | _ \<Rightarrow> et_lifecycles db);
                  lifecycles = (case plt_opened transition of
                    None \<Rightarrow> closed
                  | Some o' \<Rightarrow> closed @ [opened_lifecycle position_id (lc_lifecycle_ordinal o') fill_id executed_at (lc_kind o')]);
                  lot_quantity = risk_increase_quantity side quantity (plt_previous_quantity transition);
                  lots = (if lot_quantity > 0
                    then et_lots db @ [\<lparr>lot_id = fresh, lot_position_id = position_id, lot_opening_fill_id = fill_id,
                           lot_opened_quantity = lot_quantity, lot_remaining_quantity = lot_quantity,
                           lot_opened_at = executed_at\<rparr>]
                    else et_lots db)
              in Inr (db\<lparr>et_lifecycles := lifecycles, et_lots := lots\<rparr>)))"

section \<open>The reservation and the anchors\<close>

definition consumed_reservation :: "ReservationRow \<Rightarrow> decimal \<Rightarrow> decimal \<Rightarrow> decimal \<Rightarrow> ReservationRow" where
  "consumed_reservation r consumed reclaimed from_remaining =
     (let r' = r\<lparr>rr_consumed_risk_amount := dadd (rr_consumed_risk_amount r) consumed,
                rr_released_risk_amount := dsub (rr_released_risk_amount r) reclaimed,
                rr_remaining_risk_amount := dsub (rr_remaining_risk_amount r) from_remaining\<rparr>
      in r'\<lparr>rr_status := (if rr_remaining_risk_amount r' \<noteq> 0 \<or> rr_released_risk_amount r' \<noteq> 0
                          then PARTIALLY_CONSUMED else CONSUMED)\<rparr>)"

definition consumed_anchor :: "decimal \<Rightarrow> decimal \<Rightarrow> RiskBudgetAnchorView \<Rightarrow> RiskBudgetAnchorView" where
  "consumed_anchor from_remaining attributable a =
     a\<lparr>av_remaining_reservation_amount := dsub (av_remaining_reservation_amount a) from_remaining,
       av_position_risk_amount := dadd (av_position_risk_amount a) attributable,
       av_row_version := av_row_version a + 1\<rparr>"

definition find_reservation :: "'a RiskTables_scheme \<Rightarrow> uuid \<Rightarrow> ReservationRow option" where
  "find_reservation db decision_id = get_by rr_risk_decision_id decision_id (rt_reservations db)"

definition put_reservation :: "ReservationRow \<Rightarrow> 'a RiskTables_scheme \<Rightarrow> 'a RiskTables_scheme" where
  "put_reservation r db = db\<lparr>rt_reservations := put_by rr_risk_decision_id r (rt_reservations db)\<rparr>"

definition consume_reservation ::
  "ExecTables \<Rightarrow> RiskBudgetAnchorView \<times> RiskBudgetAnchorView \<Rightarrow> OrderRow \<Rightarrow> BrokerExecutionEvent \<Rightarrow> decimal \<Rightarrow> ExecTables" where
  "consume_reservation db anchors ord e previous_quantity =
     (case find_reservation db (ord_risk_decision_id ord) of
        None \<Rightarrow> db
      | Some r \<Rightarrow>
          let attributable = dmul (ex_price e) (risk_increase_quantity (ex_side e) (ex_quantity e) previous_quantity);
              reclaimed = min (rr_released_risk_amount r) attributable;
              from_remaining = min (rr_remaining_risk_amount r) (dsub attributable reclaimed);
              consumed = dadd reclaimed from_remaining;
              db1 = put_reservation (consumed_reservation r consumed reclaimed from_remaining) db;
              db2 = db1\<lparr>rt_anchors :=
                put_anchor (consumed_anchor from_remaining attributable (snd anchors))
                  (put_anchor (consumed_anchor from_remaining attributable (fst anchors)) (rt_anchors db1))\<rparr>;
              db3 = (if reclaimed \<noteq> 0
                     then add_incident (blocking_incident ''LATE_FILL_AFTER_RESERVATION_RELEASE'' (ord_id ord) (ex_observed_at e)) db2
                     else db2)
          in if attributable > consumed
             then add_incident (blocking_incident ''FILL_RISK_EXCEEDS_RESERVATION'' (ord_id ord) (ex_observed_at e)) db3
             else db3)"

section \<open>Applying an execution\<close>

record FillIds =
  fli_fill :: uuid
  fli_watermark :: uuid
  fli_gap :: uuid
  fli_position :: uuid
  fli_lot :: uuid
  fli_event :: uuid

definition fill_row :: "uuid \<Rightarrow> BrokerExecutionEvent \<Rightarrow> FillRow" where
  "fill_row fresh e =
     \<lparr>fl_id = fresh, fl_order_id = ex_order_id e, fl_account_id = ex_account_id e,
      fl_instrument_id = ex_instrument_id e, fl_broker_id = ex_broker_id e,
      fl_broker_execution_id = ex_broker_execution_id e, fl_broker_order_id = ex_broker_order_id e,
      fl_source_partition = ex_source_partition e, fl_source_sequence = ex_source_sequence e,
      fl_side = ex_side e, fl_quantity = ex_quantity e, fl_price = ex_price e,
      fl_currency = Some (ex_currency e), fl_executed_at = ex_executed_at e,
      fl_observed_at = ex_observed_at e, fl_canonical_payload_hash = ex_payload_hash e\<rparr>"

definition fill_envelope :: "uuid \<Rightarrow> OrderRow \<Rightarrow> uuid \<Rightarrow> BrokerExecutionEvent \<Rightarrow> EventEnvelope" where
  "fill_envelope event_id ord fill_id e =
     \<lparr>env_event_id = event_id, env_event_type = ''execution.fill.applied'', env_schema_version = 1,
      env_occurred_at = ex_executed_at e, env_observed_at = ex_observed_at e,
      env_producer = ''execution-fill-service'', env_partition_key = uuid_str (ord_account_id ord),
      env_aggregate_type = ''Order'', env_aggregate_id = ord_id ord,
      env_aggregate_version = ord_aggregate_version ord, env_correlation_id = ord_order_intent_id ord,
      env_causation_id = Some fill_id, env_trace_id = uuid_hex (ord_id ord),
      env_payload = FillAppliedPayload (ex_broker_execution_id e) (ex_quantity e) (orow_filled_quantity ord)
        (orow_filled_quantity ord > ord_requested_quantity ord)\<rparr>"

text \<open>The guards of \<^verbatim>\<open>apply_event_once\<close> before the fill is stored.\<close>

definition fill_guards ::
  "ExecTables \<Rightarrow> BrokerExecutionEvent \<Rightarrow> ((RiskBudgetAnchorView \<times> RiskBudgetAnchorView) \<times> OrderRow) result" where
  "fill_guards db e =
     (case lock_global_and_account (rt_anchors db) (ex_account_id e) (ex_currency e) of
        None \<Rightarrow> Inl (ValueError ''risk budget anchors are required before a fill applies'')
      | Some anchors \<Rightarrow>
     (case get_by ord_id (ex_order_id e) (et_orders db) of
        None \<Rightarrow> Inl (LookupError ''canonical order not found'')
      | Some ord \<Rightarrow>
          if ord_account_id ord \<noteq> ex_account_id e \<or> ord_instrument_id ord \<noteq> ex_instrument_id e
             \<or> ord_side ord \<noteq> ex_side e
          then Inl (ValueError ''broker execution does not match canonical order'')
          else if \<not> list_ex (\<lambda>l. lk_order_id l = ord_id ord \<and> lk_broker_order_id l = ex_broker_order_id e) (et_links db)
          then Inl (ValueError ''broker execution is not linked to the canonical order'')
          else Inr (anchors, ord)))"

text \<open>The part after the fill has been stored.\<close>

definition apply_stored_fill ::
  "Digests \<Rightarrow> instant \<Rightarrow> FillIds \<Rightarrow> ExecTables \<Rightarrow> RiskBudgetAnchorView \<times> RiskBudgetAnchorView \<Rightarrow> OrderRow
    \<Rightarrow> FillRow \<Rightarrow> BrokerExecutionEvent \<Rightarrow> ExecTables result" where
  "apply_stored_fill sha clock ids db anchors ord persisted e =
     (let ord' = filled_order ord (ex_quantity e);
          db1 = advance_for_fill (fli_watermark ids, fli_gap ids) (apply_order_fill db ord e) e;
          (db2, p) = locked_position (fli_position ids) db1 e;
          db3 = put_position (filled_position p e) db2;
          db4 = close_position_lots db3 p e
      in and_then (record_position_lineage (fli_lot ids) db4 (po_id p) (po_quantity p) (fl_id persisted)
                     (ex_side e) (ex_quantity e) (ex_executed_at e)) (\<lambda>db5.
         let db6 = consume_reservation db5 anchors ord e (po_quantity p);
             db7 = db6\<lparr>et_order_events := et_order_events db6 @
                     [\<lparr>ode_order_id = ord_id ord, ode_aggregate_version = ord_aggregate_version ord',
                       ode_status = ord_status ord', ode_raw_status = ''FILL_APPLIED'',
                       ode_occurred_at = ex_executed_at e, oev_id = fli_event ids\<rparr>]\<rparr>
         in enqueue sha clock db7 (fill_envelope (fli_event ids) ord' (fl_id persisted) e) (ex_observed_at e)))"

definition apply_fill_once ::
  "Digests \<Rightarrow> instant \<Rightarrow> FillIds \<Rightarrow> ExecTables \<Rightarrow> BrokerExecutionEvent \<Rightarrow> (ExecTables \<times> FillApplication option) result" where
  "apply_fill_once sha clock ids db e =
     (let db = lock_global_dispatch_guard db
      in and_then (fill_guards db e) (\<lambda>(anchors, ord).
         and_then (persist_once db (fill_row (fli_fill ids) e) (ex_charges e)) (\<lambda>(db1, persisted, result).
           if result \<noteq> FILL_INSERTED then Inr (db1, None)
           else and_then (apply_stored_fill sha clock ids db1 anchors ord persisted e) (\<lambda>db2.
             let ord' = filled_order ord (ex_quantity e)
             in Inr (db2, Some \<lparr>fa_fill = \<lparr>fi_id = fl_id persisted, fi_order_id = ord_id ord,
                    fi_broker_execution_id = fl_broker_execution_id persisted, fi_quantity = fl_quantity persisted,
                    fi_price = fl_price persisted, fi_side = ex_side e, fi_executed_at = fl_executed_at persisted,
                    fi_charges = ex_charges e\<rparr>,
                  fa_total_filled_quantity = orow_filled_quantity ord',
                  fa_overfill = (orow_filled_quantity ord' > ord_requested_quantity ord)\<rparr>)))))"

section \<open>Terminal release\<close>

record TerminalReleaseApplication =
  tra_released :: bool
  tra_reason :: "string option"

definition terminal_events :: "ExecTables \<Rightarrow> uuid \<Rightarrow> instant list" where
  "terminal_events db order_id =
     map ode_occurred_at (filter (\<lambda>e. ode_order_id e = order_id \<and> ode_status e \<in> set [FILLED, CANCELED, REJECTED, EXPIRED])
       (et_order_events db))"

definition terminal_time :: "ExecTables \<Rightarrow> uuid \<Rightarrow> instant option" where
  "terminal_time db order_id = (case terminal_events db order_id of [] \<Rightarrow> None | t # ts \<Rightarrow> Some (foldl max t ts))"

definition released_anchor :: "decimal \<Rightarrow> RiskBudgetAnchorView \<Rightarrow> RiskBudgetAnchorView result" where
  "released_anchor amount a =
     (if av_remaining_reservation_amount a < amount
      then Inl (ValueError ''risk budget anchor cannot release more than reserved'')
      else Inr (a\<lparr>av_remaining_reservation_amount := dsub (av_remaining_reservation_amount a) amount,
                  av_row_version := av_row_version a + 1\<rparr>))"

definition released_reservation :: "ReservationRow \<Rightarrow> ReservationRow" where
  "released_reservation r =
     r\<lparr>rr_remaining_risk_amount := 0,
       rr_released_risk_amount := dadd (rr_released_risk_amount r) (rr_remaining_risk_amount r),
       rr_status := RELEASED, rr_release_reason := Some ''BROKER_TERMINAL_EXECUTION_COMPLETE''\<rparr>"

definition release_envelope :: "uuid \<Rightarrow> OrderRow \<Rightarrow> decimal \<Rightarrow> instant \<Rightarrow> EventEnvelope" where
  "release_envelope event_id ord released clock =
     \<lparr>env_event_id = event_id, env_event_type = ''execution.reservation.released'', env_schema_version = 1,
      env_occurred_at = clock, env_observed_at = clock, env_producer = ''execution-terminal-release'',
      env_partition_key = uuid_str (ord_account_id ord), env_aggregate_type = ''Order'',
      env_aggregate_id = ord_id ord, env_aggregate_version = ord_aggregate_version ord,
      env_correlation_id = ord_order_intent_id ord, env_causation_id = None,
      env_trace_id = uuid_hex (ord_id ord),
      env_payload = ReservationReleasedPayload released ''BROKER_TERMINAL_EXECUTION_COMPLETE''\<rparr>"

text \<open>The writes of a release: both anchors, the reservation, the audit log and the outbox.\<close>

definition write_release ::
  "Digests \<Rightarrow> uuid \<Rightarrow> ExecTables \<Rightarrow> RiskBudgetAnchorView \<times> RiskBudgetAnchorView \<Rightarrow> OrderRow \<Rightarrow> ReservationRow
    \<Rightarrow> instant \<Rightarrow> ExecTables result" where
  "write_release sha fresh db anchors ord r clock =
     (let released = rr_remaining_risk_amount r
      in and_then (released_anchor released (fst anchors)) (\<lambda>g.
         and_then (released_anchor released (snd anchors)) (\<lambda>a.
           let db1 = put_reservation (released_reservation r)
                 (db\<lparr>rt_anchors := put_anchor a (put_anchor g (rt_anchors db))\<rparr>);
               db2 = db1\<lparr>et_audit := et_audit db1 @
                 [\<lparr>aud_action = ''TERMINAL_RESERVATION_RELEASED'', aud_scope_type = ''ORDER'',
                   aud_scope_key = uuid_str (ord_id ord), aud_occurred_at = clock\<rparr>]\<rparr>
           in enqueue sha clock db2 (release_envelope fresh ord released clock) clock)))"

definition release_if_complete ::
  "Digests \<Rightarrow> uuid \<Rightarrow> ExecTables \<Rightarrow> uuid \<Rightarrow> uuid \<Rightarrow> string \<Rightarrow> instant
    \<Rightarrow> (ExecTables \<times> TerminalReleaseApplication) result" where
  "release_if_complete sha fresh db order_id broker_id part clock =
     (case get_by ord_id order_id (et_orders db) of
        None \<Rightarrow> Inl (LookupError ''canonical order not found'')
      | Some ord \<Rightarrow>
     (case get_by rd_id (ord_risk_decision_id ord) (rt_decisions db) of
        None \<Rightarrow> Inl (LookupError ''risk decision not found'')
      | Some decision \<Rightarrow>
     (let db = lock_global_dispatch_guard db in
      case lock_global_and_account (rt_anchors db) (ord_account_id ord) (rd_currency decision) of
        None \<Rightarrow> Inl (ValueError ''risk budget anchors are required for terminal release'')
      | Some anchors \<Rightarrow>
     (let links = order_links db order_id in
      if links = [] \<or> list_ex (\<lambda>l. lk_broker_id l \<noteq> broker_id) links
      then Inr (db, \<lparr>tra_released = False, tra_reason = Some ''LINK_SCOPE_UNPROVEN''\<rparr>)
      else
     (case find_reservation db (ord_risk_decision_id ord) of
        None \<Rightarrow> Inl (LookupError ''risk reservation not found'')
      | Some r \<Rightarrow>
     (case terminal_time db order_id of
        None \<Rightarrow> Inr (db, \<lparr>tra_released = False, tra_reason = Some ''LIVE_EXPOSURE_LINK''\<rparr>)
      | Some terminal_at \<Rightarrow>
          and_then (domain_links links) (\<lambda>domain.
            let outcome = decide_terminal_release domain
                  (terminal_completeness_proof db broker_id (ord_account_id ord) part)
                  [ord_broker_client_order_id ord] (ord_created_at ord) terminal_at clock
            in if \<not> trd_release outcome then Inr (db, \<lparr>tra_released = False, tra_reason = trd_reason outcome\<rparr>)
               else if rr_remaining_risk_amount r = 0 then Inr (db, \<lparr>tra_released = False, tra_reason = None\<rparr>)
               else and_then (write_release sha fresh db anchors ord r clock)
                      (\<lambda>db'. Inr (db', \<lparr>tra_released = True, tra_reason = None\<rparr>)))))))))"

section \<open>What each part leaves alone\<close>

lemma apply_order_fill_frame [simp]:
  "rt_anchors (apply_order_fill db ord e) = rt_anchors db"
  "rt_reservations (apply_order_fill db ord e) = rt_reservations db"
  "rt_decisions (apply_order_fill db ord e) = rt_decisions db"
  "et_fills (apply_order_fill db ord e) = et_fills db"
  "et_positions (apply_order_fill db ord e) = et_positions db"
  "et_lots (apply_order_fill db ord e) = et_lots db"
  "et_lifecycles (apply_order_fill db ord e) = et_lifecycles db"
  "et_watermarks (apply_order_fill db ord e) = et_watermarks db"
  "et_gaps (apply_order_fill db ord e) = et_gaps db"
  by (auto simp: apply_order_fill_def Let_def put_order_def add_incident_def)

lemma advance_stream_sequence_frame [simp]:
  "rt_anchors (advance_stream_sequence fresh db b a p n clock x h) = rt_anchors db"
  "rt_reservations (advance_stream_sequence fresh db b a p n clock x h) = rt_reservations db"
  "rt_decisions (advance_stream_sequence fresh db b a p n clock x h) = rt_decisions db"
  "et_orders (advance_stream_sequence fresh db b a p n clock x h) = et_orders db"
  "et_fills (advance_stream_sequence fresh db b a p n clock x h) = et_fills db"
  "et_positions (advance_stream_sequence fresh db b a p n clock x h) = et_positions db"
  "et_lots (advance_stream_sequence fresh db b a p n clock x h) = et_lots db"
  "et_lifecycles (advance_stream_sequence fresh db b a p n clock x h) = et_lifecycles db"
  by (auto simp: advance_stream_sequence_def Let_def put_stream_def split: option.splits)

lemma advance_for_fill_frame [simp]:
  "rt_anchors (advance_for_fill fresh db e) = rt_anchors db"
  "rt_reservations (advance_for_fill fresh db e) = rt_reservations db"
  "rt_decisions (advance_for_fill fresh db e) = rt_decisions db"
  "et_orders (advance_for_fill fresh db e) = et_orders db"
  "et_fills (advance_for_fill fresh db e) = et_fills db"
  "et_positions (advance_for_fill fresh db e) = et_positions db"
  "et_lots (advance_for_fill fresh db e) = et_lots db"
  "et_lifecycles (advance_for_fill fresh db e) = et_lifecycles db"
  by (auto simp: advance_for_fill_def split: option.splits)

lemma locked_position_frame [simp]:
  "rt_anchors (fst (locked_position fresh db e)) = rt_anchors db"
  "rt_reservations (fst (locked_position fresh db e)) = rt_reservations db"
  "rt_decisions (fst (locked_position fresh db e)) = rt_decisions db"
  "et_orders (fst (locked_position fresh db e)) = et_orders db"
  "et_fills (fst (locked_position fresh db e)) = et_fills db"
  "et_lots (fst (locked_position fresh db e)) = et_lots db"
  "et_lifecycles (fst (locked_position fresh db e)) = et_lifecycles db"
  "et_watermarks (fst (locked_position fresh db e)) = et_watermarks db"
  "et_gaps (fst (locked_position fresh db e)) = et_gaps db"
  by (auto simp: locked_position_def Let_def split: option.splits)

lemma put_position_frame [simp]:
  "rt_anchors (put_position p db) = rt_anchors db"
  "rt_reservations (put_position p db) = rt_reservations db"
  "rt_decisions (put_position p db) = rt_decisions db"
  "et_orders (put_position p db) = et_orders db"
  "et_fills (put_position p db) = et_fills db"
  "et_lots (put_position p db) = et_lots db"
  "et_lifecycles (put_position p db) = et_lifecycles db"
  "et_watermarks (put_position p db) = et_watermarks db"
  "et_gaps (put_position p db) = et_gaps db"
  by (auto simp: put_position_def)

lemma close_position_lots_frame [simp]:
  "rt_anchors (close_position_lots db p e) = rt_anchors db"
  "rt_reservations (close_position_lots db p e) = rt_reservations db"
  "rt_decisions (close_position_lots db p e) = rt_decisions db"
  "et_orders (close_position_lots db p e) = et_orders db"
  "et_fills (close_position_lots db p e) = et_fills db"
  "et_positions (close_position_lots db p e) = et_positions db"
  "et_lifecycles (close_position_lots db p e) = et_lifecycles db"
  "et_watermarks (close_position_lots db p e) = et_watermarks db"
  "et_gaps (close_position_lots db p e) = et_gaps db"
  by (auto simp: close_position_lots_def)

lemma consume_reservation_frame [simp]:
  "rt_decisions (consume_reservation db anchors ord e q) = rt_decisions db"
  "et_orders (consume_reservation db anchors ord e q) = et_orders db"
  "et_fills (consume_reservation db anchors ord e q) = et_fills db"
  "et_positions (consume_reservation db anchors ord e q) = et_positions db"
  "et_lots (consume_reservation db anchors ord e q) = et_lots db"
  "et_lifecycles (consume_reservation db anchors ord e q) = et_lifecycles db"
  "et_watermarks (consume_reservation db anchors ord e q) = et_watermarks db"
  "et_gaps (consume_reservation db anchors ord e q) = et_gaps db"
  by (auto simp: consume_reservation_def Let_def put_reservation_def add_incident_def split: option.splits)

lemma record_position_lineage_frame:
  assumes "record_position_lineage fresh db pid q0 fid side q t = Inr db'"
  obtains ls lots where "db' = db\<lparr>et_lifecycles := ls, et_lots := lots\<rparr>"
  using assms by (auto simp: record_position_lineage_def Let_def and_then_eq_Inr_iff)

lemma guard_idem [simp]: "lock_global_dispatch_guard (lock_global_dispatch_guard db) = lock_global_dispatch_guard db"
  by (simp add: lock_global_dispatch_guard_def is_global_control_def)

lemma persist_once_Inr:
  assumes "persist_once db fill cs = Inr (db', existing, result)"
  shows "result = FILL_INSERTED \<Longrightarrow> existing = fill \<and> fill_row_ok fill \<and> get_by fill_key (fill_key fill) (et_fills db) = None
      \<and> (\<exists>cs. db' = (lock_global_dispatch_guard db)\<lparr>et_fills := et_fills db @ [fill], et_charges := cs\<rparr>)"
    and "result \<noteq> FILL_INSERTED \<Longrightarrow> (\<exists>incs. db' = (lock_global_dispatch_guard db)\<lparr>et_incidents := incs\<rparr>)
      \<and> get_by fill_key (fill_key fill) (et_fills db) \<noteq> None"
proof -
  let ?db = "lock_global_dispatch_guard db"
  have self: "\<exists>incs. ?db = ?db\<lparr>et_incidents := incs\<rparr>" by (rule exI [of _ "et_incidents ?db"]) simp
  show "result = FILL_INSERTED \<Longrightarrow> existing = fill \<and> fill_row_ok fill \<and> get_by fill_key (fill_key fill) (et_fills db) = None
      \<and> (\<exists>cs. db' = ?db\<lparr>et_fills := et_fills db @ [fill], et_charges := cs\<rparr>)"
    using assms by (auto simp: persist_once_def Let_def split: option.splits if_splits)
  assume r: "result \<noteq> FILL_INSERTED"
  have "(db' = ?db \<or> (\<exists>i. db' = add_incident i ?db)) \<and> get_by fill_key (fill_key fill) (et_fills db) \<noteq> None"
    using assms r by (auto simp: persist_once_def Let_def split: option.splits if_splits)
  then show "(\<exists>incs. db' = ?db\<lparr>et_incidents := incs\<rparr>) \<and> get_by fill_key (fill_key fill) (et_fills db) \<noteq> None"
    using self unfolding add_incident_def by blast
qed

lemma fill_guards_Inr:
  assumes "fill_guards db e = Inr (anchors, ord)"
  shows "lock_global_and_account (rt_anchors db) (ex_account_id e) (ex_currency e) = Some anchors"
    and "get_by ord_id (ex_order_id e) (et_orders db) = Some ord"
    and "ord_account_id ord = ex_account_id e" and "ord_instrument_id ord = ex_instrument_id e"
    and "ord_side ord = ex_side e"
  using assms by (auto simp: fill_guards_def split: option.splits if_splits)

lemma fill_guards_guard [simp]: "fill_guards (lock_global_dispatch_guard db) e = fill_guards db e"
  by (simp only: fill_guards_def guard_simps)

definition fill_position :: "uuid \<Rightarrow> ExecTables \<Rightarrow> BrokerExecutionEvent \<Rightarrow> PositionRow" where
  "fill_position fresh db e = snd (locked_position fresh db e)"

lemma fill_position_cong: "et_positions db' = et_positions db \<Longrightarrow> fill_position fresh db' e = fill_position fresh db e"
  by (simp add: fill_position_def locked_position_def Let_def split: option.splits)

lemma locked_positions_cong:
  "et_positions db' = et_positions db \<Longrightarrow>
     et_positions (fst (locked_position fresh db' e)) = et_positions (fst (locked_position fresh db e))"
  by (simp add: locked_position_def Let_def split: option.splits)

text \<open>The effect of an execution, table by table.\<close>

lemma apply_fill_cases:
  assumes "apply_fill_once sha clock ids db e = Inr (db', out)"
  obtains (skipped) incs where "out = None" "db' = (lock_global_dispatch_guard db)\<lparr>et_incidents := incs\<rparr>"
      "get_by fill_key (fill_key (fill_row (fli_fill ids) e)) (et_fills db) \<noteq> None"
  | (applied) anchors ord db1 db4 db5 where "out \<noteq> None" "fill_guards db e = Inr (anchors, ord)"
      "fill_row_ok (fill_row (fli_fill ids) e)"
      "get_by fill_key (fill_key (fill_row (fli_fill ids) e)) (et_fills db) = None"
      "et_fills db' = et_fills db @ [fill_row (fli_fill ids) e]"
      "et_orders db' = put_by ord_id (filled_order ord (ex_quantity e)) (et_orders db)"
      "et_positions db' = put_by position_key (filled_position (fill_position (fli_position ids) db e) e)
         (et_positions (fst (locked_position (fli_position ids) db e)))"
      "et_fills db1 = et_fills db @ [fill_row (fli_fill ids) e]" "et_watermarks db1 = et_watermarks db"
      "et_gaps db1 = et_gaps db"
      "et_watermarks db' = et_watermarks (advance_for_fill (fli_watermark ids, fli_gap ids) db1 e)"
      "et_gaps db' = et_gaps (advance_for_fill (fli_watermark ids, fli_gap ids) db1 e)"
      "record_position_lineage (fli_lot ids) db4 (po_id (fill_position (fli_position ids) db e))
         (po_quantity (fill_position (fli_position ids) db e)) (fli_fill ids) (ex_side e) (ex_quantity e)
         (ex_executed_at e) = Inr db5"
      "et_lifecycles db4 = et_lifecycles db" "et_lifecycles db' = et_lifecycles db5"
      "rt_anchors db5 = rt_anchors db" "rt_reservations db5 = rt_reservations db" "rt_decisions db' = rt_decisions db"
      "rt_anchors db' = rt_anchors (consume_reservation db5 anchors ord e (po_quantity (fill_position (fli_position ids) db e)))"
      "rt_reservations db' = rt_reservations (consume_reservation db5 anchors ord e (po_quantity (fill_position (fli_position ids) db e)))"
proof -
  let ?f = "fill_row (fli_fill ids) e"
  from assms obtain anchors ord dbf persisted result where
    g: "fill_guards db e = Inr (anchors, ord)"
    and ps: "persist_once (lock_global_dispatch_guard db) ?f (ex_charges e) = Inr (dbf, persisted, result)"
    and rest: "(if result \<noteq> FILL_INSERTED then db' = dbf \<and> out = None
       else out \<noteq> None \<and> apply_stored_fill sha clock ids dbf anchors ord persisted e = Inr db')"
    by (auto simp: apply_fill_once_def Let_def and_then_eq_Inr_iff split: if_splits)
  show thesis
  proof (cases "result = FILL_INSERTED")
    case False
    with rest persist_once_Inr(2) [OF ps] skipped show thesis by auto
  next
    case True
    note p = persist_once_Inr(1) [OF ps True]
    let ?p = "fill_position (fli_position ids) db e"
    let ?d1 = "advance_for_fill (fli_watermark ids, fli_gap ids) (apply_order_fill dbf ord e) e"
    let ?d2 = "fst (locked_position (fli_position ids) ?d1 e)"
    have f: "et_fills dbf = et_fills db @ [?f]" "et_positions dbf = et_positions db" "et_watermarks dbf = et_watermarks db"
      "et_gaps dbf = et_gaps db" "et_orders dbf = et_orders db" "et_lifecycles dbf = et_lifecycles db"
      "rt_anchors dbf = rt_anchors db" "rt_reservations dbf = rt_reservations db" "rt_decisions dbf = rt_decisions db"
      using p by auto
    have pos: "snd (locked_position (fli_position ids) ?d1 e) = ?p"
      using fill_position_cong [of ?d1 db] f by (simp add: fill_position_def)
    let ?d4 = "close_position_lots (put_position (filled_position ?p e) ?d2) ?p e"
    from rest True p obtain d5 where
      lin: "record_position_lineage (fli_lot ids) ?d4 (po_id ?p) (po_quantity ?p) (fli_fill ids) (ex_side e)
         (ex_quantity e) (ex_executed_at e) = Inr d5"
      and fin: "\<exists>ev env. enqueue sha clock ((consume_reservation d5 anchors ord e (po_quantity ?p))\<lparr>et_order_events := ev\<rparr>)
         env (ex_observed_at e) = Inr db'"
      by (auto simp: apply_stored_fill_def Let_def and_then_eq_Inr_iff pos fill_row_def split: prod.splits)
         (metis pos fst_conv snd_conv)
    obtain ls lots where d5: "d5 = ?d4\<lparr>et_lifecycles := ls, et_lots := lots\<rparr>"
      using record_position_lineage_frame [OF lin] by blast
    from fin obtain rows ev where db': "db' = (consume_reservation d5 anchors ord e (po_quantity ?p))\<lparr>et_order_events := ev, et_outbox := rows\<rparr>"
      by (auto elim!: enqueue_Inr)
    have orders: "et_orders (apply_order_fill dbf ord e) = put_by ord_id (filled_order ord (ex_quantity e)) (et_orders dbf)"
      by (simp add: apply_order_fill_def Let_def put_order_def add_incident_def)
    show thesis
      by (rule applied [where anchors = anchors and ord = ord and ?db1.0 = "apply_order_fill dbf ord e" and ?db4.0 = ?d4 and ?db5.0 = d5])
         (use rest True p g f lin locked_positions_cong [of ?d1 db "fli_position ids" e] in
           \<open>simp_all add: db' d5 orders put_position_def\<close>)
  qed
qed

end
