(* ===== verification/ExecutionRuns.thy ===== *)
theory ExecutionRuns
  imports FillStore
begin

text \<open>
  Runs of the execution store: executions, checkpoints and terminal releases in any order. The
  invariant ties the tables together: a position is the running sum of its fills, an order's filled
  quantity the running sum of its own, a position has one open lifecycle exactly while it is open,
  and the stream watermarks agree with the stored sequence numbers.
\<close>

section \<open>The ledger of fills\<close>

definition running_quantity :: "uuid \<times> uuid \<Rightarrow> FillRow list \<Rightarrow> decimal" where
  "running_quantity key fills =
     foldl dadd 0 (map (\<lambda>f. signed_quantity (fl_side f) (fl_quantity f))
       (filter (\<lambda>f. (fl_account_id f, fl_instrument_id f) = key) fills))"

definition running_filled :: "uuid \<Rightarrow> FillRow list \<Rightarrow> decimal" where
  "running_filled order_id fills = foldl dadd 0 (map fl_quantity (filter (\<lambda>f. fl_order_id f = order_id) fills))"

definition ledger_inv :: "ExecTables \<Rightarrow> bool" where
  "ledger_inv db \<longleftrightarrow>
     distinct (map fill_key (et_fills db)) \<and> distinct (map position_key (et_positions db))
     \<and> distinct (map ord_id (et_orders db))
     \<and> (\<forall>p \<in> set (et_positions db). po_quantity p = running_quantity (position_key p) (et_fills db))
     \<and> (\<forall>f \<in> set (et_fills db). (fl_account_id f, fl_instrument_id f) \<in> position_key ` set (et_positions db))
     \<and> (\<forall>r \<in> set (et_orders db). orow_filled_quantity r = running_filled (ord_id r) (et_fills db))"

lemma running_quantity_snoc [simp]:
  "running_quantity key (fills @ [f]) =
     (if (fl_account_id f, fl_instrument_id f) = key
      then dadd (running_quantity key fills) (signed_quantity (fl_side f) (fl_quantity f)) else running_quantity key fills)"
  by (simp add: running_quantity_def)

lemma running_filled_snoc [simp]:
  "running_filled u (fills @ [f]) =
     (if fl_order_id f = u then dadd (running_filled u fills) (fl_quantity f) else running_filled u fills)"
  by (simp add: running_filled_def)

lemma get_by_None: "get_by key k rows = None \<longleftrightarrow> k \<notin> key ` set rows"
  by (auto simp: get_by_def next_where_None)

lemma running_quantity_none:
  assumes "ledger_inv db" "get_by position_key key (et_positions db) = None"
  shows "running_quantity key (et_fills db) = 0"
proof -
  have "filter (\<lambda>f. (fl_account_id f, fl_instrument_id f) = key) (et_fills db) = []"
    using assms by (auto simp: ledger_inv_def get_by_None filter_empty_conv)
  then show ?thesis by (simp add: running_quantity_def)
qed

text \<open>The locked position and the table it is in.\<close>

lemma locked_position_facts:
  assumes inv: "ledger_inv db"
  defines "key \<equiv> \<lambda>e. (ex_account_id e, ex_instrument_id e)"
  shows "position_key (fill_position fresh db e) = key e"
    and "po_quantity (fill_position fresh db e) = running_quantity (key e) (et_fills db)"
    and "distinct (map position_key (et_positions (fst (locked_position fresh db e))))"
    and "position_key ` set (et_positions (fst (locked_position fresh db e))) = insert (key e) (position_key ` set (et_positions db))"
    and "p \<in> set (et_positions (fst (locked_position fresh db e))) \<Longrightarrow> position_key p \<noteq> key e \<Longrightarrow> p \<in> set (et_positions db)"
    and "get_by position_key (key e) (et_positions db) = Some q \<Longrightarrow>
      po_id (fill_position fresh db e) = po_id q \<and> et_positions (fst (locked_position fresh db e)) = et_positions db
      \<and> po_quantity (fill_position fresh db e) = po_quantity q"
    and "get_by position_key (key e) (et_positions db) = None \<Longrightarrow>
      po_id (fill_position fresh db e) = fresh \<and> po_quantity (fill_position fresh db e) = 0
      \<and> (\<exists>p. et_positions (fst (locked_position fresh db e)) = et_positions db @ [p] \<and> po_id p = fresh \<and> position_key p = key e)"
proof -
  note d = locked_position_def fill_position_def Let_def position_key_def
  have "distinct (map position_key (et_positions db))" using inv by (simp add: ledger_inv_def)
  then show "distinct (map position_key (et_positions (fst (locked_position fresh db e))))"
    by (auto simp: locked_position_def Let_def get_by_None split: option.splits) (auto simp: position_key_def)
  show "position_key (fill_position fresh db e) = key e"
  proof (cases "get_by position_key (key e) (et_positions db)")
    case (Some q)
    with get_by_Some(2) [OF Some] show ?thesis by (simp add: d key_def)
  qed (simp add: d key_def)
  show "po_quantity (fill_position fresh db e) = running_quantity (key e) (et_fills db)"
  proof (cases "get_by position_key (key e) (et_positions db)")
    case None
    then show ?thesis using running_quantity_none [OF inv None] by (simp add: d key_def)
  next
    case (Some q)
    with inv get_by_Some [OF Some] show ?thesis by (auto simp: ledger_inv_def fill_position_def locked_position_def key_def)
  qed
  show "position_key ` set (et_positions (fst (locked_position fresh db e))) = insert (key e) (position_key ` set (et_positions db))"
  proof (cases "get_by position_key (key e) (et_positions db)")
    case None
    then show ?thesis by (simp add: key_def locked_position_def Let_def) (simp add: position_key_def)
  next
    case (Some q)
    from get_by_Some [OF this] have "key e \<in> position_key ` set (et_positions db)" by force
    with Some show ?thesis by (simp add: key_def locked_position_def insert_absorb)
  qed
  show "p \<in> set (et_positions (fst (locked_position fresh db e))) \<Longrightarrow> position_key p \<noteq> key e \<Longrightarrow> p \<in> set (et_positions db)"
    by (auto simp: key_def locked_position_def Let_def split: option.splits) (auto simp: position_key_def)
  show "get_by position_key (key e) (et_positions db) = Some q \<Longrightarrow>
      po_id (fill_position fresh db e) = po_id q \<and> et_positions (fst (locked_position fresh db e)) = et_positions db
      \<and> po_quantity (fill_position fresh db e) = po_quantity q"
    by (simp add: key_def locked_position_def fill_position_def)
  show "get_by position_key (key e) (et_positions db) = None \<Longrightarrow>
      po_id (fill_position fresh db e) = fresh \<and> po_quantity (fill_position fresh db e) = 0
      \<and> (\<exists>p. et_positions (fst (locked_position fresh db e)) = et_positions db @ [p] \<and> po_id p = fresh \<and> position_key p = key e)"
    by (simp add: key_def locked_position_def fill_position_def Let_def position_key_def)
qed

lemma ledger_inv_fill:
  assumes inv: "ledger_inv db" and a: "apply_fill_once sha clock ids db e = Inr (db', out)"
  shows "ledger_inv db'"
  using a
proof (cases rule: apply_fill_cases)
  case (skipped incs)
  with inv show ?thesis by (simp add: ledger_inv_def)
next
  case (applied anchors ord db1 db4 db5)
  let ?key = "(ex_account_id e, ex_instrument_id e)" and ?f = "fill_row (fli_fill ids) e"
  let ?p = "fill_position (fli_position ids) db e" and ?P = "et_positions (fst (locked_position (fli_position ids) db e))"
  note lp = locked_position_facts [OF inv, where fresh = "fli_position ids" and e = e]
  note f = applied(5) and o = applied(6) and pos = applied(7)
  have fkey: "(fl_account_id ?f, fl_instrument_id ?f) = ?key" "fl_order_id ?f = ex_order_id e"
    "fl_quantity ?f = ex_quantity e" "fl_side ?f = ex_side e" by (simp_all add: fill_row_def)
  have pk: "position_key (filled_position ?p e) = ?key" using lp(1) by (simp add: filled_position_def Let_def position_key_def)
  have pq: "po_quantity (filled_position ?p e) = running_quantity ?key (et_fills db')"
    by (simp add: f fkey filled_position_def Let_def lp(2))
  have positions: "po_quantity p = running_quantity (position_key p) (et_fills db')" if p: "p \<in> set (et_positions db')" for p
    using put_by_set [OF p [unfolded pos]]
  proof
    assume "p = filled_position ?p e"
    then show ?thesis using pq pk by simp
  next
    assume q: "p \<in> set ?P \<and> position_key p \<noteq> position_key (filled_position ?p e)"
    with lp(5) pk have "p \<in> set (et_positions db)" by simp
    with inv q pk fkey show ?thesis by (auto simp: ledger_inv_def f)
  qed
  have keys: "position_key ` set (et_positions db') = insert ?key (position_key ` set (et_positions db))"
    using map_key_put_by [of position_key "filled_position ?p e" ?P] lp(4) unfolding pos by (metis set_map)
  have ordk: "ord_id ord = ex_order_id e" "ord \<in> set (et_orders db)"
    using fill_guards_Inr(2) [OF applied(2)] by (auto dest: get_by_Some)
  have orders: "orow_filled_quantity r = running_filled (ord_id r) (et_fills db')" if r: "r \<in> set (et_orders db')" for r
    using put_by_set [OF r [unfolded o]]
  proof
    assume "r = filled_order ord (ex_quantity e)"
    then show ?thesis using inv ordk fkey by (simp add: ledger_inv_def f filled_order_def Let_def)
  next
    assume "r \<in> set (et_orders db) \<and> ord_id r \<noteq> ord_id (filled_order ord (ex_quantity e))"
    then show ?thesis using inv ordk fkey by (auto simp: ledger_inv_def f filled_order_def Let_def)
  qed
  have "distinct (map fill_key (et_fills db'))"
    using inv applied(4) unfolding f distinct_map_snoc get_by_None ledger_inv_def by (metis imageI)
  moreover have "distinct (map position_key (et_positions db'))" "distinct (map ord_id (et_orders db'))"
    using lp(3) inv unfolding pos o map_key_put_by by (simp_all add: ledger_inv_def)
  moreover have "(fl_account_id x, fl_instrument_id x) \<in> position_key ` set (et_positions db')" if "x \<in> set (et_fills db')" for x
    using that inv fkey unfolding f keys by (auto simp: ledger_inv_def)
  ultimately show ?thesis using positions orders by (simp add: ledger_inv_def)
qed

section \<open>The lineage of positions\<close>

definition open_lifecycles :: "uuid \<Rightarrow> PositionLifecycle list \<Rightarrow> PositionLifecycle list" where
  "open_lifecycles pid ls = filter (\<lambda>l. lc_position_id l = pid \<and> lc_closed_at l = None) ls"

definition lineage_inv :: "ExecTables \<Rightarrow> bool" where
  "lineage_inv db \<longleftrightarrow>
     distinct (map lifecycle_key (et_lifecycles db)) \<and> distinct (map po_id (et_positions db))
     \<and> lc_position_id ` set (et_lifecycles db) \<subseteq> po_id ` set (et_positions db)
     \<and> (\<forall>p \<in> set (et_positions db).
          length (open_lifecycles (po_id p) (et_lifecycles db)) = (if po_quantity p = 0 then 0 else 1))"

lemma foldl_max: "foldl max (a :: int) xs = Max (insert a (set xs))"
proof (induction xs arbitrary: a)
  case (Cons y ys)
  have "Max (insert (max a y) (set ys)) = Max (insert a (insert y (set ys)))"
    by (cases "ys = []") (auto simp: Max_insert max.assoc)
  with Cons show ?case by simp
qed simp

lemma next_ordinal_new:
  assumes "l \<in> set (et_lifecycles db)" "lc_position_id l = pid"
  shows "lc_lifecycle_ordinal l < next_ordinal db pid"
proof -
  let ?xs = "map lc_lifecycle_ordinal (filter (\<lambda>l. lc_position_id l = pid) (et_lifecycles db))"
  have "lc_lifecycle_ordinal l \<le> Max (insert 0 (set ?xs))" using assms by (intro Max_ge) auto
  then show ?thesis unfolding next_ordinal_def foldl_max by linarith
qed

lemma active_of_open:
  assumes "length (open_lifecycles pid (et_lifecycles db)) = Suc 0"
  obtains a where "active_lifecycle db pid = Some a" "open_lifecycles pid (et_lifecycles db) = [a]"
proof -
  from assms obtain a where a: "open_lifecycles pid (et_lifecycles db) = [a]" by (auto simp: length_Suc_conv)
  have "next_where P xs = Some y \<Longrightarrow> filter P xs = y # tl (filter P xs)" for P and xs :: "PositionLifecycle list" and y
    by (induction xs) (auto simp: next_where_def split: if_splits)
  moreover have "active_lifecycle db pid \<noteq> None"
    using arg_cong [OF a, of set] by (auto simp: active_lifecycle_def next_where_None open_lifecycles_def)
  ultimately show thesis using a that by (fastforce simp: active_lifecycle_def open_lifecycles_def)
qed

text \<open>Closing the active lifecycle of a position.\<close>

lemma open_after_close:
  assumes d: "distinct (map lifecycle_key ls)" and o: "open_lifecycles pid ls = [a]"
    and a': "lifecycle_key a' = lifecycle_key a" "lc_closed_at a' \<noteq> None"
  shows "open_lifecycles pid (put_by lifecycle_key a' ls) = []"
    and "v \<noteq> pid \<Longrightarrow> open_lifecycles v (put_by lifecycle_key a' ls) = open_lifecycles v ls"
proof -
  have a: "a \<in> set ls" "lc_position_id a = pid"
    using arg_cong [OF o, of "\<lambda>xs. a \<in> set xs"] by (auto simp: open_lifecycles_def)
  have "x \<notin> set (open_lifecycles pid (put_by lifecycle_key a' ls))" for x
  proof
    assume x: "x \<in> set (open_lifecycles pid (put_by lifecycle_key a' ls))"
    then have m: "x \<in> set (put_by lifecycle_key a' ls)" "lc_position_id x = pid" "lc_closed_at x = None"
      by (auto simp: open_lifecycles_def)
    with put_by_set [OF m(1)] a' have "x \<in> set ls" "lifecycle_key x \<noteq> lifecycle_key a" by auto
    moreover from this m have "x \<in> set (open_lifecycles pid ls)" by (simp add: open_lifecycles_def)
    ultimately show False using o by simp
  qed
  then show "open_lifecycles pid (put_by lifecycle_key a' ls) = []" by (meson ex_in_conv set_empty)
  show "open_lifecycles v (put_by lifecycle_key a' ls) = open_lifecycles v ls" if "v \<noteq> pid"
    using that a(2) a'(1) by (induction ls) (auto simp: open_lifecycles_def put_by_def lifecycle_key_def)
qed

lemma open_snoc [simp]:
  "open_lifecycles v (ls @ [opened_lifecycle pid n fid t kind]) =
     open_lifecycles v ls @ (if v = pid then [opened_lifecycle pid n fid t kind] else [])"
  by (simp add: open_lifecycles_def opened_lifecycle_def)

lemma lineage_step:
  assumes r: "record_position_lineage fresh db pid q0 fid side q t = Inr db'"
    and d: "distinct (map lifecycle_key (et_lifecycles db))"
    and n: "length (open_lifecycles pid (et_lifecycles db)) = (if q0 = 0 then 0 else 1)"
  shows "distinct (map lifecycle_key (et_lifecycles db'))"
    and "length (open_lifecycles pid (et_lifecycles db')) = (if dadd q0 (signed_quantity side q) = 0 then 0 else 1)"
    and "v \<noteq> pid \<Longrightarrow> open_lifecycles v (et_lifecycles db') = open_lifecycles v (et_lifecycles db)"
    and "lc_position_id ` set (et_lifecycles db') \<subseteq> insert pid (lc_position_id ` set (et_lifecycles db))"
proof -
  let ?q1 = "dadd q0 (signed_quantity side q)" and ?ls = "et_lifecycles db" and ?new = "next_ordinal db pid"
  have sign: "dmul q0 ?q1 < 0 \<longleftrightarrow> q0 * ?q1 < 0" by (simp add: dmul_def)
  have snoc: "distinct (map lifecycle_key (xs @ [opened_lifecycle pid ?new fid t kind]))"
    if "map lifecycle_key xs = map lifecycle_key ?ls" for xs kind
  proof -
    have "(pid, ?new) \<notin> set (map lifecycle_key ?ls)" using next_ordinal_new by (fastforce simp: lifecycle_key_def)
    then show ?thesis using d that by (simp only: map_append distinct_append) (simp add: lifecycle_key_def opened_lifecycle_def)
  qed
  consider (opens) "q0 = 0" "?q1 \<noteq> 0" | (stays) "\<not> (q0 = 0 \<and> ?q1 \<noteq> 0)" "\<not> (q0 \<noteq> 0 \<and> (?q1 = 0 \<or> q0 * ?q1 < 0))"
    | (closes) "q0 \<noteq> 0" "?q1 = 0 \<or> q0 * ?q1 < 0" by blast
  then have "distinct (map lifecycle_key (et_lifecycles db'))
    \<and> length (open_lifecycles pid (et_lifecycles db')) = (if ?q1 = 0 then 0 else 1)
    \<and> (\<forall>v. v \<noteq> pid \<longrightarrow> open_lifecycles v (et_lifecycles db') = open_lifecycles v ?ls)
    \<and> lc_position_id ` set (et_lifecycles db') \<subseteq> insert pid (lc_position_id ` set ?ls)"
  proof cases
    case opens
    then have "\<exists>k. et_lifecycles db' = ?ls @ [opened_lifecycle pid ?new fid t k]"
      using r by (auto simp: record_position_lineage_def apply_lifecycle_transition_def Let_def opened_lifecycle_def split: option.splits)
    then obtain k where ls: "et_lifecycles db' = ?ls @ [opened_lifecycle pid ?new fid t k]" by blast
    have "lc_position_id (opened_lifecycle pid ?new fid t k) = pid" by (simp add: opened_lifecycle_def)
    then show ?thesis using opens snoc [of ?ls k] n unfolding ls by auto
  next
    case stays
    then have "et_lifecycles db' = ?ls"
      using r sign by (auto simp: record_position_lineage_def apply_lifecycle_transition_def Let_def split: option.splits if_splits)
    then show ?thesis using stays d n by auto
  next
    case closes
    with n obtain a where act: "active_lifecycle db pid = Some a" and o: "open_lifecycles pid ?ls = [a]"
      by (auto elim: active_of_open)
    let ?a = "a\<lparr>lc_closing_fill_id := Some fid, lc_closed_at := Some t\<rparr>" 
    have "\<exists>k. et_lifecycles db' = put_by lifecycle_key ?a ?ls @ (if ?q1 \<noteq> 0 then [opened_lifecycle pid ?new fid t k] else [])"
      using r closes act sign
      by (auto simp: record_position_lineage_def apply_lifecycle_transition_def Let_def opened_lifecycle_def split: if_splits)
    then obtain k where ls: "et_lifecycles db' = put_by lifecycle_key ?a ?ls @ (if ?q1 \<noteq> 0 then [opened_lifecycle pid ?new fid t k] else [])"
      by blast
    have pk: "lc_position_id (opened_lifecycle pid ?new fid t k) = pid" by (simp add: opened_lifecycle_def)
    have aa: "lifecycle_key ?a = lifecycle_key a" "lc_closed_at ?a \<noteq> None" by (simp_all add: lifecycle_key_def)
    have am: "a \<in> set ?ls" "lc_position_id a = pid" using arg_cong [OF o, of "\<lambda>xs. a \<in> set xs"] by (auto simp: open_lifecycles_def)
    have ids: "lc_position_id ` set (put_by lifecycle_key ?a ?ls) \<subseteq> lc_position_id ` set ?ls"
      using am by (auto simp: put_by_def)
    have "map lifecycle_key (put_by lifecycle_key ?a ?ls) = map lifecycle_key ?ls" by (rule map_key_put_by)
    then show ?thesis
      using snoc [of "put_by lifecycle_key ?a ?ls" k] d open_after_close [OF d o aa] ids pk unfolding ls by auto
  qed
  then show "distinct (map lifecycle_key (et_lifecycles db'))"
    "length (open_lifecycles pid (et_lifecycles db')) = (if ?q1 = 0 then 0 else 1)"
    "v \<noteq> pid \<Longrightarrow> open_lifecycles v (et_lifecycles db') = open_lifecycles v ?ls"
    "lc_position_id ` set (et_lifecycles db') \<subseteq> insert pid (lc_position_id ` set ?ls)" by blast+
qed

lemma lineage_inv_fill:
  assumes led: "ledger_inv db" and inv: "lineage_inv db" and a: "apply_fill_once sha clock ids db e = Inr (db', out)"
    and fresh: "fli_position ids \<notin> po_id ` set (et_positions db)"
  shows "lineage_inv db'"
  using a
proof (cases rule: apply_fill_cases)
  case (skipped incs)
  with inv show ?thesis by (simp add: lineage_inv_def)
next
  case (applied anchors ord db1 db4 db5)
  let ?key = "(ex_account_id e, ex_instrument_id e)"
  let ?p = "fill_position (fli_position ids) db e" and ?P = "et_positions (fst (locked_position (fli_position ids) db e))"
  note lp = locked_position_facts [OF led, where fresh = "fli_position ids" and e = e]
  have d: "distinct (map po_id (et_positions db))" "lc_position_id ` set (et_lifecycles db) \<subseteq> po_id ` set (et_positions db)"
    using inv by (auto simp: lineage_inv_def)
  have table: "distinct (map po_id ?P) \<and> po_id ` set ?P = insert (po_id ?p) (po_id ` set (et_positions db))
    \<and> length (open_lifecycles (po_id ?p) (et_lifecycles db)) = (if po_quantity ?p = 0 then 0 else 1)
    \<and> (\<forall>x \<in> set ?P. position_key x = ?key \<longrightarrow> po_id x = po_id ?p)
    \<and> (\<forall>x \<in> set (et_positions db). position_key x \<noteq> ?key \<longrightarrow> po_id x \<noteq> po_id ?p)"
  proof (cases "get_by position_key ?key (et_positions db)")
    case None
    note n = lp(7) [OF None]
    have key: "position_key x \<noteq> ?key" if "x \<in> set (et_positions db)" for x
      using None that unfolding get_by_None by (metis imageI)
    have "open_lifecycles (fli_position ids) (et_lifecycles db) = []"
      using d(2) fresh unfolding open_lifecycles_def filter_empty_conv by (metis imageI subsetD)
    moreover from n obtain x where "?P = et_positions db @ [x]" "po_id x = fli_position ids" by blast
    moreover have "po_id y \<noteq> fli_position ids" if "y \<in> set (et_positions db)" for y using fresh that by (metis imageI)
    ultimately show ?thesis using n d fresh key by auto
  next
    case (Some q)
    note sm = lp(6) [OF Some] and q = get_by_Some [OF Some]
    have "x = q" if "x \<in> set (et_positions db)" "position_key x = ?key" for x
      using unique_by_key [of position_key "et_positions db" x q] led that q by (auto simp: ledger_inv_def)
    moreover have "po_id x \<noteq> po_id q" if "x \<in> set (et_positions db)" "position_key x \<noteq> ?key" for x
      using unique_by_key [OF d(1) that(1) q(1)] that(2) q(2) by auto
    moreover have "length (open_lifecycles (po_id q) (et_lifecycles db)) = (if po_quantity q = 0 then 0 else 1)"
      using inv q(1) by (simp add: lineage_inv_def)
    ultimately show ?thesis using sm d(1) q(1) by (auto simp: insert_absorb)
  qed
  have pk: "position_key (filled_position ?p e) = ?key" and pid: "po_id (filled_position ?p e) = po_id ?p"
    and pq: "po_quantity (filled_position ?p e) = dadd (po_quantity ?p) (signed_quantity (ex_side e) (ex_quantity e))"
    using lp(1) by (simp_all add: filled_position_def Let_def position_key_def)
  have ids: "map po_id (et_positions db') = map po_id ?P" unfolding applied(7) using table pk pid by (auto simp: put_by_def)
  note step = lineage_step [OF applied(13)]
  have st: "distinct (map lifecycle_key (et_lifecycles db'))"
    "length (open_lifecycles (po_id ?p) (et_lifecycles db')) = (if po_quantity (filled_position ?p e) = 0 then 0 else 1)"
    "\<And>v. v \<noteq> po_id ?p \<Longrightarrow> open_lifecycles v (et_lifecycles db') = open_lifecycles v (et_lifecycles db)"
    "lc_position_id ` set (et_lifecycles db') \<subseteq> insert (po_id ?p) (lc_position_id ` set (et_lifecycles db))"
    using step table inv unfolding applied(14,15) pq by (simp_all add: lineage_inv_def)
  have each: "length (open_lifecycles (po_id p) (et_lifecycles db')) = (if po_quantity p = 0 then 0 else 1)"
    if p: "p \<in> set (et_positions db')" for p
    using put_by_set [OF p [unfolded applied(7)]]
  proof
    assume "p = filled_position ?p e"
    then show ?thesis using st(2) pid by simp
  next
    assume "p \<in> set ?P \<and> position_key p \<noteq> position_key (filled_position ?p e)"
    with lp(5) pk have q: "p \<in> set (et_positions db)" "position_key p \<noteq> ?key" by auto
    with table have "po_id p \<noteq> po_id ?p" by blast
    then show ?thesis using st(3) inv q(1) by (simp add: lineage_inv_def)
  qed
  have "po_id ` set (et_positions db') = insert (po_id ?p) (po_id ` set (et_positions db))"
    using ids table by (metis set_map)
  then have "lc_position_id ` set (et_lifecycles db') \<subseteq> po_id ` set (et_positions db')" using st(4) d(2) by blast
  then show ?thesis using st(1) each ids table by (simp add: lineage_inv_def)
qed

section \<open>Runs\<close>

lemma watermark_inv_fill:
  assumes inv: "watermark_inv db" and a: "apply_fill_once sha clock ids db e = Inr (db', out)"
    and fresh: "fli_watermark ids \<notin> wmr_id ` set (et_watermarks db)" "fli_gap ids \<notin> gp_id ` set (et_gaps db)"
  shows "watermark_inv db'"
  using a
proof (cases rule: apply_fill_cases)
  case (skipped incs)
  then have "watermark_inv db' \<longleftrightarrow> watermark_inv db" by (intro watermark_inv_cong) simp_all
  then show ?thesis using inv by simp
next
  case (applied anchors ord db1 db4 db5)
  let ?f = "fill_row (fli_fill ids) e" and ?db = "advance_for_fill (fli_watermark ids, fli_gap ids) db1 e"
  have "watermark_inv ?db"
  proof (cases "ex_source_sequence e")
    case None
    then have seqs: "stream_sequences db1 = stream_sequences db"
      by (intro ext) (simp add: stream_sequences_def applied(8) List.map_filter_def fill_row_def)
    show ?thesis using inv None seqs applied(9,10)
      by (simp add: advance_for_fill_def watermark_inv_def stored_numbers_def find_stream_def)
  next
    case (Some n)
    then show ?thesis
      using advance_stream_sequence_inv [OF inv applied(9,10,8), of n "(fli_watermark ids, fli_gap ids)"] fresh
      by (simp add: advance_for_fill_def fill_row_def)
  qed
  then show ?thesis using applied(5,8,11,12) by (subst watermark_inv_cong [of db' ?db]) auto
qed

lemma release_frame:
  assumes "release_if_complete sha fresh db order_id broker_id part clock = Inr (db', out)"
  shows "et_fills db' = et_fills db" "et_positions db' = et_positions db" "et_orders db' = et_orders db"
    "et_lifecycles db' = et_lifecycles db" "et_watermarks db' = et_watermarks db" "et_gaps db' = et_gaps db"
proof -
  have w: "et_fills y = et_fills x \<and> et_positions y = et_positions x \<and> et_orders y = et_orders x
      \<and> et_lifecycles y = et_lifecycles x \<and> et_watermarks y = et_watermarks x \<and> et_gaps y = et_gaps x"
    if "write_release sha fresh x anchors ord r clock = Inr y" for x y anchors ord r
    using that by (auto simp: write_release_def Let_def and_then_eq_Inr_iff put_reservation_def elim!: enqueue_Inr)
  have "(\<exists>anchors ord r. write_release sha fresh (lock_global_dispatch_guard db) anchors ord r clock = Inr db')
      \<or> db' = lock_global_dispatch_guard db"
    using assms by (auto simp: release_if_complete_def Let_def and_then_eq_Inr_iff split: option.splits if_splits)
  then show "et_fills db' = et_fills db" "et_positions db' = et_positions db" "et_orders db' = et_orders db"
    "et_lifecycles db' = et_lifecycles db" "et_watermarks db' = et_watermarks db" "et_gaps db' = et_gaps db"
    using w by fastforce+
qed

datatype execution_op =
    ApplyFill FillIds BrokerExecutionEvent
  | Checkpoint uuid Checkpoint
  | ReleaseTerminal uuid uuid uuid string instant

definition fresh_fill_ids :: "ExecTables \<Rightarrow> FillIds \<Rightarrow> bool" where
  "fresh_fill_ids db ids \<longleftrightarrow>
     fli_position ids \<notin> po_id ` set (et_positions db) \<and> fli_watermark ids \<notin> wmr_id ` set (et_watermarks db)
     \<and> fli_gap ids \<notin> gp_id ` set (et_gaps db)"

text \<open>A step commits a transaction that returns and drops one that raises; the random identifiers it
  draws are new.\<close>

fun execution_step :: "Digests \<Rightarrow> instant \<Rightarrow> ExecTables \<Rightarrow> execution_op \<Rightarrow> ExecTables option" where
  "execution_step sha clock db (ApplyFill ids e) =
     (if fresh_fill_ids db ids
      then (case apply_fill_once sha clock ids db e of Inl _ \<Rightarrow> None | Inr (db', _) \<Rightarrow> Some db') else None)"
| "execution_step sha clock db (Checkpoint fresh cp) =
     (if fresh \<notin> wmr_id ` set (et_watermarks db)
      then (case record_closed_interval_checkpoint fresh db cp of Inl _ \<Rightarrow> None | Inr db' \<Rightarrow> Some db') else None)"
| "execution_step sha clock db (ReleaseTerminal fresh order_id broker_id part t) =
     (case release_if_complete sha fresh db order_id broker_id part t of Inl _ \<Rightarrow> None | Inr (db', _) \<Rightarrow> Some db')"

definition execution_inv :: "ExecTables \<Rightarrow> bool" where
  "execution_inv db \<longleftrightarrow> ledger_inv db \<and> lineage_inv db \<and> watermark_inv db"

lemma execution_inv_cong:
  assumes "et_fills db' = et_fills db" "et_positions db' = et_positions db" "et_orders db' = et_orders db"
    "et_lifecycles db' = et_lifecycles db" "et_watermarks db' = et_watermarks db" "et_gaps db' = et_gaps db"
  shows "execution_inv db' \<longleftrightarrow> execution_inv db"
  using watermark_inv_cong [OF assms(5,6,1)] by (simp add: execution_inv_def ledger_inv_def lineage_inv_def assms)

lemma execution_step_inv:
  assumes inv: "execution_inv db" and st: "execution_step sha clock db op = Some db'"
  shows "execution_inv db'"
proof (cases op)
  case (ApplyFill ids e)
  with st obtain out where a: "apply_fill_once sha clock ids db e = Inr (db', out)" and "fresh_fill_ids db ids"
    by (auto split: if_splits sum.splits)
  then show ?thesis
    using inv ledger_inv_fill [OF _ a] lineage_inv_fill [OF _ _ a] watermark_inv_fill [OF _ a]
    by (simp add: execution_inv_def fresh_fill_ids_def)
next
  case (Checkpoint fresh cp)
  with st have c: "record_closed_interval_checkpoint fresh db cp = Inr db'" "fresh \<notin> wmr_id ` set (et_watermarks db)"
    by (auto split: if_splits sum.splits)
  have "et_fills db' = et_fills db" "et_positions db' = et_positions db" "et_orders db' = et_orders db"
    "et_lifecycles db' = et_lifecycles db"
    using c(1) by (auto simp: record_closed_interval_checkpoint_def replace_scopes_def put_stream_def split: option.splits if_splits)
  with checkpoint_inv [OF _ c] inv show ?thesis by (simp add: execution_inv_def ledger_inv_def lineage_inv_def)
next
  case (ReleaseTerminal fresh order_id broker_id part t)
  with st obtain out where "release_if_complete sha fresh db order_id broker_id part t = Inr (db', out)"
    by (auto split: sum.splits)
  from execution_inv_cong [OF release_frame [OF this]] inv show ?thesis by simp
qed

interpretation execution_store: transition_system "execution_step sha clock" execution_inv for sha clock
  by unfold_locales (rule execution_step_inv)

section \<open>Exact sums\<close>

lemma dec_grid_signed_add:
  assumes "dec_grid k x" "dec_grid k y" "(\<bar>x\<bar> + \<bar>y\<bar>) * 10 ^ k < 10 ^ 28"
  shows "dec_grid k (x + y)"
proof -
  from assms obtain m n where mn: "x = of_int m / 10 ^ k" "y = of_int n / 10 ^ k" by (auto elim!: dec_gridE)
  then have "(of_int (\<bar>m\<bar> + \<bar>n\<bar>) :: rat) < of_int (10 ^ 28)" using assms(3) by (simp add: distrib_right)
  then have "\<bar>m + n\<bar> < 10 ^ 28" unfolding of_int_less_iff by linarith
  then show ?thesis using mn by (intro dec_gridI [of _ "m + n"]) (simp_all add: add_divide_distrib)
qed

lemma foldl_dadd_exact:
  assumes "dec_grid k a" "\<forall>x \<in> set xs. dec_grid k x" "(\<bar>a\<bar> + sum_list (map abs xs)) * 10 ^ k < 10 ^ 28"
  shows "foldl dadd a xs = a + sum_list xs"
  using assms
proof (induction xs arbitrary: a)
  case (Cons x xs)
  have nn: "0 \<le> sum_list (map abs xs)" by (rule sum_list_nonneg) auto
  have le: "(\<bar>a\<bar> + \<bar>x\<bar>) * 10 ^ k \<le> (\<bar>a\<bar> + sum_list (map abs (x # xs))) * 10 ^ k"
    by (rule mult_right_mono) (use nn in simp_all)
  have g: "dec_grid k (a + x)"
    using Cons.prems le_less_trans [OF le] by (intro dec_grid_signed_add) (simp_all add: Cons.prems)
  have "(\<bar>a + x\<bar> + sum_list (map abs xs)) * 10 ^ k \<le> (\<bar>a\<bar> + sum_list (map abs (x # xs))) * 10 ^ k"
    by (rule mult_right_mono) (use abs_triangle_ineq [of a x] in simp_all)
  then have "foldl dadd (a + x) xs = a + x + sum_list xs"
    using Cons.prems le_less_trans by (intro Cons.IH [OF g]) (simp, blast)
  moreover have "dadd a x = a + x" using g by (simp add: dadd_def)
  ultimately show ?case by simp
qed simp

definition signed_fills :: "uuid \<times> uuid \<Rightarrow> FillRow list \<Rightarrow> rat list" where
  "signed_fills key fills =
     map (\<lambda>f. (case fl_side f of BUY \<Rightarrow> 1 | SELL \<Rightarrow> - 1) * fl_quantity f)
       (filter (\<lambda>f. (fl_account_id f, fl_instrument_id f) = key) fills)"

lemma running_quantity_exact:
  assumes grid: "\<forall>f \<in> set fills. dec_grid k (fl_quantity f)"
    and small: "sum_list (map abs (signed_fills key fills)) * 10 ^ k < 10 ^ 28"
  shows "running_quantity key fills = sum_list (signed_fills key fills)"
proof -
  have eq: "map (\<lambda>f. signed_quantity (fl_side f) (fl_quantity f)) (filter (\<lambda>f. (fl_account_id f, fl_instrument_id f) = key) fills)
      = signed_fills key fills"
    using grid by (auto simp: signed_fills_def signed_quantity_def dneg_def split: Side.splits)
  have "dec_grid k (- x)" if "dec_grid k x" for x using that by (auto elim!: dec_gridE intro!: dec_gridI [of _ "- n" k for n])
  then have "\<forall>x \<in> set (signed_fills key fills). dec_grid k x"
    using grid by (auto simp: signed_fills_def split: Side.splits)
  then show ?thesis unfolding running_quantity_def eq using foldl_dadd_exact [of k 0 "signed_fills key fills"] small by simp
qed

section \<open>Properties\<close>

lemma execution_fills_grow:
  assumes "execution_step sha clock db op = Some db'"
  shows "\<exists>fs. et_fills db' = et_fills db @ fs"
proof (cases op)
  case (ApplyFill ids e)
  with assms obtain out where "apply_fill_once sha clock ids db e = Inr (db', out)" by (auto split: if_splits sum.splits)
  then show ?thesis by (cases rule: apply_fill_cases) auto
next
  case (Checkpoint fresh cp)
  with assms show ?thesis
    by (auto simp: record_closed_interval_checkpoint_def replace_scopes_def put_stream_def split: if_splits sum.splits option.splits)
next
  case (ReleaseTerminal fresh order_id broker_id part t)
  with assms release_frame(1) show ?thesis by (fastforce split: sum.splits)
qed

lemma run_fills_grow: "\<exists>fs. et_fills (run_steps (execution_step sha clock) db ops) = et_fills db @ fs"
proof (induction ops arbitrary: db)
  case (Cons op ops)
  show ?case
  proof (cases "execution_step sha clock db op")
    case (Some db1)
    with execution_fills_grow [OF Some] Cons.IH [of db1] show ?thesis by auto
  qed (use Cons.IH [of db] in simp)
qed simp

text \<open>C1: positions are what the fills say. Whatever executions, checkpoints and releases are processed,
  in whatever order and with whatever duplicates, the quantity of every position is the running sum of
  the signed quantities of its stored fills, the filled quantity of every order the running sum of its
  own, and no execution is stored twice; on amounts with \<open>k\<close> fractional digits and at most 28 digits in
  all the running sum is the exact sum.\<close>

theorem position_is_sum_of_fills:
  assumes "execution_inv db"
  shows "let db' = run_steps (execution_step sha clock) db ops in
    distinct (map fill_key (et_fills db'))
    \<and> (\<forall>p \<in> set (et_positions db'). po_quantity p = running_quantity (position_key p) (et_fills db')
        \<and> (\<forall>k. (\<forall>f \<in> set (et_fills db'). dec_grid k (fl_quantity f))
             \<and> sum_list (map abs (signed_fills (position_key p) (et_fills db'))) * 10 ^ k < 10 ^ 28
             \<longrightarrow> po_quantity p = sum_list (signed_fills (position_key p) (et_fills db'))))
    \<and> (\<forall>r \<in> set (et_orders db'). orow_filled_quantity r = running_filled (ord_id r) (et_fills db'))"
proof -
  let ?db = "run_steps (execution_step sha clock) db ops"
  have "ledger_inv ?db" using execution_store.run_inv [OF assms, of sha clock ops] by (simp add: execution_inv_def)
  then show ?thesis using running_quantity_exact [where fills = "et_fills ?db"]
    unfolding ledger_inv_def Let_def by metis
qed

text \<open>C26: the lineage of a position is complete. Along every run a position has exactly one open
  lifecycle while its quantity is not zero and none while it is zero, through openings, closings and
  reversals, and lifecycle ordinals are never used twice.\<close>

theorem open_position_has_one_lifecycle:
  assumes "execution_inv db"
  shows "let db' = run_steps (execution_step sha clock) db ops in
    distinct (map lifecycle_key (et_lifecycles db'))
    \<and> (\<forall>p \<in> set (et_positions db').
         length (filter (\<lambda>l. lc_position_id l = po_id p \<and> lc_closed_at l = None) (et_lifecycles db'))
         = (if po_quantity p = 0 then 0 else 1))"
  using execution_store.run_inv [OF assms, of sha clock ops]
  by (simp add: execution_inv_def lineage_inv_def open_lifecycles_def Let_def)

text \<open>C25: a stream without a gap is complete. Along every run, in whatever order executions arrive and
  checkpoints are recorded, a watermark that reports no gap has stored exactly the sequence numbers
  from one to its contiguous number.\<close>

theorem gap_free_stream_is_complete:
  assumes "execution_inv db"
  shows "\<forall>w \<in> set (et_watermarks (run_steps (execution_step sha clock) db ops)). \<not> wmr_has_gap w \<longrightarrow>
    {n \<in> stored_numbers (run_steps (execution_step sha clock) db ops) w. 1 \<le> n} = {1..contiguous w}"
  using execution_store.run_inv [OF assms, of sha clock ops] stream_inv_gap_free
  unfolding execution_inv_def watermark_inv_def by blast

text \<open>C27: an execution counts once. Once an execution has been applied, applying one with the same
  broker, account and execution id again, after whatever else has happened, returns nothing and leaves
  fills, orders, positions, lifecycles, reservations and anchors as they are.\<close>

theorem execution_applied_once:
  assumes a: "apply_fill_once sha clock ids db e = Inr (db1, out)"
    and same: "ex_broker_id e' = ex_broker_id e" "ex_account_id e' = ex_account_id e"
      "ex_broker_execution_id e' = ex_broker_execution_id e"
    and again: "apply_fill_once sha clock ids' (run_steps (execution_step sha clock) db1 ops) e' = Inr (db3, out')"
  shows "out' = None \<and> et_fills db3 = et_fills (run_steps (execution_step sha clock) db1 ops)
    \<and> et_orders db3 = et_orders (run_steps (execution_step sha clock) db1 ops)
    \<and> et_positions db3 = et_positions (run_steps (execution_step sha clock) db1 ops)
    \<and> et_lifecycles db3 = et_lifecycles (run_steps (execution_step sha clock) db1 ops)
    \<and> rt_reservations db3 = rt_reservations (run_steps (execution_step sha clock) db1 ops)
    \<and> rt_anchors db3 = rt_anchors (run_steps (execution_step sha clock) db1 ops)"
proof -
  have key: "fill_key (fill_row u e') = fill_key (fill_row v e)" for u v by (simp add: fill_key_def fill_row_def same)
  from a have "fill_key (fill_row (fli_fill ids) e) \<in> fill_key ` set (et_fills db1)"
    by (cases rule: apply_fill_cases) (auto simp: get_by_None)
  then have "fill_key (fill_row (fli_fill ids') e') \<in> fill_key ` set (et_fills (run_steps (execution_step sha clock) db1 ops))"
    using run_fills_grow [of sha clock db1 ops] key [of "fli_fill ids'" "fli_fill ids"] by auto
  with again show ?thesis by (cases rule: apply_fill_cases) (auto simp: get_by_None)
qed

section \<open>Concrete runs\<close>

definition fill_anchor :: "string \<Rightarrow> string \<Rightarrow> RiskBudgetAnchorView" where
  "fill_anchor scope_type scope_key =
     \<lparr>av_scope_type = scope_type, av_scope_key = scope_key, av_currency = ''USD'', av_position_risk_amount = 0,
      av_remaining_reservation_amount = 100, av_hard_limit_amount = 1000, av_row_version = 1\<rparr>"

definition fill_reservation :: ReservationRow where
  "fill_reservation =
     \<lparr>rr_id = 1, rr_risk_decision_id = v7 2, rr_order_intent_id = v7 3, rr_account_id = 4,
      rr_initial_risk_amount = 100, rr_consumed_risk_amount = 0, rr_remaining_risk_amount = 100,
      rr_released_risk_amount = 0, rr_status = ACTIVE, rr_expires_at = 0, rr_release_reason = None,
      rw_currency = Some ''USD'', rw_settlement_asset = None\<rparr>"

definition fill_tables :: ExecTables where
  "fill_tables = empty_tables\<lparr>et_orders := [sample_order_row], et_links := [sample_link_row],
     rt_anchors := [fill_anchor ''GLOBAL'' ''GLOBAL'', fill_anchor ''ACCOUNT'' (uuid_str 4)],
     rt_reservations := [fill_reservation]\<rparr>"

definition fill_event :: BrokerExecutionEvent where
  "fill_event =
     \<lparr>ex_id = v7 14, ex_broker_id = 9, ex_account_id = 4, ex_order_id = v7 11, ex_broker_order_id = ''B-1'',
      ex_broker_client_order_id = ''c'', ex_broker_execution_id = ''x-1'', ex_source_partition = ''p'',
      ex_source_sequence = Some 1, ex_instrument_id = 5, ex_side = BUY, ex_quantity = 1, ex_price = 90,
      ex_charges = [], ex_currency = ''USD'', ex_executed_at = 5, ex_observed_at = 6, ex_payload_hash = []\<rparr>"

definition fill_ids :: FillIds where
  "fill_ids = \<lparr>fli_fill = v7 2, fli_watermark = 31, fli_gap = 32, fli_position = 33, fli_lot = 34, fli_event = v7 14\<rparr>"

lemma fill_tables_inv: "execution_inv fill_tables"
  by (simp add: execution_inv_def ledger_inv_def lineage_inv_def watermark_inv_def fill_tables_def empty_tables_def
      sample_order_row_def running_filled_def stream_sequences_def List.map_filter_def)

lemma outbox_frame:
  "et_outbox (apply_order_fill db ord e) = et_outbox db" "et_outbox (advance_for_fill fresh db e) = et_outbox db"
  "et_outbox (fst (locked_position u db e)) = et_outbox db" "et_outbox (put_position p db) = et_outbox db"
  "et_outbox (close_position_lots db p e) = et_outbox db" "et_outbox (consume_reservation db anchors ord e q) = et_outbox db"
  by (auto simp: apply_order_fill_def advance_for_fill_def advance_stream_sequence_def locked_position_def put_position_def
      close_position_lots_def consume_reservation_def put_order_def put_stream_def put_reservation_def add_incident_def Let_def
      split: option.splits)

lemma enqueue_empty:
  assumes "et_outbox db = []" "envelope_ok env"
  shows "\<exists>db'. enqueue sha clock db env t = Inr db'"
  using assms
  by (simp add: enqueue_def make_envelope_def enqueue_once_def outbox_duplicate_def find_outbox_def next_where_def outbox_row_def Let_def)

lemma lineage_from_flat: "\<exists>db'. record_position_lineage fresh db pid 0 fid side q t = Inr db'"
  by (cases "dadd 0 (signed_quantity side q) = 0")
     (simp_all add: record_position_lineage_def apply_lifecycle_transition_def Let_def)

text \<open>A first execution, on tables without positions or outbox rows, is applied.\<close>

lemma first_fill_applied:
  assumes db: "et_outbox db = []" "et_positions db = []"
    and env: "envelope_ok (fill_envelope (fli_event ids) (filled_order ord (ex_quantity e)) (fl_id f) e)"
  shows "\<exists>db'. apply_stored_fill sha clock ids db anchors ord f e = Inr db'"
proof -
  let ?d1 = "advance_for_fill (fli_watermark ids, fli_gap ids) (apply_order_fill db ord e) e"
  obtain d2 p where lp: "locked_position (fli_position ids) ?d1 e = (d2, p)" by fastforce
  have p: "po_quantity p = 0" "et_outbox d2 = []"
    using lp db arg_cong [OF lp, of "\<lambda>x. et_outbox (fst x)"] by (auto simp: outbox_frame locked_position_def get_by_def next_where_def Let_def)
  let ?d4 = "close_position_lots (put_position (filled_position p e) d2) p e"
  obtain d5 where lin: "record_position_lineage (fli_lot ids) ?d4 (po_id p) (po_quantity p) (fl_id f) (ex_side e) (ex_quantity e)
      (ex_executed_at e) = Inr d5"
    using lineage_from_flat p(1) by metis
  have "et_outbox d5 = []" using lin p(2) by (auto simp: outbox_frame elim!: record_position_lineage_frame)
  then show ?thesis
    using lp lin env enqueue_empty by (simp add: apply_stored_fill_def Let_def outbox_frame)
qed

lemma rnd_int: "\<bar>n\<bar> < 10 ^ 28 \<Longrightarrow> rnd (of_int n) = of_int n"
  by (rule rnd_grid [of 0]) (auto intro: dec_gridI)

lemma fill_sample_fields:
  "fli_event fill_ids = v7 14" "fli_fill fill_ids = v7 2" "ex_quantity fill_event = 1"
  "fl_id (fill_row u fill_event) = u" "ex_charges fill_event = []"
  by (simp_all add: fill_ids_def fill_event_def fill_row_def)

text \<open>The sample execution is applied to the sample order, whatever its status and size.\<close>

lemma fill_sample_applied:
  fixes s n
  defines "row \<equiv> sample_order_row\<lparr>ord_status := s, ord_requested_quantity := n\<rparr>"
  shows "\<exists>db1 a. apply_fill_once sample_digests 0 fill_ids (fill_tables\<lparr>et_orders := [row]\<rparr>) fill_event = Inr (db1, Some a)"
proof -
  let ?t = "fill_tables\<lparr>et_orders := [row]\<rparr>"
  have d: "dadd 0 1 = 1" using rnd_int [of 1] by (simp add: dadd_def)
  obtain anchors where g: "fill_guards ?t fill_event = Inr (anchors, row)"
    by (simp add: fill_guards_def fill_tables_def fill_event_def lock_global_and_account_def next_where_def anchor_key_def
        fill_anchor_def get_by_def sample_order_row_def sample_link_row_def row_def)
  let ?f = "fill_row (v7 2) fill_event"
  obtain db1 where ps: "persist_once (lock_global_dispatch_guard ?t) ?f [] = Inr (db1, ?f, FILL_INSERTED)"
    and db1: "et_outbox db1 = []" "et_positions db1 = []"
    by (simp add: persist_once_def Let_def get_by_def next_where_def fill_row_ok_def fill_tables_def empty_tables_def)
       (simp add: fill_row_def fill_event_def)
  have "envelope_ok (fill_envelope (v7 14) (filled_order row 1) (v7 2) fill_event)"
    by (simp add: envelope_ok_def fill_envelope_def filled_order_def Let_def d sample_order_row_def fill_event_def row_def)
  then obtain db2 where "apply_stored_fill sample_digests 0 fill_ids db1 anchors row ?f fill_event = Inr db2"
    using first_fill_applied [OF db1, of fill_ids row fill_event ?f sample_digests 0 anchors]
    by (auto simp only: fill_sample_fields)
  with g ps show ?thesis by (simp add: apply_fill_once_def Let_def fill_sample_fields)
qed

lemma fill_sample_Inr: "\<exists>db1 a. apply_fill_once sample_digests 0 fill_ids fill_tables fill_event = Inr (db1, Some a)"
proof -
  have "fill_tables\<lparr>et_orders := [sample_order_row\<lparr>ord_status := SUBMITTED, ord_requested_quantity := 1\<rparr>]\<rparr> = fill_tables"
    by (simp add: fill_tables_def sample_order_row_def)
  then show ?thesis using fill_sample_applied [where s = SUBMITTED and n = 1] by simp
qed

text \<open>What the sample execution leaves in the tables.\<close>

lemma fill_sample_effect:
  obtains db1 a p w where
    "apply_fill_once sample_digests 0 fill_ids fill_tables fill_event = Inr (db1, Some a)"
    "et_fills db1 = [fill_row (v7 2) fill_event]"
    "et_positions db1 = [p]" "position_key p = (4, 5)" "po_quantity p = 1"
    "et_watermarks db1 = [w]" "\<not> wmr_has_gap w" "contiguous w = 1"
proof -
  from fill_sample_Inr obtain db1 a where r: "apply_fill_once sample_digests 0 fill_ids fill_tables fill_event = Inr (db1, Some a)"
    by blast
  have d: "dadd 0 1 = 1" using rnd_int [of 1] by (simp add: dadd_def)
  have e: "et_fills fill_tables = []" "et_positions fill_tables = []" "et_watermarks fill_tables = []"
    by (simp_all add: fill_tables_def empty_tables_def)
  let ?p = "fill_position 33 fill_tables fill_event"
  have p: "position_key (filled_position ?p fill_event) = (4, 5)" "po_quantity (filled_position ?p fill_event) = 1"
    "position_key ?p = (4, 5)" "et_positions (fst (locked_position 33 fill_tables fill_event)) = [?p]"
    by (simp_all add: filled_position_def fill_position_def locked_position_def e get_by_def next_where_def Let_def
        signed_quantity_def d fill_event_def position_key_def)
  from r show thesis
  proof (cases rule: apply_fill_cases)
    case (applied anchors ord t1 t4 t5)
    have f: "et_fills db1 = [fill_row (v7 2) fill_event]" using applied(5) by (simp add: e fill_sample_fields)
    have "et_positions db1 = [filled_position ?p fill_event]"
      using applied(7) p by (simp add: fill_ids_def put_by_def)
    moreover obtain w where "et_watermarks db1 = [w]" "\<not> wmr_has_gap w" "contiguous w = 1"
      using applied(9,11) by (simp add: e advance_for_fill_def fill_event_def advance_stream_sequence_def find_stream_def
          next_where_def get_by_def contiguous_def)
    ultimately show thesis using that r f p(1,2) by blast
  qed simp
qed

lemma fill_sample_step:
  assumes "apply_fill_once sample_digests 0 fill_ids fill_tables fill_event = Inr (db1, Some a)"
  shows "run_steps (execution_step sample_digests 0) fill_tables [ApplyFill fill_ids fill_event] = db1"
  using assms by (simp add: fresh_fill_ids_def fill_tables_def empty_tables_def)

lemma links_frame:
  "et_links (apply_order_fill db ord e) = et_links db" "et_links (advance_for_fill fresh db e) = et_links db"
  "et_links (fst (locked_position u db e)) = et_links db" "et_links (put_position p db) = et_links db"
  "et_links (close_position_lots db p e) = et_links db" "et_links (consume_reservation db anchors ord e q) = et_links db"
  by (auto simp: apply_order_fill_def advance_for_fill_def advance_stream_sequence_def locked_position_def put_position_def
      close_position_lots_def consume_reservation_def put_order_def put_stream_def put_reservation_def add_incident_def Let_def
      split: option.splits)

lemma apply_fill_links:
  assumes "apply_fill_once sha clock ids db e = Inr (db', out)"
  shows "et_links db' = et_links db"
proof -
  have st: "et_links d' = et_links d" if "apply_stored_fill sha clock ids d anchors ord f e = Inr d'" for d d' anchors ord f
  proof -
    let ?d1 = "advance_for_fill (fli_watermark ids, fli_gap ids) (apply_order_fill d ord e) e"
    obtain d2 p where lp: "locked_position (fli_position ids) ?d1 e = (d2, p)" by fastforce
    have "et_links d2 = et_links d" using arg_cong [OF lp, of "\<lambda>x. et_links (fst x)"] by (simp add: links_frame)
    with that lp show ?thesis
      by (auto simp: apply_stored_fill_def Let_def and_then_eq_Inr_iff links_frame elim!: enqueue_Inr record_position_lineage_frame)
  qed
  have ps: "et_links d' = et_links d" if "persist_once d f cs = Inr (d', f', res)" for d d' f f' cs res
    using that by (auto simp: persist_once_def Let_def add_incident_def split: option.splits if_splits)
  show ?thesis
    using assms by (auto simp: apply_fill_once_def Let_def and_then_eq_Inr_iff dest!: st ps split: if_splits)
qed

text \<open>After the sample execution its order, link and anchors are still there.\<close>

lemma fill_sample_guards:
  assumes r: "apply_fill_once sample_digests 0 fill_ids fill_tables fill_event = Inr (db1, Some a)"
  shows "\<exists>anchors ord. fill_guards db1 fill_event = Inr (anchors, ord)"
  using r
proof (cases rule: apply_fill_cases)
  case (applied anchors ord t1 t4 t5)
  have pk: "map anchor_key (put_anchor z xs) = map anchor_key xs" for z xs by (simp add: put_anchor_def)
  have "map anchor_key (rt_anchors db1) = map anchor_key (rt_anchors fill_tables)"
    using applied(19,16) by (simp add: consume_reservation_def Let_def put_reservation_def add_incident_def pk split: option.splits)
  then obtain g ac where an: "rt_anchors db1 = [g, ac]" "anchor_key g = (''GLOBAL'', ''GLOBAL'', ''USD'')"
    "anchor_key ac = (''ACCOUNT'', uuid_str 4, ''USD'')"
    by (auto simp: fill_tables_def fill_anchor_def anchor_key_def)
  have ord: "ord = sample_order_row" using fill_guards_Inr(2) [OF applied(2)]
    by (simp add: get_by_def next_where_def fill_tables_def split: if_splits)
  have "et_orders db1 = [filled_order sample_order_row 1]"
    using applied(6) by (simp add: ord put_by_def fill_tables_def fill_sample_fields filled_order_def Let_def)
  then show ?thesis using apply_fill_links [OF r]
    by (simp add: fill_guards_def lock_global_and_account_def next_where_def an get_by_def filled_order_def Let_def
        fill_event_def sample_order_row_def fill_tables_def sample_link_row_def)
qed simp

theorem position_is_sum_of_fills_witness:
  "\<exists>p. et_positions (run_steps (execution_step sample_digests 0) fill_tables [ApplyFill fill_ids fill_event]) = [p]
     \<and> po_quantity p = 1
     \<and> running_quantity (4, 5) (et_fills (run_steps (execution_step sample_digests 0) fill_tables [ApplyFill fill_ids fill_event])) = 1"
proof -
  obtain db1 a p w where x: "apply_fill_once sample_digests 0 fill_ids fill_tables fill_event = Inr (db1, Some a)"
    "et_positions db1 = [p]" "position_key p = (4, 5)" "po_quantity p = 1"
    using fill_sample_effect by metis
  show ?thesis
    using position_is_sum_of_fills [OF fill_tables_inv, of sample_digests 0 "[ApplyFill fill_ids fill_event]"]
    unfolding fill_sample_step [OF x(1)] by (simp add: x(2-4) Let_def)
qed

theorem open_position_has_one_lifecycle_witness:
  "\<exists>p. et_positions (run_steps (execution_step sample_digests 0) fill_tables [ApplyFill fill_ids fill_event]) = [p]
     \<and> length (filter (\<lambda>l. lc_position_id l = po_id p \<and> lc_closed_at l = None)
         (et_lifecycles (run_steps (execution_step sample_digests 0) fill_tables [ApplyFill fill_ids fill_event]))) = 1"
proof -
  obtain db1 a p w where x: "apply_fill_once sample_digests 0 fill_ids fill_tables fill_event = Inr (db1, Some a)"
    "et_positions db1 = [p]" "position_key p = (4, 5)" "po_quantity p = 1"
    using fill_sample_effect by metis
  show ?thesis
    using open_position_has_one_lifecycle [OF fill_tables_inv, of sample_digests 0 "[ApplyFill fill_ids fill_event]"]
    unfolding fill_sample_step [OF x(1)] by (simp add: x(2-4) Let_def)
qed

theorem gap_free_stream_is_complete_witness:
  "\<exists>w. et_watermarks (run_steps (execution_step sample_digests 0) fill_tables [ApplyFill fill_ids fill_event]) = [w]
     \<and> \<not> wmr_has_gap w
     \<and> {n \<in> stored_numbers (run_steps (execution_step sample_digests 0) fill_tables [ApplyFill fill_ids fill_event]) w. 1 \<le> n} = {1}"
proof -
  obtain db1 a p w where x: "apply_fill_once sample_digests 0 fill_ids fill_tables fill_event = Inr (db1, Some a)"
    "et_watermarks db1 = [w]" "\<not> wmr_has_gap w" "contiguous w = 1"
    using fill_sample_effect by metis
  show ?thesis
    using gap_free_stream_is_complete [OF fill_tables_inv, of sample_digests 0 "[ApplyFill fill_ids fill_event]"]
    unfolding fill_sample_step [OF x(1)] by (simp add: x(2-4))
qed

theorem execution_applied_once_witness:
  "\<exists>db1 db3 a. apply_fill_once sample_digests 0 fill_ids fill_tables fill_event = Inr (db1, Some a)
     \<and> apply_fill_once sample_digests 0 fill_ids db1 fill_event = Inr (db3, None) \<and> et_positions db3 = et_positions db1"
proof -
  obtain db1 a where x: "apply_fill_once sample_digests 0 fill_ids fill_tables fill_event = Inr (db1, Some a)"
    "et_fills db1 = [fill_row (v7 2) fill_event]"
    using fill_sample_effect by metis
  obtain anchors ord where g: "fill_guards db1 fill_event = Inr (anchors, ord)" using fill_sample_guards [OF x(1)] by blast
  have "persist_once (lock_global_dispatch_guard db1) (fill_row (v7 2) fill_event) [] =
      Inr (lock_global_dispatch_guard db1, fill_row (v7 2) fill_event, FILL_DUPLICATE)"
    by (simp add: persist_once_def Let_def get_by_def next_where_def x(2))
  then have again: "apply_fill_once sample_digests 0 fill_ids db1 fill_event = Inr (lock_global_dispatch_guard db1, None)"
    by (simp add: apply_fill_once_def g fill_sample_fields Let_def)
  show ?thesis
    using x(1) again execution_applied_once [OF x(1) refl refl refl, where ops = "[]" and ids' = fill_ids] by simp
qed

end
