(* ===== verification/ExecutionBudget.thy ===== *)
theory ExecutionBudget
  imports ExecutionRuns
begin

text \<open>
  The risk budget under executions and releases: a fill moves risk out of a reservation and out of
  the two anchors that cover it, a release gives the rest back. Along runs in which every execution is in
  the currency of its reservation and every amount lies on one decimal grid, the anchors stay equal to the sum of
  what remains of the reservations in their scope, every reservation keeps its accounting equation,
  and a release happens only on complete execution evidence. A late execution reopens a terminal order.
\<close>

section \<open>Drawing from one reservation\<close>

lemma reserved_total_Cons [simp]:
  "reserved_total a (r # rows) = (if in_scope a r then rr_remaining_risk_amount r else 0) + reserved_total a rows"
  by (simp add: reserved_total_def)

lemma reserved_total_nonneg:
  "(\<And>r. r \<in> set rows \<Longrightarrow> 0 \<le> rr_remaining_risk_amount r) \<Longrightarrow> 0 \<le> reserved_total a rows"
  unfolding reserved_total_def by (rule sum_list_nonneg) auto

lemma reserved_total_ge:
  assumes "r \<in> set rows" "in_scope a r" "\<And>r. r \<in> set rows \<Longrightarrow> 0 \<le> rr_remaining_risk_amount r"
  shows "rr_remaining_risk_amount r \<le> reserved_total a rows"
  unfolding reserved_total_def
  by (rule member_le_sum_list) (use assms in auto)

lemma reserved_total_put_absent:
  "rr_risk_decision_id r' \<notin> rr_risk_decision_id ` set rows \<Longrightarrow> put_by rr_risk_decision_id r' rows = rows"
  by (induction rows) (auto simp: put_by_def)

lemma reserved_total_put:
  assumes "distinct (map rr_risk_decision_id rows)" "r \<in> set rows"
    and "rr_risk_decision_id r' = rr_risk_decision_id r" "in_scope a r' \<longleftrightarrow> in_scope a r"
  shows "reserved_total a (put_by rr_risk_decision_id r' rows) =
    reserved_total a rows - (if in_scope a r then rr_remaining_risk_amount r - rr_remaining_risk_amount r' else 0)"
  using assms(1,2)
proof (induction rows)
  case (Cons y ys)
  show ?case
  proof (cases "y = r")
    case True
    with Cons.prems assms(3) reserved_total_put_absent [of r' ys] show ?thesis
      by (auto simp: put_by_def assms(4))
  next
    case False
    with Cons show ?thesis using assms(3) by (auto simp: put_by_def)
  qed
qed simp

definition reservation_grid :: "nat \<Rightarrow> ReservationRow \<Rightarrow> bool" where
  "reservation_grid k r \<longleftrightarrow>
     dec_grid k (rr_initial_risk_amount r) \<and> dec_grid k (rr_consumed_risk_amount r)
     \<and> dec_grid k (rr_remaining_risk_amount r) \<and> dec_grid k (rr_released_risk_amount r)
     \<and> 0 \<le> rr_consumed_risk_amount r \<and> 0 \<le> rr_remaining_risk_amount r \<and> 0 \<le> rr_released_risk_amount r
     \<and> rr_consumed_risk_amount r + rr_remaining_risk_amount r + rr_released_risk_amount r = rr_initial_risk_amount r"

text \<open>An order's reservation is in the order's account, and in the currency of its decision.\<close>

definition scope_inv :: "ExecTables \<Rightarrow> bool" where
  "scope_inv db \<longleftrightarrow>
     (\<forall>r \<in> set (rt_reservations db).
        (\<forall>ord \<in> set (et_orders db). ord_risk_decision_id ord = rr_risk_decision_id r \<longrightarrow> ord_account_id ord = rr_account_id r)
        \<and> (\<forall>d \<in> set (rt_decisions db). rd_id d = rr_risk_decision_id r \<longrightarrow> rw_currency r = Some (rd_currency d)))"

definition anchor_reserve_ok :: "nat \<Rightarrow> RiskBudgetAnchorView \<Rightarrow> bool" where
  "anchor_reserve_ok k a \<longleftrightarrow> dec_grid k (av_remaining_reservation_amount a) \<and> 0 \<le> av_remaining_reservation_amount a"

definition budget_inv :: "nat \<Rightarrow> ExecTables \<Rightarrow> bool" where
  "budget_inv k db \<longleftrightarrow>
     keys_inv db \<and> conserved db \<and> scope_inv db
     \<and> (\<forall>a \<in> set (rt_anchors db). anchor_reserve_ok k a) \<and> (\<forall>r \<in> set (rt_reservations db). reservation_grid k r)"

text \<open>One reservation and the two anchors of its scope lowered by the same amount.\<close>

definition drawn :: "rat \<Rightarrow> RiskBudgetAnchorView \<Rightarrow> RiskBudgetAnchorView \<Rightarrow> bool" where
  "drawn x a a' \<longleftrightarrow> anchor_key a' = anchor_key a
     \<and> av_remaining_reservation_amount a' = av_remaining_reservation_amount a - x"

lemma budget_drawn:
  assumes inv: "budget_inv k db" and l: "lock_global_and_account (rt_anchors db) account currency = Some (g, a)"
    and r: "r \<in> set (rt_reservations db)" "rr_account_id r = account" "rw_currency r = Some currency"
    and x: "dec_grid k x" "0 \<le> x" "x \<le> rr_remaining_risk_amount r"
    and dr: "x \<le> av_remaining_reservation_amount g \<and> x \<le> av_remaining_reservation_amount a \<longrightarrow> drawn x g g' \<and> drawn x a a'"
    and r': "rr_risk_decision_id r' = rr_risk_decision_id r" "rr_account_id r' = rr_account_id r" "rw_currency r' = rw_currency r"
      "rr_remaining_risk_amount r' = rr_remaining_risk_amount r - x" "reservation_grid k r'"
    and db': "rt_anchors db' = put_anchor a' (put_anchor g' (rt_anchors db))"
      "rt_reservations db' = put_by rr_risk_decision_id r' (rt_reservations db)" "rt_decisions db' = rt_decisions db"
      "\<forall>ord' \<in> set (et_orders db'). \<exists>ord \<in> set (et_orders db). ord_risk_decision_id ord' = ord_risk_decision_id ord
         \<and> ord_account_id ord' = ord_account_id ord"
  shows "budget_inv k db'"
proof -
  note i = inv [unfolded budget_inv_def] and lk = lock_Some [OF l]
  have nn: "0 \<le> rr_remaining_risk_amount z" if "z \<in> set (rt_reservations db)" for z
    using i that by (auto simp: reservation_grid_def)
  have sc: "in_scope z r \<longleftrightarrow> anchor_key z = anchor_key g \<or> anchor_key z = anchor_key a" for z
    using in_scope_iff_key [OF r(3,2), of z] by (simp add: lk)
  have sc': "in_scope z r' \<longleftrightarrow> in_scope z r" for z using r' by (simp add: in_scope_def)
  have rem: "av_remaining_reservation_amount z = reserved_total z (rt_reservations db)" if "z \<in> set (rt_anchors db)" for z
    using i that by (simp add: conserved_def)
  have le: "x \<le> av_remaining_reservation_amount z" if "z \<in> set (rt_anchors db)" "in_scope z r" for z
    using reserved_total_ge [OF r(1) that(2) nn] x(3) rem [OF that(1)] by simp
  then have d: "drawn x g g'" "drawn x a a'" using dr lk sc by auto
  have keys: "distinct (map anchor_key (rt_anchors db))" using i by (simp add: keys_inv_def)
  have anchors: "rt_anchors db' = map (replaced g' a') (rt_anchors db)"
    unfolding db'(1) by (rule put_both) (use d lk in \<open>simp add: drawn_def\<close>)
  have one: "av_remaining_reservation_amount (replaced g' a' z) = av_remaining_reservation_amount z - (if in_scope z r then x else 0)"
    if z: "z \<in> set (rt_anchors db)" for z
  proof -
    have "anchor_key z = anchor_key g \<Longrightarrow> z = g" "anchor_key z = anchor_key a \<Longrightarrow> z = a"
      using unique_by_key [OF keys z] lk by auto
    then show ?thesis using d sc [of z] by (auto simp: replaced_def drawn_def)
  qed
  have tot: "reserved_total z (rt_reservations db') = reserved_total z (rt_reservations db) - (if in_scope z r then x else 0)" for z
    using reserved_total_put [OF _ r(1) r'(1) sc'] i by (simp add: db'(2) keys_inv_def r'(4))
  have "conserved db'"
    unfolding conserved_def anchors
  proof (intro ballI)
    fix y assume "y \<in> set (map (replaced g' a') (rt_anchors db))"
    then obtain z where z: "z \<in> set (rt_anchors db)" "y = replaced g' a' z" by auto
    have "anchor_key y = anchor_key z" using d by (auto simp: z(2) replaced_def drawn_def)
    from reserved_total_key [OF this] show "av_remaining_reservation_amount y = reserved_total y (rt_reservations db')"
      using one [OF z(1)] rem [OF z(1)] by (simp add: z(2) tot [of z])
  qed
  moreover have "\<forall>y \<in> set (rt_anchors db'). anchor_reserve_ok k y"
    unfolding anchors
  proof (intro ballI)
    fix y assume "y \<in> set (map (replaced g' a') (rt_anchors db))"
    then obtain z where z: "z \<in> set (rt_anchors db)" "y = replaced g' a' z" by auto
    have "anchor_reserve_ok k z" using i z by auto
    then show "anchor_reserve_ok k y" using one [OF z(1)] le [OF z(1)] dec_grid_diff [OF _ x(1,2)]
      by (auto simp: z(2) anchor_reserve_ok_def)
  qed
  moreover have "map anchor_key (rt_anchors db') = map anchor_key (rt_anchors db)"
    unfolding db'(1) by (simp add: put_anchor_def)
  then have "keys_inv db'"
    using i by (simp add: keys_inv_def db'(2,3) del: map_map)
  moreover have "\<forall>z \<in> set (rt_reservations db'). reservation_grid k z"
    using i r'(5) by (auto simp: db'(2) dest!: put_by_set)
  moreover have "scope_inv db'"
  proof -
    have "z \<in> set (rt_reservations db') \<Longrightarrow> \<exists>w \<in> set (rt_reservations db). rr_risk_decision_id z = rr_risk_decision_id w
        \<and> rr_account_id z = rr_account_id w \<and> rw_currency z = rw_currency w" for z
      using r(1) r'(1-3) by (auto simp: db'(2) dest!: put_by_set)
    then show ?thesis using i db'(3,4) unfolding scope_inv_def by metis
  qed
  ultimately show ?thesis by (simp add: budget_inv_def)
qed

section \<open>An execution\<close>

definition fill_risk :: "BrokerExecutionEvent \<Rightarrow> decimal \<Rightarrow> decimal" where
  "fill_risk e previous_quantity = dmul (ex_price e) (risk_increase_quantity (ex_side e) (ex_quantity e) previous_quantity)"

definition reclaimed_risk :: "ReservationRow \<Rightarrow> decimal \<Rightarrow> decimal" where
  "reclaimed_risk r amount = min (rr_released_risk_amount r) amount"

definition drawn_risk :: "ReservationRow \<Rightarrow> decimal \<Rightarrow> decimal" where
  "drawn_risk r amount = min (rr_remaining_risk_amount r) (dsub amount (reclaimed_risk r amount))"

definition reservation_after :: "ReservationRow \<Rightarrow> decimal \<Rightarrow> ReservationRow" where
  "reservation_after r amount =
     consumed_reservation r (dadd (reclaimed_risk r amount) (drawn_risk r amount)) (reclaimed_risk r amount) (drawn_risk r amount)"

lemma consume_reservation_tables:
  assumes "find_reservation db (ord_risk_decision_id ord) = Some r"
  shows "rt_reservations (consume_reservation db anchors ord e q) =
      put_by rr_risk_decision_id (reservation_after r (fill_risk e q)) (rt_reservations db)"
    and "rt_anchors (consume_reservation db anchors ord e q) =
      put_anchor (consumed_anchor (drawn_risk r (fill_risk e q)) (fill_risk e q) (snd anchors))
        (put_anchor (consumed_anchor (drawn_risk r (fill_risk e q)) (fill_risk e q) (fst anchors)) (rt_anchors db))"
  using assms
  by (simp_all add: consume_reservation_def Let_def put_reservation_def add_incident_def reservation_after_def
      drawn_risk_def reclaimed_risk_def fill_risk_def)

text \<open>The amounts of a consumed reservation, exact on a grid.\<close>

lemma drawn_risk_exact:
  assumes g: "reservation_grid k r" and amt: "dec_grid k amount" "0 \<le> amount"
  shows "dec_grid k (reclaimed_risk r amount)" "0 \<le> reclaimed_risk r amount" "reclaimed_risk r amount \<le> rr_released_risk_amount r"
    and "drawn_risk r amount = min (rr_remaining_risk_amount r) (amount - reclaimed_risk r amount)"
    and "dec_grid k (drawn_risk r amount)" "0 \<le> drawn_risk r amount" "drawn_risk r amount \<le> rr_remaining_risk_amount r"
proof -
  let ?m = "reclaimed_risk r amount"
  show m: "dec_grid k ?m" "0 \<le> ?m" "?m \<le> rr_released_risk_amount r"
    using g amt by (auto simp: reclaimed_risk_def reservation_grid_def min_def)
  have le: "?m \<le> amount" by (simp add: reclaimed_risk_def)
  have d: "dec_grid k (amount - ?m)" using m le amt by (intro dec_grid_diff) auto
  show c: "drawn_risk r amount = min (rr_remaining_risk_amount r) (amount - ?m)"
    by (simp add: drawn_risk_def dec_ops rnd_grid [OF d])
  show "dec_grid k (drawn_risk r amount)" "0 \<le> drawn_risk r amount" "drawn_risk r amount \<le> rr_remaining_risk_amount r"
    using g d le unfolding c by (auto simp: reservation_grid_def min_def)
qed

lemma reservation_after_exact:
  assumes g: "reservation_grid k r" and amt: "dec_grid k amount" "0 \<le> amount"
  shows "rr_remaining_risk_amount (reservation_after r amount) = rr_remaining_risk_amount r - drawn_risk r amount"
    and "rr_released_risk_amount (reservation_after r amount) = rr_released_risk_amount r - reclaimed_risk r amount"
    and "rr_consumed_risk_amount (reservation_after r amount) =
      rr_consumed_risk_amount r + reclaimed_risk r amount + drawn_risk r amount"
    and "reservation_grid k (reservation_after r amount)"
proof -
  note x = drawn_risk_exact [OF assms]
  let ?m = "reclaimed_risk r amount" and ?c = "drawn_risk r amount"
  note r = g [unfolded reservation_grid_def]
  have s1: "dec_grid k (?m + ?c)" using r x by (intro dec_grid_add [of k _ _ "rr_initial_risk_amount r"]) auto
  have s2: "dec_grid k (rr_consumed_risk_amount r + (?m + ?c))"
    using r x s1 by (intro dec_grid_add [of k _ _ "rr_initial_risk_amount r"]) auto
  have s3: "dec_grid k (rr_remaining_risk_amount r - ?c)" "dec_grid k (rr_released_risk_amount r - ?m)"
    using r x by (auto intro: dec_grid_diff)
  show "rr_remaining_risk_amount (reservation_after r amount) = rr_remaining_risk_amount r - ?c"
    "rr_released_risk_amount (reservation_after r amount) = rr_released_risk_amount r - ?m"
    "rr_consumed_risk_amount (reservation_after r amount) = rr_consumed_risk_amount r + ?m + ?c"
    by (simp_all add: reservation_after_def consumed_reservation_def Let_def dec_ops rnd_grid [OF s1] rnd_grid [OF s2]
        rnd_grid [OF s3(1)] rnd_grid [OF s3(2)] add.assoc)
  moreover have "rr_initial_risk_amount (reservation_after r amount) = rr_initial_risk_amount r"
    by (simp add: reservation_after_def consumed_reservation_def Let_def)
  ultimately show "reservation_grid k (reservation_after r amount)"
    using r x s2 s3 by (simp add: reservation_grid_def add.assoc)
qed

lemma reservation_after_fields [simp]:
  "rr_risk_decision_id (reservation_after r amount) = rr_risk_decision_id r"
  "rr_account_id (reservation_after r amount) = rr_account_id r" "rw_currency (reservation_after r amount) = rw_currency r"
  "rr_initial_risk_amount (reservation_after r amount) = rr_initial_risk_amount r"
  by (simp_all add: reservation_after_def consumed_reservation_def Let_def)

lemma find_reservation_Some:
  "find_reservation db u = Some r \<Longrightarrow> r \<in> set (rt_reservations db) \<and> rr_risk_decision_id r = u"
  unfolding find_reservation_def by (auto dest: get_by_Some)

definition fill_on_grid :: "nat \<Rightarrow> ExecTables \<Rightarrow> uuid \<Rightarrow> BrokerExecutionEvent \<Rightarrow> bool" where
  "fill_on_grid k db fresh e \<longleftrightarrow>
     (let amount = fill_risk e (po_quantity (fill_position fresh db e)) in dec_grid k amount \<and> 0 \<le> amount)
     \<and> (\<forall>r \<in> set (rt_reservations db). list_ex (\<lambda>ord. ord_id ord = ex_order_id e \<and> ord_risk_decision_id ord = rr_risk_decision_id r) (et_orders db)
          \<longrightarrow> rw_currency r = Some (ex_currency e))"

lemma budget_inv_cong:
  assumes "budget_inv k db" "rt_anchors db' = rt_anchors db" "rt_reservations db' = rt_reservations db"
    "rt_decisions db' = rt_decisions db"
    "\<forall>ord' \<in> set (et_orders db'). \<exists>ord \<in> set (et_orders db). ord_risk_decision_id ord' = ord_risk_decision_id ord
         \<and> ord_account_id ord' = ord_account_id ord"
  shows "budget_inv k db'"
proof -
  have "scope_inv db" using assms(1) by (simp add: budget_inv_def)
  then have "scope_inv db'" using assms(3-5) unfolding scope_inv_def by metis
  with assms(1-4) show ?thesis by (simp add: budget_inv_def keys_inv_def conserved_def)
qed

lemma budget_fill:
  assumes inv: "budget_inv k db" and a: "apply_fill_once sha clock ids db e = Inr (db', out)"
    and ok: "fill_on_grid k db (fli_position ids) e"
  shows "budget_inv k db'"
  using a
proof (cases rule: apply_fill_cases)
  case (skipped incs)
  then show ?thesis using budget_inv_cong [OF inv, of db'] by auto
next
  case (applied anchors ord db1 db4 db5)
  let ?q = "po_quantity (fill_position (fli_position ids) db e)"
  note g = fill_guards_Inr [OF applied(2)]
  have ord: "ord \<in> set (et_orders db)" "ord_id ord = ex_order_id e" using g(2) by (auto dest: get_by_Some)
  have orders: "\<forall>o' \<in> set (et_orders db'). \<exists>o'' \<in> set (et_orders db). ord_risk_decision_id o' = ord_risk_decision_id o''
      \<and> ord_account_id o' = ord_account_id o''"
    using ord(1) by (auto simp: applied(6) filled_order_def Let_def dest!: put_by_set)
  show ?thesis
  proof (cases "find_reservation db (ord_risk_decision_id ord)")
    case None
    then have "find_reservation db5 (ord_risk_decision_id ord) = None" by (simp add: find_reservation_def applied(17))
    then show ?thesis using budget_inv_cong [OF inv _ _ applied(18) orders] applied(16,17,19,20)
      by (simp add: consume_reservation_def)
  next
    case (Some r)
    then have "find_reservation db5 (ord_risk_decision_id ord) = Some r" by (simp add: find_reservation_def applied(17))
    note t = consume_reservation_tables [OF this, of anchors e ?q]
    have r: "r \<in> set (rt_reservations db)" "rr_risk_decision_id r = ord_risk_decision_id ord"
      using find_reservation_Some [OF Some] by auto
    have rg: "reservation_grid k r" using inv r by (simp add: budget_inv_def)
    have sc: "rr_account_id r = ex_account_id e" "rw_currency r = Some (ex_currency e)"
    proof -
      show "rr_account_id r = ex_account_id e" using inv r ord g(3) by (auto simp: budget_inv_def scope_inv_def)
      show "rw_currency r = Some (ex_currency e)" using ok r ord unfolding fill_on_grid_def list_ex_iff by metis
    qed
    have amt: "dec_grid k (fill_risk e ?q)" "0 \<le> fill_risk e ?q" using ok by (auto simp: fill_on_grid_def Let_def)
    note x = drawn_risk_exact [OF rg amt] and y = reservation_after_exact [OF rg amt]
    let ?c = "drawn_risk r (fill_risk e ?q)"
    obtain ga ac where an: "anchors = (ga, ac)" by fastforce
    have l: "lock_global_and_account (rt_anchors db) (ex_account_id e) (ex_currency e) = Some (ga, ac)" using g(1) an by simp
    have ro: "anchor_reserve_ok k ga" "anchor_reserve_ok k ac" using inv lock_Some [OF l] by (auto simp: budget_inv_def)
    have dr: "drawn ?c z (consumed_anchor ?c (fill_risk e ?q) z)"
      if "anchor_reserve_ok k z" "?c \<le> av_remaining_reservation_amount z" for z
      using dec_grid_diff [OF _ x(5,6) that(2)] that(1)
      by (simp add: drawn_def consumed_anchor_def anchor_key_def dec_ops rnd_grid anchor_reserve_ok_def)
    show ?thesis
      by (rule budget_drawn [OF inv l r(1) sc x(5-7), where r' = "reservation_after r (fill_risk e ?q)"])
         (use t dr ro y applied(16-20) orders an in auto)
  qed
qed

section \<open>A release\<close>

lemma write_release_tables:
  assumes "write_release sha fresh db anchors ord r clock = Inr db'"
  obtains g a where "released_anchor (rr_remaining_risk_amount r) (fst anchors) = Inr g"
    "released_anchor (rr_remaining_risk_amount r) (snd anchors) = Inr a"
    "rt_anchors db' = put_anchor a (put_anchor g (rt_anchors db))"
    "rt_reservations db' = put_by rr_risk_decision_id (released_reservation r) (rt_reservations db)"
    "rt_decisions db' = rt_decisions db" "et_orders db' = et_orders db"
  using assms
  by (auto simp: write_release_def Let_def and_then_eq_Inr_iff put_reservation_def elim!: enqueue_Inr)

lemma release_reads_guard:
  "order_links (lock_global_dispatch_guard db) u = order_links db u"
  "terminal_time (lock_global_dispatch_guard db) u = terminal_time db u"
  "find_reservation (lock_global_dispatch_guard db) u = find_reservation db u"
  "terminal_completeness_proof (lock_global_dispatch_guard db) b a p = terminal_completeness_proof db b a p"
  by (simp_all add: order_links_def terminal_time_def terminal_events_def find_reservation_def terminal_completeness_proof_def
      find_stream_def scope_values_def split: option.splits)

text \<open>What a release that returns has checked.\<close>

lemma release_cases:
  assumes "release_if_complete sha fresh db order_id broker_id part clock = Inr (db', out)"
  obtains (kept) "\<not> tra_released out" "db' = lock_global_dispatch_guard db"
  | (released) ord d anchors r terminal_at domain where "tra_released out"
      "get_by ord_id order_id (et_orders db) = Some ord" "get_by rd_id (ord_risk_decision_id ord) (rt_decisions db) = Some d"
      "lock_global_and_account (rt_anchors db) (ord_account_id ord) (rd_currency d) = Some anchors"
      "find_reservation db (ord_risk_decision_id ord) = Some r" "rr_remaining_risk_amount r \<noteq> 0"
      "terminal_time db order_id = Some terminal_at" "order_links db order_id \<noteq> []"
      "list_all (\<lambda>l. lk_broker_id l = broker_id) (order_links db order_id)"
      "domain_links (order_links db order_id) = Inr domain"
      "trd_release (decide_terminal_release domain (terminal_completeness_proof db broker_id (ord_account_id ord) part)
         [ord_broker_client_order_id ord] (ord_created_at ord) terminal_at clock)"
      "write_release sha fresh (lock_global_dispatch_guard db) anchors ord r clock = Inr db'"
proof -
  from assms show thesis
    by (auto simp: release_if_complete_def Let_def and_then_eq_Inr_iff release_reads_guard list_all_iff list_ex_iff
        intro: kept released split: option.splits if_splits)
qed

lemma budget_release:
  assumes inv: "budget_inv k db" and a: "release_if_complete sha fresh db order_id broker_id part clock = Inr (db', out)"
  shows "budget_inv k db'"
  using a
proof (cases rule: release_cases)
  case kept
  then show ?thesis using budget_inv_cong [OF inv, of db'] by auto
next
  case (released ord d anchors r terminal_at domain)
  have r: "r \<in> set (rt_reservations db)" "rr_risk_decision_id r = ord_risk_decision_id ord"
    using find_reservation_Some [OF released(5)] by auto
  have rg: "reservation_grid k r" using inv r by (simp add: budget_inv_def)
  have sc: "rr_account_id r = ord_account_id ord" "rw_currency r = Some (rd_currency d)"
    using inv r get_by_Some [OF released(2)] get_by_Some [OF released(3)] by (auto simp: budget_inv_def scope_inv_def)
  obtain ga ac where an: "anchors = (ga, ac)" by fastforce
  have l: "lock_global_and_account (rt_anchors db) (ord_account_id ord) (rd_currency d) = Some (ga, ac)"
    using released(4) an by simp
  have ro: "anchor_reserve_ok k ga" "anchor_reserve_ok k ac" using inv lock_Some [OF l] by (auto simp: budget_inv_def)
  let ?x = "rr_remaining_risk_amount r"
  from released(12) obtain g' a' where w: "released_anchor ?x ga = Inr g'" "released_anchor ?x ac = Inr a'"
    "rt_anchors db' = put_anchor a' (put_anchor g' (rt_anchors db))"
    "rt_reservations db' = put_by rr_risk_decision_id (released_reservation r) (rt_reservations db)"
    "rt_decisions db' = rt_decisions db" "et_orders db' = et_orders db"
    by (rule write_release_tables) (auto simp: an)
  have dr: "drawn ?x z z'" if "released_anchor ?x z = Inr z'" "anchor_reserve_ok k z" for z z'
    using that rg dec_grid_diff [of k "av_remaining_reservation_amount z" ?x]
    by (auto simp: released_anchor_def drawn_def anchor_key_def dec_ops rnd_grid anchor_reserve_ok_def reservation_grid_def
        split: if_splits)
  have sum: "dec_grid k (rr_released_risk_amount r + ?x)"
    using rg by (intro dec_grid_add [of k _ _ "rr_initial_risk_amount r"]) (auto simp: reservation_grid_def)
  have rg': "reservation_grid k (released_reservation r)"
    using rg by (simp add: reservation_grid_def released_reservation_def dec_ops rnd_grid [OF sum] sum)
  show ?thesis
    by (rule budget_drawn [OF inv l r(1) sc, of ?x, where r' = "released_reservation r"])
       (use w dr ro rg rg' in \<open>auto simp: reservation_grid_def released_reservation_def\<close>)
qed

section \<open>Runs within the budget\<close>

text \<open>The executions of a run are in the currency of the reservation they draw from, and their risk
  amounts have the \<open>k\<close> fractional digits of the reservations; the code checks neither.\<close>

fun fills_on_grid :: "nat \<Rightarrow> Digests \<Rightarrow> instant \<Rightarrow> ExecTables \<Rightarrow> execution_op list \<Rightarrow> bool" where
  "fills_on_grid k sha clock db [] \<longleftrightarrow> True"
| "fills_on_grid k sha clock db (op # ops) \<longleftrightarrow>
     (case op of ApplyFill ids e \<Rightarrow> fill_on_grid k db (fli_position ids) e | _ \<Rightarrow> True)
     \<and> fills_on_grid k sha clock (case execution_step sha clock db op of None \<Rightarrow> db | Some db' \<Rightarrow> db') ops"

lemma checkpoint_frame:
  assumes "record_closed_interval_checkpoint fresh db cp = Inr db'"
  shows "rt_anchors db' = rt_anchors db" "rt_reservations db' = rt_reservations db" "rt_decisions db' = rt_decisions db"
    "et_orders db' = et_orders db"
  using assms
  by (auto simp: record_closed_interval_checkpoint_def Let_def put_stream_def replace_scopes_def and_then_eq_Inr_iff checks_simps
      split: option.splits if_splits)

lemma budget_checkpoint:
  assumes "budget_inv k db" "record_closed_interval_checkpoint fresh db cp = Inr db'"
  shows "budget_inv k db'"
  using budget_inv_cong [OF assms(1) checkpoint_frame(1-3) [OF assms(2)]] checkpoint_frame(4) [OF assms(2)] by auto

lemma budget_step_inv:
  assumes "budget_inv k db" "execution_step sha clock db op = Some db'"
    and "case op of ApplyFill ids e \<Rightarrow> fill_on_grid k db (fli_position ids) e | _ \<Rightarrow> True"
  shows "budget_inv k db'"
  using assms
  by (cases op) (auto split: sum.splits if_splits intro: budget_fill budget_release budget_checkpoint)

lemma budget_run:
  "budget_inv k db \<Longrightarrow> fills_on_grid k sha clock db ops \<Longrightarrow> budget_inv k (run_steps (execution_step sha clock) db ops)"
  by (induction ops arbitrary: db) (auto split: option.splits dest: budget_step_inv)

definition consumption_of :: "ReservationRow \<Rightarrow> ReservationConsumption" where
  "consumption_of r = \<lparr>rc_initial = rr_initial_risk_amount r, rc_consumed = rr_consumed_risk_amount r,
     rc_remaining = rr_remaining_risk_amount r, rc_released = rr_released_risk_amount r\<rparr>"

text \<open>The evidence a watermark row holds for an order: nothing missing in the stream, the listing of
  the venue read to its end and not stale, and the order's life and identifiers inside it.\<close>

definition complete_evidence ::
  "ExecTables \<Rightarrow> WatermarkRow \<Rightarrow> OrderRow \<Rightarrow> LinkRow list \<Rightarrow> instant \<Rightarrow> instant \<Rightarrow> bool" where
  "complete_evidence db w ord links terminal_at clock \<longleftrightarrow>
     \<not> wmr_has_gap w \<and> wmr_pagination_complete w \<and> clock < wmr_expires_at w
     \<and> (case wmr_covered_from_at w of None \<Rightarrow> False | Some t \<Rightarrow> t \<le> ord_created_at ord)
     \<and> (case wmr_covered_through_at w of None \<Rightarrow> False | Some t \<Rightarrow> terminal_at \<le> t)
     \<and> list_all (\<lambda>l. lk_exposure_bearing l \<longrightarrow> lk_broker_order_id l \<in> set (scope_values db (wmr_id w) ''BROKER_ORDER_ID'')) links
     \<and> ord_broker_client_order_id ord \<in> set (scope_values db (wmr_id w) ''BROKER_CLIENT_ORDER_ID'')"

lemma domain_links_Inr:
  assumes "domain_links ls = Inr xs"
  shows "list_all2 (\<lambda>l x. bl_exposure_bearing x = lk_exposure_bearing l \<and> bl_broker_order_id x = lk_broker_order_id l
    \<and> lk_status l = status_value (bl_status x)) ls xs"
  using assms
  by (induction ls arbitrary: xs)
     (auto simp: and_then_eq_Inr_iff domain_link_def dest: parse_status_Some split: option.splits)

lemma released_links:
  assumes "domain_links links = Inr domain"
    and "trd_release (decide_terminal_release domain prf ids from_at terminal_at clock)"
  shows "\<forall>l \<in> set links. lk_exposure_bearing l \<longrightarrow> (\<exists>s \<in> set TERMINAL_ORDER_STATUSES. lk_status l = status_value s)"
    and "is_terminal_window_complete prf (map lk_broker_order_id (filter lk_exposure_bearing links)) ids from_at terminal_at clock"
proof -
  have d: "list_all is_terminal (filter bl_exposure_bearing domain)"
    "is_terminal_window_complete prf (map bl_broker_order_id (filter bl_exposure_bearing domain)) ids from_at terminal_at clock"
    using assms(2) by (auto simp: decide_terminal_release_def Let_def all_exposure_links_terminal_def split: if_splits)
  have z: "map bl_broker_order_id (filter bl_exposure_bearing domain) = map lk_broker_order_id (filter lk_exposure_bearing links)"
    using domain_links_Inr [OF assms(1)] by (induction rule: list_all2_induct) auto
  show "is_terminal_window_complete prf (map lk_broker_order_id (filter lk_exposure_bearing links)) ids from_at terminal_at clock"
    using d(2) z by simp
  show "\<forall>l \<in> set links. lk_exposure_bearing l \<longrightarrow> (\<exists>s \<in> set TERMINAL_ORDER_STATUSES. lk_status l = status_value s)"
    using domain_links_Inr [OF assms(1)] d(1)
    by (induction rule: list_all2_induct) (auto simp: is_terminal_def split: if_splits)
qed

section \<open>Properties\<close>

text \<open>C2: executions, checkpoints and releases never break the risk budget. Along every run in which each
  execution is in the currency of the reservation it draws from and adds a risk amount with at most
  \<open>k\<close> fractional digits, as the reservations and the anchors have, what an anchor holds reserved is
  exactly the sum of what remains of the reservations in its scope and is never negative, and every
  reservation's consumed, remaining and released amounts add up to what was reserved at first.\<close>

theorem execution_keeps_risk_budget:
  assumes "budget_inv k db" and "fills_on_grid k sha clock db ops"
  shows "let db' = run_steps (execution_step sha clock) db ops in
    (\<forall>a \<in> set (rt_anchors db'). 0 \<le> av_remaining_reservation_amount a
       \<and> av_remaining_reservation_amount a = reserved_total a (rt_reservations db'))
    \<and> (\<forall>r \<in> set (rt_reservations db'). 0 \<le> rr_remaining_risk_amount r \<and> rr_consumed_risk_amount r \<le> rr_initial_risk_amount r
         \<and> rr_consumed_risk_amount r + rr_remaining_risk_amount r + rr_released_risk_amount r = rr_initial_risk_amount r)"
proof -
  have "budget_inv k (run_steps (execution_step sha clock) db ops)" by (rule budget_run [OF assms])
  then show ?thesis
    by (force simp: budget_inv_def Let_def conserved_def anchor_reserve_ok_def reservation_grid_def)
qed

text \<open>The fill store and the domain model agree. The store computes the new amounts of a
  reservation inline; on amounts with \<open>k\<close> fractional digits they are those of
  \<open>ReservationConsumption.apply_attributable_fill\<close> for the risk the execution adds.\<close>

theorem store_consumes_as_model:
  assumes "find_reservation db (ord_risk_decision_id ord) = Some r" and "reservation_grid k r"
    and "dec_grid k (fill_risk e q)" "0 \<le> fill_risk e q"
  shows "\<exists>r'. find_reservation (consume_reservation db anchors ord e q) (ord_risk_decision_id ord) = Some r'
    \<and> apply_attributable_fill (consumption_of r) (PyDecimal (fill_risk e q)) = Inr (consumption_of r')"
proof -
  note x = drawn_risk_exact [OF assms(2-4)] and y = reservation_after_exact [OF assms(2-4)]
  let ?a = "fill_risk e q"
  have r: "r \<in> set (rt_reservations db)" "rr_risk_decision_id r = ord_risk_decision_id ord"
    using find_reservation_Some [OF assms(1)] by auto
  have found: "find_reservation (consume_reservation db anchors ord e q) (ord_risk_decision_id ord) = Some (reservation_after r ?a)"
    using assms(1) r by (simp add: find_reservation_def consume_reservation_tables [OF assms(1)])
  have c1: "dec_grid k (rr_consumed_risk_amount r + reclaimed_risk r ?a)"
    using assms(2) x by (intro dec_grid_add [of k _ _ "rr_initial_risk_amount r"]) (auto simp: reservation_grid_def)
  have c2: "dec_grid k (rr_consumed_risk_amount (reservation_after r ?a))" using y(4) by (simp add: reservation_grid_def)
  have "rr_consumed_risk_amount (reservation_after r ?a) =
      dadd (dadd (rr_consumed_risk_amount r) (reclaimed_risk r ?a)) (drawn_risk r ?a)"
    using rnd_grid [OF c2] by (simp add: dec_ops rnd_grid [OF c1] flip: y(3))
  moreover have "rr_remaining_risk_amount (reservation_after r ?a) = dsub (rr_remaining_risk_amount r) (drawn_risk r ?a)"
    "rr_released_risk_amount (reservation_after r ?a) = dsub (rr_released_risk_amount r) (reclaimed_risk r ?a)"
    by (simp_all add: reservation_after_def consumed_reservation_def Let_def)
  ultimately have "apply_attributable_fill (consumption_of r) (PyDecimal ?a) = Inr (consumption_of (reservation_after r ?a))"
    using assms(4) by (simp add: apply_attributable_fill_def consumption_of_def Let_def reclaimed_risk_def drawn_risk_def)
  with found show ?thesis by blast
qed

text \<open>C3: reserved risk is released only on complete evidence. A release happens only when the order
  has reached a terminal status, every exposure-bearing broker order is terminal, and the stream's
  watermark is without a gap, read to the end, fresh, and covers the order's life and identifiers;
  then every sequenced execution of the stream up to its contiguous number has been stored.\<close>

theorem release_needs_complete_evidence:
  assumes "watermark_inv db" and "release_if_complete sha fresh db order_id broker_id part clock = Inr (db', out)"
    and "tra_released out"
  shows "\<exists>ord terminal_at w. get_by ord_id order_id (et_orders db) = Some ord
    \<and> terminal_time db order_id = Some terminal_at
    \<and> list_all (\<lambda>l. lk_broker_id l = broker_id
         \<and> (lk_exposure_bearing l \<longrightarrow> (\<exists>s \<in> set TERMINAL_ORDER_STATUSES. lk_status l = status_value s))) (order_links db order_id)
    \<and> find_stream db broker_id (ord_account_id ord) part = Some w
    \<and> complete_evidence db w ord (order_links db order_id) terminal_at clock
    \<and> {n \<in> stored_numbers db w. 1 \<le> n} = {1..contiguous w}"
  using assms(2)
proof (cases rule: release_cases)
  case (released ord d anchors r terminal_at domain)
  note rl = released_links [OF released(10,11)]
  let ?window = "terminal_completeness_proof db broker_id (ord_account_id ord) part"
  obtain w where w: "find_stream db broker_id (ord_account_id ord) part = Some w"
    using rl(2) by (auto simp: is_terminal_window_complete_def terminal_completeness_proof_def split: option.splits)
  have ev: "complete_evidence db w ord (order_links db order_id) terminal_at clock"
    using rl(2) w
    by (auto simp: is_terminal_window_complete_def terminal_completeness_proof_def complete_evidence_def list_all_iff
        split: option.splits if_splits)
  have "w \<in> set (et_watermarks db)" using w by (auto simp: find_stream_def dest: get_by_Some)
  then have "{n \<in> stored_numbers db w. 1 \<le> n} = {1..contiguous w}"
    using assms(1) ev stream_inv_gap_free unfolding watermark_inv_def complete_evidence_def by blast
  then show ?thesis using released(2,7,9) rl(1) w ev by (auto simp: list_all_iff)
qed (use assms(3) in simp)

text \<open>C28: a late execution takes an order out of a terminal status. Whatever terminal status the order has,
  an execution sets it by the new filled quantity alone: below the requested quantity to PARTIALLY_FILLED, at
  it to FILLED, above it to UNKNOWN; from a terminal status the state machine of orders has a transition to
  none of them.\<close>

theorem late_fill_reopens_order:
  assumes "apply_fill_once sha clock ids db e = Inr (db', Some a)"
    and "get_by ord_id (ex_order_id e) (et_orders db) = Some ord" "ord_status ord \<in> set TERMINAL_ORDER_STATUSES"
  shows "\<exists>ord'. get_by ord_id (ex_order_id e) (et_orders db') = Some ord'
    \<and> ord_status ord' =
        (if dadd (orow_filled_quantity ord) (ex_quantity e) < ord_requested_quantity ord then PARTIALLY_FILLED
         else if dadd (orow_filled_quantity ord) (ex_quantity e) = ord_requested_quantity ord then FILLED
         else UNKNOWN)
    \<and> ord_status ord' \<notin> set (ALLOWED (ord_status ord))"
  using assms(1)
proof (cases rule: apply_fill_cases)
  case (applied anchors ord' db1 db4 db5)
  have "ord' = ord" using fill_guards_Inr(2) [OF applied(2)] assms(2) by simp
  then have "get_by ord_id (ex_order_id e) (et_orders db') = Some (filled_order ord (ex_quantity e))"
    using assms(2) get_by_Some [OF assms(2)] by (simp add: applied(6) filled_order_def Let_def)
  then show ?thesis using ALLOWED_terminal [OF assms(3)] by (auto simp: filled_order_def fill_status_def Let_def)
qed simp

section \<open>Concrete runs\<close>

lemma dec_grid_int: "\<bar>n\<bar> < 10 ^ 28 \<Longrightarrow> dec_grid 0 (of_int n)"
  by (rule dec_gridI) auto

lemmas sample_grid = dec_grid_int [of 100, simplified] dec_grid_int [of 90, simplified] dec_grid_int [of 10, simplified]

lemma fill_tables_budget: "budget_inv 0 fill_tables"
proof -
  have sc: "in_scope (fill_anchor ''GLOBAL'' ''GLOBAL'') fill_reservation" "in_scope (fill_anchor ''ACCOUNT'' (uuid_str 4)) fill_reservation"
    by (simp_all add: in_scope_def fill_anchor_def fill_reservation_def is_global_anchor_def is_account_anchor_def)
  show ?thesis
    by (simp add: budget_inv_def keys_inv_def conserved_def scope_inv_def fill_tables_def empty_tables_def sc reserved_total_def)
       (simp add: anchor_key_def fill_anchor_def fill_reservation_def anchor_reserve_ok_def reservation_grid_def sample_grid
         sample_order_row_def)
qed

lemma fill_sample_risk: "fill_risk fill_event 0 = 90"
  using rnd_int [of 90] by (simp add: fill_risk_def fill_event_def risk_increase_quantity_def dmul_def)

lemma fill_sample_on_grid: "fill_on_grid 0 fill_tables 33 fill_event"
proof -
  have "po_quantity (fill_position 33 fill_tables fill_event) = 0"
    by (simp add: fill_position_def locked_position_def fill_tables_def empty_tables_def get_by_def next_where_def Let_def)
  then show ?thesis
    by (simp add: fill_on_grid_def fill_sample_risk sample_grid Let_def)
       (simp add: fill_tables_def fill_reservation_def fill_event_def)
qed

theorem execution_keeps_risk_budget_witness:
  "\<exists>r. rt_reservations (run_steps (execution_step sample_digests 0) fill_tables [ApplyFill fill_ids fill_event]) = [r]
     \<and> rr_consumed_risk_amount r = 90
     \<and> rr_consumed_risk_amount r + rr_remaining_risk_amount r + rr_released_risk_amount r = 100"
proof -
  from fill_sample_Inr obtain db1 a where r: "apply_fill_once sample_digests 0 fill_ids fill_tables fill_event = Inr (db1, Some a)"
    by blast
  have run: "run_steps (execution_step sample_digests 0) fill_tables [ApplyFill fill_ids fill_event] = db1"
    using r by (simp add: fill_ids_def fresh_fill_ids_def fill_tables_def empty_tables_def)
  have res: "rt_reservations db1 = [reservation_after fill_reservation 90]"
    using r
  proof (cases rule: apply_fill_cases)
    case (applied anchors ord t1 t4 t5)
    have q: "po_quantity (fill_position (fli_position fill_ids) fill_tables fill_event) = 0"
      by (simp add: fill_position_def locked_position_def fill_tables_def empty_tables_def get_by_def next_where_def Let_def)
    have rt: "rt_reservations fill_tables = [fill_reservation]" by (simp add: fill_tables_def)
    have "ord = sample_order_row" using fill_guards_Inr(2) [OF applied(2)]
      by (simp add: get_by_def next_where_def fill_tables_def split: if_splits)
    then have "find_reservation t5 (ord_risk_decision_id ord) = Some fill_reservation"
      by (simp add: find_reservation_def applied(17) get_by_def next_where_def fill_tables_def fill_reservation_def sample_order_row_def)
    from consume_reservation_tables(1) [OF this] show ?thesis
      by (simp add: applied(17,20) q fill_sample_risk put_by_def rt)
  qed simp
  have "rr_consumed_risk_amount (reservation_after fill_reservation 90) = 90"
    using reservation_after_exact(3) [of 0 fill_reservation 90] drawn_risk_exact(4) [of 0 fill_reservation 90]
    by (simp add: fill_reservation_def reservation_grid_def sample_grid reclaimed_risk_def)
  moreover have "fills_on_grid 0 sample_digests 0 fill_tables [ApplyFill fill_ids fill_event]"
    using fill_sample_on_grid by (simp add: fill_ids_def)
  ultimately show ?thesis
    using execution_keeps_risk_budget [OF fill_tables_budget, of sample_digests 0 "[ApplyFill fill_ids fill_event]"]
    unfolding run Let_def by (simp add: res) (simp add: fill_reservation_def)
qed

theorem store_consumes_as_model_witness:
  "\<exists>r'. find_reservation (consume_reservation fill_tables (fill_anchor ''GLOBAL'' ''GLOBAL'', fill_anchor ''ACCOUNT'' (uuid_str 4))
       sample_order_row fill_event 0) (v7 2) = Some r'
     \<and> apply_attributable_fill (consumption_of fill_reservation) (PyDecimal 90) = Inr (consumption_of r')"
proof -
  have "find_reservation fill_tables (v7 2) = Some fill_reservation"
    by (simp add: find_reservation_def get_by_def next_where_def fill_tables_def fill_reservation_def)
  moreover have "reservation_grid 0 fill_reservation" using fill_tables_budget by (simp add: budget_inv_def fill_tables_def)
  ultimately show ?thesis
    using store_consumes_as_model [of fill_tables sample_order_row fill_reservation 0 fill_event 0]
    by (simp add: fill_sample_risk sample_grid sample_order_row_def)
qed

theorem late_fill_reopens_order_witness:
  "\<exists>db1 a ord'. apply_fill_once sample_digests 0 fill_ids
       (fill_tables\<lparr>et_orders := [sample_order_row\<lparr>ord_status := CANCELED, ord_requested_quantity := 2\<rparr>]\<rparr>) fill_event
       = Inr (db1, Some a)
     \<and> get_by ord_id (v7 11) (et_orders db1) = Some ord' \<and> ord_status ord' = PARTIALLY_FILLED"
proof -
  have d: "dadd 0 1 = 1" using rnd_int [of 1] by (simp add: dadd_def)
  from fill_sample_applied [where s = CANCELED and n = 2] obtain db1 a where r: "apply_fill_once sample_digests 0 fill_ids
       (fill_tables\<lparr>et_orders := [sample_order_row\<lparr>ord_status := CANCELED, ord_requested_quantity := 2\<rparr>]\<rparr>) fill_event
       = Inr (db1, Some a)" by blast
  show ?thesis
    using r late_fill_reopens_order [OF r, of "sample_order_row\<lparr>ord_status := CANCELED, ord_requested_quantity := 2\<rparr>"]
    by (auto simp: get_by_def next_where_def sample_order_row_def fill_event_def TERMINAL_ORDER_STATUSES_def d)
qed

text \<open>A canceled order whose stream is read to the end.\<close>

definition release_watermark :: WatermarkRow where
  "release_watermark =
     \<lparr>wmr_id = 31, wmr_broker_id = 9, wmr_account_id = 4, wmr_source_partition = ''p'',
      wmr_contiguous_through_sequence = None, wmr_has_gap = False, wmr_covered_from_at = Some 0,
      wmr_covered_through_at = Some 20, wmr_pagination_complete = True, wmr_query_fingerprint = [],
      wmr_evidence_hash = [], wmr_expires_at = 100, wmr_row_version = 1\<rparr>"

definition release_tables :: ExecTables where
  "release_tables = fill_tables\<lparr>rt_decisions := [sample_decision\<lparr>rd_id := v7 2\<rparr>],
     et_links := [sample_link_row\<lparr>lk_status := ''CANCELED''\<rparr>], et_watermarks := [release_watermark],
     et_scopes := [\<lparr>sc_watermark_id = 31, sc_scope_kind = ''BROKER_ORDER_ID'', sc_scope_value = ''B-1''\<rparr>,
       \<lparr>sc_watermark_id = 31, sc_scope_kind = ''BROKER_CLIENT_ORDER_ID'', sc_scope_value = ''c''\<rparr>],
     et_order_events := [\<lparr>ode_order_id = v7 11, ode_aggregate_version = 1, ode_status = CANCELED,
       ode_raw_status = ''CANCELED'', ode_occurred_at = 10, oev_id = v7 14\<rparr>]\<rparr>"

lemma release_tables_inv: "watermark_inv release_tables"
  by (simp add: watermark_inv_def release_tables_def release_watermark_def fill_tables_def empty_tables_def stream_inv_def
      contiguous_def stored_numbers_def stream_sequences_def List.map_filter_def)

lemma release_sample:
  "\<exists>db' out. release_if_complete sample_digests (v7 14) release_tables (v7 11) 9 ''p'' 50 = Inr (db', out) \<and> tra_released out"
proof -
  let ?l = "sample_link_row\<lparr>lk_status := ''CANCELED''\<rparr>" and ?t = "release_tables"
  let ?b = "\<lparr>bl_id = 21, bl_broker_order_id = ''B-1'', bl_link_sequence = 1, bl_exposure_bearing = True, bl_status = CANCELED\<rparr>"
  let ?g = "fill_anchor ''GLOBAL'' ''GLOBAL''" and ?a = "fill_anchor ''ACCOUNT'' (uuid_str 4)"
  have reads: "get_by ord_id (v7 11) (et_orders ?t) = Some sample_order_row"
    "get_by rd_id (v7 2) (rt_decisions ?t) = Some (sample_decision\<lparr>rd_id := v7 2\<rparr>)"
    "lock_global_and_account (rt_anchors ?t) 4 ''USD'' = Some (?g, ?a)"
    "order_links ?t (v7 11) = [?l]" "find_reservation ?t (v7 2) = Some fill_reservation" "terminal_time ?t (v7 11) = Some 10"
    by (simp_all add: release_tables_def fill_tables_def get_by_def next_where_def sample_order_row_def terminal_time_def
        terminal_events_def order_links_def sample_link_row_def find_reservation_def fill_reservation_def
        lock_global_and_account_def anchor_key_def fill_anchor_def)
  have dl: "domain_links [?l] = Inr [?b]"
    by (simp add: domain_link_def parse_status_def next_where_def all_order_statuses_def sample_link_row_def)
  have dec: "trd_release (decide_terminal_release [?b] (terminal_completeness_proof ?t 9 4 ''p'') [''c''] 0 10 50)"
    by (simp add: decide_terminal_release_def all_exposure_links_terminal_def is_terminal_def TERMINAL_ORDER_STATUSES_def Let_def
        is_terminal_window_complete_def terminal_completeness_proof_def find_stream_def get_by_def next_where_def stream_key_def
        release_tables_def release_watermark_def scope_values_def)
  have env: "envelope_ok (release_envelope (v7 14) sample_order_row 100 50)"
    by (simp add: envelope_ok_def release_envelope_def sample_order_row_def)
  have "\<exists>db'. write_release sample_digests (v7 14) (lock_global_dispatch_guard ?t) (?g, ?a) sample_order_row fill_reservation 50 = Inr db'"
    using env by (simp add: write_release_def released_anchor_def fill_anchor_def fill_reservation_def Let_def put_reservation_def
        enqueue_empty release_tables_def fill_tables_def empty_tables_def)
  then obtain db' where w: "write_release sample_digests (v7 14) (lock_global_dispatch_guard ?t) (?g, ?a) sample_order_row
      fill_reservation 50 = Inr db'" by blast
  have fields: "ord_risk_decision_id sample_order_row = v7 2" "ord_account_id sample_order_row = 4" "ord_created_at sample_order_row = 0"
    "ord_broker_client_order_id sample_order_row = ''c''" "rd_currency sample_decision = ''USD''" "lk_broker_id ?l = 9"
    "rr_remaining_risk_amount fill_reservation = 100"
    by (simp_all add: sample_order_row_def sample_decision_def sample_link_row_def fill_reservation_def)
  show ?thesis
    using w dec dl by (simp add: release_if_complete_def reads fields release_reads_guard Let_def)
qed

theorem release_needs_complete_evidence_witness:
  "\<exists>db' out w. release_if_complete sample_digests (v7 14) release_tables (v7 11) 9 ''p'' 50 = Inr (db', out) \<and> tra_released out
     \<and> find_stream release_tables 9 4 ''p'' = Some w
     \<and> complete_evidence release_tables w sample_order_row (order_links release_tables (v7 11)) 10 50"
proof -
  from release_sample obtain db' out where
    r: "release_if_complete sample_digests (v7 14) release_tables (v7 11) 9 ''p'' 50 = Inr (db', out)" "tra_released out" by blast
  have "get_by ord_id (v7 11) (et_orders release_tables) = Some sample_order_row"
    "terminal_time release_tables (v7 11) = Some 10"
    by (simp_all add: release_tables_def fill_tables_def get_by_def next_where_def sample_order_row_def terminal_time_def
        terminal_events_def)
  moreover have "ord_account_id sample_order_row = 4" by (simp add: sample_order_row_def)
  ultimately show ?thesis using r release_needs_complete_evidence [OF release_tables_inv r] by auto
qed

end
