(* ===== verification/Reconciliation.thy ===== *)
theory Reconciliation
  imports ExecutionBudget
begin

text \<open>
  \<^verbatim>\<open>execution/reconciliation\<close> and \<^verbatim>\<open>persistence/mysql/repositories/reconciliation.py\<close>: the comparison
  of a broker's snapshot with the internal orders and positions, the stored run with its differences
  and incidents, and the gate that lets consumers start. A Python dict is the list of its items in
  insertion order. Shown: the comparison finds no difference exactly when both sides agree, and a
  difference, once stored, keeps the account stopped and every command undispatched.
\<close>

section \<open>Dictionaries\<close>

definition dict_put :: "'k \<Rightarrow> 'v \<Rightarrow> ('k \<times> 'v) list \<Rightarrow> ('k \<times> 'v) list" where
  "dict_put k v d =
     (if k \<in> fst ` set d then map (\<lambda>(k', v'). if k' = k then (k, v) else (k', v')) d else d @ [(k, v)])"

definition dict_by :: "('v \<Rightarrow> 'k) \<Rightarrow> 'v list \<Rightarrow> ('k \<times> 'v) list" where
  "dict_by key xs = foldl (\<lambda>d x. dict_put (key x) x d) [] xs"

section \<open>Models\<close>

datatype ReconciliationDiffKind =
    SNAPSHOT_INCOMPLETE | SNAPSHOT_STALE | INTERNAL_OPEN_BROKER_MISSING | BROKER_OPEN_INTERNAL_MISSING
  | INTERNAL_POSITION_BROKER_MISSING | BROKER_POSITION_INTERNAL_MISSING | POSITION_QUANTITY_MISMATCH
  | OPEN_ORDER_CLIENT_ID_MISMATCH

fun diff_kind_value :: "ReconciliationDiffKind \<Rightarrow> string" where
  "diff_kind_value SNAPSHOT_INCOMPLETE = ''SNAPSHOT_INCOMPLETE''"
| "diff_kind_value SNAPSHOT_STALE = ''SNAPSHOT_STALE''"
| "diff_kind_value INTERNAL_OPEN_BROKER_MISSING = ''INTERNAL_OPEN_BROKER_MISSING''"
| "diff_kind_value BROKER_OPEN_INTERNAL_MISSING = ''BROKER_OPEN_INTERNAL_MISSING''"
| "diff_kind_value INTERNAL_POSITION_BROKER_MISSING = ''INTERNAL_POSITION_BROKER_MISSING''"
| "diff_kind_value BROKER_POSITION_INTERNAL_MISSING = ''BROKER_POSITION_INTERNAL_MISSING''"
| "diff_kind_value POSITION_QUANTITY_MISMATCH = ''POSITION_QUANTITY_MISMATCH''"
| "diff_kind_value OPEN_ORDER_CLIENT_ID_MISMATCH = ''OPEN_ORDER_CLIENT_ID_MISMATCH''"

record InternalOpenOrder =
  ioo_order_id :: uuid
  ioo_broker_order_id :: string
  ioo_broker_client_order_id :: string

record BrokerOpenOrder =
  boo_broker_order_id :: string
  boo_broker_client_order_id :: "string option"
  boo_canonical_terms_hash :: bytes

definition BrokerOpenOrder_checks :: "BrokerOpenOrder \<Rightarrow> checks" where
  "BrokerOpenOrder_checks o' =
     [(boo_broker_order_id o' = [], ValueError ''broker_order_id is required''),
      (boo_broker_client_order_id o' = Some [], ValueError ''broker_client_order_id is absent or a value''),
      (length (boo_canonical_terms_hash o') \<noteq> 32, ValueError ''canonical_terms_hash must be SHA-256 bytes'')]"

record HeldPosition =
  hp_instrument_id :: uuid
  hp_quantity :: decimal

definition HeldPosition_checks :: "HeldPosition \<Rightarrow> checks" where
  "HeldPosition_checks h = [(hp_quantity h = 0, ValueError ''a held position cannot be zero'')]"

record BrokerSnapshot =
  bs_broker_id :: uuid
  bs_account_id :: uuid
  bs_complete :: bool
  bs_expires_at :: instant
  bs_open_orders :: "BrokerOpenOrder list"
  bs_positions :: "HeldPosition list"

definition BrokerSnapshot_checks :: "BrokerSnapshot \<Rightarrow> checks" where
  "BrokerSnapshot_checks s =
     [(\<not> distinct (map hp_instrument_id (bs_positions s)), ValueError ''a snapshot reports each instrument once'')]"

record ReconciliationDiff =
  rdf_kind :: ReconciliationDiffKind
  rdf_blocking :: bool
  rdf_internal_order_id :: "uuid option"
  rdf_broker_order_id :: "string option"
  rdf_instrument_id :: "uuid option"

record ReconciliationRun =
  rn_id :: uuid
  rn_broker_id :: uuid
  rn_account_id :: uuid
  rn_snapshot_hash :: bytes
  rn_complete :: bool
  rn_succeeded :: bool
  rn_diffs :: "ReconciliationDiff list"
  rn_started_at :: instant
  rn_completed_at :: instant

definition ReconciliationRun_checks :: "ReconciliationRun \<Rightarrow> checks" where
  "ReconciliationRun_checks r =
     [(length (rn_snapshot_hash r) \<noteq> 32, ValueError ''snapshot_hash must be SHA-256 bytes''),
      (rn_completed_at r < rn_started_at r, ValueError ''reconciliation cannot complete before it starts'')]"

section \<open>The comparison\<close>

definition blocking_diff :: "ReconciliationDiffKind \<Rightarrow> uuid option \<Rightarrow> string option \<Rightarrow> uuid option \<Rightarrow> ReconciliationDiff" where
  "blocking_diff kind internal broker instrument =
     \<lparr>rdf_kind = kind, rdf_blocking = True, rdf_internal_order_id = internal, rdf_broker_order_id = broker,
      rdf_instrument_id = instrument\<rparr>"

definition position_diff :: "(uuid \<times> HeldPosition) list \<Rightarrow> (uuid \<times> HeldPosition) list \<Rightarrow> uuid \<Rightarrow> ReconciliationDiff list" where
  "position_diff broker internal instrument =
     (case (map_of broker instrument, map_of internal instrument) of
        (None, _) \<Rightarrow> [blocking_diff INTERNAL_POSITION_BROKER_MISSING None None (Some instrument)]
      | (_, None) \<Rightarrow> [blocking_diff BROKER_POSITION_INTERNAL_MISSING None None (Some instrument)]
      | (Some theirs, Some ours) \<Rightarrow>
          if hp_quantity theirs \<noteq> hp_quantity ours
          then [blocking_diff POSITION_QUANTITY_MISMATCH None None (Some instrument)] else [])"

definition position_diffs :: "HeldPosition list \<Rightarrow> HeldPosition list \<Rightarrow> ReconciliationDiff list" where
  "position_diffs broker internal =
     (let b = dict_by hp_instrument_id broker; i = dict_by hp_instrument_id internal
      in concat (map (position_diff b i) (sort_key uuid_str (remdups (map fst b @ map fst i)))))"

definition internal_order_diffs :: "(string \<times> BrokerOpenOrder) list \<Rightarrow> string \<times> InternalOpenOrder \<Rightarrow> ReconciliationDiff list" where
  "internal_order_diffs broker_by_identity item =
     (let internal = snd item
      in case map_of broker_by_identity (fst item) of
           None \<Rightarrow> [blocking_diff INTERNAL_OPEN_BROKER_MISSING (Some (ioo_order_id internal))
                     (Some (ioo_broker_order_id internal)) None]
         | Some broker \<Rightarrow>
             if boo_broker_client_order_id broker \<noteq> None
                \<and> boo_broker_client_order_id broker \<noteq> Some (ioo_broker_client_order_id internal)
             then [blocking_diff OPEN_ORDER_CLIENT_ID_MISMATCH (Some (ioo_order_id internal))
                     (Some (ioo_broker_order_id internal)) None]
             else [])"

definition compare ::
  "instant \<Rightarrow> BrokerSnapshot \<Rightarrow> InternalOpenOrder list \<Rightarrow> HeldPosition list \<Rightarrow> ReconciliationDiff list" where
  "compare clock snapshot internal_open_orders internal_positions =
     (let broker_by_identity = dict_by boo_broker_order_id (bs_open_orders snapshot);
          internal_by_identity = dict_by ioo_broker_order_id internal_open_orders
      in (if \<not> bs_complete snapshot then [blocking_diff SNAPSHOT_INCOMPLETE None None None] else [])
         @ (if bs_expires_at snapshot \<le> clock then [blocking_diff SNAPSHOT_STALE None None None] else [])
         @ concat (map (internal_order_diffs broker_by_identity) internal_by_identity)
         @ concat (map (\<lambda>(identity, broker).
             if identity \<notin> fst ` set internal_by_identity
             then [blocking_diff BROKER_OPEN_INTERNAL_MISSING None (Some (boo_broker_order_id broker)) None] else [])
             broker_by_identity)
         @ position_diffs (bs_positions snapshot) internal_positions)"

text \<open>The digest of a run is a parameter applied to what the source serialises.\<close>

record RunPayload =
  rpl_snapshot :: BrokerSnapshot
  rpl_internal_open_orders :: "InternalOpenOrder list"
  rpl_internal_positions :: "HeldPosition list"
  rpl_diffs :: "ReconciliationDiff list"

definition or_empty :: "string option \<Rightarrow> string" where
  "or_empty x = (case x of None \<Rightarrow> [] | Some s \<Rightarrow> s)"

definition run_payload ::
  "BrokerSnapshot \<Rightarrow> InternalOpenOrder list \<Rightarrow> HeldPosition list \<Rightarrow> ReconciliationDiff list \<Rightarrow> RunPayload" where
  "run_payload snapshot orders positions differences =
     \<lparr>rpl_snapshot = snapshot\<lparr>bs_open_orders := sort_key boo_broker_order_id (bs_open_orders snapshot),
        bs_positions := sort_key (\<lambda>h. uuid_str (hp_instrument_id h)) (bs_positions snapshot)\<rparr>,
      rpl_internal_open_orders =
        sort_key (\<lambda>x. (ioo_broker_order_id x, ioo_broker_client_order_id x, uuid_str (ioo_order_id x))) orders,
      rpl_internal_positions = sort_key (\<lambda>h. uuid_str (hp_instrument_id h)) positions,
      rpl_diffs = sort_key (\<lambda>d. (diff_kind_value (rdf_kind d), or_empty (map_option uuid_str (rdf_internal_order_id d)),
         or_empty (rdf_broker_order_id d), or_empty (map_option uuid_str (rdf_instrument_id d)))) differences\<rparr>"

section \<open>The stored run\<close>

definition run_status :: "bool \<Rightarrow> string" where
  "run_status succeeded = (if succeeded then ''SUCCEEDED'' else ''FAILED'')"

definition run_row :: "ReconciliationRun \<Rightarrow> RunRow" where
  "run_row run =
     \<lparr>rnr_id = rn_id run, rnr_broker_id = rn_broker_id run, rnr_account_id = rn_account_id run,
      rnr_started_at = rn_started_at run, rnr_completed_at = Some (rn_completed_at run),
      rnr_status = run_status (rn_succeeded run), rnr_snapshot_hash = rn_snapshot_hash run,
      rnr_complete = rn_complete run\<rparr>"

definition run_key :: "RunRow \<Rightarrow> uuid \<times> uuid \<times> bytes" where
  "run_key r = (rnr_broker_id r, rnr_account_id r, rnr_snapshot_hash r)"

definition run_row_ok :: "RunRow \<Rightarrow> bool" where
  "run_row_ok r \<longleftrightarrow> (rnr_status r = ''SUCCEEDED'' \<and> rnr_complete r) \<or> (rnr_status r = ''FAILED'' \<and> \<not> rnr_complete r)"

definition scope_type :: "ReconciliationDiff \<Rightarrow> string" where
  "scope_type d =
     (if rdf_internal_order_id d \<noteq> None then ''ORDER''
      else if rdf_instrument_id d \<noteq> None then ''INSTRUMENT'' else ''RECONCILIATION_RUN'')"

definition diff_key :: "ReconciliationDiff \<Rightarrow> string" where
  "diff_key d =
     diff_kind_value (rdf_kind d) @ '':'' @ or_empty (map_option uuid_str (rdf_internal_order_id d)) @ '':''
     @ or_empty (rdf_broker_order_id d) @ '':'' @ or_empty (map_option uuid_str (rdf_instrument_id d))"

definition diff_row :: "(ReconciliationDiff \<Rightarrow> bytes) \<Rightarrow> ReconciliationRun \<Rightarrow> uuid \<Rightarrow> uuid \<Rightarrow> ReconciliationDiff \<Rightarrow> DiffRow" where
  "diff_row sha_diff run run_id fresh d =
     \<lparr>dfr_id = fresh, dfr_run_id = run_id, dfr_internal_order_id = rdf_internal_order_id d,
      dfr_instrument_id = rdf_instrument_id d, dfr_broker_order_id = rdf_broker_order_id d, dfr_diff_key = diff_key d,
      dfr_severity = (if rdf_blocking d then ''BLOCKING'' else ''INFO''), dfr_status = ''OPEN'',
      dfr_expected_hash = rn_snapshot_hash run, dfr_observed_hash = sha_diff d,
      dfr_created_at = rn_completed_at run, dfr_resolved_at = None\<rparr>"

definition diff_incident :: "ReconciliationRun \<Rightarrow> uuid \<Rightarrow> ReconciliationDiff \<Rightarrow> IncidentRow" where
  "diff_incident run run_id d =
     \<lparr>inc_severity = ''BLOCKING'', inc_status = ''OPEN'', inc_reason_code = ''RECONCILIATION_'' @ diff_kind_value (rdf_kind d),
      inc_scope_type = Some (scope_type d),
      inc_scope_key = Some (uuid_str (case rdf_internal_order_id d of Some u \<Rightarrow> u
        | None \<Rightarrow> (case rdf_instrument_id d of Some u \<Rightarrow> u | None \<Rightarrow> run_id))),
      inc_created_at = rn_completed_at run\<rparr>"

text \<open>\<^verbatim>\<open>persist_run\<close>; \<open>fresh\<close> numbers the identifiers drawn for the differences.\<close>

definition persist_run ::
  "(ReconciliationDiff \<Rightarrow> bytes) \<Rightarrow> (nat \<Rightarrow> uuid) \<Rightarrow> ExecTables \<Rightarrow> ReconciliationRun \<Rightarrow> (ExecTables \<times> ReconciliationRun) result" where
  "persist_run sha_diff fresh db run =
     (let row = run_row run;
          inserted = (\<not> list_ex (\<lambda>r. rnr_id r = rnr_id row \<or> run_key r = run_key row) (et_runs db) \<and> run_row_ok row);
          db1 = (if inserted then db\<lparr>et_runs := et_runs db @ [row]\<rparr> else db)
      in case get_by run_key (run_key row) (et_runs db1) of
           None \<Rightarrow> Inl (RuntimeError ''inserted reconciliation run cannot be read'')
         | Some persisted \<Rightarrow>
             if rnr_started_at persisted \<noteq> rnr_started_at row \<or> rnr_completed_at persisted \<noteq> rnr_completed_at row
                \<or> rnr_status persisted \<noteq> rnr_status row \<or> rnr_complete persisted \<noteq> rnr_complete row
             then Inl (ValueError ''reconciliation run evidence mismatch'')
             else if rn_diffs run = [] \<and> list_ex (\<lambda>d. dfr_run_id d = rnr_id persisted) (et_diffs db1)
             then Inl (ValueError ''reconciliation diff set mismatch'')
             else if \<not> inserted then Inr (db1, run\<lparr>rn_id := rnr_id persisted\<rparr>)
             else if \<not> distinct (map diff_key (rn_diffs run))
             then Inl (RuntimeError ''uq_exec_reconciliation_diff_identity'')
             else Inr (db1\<lparr>et_diffs := et_diffs db1 @ map (\<lambda>(i, d). diff_row sha_diff run (rnr_id persisted) (fresh i) d)
                              (enumerate 0 (rn_diffs run)),
                           et_incidents := et_incidents db1 @ map (diff_incident run (rnr_id persisted))
                              (filter rdf_blocking (rn_diffs run))\<rparr>,
                       run\<lparr>rn_id := rnr_id persisted\<rparr>))"

definition reconciliation_run ::
  "(RunPayload \<Rightarrow> bytes) \<Rightarrow> uuid \<Rightarrow> instant \<Rightarrow> BrokerSnapshot \<Rightarrow> InternalOpenOrder list \<Rightarrow> HeldPosition list
    \<Rightarrow> ReconciliationRun" where
  "reconciliation_run sha_run run_id clock snapshot orders positions =
     (let differences = compare clock snapshot orders positions
      in \<lparr>rn_id = run_id, rn_broker_id = bs_broker_id snapshot, rn_account_id = bs_account_id snapshot,
          rn_snapshot_hash = sha_run (run_payload snapshot orders positions differences),
          rn_complete = bs_complete snapshot, rn_succeeded = bs_complete snapshot, rn_diffs = differences,
          rn_started_at = clock, rn_completed_at = clock\<rparr>)"

text \<open>\<^verbatim>\<open>ReconciliationService.run\<close> on the snapshot the reader returned.\<close>

definition reconcile ::
  "(RunPayload \<Rightarrow> bytes) \<Rightarrow> (ReconciliationDiff \<Rightarrow> bytes) \<Rightarrow> (nat \<Rightarrow> uuid) \<Rightarrow> uuid \<Rightarrow> ExecTables \<Rightarrow> instant \<Rightarrow> uuid \<Rightarrow> BrokerSnapshot
    \<Rightarrow> InternalOpenOrder list \<Rightarrow> HeldPosition list \<Rightarrow> (ExecTables \<times> ReconciliationRun) result" where
  "reconcile sha_run sha_diff fresh run_id db clock account_id snapshot orders positions =
     (if bs_account_id snapshot \<noteq> account_id
      then Inl (ValueError ''broker snapshot account does not match requested account'')
      else let run = reconciliation_run sha_run run_id clock snapshot orders positions
           in and_then (validated (ReconciliationRun_checks run) run) (persist_run sha_diff fresh db))"

section \<open>What the system believes, and the gate\<close>

definition internal_positions :: "ExecTables \<Rightarrow> uuid \<Rightarrow> HeldPosition list" where
  "internal_positions db account_id =
     map (\<lambda>p. \<lparr>hp_instrument_id = po_instrument_id p, hp_quantity = po_quantity p\<rparr>)
       (sort_key po_instrument_id (filter (\<lambda>p. po_account_id p = account_id \<and> po_quantity p \<noteq> 0) (et_positions db)))"

definition internal_open_orders :: "ExecTables \<Rightarrow> uuid \<Rightarrow> InternalOpenOrder list" where
  "internal_open_orders db account_id =
     map (\<lambda>(ord, l). \<lparr>ioo_order_id = ord_id ord, ioo_broker_order_id = lk_broker_order_id l,
                      ioo_broker_client_order_id = ord_broker_client_order_id ord\<rparr>)
       (sort_key (\<lambda>x. lk_broker_order_id (snd x))
         [(ord, l). ord \<leftarrow> et_orders db, ord_account_id ord = account_id \<and> ord_status ord \<in> set WORKING_ORDER_STATUSES,
                    l \<leftarrow> et_links db, lk_order_id l = ord_id ord])"

record ReconciliationRestartState =
  rs_latest_run_succeeded :: bool
  rs_latest_run_complete :: bool
  rs_blocking_diff_count :: int
  rs_unknown_order_count :: int

definition account_runs :: "ExecTables \<Rightarrow> uuid \<Rightarrow> RunRow list" where
  "account_runs db account_id =
     filter (\<lambda>r. rnr_account_id r = account_id
         \<and> list_ex (\<lambda>a. acr_id a = account_id \<and> acr_broker_id a = rnr_broker_id r) (et_accounts db)) (et_runs db)"

definition latest_run :: "RunRow list \<Rightarrow> RunRow option" where
  "latest_run runs =
     (case rev (sort_key (\<lambda>r. (case rnr_completed_at r of None \<Rightarrow> (0::int, 0) | Some t \<Rightarrow> (1, t), rnr_id r)) runs) of
        [] \<Rightarrow> None | r # _ \<Rightarrow> Some r)"

definition restart_state :: "ExecTables \<Rightarrow> uuid \<Rightarrow> ReconciliationRestartState" where
  "restart_state db account_id =
     (let latest = latest_run (account_runs db account_id)
      in \<lparr>rs_latest_run_succeeded =
            (case latest of None \<Rightarrow> False | Some r \<Rightarrow> rnr_status r = ''SUCCEEDED'' \<and> rnr_completed_at r \<noteq> None),
          rs_latest_run_complete = (case latest of None \<Rightarrow> False | Some r \<Rightarrow> rnr_complete r),
          rs_blocking_diff_count = int (length (filter (\<lambda>d. dfr_run_id d \<in> rnr_id ` set (account_runs db account_id)
             \<and> dfr_severity d = ''BLOCKING'' \<and> dfr_status d = ''OPEN'') (et_diffs db))),
          rs_unknown_order_count = int (length (filter (\<lambda>ord. ord_account_id ord = account_id \<and> ord_status ord = UNKNOWN)
             (et_orders db)))\<rparr>)"

definition enabled_restart_states :: "ExecTables \<Rightarrow> ReconciliationRestartState list" where
  "enabled_restart_states db =
     map (\<lambda>a. restart_state db (acr_id a)) (sort_key acr_id (filter acr_enabled (et_accounts db)))"

definition may_start_consumers :: "ReconciliationRestartState \<Rightarrow> bool result" where
  "may_start_consumers s =
     (if rs_blocking_diff_count s < 0 \<or> rs_unknown_order_count s < 0
      then Inl (ValueError ''reconciliation counts must be non-negative'')
      else Inr (rs_latest_run_succeeded s \<and> rs_latest_run_complete s \<and> rs_blocking_diff_count s = 0
                \<and> rs_unknown_order_count s = 0))"

fun all_may_start :: "ReconciliationRestartState list \<Rightarrow> bool result" where
  "all_may_start [] = Inr True"
| "all_may_start (s # ss) = and_then (may_start_consumers s) (\<lambda>ok. if ok then all_may_start ss else Inr False)"

definition may_start_all_consumers :: "ReconciliationRestartState list \<Rightarrow> bool result" where
  "may_start_all_consumers states = (if states = [] then Inr False else all_may_start states)"

section \<open>Lemmas\<close>

lemma map_of_dict_put: "map_of (dict_put k v d) = (map_of d)(k \<mapsto> v)"
proof (cases "k \<in> fst ` set d")
  case True
  have rep: "k \<in> fst ` set xs \<Longrightarrow> map_of (map (\<lambda>(k', v'). if k' = k then (k, v) else (k', v')) xs) j = ((map_of xs)(k \<mapsto> v)) j" for xs j
  proof (induction xs)
    case (Cons x xs)
    show ?case
    proof (cases "k \<in> fst ` set xs")
      case True
      with Cons show ?thesis by (cases x) auto
    next
      case False
      then have "map (\<lambda>(k', v'). if k' = k then (k, v) else (k', v')) xs = xs" by (intro map_idI) (force split: prod.splits)
      with False Cons.prems show ?thesis by (cases x) auto
    qed
  qed simp
  show ?thesis using rep [OF True] by (simp add: dict_put_def True fun_eq_iff)
next
  case False
  then show ?thesis by (auto simp: dict_put_def map_add_def dom_map_of_conv_image_fst [symmetric] split: option.splits)
qed

lemma dict_keys_put: "map fst (dict_put k v d) = (if k \<in> fst ` set d then map fst d else map fst d @ [k])"
  by (auto simp: dict_put_def)

lemma dict_by_snoc: "dict_by key (xs @ [x]) = dict_put (key x) x (dict_by key xs)"
  by (simp add: dict_by_def)

lemma map_of_dict_by: "map_of (dict_by key xs) k = get_by key k (rev xs)"
  by (induction xs rule: rev_induct) (auto simp: dict_by_snoc map_of_dict_put get_by_def next_where_def, simp add: dict_by_def)

lemma distinct_dict_by: "distinct (map fst (dict_by key xs))"
  by (induction xs rule: rev_induct) (auto simp: dict_by_snoc dict_keys_put, simp add: dict_by_def)

lemma dict_by_items: "(k, v) \<in> set (dict_by key xs) \<longleftrightarrow> get_by key k (rev xs) = Some v"
  using map_of_eq_Some_iff [OF distinct_dict_by, of key xs k v] by (simp add: map_of_dict_by)

lemma dict_by_keys: "k \<in> fst ` set (dict_by key xs) \<longleftrightarrow> get_by key k (rev xs) \<noteq> None"
  by (metis map_of_dict_by map_of_eq_None_iff)

section \<open>When both sides agree\<close>

text \<open>An order is on both sides under the same broker id, and where the broker echoes a client id it
  is ours; an instrument is held in the same quantity. Of entries under one key the last counts.\<close>

definition orders_agree :: "BrokerOpenOrder option \<Rightarrow> InternalOpenOrder option \<Rightarrow> bool" where
  "orders_agree theirs ours =
     (case (theirs, ours) of
        (None, None) \<Rightarrow> True
      | (Some b, Some i) \<Rightarrow> boo_broker_client_order_id b \<in> {None, Some (ioo_broker_client_order_id i)}
      | _ \<Rightarrow> False)"

definition sides_agree :: "BrokerSnapshot \<Rightarrow> InternalOpenOrder list \<Rightarrow> HeldPosition list \<Rightarrow> bool" where
  "sides_agree s orders positions \<longleftrightarrow>
     (\<forall>id. orders_agree (get_by boo_broker_order_id id (rev (bs_open_orders s))) (get_by ioo_broker_order_id id (rev orders)))
     \<and> (\<forall>instrument. map_option hp_quantity (get_by hp_instrument_id instrument (rev (bs_positions s)))
          = map_option hp_quantity (get_by hp_instrument_id instrument (rev positions)))"

lemma position_diffs_Nil:
  "position_diffs broker internal = [] \<longleftrightarrow>
     (\<forall>u. map_option hp_quantity (get_by hp_instrument_id u (rev broker)) = map_option hp_quantity (get_by hp_instrument_id u (rev internal)))"
proof -
  let ?b = "dict_by hp_instrument_id broker" and ?i = "dict_by hp_instrument_id internal"
  have one: "position_diff ?b ?i u = [] \<longleftrightarrow> (\<exists>x y. map_of ?b u = Some x \<and> map_of ?i u = Some y \<and> hp_quantity x = hp_quantity y)" for u
    by (auto simp: position_diff_def split: option.splits)
  have "position_diffs broker internal = [] \<longleftrightarrow> (\<forall>u \<in> fst ` set ?b \<union> fst ` set ?i. position_diff ?b ?i u = [])"
    by (auto simp: position_diffs_def Let_def)
  also have "\<dots> \<longleftrightarrow> (\<forall>u. map_option hp_quantity (map_of ?b u) = map_option hp_quantity (map_of ?i u))"
  proof -
    have k: "u \<in> fst ` set ?b \<longleftrightarrow> map_of ?b u \<noteq> None" "u \<in> fst ` set ?i \<longleftrightarrow> map_of ?i u \<noteq> None" for u
      by (simp_all only: map_of_eq_None_iff not_not)
    have "(u \<in> fst ` set ?b \<union> fst ` set ?i \<longrightarrow> position_diff ?b ?i u = [])
        \<longleftrightarrow> map_option hp_quantity (map_of ?b u) = map_option hp_quantity (map_of ?i u)" for u
      unfolding one Un_iff k by (cases "map_of ?b u"; cases "map_of ?i u") simp_all
    then show ?thesis by blast
  qed
  finally show ?thesis by (simp add: map_of_dict_by)
qed

lemma order_diffs_Nil:
  assumes b: "b = dict_by boo_broker_order_id theirs" and i: "i = dict_by ioo_broker_order_id ours"
  shows "concat (map (internal_order_diffs b) i) = []
      \<and> concat (map (\<lambda>(identity, broker). if identity \<notin> fst ` set i
             then [blocking_diff BROKER_OPEN_INTERNAL_MISSING None (Some (boo_broker_order_id broker)) None] else []) b) = []
    \<longleftrightarrow> (\<forall>id. orders_agree (get_by boo_broker_order_id id (rev theirs)) (get_by ioo_broker_order_id id (rev ours)))"
    (is "?A \<and> ?B \<longleftrightarrow> ?C")
proof -
  have one: "internal_order_diffs b (id, y) = [] \<longleftrightarrow> (\<exists>x. map_of b id = Some x
      \<and> boo_broker_client_order_id x \<in> {None, Some (ioo_broker_client_order_id y)})" for id y
    by (auto simp: internal_order_diffs_def Let_def split: option.splits)
  have items: "(\<forall>z \<in> set (dict_by key xs). P z) \<longleftrightarrow> (\<forall>k v. map_of (dict_by key xs) k = Some v \<longrightarrow> P (k, v))"
    for P and key :: "'v \<Rightarrow> 'k" and xs
    using dict_by_items [of _ _ key xs] by (auto simp: map_of_dict_by)
  have A: "?A \<longleftrightarrow> (\<forall>id y. map_of i id = Some y \<longrightarrow> (\<exists>x. map_of b id = Some x
      \<and> boo_broker_client_order_id x \<in> {None, Some (ioo_broker_client_order_id y)}))"
    using items [of ioo_broker_order_id ours "\<lambda>z. internal_order_diffs b z = []"] by (simp only: one i concat_eq_Nil_conv set_map ball_simps)
  have B: "?B \<longleftrightarrow> (\<forall>id x. map_of b id = Some x \<longrightarrow> map_of i id \<noteq> None)"
  proof -
    have "?B \<longleftrightarrow> (\<forall>z \<in> set b. fst z \<in> fst ` set i)"
      unfolding concat_eq_Nil_conv set_map ball_simps by (rule ball_cong [OF refl]) (simp add: split_beta)
    then show ?thesis using items [of boo_broker_order_id theirs "\<lambda>z. fst z \<in> fst ` set i"]
      by (simp add: b [symmetric] map_of_eq_None_iff)
  qed
  show ?thesis unfolding A B by (auto simp: b i map_of_dict_by orders_agree_def split: option.splits) fastforce+
qed

lemma compare_blocking: "d \<in> set (compare clock snapshot orders positions) \<Longrightarrow> rdf_blocking d"
  by (auto simp: compare_def Let_def blocking_diff_def internal_order_diffs_def position_diffs_def position_diff_def
      split: if_splits option.splits)

section \<open>What a stored difference does\<close>

lemma persist_run_new:
  assumes "persist_run sha fresh db run = Inr (db', run')" "rn_id run' = rn_id run" "rn_id run \<notin> rnr_id ` set (et_runs db)"
  shows "db' = db\<lparr>et_runs := et_runs db @ [run_row run],
      et_diffs := et_diffs db @ map (\<lambda>(i, d). diff_row sha run (rn_id run) (fresh i) d) (enumerate 0 (rn_diffs run)),
      et_incidents := et_incidents db @ map (diff_incident run (rn_id run)) (filter rdf_blocking (rn_diffs run))\<rparr>"
proof -
  let ?row = "run_row run"
  let ?ins = "\<not> list_ex (\<lambda>r. rnr_id r = rnr_id ?row \<or> run_key r = run_key ?row) (et_runs db) \<and> run_row_ok ?row"
  have rid: "rnr_id ?row = rn_id run" by (simp add: run_row_def)
  have ins: ?ins
  proof (rule ccontr)
    assume n: "\<not> ?ins"
    then have ni: "(\<not> list_ex (\<lambda>r. rnr_id r = rnr_id ?row \<or> run_key r = run_key ?row) (et_runs db) \<and> run_row_ok ?row) = False" by simp
    from assms(1) obtain p where p: "get_by run_key (run_key ?row) (et_runs db) = Some p" "run' = run\<lparr>rn_id := rnr_id p\<rparr>"
      unfolding persist_run_def Let_def ni by (auto split: option.splits if_splits)
    then have "rnr_id p = rn_id run" "p \<in> set (et_runs db)" using assms(2) get_by_Some [OF p(1)] by auto
    then show False using assms(3) by (metis imageI)
  qed
  then have "get_by run_key (run_key ?row) (et_runs db) = None" by (auto simp: get_by_None list_ex_iff)
  then have g: "get_by run_key (run_key ?row) (et_runs db @ [?row]) = Some ?row" by simp
  show ?thesis using assms(1) ins g unfolding persist_run_def Let_def by (auto simp: rid split: if_splits)
qed

lemma reconcile_new:
  assumes "reconcile sha_run sha_diff fresh run_id db clock account_id snapshot orders positions = Inr (db', run)"
    and "rn_id run = run_id" "run_id \<notin> rnr_id ` set (et_runs db)"
  obtains r where "rn_id r = run_id" "rn_account_id r = account_id" "rn_broker_id r = bs_broker_id snapshot"
    "rn_diffs r = compare clock snapshot orders positions"
    "db' = db\<lparr>et_runs := et_runs db @ [run_row r],
      et_diffs := et_diffs db @ map (\<lambda>(i, d). diff_row sha_diff r run_id (fresh i) d) (enumerate 0 (rn_diffs r)),
      et_incidents := et_incidents db @ map (diff_incident r run_id) (filter rdf_blocking (rn_diffs r))\<rparr>"
proof -
  let ?r = "reconciliation_run sha_run run_id clock snapshot orders positions"
  from assms(1) have p: "persist_run sha_diff fresh db ?r = Inr (db', run)" "bs_account_id snapshot = account_id"
    by (auto simp: reconcile_def Let_def and_then_eq_Inr_iff validated_Inr_iff split: if_splits)
  then have r: "rn_id ?r = run_id" "rn_account_id ?r = account_id" "rn_broker_id ?r = bs_broker_id snapshot"
    "rn_diffs ?r = compare clock snapshot orders positions" "persist_run sha_diff fresh db ?r = Inr (db', run)"
    by (simp_all add: reconciliation_run_def Let_def)
  show thesis using that [OF r(1-4)] persist_run_new [OF r(5)] assms(2,3) r(1) by simp
qed

lemma blocked_claim:
  assumes blocked: "0 < blocking_reconciliations db"
    and authorities: "list_all (\<lambda>r. cmd_authority_class r \<in> set (allowed_authorities (cmd_command_type r))) (et_commands db)"
  shows "snd (authorize_and_record_attempt facts db u t) = None"
proof (rule ccontr)
  assume "snd (authorize_and_record_attempt facts db u t) \<noteq> None"
  then obtain db1 c where "authorize_and_record_attempt facts db u t = (db1, Some c)" by (metis not_None_eq prod.collapse)
  then obtain row where row: "find_command db u = Some row" and m: "may_submit facts db u t" by (rule claim_Some)
  from m row obtain f k where k: "gd_allowed (gate_evaluate (submission_state f db row t k))"
    by (auto simp: may_submit_def list_all_iff neq_Nil_conv split: option.splits)
  have "cmd_authority_class row \<in> set (allowed_authorities (cmd_command_type row))"
    using authorities row by (auto simp: find_command_def list_all_iff dest: get_by_Some)
  then have "cmd_authority_class row = CLOSING_AUTHORITY \<Longrightarrow> cmd_command_type row = SUBMIT"
    by (cases "cmd_command_type row") (auto simp: CLOSING_AUTHORITY_def)
  then have "increase_failures (submission_state f db row t k) = []"
    using k by (auto simp: gate_allowed_iff submission_state_def split: if_splits)
  then show False using blocked by (simp add: increase_failures_Nil submission_state_def)
qed

section \<open>Properties\<close>

text \<open>C24: the comparison is exact. It finds no difference if and only if the snapshot is complete and
  fresh, every open order is on both sides under the same broker id with no foreign client id, and
  every instrument is held in the same quantity on both sides; every difference it finds blocks.\<close>

theorem reconciliation_finds_every_difference:
  "(compare clock snapshot orders positions = [] \<longleftrightarrow>
      bs_complete snapshot \<and> clock < bs_expires_at snapshot \<and> sides_agree snapshot orders positions)
   \<and> list_all rdf_blocking (compare clock snapshot orders positions)"
proof -
  have "compare clock snapshot orders positions = [] \<longleftrightarrow>
      bs_complete snapshot \<and> clock < bs_expires_at snapshot \<and> sides_agree snapshot orders positions"
    unfolding sides_agree_def position_diffs_Nil [symmetric]
      order_diffs_Nil [OF refl refl, of "bs_open_orders snapshot" orders, symmetric]
    by (auto simp: compare_def Let_def not_le)
  then show ?thesis by (auto simp: list_all_iff compare_blocking)
qed

text \<open>C23: a difference stops the account. When a new reconciliation run finds a difference, its
  consumers may not start, and no command of any account whatever is claimed for dispatch while the
  difference is open; the run changes no order and no position.\<close>

theorem difference_stops_account:
  assumes "reconcile sha_run sha_diff fresh run_id db clock account_id snapshot orders positions = Inr (db', run)"
    and "rn_id run = run_id" "run_id \<notin> rnr_id ` set (et_runs db)"
    and "compare clock snapshot orders positions \<noteq> []"
    and "list_ex (\<lambda>a. acr_id a = account_id \<and> acr_broker_id a = bs_broker_id snapshot) (et_accounts db)"
    and "list_all (\<lambda>r. cmd_authority_class r \<in> set (allowed_authorities (cmd_command_type r))) (et_commands db)"
  shows "may_start_consumers (restart_state db' account_id) = Inr False
    \<and> (\<forall>facts u t. snd (authorize_and_record_attempt facts db' u t) = None)
    \<and> et_orders db' = et_orders db \<and> et_positions db' = et_positions db"
proof -
  obtain r where r: "rn_id r = run_id" "rn_account_id r = account_id" "rn_broker_id r = bs_broker_id snapshot"
    "rn_diffs r = compare clock snapshot orders positions"
    and db': "db' = db\<lparr>et_runs := et_runs db @ [run_row r],
      et_diffs := et_diffs db @ map (\<lambda>(i, d). diff_row sha_diff r run_id (fresh i) d) (enumerate 0 (rn_diffs r)),
      et_incidents := et_incidents db @ map (diff_incident r run_id) (filter rdf_blocking (rn_diffs r))\<rparr>"
    using reconcile_new [OF assms(1-3)] by metis
  obtain d ds where d: "rn_diffs r = d # ds" "rdf_blocking d"
    using assms(4) compare_blocking [of _ clock snapshot orders positions] r(4) by (cases "compare clock snapshot orders positions") auto
  define row where "row = diff_row sha_diff r run_id (fresh 0) d"
  have row: "row \<in> set (et_diffs db')" "dfr_severity row = ''BLOCKING''" "dfr_status row = ''OPEN''" "dfr_run_id row = run_id"
    using d by (simp_all add: db' row_def diff_row_def)
  have run: "run_row r \<in> set (account_runs db' account_id)"
    using assms(5) r by (simp add: account_runs_def db' run_row_def)
  have rid: "rnr_id (run_row r) = run_id" using r by (simp add: run_row_def)
  have "rs_blocking_diff_count (restart_state db' account_id) > 0"
    using row run rid by (force simp: restart_state_def Let_def filter_empty_conv)
  moreover have "rs_unknown_order_count (restart_state db' account_id) \<ge> 0" by (simp add: restart_state_def Let_def)
  ultimately have stop: "may_start_consumers (restart_state db' account_id) = Inr False" by (simp add: may_start_consumers_def)
  have "0 < blocking_reconciliations db'" using row by (force simp: blocking_reconciliations_def filter_empty_conv)
  moreover have "et_commands db' = et_commands db" by (simp add: db')
  ultimately show ?thesis using stop blocked_claim [of db'] assms(6) by (simp add: db')
qed

section \<open>Witnesses\<close>

definition sample_snapshot :: BrokerSnapshot where
  "sample_snapshot = \<lparr>bs_broker_id = 9, bs_account_id = 4, bs_complete = True, bs_expires_at = 100, bs_open_orders = [],
     bs_positions = [\<lparr>hp_instrument_id = 5, hp_quantity = 2\<rparr>]\<rparr>"

definition reconciled_sample :: "(ExecTables \<times> ReconciliationRun) result" where
  "reconciled_sample = reconcile (\<lambda>_. replicate 32 0) (\<lambda>_. []) (\<lambda>i. of_nat i) 21 (dispatch_tables NEW_EXPOSURE) 10 4
     sample_snapshot [] []"

theorem difference_stops_account_witness:
  "\<exists>db' run. reconciled_sample = Inr (db', run) \<and> may_start_consumers (restart_state db' 4) = Inr False
     \<and> snd (authorize_and_record_attempt (Some sample_facts) db' 13 10) = None"
proof -
  have c: "compare 10 sample_snapshot [] [] = [blocking_diff BROKER_POSITION_INTERNAL_MISSING None None (Some 5)]"
    by (simp add: compare_def sample_snapshot_def dict_by_def dict_put_def position_diffs_def position_diff_def Let_def)
  let ?r = "reconciliation_run (\<lambda>_. replicate 32 0) 21 10 sample_snapshot [] []"
  have n: "et_runs (dispatch_tables NEW_EXPOSURE) = []" by (simp add: dispatch_tables_def empty_tables_def)
  have v: "bs_account_id sample_snapshot = 4" "first_error (ReconciliationRun_checks ?r) = None" "rn_id ?r = 21"
    "rn_diffs ?r = [blocking_diff BROKER_POSITION_INTERNAL_MISSING None None (Some 5)]" "run_row_ok (run_row ?r)"
    by (simp_all add: reconciliation_run_def ReconciliationRun_checks_def c Let_def)
       (simp_all add: sample_snapshot_def run_row_def run_row_ok_def run_status_def)
  have "\<exists>db'. persist_run (\<lambda>_. []) (\<lambda>i. of_nat i) (dispatch_tables NEW_EXPOSURE) ?r = Inr (db', ?r)"
    using v(3-5) by (simp add: persist_run_def n get_by_def next_where_def Let_def run_row_def)
  then obtain db' run where r: "reconciled_sample = Inr (db', run)" "rn_id run = 21"
    using v(1-3) by (auto simp: reconciled_sample_def reconcile_def validated_def)
  have "list_all (\<lambda>r. cmd_authority_class r \<in> set (allowed_authorities (cmd_command_type r)))
      (et_commands (dispatch_tables NEW_EXPOSURE))" by code_simp
  moreover have "compare 10 sample_snapshot [] [] \<noteq> []" by (simp add: c)
  moreover have "list_ex (\<lambda>a. acr_id a = 4 \<and> acr_broker_id a = bs_broker_id sample_snapshot)
      (et_accounts (dispatch_tables NEW_EXPOSURE))" by (simp add: dispatch_tables_def sample_snapshot_def)
  ultimately show ?thesis
    using r n difference_stops_account [OF r(1) [unfolded reconciled_sample_def] r(2)] by auto
qed

end
