(* ===== verification/Sequences.thy ===== *)
theory Sequences
  imports V6Models "HOL-Library.Product_Lexorder"
begin

text \<open>
  What the strategy modules share on sequences: \<^verbatim>\<open>itertools.pairwise\<close>, slices from the end, sums of
  decimals, the deduplication by identity that the calendar, the order flow and the profile each write
  as \<^verbatim>\<open>_deduplicate\<close>, and nearest-rank quantiles. Shown: a deduplicated and sorted sequence depends
  only on the set of its elements, and a nearest-rank quantile is an observed value with the demanded
  share of the sample below it.
\<close>

section \<open>Pairs, slices and sums\<close>

definition pairwise :: "'a list \<Rightarrow> ('a \<times> 'a) list" where
  "pairwise xs = zip xs (tl xs)"

text \<open>\<^verbatim>\<open>values[-n:]\<close> for a positive \<open>n\<close>, and \<^verbatim>\<open>sum(values, start=Decimal(0))\<close>.\<close>

definition last_n :: "nat \<Rightarrow> 'a list \<Rightarrow> 'a list" where
  "last_n n xs = drop (length xs - n) xs"

definition dsum :: "decimal list \<Rightarrow> decimal" where
  "dsum xs = foldl dadd 0 xs"

lemma pairwise_simps [simp]:
  "pairwise [] = []" "pairwise [x] = []" "pairwise (x # y # zs) = (x, y) # pairwise (y # zs)"
  by (simp_all add: pairwise_def)

lemma pairwise_all_iff:
  "list_all (\<lambda>(x, y). P x y) (pairwise xs) \<longleftrightarrow> (\<forall>i. Suc i < length xs \<longrightarrow> P (xs ! i) (xs ! Suc i))"
proof (induction xs rule: induct_list012)
  case (3 x y zs)
  have "(\<forall>i. Suc i < length (x # y # zs) \<longrightarrow> P ((x # y # zs) ! i) ((x # y # zs) ! Suc i))
    \<longleftrightarrow> P x y \<and> (\<forall>i. Suc i < length (y # zs) \<longrightarrow> P ((y # zs) ! i) ((y # zs) ! Suc i))"
    by (auto simp: nth_Cons' All_less_Suc2)
  then show ?case using 3 by simp
qed auto

lemma length_last_n [simp]: "length (last_n n xs) = min n (length xs)"
  by (simp add: last_n_def)

lemma set_last_n: "set (last_n n xs) \<subseteq> set xs"
  by (simp add: last_n_def set_drop_subset)

lemma upt_split: "i \<le> j \<Longrightarrow> j \<le> k \<Longrightarrow> [i..<k] = [i..<j] @ [j..<k]"
  by (metis le_add_diff_inverse upt_add_eq_append)

section \<open>Deduplication by identity\<close>

text \<open>The loop of \<^verbatim>\<open>_deduplicate\<close> over its dictionary: a second element with the identity of an earlier
  one must equal it. The result lists the dictionary's values; no value stands for the exception.\<close>

fun dedup_by :: "('a \<Rightarrow> 'k) \<Rightarrow> 'a list \<Rightarrow> 'a list \<Rightarrow> 'a list option" where
  "dedup_by key acc [] = Some acc"
| "dedup_by key acc (x # xs) =
     (case find (\<lambda>y. key y = key x) acc of
        None \<Rightarrow> dedup_by key (acc @ [x]) xs
      | Some y \<Rightarrow> if y \<noteq> x then None else dedup_by key acc xs)"

lemma find_SomeD: "find P xs = Some y \<Longrightarrow> y \<in> set xs \<and> P y"
  by (auto simp: find_Some_iff)

lemma dedup_by_Some:
  assumes "dedup_by key acc xs = Some ys" "distinct (map key acc)"
  shows "set ys = set acc \<union> set xs \<and> distinct (map key ys)"
  using assms
proof (induction xs arbitrary: acc)
  case (Cons x xs)
  show ?case
  proof (cases "find (\<lambda>y. key y = key x) acc")
    case None
    then have "distinct (map key (acc @ [x]))" using Cons.prems(2) by (auto simp: find_None_iff)
    from Cons.IH [OF _ this, of] None Cons.prems(1) show ?thesis by simp
  next
    case (Some y)
    then have y: "y \<in> set acc" by (simp add: find_SomeD)
    have "y = x" using Cons.prems(1) Some by (simp split: if_splits)
    then show ?thesis using Cons.IH [of acc] Cons.prems Some y by auto
  qed
qed simp

lemma dedup_by_None_iff:
  assumes "distinct (map key acc)"
  shows "dedup_by key acc xs = None \<longleftrightarrow> \<not> inj_on key (set acc \<union> set xs)"
  using assms
proof (induction xs arbitrary: acc)
  case Nil
  then show ?case by (simp add: distinct_map)
next
  case (Cons x xs)
  show ?case
  proof (cases "find (\<lambda>y. key y = key x) acc")
    case None
    then have "distinct (map key (acc @ [x]))" using Cons.prems by (auto simp: find_None_iff)
    from Cons.IH [OF this] None show ?thesis by (simp add: insert_commute)
  next
    case (Some y)
    then have y: "y \<in> set acc" "key y = key x" using find_SomeD [OF Some] by simp_all
    show ?thesis
    proof (cases "y = x")
      case True
      then show ?thesis using Cons Some y by (simp add: insert_absorb)
    next
      case False
      then have "\<not> inj_on key (set acc \<union> set (x # xs))" using y by (force simp: inj_on_def)
      then show ?thesis using False Some by simp
    qed
  qed
qed

lemma sort_key_unique:
  assumes "set xs = set ys" "distinct xs" "distinct ys" "inj_on f (set xs)"
  shows "sort_key f xs = sort_key f ys"
proof -
  have "map f (sort_key f xs) = map f (sort_key f ys)"
  proof (rule sorted_distinct_set_unique)
    show "distinct (map f (sort_key f xs))" using assms by (simp add: distinct_map)
    show "distinct (map f (sort_key f ys))" using assms by (simp add: distinct_map)
  qed (use assms in simp_all)
  then show ?thesis using assms by (intro map_inj_on [of f]) simp_all
qed

definition deduplicated :: "('a \<Rightarrow> 'k) \<Rightarrow> ('a \<Rightarrow> 'o::linorder) \<Rightarrow> 'a list \<Rightarrow> 'a list option" where
  "deduplicated key order xs = map_option (sort_key order) (dedup_by key [] xs)"

lemma deduplicated_Some:
  assumes "deduplicated key order xs = Some ys"
  shows "set ys = set xs" "distinct (map key ys)" "sorted (map order ys)" "distinct ys"
proof -
  obtain zs where z: "dedup_by key [] xs = Some zs" "ys = sort_key order zs"
    using assms by (auto simp: deduplicated_def)
  have "set zs = set xs \<and> distinct (map key zs)" using dedup_by_Some [OF z(1)] by simp
  then show "set ys = set xs" "distinct (map key ys)" "sorted (map order ys)" "distinct ys"
    unfolding z(2) by (auto simp: distinct_map)
qed

lemma deduplicated_cong:
  assumes "set xs = set ys" "\<And>x y. order x = order y \<Longrightarrow> key x = key y"
  shows "deduplicated key order xs = deduplicated key order ys"
proof (cases "inj_on key (set xs)")
  case False
  then have "dedup_by key [] xs = None" "dedup_by key [] ys = None"
    using assms(1) by (simp_all add: dedup_by_None_iff)
  then show ?thesis by (simp add: deduplicated_def)
next
  case True
  then obtain us vs where d: "dedup_by key [] xs = Some us" "dedup_by key [] ys = Some vs"
    using dedup_by_None_iff [of key "[]" xs] dedup_by_None_iff [of key "[]" ys] assms(1) by auto
  note s = dedup_by_Some [OF d(1), simplified] dedup_by_Some [OF d(2), simplified]
  have "inj_on order (set us)"
    using True s(1) by (intro inj_onI) (metis assms(2) inj_onD)
  then have "sort_key order us = sort_key order vs"
    using s assms(1) by (intro sort_key_unique) (auto simp: distinct_map)
  then show ?thesis by (simp add: deduplicated_def d)
qed

section \<open>Nearest-rank quantiles\<close>

text \<open>\<^verbatim>\<open>int((q * n).to_integral_value(ROUND_CEILING))\<close> clamped to a valid rank, and the value there. The
  cost model computes this inline and the order flow in \<^verbatim>\<open>big_trade_quantile\<close>.\<close>

definition nearest_rank :: "decimal \<Rightarrow> nat \<Rightarrow> nat" where
  "nearest_rank q n = nat (max 1 (min (int n) \<lceil>dmul q (of_nat n)\<rceil>))"

definition rank_value :: "decimal \<Rightarrow> decimal list \<Rightarrow> decimal" where
  "rank_value q xs = sort xs ! (nearest_rank q (length xs) - 1)"

lemma nearest_rank_bounds: "0 < n \<Longrightarrow> 1 \<le> nearest_rank q n \<and> nearest_rank q n \<le> n"
  by (auto simp: nearest_rank_def)

lemma rank_value_in: "xs \<noteq> [] \<Longrightarrow> rank_value q xs \<in> set xs"
proof -
  assume "xs \<noteq> []"
  then have "nearest_rank q (length xs) - 1 < length (sort xs)"
    using nearest_rank_bounds [of "length xs" q] by simp linarith
  then show ?thesis unfolding rank_value_def by (metis nth_mem set_sort)
qed

lemma nearest_rank_exact:
  assumes "0 < n" "0 < q" "q \<le> 1" "dec_grid 3 (q * of_nat n)"
  shows "nearest_rank q n = nat \<lceil>q * of_nat n\<rceil>"
proof -
  have r: "dmul q (of_nat n) = q * of_nat n" using assms(4) by (simp add: dmul_def)
  have "q * of_nat n \<le> of_nat n" using assms by (simp add: mult_le_cancel_right1)
  then have "\<lceil>q * of_nat n\<rceil> \<le> int n" by (simp add: ceiling_le_iff)
  moreover have "1 \<le> \<lceil>q * of_nat n\<rceil>" using assms by (simp add: one_le_ceiling)
  ultimately show ?thesis by (simp add: nearest_rank_def r max_def min_def)
qed

lemma sorted_nth_counts:
  fixes ys :: "'a::linorder list"
  assumes "sorted ys" "k < length ys"
  shows "k < length (filter (\<lambda>y. y \<le> ys ! k) ys)" and "length (filter (\<lambda>y. y < ys ! k) ys) \<le> k"
proof -
  have "{0..k} \<subseteq> {i. i < length ys \<and> ys ! i \<le> ys ! k}"
    using assms by (auto intro: sorted_nth_mono)
  then have "card {0..k} \<le> card {i. i < length ys \<and> ys ! i \<le> ys ! k}" by (intro card_mono) auto
  then show "k < length (filter (\<lambda>y. y \<le> ys ! k) ys)" by (simp add: length_filter_conv_card)
  have "{i. i < length ys \<and> ys ! i < ys ! k} \<subseteq> {0..<k}"
    using sorted_nth_mono [OF assms(1)] by (auto simp: not_le [symmetric])
  then have "card {i. i < length ys \<and> ys ! i < ys ! k} \<le> card {0..<k}" by (intro card_mono) auto
  then show "length (filter (\<lambda>y. y < ys ! k) ys) \<le> k" by (simp add: length_filter_conv_card)
qed

lemma length_filter_sort: "length (filter P (sort xs)) = length (filter P xs)"
  by (metis filter_sort length_sort)

text \<open>The value at the rank is observed, at least the share \<open>q\<close> of the sample does not exceed it, and
  fewer than that share lie strictly below it.\<close>

lemma rank_value_sound:
  assumes "xs \<noteq> []" "0 < q" "q \<le> 1" "dec_grid 3 (q * of_nat (length xs))"
  shows "rank_value q xs \<in> set xs"
    and "q * of_nat (length xs) \<le> of_nat (length (filter (\<lambda>x. x \<le> rank_value q xs) xs))"
    and "of_nat (length (filter (\<lambda>x. x < rank_value q xs) xs)) < q * of_nat (length xs)"
proof -
  let ?n = "length xs" and ?k = "nearest_rank q (length xs) - 1"
  have n: "0 < ?n" using assms by simp
  have k: "?k < length (sort xs)" using nearest_rank_bounds [OF n, of q] by simp linarith
  show "rank_value q xs \<in> set xs" by (rule rank_value_in [OF assms(1)])
  have pos: "0 < q * of_nat ?n" using n assms(2) by simp
  have e: "nearest_rank q ?n = nat \<lceil>q * of_nat ?n\<rceil>" by (rule nearest_rank_exact [OF n assms(2-4)])
  have c: "1 \<le> \<lceil>q * of_nat ?n\<rceil>" using pos by (simp add: one_le_ceiling)
  then have "of_nat (nearest_rank q ?n) = (of_int \<lceil>q * of_nat ?n\<rceil> :: rat)"
    "of_nat ?k = (of_int \<lceil>q * of_nat ?n\<rceil> - 1 :: rat)"
    unfolding e using nat_diff_distrib [of 1] by (simp_all add: of_nat_diff le_nat_iff)
  then have le: "q * of_nat ?n \<le> of_nat (nearest_rank q ?n)" and gt: "of_nat ?k < q * of_nat ?n"
    by linarith+
  note s = sorted_nth_counts [OF sorted_sort k, unfolded length_filter_sort, folded rank_value_def]
  have "nearest_rank q ?n \<le> length (filter (\<lambda>x. x \<le> rank_value q xs) xs)"
    using s(1) nearest_rank_bounds [OF n, of q] by linarith
  then show "q * of_nat ?n \<le> of_nat (length (filter (\<lambda>x. x \<le> rank_value q xs) xs))"
    using le by (meson of_nat_le_iff order_trans)
  show "of_nat (length (filter (\<lambda>x. x < rank_value q xs) xs)) < q * of_nat ?n"
    using s(2) gt by (meson of_nat_le_iff order_le_less_trans)
qed

end
