(* ===== verification/Bars.thy ===== *)
theory Bars
  imports Sequences
begin

text \<open>
  \<^verbatim>\<open>domain/completed_ohlcv.py\<close>, \<^verbatim>\<open>strategies/david_v6/bars.py\<close> and
  \<^verbatim>\<open>strategies/david_v6/costs.py\<close>: completed bars, the contiguous series an evaluation reads, the
  freshness of a piece of evidence, and the cost model with its nearest-rank slippage. Shown: a series
  never depends on a bar that was still forming, its bars are exactly one timeframe apart, the
  modelled slippage covers the demanded share of the sample, and the cost offset is the least multiple of
  the tick that covers the costs.
\<close>

section \<open>Completed bars\<close>

record CompletedOhlcvBar =
  bar_timestamp :: instant
  bar_open :: decimal
  bar_high :: decimal
  bar_low :: decimal
  bar_close :: decimal
  bar_volume :: decimal

text \<open>\<^verbatim>\<open>__post_init__\<close>; an instant is exact UTC and a decimal finite by typing.\<close>

definition CompletedOhlcvBar_checks :: "CompletedOhlcvBar \<Rightarrow> checks" where
  "CompletedOhlcvBar_checks b =
     [(list_ex (\<lambda>v. v \<le> 0) [bar_open b, bar_high b, bar_low b, bar_close b],
         ValueError ''completed OHLCV prices must be positive''),
      (bar_high b < bar_low b, ValueError ''completed OHLCV high must be at least low''),
      (\<not> (bar_low b \<le> bar_open b \<and> bar_open b \<le> bar_high b), ValueError ''completed OHLCV open must be within range''),
      (\<not> (bar_low b \<le> bar_close b \<and> bar_close b \<le> bar_high b), ValueError ''completed OHLCV close must be within range''),
      (bar_volume b < 0, ValueError ''completed OHLCV volume must be non-negative'')]"

definition wf_bar :: "CompletedOhlcvBar \<Rightarrow> bool" where
  "wf_bar b \<longleftrightarrow> first_error (CompletedOhlcvBar_checks b) = None"

lemma wf_barD:
  assumes "wf_bar b"
  shows "0 < bar_open b" "0 < bar_high b" "0 < bar_low b" "0 < bar_close b" "0 \<le> bar_volume b"
    "bar_low b \<le> bar_open b" "bar_open b \<le> bar_high b" "bar_low b \<le> bar_close b" "bar_close b \<le> bar_high b"
    "bar_low b \<le> bar_high b"
  using assms by (auto simp: wf_bar_def CompletedOhlcvBar_checks_def split: if_splits)

text \<open>The test that a sequence of bars is strictly ascending.\<close>

definition ascending_bars :: "CompletedOhlcvBar list \<Rightarrow> bool" where
  "ascending_bars bars = list_all (\<lambda>(earlier, later). bar_timestamp earlier < bar_timestamp later) (pairwise bars)"

lemma ascending_bars_sorted: "ascending_bars bars \<longleftrightarrow> sorted_wrt (<) (map bar_timestamp bars)"
  by (auto simp: ascending_bars_def pairwise_all_iff sorted_wrt_iff_nth_Suc_transp)

section \<open>The series an evaluation reads\<close>

definition exact_completed_series ::
  "CompletedOhlcvBar list \<Rightarrow> timedelta \<Rightarrow> instant \<Rightarrow> int \<Rightarrow> CompletedOhlcvBar list result" where
  "exact_completed_series bars timeframe decision_at required =
     (if timeframe \<le> 0 then Inl (ValueError ''timeframe must be a positive timedelta'')
      else if required \<le> 0 then Inl (ValueError ''required must be a positive integer'')
      else if \<not> ascending_bars bars then Inr []
      else let completed = filter (\<lambda>b. bar_timestamp b + timeframe \<le> decision_at) bars
           in if int (length completed) < required then Inr []
              else let selected = last_n (nat required) completed
                   in if list_ex (\<lambda>(previous, current). bar_timestamp current - bar_timestamp previous \<noteq> timeframe)
                           (pairwise selected) then Inr []
                      else Inr selected)"

definition evidence_state ::
  "instant option \<Rightarrow> instant \<Rightarrow> timedelta \<Rightarrow> bool \<Rightarrow> EvidenceState result" where
  "evidence_state observed_at decision_at maximum_age applicable =
     (if maximum_age < 0 then Inl (ValueError ''maximum_age must be a non-negative timedelta'')
      else if \<not> applicable then Inr NOT_APPLICABLE
      else case observed_at of
             None \<Rightarrow> Inr UNAVAILABLE
           | Some observed \<Rightarrow>
               if observed > decision_at then Inr EVIDENCE_UNKNOWN
               else if decision_at - observed \<le> maximum_age then Inr AVAILABLE
               else Inr STALE)"

lemma exact_series_cases:
  assumes "exact_completed_series bars timeframe decision_at required = Inr s" "s \<noteq> []"
  shows "0 < timeframe" "0 < required" "ascending_bars bars"
    and "s = last_n (nat required) (filter (\<lambda>b. bar_timestamp b + timeframe \<le> decision_at) bars)"
    and "int (length s) = required"
    and "\<And>i. Suc i < length s \<Longrightarrow> bar_timestamp (s ! Suc i) = bar_timestamp (s ! i) + timeframe"
proof -
  note [simp] = exact_completed_series_def Let_def
  show p: "0 < timeframe" "0 < required" "ascending_bars bars"
    and s: "s = last_n (nat required) (filter (\<lambda>b. bar_timestamp b + timeframe \<le> decision_at) bars)"
    using assms by (auto split: if_splits)
  show "int (length s) = required" unfolding s using assms p by (auto split: if_splits)
  have "list_all (\<lambda>(previous, current). bar_timestamp current - bar_timestamp previous = timeframe) (pairwise s)"
    using assms by (auto split: if_splits simp: list_ex_iff list_all_iff)
  then show "\<And>i. Suc i < length s \<Longrightarrow> bar_timestamp (s ! Suc i) = bar_timestamp (s ! i) + timeframe"
    by (auto simp: pairwise_all_iff)
qed

lemma equally_spaced:
  fixes f :: "nat \<Rightarrow> int"
  assumes "\<And>i. Suc i < n \<Longrightarrow> f (Suc i) = f i + d" "i < n"
  shows "f i = f 0 + int i * d"
  using assms(2) by (induction i) (use assms(1) in \<open>auto simp: algebra_simps\<close>)

text \<open>The bars that were still forming at the decision come last in an ascending sequence.\<close>

lemma forming_bars_last:
  assumes "ascending_bars (bars @ later)" "\<forall>b \<in> set later. decision_at < bar_timestamp b + timeframe"
  shows "filter (\<lambda>b. bar_timestamp b + timeframe \<le> decision_at) (bars @ later)
    = filter (\<lambda>b. bar_timestamp b + timeframe \<le> decision_at) bars"
  using assms(2) by (auto simp: filter_empty_conv not_le)

lemma ascending_appendD: "ascending_bars (bars @ later) \<Longrightarrow> ascending_bars bars"
  by (simp add: ascending_bars_sorted sorted_wrt_append)

text \<open>The series an evaluation reads. When a series is found, it holds exactly the demanded number of
  bars, one timeframe apart, the last of them completed by the decision; and no bar that was still forming
  at the decision changes the answer, so an evaluation never sees the future.\<close>

theorem completed_series_has_no_lookahead:
  assumes "exact_completed_series bars timeframe decision_at required = Inr s" "s \<noteq> []"
  shows "int (length s) = required
    \<and> (\<forall>i < length s. bar_timestamp (s ! i) = bar_timestamp (s ! 0) + int i * timeframe)
    \<and> (\<forall>b \<in> set s. b \<in> set bars \<and> bar_timestamp b + timeframe \<le> decision_at)
    \<and> (\<forall>later. ascending_bars (bars @ later) \<and> (\<forall>b \<in> set later. decision_at < bar_timestamp b + timeframe)
      \<longrightarrow> exact_completed_series (bars @ later) timeframe decision_at required = Inr s)"
proof (intro conjI allI impI)
  note c = exact_series_cases [OF assms]
  show "int (length s) = required" by (rule c(5))
  show "bar_timestamp (s ! i) = bar_timestamp (s ! 0) + int i * timeframe" if "i < length s" for i
    using equally_spaced [of "length s" "\<lambda>i. bar_timestamp (s ! i)"] c(6) that by blast
  show "\<forall>b \<in> set s. b \<in> set bars \<and> bar_timestamp b + timeframe \<le> decision_at"
    unfolding c(4) using set_last_n by fastforce
  fix later
  assume l: "ascending_bars (bars @ later) \<and> (\<forall>b \<in> set later. decision_at < bar_timestamp b + timeframe)"
  then have f: "filter (\<lambda>b. bar_timestamp b + timeframe \<le> decision_at) (bars @ later)
      = filter (\<lambda>b. bar_timestamp b + timeframe \<le> decision_at) bars"
    by (intro forming_bars_last) auto
  show "exact_completed_series (bars @ later) timeframe decision_at required = Inr s"
    using assms(1) c(1-3) l by (simp add: exact_completed_series_def f del: filter_append)
qed

section \<open>Costs\<close>

text \<open>\<^verbatim>\<open>(x / tick).to_integral_value(ROUND_CEILING) * tick\<close>, which the cost model and the position
  manager both write.\<close>

definition ceil_to_tick :: "decimal \<Rightarrow> decimal \<Rightarrow> decimal" where
  "ceil_to_tick x tick = dmul (of_int \<lceil>ddiv x tick\<rceil>) tick"

definition STOP_SLIPPAGE_QUANTILE :: decimal where "STOP_SLIPPAGE_QUANTILE = 95 / 100"
definition MINIMUM_EXCURSION_BARS :: nat where "MINIMUM_EXCURSION_BARS = 20"

record FeeSchedule =
  fs_entry_fee_per_unit :: "decimal option"
  fs_exit_taker_fee_per_unit :: "decimal option"

definition FeeSchedule_checks :: "FeeSchedule \<Rightarrow> checks" where
  "FeeSchedule_checks f =
     [((case fs_entry_fee_per_unit f of None \<Rightarrow> False | Some fee \<Rightarrow> fee < 0),
         ValueError ''entry_fee_per_unit must be non-negative''),
      ((case fs_exit_taker_fee_per_unit f of None \<Rightarrow> False | Some fee \<Rightarrow> fee < 0),
         ValueError ''exit_taker_fee_per_unit must be non-negative'')]"

record CostFacts =
  cf_state :: EvidenceState
  cf_spread_per_unit :: decimal
  cf_fee_per_unit :: "decimal option"
  cf_slippage_allowance_per_unit :: decimal
  cf_raw_cost_per_unit :: "decimal option"
  cf_cost_offset_per_unit :: "decimal option"
  cf_round_trip_cost :: "decimal option"

definition cost_checks :: "decimal \<Rightarrow> decimal \<Rightarrow> decimal \<Rightarrow> decimal \<Rightarrow> checks" where
  "cost_checks spread quantity slippage tick =
     [(spread < 0, ValueError ''spread must be non-negative''),
      (quantity < 0, ValueError ''quantity must be non-negative''),
      (slippage < 0, ValueError ''stop_slippage_q95 must be non-negative''),
      (tick \<le> 0, ValueError ''tick_size must be positive'')]"

definition estimate_round_trip_cost ::
  "decimal \<Rightarrow> decimal \<Rightarrow> FeeSchedule \<Rightarrow> decimal \<Rightarrow> decimal \<Rightarrow> CostFacts result" where
  "estimate_round_trip_cost spread quantity fees slippage tick =
     validated (cost_checks spread quantity slippage tick)
       (let allowance = dadd slippage tick
        in case (fs_entry_fee_per_unit fees, fs_exit_taker_fee_per_unit fees) of
             (Some entry_fee, Some exit_fee) \<Rightarrow>
               (let fee = dadd entry_fee exit_fee;
                    raw = dadd (dadd spread fee) allowance;
                    offset = ceil_to_tick raw tick
                in \<lparr>cf_state = AVAILABLE, cf_spread_per_unit = spread, cf_fee_per_unit = Some fee,
                    cf_slippage_allowance_per_unit = allowance, cf_raw_cost_per_unit = Some raw,
                    cf_cost_offset_per_unit = Some offset, cf_round_trip_cost = Some (dmul offset quantity)\<rparr>)
           | _ \<Rightarrow>
               \<lparr>cf_state = UNAVAILABLE, cf_spread_per_unit = spread, cf_fee_per_unit = None,
                cf_slippage_allowance_per_unit = allowance, cf_raw_cost_per_unit = None,
                cf_cost_offset_per_unit = None, cf_round_trip_cost = None\<rparr>)"

definition adverse_excursions :: "CompletedOhlcvBar list \<Rightarrow> decimal list" where
  "adverse_excursions bars =
     map (\<lambda>(previous, current).
            max (max 0 (dsub (bar_close previous) (bar_low current)))
                (max 0 (dsub (bar_high current) (bar_close previous))))
       (pairwise bars)"

definition stop_slippage_from_bars :: "CompletedOhlcvBar list \<Rightarrow> decimal \<Rightarrow> nat \<Rightarrow> decimal option" where
  "stop_slippage_from_bars bars quantile minimum_bars =
     (let excursions = adverse_excursions bars
      in if length excursions < minimum_bars then None else Some (rank_value quantile excursions))"

subsection \<open>Rounding up to a tick\<close>

lemma rnd_small_int: "\<bar>n\<bar> \<le> 10 ^ 28 \<Longrightarrow> rnd (of_int n) = of_int n"
  using rnd_next_grid [of n 0] by simp

text \<open>The 28-digit quotient of two amounts with at most 27 digits never loses the step to the next integer.\<close>

lemma ceiling_rnd_quotient:
  fixes a b :: int
  assumes "0 \<le> a" "a < 10 ^ 27" "0 < b"
  shows "\<lceil>rnd (of_int a / of_int b)\<rceil> = \<lceil>of_int a / of_int b :: rat\<rceil>"
proof -
  let ?q = "of_int a / of_int b :: rat" and ?n = "\<lceil>of_int a / of_int b :: rat\<rceil>"
  have q: "0 \<le> ?q" "?q \<le> of_int a" using assms by (auto simp: divide_le_eq mult_le_cancel_left1)
  have n: "0 \<le> ?n" "?n \<le> a" using q by (auto simp: ceiling_le_iff)
  have "rnd ?q \<le> rnd (of_int ?n)" by (rule rnd_mono) simp
  then have up: "\<lceil>rnd ?q\<rceil> \<le> ?n" using n assms(2) rnd_small_int [of ?n] by (simp add: ceiling_le_iff)
  have "of_int (?n - 1) < rnd ?q"
  proof -
    have "of_int (?n - 1) < ?q" by linarith
    then have "of_int ((?n - 1) * b) < (of_int a :: rat)" using assms(3) by (simp add: less_divide_eq)
    then have "(?n - 1) * b < a" by (simp only: of_int_less_iff)
    then have "of_int ((?n - 1) * b + 1) \<le> (of_int a :: rat)" by linarith
    then have "of_int ((?n - 1) * b + 1) / of_int b \<le> ?q"
      using assms(3) by (intro divide_right_mono) auto
    then have s: "of_int (?n - 1) + 1 / of_int b \<le> ?q"
      using assms(3) by (simp add: add_divide_distrib)
    have "\<bar>rnd ?q - ?q\<bar> \<le> ?q * (5 / 10 ^ 28)" using rnd_error [of ?q] q by simp
    also have "\<dots> < 1 / of_int b"
    proof -
      have "of_int a * (5 / 10 ^ 28) < (1 :: rat)" using assms(2) by (simp add: field_simps flip: of_int_less_iff)
      then show ?thesis using assms(3) by (simp add: field_simps)
    qed
    finally show ?thesis using s by linarith
  qed
  then have "?n \<le> \<lceil>rnd ?q\<rceil>" by linarith
  with up show ?thesis by simp
qed

lemma ceil_to_tick_grid:
  assumes "x = of_int a / 10 ^ k" "tick = of_int b / 10 ^ k" "0 \<le> a" "0 < b" "a + b < 10 ^ 27"
  shows "x \<le> ceil_to_tick x tick" "ceil_to_tick x tick < x + tick"
proof -
  have e: "x / tick = of_int a / of_int b" using assms by simp
  let ?n = "\<lceil>of_int a / of_int b :: rat\<rceil>"
  have c: "\<lceil>ddiv x tick\<rceil> = ?n" unfolding ddiv_def e using assms by (intro ceiling_rnd_quotient) auto
  have lo: "of_int a \<le> (of_int (?n * b) :: rat)" and hi: "of_int (?n * b) < (of_int (a + b) :: rat)"
    using assms(4) mult_right_mono [OF le_of_int_ceiling [of "of_int a / of_int b :: rat"], of "of_int b"]
      ceiling_correct [of "of_int a / of_int b :: rat"]
    by (simp_all add: field_simps)
  have "ceil_to_tick x tick = rnd (of_int (?n * b) / 10 ^ k)"
    unfolding ceil_to_tick_def dmul_def c by (simp add: assms(2))
  also have "\<dots> = of_int (?n * b) / 10 ^ k"
    using lo hi assms(3-5) unfolding of_int_le_iff of_int_less_iff by (intro rnd_next_grid) auto
  finally have r: "ceil_to_tick x tick = of_int (?n * b) / 10 ^ k" .
  show "x \<le> ceil_to_tick x tick" unfolding r using lo by (simp add: assms(1) divide_right_mono)
  show "ceil_to_tick x tick < x + tick" unfolding r using hi
    by (simp add: assms(1,2) divide_strict_right_mono flip: add_divide_distrib)
qed

lemma cost_estimate_available:
  assumes "estimate_round_trip_cost spread quantity fees slippage tick = Inr c" "cf_state c = AVAILABLE"
  shows "\<exists>entry_fee exit_fee. fs_entry_fee_per_unit fees = Some entry_fee \<and> fs_exit_taker_fee_per_unit fees = Some exit_fee
    \<and> cf_raw_cost_per_unit c = Some (dadd (dadd spread (dadd entry_fee exit_fee)) (dadd slippage tick))
    \<and> cf_cost_offset_per_unit c = Some (ceil_to_tick (dadd (dadd spread (dadd entry_fee exit_fee)) (dadd slippage tick)) tick)"
  using assms by (auto simp: estimate_round_trip_cost_def validated_Inr_iff Let_def split: option.splits)

text \<open>The modelled stop slippage is an excursion some bar made, at least 95 percent of the excursions stay
  within it, and it is absent below the minimum sample.\<close>

lemma excursion_nonneg: "x \<in> set (adverse_excursions bars) \<Longrightarrow> 0 \<le> x"
  by (auto simp: adverse_excursions_def)

lemma slippage_quantile_grid:
  "n < 10 ^ 20 \<Longrightarrow> dec_grid 3 (STOP_SLIPPAGE_QUANTILE * of_nat n)"
  by (rule dec_gridI [of _ "950 * int n"]) (auto simp: STOP_SLIPPAGE_QUANTILE_def)

lemma stop_slippage_sound:
  assumes "stop_slippage_from_bars bars STOP_SLIPPAGE_QUANTILE MINIMUM_EXCURSION_BARS = Some q"
    and "length bars < 10 ^ 20"
  shows "20 \<le> length (adverse_excursions bars)" and "q \<in> set (adverse_excursions bars)" and "0 \<le> q"
    and "STOP_SLIPPAGE_QUANTILE * of_nat (length (adverse_excursions bars))
      \<le> of_nat (length (filter (\<lambda>x. x \<le> q) (adverse_excursions bars)))"
proof -
  let ?xs = "adverse_excursions bars"
  have n: "20 \<le> length ?xs" and q: "q = rank_value STOP_SLIPPAGE_QUANTILE ?xs"
    using assms(1) by (auto simp: stop_slippage_from_bars_def Let_def MINIMUM_EXCURSION_BARS_def split: if_splits)
  have "length ?xs < 10 ^ 20" using assms(2) by (simp add: adverse_excursions_def pairwise_def)
  then have s: "dec_grid 3 (STOP_SLIPPAGE_QUANTILE * of_nat (length ?xs))" by (rule slippage_quantile_grid)
  have ne: "?xs \<noteq> []" using n by auto
  note r = rank_value_sound [OF ne _ _ s]
  show "20 \<le> length ?xs" by (rule n)
  show "q \<in> set ?xs" unfolding q by (rule r(1)) (simp_all add: STOP_SLIPPAGE_QUANTILE_def)
  then show "0 \<le> q" by (rule excursion_nonneg)
  show "STOP_SLIPPAGE_QUANTILE * of_nat (length ?xs) \<le> of_nat (length (filter (\<lambda>x. x \<le> q) ?xs))"
    unfolding q by (rule r(2)) (simp_all add: STOP_SLIPPAGE_QUANTILE_def)
qed

section \<open>Witness\<close>

definition sample_bar :: "instant \<Rightarrow> decimal \<Rightarrow> CompletedOhlcvBar" where
  "sample_bar t close =
     \<lparr>bar_timestamp = t, bar_open = 100, bar_high = 130, bar_low = 90, bar_close = close, bar_volume = 5\<rparr>"

theorem completed_series_has_no_lookahead_witness:
  "\<exists>s. exact_completed_series [sample_bar 0 101, sample_bar 60 102, sample_bar 120 103] 60 200 2 = Inr s
    \<and> int (length s) = 2
    \<and> exact_completed_series ([sample_bar 0 101, sample_bar 60 102, sample_bar 120 103] @ [sample_bar 180 104]) 60 200 2 = Inr s"
proof -
  have e: "exact_completed_series [sample_bar 0 101, sample_bar 60 102, sample_bar 120 103] 60 200 2
      = Inr [sample_bar 60 102, sample_bar 120 103]"
    by code_simp
  have later: "ascending_bars ([sample_bar 0 101, sample_bar 60 102, sample_bar 120 103] @ [sample_bar 180 104])"
    "\<forall>b \<in> set [sample_bar 180 104]. 200 < bar_timestamp b + 60"
    by code_simp+
  show ?thesis using completed_series_has_no_lookahead [OF e] e later by blast
qed

end
