(* ===== verification/Pivots.thy ===== *)
theory Pivots
  imports Bars
begin

text \<open>
  \<^verbatim>\<open>strategies/david_v6/pivots.py\<close>: swing pivots and the divergences between price and an
  oscillator. Shown: a pivot is exactly a strict extreme of its neighbourhood, a later bar never
  changes a pivot that was confirmed, and a divergence relates the last two pivots of its kind.
\<close>

section \<open>Pivots\<close>

datatype PivotKind = PIVOT_HIGH | PIVOT_LOW

datatype DivergenceKind = REGULAR_BULLISH | REGULAR_BEARISH | HIDDEN_BULLISH | HIDDEN_BEARISH

record PivotConfig =
  pc_left :: int
  pc_right :: int

definition PivotConfig_checks :: "PivotConfig \<Rightarrow> checks" where
  "PivotConfig_checks c =
     [(pc_left c \<le> 0, ValueError ''pivot left must be positive''),
      (pc_right c < 0, ValueError ''pivot right must be non-negative'')]"

definition default_config :: PivotConfig where
  "default_config = \<lparr>pc_left = 3, pc_right = 0\<rparr>"

record Pivot =
  pv_index :: nat
  pv_confirmation_index :: nat
  pv_kind :: PivotKind
  pv_price :: decimal
  pv_timestamp :: instant
  pv_confirmed :: bool

definition Pivot_checks :: "Pivot \<Rightarrow> checks" where
  "Pivot_checks p =
     [(pv_confirmation_index p < pv_index p, ValueError ''pivot indices are invalid''),
      (pv_price p \<le> 0, ValueError ''pivot price must be positive'')]"

text \<open>\<^verbatim>\<open>_bars\<close>: a sequence that is not strictly ascending is refused.\<close>

definition pivot_bars :: "CompletedOhlcvBar list \<Rightarrow> CompletedOhlcvBar list result" where
  "pivot_bars values =
     (if \<not> ascending_bars values then Inl (ValueError ''pivot bars must be strictly ascending'') else Inr values)"

definition neighbours :: "CompletedOhlcvBar list \<Rightarrow> nat \<Rightarrow> nat \<Rightarrow> nat \<Rightarrow> CompletedOhlcvBar list" where
  "neighbours values left right index =
     map ((!) values) (filter (\<lambda>other. other \<noteq> index) [index - left ..< index + right + 1])"

definition pivot_at :: "CompletedOhlcvBar list \<Rightarrow> nat \<Rightarrow> nat \<Rightarrow> PivotKind \<Rightarrow> Pivot" where
  "pivot_at values right index kind =
     \<lparr>pv_index = index, pv_confirmation_index = index + right, pv_kind = kind,
      pv_price = (if kind = PIVOT_HIGH then bar_high (values ! index) else bar_low (values ! index)),
      pv_timestamp = bar_timestamp (values ! index), pv_confirmed = True\<rparr>"

definition pivots_at :: "CompletedOhlcvBar list \<Rightarrow> nat \<Rightarrow> nat \<Rightarrow> nat \<Rightarrow> Pivot list" where
  "pivots_at values left right index =
     (let candidate = values ! index; others = neighbours values left right index
      in (if list_all (\<lambda>other. bar_high other < bar_high candidate) others
          then [pivot_at values right index PIVOT_HIGH] else [])
       @ (if list_all (\<lambda>other. bar_low candidate < bar_low other) others
          then [pivot_at values right index PIVOT_LOW] else []))"

definition confirmed_pivots :: "CompletedOhlcvBar list \<Rightarrow> PivotConfig \<Rightarrow> Pivot list result" where
  "confirmed_pivots bars config =
     and_then (pivot_bars bars) (\<lambda>values.
       let left = nat (pc_left config); right = nat (pc_right config)
       in Inr (concat (map (pivots_at values left right) [left ..< length values - right])))"

subsection \<open>A pivot is a strict extreme\<close>

lemma confirmed_pivots_Inr:
  "confirmed_pivots bars config = Inr ps \<longleftrightarrow> ascending_bars bars
     \<and> ps = concat (map (pivots_at bars (nat (pc_left config)) (nat (pc_right config)))
          [nat (pc_left config) ..< length bars - nat (pc_right config)])"
  by (auto simp: confirmed_pivots_def pivot_bars_def and_then_eq_Inr_iff Let_def)

definition strict_extreme :: "CompletedOhlcvBar list \<Rightarrow> nat \<Rightarrow> nat \<Rightarrow> nat \<Rightarrow> PivotKind \<Rightarrow> bool" where
  "strict_extreme bars left right i kind \<longleftrightarrow>
     (\<forall>j. i - left \<le> j \<and> j \<le> i + right \<and> j \<noteq> i \<longrightarrow>
        (case kind of PIVOT_HIGH \<Rightarrow> bar_high (bars ! j) < bar_high (bars ! i)
         | PIVOT_LOW \<Rightarrow> bar_low (bars ! i) < bar_low (bars ! j)))"

lemma list_all_neighbours:
  "list_all P (neighbours values left right i)
     \<longleftrightarrow> (\<forall>j. i - left \<le> j \<and> j \<le> i + right \<and> j \<noteq> i \<longrightarrow> P (values ! j))"
  by (auto simp: neighbours_def list_all_iff)

lemma in_pivots_at:
  "p \<in> set (pivots_at bars left right i)
     \<longleftrightarrow> (\<exists>kind. p = pivot_at bars right i kind \<and> strict_extreme bars left right i kind)"
proof
  assume "\<exists>kind. p = pivot_at bars right i kind \<and> strict_extreme bars left right i kind"
  then obtain kind where "p = pivot_at bars right i kind" "strict_extreme bars left right i kind" by blast
  then show "p \<in> set (pivots_at bars left right i)"
    by (cases kind) (simp_all add: pivots_at_def Let_def list_all_neighbours strict_extreme_def)
next
  assume "p \<in> set (pivots_at bars left right i)"
  then have "(p = pivot_at bars right i PIVOT_HIGH \<and> strict_extreme bars left right i PIVOT_HIGH)
      \<or> (p = pivot_at bars right i PIVOT_LOW \<and> strict_extreme bars left right i PIVOT_LOW)"
    by (simp add: pivots_at_def Let_def list_all_neighbours strict_extreme_def split: if_splits)
  then show "\<exists>kind. p = pivot_at bars right i kind \<and> strict_extreme bars left right i kind" by blast
qed

lemma in_confirmed_pivots:
  assumes "confirmed_pivots bars config = Inr ps" "0 \<le> pc_left config" "0 \<le> pc_right config"
  shows "p \<in> set ps \<longleftrightarrow> (\<exists>i kind. pc_left config \<le> int i \<and> int i + pc_right config < int (length bars)
    \<and> p = pivot_at bars (nat (pc_right config)) i kind
    \<and> strict_extreme bars (nat (pc_left config)) (nat (pc_right config)) i kind)"
proof -
  have "p \<in> set ps \<longleftrightarrow> (\<exists>i. nat (pc_left config) \<le> i \<and> i < length bars - nat (pc_right config)
      \<and> p \<in> set (pivots_at bars (nat (pc_left config)) (nat (pc_right config)) i))"
    using assms(1) by (auto simp: confirmed_pivots_Inr)
  then show ?thesis unfolding in_pivots_at using assms(2,3) by (auto simp: nat_le_iff less_diff_conv) (metis+)?
qed

text \<open>A pivot reads only the bars up to its confirmation.\<close>

lemma pivots_at_prefix:
  assumes "left \<le> i" "i + right < length bars"
  shows "pivots_at (bars @ later) left right i = pivots_at bars left right i"
proof -
  have "neighbours (bars @ later) left right i = neighbours bars left right i"
    using assms by (auto simp: neighbours_def nth_append)
  then show ?thesis using assms by (simp add: pivots_at_def pivot_at_def nth_append Let_def)
qed

lemma pivots_at_confirmation: "p \<in> set (pivots_at bars left right i) \<Longrightarrow> pv_confirmation_index p = i + right"
  by (auto simp: in_pivots_at pivot_at_def)

text \<open>C17: pivots do not repaint. Bars that arrive later only add pivots that are confirmed later: the
  pivots of a history are exactly those pivots of every longer history that were confirmed within it.\<close>

theorem pivots_do_not_repaint:
  assumes "confirmed_pivots (bars @ later) config = Inr ps"
  shows "confirmed_pivots bars config = Inr (filter (\<lambda>p. pv_confirmation_index p < length bars) ps)"
proof -
  let ?l = "nat (pc_left config)" and ?r = "nat (pc_right config)"
  let ?at = "pivots_at (bars @ later) ?l ?r"
  have asc: "ascending_bars bars" using assms by (auto simp: confirmed_pivots_Inr dest: ascending_appendD)
  have split: "[?l ..< length (bars @ later) - ?r]
      = [?l ..< length bars - ?r] @ [max ?l (length bars - ?r) ..< length (bars @ later) - ?r]"
    using upt_split [of ?l "length bars - ?r" "length (bars @ later) - ?r"]
    by (cases "?l \<le> length bars - ?r") (simp_all add: max_def diff_le_mono)
  have keep: "filter (\<lambda>p. pv_confirmation_index p < length bars) (?at i) = pivots_at bars ?l ?r i"
    if "i \<in> set [?l ..< length bars - ?r]" for i
    using that pivots_at_prefix [of ?l i ?r bars later] by (auto simp: filter_id_conv dest!: pivots_at_confirmation)
  have drop: "filter (\<lambda>p. pv_confirmation_index p < length bars) (?at i) = []"
    if "i \<in> set [max ?l (length bars - ?r) ..< length (bars @ later) - ?r]" for i
    using that by (auto simp: filter_empty_conv dest!: pivots_at_confirmation)
  have "filter (\<lambda>p. pv_confirmation_index p < length bars) ps
      = concat (map (pivots_at bars ?l ?r) [?l ..< length bars - ?r])"
    using assms unfolding confirmed_pivots_Inr split
    by (simp add: filter_concat comp_def keep drop cong: map_cong del: length_append set_upt)
  then show ?thesis using asc by (simp add: confirmed_pivots_Inr)
qed

lemma pivots_wf:
  assumes "confirmed_pivots bars config = Inr ps" "list_all wf_bar bars" "p \<in> set ps"
    "0 \<le> pc_left config" "0 \<le> pc_right config"
  shows "first_error (Pivot_checks p) = None" and "pv_index p < length bars" "pv_confirmation_index p < length bars"
    "pv_confirmed p" "pv_timestamp p = bar_timestamp (bars ! pv_index p)"
    "pv_price p = (if pv_kind p = PIVOT_HIGH then bar_high (bars ! pv_index p) else bar_low (bars ! pv_index p))"
proof -
  obtain i kind where i: "int i + pc_right config < int (length bars)" "p = pivot_at bars (nat (pc_right config)) i kind"
    using assms(3) in_confirmed_pivots [OF assms(1,4,5)] by blast
  then have l: "i + nat (pc_right config) < length bars" using assms(5) by linarith
  then have "wf_bar (bars ! i)" using assms(2) by (simp add: list_all_length)
  then show "first_error (Pivot_checks p) = None"
    using wf_barD [of "bars ! i"] by (simp add: i(2) Pivot_checks_def pivot_at_def not_le)
  show "pv_index p < length bars" "pv_confirmation_index p < length bars"
    "pv_confirmed p" "pv_timestamp p = bar_timestamp (bars ! pv_index p)"
    "pv_price p = (if pv_kind p = PIVOT_HIGH then bar_high (bars ! pv_index p) else bar_low (bars ! pv_index p))"
    using l by (simp_all add: i(2) pivot_at_def)
qed

text \<open>The pivots of one kind come in the order of their bars, one at most for each bar.\<close>

lemma pivots_at_kind:
  "filter (\<lambda>p. pv_kind p = kind) (pivots_at bars left right i)
     = (if strict_extreme bars left right i kind then [pivot_at bars right i kind] else [])"
  by (cases kind) (auto simp: pivots_at_def Let_def list_all_neighbours strict_extreme_def pivot_at_def)

lemma pivots_of_kind:
  assumes "confirmed_pivots bars config = Inr ps"
  shows "filter (\<lambda>p. pv_kind p = kind) ps
    = map (\<lambda>i. pivot_at bars (nat (pc_right config)) i kind)
        (filter (\<lambda>i. strict_extreme bars (nat (pc_left config)) (nat (pc_right config)) i kind)
          [nat (pc_left config) ..< length bars - nat (pc_right config)])"
proof -
  have "concat (map (\<lambda>i. if P i then [f i] else []) xs) = map f (filter P xs)" for P f and xs :: "nat list"
    by (induction xs) simp_all
  then show ?thesis using assms by (simp add: confirmed_pivots_Inr filter_concat comp_def pivots_at_kind)
qed

lemma last_two_pivots:
  assumes "confirmed_pivots bars config = Inr ps" "filter (\<lambda>p. pv_kind p = kind) ps = earlier @ [first, second]"
  shows "pv_index first < pv_index second" "pv_index second < length bars"
    "first = pivot_at bars (nat (pc_right config)) (pv_index first) kind"
    "second = pivot_at bars (nat (pc_right config)) (pv_index second) kind"
proof -
  let ?hits = "filter (\<lambda>i. strict_extreme bars (nat (pc_left config)) (nat (pc_right config)) i kind)
          [nat (pc_left config) ..< length bars - nat (pc_right config)]"
  let ?f = "\<lambda>i. pivot_at bars (nat (pc_right config)) i kind"
  obtain hs i j where hs: "?hits = hs @ [i, j]" "first = ?f i" "second = ?f j"
    using pivots_of_kind [OF assms(1), of kind] assms(2) by (auto simp: append_eq_map_conv Cons_eq_map_conv)
  have "sorted_wrt (<) ?hits" by (intro sorted_wrt_filter) simp
  then have "i < j" unfolding hs(1) by (simp add: sorted_wrt_append)
  moreover have "j \<in> set ?hits" unfolding hs(1) by simp
  ultimately show "pv_index first < pv_index second" "pv_index second < length bars"
    "first = ?f (pv_index first)" "second = ?f (pv_index second)"
    by (auto simp: hs(2,3) pivot_at_def)
qed

section \<open>Divergences\<close>

record DivergenceSignal =
  ds_kind :: DivergenceKind
  ds_first :: Pivot
  ds_second :: Pivot
  ds_first_oscillator :: decimal
  ds_second_oscillator :: decimal

record DivergenceFacts =
  df_observed_at :: "instant option"
  df_regular :: "DivergenceSignal list"
  df_hidden :: "DivergenceSignal list"

definition divergence_kind :: "PivotKind \<Rightarrow> decimal \<Rightarrow> decimal \<Rightarrow> decimal \<Rightarrow> decimal \<Rightarrow> DivergenceKind option" where
  "divergence_kind kind first_price second_price first_oscillator second_oscillator =
     (case kind of
        PIVOT_LOW \<Rightarrow>
          if second_price < first_price \<and> second_oscillator > first_oscillator then Some REGULAR_BULLISH
          else if second_price > first_price \<and> second_oscillator < first_oscillator then Some HIDDEN_BULLISH
          else None
      | PIVOT_HIGH \<Rightarrow>
          if second_price > first_price \<and> second_oscillator < first_oscillator then Some REGULAR_BEARISH
          else if second_price < first_price \<and> second_oscillator > first_oscillator then Some HIDDEN_BEARISH
          else None)"

definition is_regular :: "DivergenceKind \<Rightarrow> bool" where
  "is_regular kind = (kind = REGULAR_BULLISH \<or> kind = REGULAR_BEARISH)"

text \<open>The body of the loop over the two kinds of pivot.\<close>

definition divergence_signals :: "decimal list \<Rightarrow> Pivot list \<Rightarrow> PivotKind \<Rightarrow> DivergenceSignal list" where
  "divergence_signals oscillator pivots kind =
     (case rev (filter (\<lambda>p. pv_kind p = kind) pivots) of
        second # first # _ \<Rightarrow>
          (let o1 = oscillator ! pv_index first; o2 = oscillator ! pv_index second
           in case divergence_kind kind (pv_price first) (pv_price second) o1 o2 of
                None \<Rightarrow> []
              | Some divergence \<Rightarrow>
                  [\<lparr>ds_kind = divergence, ds_first = first, ds_second = second,
                    ds_first_oscillator = o1, ds_second_oscillator = o2\<rparr>])
      | _ \<Rightarrow> [])"

definition evaluate_divergence ::
  "CompletedOhlcvBar list \<Rightarrow> decimal list \<Rightarrow> PivotConfig option \<Rightarrow> DivergenceFacts result" where
  "evaluate_divergence prices oscillator config =
     and_then (pivot_bars prices) (\<lambda>bars.
       if length oscillator \<noteq> length bars then Inl (ValueError ''oscillator must align with completed bars'')
       else and_then (confirmed_pivots bars (case config of None \<Rightarrow> default_config | Some c \<Rightarrow> c)) (\<lambda>pivots.
         let signals = divergence_signals oscillator pivots PIVOT_LOW @ divergence_signals oscillator pivots PIVOT_HIGH
         in Inr \<lparr>df_observed_at = (if bars = [] then None else Some (bar_timestamp (last bars))),
                 df_regular = filter (\<lambda>s. is_regular (ds_kind s)) signals,
                 df_hidden = filter (\<lambda>s. \<not> is_regular (ds_kind s)) signals\<rparr>))"

lemma divergence_kind_of: "divergence_kind kind p1 p2 o1 o2 = Some d \<Longrightarrow>
   (case d of
      REGULAR_BULLISH \<Rightarrow> kind = PIVOT_LOW \<and> p2 < p1 \<and> o1 < o2
    | HIDDEN_BULLISH \<Rightarrow> kind = PIVOT_LOW \<and> p1 < p2 \<and> o2 < o1
    | REGULAR_BEARISH \<Rightarrow> kind = PIVOT_HIGH \<and> p1 < p2 \<and> o2 < o1
    | HIDDEN_BEARISH \<Rightarrow> kind = PIVOT_HIGH \<and> p2 < p1 \<and> o1 < o2)"
  by (auto simp: divergence_kind_def split: PivotKind.splits if_splits)

lemma divergence_signal_cases:
  assumes "s \<in> set (divergence_signals oscillator pivots kind)"
  shows "\<exists>earlier. filter (\<lambda>p. pv_kind p = kind) pivots = earlier @ [ds_first s, ds_second s]
    \<and> divergence_kind kind (pv_price (ds_first s)) (pv_price (ds_second s)) (ds_first_oscillator s) (ds_second_oscillator s) = Some (ds_kind s)
    \<and> ds_first_oscillator s = oscillator ! pv_index (ds_first s) \<and> ds_second_oscillator s = oscillator ! pv_index (ds_second s)
    \<and> divergence_signals oscillator pivots kind = [s]"
proof -
  define fs where "fs = rev (filter (\<lambda>p. pv_kind p = kind) pivots)"
  have "s \<in> set (divergence_signals oscillator pivots kind) \<Longrightarrow> \<exists>second first rest. fs = second # first # rest"
    unfolding divergence_signals_def fs_def [symmetric] by (auto split: list.splits)
  then obtain second first rest where r: "rev (filter (\<lambda>p. pv_kind p = kind) pivots) = second # first # rest"
    using assms fs_def by metis
  then have "filter (\<lambda>p. pv_kind p = kind) pivots = rev rest @ [first, second]"
    by (metis append.assoc append_Cons append_Nil rev.simps(2) rev_rev_ident)
  then show ?thesis using assms r
    by (cases "divergence_kind kind (pv_price first) (pv_price second) (oscillator ! pv_index first) (oscillator ! pv_index second)")
       (auto simp: divergence_signals_def Let_def)
qed

lemma evaluate_divergence_cases:
  assumes "evaluate_divergence bars oscillator config = Inr d" "s \<in> set (df_regular d)"
  shows "pv_index (ds_first s) < pv_index (ds_second s)" "pv_index (ds_second s) < length bars"
    and "pv_timestamp (ds_first s) = bar_timestamp (bars ! pv_index (ds_first s))"
    and "pv_timestamp (ds_second s) = bar_timestamp (bars ! pv_index (ds_second s))"
    and "case ds_kind s of REGULAR_BULLISH \<Rightarrow> pv_price (ds_second s) = bar_low (bars ! pv_index (ds_second s))
      | _ \<Rightarrow> pv_price (ds_second s) = bar_high (bars ! pv_index (ds_second s))"
    and "ds_kind s = REGULAR_BULLISH \<or> ds_kind s = REGULAR_BEARISH"
proof -
  obtain config' ps where ps: "confirmed_pivots bars config' = Inr ps"
    and d: "df_regular d = filter (\<lambda>s. is_regular (ds_kind s))
      (divergence_signals oscillator ps PIVOT_LOW @ divergence_signals oscillator ps PIVOT_HIGH)"
    using assms(1) by (auto simp: evaluate_divergence_def and_then_eq_Inr_iff pivot_bars_def Let_def split: if_splits)
  then have s: "is_regular (ds_kind s)" "\<exists>kind. s \<in> set (divergence_signals oscillator ps kind)"
    using assms(2) by auto
  then obtain kind where k: "s \<in> set (divergence_signals oscillator ps kind)" by blast
  obtain earlier where e: "filter (\<lambda>p. pv_kind p = kind) ps = earlier @ [ds_first s, ds_second s]"
    "divergence_kind kind (pv_price (ds_first s)) (pv_price (ds_second s)) (ds_first_oscillator s) (ds_second_oscillator s) = Some (ds_kind s)"
    using divergence_signal_cases [OF k] by blast
  note l = last_two_pivots [OF ps e(1)]
  show "pv_index (ds_first s) < pv_index (ds_second s)" "pv_index (ds_second s) < length bars" by (rule l)+
  show "pv_timestamp (ds_first s) = bar_timestamp (bars ! pv_index (ds_first s))"
    by (subst l(3)) (simp add: pivot_at_def)
  show "pv_timestamp (ds_second s) = bar_timestamp (bars ! pv_index (ds_second s))"
    by (subst l(4)) (simp add: pivot_at_def)
  show "ds_kind s = REGULAR_BULLISH \<or> ds_kind s = REGULAR_BEARISH" using s(1) by (simp add: is_regular_def)
  have "pv_price (ds_second s) = (if kind = PIVOT_HIGH then bar_high (bars ! pv_index (ds_second s)) else bar_low (bars ! pv_index (ds_second s)))"
    by (subst l(4)) (simp add: pivot_at_def)
  then show "case ds_kind s of REGULAR_BULLISH \<Rightarrow> pv_price (ds_second s) = bar_low (bars ! pv_index (ds_second s))
      | _ \<Rightarrow> pv_price (ds_second s) = bar_high (bars ! pv_index (ds_second s))"
    using divergence_kind_of [OF e(2)] s(1) by (auto simp: is_regular_def split: DivergenceKind.splits)
qed

section \<open>Witness\<close>

definition swing_bar :: "instant \<Rightarrow> decimal \<Rightarrow> CompletedOhlcvBar" where
  "swing_bar t mid =
     \<lparr>bar_timestamp = t, bar_open = mid, bar_high = mid + 2, bar_low = mid - 2, bar_close = mid, bar_volume = 5\<rparr>"

theorem pivots_do_not_repaint_witness:
  "\<exists>ps qs. confirmed_pivots ([swing_bar 0 50, swing_bar 60 60, swing_bar 120 40, swing_bar 180 55] @ [swing_bar 240 30])
        \<lparr>pc_left = 1, pc_right = 1\<rparr> = Inr ps
    \<and> confirmed_pivots [swing_bar 0 50, swing_bar 60 60, swing_bar 120 40, swing_bar 180 55]
        \<lparr>pc_left = 1, pc_right = 1\<rparr> = Inr qs
    \<and> length ps = 3 \<and> length qs = 2"
proof -
  let ?bars = "[swing_bar 0 50, swing_bar 60 60, swing_bar 120 40, swing_bar 180 55]"
  let ?config = "\<lparr>pc_left = 1, pc_right = 1\<rparr>"
  have "case confirmed_pivots (?bars @ [swing_bar 240 30]) ?config of Inl _ \<Rightarrow> False
    | Inr ps \<Rightarrow> length ps = 3 \<and> length (filter (\<lambda>p. pv_confirmation_index p < length ?bars) ps) = 2"
    by code_simp
  then obtain ps where ps: "confirmed_pivots (?bars @ [swing_bar 240 30]) ?config = Inr ps" "length ps = 3"
    "length (filter (\<lambda>p. pv_confirmation_index p < length ?bars) ps) = 2"
    by (auto simp del: list.size split: sum.splits)
  show ?thesis using pivots_do_not_repaint [OF ps(1)] ps by blast
qed

end
