(* ===== verification/Zones.thy ===== *)
theory Zones
  imports Pivots
begin

text \<open>
  \<^verbatim>\<open>strategies/david_v6/zones.py\<close> and \<^verbatim>\<open>strategies/david_v6/exhaustion.py\<close>: the price zones the
  market turned at, and the exhaustion sequences that end inside one. The time zone database is a
  parameter. Shown: the zones of a history are disjoint levels in ascending order, each touched at three
  moments at least, and an exhaustion sequence is the longest run at the end of the pivots in which every
  pivot extends the price on less volume.
\<close>

section \<open>Zones\<close>

definition FIVE_MINUTES :: timedelta where "FIVE_MINUTES = 300000000"
definition MINIMUM_DISTINCT_TOUCHES :: nat where "MINIMUM_DISTINCT_TOUCHES = 3"
definition ALL_TIME_HIGH_DATES :: nat where "ALL_TIME_HIGH_DATES = 3"
definition ORDINARY_DATES :: nat where "ORDINARY_DATES = 10"

type_synonym zone_database = "string \<Rightarrow> (instant \<Rightarrow> int) option"

text \<open>\<^verbatim>\<open>_zone_info\<close>: the local date of an instant in a named zone.\<close>

definition zone_info :: "zone_database \<Rightarrow> string \<Rightarrow> (instant \<Rightarrow> int) result" where
  "zone_info zone name =
     (if \<not> trimmed_text name then Inl (ValueError ''source_timezone must be an IANA timezone'')
      else case zone name of
             None \<Rightarrow> Inl (ValueError ''source_timezone must be an IANA timezone'')
           | Some local_date \<Rightarrow> Inr local_date)"

record HlitZone =
  hz_lower_boundary :: decimal
  hz_upper_boundary :: decimal
  hz_touch_count :: nat
  hz_strength :: nat
  hz_touched_at :: "instant list"

definition HlitZone_checks :: "HlitZone \<Rightarrow> checks" where
  "HlitZone_checks z =
     [(hz_lower_boundary z > hz_upper_boundary z, ValueError ''zone boundaries must be ordered finite Decimals''),
      (hz_touch_count z < 1, ValueError ''touch_count must be positive''),
      (hz_strength z \<noteq> min (hz_touch_count z) 5, ValueError ''zone strength must cap distinct touches at five''),
      (length (hz_touched_at z) \<noteq> hz_touch_count z
         \<or> list_ex (\<lambda>(earlier, later). later \<le> earlier) (pairwise (hz_touched_at z)),
       ValueError ''zone touches must be unique ascending timestamps'')]"

record ZoneFacts =
  zf_observed_at :: instant
  zf_source_timezone :: string
  zf_selected_dates :: "int list"
  zf_bin_count :: nat
  zf_zones :: "HlitZone list"

text \<open>\<^verbatim>\<open>_observations\<close>: the swing pivots and every open and close, each with its moment.\<close>

definition observations :: "CompletedOhlcvBar list \<Rightarrow> (instant \<times> decimal) list result" where
  "observations selected =
     and_then (confirmed_pivots selected default_config) (\<lambda>pivots.
       Inr (map (\<lambda>p. (pv_timestamp p, pv_price p)) pivots
            @ concat (map (\<lambda>b. [(bar_timestamp b, bar_open b), (bar_timestamp b, bar_close b)]) selected)))"

definition at_observed_all_time_high :: "CompletedOhlcvBar list \<Rightarrow> bool" where
  "at_observed_all_time_high values =
     (values \<noteq> [] \<and> Max (set (map bar_high values)) \<le> bar_close (last values))"

text \<open>The loop of \<^verbatim>\<open>_cube_root_ceiling\<close>.\<close>

function cube_root_from :: "nat \<Rightarrow> nat \<Rightarrow> nat" where
  "cube_root_from candidate target =
     (if candidate ^ 3 < target then cube_root_from (candidate + 1) target else candidate)"
  by pat_completeness auto
termination
proof (relation "measure (\<lambda>(candidate, target). target - candidate)")
  fix candidate target :: nat
  assume "candidate ^ 3 < target"
  moreover have "candidate \<le> candidate ^ 3" by (cases candidate) (simp_all add: self_le_power)
  ultimately show "((candidate + 1, target), (candidate, target)) \<in> measure (\<lambda>(candidate, target). target - candidate)"
    by simp
qed simp

declare cube_root_from.simps [simp del]

definition cube_root_ceiling :: "nat \<Rightarrow> nat" where
  "cube_root_ceiling target = cube_root_from 1 target"

definition bin_index :: "decimal \<Rightarrow> decimal \<Rightarrow> decimal \<Rightarrow> nat \<Rightarrow> int" where
  "bin_index minimum width target bin_count =
     min \<lfloor>(target - minimum) * of_nat bin_count / width\<rfloor> (int bin_count - 1)"

text \<open>One bin of marks as a zone, when it was touched at enough distinct moments.\<close>

definition zone_of_bin :: "(instant \<times> decimal) list \<Rightarrow> HlitZone option" where
  "zone_of_bin marks =
     (let touches = remdups (map fst marks)
      in if length touches < MINIMUM_DISTINCT_TOUCHES then None
         else Some \<lparr>hz_lower_boundary = Min (set (map snd marks)), hz_upper_boundary = Max (set (map snd marks)),
                    hz_touch_count = length touches, hz_strength = min (length touches) 5,
                    hz_touched_at = sort touches\<rparr>)"

definition zones_of_marks :: "(instant \<times> decimal) list \<Rightarrow> nat \<Rightarrow> HlitZone list" where
  "zones_of_marks marks bin_count =
     (let prices = map snd marks; minimum = Min (set prices); width = Max (set prices) - minimum
      in List.map_filter
           (\<lambda>k. zone_of_bin (filter (\<lambda>(_, price). bin_index minimum width price bin_count = int k) marks))
           [0 ..< bin_count])"

text \<open>The dictionary of bars by local date: its keys in the order of their first bar, and its values.\<close>

definition first_seen :: "'a list \<Rightarrow> 'a list" where
  "first_seen xs = rev (remdups (rev xs))"

definition bars_on :: "(instant \<Rightarrow> int) \<Rightarrow> CompletedOhlcvBar list \<Rightarrow> int \<Rightarrow> CompletedOhlcvBar list" where
  "bars_on local_date values day = filter (\<lambda>b. local_date (bar_timestamp b) = day) values"

definition build_hlit_zones :: "zone_database \<Rightarrow> CompletedOhlcvBar list \<Rightarrow> string \<Rightarrow> ZoneFacts result" where
  "build_hlit_zones zone values source_timezone =
     (if values = [] then Inl (ValueError ''zones require completed OHLCV bars'')
      else if \<not> ascending_bars values then Inl (ValueError ''zone bars must be strictly ascending'')
      else and_then (zone_info zone source_timezone) (\<lambda>local_date.
        let ordered_dates = first_seen (map (\<lambda>b. local_date (bar_timestamp b)) values)
        in if list_ex (\<lambda>day. list_ex (\<lambda>(earlier, later). bar_timestamp later - bar_timestamp earlier \<noteq> FIVE_MINUTES)
                (pairwise (bars_on local_date values day))) ordered_dates
           then Inl (ValueError ''zone evidence must be contiguous five-minute bars'')
           else let required_dates = (if at_observed_all_time_high values then ALL_TIME_HIGH_DATES else ORDINARY_DATES);
                    selected_dates = last_n required_dates ordered_dates;
                    selected = concat (map (bars_on local_date values) selected_dates)
                in and_then (observations selected) (\<lambda>marks.
                     let prices = set (map snd marks); bin_count = cube_root_ceiling (length marks)
                     in Inr \<lparr>zf_observed_at = bar_timestamp (last values), zf_source_timezone = source_timezone,
                             zf_selected_dates = selected_dates, zf_bin_count = bin_count,
                             zf_zones = (if length ordered_dates < required_dates \<or> Min prices = Max prices then []
                                         else zones_of_marks marks bin_count)\<rparr>)))"

subsection \<open>Zones are disjoint levels\<close>

lemma cube_root_from_least:
  assumes "\<forall>c. 1 \<le> c \<and> c < candidate \<longrightarrow> c ^ 3 < target" "1 \<le> candidate"
  shows "target \<le> cube_root_from candidate target ^ 3 \<and> 1 \<le> cube_root_from candidate target
    \<and> (\<forall>c. 1 \<le> c \<and> c < cube_root_from candidate target \<longrightarrow> c ^ 3 < target)"
  using assms
proof (induction candidate target rule: cube_root_from.induct)
  case (1 candidate target)
  show ?case
  proof (cases "candidate ^ 3 < target")
    case True
    then have "\<forall>c. 1 \<le> c \<and> c < candidate + 1 \<longrightarrow> c ^ 3 < target"
      using 1(2) by (auto simp: less_Suc_eq)
    from 1(1) [OF True this] True show ?thesis by (subst (1 2 3) cube_root_from.simps) simp
  next
    case False
    then show ?thesis using 1(2,3) by (subst (1 2 3) cube_root_from.simps) simp
  qed
qed

lemma cube_root_ceiling_least:
  "target \<le> cube_root_ceiling target ^ 3 \<and> (\<forall>c. 1 \<le> c \<and> c < cube_root_ceiling target \<longrightarrow> c ^ 3 < target)"
  unfolding cube_root_ceiling_def by (rule cube_root_from_least [THEN conjunct1, THEN conjI]) (use cube_root_from_least [of 1 target] in auto)

lemma bin_index_mono:
  assumes "0 < width" "x \<le> y"
  shows "bin_index minimum width x n \<le> bin_index minimum width y n"
proof -
  have "(x - minimum) * of_nat n / width \<le> (y - minimum) * of_nat n / width"
    using assms by (intro divide_right_mono mult_right_mono) auto
  then show ?thesis unfolding bin_index_def by (intro min.mono floor_mono) auto
qed

lemma Min_le_Max: "finite A \<Longrightarrow> A \<noteq> {} \<Longrightarrow> Min A \<le> Max A"
  by (meson Max_ge Min_in)

lemma zone_of_bin_Some:
  assumes "zone_of_bin marks = Some z"
  shows "hz_lower_boundary z \<in> snd ` set marks" "hz_upper_boundary z \<in> snd ` set marks"
    "hz_lower_boundary z \<le> hz_upper_boundary z" "3 \<le> hz_touch_count z" "hz_strength z = min (hz_touch_count z) 5"
    "length (hz_touched_at z) = hz_touch_count z" "sorted (hz_touched_at z)" "distinct (hz_touched_at z)"
    "set (hz_touched_at z) = fst ` set marks"
proof -
  have z: "3 \<le> length (remdups (map fst marks))"
    "z = \<lparr>hz_lower_boundary = Min (set (map snd marks)), hz_upper_boundary = Max (set (map snd marks)),
          hz_touch_count = length (remdups (map fst marks)), hz_strength = min (length (remdups (map fst marks))) 5,
          hz_touched_at = sort (remdups (map fst marks))\<rparr>"
    using assms by (auto simp: zone_of_bin_def Let_def MINIMUM_DISTINCT_TOUCHES_def not_less split: if_splits)
  then have ne: "marks \<noteq> []" by auto
  then show "hz_lower_boundary z \<in> snd ` set marks" "hz_upper_boundary z \<in> snd ` set marks"
    using Min_in [of "set (map snd marks)"] Max_in [of "set (map snd marks)"] by (simp_all add: z(2))
  show "hz_lower_boundary z \<le> hz_upper_boundary z" using ne Min_le_Max [of "set (map snd marks)"] by (simp add: z(2))
  show "3 \<le> hz_touch_count z" "hz_strength z = min (hz_touch_count z) 5"
    "length (hz_touched_at z) = hz_touch_count z" "sorted (hz_touched_at z)" "distinct (hz_touched_at z)"
    "set (hz_touched_at z) = fst ` set marks"
    using z(1) by (simp_all add: z(2))
qed

lemma sorted_wrt_map_filter_upt:
  assumes "\<And>i j a b. i < j \<Longrightarrow> j < n \<Longrightarrow> f i = Some a \<Longrightarrow> f j = Some b \<Longrightarrow> R a b"
  shows "sorted_wrt R (List.map_filter f [m ..< n])"
  using assms
proof (induction n)
  case (Suc n)
  have s: "sorted_wrt R (List.map_filter f [m ..< n])" using Suc by simp
  show ?case
  proof (cases "m \<le> n")
    case True
    then show ?thesis using s Suc.prems
      by (cases "f n") (auto simp: sorted_wrt_append List.map_filter_def)
  qed simp
qed simp

lemma length_map_filter_le: "length (List.map_filter f xs) \<le> length xs"
  by (simp add: List.map_filter_def)

lemma zones_of_marks_sound:
  assumes "Min (set (map snd marks)) \<noteq> Max (set (map snd marks))" "marks \<noteq> []"
  shows "sorted_wrt (\<lambda>a b. hz_upper_boundary a < hz_lower_boundary b) (zones_of_marks marks n)"
    and "\<And>z. z \<in> set (zones_of_marks marks n) \<Longrightarrow> \<exists>bin. zone_of_bin bin = Some z \<and> set bin \<subseteq> set marks"
    and "length (zones_of_marks marks n) \<le> n"
proof -
  let ?min = "Min (set (map snd marks))" and ?width = "Max (set (map snd marks)) - Min (set (map snd marks))"
  let ?bin = "\<lambda>k. filter (\<lambda>(_, price). bin_index ?min ?width price n = int k) marks"
  have "?min \<le> Max (set (map snd marks))" using assms(2) by (intro Min_le_Max) auto
  then have width: "0 < ?width" using assms(1) by simp
  show "sorted_wrt (\<lambda>a b. hz_upper_boundary a < hz_lower_boundary b) (zones_of_marks marks n)"
    unfolding zones_of_marks_def Let_def
  proof (rule sorted_wrt_map_filter_upt)
    fix i j a b
    assume ij: "i < j" "j < n" "zone_of_bin (?bin i) = Some a" "zone_of_bin (?bin j) = Some b"
    have "bin_index ?min ?width (hz_upper_boundary a) n = int i" "bin_index ?min ?width (hz_lower_boundary b) n = int j"
      using zone_of_bin_Some(2) [OF ij(3)] zone_of_bin_Some(1) [OF ij(4)] by auto
    then show "hz_upper_boundary a < hz_lower_boundary b"
      using bin_index_mono [OF width, of "hz_lower_boundary b" "hz_upper_boundary a" ?min n] ij(1) by linarith
  qed
  show "\<exists>bin. zone_of_bin bin = Some z \<and> set bin \<subseteq> set marks" if m: "z \<in> set (zones_of_marks marks n)" for z
  proof -
    obtain k where "zone_of_bin (?bin k) = Some z"
      using m unfolding zones_of_marks_def Let_def List.map_filter_def by auto
    then show ?thesis by (intro exI [of _ "?bin k"]) auto
  qed
  show "length (zones_of_marks marks n) \<le> n"
    unfolding zones_of_marks_def Let_def using length_map_filter_le [of _ "[0 ..< n]"] by simp
qed

lemma build_zones_cases:
  assumes "build_hlit_zones zone values tz = Inr f"
  obtains (none) "zf_zones f = []"
  | (some) selected marks where "observations selected = Inr marks" "set selected \<subseteq> set values"
      "Min (set (map snd marks)) \<noteq> Max (set (map snd marks))"
      "zf_bin_count f = cube_root_ceiling (length marks)" "zf_zones f = zones_of_marks marks (zf_bin_count f)"
proof (cases "zf_zones f = []")
  case False
  let ?sel = "\<lambda>local_date dates. concat (map (bars_on local_date values) dates)"
  from assms False obtain local_date dates marks where m: "observations (?sel local_date dates) = Inr marks"
      "Min (set (map snd marks)) \<noteq> Max (set (map snd marks))"
      "zf_bin_count f = cube_root_ceiling (length marks)" "zf_zones f = zones_of_marks marks (zf_bin_count f)"
    by (auto simp: build_hlit_zones_def and_then_eq_Inr_iff Let_def split: if_splits)
  have "set (?sel local_date dates) \<subseteq> set values" by (auto simp: bars_on_def)
  then show ?thesis using that(2) m by blast
qed

lemma observations_are_prices:
  assumes "observations selected = Inr marks" "(moment, price) \<in> set marks"
  shows "\<exists>b \<in> set selected. moment = bar_timestamp b \<and> price \<in> {bar_high b, bar_low b, bar_open b, bar_close b}"
proof -
  obtain ps where ps: "confirmed_pivots selected default_config = Inr ps"
    "marks = map (\<lambda>p. (pv_timestamp p, pv_price p)) ps
       @ concat (map (\<lambda>b. [(bar_timestamp b, bar_open b), (bar_timestamp b, bar_close b)]) selected)"
    using assms(1) by (auto simp: observations_def and_then_eq_Inr_iff)
  show ?thesis
  proof (cases "(moment, price) \<in> (\<lambda>p. (pv_timestamp p, pv_price p)) ` set ps")
    case True
    then obtain p where p: "p \<in> set ps" "moment = pv_timestamp p" "price = pv_price p" by auto
    obtain i kind where "i < length selected" "p = pivot_at selected 0 i kind"
      using in_confirmed_pivots [OF ps(1), of p] p(1) by (auto simp: default_config_def)
    then show ?thesis using p by (intro bexI [of _ "selected ! i"]) (auto simp: pivot_at_def)
  next
    case False
    then show ?thesis using assms(2) ps(2) by auto
  qed
qed

definition traded_prices :: "CompletedOhlcvBar list \<Rightarrow> decimal set" where
  "traded_prices values = (\<Union>b \<in> set values. {bar_high b, bar_low b, bar_open b, bar_close b})"

text \<open>Zones are levels. The zones of a history are disjoint and in ascending order; both boundaries of a
  zone are prices the history traded at; each zone was touched at three distinct moments at least, listed in
  order, and its strength is the number of touches capped at five; and there are at most as many zones as the
  least integer whose cube reaches the number of observations.\<close>

theorem zones_are_disjoint_levels:
  assumes "build_hlit_zones zone values tz = Inr f"
  shows "sorted_wrt (\<lambda>a b. hz_upper_boundary a < hz_lower_boundary b) (zf_zones f)
    \<and> length (zf_zones f) \<le> zf_bin_count f
    \<and> (\<forall>z \<in> set (zf_zones f). first_error (HlitZone_checks z) = None \<and> 3 \<le> hz_touch_count z
        \<and> sorted_wrt (<) (hz_touched_at z)
        \<and> {hz_lower_boundary z, hz_upper_boundary z} \<subseteq> traded_prices values)"
  using assms
proof (cases rule: build_zones_cases)
  case (some selected marks)
  show ?thesis
  proof (cases "marks = []")
    case True
    then have "zf_zones f = []"
      by (simp add: some(5) zones_of_marks_def zone_of_bin_def MINIMUM_DISTINCT_TOUCHES_def List.map_filter_def)
    then show ?thesis by simp
  next
    case ne: False
  note s = zones_of_marks_sound(1,3) [OF some(3) ne, of "zf_bin_count f", folded some(5)]
    zones_of_marks_sound(2) [OF some(3) ne, where n = "zf_bin_count f", folded some(5)]
  have prices: "snd ` set marks \<subseteq> traded_prices values"
    using observations_are_prices [OF some(1)] some(2) by (force simp: traded_prices_def)
  have "first_error (HlitZone_checks z) = None \<and> 3 \<le> hz_touch_count z \<and> sorted_wrt (<) (hz_touched_at z)
      \<and> {hz_lower_boundary z, hz_upper_boundary z} \<subseteq> traded_prices values"
    if m: "z \<in> set (zf_zones f)" for z
  proof -
    obtain bin where bin: "zone_of_bin bin = Some z" "set bin \<subseteq> set marks" using s(3) m by blast
    note b = zone_of_bin_Some [OF bin(1)]
    have strict: "sorted_wrt (<) (hz_touched_at z)" using b(7,8) by (simp add: strict_sorted_iff)
    then have "list_all (\<lambda>(earlier, later). earlier < later) (pairwise (hz_touched_at z))"
      by (simp add: pairwise_all_iff sorted_wrt_iff_nth_Suc_transp)
    then have "\<not> list_ex (\<lambda>(earlier, later). later \<le> earlier) (pairwise (hz_touched_at z))"
      by (auto simp: list_ex_iff list_all_iff)
    moreover have "{hz_lower_boundary z, hz_upper_boundary z} \<subseteq> traded_prices values"
      using b(1,2) image_mono [OF bin(2), of snd] prices by blast
    ultimately show ?thesis using b(3-6) strict by (simp add: HlitZone_checks_def not_less)
  qed
  then show ?thesis using s by blast
  qed
qed simp

section \<open>Exhaustion\<close>

record ExhaustionSequence =
  es_direction :: Side
  es_confirmed :: bool
  es_research_only :: bool
  es_history :: "Pivot list"
  es_evaluation_pivots :: "Pivot list"
  es_structural_reference_price :: decimal
  es_confirmed_at :: instant

record ExhaustionFacts =
  ef_observed_at :: "instant option"
  ef_bullish :: "ExhaustionSequence option"
  ef_bearish :: "ExhaustionSequence option"

definition pivot_matches_bar :: "CompletedOhlcvBar list \<Rightarrow> Pivot \<Rightarrow> checks" where
  "pivot_matches_bar bars p =
     [(length bars \<le> pv_index p \<or> length bars \<le> pv_confirmation_index p
         \<or> pv_timestamp p \<noteq> bar_timestamp (bars ! pv_index p),
       ValueError ''pivot does not match completed bar history''),
      (pv_price p \<noteq> (if pv_kind p = PIVOT_LOW then bar_low (bars ! pv_index p) else bar_high (bars ! pv_index p)),
       ValueError ''pivot price does not match completed bar'')]"

definition inside_zone :: "decimal \<Rightarrow> ZoneFacts \<Rightarrow> bool" where
  "inside_zone price facts =
     list_ex (\<lambda>z. hz_lower_boundary z \<le> price \<and> price \<le> hz_upper_boundary z) (zf_zones facts)"

text \<open>One pivot continues the sequence of another: it extends the price, on less volume.\<close>

definition continues :: "CompletedOhlcvBar list \<Rightarrow> PivotKind \<Rightarrow> Pivot \<Rightarrow> Pivot \<Rightarrow> bool" where
  "continues bars kind previous current =
     ((if kind = PIVOT_LOW then pv_price current < pv_price previous else pv_price current > pv_price previous)
      \<and> bar_volume (bars ! pv_index current) < bar_volume (bars ! pv_index previous))"

definition select_pivots :: "Pivot list \<Rightarrow> PivotKind \<Rightarrow> Pivot list" where
  "select_pivots pivots kind = sort_key pv_index (filter (\<lambda>p. pv_confirmed p \<and> pv_kind p = kind) pivots)"

text \<open>The loop of \<^verbatim>\<open>_sequence\<close>: a pivot that does not continue the history starts a new one.\<close>

definition history_of :: "('a \<Rightarrow> 'a \<Rightarrow> bool) \<Rightarrow> 'a list \<Rightarrow> 'a list" where
  "history_of continue selected =
     foldl (\<lambda>history (previous, current). if continue previous current then history @ [current] else [current])
       [hd selected] (pairwise selected)"

definition exhaustion_sequence ::
  "CompletedOhlcvBar list \<Rightarrow> ZoneFacts \<Rightarrow> Pivot list \<Rightarrow> PivotKind \<Rightarrow> ExhaustionSequence option" where
  "exhaustion_sequence bars zones pivots kind =
     (let selected = select_pivots pivots kind
      in if length selected < 2 then None
         else let history = history_of (continues bars kind) selected
              in if length history < 2 \<or> \<not> inside_zone (pv_price (last history)) zones then None
                 else let confirmed = (3 \<le> length history)
                      in Some \<lparr>es_direction = (if kind = PIVOT_LOW then BUY else SELL), es_confirmed = confirmed,
                               es_research_only = (\<not> confirmed), es_history = history,
                               es_evaluation_pivots = last_n 4 history,
                               es_structural_reference_price = pv_price (last history),
                               es_confirmed_at = bar_timestamp (bars ! pv_confirmation_index (last history))\<rparr>)"

definition evaluate_exhaustion ::
  "CompletedOhlcvBar list \<Rightarrow> ZoneFacts \<Rightarrow> Pivot list \<Rightarrow> ExhaustionFacts result" where
  "evaluate_exhaustion bars zones pivots =
     (if \<not> ascending_bars bars then Inl (ValueError ''exhaustion bars must be strictly ascending'')
      else validated (concat (map (pivot_matches_bar bars) pivots))
        \<lparr>ef_observed_at = (if bars = [] then None else Some (bar_timestamp (last bars))),
         ef_bullish = exhaustion_sequence bars zones pivots PIVOT_LOW,
         ef_bearish = exhaustion_sequence bars zones pivots PIVOT_HIGH\<rparr>)"

subsection \<open>The history is the longest run at the end\<close>

lemma pairwise_snoc: "xs \<noteq> [] \<Longrightarrow> pairwise (xs @ [y]) = pairwise xs @ [(last xs, y)]"
  by (induction xs rule: induct_list012) simp_all

lemma history_of_simps:
  "history_of R [x] = [x]"
  "xs \<noteq> [] \<Longrightarrow> history_of R (xs @ [y]) = (if R (last xs) y then history_of R xs @ [y] else [y])"
  by (simp_all add: history_of_def pairwise_snoc hd_append)

definition run_of :: "('a \<Rightarrow> 'a \<Rightarrow> bool) \<Rightarrow> 'a list \<Rightarrow> bool" where
  "run_of R xs \<longleftrightarrow> list_all (\<lambda>(x, y). R x y) (pairwise xs)"

lemma run_of_snoc: "xs \<noteq> [] \<Longrightarrow> run_of R (xs @ [y]) \<longleftrightarrow> run_of R xs \<and> R (last xs) y"
  by (simp add: run_of_def pairwise_snoc)

lemma history_is_longest_run:
  assumes "xs \<noteq> []"
  shows "\<exists>earlier. xs = earlier @ history_of R xs \<and> history_of R xs \<noteq> [] \<and> run_of R (history_of R xs)
    \<and> (earlier \<noteq> [] \<longrightarrow> \<not> R (last earlier) (hd (history_of R xs)))"
  using assms
proof (induction xs rule: rev_nonempty_induct)
  case (single x)
  then show ?case by (simp add: history_of_simps run_of_def)
next
  case (snoc y xs)
  then obtain earlier where e: "xs = earlier @ history_of R xs" "history_of R xs \<noteq> []" "run_of R (history_of R xs)"
    "earlier \<noteq> [] \<longrightarrow> \<not> R (last earlier) (hd (history_of R xs))"
    by blast
  show ?case
  proof (cases "R (last xs) y")
    case True
    have "last xs = last (history_of R xs)" using e(1,2) by (metis last_append)
    then have "run_of R (history_of R xs @ [y])" using e(2,3) True by (simp add: run_of_snoc)
    moreover have "history_of R (xs @ [y]) = history_of R xs @ [y]" using True snoc(1) by (simp add: history_of_simps)
    moreover have "xs @ [y] = earlier @ (history_of R xs @ [y])" using e(1) by (metis append.assoc)
    ultimately show ?thesis using e(2,4) by (metis append_is_Nil_conv hd_append2)
  next
    case False
    then show ?thesis using snoc(1) by (intro exI [of _ xs]) (simp add: history_of_simps run_of_def)
  qed
qed

text \<open>What an exhaustion sequence is. Its history is the longest run at the end of the confirmed pivots of
  its kind in which each pivot extends the price of the one before on less volume; it has two pivots at
  least and is confirmed exactly when it has three; its last pivot lies inside a marked zone and is the
  structural reference.\<close>

theorem exhaustion_is_longest_run:
  assumes "exhaustion_sequence bars zones pivots kind = Some q"
  shows "(\<exists>earlier. select_pivots pivots kind = earlier @ es_history q
        \<and> (earlier \<noteq> [] \<longrightarrow> \<not> continues bars kind (last earlier) (hd (es_history q))))
    \<and> run_of (continues bars kind) (es_history q)
    \<and> 2 \<le> length (es_history q)
    \<and> (es_confirmed q \<longleftrightarrow> 3 \<le> length (es_history q)) \<and> (es_research_only q \<longleftrightarrow> \<not> es_confirmed q)
    \<and> (\<exists>z \<in> set (zf_zones zones). hz_lower_boundary z \<le> es_structural_reference_price q
        \<and> es_structural_reference_price q \<le> hz_upper_boundary z)
    \<and> es_structural_reference_price q = pv_price (last (es_history q))
    \<and> (es_direction q = BUY \<longleftrightarrow> kind = PIVOT_LOW)"
proof -
  let ?sel = "select_pivots pivots kind"
  have q: "2 \<le> length ?sel" "es_history q = history_of (continues bars kind) ?sel" "2 \<le> length (es_history q)"
    "inside_zone (pv_price (last (es_history q))) zones" "es_confirmed q \<longleftrightarrow> 3 \<le> length (es_history q)"
    "es_research_only q \<longleftrightarrow> \<not> es_confirmed q" "es_structural_reference_price q = pv_price (last (es_history q))"
    "es_direction q = BUY \<longleftrightarrow> kind = PIVOT_LOW"
    using assms by (auto simp: exhaustion_sequence_def Let_def not_less split: if_splits)
  have "?sel \<noteq> []" using q(1) by auto
  from history_is_longest_run [OF this, of "continues bars kind", folded q(2)]
  show ?thesis using q(3-8) by (auto simp: inside_zone_def list_ex_iff)
qed

section \<open>Witnesses\<close>

definition day_zone :: zone_database where
  "day_zone name = (if name = ''UTC'' then Some (\<lambda>t. t div 86400000000) else None)"

definition flat_bar :: "instant \<Rightarrow> decimal \<Rightarrow> decimal \<Rightarrow> CompletedOhlcvBar" where
  "flat_bar t price volume =
     \<lparr>bar_timestamp = t, bar_open = price, bar_high = price, bar_low = price, bar_close = price, bar_volume = volume\<rparr>"

definition sample_history :: "CompletedOhlcvBar list" where
  "sample_history = [flat_bar 0 100 9, flat_bar FIVE_MINUTES 101 8, flat_bar 86400000000 102 7, flat_bar 172800000000 200 6]"

theorem zones_are_disjoint_levels_witness:
  "\<exists>f z. build_hlit_zones day_zone sample_history ''UTC'' = Inr f \<and> zf_zones f = [z]
    \<and> 3 \<le> hz_touch_count z \<and> sorted_wrt (<) (hz_touched_at z) \<and> hz_upper_boundary z \<in> traded_prices sample_history"
proof -
  have "case build_hlit_zones day_zone sample_history ''UTC'' of Inl _ \<Rightarrow> False | Inr f \<Rightarrow> length (zf_zones f) = 1"
    by code_simp
  then obtain f where f: "build_hlit_zones day_zone sample_history ''UTC'' = Inr f" "length (zf_zones f) = 1"
    by (auto split: sum.splits)
  then obtain z where "zf_zones f = [z]" by (auto simp: length_Suc_conv)
  then show ?thesis using zones_are_disjoint_levels [OF f(1)] f(1) by auto
qed

theorem exhaustion_is_longest_run_witness:
  "\<exists>q. exhaustion_sequence [flat_bar 0 103 9, flat_bar 60 102 8, flat_bar 120 101 7]
        \<lparr>zf_observed_at = 0, zf_source_timezone = ''UTC'', zf_selected_dates = [], zf_bin_count = 1,
         zf_zones = [\<lparr>hz_lower_boundary = 100, hz_upper_boundary = 102, hz_touch_count = 3, hz_strength = 3,
                      hz_touched_at = [0, 60, 120]\<rparr>]\<rparr>
        (map (\<lambda>i. pivot_at [flat_bar 0 103 9, flat_bar 60 102 8, flat_bar 120 101 7] 0 i PIVOT_LOW) [0, 1, 2])
        PIVOT_LOW = Some q
    \<and> es_confirmed q \<and> es_structural_reference_price q = 101 \<and> es_direction q = BUY"
proof -
  let ?bars = "[flat_bar 0 103 9, flat_bar 60 102 8, flat_bar 120 101 7]"
  let ?zones = "\<lparr>zf_observed_at = 0, zf_source_timezone = ''UTC'', zf_selected_dates = [], zf_bin_count = 1,
         zf_zones = [\<lparr>hz_lower_boundary = 100, hz_upper_boundary = 102, hz_touch_count = 3, hz_strength = 3,
                      hz_touched_at = [0, 60, 120]\<rparr>]\<rparr>"
  let ?q = "exhaustion_sequence ?bars ?zones (map (\<lambda>i. pivot_at ?bars 0 i PIVOT_LOW) [0, 1, 2]) PIVOT_LOW"
  have "case ?q of None \<Rightarrow> False | Some q \<Rightarrow> length (es_history q) = 3 \<and> pv_price (last (es_history q)) = 101"
    by code_simp
  then obtain q where q: "?q = Some q" "length (es_history q) = 3" "pv_price (last (es_history q)) = 101"
    by (auto split: option.splits)
  show ?thesis using exhaustion_is_longest_run [OF q(1)] q by auto
qed

end
