(* ===== verification/Evidence.thy ===== *)
theory Evidence
  imports Zones
begin

text \<open>
  The evidence items of \<^verbatim>\<open>strategies/david_v6/evidence.py\<close>: a value with its provenance, or the
  reason it is missing. The bundle that joins the items is in the theory of the engine. Shown: an item
  carries a value exactly when it is available.
\<close>

definition single_line_text :: "string \<Rightarrow> bool" where
  "single_line_text s \<longleftrightarrow> trimmed_text s \<and> CHR 0x0D \<notin> set s \<and> CHR 0x0A \<notin> set s"

definition is_sha256_hex :: "string \<Rightarrow> bool" where
  "is_sha256_hex s \<longleftrightarrow> length s = 64 \<and> set s \<subseteq> set ''0123456789abcdef''"

record EvidenceProvenance =
  ep_source :: string
  ep_source_key :: string
  ep_source_timezone :: string
  ep_observed_at :: instant
  ep_captured_at :: instant
  ep_digest_sha256 :: string

text \<open>\<^verbatim>\<open>EvidenceProvenance.__post_init__\<close>; both times are instants already.\<close>

definition EvidenceProvenance_checks :: "zone_database \<Rightarrow> EvidenceProvenance \<Rightarrow> checks" where
  "EvidenceProvenance_checks zone p =
     [(\<not> single_line_text (ep_source p), ValueError ''source must be non-empty single-line text''),
      (\<not> single_line_text (ep_source_key p), ValueError ''source_key must be non-empty single-line text''),
      (\<not> single_line_text (ep_source_timezone p), ValueError ''source_timezone must be non-empty single-line text''),
      (zone (ep_source_timezone p) = None, ValueError ''source_timezone must be an IANA timezone''),
      (ep_captured_at p < ep_observed_at p, ValueError ''captured_at cannot precede observed_at''),
      (\<not> is_sha256_hex (ep_digest_sha256 p), ValueError ''digest_sha256 must be canonical SHA-256 hex'')]"

record 'a EvidenceItem =
  ei_state :: EvidenceState
  ei_value :: "'a option"
  ei_provenance :: "EvidenceProvenance option"
  ei_blocker_code :: "string option"

definition EvidenceItem_checks :: "'a EvidenceItem \<Rightarrow> checks" where
  "EvidenceItem_checks i =
     [((case ei_blocker_code i of None \<Rightarrow> False | Some code \<Rightarrow> \<not> single_line_text code),
         ValueError ''blocker_code must be non-empty single-line text''),
      (ei_value i = None \<and> ei_provenance i \<noteq> None, ValueError ''provenance cannot exist without a value''),
      (ei_value i \<noteq> None \<and> ei_provenance i = None, ValueError ''a value requires provenance''),
      (ei_state i = AVAILABLE \<and> ei_value i = None, ValueError ''AVAILABLE evidence requires a value and provenance''),
      (ei_state i = AVAILABLE \<and> ei_blocker_code i \<noteq> None, ValueError ''AVAILABLE evidence cannot carry a blocker''),
      (ei_state i \<noteq> AVAILABLE \<and> ei_value i \<noteq> None, ValueError ''non-AVAILABLE evidence cannot expose a value'')]"

definition wf_item :: "'a EvidenceItem \<Rightarrow> bool" where
  "wf_item i \<longleftrightarrow> first_error (EvidenceItem_checks i) = None"

lemma wf_itemD:
  assumes "wf_item i"
  shows "ei_state i = AVAILABLE \<longleftrightarrow> ei_value i \<noteq> None" "ei_value i \<noteq> None \<longleftrightarrow> ei_provenance i \<noteq> None"
    "ei_state i = AVAILABLE \<Longrightarrow> ei_blocker_code i = None"
  using assms by (auto simp: wf_item_def EvidenceItem_checks_def split: if_splits)

definition available_item :: "'a \<Rightarrow> EvidenceProvenance \<Rightarrow> 'a EvidenceItem" where
  "available_item facts provenance =
     \<lparr>ei_state = AVAILABLE, ei_value = Some facts, ei_provenance = Some provenance, ei_blocker_code = None\<rparr>"

definition missing_item :: "EvidenceState \<Rightarrow> string \<Rightarrow> 'a EvidenceItem" where
  "missing_item state code =
     \<lparr>ei_state = state, ei_value = None, ei_provenance = None, ei_blocker_code = Some code\<rparr>"

lemma wf_available_item [simp]: "wf_item (available_item x p)"
  by (simp add: wf_item_def EvidenceItem_checks_def available_item_def)

lemma wf_missing_item: "s \<noteq> AVAILABLE \<Longrightarrow> single_line_text c \<Longrightarrow> wf_item (missing_item s c)"
  by (simp add: wf_item_def EvidenceItem_checks_def missing_item_def)

end
