(* ===== verification/Hlit.thy ===== *)
theory Hlit
  imports Zones
begin

text \<open>
  \<^verbatim>\<open>strategies/david_v6/hlit.py\<close>: the anchors and the 25, 50 and 66 percent levels drawn for a regular
  divergence, and their extensions. Shown: for prices on a decimal grid a setup is drawn exactly for a
  regular divergence with room between its anchors, its levels are exact, and no setup is ever refused by
  its own constructor.
\<close>

section \<open>Setups\<close>

definition FIB_25 :: decimal where "FIB_25 = 25 / 100"
definition FIB_50 :: decimal where "FIB_50 = 50 / 100"
definition FIB_66 :: decimal where "FIB_66 = 66 / 100"
definition FIB_127 :: decimal where "FIB_127 = 1272 / 1000"
definition FIB_162 :: decimal where "FIB_162 = 1618 / 1000"
definition EXTENSION_LEVELS :: "decimal list" where "EXTENSION_LEVELS = [FIB_127, FIB_162]"

record HlitSetup =
  hs_direction :: Side
  hs_divergence_kind :: DivergenceKind
  hs_anchor_a :: decimal
  hs_anchor_b :: decimal
  hs_fib_25 :: decimal
  hs_fib_50 :: decimal
  hs_fib_66 :: decimal
  hs_target_price :: decimal
  hs_invalidation_price :: decimal
  hs_first_pivot_index :: nat
  hs_second_pivot_index :: nat
  hs_observed_at :: instant

definition setup_price_check :: "string \<times> decimal \<Rightarrow> bool \<times> py_error" where
  "setup_price_check nv = (snd nv \<le> 0, ValueError (fst nv @ '' must be positive''))"

definition HlitSetup_checks :: "HlitSetup \<Rightarrow> checks" where
  "HlitSetup_checks s =
     map setup_price_check
       [(''anchor_a'', hs_anchor_a s), (''anchor_b'', hs_anchor_b s), (''fib_25'', hs_fib_25 s),
        (''fib_50'', hs_fib_50 s), (''fib_66'', hs_fib_66 s), (''target_price'', hs_target_price s),
        (''invalidation_price'', hs_invalidation_price s)]
     @ [(hs_second_pivot_index s \<le> hs_first_pivot_index s, ValueError ''HLIT pivots must be ordered non-negative indices''),
        (hs_target_price s \<noteq> hs_fib_66 s, ValueError ''HLIT target must be the 66 percent level''),
        (hs_invalidation_price s \<noteq> hs_anchor_b s, ValueError ''HLIT invalidation must be the extreme anchor'')]
     @ (if hs_direction s = BUY
        then [(\<not> (hs_anchor_b s < hs_fib_25 s \<and> hs_fib_25 s < hs_fib_50 s \<and> hs_fib_50 s < hs_fib_66 s),
                 ValueError ''bullish HLIT levels must ascend from the low anchor''),
              (hs_anchor_a s \<le> hs_fib_66 s, ValueError ''bullish 66 percent must stay below the high anchor'')]
        else [(\<not> (hs_fib_25 s < hs_anchor_b s \<and> hs_fib_50 s < hs_fib_25 s \<and> hs_fib_66 s < hs_fib_50 s),
                 ValueError ''bearish HLIT levels must descend from the high anchor''),
              (hs_fib_66 s \<le> hs_anchor_a s, ValueError ''bearish 66 percent must stay above the low anchor'')])"

record HlitFacts =
  hf_observed_at :: "instant option"
  hf_bullish :: "HlitSetup option"
  hf_bearish :: "HlitSetup option"

definition for_side :: "HlitFacts \<Rightarrow> Side \<Rightarrow> HlitSetup option" where
  "for_side facts side = (if side = BUY then hf_bullish facts else hf_bearish facts)"

definition extension_prices :: "HlitSetup \<Rightarrow> decimal list" where
  "extension_prices s =
     (let width = ddiv (dsub (hs_fib_66 s) (hs_anchor_b s)) FIB_66
      in if hs_direction s = BUY then map (\<lambda>level. dadd (hs_anchor_b s) (dmul width level)) EXTENSION_LEVELS
         else map (\<lambda>level. dsub (hs_anchor_b s) (dmul (dabs width) level)) EXTENSION_LEVELS)"

definition segment_of :: "CompletedOhlcvBar list \<Rightarrow> DivergenceSignal \<Rightarrow> CompletedOhlcvBar list option" where
  "segment_of bars signal =
     (let first = pv_index (ds_first signal); second = pv_index (ds_second signal)
      in if length bars \<le> second \<or> second \<le> first then None
         else if pv_timestamp (ds_first signal) \<noteq> bar_timestamp (bars ! first) then None
         else if pv_timestamp (ds_second signal) \<noteq> bar_timestamp (bars ! second) then None
         else Some (take (second + 1 - first) (drop first bars)))"

definition drawn_setup ::
  "CompletedOhlcvBar list \<Rightarrow> DivergenceSignal \<Rightarrow> DivergenceKind \<Rightarrow> decimal \<Rightarrow> (decimal \<Rightarrow> decimal) \<Rightarrow> HlitSetup" where
  "drawn_setup bars signal kind anchor_a level =
     \<lparr>hs_direction = (if kind = REGULAR_BULLISH then BUY else SELL), hs_divergence_kind = kind,
      hs_anchor_a = anchor_a, hs_anchor_b = pv_price (ds_second signal),
      hs_fib_25 = level FIB_25, hs_fib_50 = level FIB_50, hs_fib_66 = level FIB_66,
      hs_target_price = level FIB_66, hs_invalidation_price = pv_price (ds_second signal),
      hs_first_pivot_index = pv_index (ds_first signal), hs_second_pivot_index = pv_index (ds_second signal),
      hs_observed_at = bar_timestamp (last bars)\<rparr>"

text \<open>The anchor opposite the divergence, the room between the anchors, and a level of the retracement.\<close>

definition anchor_of :: "DivergenceKind \<Rightarrow> CompletedOhlcvBar list \<Rightarrow> decimal" where
  "anchor_of kind segment =
     (if kind = REGULAR_BULLISH then Max (set (map bar_high segment)) else Min (set (map bar_low segment)))"

definition room :: "DivergenceKind \<Rightarrow> decimal \<Rightarrow> decimal \<Rightarrow> decimal" where
  "room kind a b = (if kind = REGULAR_BULLISH then dsub a b else dsub b a)"

definition level_at :: "DivergenceKind \<Rightarrow> decimal \<Rightarrow> decimal \<Rightarrow> decimal \<Rightarrow> decimal" where
  "level_at kind a b l =
     (if kind = REGULAR_BULLISH then dadd b (dmul (room kind a b) l) else dsub b (dmul (room kind a b) l))"

text \<open>\<^verbatim>\<open>_setup\<close>: no signal, no segment and no room between the anchors mean no setup; otherwise the
  constructor's checks run.\<close>

definition setup_of :: "CompletedOhlcvBar list \<Rightarrow> DivergenceFacts \<Rightarrow> DivergenceKind \<Rightarrow> HlitSetup option result" where
  "setup_of bars divergence kind =
     (case next_where (\<lambda>candidate. ds_kind candidate = kind) (df_regular divergence) of
        None \<Rightarrow> Inr None
      | Some signal \<Rightarrow>
          (case segment_of bars signal of
             None \<Rightarrow> Inr None
           | Some segment \<Rightarrow>
               let anchor_b = pv_price (ds_second signal); anchor_a = anchor_of kind segment;
                   setup = drawn_setup bars signal kind anchor_a (level_at kind anchor_a anchor_b)
               in if room kind anchor_a anchor_b \<le> 0 then Inr None
                  else validated (HlitSetup_checks setup) (Some setup)))"

definition build_hlit_setups :: "CompletedOhlcvBar list \<Rightarrow> DivergenceFacts \<Rightarrow> HlitFacts result" where
  "build_hlit_setups bars divergence =
     (if \<not> ascending_bars bars then Inl (ValueError ''HLIT bars must be strictly ascending'')
      else and_then (setup_of bars divergence REGULAR_BULLISH) (\<lambda>bullish.
           and_then (setup_of bars divergence REGULAR_BEARISH) (\<lambda>bearish.
             Inr \<lparr>hf_observed_at = (if bars = [] then None else Some (bar_timestamp (last bars))),
                  hf_bullish = bullish, hf_bearish = bearish\<rparr>)))"

subsection \<open>Exact levels\<close>

definition on_price_grid :: "nat \<Rightarrow> CompletedOhlcvBar list \<Rightarrow> bool" where
  "on_price_grid k bars \<longleftrightarrow>
     (\<forall>b \<in> set bars. \<forall>p \<in> {bar_high b, bar_low b}. \<exists>n. p = of_int n / 10 ^ k \<and> 0 < n \<and> n < 10 ^ 25)"

lemma level_exact:
  fixes na nb m :: int and k :: nat
  assumes "0 < na" "na < 10 ^ 25" "0 < nb" "nb < 10 ^ 25" "0 \<le> m" "m \<le> 100"
  defines "a \<equiv> of_int na / 10 ^ k :: rat" and "b \<equiv> of_int nb / 10 ^ k :: rat"
  shows "dsub a b = a - b" "dmul (dsub a b) (of_int m / 100) = (a - b) * (of_int m / 100)"
    and "dadd b (dmul (dsub a b) (of_int m / 100)) = b + (a - b) * (of_int m / 100)"
    and "dsub a (dmul (dsub a b) (of_int m / 100)) = a - (a - b) * (of_int m / 100)"
proof -
  have pw: "(10::int) ^ 28 = 10 * 10 ^ 27" "(10::int) ^ 27 = 100 * 10 ^ 25" by simp_all
  have d: "\<bar>na - nb\<bar> < 10 ^ 25" using assms(1-4) by linarith
  show s: "dsub a b = a - b" unfolding dsub_def a_def b_def
    by (intro rnd_grid [of k] dec_gridI [of _ "na - nb"]) (use d pw in \<open>simp_all add: diff_divide_distrib, linarith?\<close>)
  have mul: "\<bar>(na - nb) * m\<bar> \<le> \<bar>na - nb\<bar> * 100" using assms(5,6) by (simp add: abs_mult mult_left_mono)
  have "\<bar>na - nb\<bar> * 100 < 10 ^ 27" using d by simp
  with mul have "\<bar>(na - nb) * m\<bar> < 10 ^ 27" by (rule le_less_trans)
  moreover define P where "P = (na - nb) * m"
  ultimately have dm: "\<bar>P\<bar> < 10 ^ 27" by simp
  have e: "(a - b) * (of_int m / 100) = of_int P / 10 ^ (k + 2)"
    by (simp add: a_def b_def P_def field_simps)
  show m: "dmul (dsub a b) (of_int m / 100) = (a - b) * (of_int m / 100)"
    unfolding s dmul_def by (intro rnd_grid [of "k + 2"] dec_gridI [OF e]) (use dm pw in linarith)
  have p: "b + (a - b) * (of_int m / 100) = of_int (nb * 100 + P) / 10 ^ (k + 2)"
    unfolding e by (simp add: b_def field_simps)
  show "dadd b (dmul (dsub a b) (of_int m / 100)) = b + (a - b) * (of_int m / 100)"
    unfolding m dadd_def by (intro rnd_grid [of "k + 2"] dec_gridI [OF p]) (use dm pw assms(3,4) in linarith)
  have n: "a - (a - b) * (of_int m / 100) = of_int (na * 100 - P) / 10 ^ (k + 2)"
    unfolding e by (simp add: a_def field_simps)
  show "dsub a (dmul (dsub a b) (of_int m / 100)) = a - (a - b) * (of_int m / 100)"
    unfolding m unfolding dsub_def by (intro rnd_grid [of "k + 2"] dec_gridI [OF n]) (use dm pw assms(1,2) in linarith)
qed

text \<open>What a drawn setup is, over exact arithmetic.\<close>

definition exact_setup :: "HlitSetup \<Rightarrow> bool" where
  "exact_setup s \<longleftrightarrow>
     (let a = hs_anchor_a s; b = hs_anchor_b s
      in hs_fib_25 s = b + (a - b) * 25 / 100 \<and> hs_fib_50 s = b + (a - b) * 50 / 100
         \<and> hs_fib_66 s = b + (a - b) * 66 / 100 \<and> hs_target_price s = hs_fib_66 s \<and> hs_invalidation_price s = b
         \<and> (hs_direction s = BUY \<longleftrightarrow> b < a) \<and> a \<noteq> b)"

lemma segment_anchor:
  assumes "segment_of bars s = Some seg"
  shows "seg \<noteq> []" "set seg \<subseteq> set bars" "bars ! pv_index (ds_second s) \<in> set seg"
proof -
  let ?i = "pv_index (ds_first s)" and ?j = "pv_index (ds_second s)"
  have ij: "?i < ?j" "?j < length bars" "seg = take (?j + 1 - ?i) (drop ?i bars)"
    using assms by (auto simp: segment_of_def Let_def not_le split: if_splits)
  show "set seg \<subseteq> set bars" unfolding ij(3) by (meson order_trans set_drop_subset set_take_subset)
  have "seg ! (?j - ?i) = bars ! ?j" "?j - ?i < length seg" using ij by auto
  then show "bars ! ?j \<in> set seg" by (metis nth_mem)
  then show "seg \<noteq> []" by auto
qed

lemma setup_of_grid:
  assumes "evaluate_divergence bars oscillator config = Inr d" "list_all wf_bar bars" "on_price_grid k bars"
    and kind: "kind = REGULAR_BULLISH \<or> kind = REGULAR_BEARISH"
  shows "\<exists>r. setup_of bars d kind = Inr r
    \<and> (\<forall>s. r = Some s \<longrightarrow> exact_setup s \<and> hs_divergence_kind s = kind \<and> kind \<in> ds_kind ` set (df_regular d)
         \<and> (hs_direction s = BUY \<longleftrightarrow> kind = REGULAR_BULLISH))
    \<and> (r = None \<longrightarrow> kind \<notin> ds_kind ` set (df_regular d)
         \<or> (\<exists>b \<in> set bars. bar_high b = bar_low b))"
proof (cases "next_where (\<lambda>c. ds_kind c = kind) (df_regular d)")
  case None
  then have "kind \<notin> ds_kind ` set (df_regular d)" by (auto simp: next_where_None)
  then show ?thesis using None by (simp add: setup_of_def)
next
  case (Some s)
  then have s: "s \<in> set (df_regular d)" "ds_kind s = kind" by (auto dest: next_where_Some)
  note c = evaluate_divergence_cases [OF assms(1) s(1)]
  let ?j = "pv_index (ds_second s)" and ?b = "pv_price (ds_second s)"
  obtain seg where seg: "segment_of bars s = Some seg" using c(1-4) by (simp add: segment_of_def Let_def)
  note g = segment_anchor [OF seg]
  define a where "a = anchor_of kind seg"
  have "a \<in> bar_high ` set seg \<or> a \<in> bar_low ` set seg"
    using Max_in [of "set (map bar_high seg)"] Min_in [of "set (map bar_low seg)"] g(1) by (auto simp: a_def anchor_of_def)
  then obtain na where na: "a = of_int na / 10 ^ k" "0 < na" "na < 10 ^ 25"
    using assms(3) g(2) unfolding on_price_grid_def by blast
  have bj: "bars ! ?j \<in> set bars" using c(2) by simp
  have b: "?b = (if kind = REGULAR_BULLISH then bar_low (bars ! ?j) else bar_high (bars ! ?j))"
    using c(5) kind s(2) by auto
  then have "?b \<in> {bar_high (bars ! ?j), bar_low (bars ! ?j)}" by simp
  then obtain nb where nb: "?b = of_int nb / 10 ^ k" "0 < nb" "nb < 10 ^ 25"
    using assms(3) bj unfolding on_price_grid_def by blast
  have wf: "bar_low (bars ! ?j) \<le> bar_high (bars ! ?j)" using assms(2) bj wf_barD(10) by (auto simp: list_all_iff)
  have order: "if kind = REGULAR_BULLISH then ?b \<le> a else a \<le> ?b"
  proof -
    have "bar_high (bars ! ?j) \<le> Max (set (map bar_high seg))" "Min (set (map bar_low seg)) \<le> bar_low (bars ! ?j)"
      using g(3) by (simp_all add: Max_ge Min_le)
    then show ?thesis using wf by (auto simp: a_def anchor_of_def b)
  qed
  let ?level = "level_at kind a ?b"
  have swap: "?b - (?b - a) * c = ?b + (a - ?b) * c" for c by (simp add: algebra_simps)
  have ex: "?level (of_int m / 100) = ?b + (a - ?b) * (of_int m / 100)" if "0 \<le> m" "m \<le> 100" for m
    using level_exact(3) [OF na(2,3) nb(2,3) that, of k] level_exact(4) [OF nb(2,3) na(2,3) that, of k]
    unfolding level_at_def room_def na(1) [symmetric] nb(1) [symmetric] swap by simp
  have fibs: "?level FIB_25 = ?b + (a - ?b) * 25 / 100" "?level FIB_50 = ?b + (a - ?b) * 50 / 100"
    "?level FIB_66 = ?b + (a - ?b) * 66 / 100"
    using ex [of 25] ex [of 50] ex [of 66] by (simp_all add: FIB_25_def FIB_50_def FIB_66_def)
  have pos: "0 < a" "0 < ?b" using na nb by simp_all
  let ?s = "drawn_setup bars s kind a ?level"
  have r: "setup_of bars d kind = (if a = ?b then Inr None else validated (HlitSetup_checks ?s) (Some ?s))"
    using Some seg order level_exact(1) [OF na(2,3) nb(2,3) order.refl, of k] level_exact(1) [OF nb(2,3) na(2,3) order.refl, of k]
    unfolding setup_of_def na(1) [symmetric] nb(1) [symmetric]
    by (auto simp: Let_def room_def a_def [symmetric] split: if_splits)
  show ?thesis
  proof (cases "a = ?b")
    case True
    have "bar_high (bars ! ?j) \<le> Max (set (map bar_high seg))" "Min (set (map bar_low seg)) \<le> bar_low (bars ! ?j)"
      using g(3) by (simp_all add: Max_ge Min_le)
    then have "bar_high (bars ! ?j) = bar_low (bars ! ?j)"
      using True wf by (auto simp: a_def anchor_of_def b split: if_splits)
    then show ?thesis using r True bj by auto
  next
    case False
    have "first_error (HlitSetup_checks ?s) = None"
      using fibs pos order False kind c(1)
      by (auto simp: HlitSetup_checks_def setup_price_check_def drawn_setup_def first_error_append_None
          first_error_Cons_None first_error.simps(1) field_simps simp del: first_error.simps(2))
    moreover have "exact_setup ?s" "hs_divergence_kind ?s = kind" "hs_direction ?s = BUY \<longleftrightarrow> kind = REGULAR_BULLISH"
      using fibs order False kind by (auto simp: exact_setup_def drawn_setup_def Let_def)
    ultimately show ?thesis using r False s by (auto simp: validated_def)
  qed
qed

text \<open>C19: when a retracement is drawn. For well-formed bars with prices on a decimal grid, and the divergences
  evaluated on the same bars, drawing never raises; a setup is drawn for a side only from a regular divergence
  of that side, with its 25, 50 and 66 percent levels exact; and a regular divergence without a setup occurs
  only when some bar has no range.\<close>

theorem setups_exact_and_only_from_divergence:
  assumes "evaluate_divergence bars oscillator config = Inr d" "list_all wf_bar bars" "on_price_grid k bars"
  shows "\<exists>f. build_hlit_setups bars d = Inr f
    \<and> (\<forall>side s. for_side f side = Some s \<longrightarrow> exact_setup s \<and> hs_direction s = side
         \<and> (if side = BUY then REGULAR_BULLISH else REGULAR_BEARISH) \<in> ds_kind ` set (df_regular d))
    \<and> (\<forall>side. for_side f side = None \<longrightarrow>
         (if side = BUY then REGULAR_BULLISH else REGULAR_BEARISH) \<notin> ds_kind ` set (df_regular d)
         \<or> (\<exists>b \<in> set bars. bar_high b = bar_low b))"
proof -
  have asc: "ascending_bars bars"
    using assms(1) by (auto simp: evaluate_divergence_def and_then_eq_Inr_iff pivot_bars_def split: if_splits)
  note g = setup_of_grid [OF assms]
  obtain bull where bull: "setup_of bars d REGULAR_BULLISH = Inr bull"
    "\<forall>s. bull = Some s \<longrightarrow> exact_setup s \<and> REGULAR_BULLISH \<in> ds_kind ` set (df_regular d) \<and> hs_direction s = BUY"
    "bull = None \<longrightarrow> REGULAR_BULLISH \<notin> ds_kind ` set (df_regular d) \<or> (\<exists>b \<in> set bars. bar_high b = bar_low b)"
    using g [of REGULAR_BULLISH] by blast
  obtain bear where bear: "setup_of bars d REGULAR_BEARISH = Inr bear"
    "\<forall>s. bear = Some s \<longrightarrow> exact_setup s \<and> REGULAR_BEARISH \<in> ds_kind ` set (df_regular d) \<and> hs_direction s \<noteq> BUY"
    "bear = None \<longrightarrow> REGULAR_BEARISH \<notin> ds_kind ` set (df_regular d) \<or> (\<exists>b \<in> set bars. bar_high b = bar_low b)"
    using g [of REGULAR_BEARISH] by blast
  obtain f where f: "build_hlit_setups bars d = Inr f" "hf_bullish f = bull" "hf_bearish f = bear"
    using asc bull(1) bear(1) by (simp add: build_hlit_setups_def)
  have "hs_direction s = side" if "hs_direction s \<noteq> BUY" "side \<noteq> BUY" for s side
    using that by (cases "hs_direction s"; cases side) auto
  then show ?thesis using f bull(2,3) bear(2,3) by (intro exI [of _ f]) (auto simp: for_side_def)
qed

section \<open>Witness\<close>

definition divergent_bars :: "CompletedOhlcvBar list" where
  "divergent_bars = [swing_bar 0 50, swing_bar 60 40, swing_bar 120 60, swing_bar 180 38, swing_bar 240 55]"

theorem setups_exact_and_only_from_divergence_witness:
  "\<exists>d f s. evaluate_divergence divergent_bars [0, -5, 0, -3, 0] (Some \<lparr>pc_left = 1, pc_right = 1\<rparr>) = Inr d
    \<and> build_hlit_setups divergent_bars d = Inr f \<and> for_side f BUY = Some s \<and> exact_setup s \<and> for_side f SELL = None"
proof -
  let ?d = "evaluate_divergence divergent_bars [0, -5, 0, -3, 0] (Some \<lparr>pc_left = 1, pc_right = 1\<rparr>)"
  have "case ?d of Inl _ \<Rightarrow> False | Inr d \<Rightarrow> map ds_kind (df_regular d) = [REGULAR_BULLISH]" by code_simp
  then obtain d where d: "?d = Inr d" "map ds_kind (df_regular d) = [REGULAR_BULLISH]" by (auto split: sum.splits)
  then have kinds: "ds_kind ` set (df_regular d) = {REGULAR_BULLISH}" by (metis list.set_map list.simps(15) set_empty)
  have wf: "list_all wf_bar divergent_bars" by code_simp
  have grid: "on_price_grid 0 divergent_bars"
    unfolding on_price_grid_def divergent_bars_def swing_bar_def by simp
  have range: "\<not> (\<exists>b \<in> set divergent_bars. bar_high b = bar_low b)"
    by (simp add: divergent_bars_def swing_bar_def)
  from setups_exact_and_only_from_divergence [OF d(1) wf grid] obtain f where f: "build_hlit_setups divergent_bars d = Inr f"
    and some: "\<forall>side s. for_side f side = Some s \<longrightarrow> exact_setup s \<and> hs_direction s = side
         \<and> (if side = BUY then REGULAR_BULLISH else REGULAR_BEARISH) \<in> ds_kind ` set (df_regular d)"
    and none: "\<forall>side. for_side f side = None \<longrightarrow>
         (if side = BUY then REGULAR_BULLISH else REGULAR_BEARISH) \<notin> ds_kind ` set (df_regular d)
         \<or> (\<exists>b \<in> set divergent_bars. bar_high b = bar_low b)"
    by blast
  have "for_side f BUY \<noteq> None" using none kinds range by fastforce
  moreover have "for_side f SELL = None"
    using some kinds by (cases "for_side f SELL") fastforce+
  ultimately show ?thesis using d(1) f some by blast
qed

end
