(* ===== verification/Metodo.thy ===== *)
theory Metodo
  imports Evidence Hlit
begin

text \<open>
  \<^verbatim>\<open>strategies/david_v6/metodo.py\<close>, \<^verbatim>\<open>direction.py\<close> and \<^verbatim>\<open>regime.py\<close>: moving averages and
  the MACD, the daily swing evidence, the side the divergence points to, and the regime. The digest of
  the bars (SHA-256 of their canonical JSON) is a parameter. Shown: an exponential average stays within
  the range of the prices although every step is rounded, the MACD of a history never changes when bars
  are added, and a side is chosen only when the divergences agree.
\<close>

section \<open>Moving averages\<close>

definition SMA_FAST :: nat where "SMA_FAST = 6"
definition SMA_MID :: nat where "SMA_MID = 70"
definition SMA_SLOW :: nat where "SMA_SLOW = 200"
definition MACD_FAST :: nat where "MACD_FAST = 12"
definition MACD_SLOW :: nat where "MACD_SLOW = 26"
definition MACD_SIGNAL :: nat where "MACD_SIGNAL = 9"
definition REQUIRED_DAILY_BARS :: nat where "REQUIRED_DAILY_BARS = SMA_SLOW + 1"
definition MACD_WARMUP_BARS :: nat where "MACD_WARMUP_BARS = MACD_SLOW + MACD_SIGNAL - 1"

lemmas metodo_constants = SMA_FAST_def SMA_MID_def SMA_SLOW_def MACD_FAST_def MACD_SLOW_def MACD_SIGNAL_def
  REQUIRED_DAILY_BARS_def MACD_WARMUP_BARS_def

text \<open>\<^verbatim>\<open>closes[end - period : end]\<close> for \<^verbatim>\<open>end = len(closes) - offset\<close>, averaged.\<close>

definition sma :: "decimal list \<Rightarrow> nat \<Rightarrow> nat \<Rightarrow> decimal" where
  "sma closes period offset =
     (let end_at = length closes - offset
      in ddiv (dsum (take period (drop (end_at - period) closes))) (of_nat period))"

text \<open>The running value of an exponential average from its seed.\<close>

fun ema_steps :: "decimal \<Rightarrow> decimal \<Rightarrow> decimal list \<Rightarrow> decimal list" where
  "ema_steps multiplier seed [] = []"
| "ema_steps multiplier seed (close # closes) =
     (let seed' = dadd seed (dmul multiplier (dsub close seed)) in seed' # ema_steps multiplier seed' closes)"

definition ema_multiplier :: "nat \<Rightarrow> decimal" where
  "ema_multiplier period = ddiv 2 (of_nat (period + 1))"

text \<open>\<^verbatim>\<open>_ema\<close>; a history shorter than the period is an index error.\<close>

definition ema :: "decimal list \<Rightarrow> nat \<Rightarrow> decimal option list result" where
  "ema closes period =
     (if length closes < period then Inl (LookupError ''list assignment index out of range'')
      else let seed = ddiv (dsum (take period closes)) (of_nat period)
           in Inr (replicate (period - 1) None
                @ map Some (seed # ema_steps (ema_multiplier period) seed (drop period closes))))"

definition option_diff :: "decimal option \<Rightarrow> decimal option \<Rightarrow> decimal option" where
  "option_diff a b = (case (a, b) of (Some x, Some y) \<Rightarrow> Some (dsub x y) | _ \<Rightarrow> None)"

text \<open>\<^verbatim>\<open>macd_series\<close>: the signal is the average of the first nine values of the MACD and then their
  exponential average.\<close>

definition macd_series :: "decimal list \<Rightarrow> (decimal option list \<times> decimal option list) result" where
  "macd_series closes =
     and_then (ema closes MACD_FAST) (\<lambda>fast.
     and_then (ema closes MACD_SLOW) (\<lambda>slow.
       let macd = map (\<lambda>(f, s). option_diff f s) (zip fast slow);
           first_macd = MACD_SLOW - 1; first_signal = first_macd + MACD_SIGNAL - 1;
           values = map the (drop first_macd macd)
       in if length macd \<le> first_signal then Inl (LookupError ''list index out of range'')
          else let seed = ddiv (dsum (take MACD_SIGNAL values)) (of_nat MACD_SIGNAL)
               in Inr (macd, replicate first_signal None
                    @ map Some (seed # ema_steps (ema_multiplier MACD_SIGNAL) seed (drop MACD_SIGNAL values)))))"

subsection \<open>Histories only grow\<close>

lemma length_ema_steps [simp]: "length (ema_steps m s xs) = length xs"
  by (induction m s xs rule: ema_steps.induct) (simp_all add: Let_def)

lemma ema_steps_append: "take (length xs) (ema_steps m s (xs @ ys)) = ema_steps m s xs"
  by (induction m s xs rule: ema_steps.induct) (simp_all add: Let_def)

lemma length_ema: "ema closes period = Inr v \<Longrightarrow> 0 < period \<Longrightarrow> length v = length closes"
  by (auto simp: ema_def Let_def split: if_splits)

lemma ema_prefix:
  assumes "ema closes period = Inr v" "0 < period"
  shows "\<exists>v'. ema (closes @ later) period = Inr v' \<and> take (length closes) v' = v"
proof -
  have l: "period \<le> length closes" using assms by (simp add: ema_def not_less split: if_splits)
  let ?s = "ddiv (dsum (take period closes)) (of_nat period)"
  let ?v' = "replicate (period - 1) None
      @ map Some (?s # ema_steps (ema_multiplier period) ?s (drop period closes @ later))"
  have "ema (closes @ later) period = Inr ?v'" using l by (simp add: ema_def Let_def)
  moreover have "take (length closes) ?v' = v"
  proof -
    have n: "length closes = (period - 1) + Suc (length (drop period closes))" using l assms(2) by simp
    have v: "v = replicate (period - 1) None @ map Some (?s # ema_steps (ema_multiplier period) ?s (drop period closes))"
      using assms(1) l by (simp add: ema_def Let_def)
    show ?thesis unfolding v by (subst n) (simp add: take_map ema_steps_append del: length_drop)
  qed
  ultimately show ?thesis by blast
qed

lemma length_macd: "macd_series closes = Inr (m, s) \<Longrightarrow> length m = length closes \<and> length s = length closes \<and> MACD_WARMUP_BARS \<le> length closes"
  by (auto simp: macd_series_def and_then_eq_Inr_iff Let_def metodo_constants not_le dest!: length_ema split: if_splits)

lemma drop_long: "k \<le> length xs \<Longrightarrow> drop k (xs @ ys) = drop k xs @ ys"
  by simp

text \<open>The MACD does not repaint. Adding bars to a history keeps every value of the MACD and of its
  signal that the history already had, and gives values for the new bars only.\<close>

theorem macd_does_not_repaint:
  assumes "macd_series closes = Inr (macd, signal)"
  shows "\<exists>macd' signal'. macd_series (closes @ later) = Inr (macd', signal')
    \<and> take (length closes) macd' = macd \<and> take (length closes) signal' = signal
    \<and> length macd' = length closes + length later \<and> length signal' = length closes + length later"
proof -
  obtain fast slow where fs: "ema closes MACD_FAST = Inr fast" "ema closes MACD_SLOW = Inr slow"
    using assms by (auto simp: macd_series_def and_then_eq_Inr_iff)
  obtain fast' slow' where fs': "ema (closes @ later) MACD_FAST = Inr fast'" "take (length closes) fast' = fast"
      "ema (closes @ later) MACD_SLOW = Inr slow'" "take (length closes) slow' = slow"
    using ema_prefix [OF fs(1), of later] ema_prefix [OF fs(2), of later] by (auto simp: MACD_FAST_def MACD_SLOW_def)
  define vs where "vs = map the (drop 25 (map (\<lambda>(f, s). option_diff f s) (zip fast slow)))"
  define vs' where "vs' = map the (drop 25 (map (\<lambda>(f, s). option_diff f s) (zip fast' slow')))"
  have w: "34 \<le> length closes" using length_macd [OF assms] by (simp add: metodo_constants)
  have lens: "length fast = length closes" "length slow = length closes"
    "length fast' = length closes + length later" "length slow' = length closes + length later"
    using length_ema [OF fs(1)] length_ema [OF fs(2)] length_ema [OF fs'(1)] length_ema [OF fs'(3)]
    by (simp_all add: metodo_constants)
  have m: "macd = map (\<lambda>(f, s). option_diff f s) (zip fast slow)"
    "signal = replicate 33 None @ map Some (ddiv (dsum (take 9 vs)) 9 # ema_steps (ema_multiplier 9) (ddiv (dsum (take 9 vs)) 9) (drop 9 vs))"
    using assms fs by (auto simp: macd_series_def Let_def metodo_constants vs_def split: if_splits)
  have m': "macd_series (closes @ later) = Inr (map (\<lambda>(f, s). option_diff f s) (zip fast' slow'),
     replicate 33 None @ map Some (ddiv (dsum (take 9 vs')) 9 # ema_steps (ema_multiplier 9) (ddiv (dsum (take 9 vs')) 9) (drop 9 vs')))"
    using fs' lens w by (auto simp: macd_series_def Let_def metodo_constants vs'_def)
  have tm: "take (length closes) (map (\<lambda>(f, s). option_diff f s) (zip fast' slow')) = macd"
    unfolding m(1) by (simp add: take_map take_zip fs'(2,4))
  obtain extra where vs': "vs' = vs @ extra" and lv: "length vs = length closes - 25"
  proof
    let ?m = "map (\<lambda>(f, s). option_diff f s) (zip fast slow)"
      and ?m' = "map (\<lambda>(f, s). option_diff f s) (zip fast' slow')"
    have "?m' = ?m @ drop (length closes) ?m'" using tm unfolding m(1) by (metis append_take_drop_id)
    moreover have "25 \<le> length ?m" using w lens by simp
    ultimately have "drop 25 ?m' = drop 25 ?m @ drop (length closes) ?m'"
      using drop_long arg_cong trans by metis
    then show "vs' = vs @ map the (drop (length closes) ?m')" unfolding vs_def vs'_def by simp
    show "length vs = length closes - 25" by (simp add: vs_def lens)
  qed
  have v: "take 9 vs' = take 9 vs" "drop 9 vs' = drop 9 vs @ extra" using w lv by (simp_all add: vs')
  let ?seed = "ddiv (dsum (take 9 vs)) 9"
  have n: "length closes = 33 + Suc (length (drop 9 vs))" using w lv by simp
  have ts: "take (length closes) (replicate 33 None
      @ map Some (?seed # ema_steps (ema_multiplier 9) ?seed (drop 9 vs @ extra))) = signal"
    unfolding m(2) by (subst n) (simp add: take_map ema_steps_append del: length_drop)
  have lm: "length (map (\<lambda>(f, s). option_diff f s) (zip fast' slow')) = length closes + length later"
    using lens by simp
  show ?thesis using length_macd [OF m' [unfolded v]] m' [unfolded v] tm ts by simp
qed

subsection \<open>Averages stay within the range of the prices\<close>

definition grid_price :: "nat \<Rightarrow> decimal \<Rightarrow> bool" where
  "grid_price k x \<longleftrightarrow> (\<exists>n. x = of_int n / 10 ^ k \<and> 0 < n \<and> n < 10 ^ 25)"

lemma foldl_dadd_grid:
  fixes a :: int
  assumes "\<forall>x \<in> set xs. grid_price k x" "0 \<le> a" "a + int (length xs) * 10 ^ 25 < 10 ^ 28"
  shows "foldl dadd (of_int a / 10 ^ k) xs = of_int a / 10 ^ k + sum_list xs"
  using assms
proof (induction xs arbitrary: a)
  case (Cons x xs)
  then obtain n where n: "x = of_int n / 10 ^ k" "0 < n" "n < 10 ^ 25" by (auto simp: grid_price_def)
  have s: "of_int a / 10 ^ k + x = of_int (a + n) / 10 ^ k" by (simp add: n(1) add_divide_distrib)
  have b: "0 \<le> a + n" "a + n + int (length xs) * 10 ^ 25 < 10 ^ 28" using Cons.prems(2,3) n(2,3) by simp_all
  then have "\<bar>a + n\<bar> < 10 ^ 28" using zero_le_mult_iff [of "int (length xs)" "10 ^ 25"] by simp
  then have "dadd (of_int a / 10 ^ k) x = of_int (a + n) / 10 ^ k"
    unfolding dadd_def s by (intro rnd_grid [of k] dec_gridI) simp_all
  then show ?case using Cons.IH [OF _ b] Cons.prems(1) s by simp
qed simp

lemma dsum_grid:
  assumes "\<forall>x \<in> set xs. grid_price k x" "length xs < 1000"
  shows "dsum xs = sum_list xs"
proof -
  have "int (length xs) * 10 ^ 25 \<le> 999 * 10 ^ 25" using assms(2) by simp
  also have "\<dots> < 10 ^ 28" by simp
  finally show ?thesis using foldl_dadd_grid [of xs k 0] assms(1) by (simp add: dsum_def)
qed

lemma sum_list_bounds:
  fixes lo hi :: rat
  assumes "\<forall>x \<in> set xs. lo \<le> x \<and> x \<le> hi"
  shows "lo * of_nat (length xs) \<le> sum_list xs \<and> sum_list xs \<le> hi * of_nat (length xs)"
  using assms by (induction xs) (auto simp: algebra_simps)

lemma average_within:
  assumes "\<forall>x \<in> set xs. grid_price k x \<and> lo \<le> x \<and> x \<le> hi" "length xs < 1000" "xs \<noteq> []"
    and "rnd lo = lo" "rnd hi = hi"
  shows "lo \<le> ddiv (dsum xs) (of_nat (length xs)) \<and> ddiv (dsum xs) (of_nat (length xs)) \<le> hi"
proof -
  have s: "dsum xs = sum_list xs" using assms(1,2) by (intro dsum_grid) auto
  have "lo \<le> sum_list xs / of_nat (length xs)" "sum_list xs / of_nat (length xs) \<le> hi"
    using sum_list_bounds [of xs lo hi] assms(1,3) by (simp_all add: field_simps)
  then show ?thesis unfolding ddiv_def s using rnd_le rnd_ge assms(4,5) by blast
qed

text \<open>One rounded step moves towards the price and never past it.\<close>

lemma ema_step_towards:
  assumes "0 \<le> m" "m \<le> 7 / 10" "0 \<le> x"
  shows "0 \<le> dmul m (rnd x) \<and> dmul m (rnd x) \<le> x"
proof -
  have r: "0 \<le> rnd x" "rnd x \<le> x * (1 + 5 / 10 ^ 28)" using rnd_upper assms(3) by simp_all
  have "m * rnd x \<le> 7 / 10 * (x * (1 + 5 / 10 ^ 28))" using r assms(1,2) by (intro mult_mono) auto
  moreover have p: "0 \<le> m * rnd x" using r assms(1) by simp
  ultimately have "m * rnd x * (1 + 5 / 10 ^ 28) \<le> 7 / 10 * (x * (1 + 5 / 10 ^ 28)) * (1 + 5 / 10 ^ 28)"
    by (intro mult_right_mono) auto
  also have "\<dots> = x * (7 / 10 * (1 + 5 / 10 ^ 28) * (1 + 5 / 10 ^ 28))" by simp
  also have "\<dots> \<le> x * 1" using assms(3) by (intro mult_left_mono) (simp_all add: field_simps)
  finally show ?thesis using rnd_upper [OF p] p by (simp add: dmul_def)
qed

lemma ema_step_within:
  assumes "0 \<le> m" "m \<le> 7 / 10" "lo \<le> s" "s \<le> hi" "lo \<le> c" "c \<le> hi" "rnd lo = lo" "rnd hi = hi"
  shows "lo \<le> dadd s (dmul m (dsub c s)) \<and> dadd s (dmul m (dsub c s)) \<le> hi"
proof -
  have "lo \<le> s + dmul m (rnd (c - s)) \<and> s + dmul m (rnd (c - s)) \<le> hi"
  proof (cases "s \<le> c")
    case True
    then show ?thesis using ema_step_towards [OF assms(1,2), of "c - s"] assms(3,6) by simp
  next
    case False
    have "dmul m (rnd (c - s)) = - dmul m (rnd (s - c))" using rnd_minus [of "s - c"] by (simp add: dmul_def)
    then show ?thesis using False ema_step_towards [OF assms(1,2), of "s - c"] assms(4,5) by simp
  qed
  then show ?thesis unfolding dadd_def dsub_def using rnd_le rnd_ge assms(7,8) by blast
qed

lemma ema_steps_within:
  assumes "0 \<le> m" "m \<le> 7 / 10" "lo \<le> s" "s \<le> hi" "\<forall>c \<in> set cs. lo \<le> c \<and> c \<le> hi" "rnd lo = lo" "rnd hi = hi"
  shows "\<forall>v \<in> set (ema_steps m s cs). lo \<le> v \<and> v \<le> hi"
  using assms(1-5)
proof (induction m s cs rule: ema_steps.induct)
  case (2 m seed close closes)
  have "lo \<le> dadd seed (dmul m (dsub close seed)) \<and> dadd seed (dmul m (dsub close seed)) \<le> hi"
    using 2(2-6) assms(6,7) by (intro ema_step_within) auto
  then show ?case using 2 by (simp add: Let_def)
qed simp

lemma ema_multiplier_bounds: "2 \<le> period \<Longrightarrow> 0 \<le> ema_multiplier period \<and> ema_multiplier period \<le> 7 / 10"
proof -
  assume "2 \<le> period"
  then have le: "2 / of_nat (period + 1) \<le> (7 / 10 :: rat)" by (simp add: field_simps)
  have "rnd (7 / 10) = 7 / 10" by (intro rnd_grid [of 1] dec_gridI [of _ 7]) simp_all
  from rnd_le [OF le this] show ?thesis by (simp add: ema_multiplier_def ddiv_def)
qed

text \<open>An exponential average never leaves the range of its prices. For prices on a decimal grid every
  value of the average lies between the least and the greatest of the prices, although the seed and each
  step are rounded to 28 digits.\<close>

theorem ema_within_price_range:
  assumes "ema closes period = Inr values" "2 \<le> period" "period < 1000" "\<forall>x \<in> set closes. grid_price k x"
    and "Some v \<in> set values"
  shows "Min (set closes) \<le> v \<and> v \<le> Max (set closes)"
proof -
  let ?lo = "Min (set closes)" and ?hi = "Max (set closes)" and ?p = "take period closes"
  have l: "period \<le> length closes" using assms(1) by (simp add: ema_def not_less split: if_splits)
  then have ne: "closes \<noteq> []" and lp: "length ?p = period" "?p \<noteq> []" using assms(2) by auto
  have b: "\<forall>x \<in> set closes. ?lo \<le> x \<and> x \<le> ?hi" by simp
  have fixed: "rnd x = x" if g: "grid_price k x" for x
  proof -
    obtain n where "x = of_int n / 10 ^ k" "0 < n" "n < 10 ^ 25" using g by (auto simp: grid_price_def)
    then show ?thesis by (intro rnd_grid [of k] dec_gridI [of _ n]) simp_all
  qed
  have r: "rnd ?lo = ?lo" "rnd ?hi = ?hi" using ne assms(4) by (auto intro!: fixed)
  have "?lo \<le> ddiv (dsum ?p) (of_nat (length ?p)) \<and> ddiv (dsum ?p) (of_nat (length ?p)) \<le> ?hi"
    using assms(3,4) b lp by (intro average_within [where k = k] r) (auto dest: in_set_takeD)
  then have seed: "?lo \<le> ddiv (dsum ?p) (of_nat period)" "ddiv (dsum ?p) (of_nat period) \<le> ?hi" using lp by simp_all
  have "\<forall>v \<in> set (ema_steps (ema_multiplier period) (ddiv (dsum ?p) (of_nat period)) (drop period closes)). ?lo \<le> v \<and> v \<le> ?hi"
    using ema_multiplier_bounds [OF assms(2)] seed b by (intro ema_steps_within r) (auto dest: in_set_dropD)
  then show ?thesis using assms(1,5) l seed by (auto simp: ema_def Let_def)
qed

section \<open>The daily swing evidence\<close>

record MetodoFacts =
  mf_observed_at :: instant
  mf_sma_6 :: decimal
  mf_sma_70 :: decimal
  mf_sma_200 :: decimal
  mf_sma_70_slope :: decimal
  mf_sma_200_slope :: decimal
  mf_trend_up :: bool
  mf_trend_down :: bool
  mf_sma_6_70_cross_up :: bool
  mf_sma_6_70_cross_down :: bool
  mf_macd :: decimal
  mf_macd_signal :: decimal
  mf_macd_cross_up_above_zero :: bool
  mf_macd_cross_up_below_zero :: bool
  mf_latest_volume :: decimal
  mf_mean_volume_20d :: decimal
  mf_normal_technical_confirmation :: bool
  mf_same_bar_a_confirmation :: bool

text \<open>\<^verbatim>\<open>_utc\<close>: a naive time is refused.\<close>

definition metodo_utc :: "py_datetime \<Rightarrow> instant result" where
  "metodo_utc t =
     (case t of Naive _ \<Rightarrow> Inl (ValueError ''decision_at must be timezone-aware'')
      | AwareUTC u \<Rightarrow> Inr u | AwareOther u \<Rightarrow> Inr u)"

definition completed_before :: "CompletedOhlcvBar list \<Rightarrow> instant \<Rightarrow> CompletedOhlcvBar list option" where
  "completed_before bars decision =
     (let completed = filter (\<lambda>b. bar_timestamp b < decision) bars
      in if ascending_bars completed then Some completed else None)"

text \<open>The facts of a sufficient history; \<open>macd\<close> and \<open>signal\<close> are the series of its closes.\<close>

definition metodo_facts :: "CompletedOhlcvBar list \<Rightarrow> decimal option list \<Rightarrow> decimal option list \<Rightarrow> MetodoFacts" where
  "metodo_facts bars macd signal =
     (let closes = map bar_close bars; n = length closes;
          s6 = sma closes SMA_FAST 0; p6 = sma closes SMA_FAST 1;
          s70 = sma closes SMA_MID 0; p70 = sma closes SMA_MID 1;
          s200 = sma closes SMA_SLOW 0; p200 = sma closes SMA_SLOW 1;
          current_macd = the (macd ! (n - 1)); previous_macd = the (macd ! (n - 2));
          current_signal = the (signal ! (n - 1)); previous_signal = the (signal ! (n - 2));
          trend_up = (s200 > p200 \<and> s70 > s200 \<and> s70 > p70);
          trend_down = (s200 < p200 \<and> s70 < s200 \<and> s70 < p70);
          cross_up = (p6 \<le> p70 \<and> s6 > s70);
          cross_down = (p6 \<ge> p70 \<and> s6 < s70);
          macd_crosses_up = (previous_macd \<le> previous_signal \<and> current_macd > current_signal);
          macd_cross_up = (macd_crosses_up \<and> current_macd > 0)
      in \<lparr>mf_observed_at = bar_timestamp (last bars), mf_sma_6 = s6, mf_sma_70 = s70, mf_sma_200 = s200,
          mf_sma_70_slope = dsub s70 p70, mf_sma_200_slope = dsub s200 p200,
          mf_trend_up = trend_up, mf_trend_down = trend_down,
          mf_sma_6_70_cross_up = cross_up, mf_sma_6_70_cross_down = cross_down,
          mf_macd = current_macd, mf_macd_signal = current_signal,
          mf_macd_cross_up_above_zero = macd_cross_up,
          mf_macd_cross_up_below_zero = (macd_crosses_up \<and> current_macd < 0),
          mf_latest_volume = bar_volume (last bars),
          mf_mean_volume_20d = ddiv (dsum (map bar_volume (last_n 20 bars))) 20,
          mf_normal_technical_confirmation = (trend_up \<and> (cross_up \<or> macd_cross_up)),
          mf_same_bar_a_confirmation = (trend_up \<and> cross_up \<and> macd_cross_up)\<rparr>)"

definition metodo_provenance :: "(CompletedOhlcvBar list \<Rightarrow> string) \<Rightarrow> CompletedOhlcvBar list \<Rightarrow> instant \<Rightarrow> EvidenceProvenance" where
  "metodo_provenance digest bars decision =
     \<lparr>ep_source = ''DAVID_V6_DERIVED'', ep_source_key = ''metodo:daily:'' @ digest bars,
      ep_source_timezone = ''UTC'', ep_observed_at = bar_timestamp (last bars), ep_captured_at = decision,
      ep_digest_sha256 = digest bars\<rparr>"

definition evaluate_metodo ::
  "(CompletedOhlcvBar list \<Rightarrow> string) \<Rightarrow> V6Market \<Rightarrow> CompletedOhlcvBar list \<Rightarrow> py_datetime \<Rightarrow> MetodoFacts EvidenceItem result" where
  "evaluate_metodo digest market daily_bars decision_at =
     and_then (metodo_utc decision_at) (\<lambda>decision.
       if market = BINANCE_USDM then Inr (missing_item NOT_APPLICABLE ''METODO_CASH_ONLY'')
       else case completed_before daily_bars decision of
              None \<Rightarrow> Inr (missing_item UNAVAILABLE ''METODO_DAILY_WARMUP_UNAVAILABLE'')
            | Some bars \<Rightarrow>
                if length bars < REQUIRED_DAILY_BARS
                then Inr (missing_item UNAVAILABLE ''METODO_DAILY_WARMUP_UNAVAILABLE'')
                else and_then (macd_series (map bar_close bars)) (\<lambda>(macd, signal).
                       Inr (available_item (metodo_facts bars macd signal) (metodo_provenance digest bars decision))))"

lemma macd_series_total: "MACD_WARMUP_BARS \<le> length closes \<Longrightarrow> \<exists>m s. macd_series closes = Inr (m, s)"
  by (auto simp: macd_series_def ema_def Let_def metodo_constants)

lemma metodo_codes: "single_line_text ''METODO_CASH_ONLY''" "single_line_text ''METODO_DAILY_WARMUP_UNAVAILABLE''"
  by code_simp+

lemma evaluate_metodo_total:
  assumes "metodo_utc decision_at = Inr decision"
  shows "\<exists>item. evaluate_metodo digest market bars decision_at = Inr item \<and> wf_item item"
proof (cases "market = BINANCE_USDM")
  case False
  show ?thesis
  proof (cases "completed_before bars decision")
    case (Some completed)
    show ?thesis
    proof (cases "length completed < REQUIRED_DAILY_BARS")
      case long: False
      then obtain m s where "macd_series (map bar_close completed) = Inr (m, s)"
        using macd_series_total [of "map bar_close completed"] by (auto simp: metodo_constants)
      then show ?thesis using assms False Some long by (simp add: evaluate_metodo_def)
    qed (use assms False Some in \<open>simp add: evaluate_metodo_def wf_missing_item metodo_codes\<close>)
  qed (use assms False in \<open>simp add: evaluate_metodo_def wf_missing_item metodo_codes\<close>)
qed (use assms in \<open>simp add: evaluate_metodo_def wf_missing_item metodo_codes\<close>)

lemma metodo_facts_consistent:
  "\<not> (mf_trend_up (metodo_facts bars m s) \<and> mf_trend_down (metodo_facts bars m s))"
  "\<not> (mf_sma_6_70_cross_up (metodo_facts bars m s) \<and> mf_sma_6_70_cross_down (metodo_facts bars m s))"
  "\<not> (mf_macd_cross_up_above_zero (metodo_facts bars m s) \<and> mf_macd_cross_up_below_zero (metodo_facts bars m s))"
  "mf_same_bar_a_confirmation (metodo_facts bars m s) \<Longrightarrow> mf_normal_technical_confirmation (metodo_facts bars m s)"
  "mf_normal_technical_confirmation (metodo_facts bars m s) \<Longrightarrow> mf_trend_up (metodo_facts bars m s)"
  by (auto simp: metodo_facts_def Let_def)

section \<open>The side the divergence points to\<close>

definition aligned_macd_histogram :: "CompletedOhlcvBar list \<Rightarrow> (CompletedOhlcvBar list \<times> decimal list) option result" where
  "aligned_macd_histogram bars =
     (if length bars < MACD_WARMUP_BARS then Inr None
      else and_then (macd_series (map bar_close bars)) (\<lambda>(macd, signal).
        case next_where (\<lambda>i. macd ! i \<noteq> None \<and> signal ! i \<noteq> None) [0 ..< length bars] of
          None \<Rightarrow> Inr None
        | Some start \<Rightarrow>
            Inr (Some (drop start bars,
              map (\<lambda>i. dsub (the (macd ! i)) (the (signal ! i))) [start ..< length bars]))))"

definition regular_divergence :: "CompletedOhlcvBar list \<Rightarrow> DivergenceFacts option result" where
  "regular_divergence bars =
     and_then (aligned_macd_histogram bars) (\<lambda>aligned.
       case aligned of
         None \<Rightarrow> Inr None
       | Some (values, histogram) \<Rightarrow>
           and_then (evaluate_divergence values histogram None) (\<lambda>facts. Inr (Some facts)))"

definition SIDE_OF :: "DivergenceKind \<Rightarrow> Side option" where
  "SIDE_OF kind = (case kind of REGULAR_BULLISH \<Rightarrow> Some BUY | REGULAR_BEARISH \<Rightarrow> Some SELL | _ \<Rightarrow> None)"

text \<open>A \<^verbatim>\<open>frozenset\<close> of sides is the list of its elements.\<close>

definition divergence_directions :: "CompletedOhlcvBar list \<Rightarrow> Side list result" where
  "divergence_directions bars =
     and_then (regular_divergence bars) (\<lambda>facts.
       case facts of
         None \<Rightarrow> Inr []
       | Some d \<Rightarrow> Inr (remdups (List.map_filter (\<lambda>s. SIDE_OF (ds_kind s)) (df_regular d))))"

definition single_direction :: "Side list \<Rightarrow> Side option" where
  "single_direction directions = (if length directions = 1 then Some (hd directions) else None)"

definition divergence_side :: "CompletedOhlcvBar list \<Rightarrow> Side option result" where
  "divergence_side bars = and_then (divergence_directions bars) (\<lambda>directions. Inr (single_direction directions))"

lemma evaluate_divergence_total:
  "ascending_bars bars \<Longrightarrow> length oscillator = length bars \<Longrightarrow> \<exists>d. evaluate_divergence bars oscillator None = Inr d"
  by (simp add: evaluate_divergence_def pivot_bars_def confirmed_pivots_def Let_def)

lemma ascending_drop: "ascending_bars bars \<Longrightarrow> ascending_bars (drop n bars)"
  by (simp add: ascending_bars_sorted drop_map [symmetric] sorted_wrt_drop)

lemma regular_divergence_total:
  assumes "ascending_bars bars"
  shows "\<exists>r. regular_divergence bars = Inr r"
proof (cases "length bars < MACD_WARMUP_BARS")
  case False
  then obtain m s where ms: "macd_series (map bar_close bars) = Inr (m, s)" using macd_series_total by fastforce
  show ?thesis
  proof (cases "next_where (\<lambda>i. m ! i \<noteq> None \<and> s ! i \<noteq> None) [0 ..< length bars]")
    case (Some start)
    obtain d where "evaluate_divergence (drop start bars) (map (\<lambda>i. dsub (the (m ! i)) (the (s ! i))) [start ..< length bars]) None = Inr d"
      using evaluate_divergence_total [OF ascending_drop [OF assms, of start],
          of "map (\<lambda>i. dsub (the (m ! i)) (the (s ! i))) [start ..< length bars]"] by auto
    then show ?thesis using ms Some False by (simp add: regular_divergence_def aligned_macd_histogram_def)
  qed (use ms False in \<open>simp add: regular_divergence_def aligned_macd_histogram_def\<close>)
qed (simp add: regular_divergence_def aligned_macd_histogram_def)

lemma single_direction_iff: "single_direction (remdups xs) = Some side \<longleftrightarrow> set xs = {side}"
proof
  assume "single_direction (remdups xs) = Some side"
  then have "remdups xs = [side]" by (cases "remdups xs") (auto simp: single_direction_def split: if_splits)
  then show "set xs = {side}" by (metis list.set(1) list.simps(15) set_remdups)
next
  assume s: "set xs = {side}"
  then have l: "length (remdups xs) = 1" by (simp add: length_remdups_card_conv)
  then have "hd (remdups xs) \<in> set xs" by (metis hd_in_set length_0_conv set_remdups zero_neq_one)
  then show "single_direction (remdups xs) = Some side" using s l by (simp add: single_direction_def)
qed

lemma set_map_filter_single: "set (List.map_filter g xs) = {y} \<longleftrightarrow> g ` set xs - {None} = {Some y}"
proof -
  have "Some ` set (List.map_filter g xs) = g ` set xs - {None}"
    by (force simp: List.map_filter_def image_iff)
  then show ?thesis by (metis image_insert image_empty inj_Some inj_image_eq_iff)
qed

text \<open>When a side is chosen. For ascending bars the reading never raises, and it is a side exactly when the
  regular divergences of the history point to that side and to no other: neither an absent nor a
  contradictory reading is turned into a direction.\<close>

theorem side_needs_unanimous_divergence:
  assumes "ascending_bars bars"
  shows "\<exists>facts chosen. regular_divergence bars = Inr facts \<and> divergence_side bars = Inr chosen
    \<and> (\<forall>side. chosen = Some side \<longleftrightarrow>
         (\<exists>d. facts = Some d \<and> (\<lambda>s. SIDE_OF (ds_kind s)) ` set (df_regular d) - {None} = {Some side}))"
proof -
  obtain facts where f: "regular_divergence bars = Inr facts" using regular_divergence_total [OF assms] by blast
  show ?thesis
  proof (cases facts)
    case None
    then show ?thesis using f by (simp add: divergence_side_def divergence_directions_def single_direction_def)
  next
    case (Some d)
    then show ?thesis using f
      by (simp add: divergence_side_def divergence_directions_def single_direction_iff set_map_filter_single)
  qed
qed

section \<open>The regime\<close>

datatype RegimeLabel = TREND_UP | TREND_DOWN | BALANCE

definition BOTTOM_QUINTILE :: decimal where "BOTTOM_QUINTILE = 20 / 100"
definition UPPER_DECILE :: decimal where "UPPER_DECILE = 90 / 100"
definition LOWER_DECILE :: decimal where "LOWER_DECILE = 10 / 100"

record PessimismInputs =
  pi_completed_date :: "int option"
  pi_volatility_percentile :: "decimal option"
  pi_put_call_percentile :: "decimal option"
  pi_breadth_percentile :: "decimal option"

definition percentile_check :: "string \<times> decimal option \<Rightarrow> bool \<times> py_error" where
  "percentile_check nv =
     ((case snd nv of None \<Rightarrow> False | Some p \<Rightarrow> \<not> (0 \<le> p \<and> p \<le> 1)), ValueError (fst nv @ '' must be between zero and one''))"

definition PessimismInputs_checks :: "PessimismInputs \<Rightarrow> checks" where
  "PessimismInputs_checks p =
     map percentile_check
       [(''volatility_percentile'', pi_volatility_percentile p), (''put_call_percentile'', pi_put_call_percentile p),
        (''breadth_percentile'', pi_breadth_percentile p)]"

record RegimeFacts =
  rf_state :: EvidenceState
  rf_trend :: "RegimeLabel option"
  rf_sideways :: "bool option"
  rf_low_volatility :: "bool option"
  rf_pessimism_extreme :: "bool option"
  rf_excluded :: bool

definition daily_returns :: "decimal list \<Rightarrow> decimal list result" where
  "daily_returns closes =
     (if list_ex (\<lambda>price. price \<le> 0) closes then Inl (ValueError ''a close must be positive'')
      else Inr (map (\<lambda>(earlier, later). ddiv (dsub later earlier) earlier) (pairwise closes)))"

text \<open>The loop of \<^verbatim>\<open>_trend\<close> that rebuilds the levels.\<close>

fun levels_from :: "decimal \<Rightarrow> decimal list \<Rightarrow> decimal list" where
  "levels_from level [] = [level]"
| "levels_from level (r # rs) = level # levels_from (dmul level (dadd 1 r)) rs"

definition trend_of :: "decimal list \<Rightarrow> RegimeLabel option" where
  "trend_of returns =
     (if length returns < 200 then None
      else let levels = levels_from 1 returns;
               sma_200 = ddiv (dsum (last_n 200 levels)) 200;
               previous_sma_200 = ddiv (dsum (butlast (last_n 201 levels))) 200;
               sma_70 = ddiv (dsum (last_n 70 levels)) 70;
               previous_sma_70 = ddiv (dsum (butlast (last_n 71 levels))) 70
           in if sma_200 > previous_sma_200 \<and> sma_70 > sma_200 \<and> sma_70 > previous_sma_70 then Some TREND_UP
              else if sma_200 < previous_sma_200 \<and> sma_70 < sma_200 \<and> sma_70 < previous_sma_70 then Some TREND_DOWN
              else Some BALANCE)"

definition pessimism_extreme :: "PessimismInputs \<Rightarrow> bool option" where
  "pessimism_extreme p =
     (if pi_completed_date p = None then None
      else let matches = map (\<lambda>percentile. UPPER_DECILE \<le> percentile)
                 (List.map_filter id [pi_volatility_percentile p, pi_put_call_percentile p])
               @ (case pi_breadth_percentile p of None \<Rightarrow> [] | Some b \<Rightarrow> [b \<le> LOWER_DECILE])
           in if length matches < 2 then None else Some (2 \<le> length (filter id matches)))"

definition percentile :: "string \<Rightarrow> decimal option \<Rightarrow> decimal option result" where
  "percentile name v =
     (case v of None \<Rightarrow> Inr None
      | Some p \<Rightarrow> if \<not> (0 \<le> p \<and> p \<le> 1) then Inl (ValueError (name @ '' must be a point-in-time percentile'')) else Inr (Some p))"

definition checked_returns :: "decimal list \<Rightarrow> decimal list result" where
  "checked_returns values =
     (if list_ex (\<lambda>r. r \<le> - 1) values then Inl (ValueError ''benchmark return must be greater than negative one'') else Inr values)"

definition evaluate_regime ::
  "decimal list \<Rightarrow> decimal option \<Rightarrow> decimal option \<Rightarrow> PessimismInputs option \<Rightarrow> RegimeFacts result" where
  "evaluate_regime benchmark_returns atr_ratio range_efficiency pessimism_inputs =
     and_then (percentile ''atr_ratio'' atr_ratio) (\<lambda>volatility.
     and_then (percentile ''range_efficiency'' range_efficiency) (\<lambda>efficiency.
     and_then (checked_returns benchmark_returns) (\<lambda>returns.
       let trend = trend_of returns
       in Inr \<lparr>rf_state = (if trend \<noteq> None then AVAILABLE else UNAVAILABLE), rf_trend = trend,
               rf_sideways = map_option (\<lambda>e. e \<le> BOTTOM_QUINTILE) efficiency,
               rf_low_volatility = map_option (\<lambda>v. v \<le> BOTTOM_QUINTILE) volatility,
               rf_pessimism_extreme = (case pessimism_inputs of None \<Rightarrow> None | Some p \<Rightarrow> pessimism_extreme p),
               rf_excluded = (trend = None)\<rparr>)))"

lemma length_levels_from [simp]: "length (levels_from l rs) = Suc (length rs)"
  by (induction l rs rule: levels_from.induct) simp_all

text \<open>The regime is excluded exactly for want of history; nothing else that is measured excludes a trade.\<close>

lemma regime_excluded_iff:
  assumes "evaluate_regime returns atr eff pess = Inr f"
  shows "rf_excluded f \<longleftrightarrow> length returns < 200" "rf_state f = AVAILABLE \<longleftrightarrow> \<not> rf_excluded f"
  using assms by (auto simp: evaluate_regime_def and_then_eq_Inr_iff checked_returns_def trend_of_def Let_def split: if_splits)

lemma extreme_needs_two:
  assumes "pessimism_extreme p = Some True"
  shows "2 \<le> length (filter (\<lambda>v. v \<noteq> None) [pi_volatility_percentile p, pi_put_call_percentile p, pi_breadth_percentile p])"
  using assms
  by (auto simp: pessimism_extreme_def Let_def List.map_filter_def split: if_splits option.splits)

section \<open>Witnesses\<close>

theorem macd_does_not_repaint_witness:
  "\<exists>macd signal macd' signal'. macd_series (replicate 40 100) = Inr (macd, signal)
    \<and> macd_series (replicate 40 100 @ [90, 95]) = Inr (macd', signal')
    \<and> take 40 macd' = macd \<and> take 40 signal' = signal \<and> length macd' = 42"
proof -
  obtain macd signal where m: "macd_series (replicate 40 100) = Inr (macd, signal)"
    using macd_series_total [of "replicate 40 100"] by (auto simp: metodo_constants)
  from macd_does_not_repaint [OF m, of "[90, 95]"] m show ?thesis by auto
qed

theorem ema_within_price_range_witness:
  "\<exists>values v. ema [10, 20, 30] 2 = Inr values \<and> Some v \<in> set values \<and> 10 \<le> v \<and> v \<le> 30"
proof -
  let ?seed = "ddiv (dsum [10, 20]) 2"
  let ?averages = "[None, Some ?seed, Some (dadd ?seed (dmul (ema_multiplier 2) (dsub 30 ?seed)))]"
  have e: "ema [10, 20, 30] 2 = Inr ?averages" by (simp add: ema_def Let_def)
  have "grid_price 0 10" "grid_price 0 20" "grid_price 0 30"
    unfolding grid_price_def by (rule exI [of _ 10], simp) (rule exI [of _ 20], simp, rule exI [of _ 30], simp)
  then have g: "\<forall>x \<in> set [10, 20, 30]. grid_price 0 x" by simp
  have "Some (dadd ?seed (dmul (ema_multiplier 2) (dsub 30 ?seed))) \<in> set ?averages" by simp
  from ema_within_price_range [OF e _ _ g this] this e show ?thesis by (intro exI conjI) (assumption | simp)+
qed

theorem side_needs_unanimous_divergence_witness:
  "divergence_side [swing_bar 0 50, swing_bar 60 60] = Inr None"
proof -
  have a: "ascending_bars [swing_bar 0 50, swing_bar 60 60]" by code_simp
  have "regular_divergence [swing_bar 0 50, swing_bar 60 60] = Inr None" by code_simp
  with side_needs_unanimous_divergence [OF a] show ?thesis by (metis Inr_inject option.distinct(1) option.exhaust)
qed

end
