(* ===== verification/OrderFlow.thy ===== *)
theory OrderFlow
  imports Metodo
begin

text \<open>
  \<^verbatim>\<open>strategies/david_v6/order_flow.py\<close>: prints of a window, deduplicated, aggregated to events and
  to thirty-second bars, and the observations read from them. Shown: the facts do not depend on the order
  or the repetition in which prints arrive, the events split the prints of a window greedily into runs of
  one aggressor, and the big trades are the largest events, at most three, or unmeasured.
\<close>

section \<open>Prints\<close>

definition CLUSTER_GAP :: timedelta where "CLUSTER_GAP = 150000"
definition THIRTY_SECONDS :: timedelta where "THIRTY_SECONDS = 30000000"

datatype AggressorSide = AGGRESSOR_BUY | AGGRESSOR_SELL

datatype BigTradeClass = NORMAL_TRADE | EXTREME_TRADE

record TradePrint =
  tp_provider_trade_id :: string
  tp_occurred_at :: instant
  tp_price :: "decimal option"
  tp_quantity :: "decimal option"
  tp_buyer_maker :: "bool option"

definition TradePrint_checks :: "TradePrint \<Rightarrow> checks" where
  "TradePrint_checks t =
     [(\<not> trimmed_text (tp_provider_trade_id t), ValueError ''provider_trade_id must be non-empty trimmed text''),
      ((case tp_price t of None \<Rightarrow> False | Some p \<Rightarrow> p \<le> 0), ValueError ''trade price must be positive''),
      ((case tp_quantity t of None \<Rightarrow> False | Some q \<Rightarrow> q \<le> 0), ValueError ''trade quantity must be positive'')]"

definition print_side :: "TradePrint \<Rightarrow> AggressorSide option" where
  "print_side t = map_option (\<lambda>maker. if maker then AGGRESSOR_SELL else AGGRESSOR_BUY) (tp_buyer_maker t)"

definition notional_opt :: "TradePrint \<Rightarrow> decimal option" where
  "notional_opt t = (case (tp_price t, tp_quantity t) of (Some p, Some q) \<Rightarrow> Some (dmul p q) | _ \<Rightarrow> None)"

text \<open>The casts of the source, applied only where the value is present.\<close>

definition price_of :: "TradePrint \<Rightarrow> decimal" where "price_of t = the (tp_price t)"
definition notional_of :: "TradePrint \<Rightarrow> decimal" where "notional_of t = the (notional_opt t)"

definition BIG_TRADE_NORMAL_QUANTILE :: decimal where "BIG_TRADE_NORMAL_QUANTILE = 995 / 1000"
definition BIG_TRADE_EXTREME_QUANTILE :: decimal where "BIG_TRADE_EXTREME_QUANTILE = 999 / 1000"
definition MINIMUM_BIG_TRADE_EVENTS :: nat where "MINIMUM_BIG_TRADE_EVENTS = 200"
definition BIG_TRADE_EVENTS_PER_LIQUIDITY_SESSION :: int where "BIG_TRADE_EVENTS_PER_LIQUIDITY_SESSION = 20"
definition LIQUIDITY_SESSION :: timedelta where "LIQUIDITY_SESSION = 14400000000"
definition BIG_TRADE_WINDOW :: timedelta where "BIG_TRADE_WINDOW = 1800000000"

definition MAXIMUM_BIG_TRADE_MARKERS :: nat where
  "MAXIMUM_BIG_TRADE_MARKERS =
     nat \<lceil>(of_int (BIG_TRADE_EVENTS_PER_LIQUIDITY_SESSION * BIG_TRADE_WINDOW) / of_int LIQUIDITY_SESSION :: rat)\<rceil>"

definition DELTA_QUANTILE :: decimal where "DELTA_QUANTILE = 90 / 100"
definition MINIMUM_DELTA_BARS :: nat where "MINIMUM_DELTA_BARS = 20"

record OrderFlowThresholds =
  ot_tick_size :: decimal
  ot_atr_30s :: decimal
  ot_ceros_near_zero_notional :: "decimal option"
  ot_ceros_large_notional :: "decimal option"

definition OrderFlowThresholds_checks :: "OrderFlowThresholds \<Rightarrow> checks" where
  "OrderFlowThresholds_checks h =
     [(ot_tick_size h \<le> 0, ValueError ''tick_size must be positive''),
      (ot_atr_30s h \<le> 0, ValueError ''atr_30s must be positive''),
      ((case ot_ceros_near_zero_notional h of None \<Rightarrow> False | Some v \<Rightarrow> v \<le> 0),
         ValueError ''ceros_near_zero_notional must be positive when present''),
      ((case ot_ceros_large_notional h of None \<Rightarrow> False | Some v \<Rightarrow> v \<le> 0),
         ValueError ''ceros_large_notional must be positive when present''),
      ((ot_ceros_near_zero_notional h = None) \<noteq> (ot_ceros_large_notional h = None),
         ValueError ''both Ceros thresholds are present or neither is''),
      ((case (ot_ceros_near_zero_notional h, ot_ceros_large_notional h) of (Some n, Some l) \<Rightarrow> l < n | _ \<Rightarrow> False),
         ValueError ''Ceros large threshold cannot be below near-zero'')]"

record BigTradeCluster =
  bt_side :: AggressorSide
  bt_started_at :: instant
  bt_ended_at :: instant
  bt_low_price :: decimal
  bt_high_price :: decimal
  bt_trade_count :: nat
  bt_summed_notional :: decimal
  bt_classification :: BigTradeClass

record OrderFlowFacts =
  of_state :: EvidenceState
  of_trade_count :: nat
  of_unknown_aggressor_count :: nat
  of_buy_notional :: decimal
  of_sell_notional :: decimal
  of_delta_notional :: "decimal option"
  of_big_trades :: "BigTradeCluster list option"
  of_reversal_mig :: "bool option"
  of_continuation_mig :: "bool option"
  of_secado :: "bool option"
  of_ceros :: "bool option"
  of_telemetry_only :: bool

record FlowBar =
  fb_index :: int
  fb_open :: decimal
  fb_high :: decimal
  fb_low :: decimal
  fb_close :: decimal
  fb_volume :: decimal
  fb_delta :: "decimal option"
  fb_point_of_control :: decimal

text \<open>\<^verbatim>\<open>_deduplicate\<close>, which the order flow and the profile share.\<close>

definition deduplicate_prints :: "TradePrint list \<Rightarrow> TradePrint list result" where
  "deduplicate_prints trades =
     (case deduplicated tp_provider_trade_id (\<lambda>t. (tp_occurred_at t, tp_provider_trade_id t)) trades of
        None \<Rightarrow> Inl (ValueError ''provider trade identity payload collision'')
      | Some prints \<Rightarrow> Inr prints)"

section \<open>Events and big trades\<close>

definition prices_of :: "TradePrint list \<Rightarrow> decimal set" where
  "prices_of trades = set (map price_of trades)"

text \<open>A print joins the event of the prints before it.\<close>

definition joins :: "decimal \<Rightarrow> TradePrint list \<Rightarrow> TradePrint \<Rightarrow> bool" where
  "joins tick cluster trade =
     (print_side trade = print_side (last cluster)
      \<and> tp_occurred_at trade - tp_occurred_at (last cluster) \<le> CLUSTER_GAP
      \<and> dsub (Max (prices_of (cluster @ [trade]))) (Min (prices_of (cluster @ [trade]))) \<le> dmul 2 tick)"

fun event_groups :: "decimal \<Rightarrow> TradePrint list \<Rightarrow> TradePrint list \<Rightarrow> TradePrint list list" where
  "event_groups tick cluster [] = [cluster]"
| "event_groups tick cluster (trade # trades) =
     (if joins tick cluster trade then event_groups tick (cluster @ [trade]) trades
      else cluster # event_groups tick [trade] trades)"

fun events :: "TradePrint list \<Rightarrow> OrderFlowThresholds \<Rightarrow> TradePrint list list" where
  "events [] h = []"
| "events (trade # trades) h = event_groups (ot_tick_size h) [trade] trades"

definition event_notional :: "TradePrint list \<Rightarrow> decimal" where
  "event_notional cluster = dsum (map notional_of cluster)"

definition big_trade_quantile :: "decimal list \<Rightarrow> decimal \<Rightarrow> decimal result" where
  "big_trade_quantile notionals quantile =
     (if notionals = [] then Inl (ValueError ''a quantile needs at least one value'')
      else Inr (rank_value quantile notionals))"

definition cluster_of :: "decimal \<Rightarrow> TradePrint list \<times> decimal \<Rightarrow> BigTradeCluster result" where
  "cluster_of extreme gs =
     (case gs of (cluster, summed) \<Rightarrow>
        (case print_side (hd cluster) of
           None \<Rightarrow> Inl AssertionError
         | Some side \<Rightarrow>
             Inr \<lparr>bt_side = side, bt_started_at = tp_occurred_at (hd cluster), bt_ended_at = tp_occurred_at (last cluster),
                  bt_low_price = Min (prices_of cluster), bt_high_price = Max (prices_of cluster),
                  bt_trade_count = length cluster, bt_summed_notional = summed,
                  bt_classification = (if extreme \<le> summed then EXTREME_TRADE else NORMAL_TRADE)\<rparr>))"

fun collect_results :: "'a result list \<Rightarrow> 'a list result" where
  "collect_results [] = Inr []"
| "collect_results (r # rs) = and_then r (\<lambda>x. and_then (collect_results rs) (\<lambda>xs. Inr (x # xs)))"

text \<open>The positions of the markers that are kept: the largest first, ties by the later position.\<close>

definition marker_positions :: "decimal list \<Rightarrow> decimal \<Rightarrow> nat list" where
  "marker_positions notionals normal =
     map snd (take MAXIMUM_BIG_TRADE_MARKERS
       (rev (sort (filter (\<lambda>(summed, _). normal \<le> summed) (zip notionals [0 ..< length notionals])))))"

definition big_trades :: "TradePrint list \<Rightarrow> OrderFlowThresholds \<Rightarrow> BigTradeCluster list option result" where
  "big_trades trades h =
     (let groups = events trades h
      in if length groups < MINIMUM_BIG_TRADE_EVENTS then Inr None
         else let notionals = map event_notional groups
              in and_then (big_trade_quantile notionals BIG_TRADE_NORMAL_QUANTILE) (\<lambda>normal.
                 and_then (big_trade_quantile notionals BIG_TRADE_EXTREME_QUANTILE) (\<lambda>extreme.
                 and_then (collect_results (map (cluster_of extreme)
                     (map (\<lambda>i. (groups ! i, notionals ! i))
                        (filter (\<lambda>i. i \<in> set (marker_positions notionals normal)) [0 ..< length groups]))))
                   (\<lambda>clusters. Inr (Some clusters)))))"

section \<open>Thirty-second bars\<close>

definition flow_index :: "instant \<Rightarrow> TradePrint \<Rightarrow> int" where
  "flow_index start t = (tp_occurred_at t - start) div THIRTY_SECONDS"

definition notional_at :: "TradePrint list \<Rightarrow> decimal \<Rightarrow> decimal" where
  "notional_at cluster price = dsum (map notional_of (filter (\<lambda>t. price_of t = price) cluster))"

definition signed_notional :: "TradePrint \<Rightarrow> decimal" where
  "signed_notional t = dmul (notional_of t) (if print_side t = Some AGGRESSOR_BUY then 1 else - 1)"

definition flow_bar :: "int \<Rightarrow> TradePrint list \<Rightarrow> FlowBar" where
  "flow_bar index cluster =
     \<lparr>fb_index = index, fb_open = price_of (hd cluster), fb_high = Max (prices_of cluster), fb_low = Min (prices_of cluster),
      fb_close = price_of (last cluster), fb_volume = dsum (map (\<lambda>t. the (tp_quantity t)) cluster),
      fb_delta = (if list_all (\<lambda>t. print_side t \<noteq> None) cluster then Some (dsum (map signed_notional cluster)) else None),
      fb_point_of_control =
        Min (set (filter (\<lambda>p. notional_at cluster p = Max (set (map (notional_at cluster) (map price_of cluster))))
               (map price_of cluster)))\<rparr>"

definition complete_bar :: "instant \<Rightarrow> instant \<Rightarrow> int \<Rightarrow> bool" where
  "complete_bar start end_at index = (start + (index + 1) * THIRTY_SECONDS \<le> end_at)"

definition flow_bars :: "TradePrint list \<Rightarrow> instant \<Rightarrow> instant \<Rightarrow> FlowBar list" where
  "flow_bars trades start end_at =
     map (\<lambda>index. flow_bar index (filter (\<lambda>t. flow_index start t = index) trades))
       (filter (complete_bar start end_at) (sorted_set (map (flow_index start) trades)))"

definition delta_threshold :: "FlowBar list \<Rightarrow> decimal option" where
  "delta_threshold bars =
     (let magnitudes = map dabs (List.map_filter fb_delta bars)
      in if length magnitudes < MINIMUM_DELTA_BARS then None else Some (rank_value DELTA_QUANTILE magnitudes))"

definition deltas_unknown :: "FlowBar list \<Rightarrow> bool" where
  "deltas_unknown bars = (length bars < 2 \<or> list_ex (\<lambda>b. fb_delta b = None) bars)"

text \<open>One step of the loop of \<^verbatim>\<open>_reversal_mig\<close> on an event and the bar that confirms it.\<close>

definition reversal_at :: "OrderFlowThresholds \<Rightarrow> decimal \<Rightarrow> FlowBar \<times> FlowBar \<Rightarrow> bool" where
  "reversal_at h threshold ec =
     (case ec of (event, confirmation) \<Rightarrow>
       (let width = dsub (fb_high event) (fb_low event); delta = the (fb_delta event);
            close_location = ddiv (dsub (fb_close event) (fb_low event)) width
        in fb_index confirmation = fb_index event + 1 \<and> fb_delta event \<noteq> None
           \<and> \<not> (width \<le> 0 \<or> dabs delta < threshold)
           \<and> \<not> dmul (15 / 100) (ot_atr_30s h) < dabs (dsub (fb_close event) (fb_open event))
           \<and> (if delta < 0
              then 35 / 100 \<le> ddiv (dsub (min (fb_open event) (fb_close event)) (fb_low event)) width
                   \<and> 65 / 100 \<le> close_location \<and> fb_high event < fb_high confirmation
              else 35 / 100 \<le> ddiv (dsub (fb_high event) (max (fb_open event) (fb_close event))) width
                   \<and> close_location \<le> 35 / 100 \<and> fb_low confirmation < fb_low event)))"

definition reversal_mig :: "FlowBar list \<Rightarrow> OrderFlowThresholds \<Rightarrow> decimal option \<Rightarrow> bool option" where
  "reversal_mig bars h threshold =
     (case threshold of
        None \<Rightarrow> None
      | Some limit \<Rightarrow> if deltas_unknown bars then None else Some (list_ex (reversal_at h limit) (pairwise bars)))"

definition continuation_at :: "FlowBar \<times> FlowBar \<Rightarrow> bool" where
  "continuation_at ec =
     (case ec of (event, confirmation) \<Rightarrow>
       (let width = dsub (fb_high event) (fb_low event); body = dabs (dsub (fb_close event) (fb_open event));
            delta = the (fb_delta event)
        in fb_index confirmation = fb_index event + 1 \<and> fb_delta event \<noteq> None
           \<and> \<not> (width \<le> 0 \<or> ddiv body width < 60 / 100)
           \<and> ((fb_open event < fb_close event \<and> 0 < delta
                \<and> ddiv (dsub (fb_high event) (fb_close event)) width \<le> 15 / 100
                \<and> dsub (fb_close event) (dmul (50 / 100) body) \<le> fb_low confirmation)
              \<or> (fb_close event < fb_open event \<and> delta < 0
                \<and> ddiv (dsub (fb_close event) (fb_low event)) width \<le> 15 / 100
                \<and> fb_high confirmation \<le> dadd (fb_close event) (dmul (50 / 100) body)))))"

definition continuation_mig :: "FlowBar list \<Rightarrow> bool option" where
  "continuation_mig bars = (if deltas_unknown bars then None else Some (list_ex continuation_at (pairwise bars)))"

definition secado_at :: "OrderFlowThresholds \<Rightarrow> decimal \<Rightarrow> FlowBar \<Rightarrow> FlowBar \<Rightarrow> FlowBar list \<Rightarrow> bool" where
  "secado_at h threshold event second reclaim_bars =
     (let delta = the (fb_delta event); second_delta = the (fb_delta second);
          progress_limit = max (dmul 2 (ot_tick_size h)) (dmul (15 / 100) (ot_atr_30s h))
      in fb_index second = fb_index event + 1 \<and> fb_delta event \<noteq> None \<and> fb_delta second \<noteq> None
         \<and> \<not> (dabs delta < threshold
               \<or> progress_limit < dabs (dsub (fb_close event) (fb_open event))
               \<or> dmul (65 / 100) (dabs delta) < dabs second_delta
               \<or> dmul (75 / 100) (fb_volume event) < fb_volume second)
         \<and> ((delta < 0 \<and> list_ex (\<lambda>b. fb_point_of_control event \<le> fb_high b) reclaim_bars)
            \<or> (0 < delta \<and> list_ex (\<lambda>b. fb_low b \<le> fb_point_of_control event) reclaim_bars)))"

fun secado_from :: "OrderFlowThresholds \<Rightarrow> decimal \<Rightarrow> FlowBar list \<Rightarrow> bool" where
  "secado_from h threshold (event # second # rest) =
     (secado_at h threshold event second (take 2 (second # rest)) \<or> secado_from h threshold (second # rest))"
| "secado_from h threshold _ = False"

definition secado :: "FlowBar list \<Rightarrow> OrderFlowThresholds \<Rightarrow> decimal option \<Rightarrow> bool option" where
  "secado bars h threshold =
     (case threshold of
        None \<Rightarrow> None
      | Some limit \<Rightarrow> if deltas_unknown bars then None else Some (secado_from h limit bars))"

definition side_notional_at :: "TradePrint list \<Rightarrow> AggressorSide \<Rightarrow> decimal \<Rightarrow> decimal" where
  "side_notional_at trades side price =
     dsum (map notional_of (filter (\<lambda>t. price_of t = price \<and> print_side t = Some side) trades))"

text \<open>A level of \<^verbatim>\<open>_ceros\<close> qualifies; the infinite imbalance of an empty side exceeds every bound.\<close>

definition ceros_level :: "TradePrint list \<Rightarrow> OrderFlowThresholds \<Rightarrow> decimal \<Rightarrow> bool" where
  "ceros_level trades h price =
     (let minimum = Min (prices_of trades); maximum = Max (prices_of trades); width = dsub maximum minimum;
          buy = side_notional_at trades AGGRESSOR_BUY price; sell = side_notional_at trades AGGRESSOR_SELL price;
          smaller = min buy sell; larger = max buy sell
      in case (ot_ceros_near_zero_notional h, ot_ceros_large_notional h) of
           (Some near_zero, Some large) \<Rightarrow>
             smaller \<le> near_zero \<and> large \<le> larger \<and> (if 0 < smaller then 4 \<le> ddiv larger smaller else True)
             \<and> (price \<le> dadd minimum (dmul (30 / 100) width) \<or> dsub maximum (dmul (30 / 100) width) \<le> price)
         | _ \<Rightarrow> False)"

definition ceros :: "TradePrint list \<Rightarrow> OrderFlowThresholds \<Rightarrow> bool option" where
  "ceros trades h =
     (if trades = [] \<or> list_ex (\<lambda>t. print_side t = None) trades then None
      else let ordered = sorted_set (filter (ceros_level trades h) (map price_of trades))
           in Some (list_ex (\<lambda>(previous, current). dsub current previous = ot_tick_size h) (pairwise ordered)))"

section \<open>The facts of a window\<close>

definition flow_unavailable :: OrderFlowFacts where
  "flow_unavailable =
     \<lparr>of_state = UNAVAILABLE, of_trade_count = 0, of_unknown_aggressor_count = 0, of_buy_notional = 0,
      of_sell_notional = 0, of_delta_notional = None, of_big_trades = Some [], of_reversal_mig = None,
      of_continuation_mig = None, of_secado = None, of_ceros = None, of_telemetry_only = True\<rparr>"

definition flow_utc :: "string \<Rightarrow> py_datetime \<Rightarrow> instant result" where
  "flow_utc name t =
     (case t of Naive _ \<Rightarrow> Inl (ValueError (name @ '' must be timezone-aware''))
      | AwareUTC u \<Rightarrow> Inr u | AwareOther u \<Rightarrow> Inr u)"

definition side_notional :: "TradePrint list \<Rightarrow> AggressorSide \<Rightarrow> decimal" where
  "side_notional trades side = dsum (map notional_of (filter (\<lambda>t. print_side t = Some side) trades))"

text \<open>The facts of the deduplicated prints of a window, all of them with a notional.\<close>

definition measured_flow ::
  "TradePrint list \<Rightarrow> instant \<Rightarrow> instant \<Rightarrow> OrderFlowThresholds \<Rightarrow> OrderFlowFacts result" where
  "measured_flow prints start end_at h =
     (let known = filter (\<lambda>t. print_side t \<noteq> None) prints;
          buy = side_notional known AGGRESSOR_BUY; sell = side_notional known AGGRESSOR_SELL;
          unknown_count = length prints - length known;
          bars = flow_bars prints start end_at; threshold = delta_threshold bars
      in and_then (big_trades known h) (\<lambda>clusters.
           Inr \<lparr>of_state = (if 0 < unknown_count then EVIDENCE_UNKNOWN else AVAILABLE),
                of_trade_count = length prints, of_unknown_aggressor_count = unknown_count,
                of_buy_notional = buy, of_sell_notional = sell,
                of_delta_notional = (if 0 < unknown_count then None else Some (dsub buy sell)),
                of_big_trades = clusters, of_reversal_mig = reversal_mig bars h threshold,
                of_continuation_mig = continuation_mig bars, of_secado = secado bars h threshold,
                of_ceros = ceros prints h, of_telemetry_only = True\<rparr>))"

definition in_window :: "instant \<Rightarrow> instant \<Rightarrow> TradePrint \<Rightarrow> bool" where
  "in_window start end_at t = (start \<le> tp_occurred_at t \<and> tp_occurred_at t < end_at)"

definition aggregate_order_flow ::
  "TradePrint list \<Rightarrow> py_datetime \<Rightarrow> py_datetime \<Rightarrow> OrderFlowThresholds \<Rightarrow> OrderFlowFacts result" where
  "aggregate_order_flow trades window_start window_end h =
     and_then (flow_utc ''window_start'' window_start) (\<lambda>start.
     and_then (flow_utc ''window_end'' window_end) (\<lambda>end_at.
       if end_at \<le> start then Inl (ValueError ''order-flow window must be positive'')
       else and_then (deduplicate_prints (filter (in_window start end_at) trades)) (\<lambda>prints.
              if list_ex (\<lambda>t. notional_opt t = None) prints then Inr flow_unavailable
              else measured_flow prints start end_at h)))"

definition true_range :: "FlowBar \<times> FlowBar \<Rightarrow> decimal" where
  "true_range pc =
     (case pc of (previous, current) \<Rightarrow>
        max (dsub (fb_high current) (fb_low current))
          (max (dabs (dsub (fb_high current) (fb_close previous))) (dabs (dsub (fb_low current) (fb_close previous)))))"

text \<open>A print without a notional in a complete bar fails to add up: the source checks notionals only in
  \<^verbatim>\<open>aggregate_order_flow\<close>.\<close>

definition thirty_second_atr ::
  "TradePrint list \<Rightarrow> py_datetime \<Rightarrow> py_datetime \<Rightarrow> nat \<Rightarrow> decimal option result" where
  "thirty_second_atr trades window_start window_end window =
     and_then (flow_utc ''window_start'' window_start) (\<lambda>start.
     and_then (flow_utc ''window_end'' window_end) (\<lambda>end_at.
       if end_at \<le> start then Inl (ValueError ''the thirty-second window must be positive'')
       else and_then (deduplicate_prints (filter (in_window start end_at) trades)) (\<lambda>prints.
              let bars = flow_bars prints start end_at
              in if list_ex (\<lambda>t. notional_opt t = None \<and> complete_bar start end_at (flow_index start t)) prints
                 then Inl (TypeError ''unsupported operand type(s)'')
                 else if length bars \<le> window then Inr None
                 else let ranges = map true_range (pairwise (last_n (window + 1) bars));
                          average = ddiv (dsum ranges) (of_nat (length ranges))
                      in Inr (if 0 < average then Some average else None))))"

definition blocking_big_trade_ahead :: "OrderFlowFacts \<Rightarrow> Side \<Rightarrow> decimal \<Rightarrow> bool result" where
  "blocking_big_trade_ahead facts side reference_price =
     (if reference_price \<le> 0 then Inl (ValueError ''reference_price must be positive'')
      else case of_big_trades facts of
             None \<Rightarrow> Inl BigTradesUnmeasured
           | Some clusters \<Rightarrow>
               let opposing = (if side = BUY then AGGRESSOR_SELL else AGGRESSOR_BUY)
               in Inr (list_ex (\<lambda>c. bt_side c = opposing
                    \<and> (if side = BUY then reference_price \<le> bt_high_price c else bt_low_price c \<le> reference_price)) clusters))"

section \<open>The order of arrival does not matter\<close>

lemma deduplicate_prints_cong: "set xs = set ys \<Longrightarrow> deduplicate_prints xs = deduplicate_prints ys"
  unfolding deduplicate_prints_def by (subst deduplicated_cong) auto

lemma sorted_first_key: "sorted (map (\<lambda>x. (f x, g x)) xs) \<Longrightarrow> sorted (map f xs)"
  by (induction xs) auto

lemma deduplicate_prints_Inr:
  assumes "deduplicate_prints trades = Inr prints"
  shows "set prints = set trades" "distinct prints" "sorted (map tp_occurred_at prints)"
proof -
  have d: "deduplicated tp_provider_trade_id (\<lambda>t. (tp_occurred_at t, tp_provider_trade_id t)) trades = Some prints"
    using assms by (simp add: deduplicate_prints_def split: option.splits)
  show "set prints = set trades" by (rule deduplicated_Some(1) [OF d])
  show "distinct prints" by (rule deduplicated_Some(4) [OF d])
  show "sorted (map tp_occurred_at prints)"
    by (rule sorted_first_key [OF deduplicated_Some(3) [OF d]])
qed

text \<open>C11: the order flow of a window depends only on which prints it holds. Prints that arrive in another order,
  that are delivered again, or that lie outside the window leave every fact unchanged, refusals included.\<close>

theorem order_flow_ignores_arrival_order:
  assumes "flow_utc ''window_start'' ws = Inr start" "flow_utc ''window_end'' we = Inr end_at"
    and "{t \<in> set trades. in_window start end_at t} = {t \<in> set trades'. in_window start end_at t}"
  shows "aggregate_order_flow trades ws we h = aggregate_order_flow trades' ws we h"
proof -
  have "deduplicate_prints (filter (in_window start end_at) trades) = deduplicate_prints (filter (in_window start end_at) trades')"
    using assms(3) by (intro deduplicate_prints_cong) simp
  then show ?thesis using assms(1,2) by (simp add: aggregate_order_flow_def)
qed

section \<open>Events\<close>

text \<open>An event: prints of one aggressor, each joined to the ones before it.\<close>

definition is_event :: "decimal \<Rightarrow> TradePrint list \<Rightarrow> bool" where
  "is_event tick g \<longleftrightarrow>
     g \<noteq> [] \<and> (\<forall>t \<in> set g. print_side t = print_side (hd g))
     \<and> list_all (\<lambda>(a, b). tp_occurred_at b - tp_occurred_at a \<le> CLUSTER_GAP) (pairwise g)
     \<and> dsub (Max (prices_of g)) (Min (prices_of g)) \<le> dmul 2 tick"

lemma is_event_single: "0 \<le> tick \<Longrightarrow> is_event tick [t]"
  by (simp add: is_event_def prices_of_def dsub_def dmul_def)

lemma is_event_snoc:
  assumes "is_event tick g" "joins tick g t"
  shows "is_event tick (g @ [t])"
proof -
  have ne: "g \<noteq> []" and sides: "\<forall>t \<in> set g. print_side t = print_side (hd g)"
    and gaps: "list_all (\<lambda>(a, b). tp_occurred_at b - tp_occurred_at a \<le> CLUSTER_GAP) (pairwise g)"
    using assms(1) unfolding is_event_def by blast+
  have "print_side (last g) = print_side (hd g)" by (rule bspec [OF sides]) (simp add: ne)
  moreover have "print_side t = print_side (last g)" using assms(2) unfolding joins_def by blast
  ultimately have "print_side t = print_side (hd g)" by (rule trans [rotated])
  then have "\<forall>t' \<in> set (g @ [t]). print_side t' = print_side (hd (g @ [t]))" using sides ne by (metis Un_iff empty_iff hd_append2 insert_iff list.set(1) list.simps(15) set_append)
  moreover have "list_all (\<lambda>(a, b). tp_occurred_at b - tp_occurred_at a \<le> CLUSTER_GAP) (pairwise (g @ [t]))"
    using gaps ne assms(2) by (simp add: pairwise_snoc joins_def)
  ultimately show ?thesis using assms(2) unfolding is_event_def joins_def by blast
qed

lemma event_groups_hd: "g \<noteq> [] \<Longrightarrow> \<exists>g' rest. event_groups tick g ts = g' # rest \<and> g' \<noteq> [] \<and> hd g' = hd g"
  by (induction tick g ts rule: event_groups.induct) (auto simp: hd_append)

lemma event_groups_sound:
  assumes "is_event tick g" "0 \<le> tick"
  shows "concat (event_groups tick g ts) = g @ ts \<and> list_all (is_event tick) (event_groups tick g ts)
    \<and> list_all (\<lambda>(g1, g2). \<not> joins tick g1 (hd g2)) (pairwise (event_groups tick g ts))"
  using assms
proof (induction tick g ts rule: event_groups.induct)
  case (2 tick g t ts)
  show ?case
  proof (cases "joins tick g t")
    case True
    then show ?thesis using 2(1) [OF True is_event_snoc [OF 2(3) True] 2(4)] by simp
  next
    case False
    obtain g' rest where "event_groups tick [t] ts = g' # rest" "hd g' = t"
      using event_groups_hd [of "[t]" tick ts] by auto
    then show ?thesis using False 2(2) [OF False is_event_single [OF 2(4)] 2(4)] 2(3) by simp
  qed
qed simp

lemma events_sound:
  assumes "0 \<le> ot_tick_size h"
  shows "concat (events trades h) = trades \<and> list_all (is_event (ot_tick_size h)) (events trades h)
    \<and> list_all (\<lambda>(g1, g2). \<not> joins (ot_tick_size h) g1 (hd g2)) (pairwise (events trades h))"
proof (cases trades)
  case (Cons t ts)
  then show ?thesis using event_groups_sound [OF is_event_single [OF assms] assms] by simp
qed simp

section \<open>Big trades\<close>

lemma maximum_markers: "MAXIMUM_BIG_TRADE_MARKERS = 3"
  by code_simp

lemma marker_positions_sound:
  fixes ns :: "decimal list" and normal :: decimal
  defines "kept \<equiv> set (marker_positions ns normal)"
  shows "kept \<subseteq> {..<length ns}" "card kept \<le> 3" "i \<in> kept \<Longrightarrow> normal \<le> ns ! i"
    and "i \<in> kept \<Longrightarrow> j < length ns \<Longrightarrow> j \<notin> kept \<Longrightarrow> ns ! j \<le> ns ! i"
    and "k < length ns \<Longrightarrow> normal \<le> ns ! k \<Longrightarrow> kept \<noteq> {}"
proof -
  define xs where "xs = rev (sort (filter (\<lambda>(summed, _). normal \<le> summed) (zip ns [0 ..< length ns])))"
  have set_xs: "set xs = {(ns ! i, i) | i. i < length ns \<and> normal \<le> ns ! i}"
    by (auto simp: xs_def set_zip)
  have sorted: "sorted_wrt (\<ge>) xs" by (simp add: xs_def sorted_wrt_rev)
  have kept: "kept = snd ` set (take 3 xs)"
    by (simp add: kept_def marker_positions_def maximum_markers xs_def)
  have top: "p \<in> set (take 3 xs) \<Longrightarrow> \<exists>i. p = (ns ! i, i) \<and> i < length ns \<and> normal \<le> ns ! i" for p
    using in_set_takeD [of p 3 xs] unfolding set_xs by blast
  have mem: "(ns ! i, i) \<in> set (take 3 xs) \<and> i < length ns \<and> normal \<le> ns ! i" if "i \<in> kept" for i
    using that top unfolding kept by force
  show "kept \<subseteq> {..<length ns}" using mem by auto
  show "card kept \<le> 3" unfolding kept
    using card_image_le [of "set (take 3 xs)" snd] card_length [of "take 3 xs"] by simp
  show "normal \<le> ns ! i" if "i \<in> kept" using mem [OF that] by simp
  show "ns ! j \<le> ns ! i" if ij: "i \<in> kept" "j < length ns" "j \<notin> kept"
  proof (cases "normal \<le> ns ! j")
    case True
    then have "(ns ! j, j) \<in> set xs" using set_xs ij(2) by blast
    moreover have "(ns ! j, j) \<notin> set (take 3 xs)" using ij(3) unfolding kept by force
    ultimately have "(ns ! j, j) \<in> set (drop 3 xs)" by (metis append_take_drop_id Un_iff set_append)
    moreover have "\<forall>a \<in> set (take 3 xs). \<forall>b \<in> set (drop 3 xs). b \<le> a"
      using sorted sorted_wrt_append [of "(\<ge>)" "take 3 xs" "drop 3 xs"] by simp
    ultimately have "(ns ! j, j) \<le> (ns ! i, i)" using mem [OF ij(1)] by blast
    then show ?thesis by auto
  next
    case False
    then show ?thesis using mem [OF ij(1)] by simp
  qed
  show "kept \<noteq> {}" if "k < length ns" "normal \<le> ns ! k"
  proof -
    have "xs \<noteq> []" using set_xs that by force
    then show ?thesis unfolding kept by simp
  qed
qed

lemma collect_results_Inr:
  assumes "collect_results rs = Inr ys"
  shows "rs = map Inr ys"
  using assms by (induction rs arbitrary: ys) (auto simp: and_then_eq_Inr_iff)

lemma cluster_of_sum: "cluster_of extreme (g, summed) = Inr c \<Longrightarrow> bt_summed_notional c = summed"
  by (auto simp: cluster_of_def split: option.splits)

lemma filter_upt_set: "K \<subseteq> {..<n} \<Longrightarrow> filter (\<lambda>i. i \<in> K) [0 ..< n] = sorted_list_of_set K"
  by (rule sorted_distinct_set_unique) (auto simp: finite_subset sorted_wrt_filter intro: finite_subset)

lemma collect_results_total: "\<forall>r \<in> set rs. \<exists>x. r = Inr x \<Longrightarrow> \<exists>ys. collect_results rs = Inr ys"
  by (induction rs) auto

lemma event_groups_nonempty:
  "g \<noteq> [] \<Longrightarrow> \<forall>e \<in> set (event_groups tick g ts). e \<noteq> [] \<and> set e \<subseteq> set g \<union> set ts"
proof (induction tick g ts rule: event_groups.induct)
  case (2 tick g t ts)
  show ?case
  proof (cases "joins tick g t")
    case True
    then show ?thesis using 2(1) by simp
  next
    case False
    then have "\<forall>e \<in> set (event_groups tick [t] ts). e \<noteq> [] \<and> set e \<subseteq> set [t] \<union> set ts" using 2(2) by simp
    then show ?thesis using False 2(3) by auto
  qed
qed simp

lemma events_nonempty: "e \<in> set (events known h) \<Longrightarrow> e \<noteq> [] \<and> set e \<subseteq> set known"
  using event_groups_nonempty [of "[hd known]" "ot_tick_size h" "tl known"] by (cases known) auto

text \<open>Every index the markers select is a position of an event, so the loop never fails on known sides.\<close>

lemma big_trades_total:
  assumes "\<forall>t \<in> set known. print_side t \<noteq> None"
  shows "\<exists>clusters. big_trades known h = Inr clusters"
proof (cases "length (events known h) < 200")
  case False
  let ?groups = "events known h" and ?ns = "map event_notional (events known h)"
  have "\<exists>c. cluster_of e (?groups ! i, x) = Inr c" if "i < length ?groups" for e i x
  proof -
    have "?groups ! i \<noteq> [] \<and> set (?groups ! i) \<subseteq> set known" using events_nonempty [OF nth_mem [OF that]] by simp
    then have "print_side (hd (?groups ! i)) \<noteq> None" using assms by (meson hd_in_set subsetD)
    then show ?thesis by (auto simp: cluster_of_def)
  qed
  then have tot: "\<exists>ys. collect_results (map (cluster_of e) (map (\<lambda>i. (?groups ! i, ?ns ! i)) (filter P [0 ..< length ?groups]))) = Inr ys" for e P
    by (intro collect_results_total) auto
  obtain ys where "collect_results (map (cluster_of (rank_value BIG_TRADE_EXTREME_QUANTILE ?ns)) (map (\<lambda>i. (?groups ! i, ?ns ! i))
      (filter (\<lambda>i. i \<in> set (marker_positions ?ns (rank_value BIG_TRADE_NORMAL_QUANTILE ?ns))) [0 ..< length ?groups]))) = Inr ys"
    using tot by blast
  then show ?thesis using False
    by (auto simp: big_trades_def MINIMUM_BIG_TRADE_EVENTS_def Let_def big_trade_quantile_def)
qed (simp add: big_trades_def MINIMUM_BIG_TRADE_EVENTS_def)

lemma big_trades_largest:
  assumes "big_trades known h = Inr clusters"
  shows "(clusters = None \<longleftrightarrow> length (events known h) < 200)
    \<and> (\<forall>cs. clusters = Some cs \<longrightarrow> cs \<noteq> [] \<and> length cs \<le> 3
        \<and> (\<exists>kept \<subseteq> {..<length (events known h)}.
             map bt_summed_notional cs = map (\<lambda>i. event_notional (events known h ! i)) (sorted_list_of_set kept)
             \<and> (\<forall>i \<in> kept. \<forall>j < length (events known h). j \<notin> kept
                  \<longrightarrow> event_notional (events known h ! j) \<le> event_notional (events known h ! i))))"
proof (cases "length (events known h) < 200")
  case True
  then show ?thesis using assms by (auto simp: big_trades_def MINIMUM_BIG_TRADE_EVENTS_def Let_def)
next
  case False
  let ?groups = "events known h"
  let ?ns = "map event_notional ?groups"
  have ne: "?ns \<noteq> []" using False by auto
  define normal where "normal = rank_value BIG_TRADE_NORMAL_QUANTILE ?ns"
  define extreme where "extreme = rank_value BIG_TRADE_EXTREME_QUANTILE ?ns"
  define kept where "kept = set (marker_positions ?ns normal)"
  note k = marker_positions_sound [where ns = ?ns and normal = normal, folded kept_def, unfolded length_map]
  have "normal \<in> set ?ns"
    unfolding normal_def using rank_value_in[OF ne] by blast
  then obtain i where i: "i < length ?groups" "?ns ! i = normal" by (metis in_set_conv_nth length_map)
  have nonempty: "kept \<noteq> {}" using k(5) [of i] i by simp
  have f: "filter (\<lambda>i. i \<in> kept) [0 ..< length ?groups] = sorted_list_of_set kept"
    using k(1) by (rule filter_upt_set)
  from assms False ne obtain cs where cs: "clusters = Some cs"
      "collect_results (map (cluster_of extreme) (map (\<lambda>i. (?groups ! i, ?ns ! i)) (sorted_list_of_set kept))) = Inr cs"
    by (auto simp: big_trades_def MINIMUM_BIG_TRADE_EVENTS_def Let_def big_trade_quantile_def and_then_eq_Inr_iff
        normal_def [symmetric] extreme_def [symmetric] kept_def [symmetric] f)
  have m: "map (\<lambda>i. cluster_of extreme (?groups ! i, ?ns ! i)) (sorted_list_of_set kept) = map Inr cs"
    using collect_results_Inr [OF cs(2)] by (simp add: comp_def)
  have fin: "finite kept" using k(1) finite_subset by blast
  have "map bt_summed_notional cs = map (\<lambda>i. ?ns ! i) (sorted_list_of_set kept)"
  proof (rule nth_equalityI)
    show "length (map bt_summed_notional cs) = length (map (\<lambda>i. ?ns ! i) (sorted_list_of_set kept))"
      using m by (metis length_map)
    fix n
    assume "n < length (map bt_summed_notional cs)"
    then have n: "n < length cs" "n < length (sorted_list_of_set kept)" using m by (auto dest: map_eq_imp_length_eq)
    then have "cluster_of extreme (?groups ! (sorted_list_of_set kept ! n), ?ns ! (sorted_list_of_set kept ! n)) = Inr (cs ! n)"
      using m by (metis (no_types, lifting) nth_map)
    then show "map bt_summed_notional cs ! n = map (\<lambda>i. ?ns ! i) (sorted_list_of_set kept) ! n"
      using n cluster_of_sum by (metis nth_map)
  qed
  also have "\<dots> = map (\<lambda>i. event_notional (?groups ! i)) (sorted_list_of_set kept)"
    using k(1) fin by (intro map_cong refl) auto
  finally have sums: "map bt_summed_notional cs = map (\<lambda>i. event_notional (?groups ! i)) (sorted_list_of_set kept)" .
  have "length cs = card kept" using m fin by (metis length_map length_sorted_list_of_set)
  then have "cs \<noteq> []" "length cs \<le> 3" using k(2) nonempty fin by auto
  moreover have "\<forall>i \<in> kept. \<forall>j < length ?groups. j \<notin> kept \<longrightarrow> event_notional (?groups ! j) \<le> event_notional (?groups ! i)"
    using k(1,4) by (auto simp: subset_iff)
  ultimately show ?thesis using cs(1) sums k(1) False by auto
qed

text \<open>The big trades of a window are its largest events. The prints, all with a known aggressor, split
  greedily into events of one aggressor; big trades are measured exactly when there are two hundred events;
  then there is at least one and there are at most three of them, in the order of time, and no event that is
  left out is larger than one that is kept.\<close>

theorem big_trades_are_largest_events:
  assumes "\<forall>t \<in> set known. print_side t \<noteq> None" "0 \<le> ot_tick_size h"
  shows "concat (events known h) = known \<and> list_all (is_event (ot_tick_size h)) (events known h)
    \<and> list_all (\<lambda>(g1, g2). \<not> joins (ot_tick_size h) g1 (hd g2)) (pairwise (events known h))
    \<and> (\<exists>clusters. big_trades known h = Inr clusters
        \<and> (clusters = None \<longleftrightarrow> length (events known h) < 200)
        \<and> (\<forall>cs. clusters = Some cs \<longrightarrow> cs \<noteq> [] \<and> length cs \<le> 3
            \<and> (\<exists>kept \<subseteq> {..<length (events known h)}.
                 map bt_summed_notional cs = map (\<lambda>i. event_notional (events known h ! i)) (sorted_list_of_set kept)
                 \<and> (\<forall>i \<in> kept. \<forall>j < length (events known h). j \<notin> kept
                      \<longrightarrow> event_notional (events known h ! j) \<le> event_notional (events known h ! i)))))"
proof -
  obtain clusters where c: "big_trades known h = Inr clusters" using big_trades_total [OF assms(1)] by blast
  from big_trades_largest [OF c] c events_sound [OF assms(2), of known] show ?thesis by blast
qed

section \<open>Witnesses\<close>

definition sample_print :: "nat \<Rightarrow> TradePrint" where
  "sample_print n =
     \<lparr>tp_provider_trade_id = nat_str (int n), tp_occurred_at = int n * 1000000, tp_price = Some 100, tp_quantity = Some 2,
      tp_buyer_maker = Some (even n)\<rparr>"

definition sample_thresholds :: OrderFlowThresholds where
  "sample_thresholds =
     \<lparr>ot_tick_size = 1, ot_atr_30s = 10, ot_ceros_near_zero_notional = None, ot_ceros_large_notional = None\<rparr>"

theorem order_flow_ignores_arrival_order_witness:
  "aggregate_order_flow [sample_print 1, sample_print 2, sample_print 90] (AwareUTC 0) (AwareUTC 60000000) sample_thresholds
    = aggregate_order_flow [sample_print 2, sample_print 1, sample_print 2] (AwareUTC 0) (AwareUTC 60000000) sample_thresholds"
  by (rule order_flow_ignores_arrival_order [where start = 0 and end_at = 60000000])
     (auto simp: flow_utc_def in_window_def sample_print_def)

theorem big_trades_are_largest_events_witness:
  "\<exists>cs. big_trades (map sample_print [0 ..< 200]) sample_thresholds = Inr (Some cs) \<and> cs \<noteq> [] \<and> length cs \<le> 3"
proof -
  have "length (events (map sample_print [0 ..< 200]) sample_thresholds) = 200" by code_simp
  moreover have "\<forall>t \<in> set (map sample_print [0 ..< 200]). print_side t \<noteq> None"
    by (simp add: print_side_def sample_print_def)
  moreover have "0 \<le> ot_tick_size sample_thresholds" by (simp add: sample_thresholds_def)
  ultimately show ?thesis
    using big_trades_are_largest_events [of "map sample_print [0 ..< 200]" sample_thresholds] by fastforce
qed

end
