(* ===== verification/Profile.thy ===== *)
theory Profile
  imports OrderFlow
begin

text \<open>
  \<^verbatim>\<open>strategies/david_v6/profile.py\<close>: the volume profile of a sequence of prints, its point of
  control and its value area. \<^verbatim>\<open>Decimal.quantize\<close> needs a result of at most 28 digits, so the quotient
  of a price and the tick is taken to be below \<open>10 ^ 28\<close>. Shown: the loop that grows the value area
  ends, and the area is a contiguous range around the level with the most notional that holds the
  demanded share of the total.
\<close>

section \<open>Levels\<close>

definition VALUE_AREA_FRACTION :: decimal where "VALUE_AREA_FRACTION = 70 / 100"

record ProfileLevel =
  pl_price :: decimal
  pl_buy_notional :: decimal
  pl_sell_notional :: decimal
  pl_unknown_notional :: decimal
  pl_total_notional :: decimal
  pl_delta_notional :: decimal
  pl_imbalance_ratio :: "decimal option"

record ProfileFacts =
  prf_state :: EvidenceState
  prf_levels :: "ProfileLevel list"
  prf_point_of_control :: "decimal option"
  prf_value_area_low :: "decimal option"
  prf_value_area_high :: "decimal option"
  prf_total_notional :: decimal

text \<open>\<^verbatim>\<open>ROUND_HALF_UP\<close>: the nearest integer, a tie away from zero.\<close>

definition round_half_up :: "rat \<Rightarrow> int" where
  "round_half_up x = (if 0 \<le> x then \<lfloor>x + 1 / 2\<rfloor> else - \<lfloor>- x + 1 / 2\<rfloor>)"

definition round_to_bucket :: "decimal \<Rightarrow> decimal \<Rightarrow> decimal" where
  "round_to_bucket price tick_size = dmul (of_int (round_half_up (ddiv price tick_size))) tick_size"

definition bucket_notional :: "TradePrint list \<Rightarrow> decimal \<Rightarrow> decimal \<Rightarrow> AggressorSide option \<Rightarrow> decimal" where
  "bucket_notional prints tick price side =
     dsum (map notional_of (filter (\<lambda>t. round_to_bucket (price_of t) tick = price \<and> print_side t = side) prints))"

definition profile_level :: "TradePrint list \<Rightarrow> decimal \<Rightarrow> decimal \<Rightarrow> ProfileLevel" where
  "profile_level prints tick price =
     (let buy = bucket_notional prints tick price (Some AGGRESSOR_BUY);
          sell = bucket_notional prints tick price (Some AGGRESSOR_SELL);
          unknown = bucket_notional prints tick price None;
          smaller = min buy sell
      in \<lparr>pl_price = price, pl_buy_notional = buy, pl_sell_notional = sell, pl_unknown_notional = unknown,
          pl_total_notional = dadd (dadd buy sell) unknown, pl_delta_notional = dsub buy sell,
          pl_imbalance_ratio = (if 0 < smaller then Some (ddiv (max buy sell) smaller) else None)\<rparr>)"

section \<open>Point of control and value area\<close>

text \<open>The key both minima are taken by: the most notional first, then the closest price, then the lowest.\<close>

definition level_key :: "ProfileLevel list \<Rightarrow> decimal \<Rightarrow> nat \<Rightarrow> decimal \<times> decimal \<times> decimal" where
  "level_key levels current_price index =
     (dneg (pl_total_notional (levels ! index)), dabs (dsub (pl_price (levels ! index)) current_price), pl_price (levels ! index))"

text \<open>\<^verbatim>\<open>min(indices, key=key)\<close>: the first index with the least key.\<close>

definition min_index :: "(nat \<Rightarrow> 'k::linorder) \<Rightarrow> nat list \<Rightarrow> nat" where
  "min_index key indices = hd (filter (\<lambda>i. key i = Min (set (map key indices))) indices)"

definition next_level :: "ProfileLevel list \<Rightarrow> decimal \<Rightarrow> nat \<Rightarrow> nat \<Rightarrow> nat" where
  "next_level levels current_price low high =
     min_index (level_key levels current_price)
       ((if 0 < low then [low - 1] else []) @ (if high + 1 < length levels then [high + 1] else []))"

lemma min_index_in:
  assumes "indices \<noteq> []"
  shows "min_index key indices \<in> set indices" "i \<in> set indices \<Longrightarrow> key (min_index key indices) \<le> key i"
proof -
  let ?least = "filter (\<lambda>i. key i = Min (set (map key indices))) indices"
  have "Min (set (map key indices)) \<in> key ` set indices" using assms Min_in [of "set (map key indices)"] by simp
  then have "?least \<noteq> []" by (auto simp: filter_empty_conv)
  then have "min_index key indices \<in> set ?least" unfolding min_index_def by (rule hd_in_set)
  then show "min_index key indices \<in> set indices" "i \<in> set indices \<Longrightarrow> key (min_index key indices) \<le> key i"
    by auto
qed

lemma next_level_cases:
  assumes "0 < low \<or> high + 1 < length levels"
  shows "(0 < low \<and> next_level levels c low high = low - 1) \<or> (high + 1 < length levels \<and> next_level levels c low high = high + 1)"
proof -
  let ?is = "(if 0 < low then [low - 1] else []) @ (if high + 1 < length levels then [high + 1] else [])"
  have "next_level levels c low high \<in> set ?is"
    unfolding next_level_def by (rule min_index_in(1)) (use assms in auto)
  then show ?thesis by (auto split: if_splits)
qed

text \<open>The loop of \<^verbatim>\<open>_value_area\<close>.\<close>

function value_area_from ::
  "ProfileLevel list \<Rightarrow> decimal \<Rightarrow> decimal \<Rightarrow> nat \<Rightarrow> nat \<Rightarrow> decimal \<Rightarrow> nat \<times> nat" where
  "value_area_from levels current_price target low high included =
     (if included < target \<and> (0 < low \<or> high + 1 < length levels)
      then let selected = next_level levels current_price low high
           in value_area_from levels current_price target (min low selected) (max high selected)
                (dadd included (pl_total_notional (levels ! selected)))
      else (low, high))"
  by pat_completeness auto
termination
proof (relation "measure (\<lambda>(levels, c, t, low, high, i). low + (length levels - high))")
  fix levels :: "ProfileLevel list" and c t i :: decimal and low high selected :: nat
  assume "i < t \<and> (0 < low \<or> high + 1 < length levels)" "selected = next_level levels c low high"
  then show "((levels, c, t, min low selected, max high selected, dadd i (pl_total_notional (levels ! selected))),
      levels, c, t, low, high, i) \<in> measure (\<lambda>(levels, c, t, low, high, i). low + (length levels - high))"
    using next_level_cases [of low high levels c] by auto
qed simp

declare value_area_from.simps [simp del]

definition value_area :: "ProfileLevel list \<Rightarrow> nat \<Rightarrow> decimal \<Rightarrow> decimal \<Rightarrow> nat \<times> nat" where
  "value_area levels poc_index current_price total_notional =
     value_area_from levels current_price (dmul VALUE_AREA_FRACTION total_notional) poc_index poc_index
       (pl_total_notional (levels ! poc_index))"

definition profile_unavailable :: ProfileFacts where
  "profile_unavailable =
     \<lparr>prf_state = UNAVAILABLE, prf_levels = [], prf_point_of_control = None, prf_value_area_low = None,
      prf_value_area_high = None, prf_total_notional = 0\<rparr>"

definition profile_of :: "ProfileLevel list \<Rightarrow> decimal \<Rightarrow> ProfileFacts" where
  "profile_of levels current_price =
     (let total_notional = dsum (map pl_total_notional levels);
          poc_index = min_index (level_key levels current_price) [0 ..< length levels];
          (low_index, high_index) = value_area levels poc_index current_price total_notional
      in \<lparr>prf_state = (if list_ex (\<lambda>l. 0 < pl_unknown_notional l) levels then EVIDENCE_UNKNOWN else AVAILABLE),
          prf_levels = levels, prf_point_of_control = Some (pl_price (levels ! poc_index)),
          prf_value_area_low = Some (pl_price (levels ! low_index)),
          prf_value_area_high = Some (pl_price (levels ! high_index)), prf_total_notional = total_notional\<rparr>)"

definition build_profile :: "TradePrint list \<Rightarrow> decimal \<Rightarrow> ProfileFacts result" where
  "build_profile trades tick =
     (if tick \<le> 0 then Inl (ValueError ''tick_size must be positive'')
      else and_then (deduplicate_prints trades) (\<lambda>prints.
        if prints = [] \<or> list_ex (\<lambda>t. notional_opt t = None) prints then Inr profile_unavailable
        else let buckets = sorted_set (map (\<lambda>t. round_to_bucket (price_of t) tick) prints)
             in Inr (profile_of (map (profile_level prints tick) buckets) (round_to_bucket (price_of (last prints)) tick))))"

section \<open>The value area holds its share\<close>

definition area_total :: "ProfileLevel list \<Rightarrow> nat \<Rightarrow> nat \<Rightarrow> rat" where
  "area_total levels low high = (\<Sum>i = low..high. pl_total_notional (levels ! i))"

text \<open>Amounts on a decimal grid whose sum has at most 27 digits: the quotes and quantities of a venue have
  a fixed number of digits, and \<open>k\<close> is the number of both together.\<close>

definition notionals_on_grid :: "nat \<Rightarrow> TradePrint list \<Rightarrow> bool" where
  "notionals_on_grid k trades \<longleftrightarrow>
     (\<forall>t \<in> set trades. dec_grid k (notional_of t) \<and> 0 \<le> notional_of t)
     \<and> (\<Sum>t \<in> set trades. notional_of t) * 10 ^ k < 10 ^ 27"

definition whole :: "nat \<Rightarrow> decimal \<Rightarrow> bool" where
  "whole k x \<longleftrightarrow> (\<exists>n. x = of_int n / 10 ^ k \<and> 0 \<le> n)"

lemma whole_0 [simp]: "whole k 0"
  by (auto simp: whole_def intro: exI [of _ 0])

lemma whole_nonneg: "whole k x \<Longrightarrow> 0 \<le> x"
  by (auto simp: whole_def)

lemma whole_add [intro]: "whole k x \<Longrightarrow> whole k y \<Longrightarrow> whole k (x + y)"
  unfolding whole_def by (metis add_divide_distrib add_nonneg_nonneg of_int_add)

lemma whole_sum: "(\<And>x. x \<in> A \<Longrightarrow> whole k (f x)) \<Longrightarrow> whole k (sum f A)"
  by (induction A rule: infinite_finite_induct) auto

lemma whole_grid: "whole k x \<Longrightarrow> x * 10 ^ k < 10 ^ 28 \<Longrightarrow> dec_grid k x"
  by (auto simp: whole_def intro!: dec_gridI)

lemma grid_whole: "dec_grid k x \<Longrightarrow> 0 \<le> x \<Longrightarrow> whole k x"
  unfolding whole_def by (metis dec_gridE grid_nonneg_iff)

text \<open>Sums of such amounts are exact.\<close>

lemma dadd_whole: "whole k x \<Longrightarrow> whole k y \<Longrightarrow> (x + y) * 10 ^ k < 10 ^ 28 \<Longrightarrow> dadd x y = x + y"
  unfolding dadd_def by (intro rnd_grid whole_grid whole_add)

lemma dsum_whole:
  assumes "\<forall>x \<in> set xs. whole k x" "sum_list xs * 10 ^ k < 10 ^ 28"
  shows "dsum xs = sum_list xs"
proof -
  have "foldl dadd a xs = a + sum_list xs" if "whole k a" "\<forall>x \<in> set xs. whole k x" "(a + sum_list xs) * 10 ^ k < 10 ^ 28" for a
    using that
  proof (induction xs arbitrary: a)
    case (Cons x xs)
    have "0 \<le> sum_list xs" using Cons.prems(2) whole_nonneg by (intro sum_list_nonneg) auto
    then have "(a + x) * 10 ^ k \<le> (a + sum_list (x # xs)) * 10 ^ k" by (intro mult_right_mono) auto
    from this Cons.prems(3) have "(a + x) * 10 ^ k < 10 ^ 28" by (rule order.strict_trans1)
    then have "dadd a x = a + x" using Cons.prems(1,2) by (intro dadd_whole [of k]) simp_all
    then show ?case using Cons.IH [of "a + x"] Cons.prems by (auto simp: add.assoc)
  qed simp
  from this [of 0] assms show ?thesis by (simp add: dsum_def)
qed

lemma scaled_less:
  fixes x y :: rat
  shows "x \<le> y \<Longrightarrow> y * 10 ^ k < 10 ^ 27 \<Longrightarrow> x * 10 ^ k < 10 ^ 28"
  by (rule order.strict_trans [OF order.strict_trans1 [OF mult_right_mono]]) auto

subsection \<open>The levels partition the prints\<close>

lemma bucket_exact:
  assumes "notionals_on_grid k prints" "distinct prints"
  shows "bucket_notional prints tick price side
    = (\<Sum>t \<in> {t \<in> set prints. round_to_bucket (price_of t) tick = price \<and> print_side t = side}. notional_of t)"
proof -
  let ?ts = "filter (\<lambda>t. round_to_bucket (price_of t) tick = price \<and> print_side t = side) prints"
  have w: "whole k (notional_of t)" if "t \<in> set prints" for t using assms(1) that by (auto simp: notionals_on_grid_def intro: grid_whole)
  have s: "sum_list (map notional_of ?ts) = (\<Sum>t \<in> set ?ts. notional_of t)"
    using assms(2) by (simp add: sum_list_distinct_conv_sum_set)
  moreover have "(\<Sum>t \<in> set ?ts. notional_of t) \<le> (\<Sum>t \<in> set prints. notional_of t)"
    by (rule sum_mono2) (auto intro: whole_nonneg w)
  ultimately have "sum_list (map notional_of ?ts) * 10 ^ k < 10 ^ 28"
    using assms(1) by (intro scaled_less) (auto simp: notionals_on_grid_def)
  then have "dsum (map notional_of ?ts) = sum_list (map notional_of ?ts)" by (intro dsum_whole [of _ k]) (auto intro: w)
  then show ?thesis using s by (simp add: bucket_notional_def)
qed

lemma profile_level_exact:
  assumes "notionals_on_grid k prints" "distinct prints"
  shows "pl_total_notional (profile_level prints tick price)
      = (\<Sum>t \<in> {t \<in> set prints. round_to_bucket (price_of t) tick = price}. notional_of t)"
proof -
  let ?S = "\<lambda>side. {t \<in> set prints. round_to_bucket (price_of t) tick = price \<and> print_side t = side}"
  let ?f = "\<lambda>side. \<Sum>t \<in> ?S side. notional_of t"
  let ?A = "{t \<in> set prints. round_to_bucket (price_of t) tick = price}"
  have w: "whole k (notional_of t)" if "t \<in> set prints" for t using assms(1) that by (auto simp: notionals_on_grid_def intro: grid_whole)
  have sides: "?A = ?S (Some AGGRESSOR_BUY) \<union> ?S (Some AGGRESSOR_SELL) \<union> ?S None"
    by (auto, metis AggressorSide.exhaust option.exhaust)
  have total: "sum notional_of ?A = ?f (Some AGGRESSOR_BUY) + ?f (Some AGGRESSOR_SELL) + ?f None"
    unfolding sides by (subst sum.union_disjoint; auto)+
  have wf: "whole k (?f side)" for side by (rule whole_sum) (use w in auto)
  have "sum notional_of ?A \<le> sum notional_of (set prints)" by (rule sum_mono2) (auto intro: whole_nonneg w)
  then have b: "sum notional_of ?A * 10 ^ k < 10 ^ 28"
    using assms(1) by (intro scaled_less) (auto simp: notionals_on_grid_def)
  have "(?f (Some AGGRESSOR_BUY) + ?f (Some AGGRESSOR_SELL)) * 10 ^ k \<le> sum notional_of ?A * 10 ^ k"
    unfolding total using whole_nonneg [OF wf, of None] by (intro mult_right_mono) auto
  then have "dadd (?f (Some AGGRESSOR_BUY)) (?f (Some AGGRESSOR_SELL)) = ?f (Some AGGRESSOR_BUY) + ?f (Some AGGRESSOR_SELL)"
    using b by (intro dadd_whole [of k] wf) linarith
  moreover have "dadd (?f (Some AGGRESSOR_BUY) + ?f (Some AGGRESSOR_SELL)) (?f None) = sum notional_of ?A"
    unfolding total using b unfolding total by (intro dadd_whole [of k] whole_add wf)
  ultimately show ?thesis by (simp add: profile_level_def Let_def bucket_exact [OF assms])
qed

lemma levels_sum:
  assumes "notionals_on_grid k prints" "distinct prints"
  shows "(\<Sum>l \<leftarrow> map (profile_level prints tick) (sorted_set (map (\<lambda>t. round_to_bucket (price_of t) tick) prints)). pl_total_notional l)
    = (\<Sum>t \<in> set prints. notional_of t)"
proof -
  let ?g = "\<lambda>t. round_to_bucket (price_of t) tick"
  have "(\<Sum>l \<leftarrow> map (profile_level prints tick) (sorted_set (map ?g prints)). pl_total_notional l)
      = (\<Sum>price \<in> ?g ` set prints. \<Sum>t \<in> {t \<in> set prints. ?g t = price}. notional_of t)"
    by (simp add: comp_def profile_level_exact [OF assms] sum_list_distinct_conv_sum_set)
  also have "\<dots> = (\<Sum>t \<in> set prints. notional_of t)" by (rule sum.group) auto
  finally show ?thesis .
qed

subsection \<open>The loop\<close>

definition totals_on_grid :: "nat \<Rightarrow> ProfileLevel list \<Rightarrow> bool" where
  "totals_on_grid k levels \<longleftrightarrow>
     (\<forall>l \<in> set levels. whole k (pl_total_notional l)) \<and> (\<Sum>l \<leftarrow> levels. pl_total_notional l) * 10 ^ k < 10 ^ 27"

lemma area_whole:
  assumes "totals_on_grid k levels" "hi < length levels"
  shows "whole k (area_total levels lo hi)" "area_total levels lo hi * 10 ^ k < 10 ^ 28"
proof -
  have w: "whole k (pl_total_notional (levels ! i))" if "i < length levels" for i using assms(1) that by (simp add: totals_on_grid_def)
  then show "whole k (area_total levels lo hi)" unfolding area_total_def using assms(2) by (intro whole_sum) auto
  have "area_total levels lo hi \<le> (\<Sum>i = 0..<length levels. pl_total_notional (levels ! i))"
    unfolding area_total_def using assms(2) by (intro sum_mono2) (auto intro: whole_nonneg w)
  also have "\<dots> = (\<Sum>l \<leftarrow> levels. pl_total_notional l)" by (simp add: sum_list_sum_nth)
  finally show "area_total levels lo hi * 10 ^ k < 10 ^ 28"
    using assms(1) by (intro scaled_less) (auto simp: totals_on_grid_def)
qed

text \<open>The running sum is the exact notional of the area, and the loop ends with the share or the whole range.\<close>

lemma value_area_from_sound:
  assumes "value_area_from levels c target low high included = (lo, hi)"
    and "totals_on_grid k levels" "low \<le> high" "high < length levels"
    and "included = area_total levels low high"
  shows "lo \<le> low \<and> high \<le> hi \<and> hi < length levels
    \<and> (target \<le> area_total levels lo hi \<or> (lo = 0 \<and> hi + 1 = length levels))"
  using assms
proof (induction levels c target low high included rule: value_area_from.induct)
  case (1 levels c target low high included)
  show ?case
  proof (cases "included < target \<and> (0 < low \<or> high + 1 < length levels)")
    case False
    then show ?thesis using "1.prems" by (auto simp: value_area_from.simps)
  next
    case True
    define s where "s = next_level levels c low high"
    have step: "value_area_from levels c target (min low s) (max high s) (dadd included (pl_total_notional (levels ! s))) = (lo, hi)"
      using True "1.prems"(1) by (subst (asm) value_area_from.simps) (simp add: s_def Let_def)
    have sc: "(0 < low \<and> s = low - 1) \<or> (high + 1 < length levels \<and> s = high + 1)"
      using next_level_cases True unfolding s_def by blast
    then have sl: "s < length levels" "min low s \<le> max high s" "max high s < length levels" using "1.prems"(3,4) by auto
    have total: "area_total levels (min low s) (max high s) = area_total levels low high + pl_total_notional (levels ! s)"
    proof (cases "s = high + 1")
      case True
      then show ?thesis using "1.prems"(3) by (simp add: area_total_def min_def max_def)
    next
      case False
      then have "0 < low" "s = low - 1" using sc by auto
      then have "{s..high} = insert s {low..high}" using "1.prems"(3) by auto
      moreover have "min low s = s" "max high s = high" "s \<notin> {low..high}"
        using \<open>0 < low\<close> \<open>s = low - 1\<close> "1.prems"(3) by auto
      ultimately show ?thesis by (simp add: area_total_def)
    qed
    have "whole k (pl_total_notional (levels ! s))" using "1.prems"(2) sl(1) by (simp add: totals_on_grid_def)
    then have inc: "dadd included (pl_total_notional (levels ! s)) = area_total levels (min low s) (max high s)"
      using area_whole [OF "1.prems"(2,4), of low] area_whole(2) [OF "1.prems"(2) sl(3), of "min low s"]
      unfolding total "1.prems"(5) by (intro dadd_whole [of k])
    from "1.IH" [OF True s_def step "1.prems"(2) sl(2,3) inc] show ?thesis by auto
  qed
qed

lemma profile_total:
  assumes "totals_on_grid k levels" "levels \<noteq> []"
  shows "dsum (map pl_total_notional levels) = (\<Sum>l \<leftarrow> levels. pl_total_notional l)"
    and "(\<Sum>l \<leftarrow> levels. pl_total_notional l) = area_total levels 0 (length levels - 1)"
proof -
  have "{0..length levels - 1} = {0..<length levels}" using assms(2) by (cases levels) auto
  then have "area_total levels 0 (length levels - 1) = (\<Sum>i = 0..<length levels. pl_total_notional (levels ! i))"
    by (simp add: area_total_def)
  then show "(\<Sum>l \<leftarrow> levels. pl_total_notional l) = area_total levels 0 (length levels - 1)" by (simp add: sum_list_sum_nth)
  show "dsum (map pl_total_notional levels) = (\<Sum>l \<leftarrow> levels. pl_total_notional l)"
    using assms(1) by (intro dsum_whole [of _ k] scaled_less [OF order.refl]) (auto simp: totals_on_grid_def)
qed

lemma levels_on_grid:
  assumes "notionals_on_grid k prints" "distinct prints"
    and "levels = map (profile_level prints tick) (sorted_set (map (\<lambda>t. round_to_bucket (price_of t) tick) prints))"
  shows "totals_on_grid k levels" and "(\<Sum>l \<leftarrow> levels. pl_total_notional l) = (\<Sum>t \<in> set prints. notional_of t)"
proof -
  show sum: "(\<Sum>l \<leftarrow> levels. pl_total_notional l) = (\<Sum>t \<in> set prints. notional_of t)"
    using levels_sum [OF assms(1,2)] by (simp add: assms(3))
  have w: "whole k (notional_of t)" if "t \<in> set prints" for t using assms(1) that by (auto simp: notionals_on_grid_def intro: grid_whole)
  have "whole k (pl_total_notional (profile_level prints tick price))" for price
    unfolding profile_level_exact [OF assms(1,2)] by (rule whole_sum) (use w in auto)
  with sum assms(1) show "totals_on_grid k levels" by (auto simp: totals_on_grid_def notionals_on_grid_def assms(3))
qed

lemma point_of_control_most:
  assumes "totals_on_grid k levels" "i < length levels" "poc = min_index (level_key levels c) [0 ..< length levels]"
  shows "poc < length levels" and "pl_total_notional (levels ! i) \<le> pl_total_notional (levels ! poc)"
proof -
  have ne: "levels \<noteq> []" using assms(2) by auto
  show poc: "poc < length levels" using min_index_in(1) [of "[0 ..< length levels]" "level_key levels c"] ne by (simp add: assms(3))
  have exact: "rnd (pl_total_notional (levels ! j)) = pl_total_notional (levels ! j)" if "j < length levels" for j
    using area_whole [OF assms(1) that, of j] whole_grid [of k "area_total levels j j"] by (simp add: area_total_def)
  have "level_key levels c poc \<le> level_key levels c i"
    using min_index_in(2) [of "[0 ..< length levels]" i "level_key levels c"] ne assms(2) by (simp add: assms(3))
  then have "dneg (pl_total_notional (levels ! poc)) \<le> dneg (pl_total_notional (levels ! i))"
    by (auto simp: level_key_def)
  then show "pl_total_notional (levels ! i) \<le> pl_total_notional (levels ! poc)"
    using exact [OF assms(2)] exact [OF poc] by (simp add: dneg_def)
qed

lemma share_exact:
  assumes "totals_on_grid k levels" "levels \<noteq> []" "tot = dsum (map pl_total_notional levels)"
  shows "dmul VALUE_AREA_FRACTION tot = 7 / 10 * tot" and "7 / 10 * tot \<le> tot"
proof -
  note t = profile_total [OF assms(1,2)]
  have "whole k tot" using t area_whole(1) [OF assms(1), of "length levels - 1" 0] assms(2,3) by simp
  then obtain N where N: "tot = of_int N / 10 ^ k" "0 \<le> N" by (auto simp: whole_def)
  have "tot * 10 ^ k < 10 ^ 27" using t(1) assms(1,3) by (simp add: totals_on_grid_def)
  then have "of_int N < (10 ^ 27 :: rat)" by (simp add: N(1))
  then have N27: "N < 10 ^ 27" by (metis of_int_less_iff of_int_numeral of_int_power)
  have e: "VALUE_AREA_FRACTION * tot = of_int (7 * N) / 10 ^ (k + 1)" by (simp add: N(1) VALUE_AREA_FRACTION_def)
  have "rnd (VALUE_AREA_FRACTION * tot) = VALUE_AREA_FRACTION * tot"
    using N(2) N27 by (intro rnd_grid [of "k + 1"] dec_gridI [OF e]) simp
  then show "dmul VALUE_AREA_FRACTION tot = 7 / 10 * tot" by (simp add: dmul_def VALUE_AREA_FRACTION_def)
  have "0 \<le> tot" using N by simp
  then show "7 / 10 * tot \<le> tot" by linarith
qed

text \<open>C20: the value area of a profile. For prints whose notionals have at most \<open>k\<close> fractional digits and
  sum up to less than \<open>10 ^ (27 - k)\<close>, whatever the number of levels, the total is the exact sum of the
  notionals, the growing loop ends, the point of control is a level with the most notional, and the value area
  is a contiguous range of levels around it that holds at least seventy percent of the total.\<close>

theorem value_area_holds_share:
  assumes "build_profile trades tick = Inr f" "prf_levels f \<noteq> []" "notionals_on_grid k trades"
  shows "\<exists>lo poc hi. lo \<le> poc \<and> poc \<le> hi \<and> hi < length (prf_levels f)
    \<and> prf_point_of_control f = Some (pl_price (prf_levels f ! poc))
    \<and> prf_value_area_low f = Some (pl_price (prf_levels f ! lo))
    \<and> prf_value_area_high f = Some (pl_price (prf_levels f ! hi))
    \<and> (\<forall>i < length (prf_levels f). pl_total_notional (prf_levels f ! i) \<le> pl_total_notional (prf_levels f ! poc))
    \<and> prf_total_notional f = (\<Sum>t \<in> set trades. notional_of t)
    \<and> 7 / 10 * prf_total_notional f \<le> area_total (prf_levels f) lo hi"
proof -
  obtain prints c where d: "deduplicate_prints trades = Inr prints"
    and f: "f = profile_of (map (profile_level prints tick) (sorted_set (map (\<lambda>t. round_to_bucket (price_of t) tick) prints))) c"
    using assms(1,2) by (auto simp: build_profile_def and_then_eq_Inr_iff profile_unavailable_def Let_def split: if_splits)
  define levels where "levels = map (profile_level prints tick) (sorted_set (map (\<lambda>t. round_to_bucket (price_of t) tick) prints))"
  have prints: "set prints = set trades" "distinct prints" "notionals_on_grid k prints"
    using deduplicate_prints_Inr [OF d] assms(3) by (simp_all add: notionals_on_grid_def)
  define poc where "poc = min_index (level_key levels c) [0 ..< length levels]"
  let ?total = "dsum (map pl_total_notional levels)"
  obtain lo hi where area: "value_area levels poc c ?total = (lo, hi)" by fastforce
  have lv: "prf_levels f = levels" "prf_total_notional f = ?total" "prf_point_of_control f = Some (pl_price (levels ! poc))"
    "prf_value_area_low f = Some (pl_price (levels ! lo))" "prf_value_area_high f = Some (pl_price (levels ! hi))"
    using area by (simp_all add: f profile_of_def Let_def poc_def levels_def)
  then have ne: "levels \<noteq> []" using assms(2) by simp
  note grid = levels_on_grid [OF prints(3,2) levels_def]
  note t = profile_total [OF grid(1) ne] and share = share_exact [OF grid(1) ne refl]
  note most = point_of_control_most [OF grid(1) _ poc_def]
  have poc: "poc < length levels" using most(1) [of 0] ne by simp
  have s: "lo \<le> poc \<and> poc \<le> hi \<and> hi < length levels
    \<and> (7 / 10 * ?total \<le> area_total levels lo hi \<or> (lo = 0 \<and> hi + 1 = length levels))"
    using area unfolding value_area_def share(1)
    by (rule value_area_from_sound [OF _ grid(1) order.refl poc]) (simp add: area_total_def)
  then have "7 / 10 * ?total \<le> area_total levels lo hi" using t share(2) by (metis add_diff_cancel_right')
  then show ?thesis using s lv most(2) t(1) grid(2) prints(1) by (intro exI [of _ lo] exI [of _ poc] exI [of _ hi]) simp
qed

section \<open>Witness\<close>

text \<open>Two levels with the notionals 200 and 202: neither holds the share alone, and the area grows.\<close>

definition profile_prints :: "TradePrint list" where
  "profile_prints = [sample_print 1, (sample_print 2)\<lparr>tp_price := Some 101\<rparr>]"

theorem value_area_holds_share_witness:
  "\<exists>f lo hi. build_profile profile_prints 1 = Inr f \<and> prf_total_notional f = 402 \<and> lo < hi \<and> hi < length (prf_levels f)
    \<and> 7 / 10 * prf_total_notional f \<le> area_total (prf_levels f) lo hi"
proof -
  let ?prints = profile_prints
  have prints: "deduplicate_prints ?prints = Inr ?prints" "sorted_set (map (\<lambda>t. round_to_bucket (price_of t) 1) ?prints) = [100, 101]"
    "list_ex (\<lambda>t. notional_opt t = None) ?prints = False" "?prints \<noteq> []"
    by code_simp+
  have totals: "pl_total_notional (profile_level ?prints 1 100) = 200" "pl_total_notional (profile_level ?prints 1 101) = 202"
    by code_simp+
  define f where "f = profile_of (map (profile_level ?prints 1) [100, 101]) (round_to_bucket (price_of (last ?prints)) 1)"
  have "build_profile ?prints 1 = Inr f"
    unfolding f_def by (simp add: build_profile_def prints and_then_def Let_def)
  moreover have "map pl_total_notional (prf_levels f) = [200, 202]"
    by (simp add: f_def profile_of_def Let_def totals split: prod.splits)
  ultimately have f: "build_profile profile_prints 1 = Inr f" "map pl_total_notional (prf_levels f) = [200, 202]"
    by blast+
  then have len: "length (prf_levels f) = 2" by (metis length_map length_Cons list.size(3) numeral_2_eq_2)
  have small: "area_total (prf_levels f) i i \<le> 202" if "i < 2" for i
  proof -
    have "area_total (prf_levels f) i i = [200, 202] ! i"
      using that len nth_map [of i "prf_levels f" pl_total_notional] by (simp add: area_total_def f(2))
    then show ?thesis using that by (auto simp: less_Suc_eq numeral_2_eq_2)
  qed
  have "list_all (\<lambda>t. dec_grid 0 (notional_of t) \<and> 0 \<le> notional_of t) profile_prints" by code_simp
  moreover have sum: "sum_list (map notional_of profile_prints) = 402" and d: "distinct profile_prints" by code_simp+
  ultimately have "notionals_on_grid 0 profile_prints"
    by (simp add: notionals_on_grid_def list_all_iff flip: sum_list_distinct_conv_sum_set)
  from value_area_holds_share [OF f(1) _ this] obtain lo poc hi where a: "lo \<le> poc" "poc \<le> hi" "hi < length (prf_levels f)"
    "7 / 10 * prf_total_notional f \<le> area_total (prf_levels f) lo hi" "prf_total_notional f = (\<Sum>t \<in> set profile_prints. notional_of t)"
    using len by force
  then have total: "prf_total_notional f = 402" using sum d by (simp flip: sum_list_distinct_conv_sum_set)
  then have "lo \<noteq> hi" using small [of hi] a(3,4) len by auto
  then show ?thesis using f(1) a total by (intro exI [of _ f] exI [of _ lo] exI [of _ hi]) simp
qed

end
