(* ===== verification/Timing.thy ===== *)
theory Timing
  imports Sequences
begin

text \<open>
  \<^verbatim>\<open>strategies/david_v6/calendar.py\<close> and \<^verbatim>\<open>strategies/david_v6/sessions.py\<close>: the windows around
  scheduled market events and the trading sessions of an exchange. The time zone database is a
  parameter, which gives the local date of an instant in a named zone. Shown: new exposure is blocked
  exactly in the documented windows, whatever the order and the repetitions of the events; an intraday
  session admits an entry exactly in its window; and a KRX calendar whose closing auction ends with the
  session never demands a flat book.
\<close>

section \<open>Durations\<close>

definition minutes :: "int \<Rightarrow> timedelta" where
  "minutes n = n * 60000000"

text \<open>\<^verbatim>\<open>datetime.weekday()\<close>, 0 on Monday; the epoch was a Thursday.\<close>

definition weekday :: "instant \<Rightarrow> int" where
  "weekday t = (t div 86400000000 + 3) mod 7"

lemma minutes_positive [simp]: "0 < minutes n \<longleftrightarrow> 0 < n"
  by (simp add: minutes_def)

section \<open>Market events\<close>

definition PRE_EVENT_BLOCK :: timedelta where "PRE_EVENT_BLOCK = minutes 10"
definition NORMAL_POST_EVENT_BLOCK :: timedelta where "NORMAL_POST_EVENT_BLOCK = minutes 10"
definition STRONG_OR_UNKNOWN_POST_EVENT_BLOCK :: timedelta where "STRONG_OR_UNKNOWN_POST_EVENT_BLOCK = minutes 120"

record MarketEvent =
  me_event_id :: string
  me_source_key :: string
  me_scheduled_at :: instant
  me_impact_stars :: int
  me_strong_surprise :: "bool option"
  me_is_nfp :: bool
  me_session_close_at :: "instant option"

definition MarketEvent_checks :: "MarketEvent \<Rightarrow> checks" where
  "MarketEvent_checks e =
     [(\<not> trimmed_text (me_event_id e), ValueError ''event_id must be non-empty trimmed text''),
      (\<not> trimmed_text (me_source_key e), ValueError ''source_key must be non-empty trimmed text''),
      (\<not> (1 \<le> me_impact_stars e \<and> me_impact_stars e \<le> 3), ValueError ''impact_stars must be an integer from one through three''),
      (me_is_nfp e \<and> (case me_session_close_at e of None \<Rightarrow> True | Some close \<Rightarrow> close \<le> me_scheduled_at e),
         ValueError ''NFP requires a later authoritative session close'')]"

record EventCalendar =
  ec_captured_at :: instant
  ec_valid_until :: instant
  ec_events :: "MarketEvent list"

definition EventCalendar_checks :: "EventCalendar \<Rightarrow> checks" where
  "EventCalendar_checks c =
     [(ec_valid_until c < ec_captured_at c, ValueError ''calendar validity cannot end before capture''),
      (list_ex (\<lambda>e. me_scheduled_at e < ec_captured_at c) (ec_events c),
         ValueError ''a calendar cannot carry an event from before its capture'')]"

record CalendarFacts =
  kf_state :: EvidenceState
  kf_block_new_exposure :: bool
  kf_close_intraday_positions :: bool
  kf_active_event_ids :: "string list"
  kf_blackout_ends_at :: "instant option"
  kf_monday_score_penalty :: int

definition blackout_end :: "MarketEvent \<Rightarrow> instant result" where
  "blackout_end e =
     (if me_is_nfp e then (case me_session_close_at e of None \<Rightarrow> Inl AssertionError | Some close \<Rightarrow> Inr close)
      else if me_strong_surprise e = Some False then Inr (me_scheduled_at e + NORMAL_POST_EVENT_BLOCK)
      else Inr (me_scheduled_at e + STRONG_OR_UNKNOWN_POST_EVENT_BLOCK))"

definition calendar_blocked :: "EvidenceState \<Rightarrow> int \<Rightarrow> CalendarFacts" where
  "calendar_blocked state penalty =
     \<lparr>kf_state = state, kf_block_new_exposure = True, kf_close_intraday_positions = False,
      kf_active_event_ids = [], kf_blackout_ends_at = None, kf_monday_score_penalty = penalty\<rparr>"

text \<open>\<^verbatim>\<open>calendar._deduplicate\<close>: by identity, in the order of time and identity.\<close>

definition deduplicate_events :: "MarketEvent list \<Rightarrow> MarketEvent list result" where
  "deduplicate_events events =
     (case deduplicated me_event_id (\<lambda>e. (me_scheduled_at e, me_event_id e)) events of
        None \<Rightarrow> Inl (ValueError ''event identity payload collision'')
      | Some canonical \<Rightarrow> Inr canonical)"

text \<open>The loop that collects the active events with the end of their blackout.\<close>

fun active_events :: "instant \<Rightarrow> MarketEvent list \<Rightarrow> (MarketEvent \<times> instant) list result" where
  "active_events decision [] = Inr []"
| "active_events decision (e # es) =
     (if me_impact_stars e < 2 then active_events decision es
      else and_then (blackout_end e) (\<lambda>end_at.
        and_then (active_events decision es) (\<lambda>rest.
          Inr (if me_scheduled_at e - PRE_EVENT_BLOCK \<le> decision \<and> decision < end_at
               then (e, end_at) # rest else rest))))"

definition monday_penalty_at :: "instant \<Rightarrow> int" where
  "monday_penalty_at decision = (if weekday decision = 0 then 1 else 0)"

definition available_facts :: "instant \<Rightarrow> (MarketEvent \<times> instant) list \<Rightarrow> CalendarFacts" where
  "available_facts decision active =
     \<lparr>kf_state = AVAILABLE, kf_block_new_exposure = (active \<noteq> []),
      kf_close_intraday_positions = list_ex (\<lambda>(e, _). decision < me_scheduled_at e) active,
      kf_active_event_ids = sort (map (\<lambda>(e, _). me_event_id e) active),
      kf_blackout_ends_at = (if active = [] then None else Some (Max (set (map snd active)))),
      kf_monday_score_penalty = monday_penalty_at decision\<rparr>"

definition evaluate_event_window :: "EventCalendar \<Rightarrow> py_datetime \<Rightarrow> CalendarFacts result" where
  "evaluate_event_window calendar decision_at =
     and_then (validated (EventCalendar_checks calendar) ()) (\<lambda>_.
     and_then (require_utc decision_at) (\<lambda>decision.
       if ec_captured_at calendar > decision then Inr (calendar_blocked EVIDENCE_UNKNOWN (monday_penalty_at decision))
       else if ec_valid_until calendar < decision then Inr (calendar_blocked STALE (monday_penalty_at decision))
       else and_then (deduplicate_events (ec_events calendar)) (\<lambda>canonical.
              and_then (active_events decision canonical) (\<lambda>active. Inr (available_facts decision active)))))"

subsection \<open>The documented window\<close>

text \<open>An event of at least two stars blocks from ten minutes before it until its blackout ends.\<close>

definition wf_event :: "MarketEvent \<Rightarrow> bool" where
  "wf_event e \<longleftrightarrow> first_error (MarketEvent_checks e) = None"

definition in_blackout :: "instant \<Rightarrow> MarketEvent \<Rightarrow> bool" where
  "in_blackout decision e \<longleftrightarrow>
     2 \<le> me_impact_stars e \<and> me_scheduled_at e - minutes 10 \<le> decision
     \<and> decision < (if me_is_nfp e then the (me_session_close_at e)
                   else if me_strong_surprise e = Some False then me_scheduled_at e + minutes 10
                   else me_scheduled_at e + minutes 120)"

lemma blackout_end_wf:
  assumes "wf_event e"
  shows "\<exists>end_at. blackout_end e = Inr end_at \<and> me_scheduled_at e < end_at
    \<and> (in_blackout t e \<longleftrightarrow> 2 \<le> me_impact_stars e \<and> me_scheduled_at e - PRE_EVENT_BLOCK \<le> t \<and> t < end_at)"
  using assms
  by (auto simp: wf_event_def MarketEvent_checks_def blackout_end_def in_blackout_def PRE_EVENT_BLOCK_def
      NORMAL_POST_EVENT_BLOCK_def STRONG_OR_UNKNOWN_POST_EVENT_BLOCK_def minutes_def split: option.splits if_splits)

lemma active_events_wf:
  assumes "list_all wf_event es"
  shows "\<exists>active. active_events t es = Inr active \<and> map fst active = filter (in_blackout t) es"
  using assms
proof (induction es)
  case (Cons e es)
  then obtain active where a: "active_events t es = Inr active" "map fst active = filter (in_blackout t) es" by auto
  obtain end_at where e: "blackout_end e = Inr end_at"
      "in_blackout t e \<longleftrightarrow> 2 \<le> me_impact_stars e \<and> me_scheduled_at e - PRE_EVENT_BLOCK \<le> t \<and> t < end_at"
    using blackout_end_wf [of e t] Cons.prems by auto
  show ?case using a by (simp add: e)
qed simp

lemma event_window_cases:
  assumes "evaluate_event_window calendar (AwareUTC t) = Inr f"
  obtains (unknown) "t < ec_captured_at calendar" "f = calendar_blocked EVIDENCE_UNKNOWN (monday_penalty_at t)"
  | (stale) "ec_captured_at calendar \<le> t" "ec_valid_until calendar < t" "f = calendar_blocked STALE (monday_penalty_at t)"
  | (available) canonical active where "ec_captured_at calendar \<le> t" "t \<le> ec_valid_until calendar"
      "deduplicate_events (ec_events calendar) = Inr canonical" "active_events t canonical = Inr active"
      "f = available_facts t active"
  using assms
  by (auto simp: evaluate_event_window_def and_then_eq_Inr_iff not_less split: if_splits)

lemma deduplicate_events_Inr:
  assumes "deduplicate_events es = Inr canonical"
  shows "set canonical = set es"
  using assms by (simp add: deduplicate_events_def deduplicated_Some(1) split: option.splits)

lemma deduplicate_events_cong:
  assumes "set es = set es'"
  shows "deduplicate_events es = deduplicate_events es'"
  unfolding deduplicate_events_def by (subst deduplicated_cong [OF assms]) auto

text \<open>What an economic calendar does to new exposure. A calendar that is current blocks new exposure
  exactly when some event of at least two stars is within its documented window (ten minutes before until
  ten or, after a strong or unknown surprise, one hundred and twenty minutes after, and for a payroll
  release until the session closes); open intraday positions are closed only before such an event; a
  calendar that is missing or stale blocks; and neither the order nor a repetition of events matters.\<close>

theorem event_window_blocks_exactly:
  assumes "list_all wf_event (ec_events calendar)" "evaluate_event_window calendar (AwareUTC t) = Inr f"
  shows "(kf_block_new_exposure f \<longleftrightarrow>
       t < ec_captured_at calendar \<or> ec_valid_until calendar < t \<or> (\<exists>e \<in> set (ec_events calendar). in_blackout t e))
    \<and> (kf_close_intraday_positions f \<longleftrightarrow> kf_state f = AVAILABLE
        \<and> (\<exists>e \<in> set (ec_events calendar). in_blackout t e \<and> t < me_scheduled_at e))
    \<and> (\<forall>es. set es = set (ec_events calendar)
        \<longrightarrow> evaluate_event_window (calendar\<lparr>ec_events := es\<rparr>) (AwareUTC t) = Inr f)"
proof (intro conjI allI impI)
  have facts: "(kf_block_new_exposure f \<longleftrightarrow>
       t < ec_captured_at calendar \<or> ec_valid_until calendar < t \<or> (\<exists>e \<in> set (ec_events calendar). in_blackout t e))
    \<and> (kf_close_intraday_positions f \<longleftrightarrow> kf_state f = AVAILABLE
        \<and> (\<exists>e \<in> set (ec_events calendar). in_blackout t e \<and> t < me_scheduled_at e))"
    using assms(2)
  proof (cases rule: event_window_cases)
    case (available canonical active)
    note s = deduplicate_events_Inr [OF available(3)]
    have "list_all wf_event canonical" using assms(1) s by (simp add: list_all_iff)
    from active_events_wf [OF this, of t] available(4)
    have m: "map fst active = filter (in_blackout t) canonical" by simp
    have "active \<noteq> [] \<longleftrightarrow> (\<exists>e \<in> set canonical. in_blackout t e)"
      using m by (metis filter_empty_conv map_is_Nil_conv)
    moreover have "list_ex (\<lambda>(e, _). t < me_scheduled_at e) active \<longleftrightarrow>
        (\<exists>e \<in> fst ` set active. t < me_scheduled_at e)"
      by (force simp: list_ex_iff)
    moreover have "fst ` set active = {e \<in> set canonical. in_blackout t e}"
      using m by (metis list.set_map set_filter)
    ultimately show ?thesis using available(1,2) s by (auto simp: available_facts_def available(5))
  qed (auto simp: calendar_blocked_def)
  then show "kf_block_new_exposure f \<longleftrightarrow>
       t < ec_captured_at calendar \<or> ec_valid_until calendar < t \<or> (\<exists>e \<in> set (ec_events calendar). in_blackout t e)"
    and "kf_close_intraday_positions f \<longleftrightarrow> kf_state f = AVAILABLE
        \<and> (\<exists>e \<in> set (ec_events calendar). in_blackout t e \<and> t < me_scheduled_at e)"
    by simp_all
next
  fix es
  assume s: "set es = set (ec_events calendar)"
  have "EventCalendar_checks (calendar\<lparr>ec_events := es\<rparr>) = EventCalendar_checks calendar"
    using s by (simp add: EventCalendar_checks_def list_ex_iff)
  then have "evaluate_event_window (calendar\<lparr>ec_events := es\<rparr>) (AwareUTC t) = evaluate_event_window calendar (AwareUTC t)"
    by (simp add: evaluate_event_window_def deduplicate_events_cong [OF s])
  then show "evaluate_event_window (calendar\<lparr>ec_events := es\<rparr>) (AwareUTC t) = Inr f" using assms(2) by simp
qed

section \<open>Trading sessions\<close>

definition ENTRY_CUTOFF :: timedelta where "ENTRY_CUTOFF = minutes 30"
definition FLAT_CUTOFF :: timedelta where "FLAT_CUTOFF = minutes 10"
definition OPEN_WINDOW :: timedelta where "OPEN_WINDOW = minutes 15"
definition OPEN_WINDOW_MULTIPLIER :: decimal where "OPEN_WINDOW_MULTIPLIER = 5 / 10"
definition FULL_MULTIPLIER :: decimal where "FULL_MULTIPLIER = 1"
definition PRE_OPEN_MAX_MICRO_CONTRACTS :: int where "PRE_OPEN_MAX_MICRO_CONTRACTS = 3"

datatype SessionKind = SESSION_BINANCE_USDM | KRX_HLIT | US_HLIT | CASH_METODO

definition INTRADAY_OPEN_KINDS :: "SessionKind list" where
  "INTRADAY_OPEN_KINDS = [KRX_HLIT, US_HLIT]"

record KrxMarketSafety =
  ms_observed_at :: instant
  ms_has_active_krx_vi :: bool
  ms_is_single_price_auction :: bool

record ExchangeCalendar =
  xc_session_date :: int
  xc_kind :: SessionKind
  xc_source_timezone :: string
  xc_is_trading_day :: bool
  xc_session_open_at :: "instant option"
  xc_session_close_at :: "instant option"
  xc_close_auction_at :: "instant option"
  xc_pre_open_at :: "instant option"
  xc_captured_at :: instant
  xc_valid_until :: instant

text \<open>\<^verbatim>\<open>ExchangeCalendar.__post_init__\<close>; \<open>zone name\<close> is what \<^verbatim>\<open>ZoneInfo(name)\<close> gives, the local date
  of an instant, or nothing for a name that is not in the database.\<close>

definition trading_day_checks :: "(instant \<Rightarrow> int) \<Rightarrow> ExchangeCalendar \<Rightarrow> checks" where
  "trading_day_checks local_date c =
     (case (xc_session_open_at c, xc_session_close_at c) of
        (Some open_at, Some close_at) \<Rightarrow>
          [(close_at \<le> open_at, ValueError ''session close must be later than open''),
           (local_date open_at \<noteq> xc_session_date c, ValueError ''session_date must match the source-local open date''),
           (xc_kind c = KRX_HLIT \<and> (case xc_close_auction_at c of None \<Rightarrow> True
              | Some auction \<Rightarrow> \<not> (open_at < auction \<and> auction \<le> close_at)),
              ValueError ''KRX HLIT requires an in-session close auction boundary''),
           ((case xc_pre_open_at c of None \<Rightarrow> False | Some pre \<Rightarrow> open_at \<le> pre),
              ValueError ''pre-open must start before the session open'')]
      | _ \<Rightarrow> [(True, ValueError ''trading day requires open and close boundaries'')])"

definition ExchangeCalendar_checks :: "(string \<Rightarrow> (instant \<Rightarrow> int) option) \<Rightarrow> ExchangeCalendar \<Rightarrow> checks" where
  "ExchangeCalendar_checks zone c =
     [(xc_source_timezone c = [], ValueError ''source_timezone must be non-empty text''),
      (zone (xc_source_timezone c) = None, ValueError ''source_timezone must be a valid IANA timezone''),
      (xc_valid_until c < xc_captured_at c, ValueError ''calendar validity cannot end before capture'')]
     @ (if \<not> xc_is_trading_day c
        then [(list_ex (\<lambda>v. v \<noteq> None)
                [xc_session_open_at c, xc_session_close_at c, xc_close_auction_at c, xc_pre_open_at c],
               ValueError ''holiday calendar cannot contain session boundaries'')]
        else trading_day_checks (the (zone (xc_source_timezone c))) c)"

record SessionFacts =
  sf_state :: EvidenceState
  sf_session_open :: bool
  sf_entry_allowed :: bool
  sf_reduce_only :: bool
  sf_must_be_flat :: bool
  sf_overnight_allowed :: bool
  sf_pre_open :: bool
  sf_size_multiplier :: decimal
  sf_max_micro_contracts :: "int option"
  sf_entry_cutoff_at :: "instant option"
  sf_flat_at :: "instant option"
  sf_blockers :: "string list"

definition session_blocked :: "EvidenceState \<Rightarrow> bool \<Rightarrow> string \<Rightarrow> SessionFacts" where
  "session_blocked state overnight blocker =
     \<lparr>sf_state = state, sf_session_open = False, sf_entry_allowed = False, sf_reduce_only = True,
      sf_must_be_flat = False, sf_overnight_allowed = overnight, sf_pre_open = False,
      sf_size_multiplier = FULL_MULTIPLIER, sf_max_micro_contracts = None, sf_entry_cutoff_at = None,
      sf_flat_at = None, sf_blockers = [blocker]\<rparr>"

definition krx_safety_blockers :: "ExchangeCalendar \<Rightarrow> KrxMarketSafety option \<Rightarrow> string list" where
  "krx_safety_blockers c safety =
     (if xc_kind c \<noteq> KRX_HLIT then []
      else case safety of
             None \<Rightarrow> [''KRX_MARKET_SAFETY_UNAVAILABLE'']
           | Some s \<Rightarrow> (if ms_has_active_krx_vi s then [''KRX_VI_ACTIVE''] else [])
                        @ (if ms_is_single_price_auction s then [''KRX_SINGLE_PRICE_AUCTION''] else []))"

definition size_multiplier :: "ExchangeCalendar \<Rightarrow> instant \<Rightarrow> instant \<Rightarrow> bool \<Rightarrow> decimal" where
  "size_multiplier c open_at decision pre_open =
     (if pre_open \<or> xc_kind c \<notin> set INTRADAY_OPEN_KINDS then FULL_MULTIPLIER
      else if open_at \<le> decision \<and> decision < open_at + OPEN_WINDOW then OPEN_WINDOW_MULTIPLIER
      else FULL_MULTIPLIER)"

definition metodo_session :: "instant \<Rightarrow> instant \<Rightarrow> instant \<Rightarrow> SessionFacts" where
  "metodo_session open_at close_at decision =
     \<lparr>sf_state = AVAILABLE, sf_session_open = (open_at \<le> decision \<and> decision < close_at),
      sf_entry_allowed = True, sf_reduce_only = False, sf_must_be_flat = False,
      sf_overnight_allowed = True, sf_pre_open = False, sf_size_multiplier = FULL_MULTIPLIER,
      sf_max_micro_contracts = None, sf_entry_cutoff_at = None, sf_flat_at = None, sf_blockers = []\<rparr>"

definition in_pre_open :: "ExchangeCalendar \<Rightarrow> instant \<Rightarrow> instant \<Rightarrow> bool" where
  "in_pre_open c open_at decision =
     (case xc_pre_open_at c of None \<Rightarrow> False
      | Some pre \<Rightarrow> xc_kind c \<in> set INTRADAY_OPEN_KINDS \<and> pre \<le> decision \<and> decision < open_at)"

definition intraday_session ::
  "ExchangeCalendar \<Rightarrow> KrxMarketSafety option \<Rightarrow> instant \<Rightarrow> instant \<Rightarrow> instant \<Rightarrow> instant \<Rightarrow> SessionFacts" where
  "intraday_session c safety open_at close_at close_reference decision =
     (let entry_cutoff = close_reference - ENTRY_CUTOFF;
          flat_at = (if xc_kind c = KRX_HLIT then close_reference else close_reference - FLAT_CUTOFF);
          session_open = (open_at \<le> decision \<and> decision < close_at);
          pre_open = in_pre_open c open_at decision;
          entry_allowed = ((session_open \<and> decision < entry_cutoff) \<or> pre_open);
          must_be_flat = (session_open \<and> flat_at \<le> decision);
          blockers = krx_safety_blockers c safety
            @ (if \<not> session_open \<and> \<not> pre_open then [''SESSION_CLOSED''] else [])
            @ (if session_open \<and> entry_cutoff \<le> decision then [''ENTRY_CUTOFF_REACHED''] else [])
            @ (if must_be_flat then [''FLAT_CUTOFF_REACHED''] else [])
      in \<lparr>sf_state = AVAILABLE, sf_session_open = session_open,
          sf_entry_allowed = (entry_allowed \<and> blockers = []),
          sf_reduce_only = (\<not> (entry_allowed \<and> blockers = [])),
          sf_must_be_flat = must_be_flat, sf_overnight_allowed = False, sf_pre_open = pre_open,
          sf_size_multiplier = size_multiplier c open_at decision pre_open,
          sf_max_micro_contracts = (if pre_open then Some PRE_OPEN_MAX_MICRO_CONTRACTS else None),
          sf_entry_cutoff_at = Some entry_cutoff, sf_flat_at = Some flat_at, sf_blockers = sort blockers\<rparr>)"

definition evaluate_session ::
  "ExchangeCalendar \<Rightarrow> py_datetime \<Rightarrow> KrxMarketSafety option \<Rightarrow> SessionFacts result" where
  "evaluate_session c decision_at safety =
     and_then (require_utc decision_at) (\<lambda>decision.
       let overnight = (xc_kind c = CASH_METODO)
       in if xc_captured_at c > decision then Inr (session_blocked EVIDENCE_UNKNOWN overnight ''CALENDAR_FROM_FUTURE'')
          else if xc_valid_until c < decision then Inr (session_blocked STALE overnight ''STALE_EXCHANGE_CALENDAR'')
          else if \<not> xc_is_trading_day c then Inr (session_blocked AVAILABLE overnight ''EXCHANGE_HOLIDAY'')
          else case (xc_session_open_at c, xc_session_close_at c) of
                 (Some open_at, Some close_at) \<Rightarrow>
                   if xc_kind c = CASH_METODO then Inr (metodo_session open_at close_at decision)
                   else (case (if xc_kind c = KRX_HLIT then xc_close_auction_at c else Some close_at) of
                           None \<Rightarrow> Inl AssertionError
                         | Some close_reference \<Rightarrow> Inr (intraday_session c safety open_at close_at close_reference decision))
               | _ \<Rightarrow> Inl AssertionError)"

subsection \<open>The entry window\<close>

definition wf_exchange_calendar :: "(string \<Rightarrow> (instant \<Rightarrow> int) option) \<Rightarrow> ExchangeCalendar \<Rightarrow> bool" where
  "wf_exchange_calendar zone c \<longleftrightarrow> first_error (ExchangeCalendar_checks zone c) = None"

lemma wf_trading_day:
  assumes "wf_exchange_calendar zone c" "xc_is_trading_day c"
  obtains open_at close_at where "xc_session_open_at c = Some open_at" "xc_session_close_at c = Some close_at"
    "open_at < close_at" "xc_kind c = KRX_HLIT \<longrightarrow> (\<exists>auction. xc_close_auction_at c = Some auction \<and> open_at < auction \<and> auction \<le> close_at)"
    "\<forall>pre. xc_pre_open_at c = Some pre \<longrightarrow> pre < open_at"
  using assms
  by (auto simp: wf_exchange_calendar_def ExchangeCalendar_checks_def trading_day_checks_def first_error_append
      split: option.splits if_splits)

text \<open>The boundary the cutoffs are measured from: the closing auction of a KRX session, otherwise the close.\<close>

definition close_reference_of :: "ExchangeCalendar \<Rightarrow> instant" where
  "close_reference_of c = the (if xc_kind c = KRX_HLIT then xc_close_auction_at c else xc_session_close_at c)"

definition krx_safe :: "ExchangeCalendar \<Rightarrow> KrxMarketSafety option \<Rightarrow> bool" where
  "krx_safe c safety \<longleftrightarrow> xc_kind c = KRX_HLIT \<longrightarrow>
     (\<exists>s. safety = Some s \<and> \<not> ms_has_active_krx_vi s \<and> \<not> ms_is_single_price_auction s)"

definition entry_window :: "ExchangeCalendar \<Rightarrow> instant \<Rightarrow> bool" where
  "entry_window c t \<longleftrightarrow>
     (the (xc_session_open_at c) \<le> t \<and> t < close_reference_of c - minutes 30)
     \<or> (\<exists>pre. xc_pre_open_at c = Some pre \<and> xc_kind c \<in> {KRX_HLIT, US_HLIT} \<and> pre \<le> t \<and> t < the (xc_session_open_at c))"

lemma krx_safe_iff: "krx_safety_blockers c safety = [] \<longleftrightarrow> krx_safe c safety"
  by (auto simp: krx_safety_blockers_def krx_safe_def split: option.splits)

lemma evaluate_session_intraday:
  assumes "wf_exchange_calendar zone c" "xc_is_trading_day c" "xc_kind c \<noteq> CASH_METODO"
    and "xc_captured_at c \<le> t" "t \<le> xc_valid_until c"
  shows "evaluate_session c (AwareUTC t) safety = Inr (intraday_session c safety (the (xc_session_open_at c))
    (the (xc_session_close_at c)) (close_reference_of c) t)"
  using assms by (auto elim!: wf_trading_day simp: evaluate_session_def close_reference_of_def Let_def)

lemma intraday_window:
  assumes "wf_exchange_calendar zone c" "xc_is_trading_day c" "xc_kind c \<noteq> CASH_METODO"
    and f: "f = intraday_session c safety (the (xc_session_open_at c)) (the (xc_session_close_at c)) (close_reference_of c) t"
  shows "sf_entry_allowed f \<longleftrightarrow> entry_window c t \<and> krx_safe c safety"
    and "sf_reduce_only f \<longleftrightarrow> \<not> sf_entry_allowed f"
    and "sf_must_be_flat f \<Longrightarrow> \<not> sf_entry_allowed f"
    and "sf_must_be_flat f \<longleftrightarrow> t < the (xc_session_close_at c) \<and> the (xc_session_open_at c) \<le> t
      \<and> (if xc_kind c = KRX_HLIT then close_reference_of c else the (xc_session_close_at c) - minutes 10) \<le> t"
    and "\<not> sf_overnight_allowed f"
    and "sf_size_multiplier f = (if xc_kind c \<in> {KRX_HLIT, US_HLIT} \<and> the (xc_session_open_at c) \<le> t
      \<and> t < the (xc_session_open_at c) + minutes 15 then 5 / 10 else 1)"
proof -
  obtain open_at close_at where o: "xc_session_open_at c = Some open_at" "xc_session_close_at c = Some close_at"
    "open_at < close_at" "xc_kind c = KRX_HLIT \<longrightarrow> (\<exists>auction. xc_close_auction_at c = Some auction \<and> open_at < auction \<and> auction \<le> close_at)"
    "\<forall>pre. xc_pre_open_at c = Some pre \<longrightarrow> pre < open_at"
    by (rule wf_trading_day [OF assms(1,2)])
  have r: "close_reference_of c \<le> close_at" using o by (auto simp: close_reference_of_def)
  define so where "so \<longleftrightarrow> open_at \<le> t \<and> t < close_at"
  define po where "po \<longleftrightarrow> in_pre_open c open_at t"
  define cut where "cut = close_reference_of c - ENTRY_CUTOFF"
  define flat_at where "flat_at = (if xc_kind c = KRX_HLIT then close_reference_of c else close_reference_of c - FLAT_CUTOFF)"
  have proj: "sf_must_be_flat f \<longleftrightarrow> so \<and> flat_at \<le> t" "\<not> sf_overnight_allowed f"
    "sf_reduce_only f \<longleftrightarrow> \<not> sf_entry_allowed f"
    "sf_size_multiplier f = size_multiplier c open_at t po"
    "sf_entry_allowed f \<longleftrightarrow> ((so \<and> t < cut) \<or> po) \<and> krx_safety_blockers c safety = []
       \<and> (so \<or> po) \<and> \<not> (so \<and> cut \<le> t) \<and> \<not> (so \<and> flat_at \<le> t)"
    unfolding so_def po_def cut_def flat_at_def by (auto simp: f o(1,2) intraday_session_def Let_def)
  have po: "po \<longleftrightarrow> (\<exists>pre. xc_pre_open_at c = Some pre \<and> xc_kind c \<in> {KRX_HLIT, US_HLIT} \<and> pre \<le> t \<and> t < open_at)"
    by (auto simp: po_def in_pre_open_def INTRADAY_OPEN_KINDS_def split: option.splits)
  have "cut < flat_at" by (simp add: cut_def flat_at_def ENTRY_CUTOFF_def FLAT_CUTOFF_def minutes_def)
  moreover have "po \<Longrightarrow> \<not> so" using po by (auto simp: so_def)
  ultimately have a: "sf_entry_allowed f \<longleftrightarrow> ((so \<and> t < cut) \<or> po) \<and> krx_safe c safety"
    unfolding proj(5) krx_safe_iff by linarith
  moreover have "so \<and> t < cut \<longleftrightarrow> open_at \<le> t \<and> t < close_reference_of c - minutes 30"
    using r by (auto simp: so_def cut_def ENTRY_CUTOFF_def minutes_def)
  ultimately show "sf_entry_allowed f \<longleftrightarrow> entry_window c t \<and> krx_safe c safety"
    by (simp add: entry_window_def o(1) po)
  show "sf_reduce_only f \<longleftrightarrow> \<not> sf_entry_allowed f" "\<not> sf_overnight_allowed f" by (rule proj)+
  show "sf_must_be_flat f \<Longrightarrow> \<not> sf_entry_allowed f" using proj(1,5) by simp
  show "sf_must_be_flat f \<longleftrightarrow> t < the (xc_session_close_at c) \<and> the (xc_session_open_at c) \<le> t
      \<and> (if xc_kind c = KRX_HLIT then close_reference_of c else the (xc_session_close_at c) - minutes 10) \<le> t"
    by (auto simp: proj(1) so_def flat_at_def o(1,2) FLAT_CUTOFF_def close_reference_of_def)
  show "sf_size_multiplier f = (if xc_kind c \<in> {KRX_HLIT, US_HLIT} \<and> the (xc_session_open_at c) \<le> t
      \<and> t < the (xc_session_open_at c) + minutes 15 then 5 / 10 else 1)"
    unfolding proj(4) using po
    by (auto simp: size_multiplier_def o(1) INTRADAY_OPEN_KINDS_def OPEN_WINDOW_def OPEN_WINDOW_MULTIPLIER_def FULL_MULTIPLIER_def)
qed

text \<open>C18: when a session admits an entry: exactly while the calendar is current (captured before and not
  expired), on a trading day, and either in a cash session of Metodo, at any time, or in the entry window of an
  intraday session (from the open, or the pre-open, until thirty minutes before the closing reference) and,
  on the Korean exchange, with a known and calm market. Otherwise positions may only be reduced; whenever the
  book must be flat no entry is admitted; only Metodo holds overnight; and the size is halved in the first
  fifteen minutes of an intraday open and only then.\<close>

theorem session_admits_entry_exactly:
  assumes wf: "wf_exchange_calendar zone c"
  shows "\<exists>f. evaluate_session c (AwareUTC t) safety = Inr f
    \<and> (sf_entry_allowed f \<longleftrightarrow> xc_captured_at c \<le> t \<and> t \<le> xc_valid_until c \<and> xc_is_trading_day c
         \<and> (xc_kind c = CASH_METODO \<or> entry_window c t \<and> krx_safe c safety))
    \<and> (sf_reduce_only f \<longleftrightarrow> \<not> sf_entry_allowed f)
    \<and> \<not> (sf_must_be_flat f \<and> sf_entry_allowed f)
    \<and> (sf_overnight_allowed f \<longleftrightarrow> xc_kind c = CASH_METODO)
    \<and> sf_size_multiplier f =
        (if xc_captured_at c \<le> t \<and> t \<le> xc_valid_until c \<and> xc_is_trading_day c \<and> xc_kind c \<in> {KRX_HLIT, US_HLIT}
            \<and> the (xc_session_open_at c) \<le> t \<and> t < the (xc_session_open_at c) + minutes 15 then 5 / 10 else 1)"
proof (cases "xc_captured_at c \<le> t \<and> t \<le> xc_valid_until c \<and> xc_is_trading_day c \<and> xc_kind c \<noteq> CASH_METODO")
  case True
  then show ?thesis
    using evaluate_session_intraday [OF wf, of t safety] intraday_window [OF wf _ _ refl, of safety t] by auto
next
  case False
  show ?thesis
  proof (cases "xc_captured_at c \<le> t \<and> t \<le> xc_valid_until c \<and> xc_is_trading_day c")
    case True
    with False obtain o1 c1 where "xc_kind c = CASH_METODO" "xc_session_open_at c = Some o1" "xc_session_close_at c = Some c1"
      using wf_trading_day [OF wf] by metis
    with True show ?thesis
      by (simp add: evaluate_session_def metodo_session_def FULL_MULTIPLIER_def)
  next
    case stale: False
    then show ?thesis
      by (cases "xc_captured_at c \<le> t"; cases "t \<le> xc_valid_until c")
         (simp_all add: evaluate_session_def session_blocked_def FULL_MULTIPLIER_def Let_def)
  qed
qed

text \<open>A Korean session whose closing auction ends with the session never demands a flat book. The
  calendar admits a closing auction at the close, and the flat cutoff is the auction itself, which is then
  no longer within the session.\<close>

theorem krx_auction_at_close_never_flat:
  assumes "wf_exchange_calendar zone c" "xc_is_trading_day c" "xc_kind c = KRX_HLIT"
    and "xc_close_auction_at c = xc_session_close_at c"
    and "evaluate_session c (AwareUTC t) safety = Inr f"
  shows "\<not> sf_must_be_flat f"
proof (cases "xc_captured_at c \<le> t \<and> t \<le> xc_valid_until c")
  case True
  then have "f = intraday_session c safety (the (xc_session_open_at c)) (the (xc_session_close_at c)) (close_reference_of c) t"
    using evaluate_session_intraday [OF assms(1,2), of t safety] assms(3,5) by simp
  from intraday_window(4) [OF assms(1,2) _ this] show ?thesis
    using assms(3,4) by (simp add: close_reference_of_def)
next
  case False
  then show ?thesis using assms(5) by (auto simp: evaluate_session_def session_blocked_def Let_def split: if_splits)
qed

section \<open>Witnesses\<close>

definition sample_event :: "string \<Rightarrow> instant \<Rightarrow> MarketEvent" where
  "sample_event name t =
     \<lparr>me_event_id = name, me_source_key = ''calendar'', me_scheduled_at = t, me_impact_stars = 3,
      me_strong_surprise = None, me_is_nfp = False, me_session_close_at = None\<rparr>"

definition sample_calendar :: "MarketEvent list \<Rightarrow> EventCalendar" where
  "sample_calendar events = \<lparr>ec_captured_at = 0, ec_valid_until = minutes 600, ec_events = events\<rparr>"

theorem event_window_blocks_exactly_witness:
  "\<exists>f. evaluate_event_window (sample_calendar [sample_event ''cpi'' (minutes 60), sample_event ''fed'' (minutes 400)])
        (AwareUTC (minutes 55)) = Inr f
    \<and> kf_block_new_exposure f \<and> kf_close_intraday_positions f
    \<and> evaluate_event_window
        (sample_calendar [sample_event ''fed'' (minutes 400), sample_event ''cpi'' (minutes 60), sample_event ''fed'' (minutes 400)])
        (AwareUTC (minutes 55)) = Inr f"
proof -
  let ?es = "[sample_event ''cpi'' (minutes 60), sample_event ''fed'' (minutes 400)]"
  let ?es' = "[sample_event ''fed'' (minutes 400), sample_event ''cpi'' (minutes 60), sample_event ''fed'' (minutes 400)]"
  have "case evaluate_event_window (sample_calendar ?es) (AwareUTC (minutes 55)) of
      Inl _ \<Rightarrow> False | Inr f \<Rightarrow> kf_block_new_exposure f \<and> kf_close_intraday_positions f"
    by code_simp
  then obtain f where f: "evaluate_event_window (sample_calendar ?es) (AwareUTC (minutes 55)) = Inr f"
    "kf_block_new_exposure f" "kf_close_intraday_positions f"
    by (auto split: sum.splits)
  have wf: "list_all wf_event (ec_events (sample_calendar ?es))" by code_simp
  have "(sample_calendar ?es)\<lparr>ec_events := ?es'\<rparr> = sample_calendar ?es'" by (simp add: sample_calendar_def)
  moreover have "set ?es' = set (ec_events (sample_calendar ?es))" by (auto simp: sample_calendar_def)
  ultimately have "evaluate_event_window (sample_calendar ?es') (AwareUTC (minutes 55)) = Inr f"
    using event_window_blocks_exactly [OF wf f(1)] by metis
  then show ?thesis using f by blast
qed

definition sample_exchange :: "SessionKind \<Rightarrow> instant \<Rightarrow> ExchangeCalendar" where
  "sample_exchange kind auction =
     \<lparr>xc_session_date = 0, xc_kind = kind, xc_source_timezone = ''Asia/Seoul'', xc_is_trading_day = True,
      xc_session_open_at = Some (minutes 60), xc_session_close_at = Some (minutes 450),
      xc_close_auction_at = Some auction, xc_pre_open_at = None, xc_captured_at = 0, xc_valid_until = minutes 600\<rparr>"

definition sample_zone :: "string \<Rightarrow> (instant \<Rightarrow> int) option" where
  "sample_zone name = (if name = ''Asia/Seoul'' then Some (\<lambda>t. (t + minutes 540) div minutes 1440) else None)"

definition calm_market :: "KrxMarketSafety option" where
  "calm_market = Some \<lparr>ms_observed_at = 0, ms_has_active_krx_vi = False, ms_is_single_price_auction = False\<rparr>"

theorem session_admits_entry_exactly_witness:
  "\<exists>f. evaluate_session (sample_exchange KRX_HLIT (minutes 440)) (AwareUTC (minutes 70)) calm_market = Inr f
    \<and> sf_entry_allowed f \<and> \<not> sf_reduce_only f \<and> \<not> sf_must_be_flat f \<and> sf_size_multiplier f = 5 / 10"
proof -
  let ?c = "sample_exchange KRX_HLIT (minutes 440)"
  have wf: "wf_exchange_calendar sample_zone ?c" by code_simp
  have c: "xc_is_trading_day ?c" "xc_captured_at ?c \<le> minutes 70" "minutes 70 \<le> xc_valid_until ?c"
    by code_simp+
  have w: "entry_window ?c (minutes 70)" "krx_safe ?c calm_market" "xc_kind ?c = KRX_HLIT"
    "xc_session_open_at ?c = Some (minutes 60)"
    by (simp_all add: entry_window_def krx_safe_def calm_market_def sample_exchange_def close_reference_of_def minutes_def)
  have "minutes 60 \<le> minutes 70" "minutes 70 < minutes 60 + minutes 15" by (simp_all add: minutes_def)
  then show ?thesis
    using session_admits_entry_exactly [OF wf, of "minutes 70" calm_market] w c by (auto simp del: minutes_def)
qed

theorem krx_auction_at_close_never_flat_witness:
  "\<exists>f. evaluate_session (sample_exchange KRX_HLIT (minutes 450)) (AwareUTC (minutes 449)) calm_market = Inr f
    \<and> \<not> sf_must_be_flat f"
proof -
  let ?c = "sample_exchange KRX_HLIT (minutes 450)"
  have wf: "wf_exchange_calendar sample_zone ?c" by code_simp
  have c: "xc_is_trading_day ?c" "xc_kind ?c = KRX_HLIT" "xc_close_auction_at ?c = xc_session_close_at ?c"
    by (simp_all add: sample_exchange_def)
  have "\<not> failed (evaluate_session ?c (AwareUTC (minutes 449)) calm_market)" by code_simp
  then obtain f where f: "evaluate_session ?c (AwareUTC (minutes 449)) calm_market = Inr f"
    by (auto simp: failed_def split: sum.splits)
  show ?thesis using f krx_auction_at_close_never_flat [OF wf c f] by blast
qed

end
