(* ===== verification/Grading.thy ===== *)
theory Grading
  imports V6Models
begin

text \<open>
  \<^verbatim>\<open>strategies/david_v6/grading.py\<close>: the research weights, the telemetry-only and the hypothesis
  indicators, and the grade of a setup. A \<^verbatim>\<open>frozenset\<close> of codes is a list here; the grade depends on
  its members only. Shown: the grade depends only on the set of available codes, and an indicator held
  at telemetry never moves the score.
\<close>

section \<open>Weights\<close>

definition DIRECTION_LONG :: string where "DIRECTION_LONG = ''direction:LONG''"
definition DIRECTION_SHORT :: string where "DIRECTION_SHORT = ''direction:SHORT''"
definition V1_SECADO :: string where "V1_SECADO = ''v1_secado''"
definition V1_CERO_OSMOTICO :: string where "V1_CERO_OSMOTICO = ''v1_cero_osmotico''"
definition V1_MIG_REVERSAL :: string where "V1_MIG_REVERSAL = ''v1_mig_reversal''"
definition SUPPORTING_BIG_TRADE_BEHIND :: string where
  "SUPPORTING_BIG_TRADE_BEHIND = ''supporting_big_trade_behind''"
definition BLOCKING_BIG_TRADE_AHEAD :: string where "BLOCKING_BIG_TRADE_AHEAD = ''blocking_big_trade_ahead''"

definition RESEARCH_WEIGHTS :: "(string \<times> int) list" where
  "RESEARCH_WEIGHTS =
     [(''higher_timeframe_bias_aligned'', 2), (''regular_hlit_divergence'', 2), (''hidden_divergence'', 1),
      (''fibonacci_extension_cluster'', 2), (''profile_value_confluence'', 1), (V1_SECADO, 2),
      (V1_CERO_OSMOTICO, 1), (V1_MIG_REVERSAL, 2), (SUPPORTING_BIG_TRADE_BEHIND, 1),
      (BLOCKING_BIG_TRADE_AHEAD, - 2), (''high_impact_news_risk'', - 3), (''abnormal_spread_or_slippage'', - 2)]"

definition TELEMETRY_ONLY :: "string list" where
  "TELEMETRY_ONLY = [V1_CERO_OSMOTICO]"

definition HYPOTHESIS_CODES :: "string list" where
  "HYPOTHESIS_CODES =
     [V1_SECADO, V1_CERO_OSMOTICO, V1_MIG_REVERSAL, SUPPORTING_BIG_TRADE_BEHIND, BLOCKING_BIG_TRADE_AHEAD]"

definition CANDIDATE_SCORE :: int where "CANDIDATE_SCORE = 7"
definition HIGH_CONFIDENCE_SCORE :: int where "HIGH_CONFIDENCE_SCORE = 9"

definition indicator_weight :: "string \<Rightarrow> int" where
  "indicator_weight key =
     (if key \<in> set TELEMETRY_ONLY then 0
      else case map_of RESEARCH_WEIGHTS key of None \<Rightarrow> 0 | Some w \<Rightarrow> w)"

section \<open>The grade\<close>

definition matched_codes :: "MatchedIndicator list \<Rightarrow> string list" where
  "matched_codes indicators = remdups (map mi_key (filter (\<lambda>i. mi_evidence_state i = AVAILABLE) indicators))"

definition score_indicators :: "MatchedIndicator list \<Rightarrow> int" where
  "score_indicators indicators = sum_list (map indicator_weight (matched_codes indicators))"

definition grade_setup :: "MatchedIndicator list \<Rightarrow> string list \<Rightarrow> int \<Rightarrow> SetupGrade result" where
  "grade_setup indicators mandatory_codes score_adjustment =
     (if list_ex (\<lambda>code. \<not> trimmed_text code) mandatory_codes
      then Inl (ValueError ''mandatory_codes must contain non-empty trimmed text'')
      else let matched = matched_codes indicators
           in if {DIRECTION_LONG, DIRECTION_SHORT} \<subseteq> set matched then Inr GRADE_REJECT
              else let score = sum_list (map indicator_weight matched) + score_adjustment
                   in if \<not> set mandatory_codes \<subseteq> set matched then Inr GRADE_NORMAL
                      else if score \<ge> HIGH_CONFIDENCE_SCORE then Inr GRADE_A
                      else if score \<ge> CANDIDATE_SCORE then Inr GRADE_A_CANDIDATE
                      else Inr GRADE_NORMAL)"

section \<open>What the grade depends on\<close>

lemma score_as_sum: "sum_list (map indicator_weight (matched_codes is)) = (\<Sum>c \<in> set (matched_codes is). indicator_weight c)"
  unfolding matched_codes_def by (simp only: sum_list_distinct_conv_sum_set distinct_remdups)

lemma grade_setup_cong:
  assumes "set (matched_codes is) = set (matched_codes js)" "set ms = set ns"
  shows "grade_setup is ms a = grade_setup js ns a"
  using assms by (simp add: grade_setup_def score_as_sum Let_def list_ex_iff)

lemma telemetry_weight: "c \<in> set TELEMETRY_ONLY \<Longrightarrow> indicator_weight c = 0"
  by (simp add: indicator_weight_def)

text \<open>The score without the indicators held at telemetry.\<close>

lemma score_without_telemetry:
  "score_indicators (filter (\<lambda>i. mi_key i \<notin> set TELEMETRY_ONLY) is) = score_indicators is"
proof -
  have s: "set (matched_codes (filter (\<lambda>i. mi_key i \<notin> set TELEMETRY_ONLY) is)) = set (matched_codes is) - set TELEMETRY_ONLY"
    by (auto simp: matched_codes_def)
  show ?thesis unfolding score_indicators_def score_as_sum s
    by (rule sum.mono_neutral_left) (auto simp: telemetry_weight)
qed

end
