(* ===== verification/RiskV6.thy ===== *)
theory RiskV6
  imports RiskModels Grading
begin

text \<open>
  \<^verbatim>\<open>risk/v6.py\<close>: the david v6 risk engine, which sizes a trade against the policy in force and lists
  every reason to refuse it. Shown: a trade is allowed exactly when it is admissible by the written
  rules, the loss at the stop of an allowed trade stays within one percent of the account's equity up
  to the rounding of 28-digit decimals, and a better research grade never enlarges a position.
\<close>

section \<open>Constants and records\<close>

definition MAX_SPREAD_TICKS :: decimal where "MAX_SPREAD_TICKS = 3"
definition SESSION_TRADE_UPPER_BOUND :: int where "SESSION_TRADE_UPPER_BOUND = 8"
definition STOP_DISTANCE_MINIMUM_ATR :: decimal where "STOP_DISTANCE_MINIMUM_ATR = 40 / 100"
definition STOP_DISTANCE_MAXIMUM_ATR :: decimal where "STOP_DISTANCE_MAXIMUM_ATR = 150 / 100"
definition MAX_LEVERAGE :: int where "MAX_LEVERAGE = 50"
definition SCORE_ONLY :: string where "SCORE_ONLY = ''SCORE_ONLY''"
definition RESEARCH_SCORE_AUTHORITY :: string where "RESEARCH_SCORE_AUTHORITY = SCORE_ONLY"

record V6RiskRequest =
  rq_market :: V6Market
  rq_grade :: SetupGrade
  rq_side :: Side
  rq_entry_price :: decimal
  rq_structural_reference :: decimal
  rq_tick_size :: decimal
  rq_spread :: decimal
  rq_atr_30s :: "decimal option"
  rq_atr_5m :: decimal
  rq_session_start_equity :: decimal
  rq_current_equity :: decimal
  rq_daily_net_pnl :: decimal
  rq_weekly_net_pnl :: decimal
  rq_consecutive_net_losses :: int
  rq_current_open_structural_risk :: decimal
  rq_quantity_step :: decimal
  rq_cost_per_unit :: decimal
  rq_leverage :: "int option"
  rq_session_trade_count :: int
  rq_session_objective_reached :: bool
  rq_size_multiplier :: decimal
  rq_max_quantity :: "decimal option"

definition not_positive :: "string \<times> decimal \<Rightarrow> bool \<times> py_error" where
  "not_positive nv = (snd nv \<le> 0, ValueError (fst nv @ '' must be positive''))"

definition is_negative :: "string \<times> decimal \<Rightarrow> bool \<times> py_error" where
  "is_negative nv = (snd nv < 0, ValueError (fst nv @ '' must be non-negative''))"

definition V6RiskRequest_checks :: "V6RiskRequest \<Rightarrow> checks" where
  "V6RiskRequest_checks r =
     map not_positive
       [(''entry_price'', rq_entry_price r), (''structural_reference'', rq_structural_reference r),
        (''tick_size'', rq_tick_size r), (''atr_5m'', rq_atr_5m r),
        (''session_start_equity'', rq_session_start_equity r), (''current_equity'', rq_current_equity r),
        (''quantity_step'', rq_quantity_step r)]
     @ map is_negative
       [(''spread'', rq_spread r), (''current_open_structural_risk'', rq_current_open_structural_risk r),
        (''cost_per_unit'', rq_cost_per_unit r)]
     @ [((case rq_atr_30s r of None \<Rightarrow> False | Some a \<Rightarrow> a \<le> 0), ValueError ''atr_30s must be positive when present''),
        (rq_consecutive_net_losses r < 0, ValueError ''consecutive_net_losses must be a non-negative integer''),
        (rq_session_trade_count r < 0, ValueError ''session_trade_count must be a non-negative integer''),
        ((case rq_leverage r of None \<Rightarrow> False | Some l \<Rightarrow> l \<le> 0), ValueError ''leverage must be a positive integer when present''),
        (\<not> (0 < rq_size_multiplier r \<and> rq_size_multiplier r \<le> 1), ValueError ''size_multiplier must be within zero and one''),
        ((case rq_max_quantity r of None \<Rightarrow> False | Some c \<Rightarrow> c \<le> 0), ValueError ''max_quantity must be positive when present'')]"

record V6RiskAuthority =
  va_allowed :: bool
  va_blocker_codes :: "string list"
  va_risk_base :: decimal
  va_risk_fraction :: decimal
  va_risk_budget :: decimal
  va_structural_reference :: decimal
  va_stop_price :: decimal
  va_quantity :: decimal
  va_stop_distance_atr5m :: decimal

record V6RiskContext =
  vc_decision_id :: uuid
  vc_setup_id :: uuid
  vc_feature_snapshot_id :: uuid
  vc_family :: StrategyFamily
  vc_order_style :: OrderStyle
  vc_matched_indicators :: "MatchedIndicator list"
  vc_mandatory_indicator_codes :: "string list"
  vc_risk_request :: V6RiskRequest
  vc_policy :: V6RiskPolicySnapshot
  vc_target_price :: decimal
  vc_valid_until :: instant

definition hypotheses_of :: "string list \<Rightarrow> string list" where
  "hypotheses_of codes = sorted_set (filter (\<lambda>c. c \<in> set HYPOTHESIS_CODES) codes)"

definition V6RiskContext_checks :: "V6RiskContext \<Rightarrow> checks" where
  "V6RiskContext_checks c =
     uuid7_checks [(''decision_id'', vc_decision_id c), (''setup_id'', vc_setup_id c),
        (''feature_snapshot_id'', vc_feature_snapshot_id c)]
     @ [(list_ex (\<lambda>code. \<not> trimmed_text code) (vc_mandatory_indicator_codes c),
           ValueError ''mandatory indicator codes must be trimmed text''),
        (hypotheses_of (vc_mandatory_indicator_codes c) \<noteq> [],
           ValueError ''a reverse-engineered indicator cannot be mandatory''),
        (vp_market (vc_policy c) \<noteq> rq_market (vc_risk_request c),
           ValueError ''the policy and the request must name the same market''),
        (vc_target_price c \<le> 0, ValueError ''target_price must be positive'')]"

section \<open>The engine\<close>

definition blocker :: "bool \<Rightarrow> string \<Rightarrow> string list" where
  "blocker c code = (if c then [code] else [])"

definition allowed_fraction :: "decimal \<Rightarrow> V6RiskPolicySnapshot \<Rightarrow> decimal" where
  "allowed_fraction fraction policy =
     (if RESEARCH_SCORE_AUTHORITY = SCORE_ONLY then min fraction (vp_normal_risk_fraction policy) else fraction)"

text \<open>\<^verbatim>\<open>_risk_fraction\<close>: the blockers it appends and the fraction it returns.\<close>

definition risk_fraction :: "V6RiskPolicySnapshot \<Rightarrow> SetupGrade \<Rightarrow> string list \<times> decimal" where
  "risk_fraction policy grade =
     (case grade of
        GRADE_REJECT \<Rightarrow> ([''SETUP_REJECTED''], 0)
      | GRADE_A_CANDIDATE \<Rightarrow>
          (case vp_a_candidate_risk_fraction policy of
             None \<Rightarrow> ([''CASH_A_CANDIDATE_UNSUPPORTED''], 0)
           | Some f \<Rightarrow> ([], allowed_fraction f policy))
      | GRADE_A \<Rightarrow> ([], allowed_fraction (vp_a_risk_fraction policy) policy)
      | GRADE_NORMAL \<Rightarrow> ([], vp_normal_risk_fraction policy))"

definition stop_buffer :: "V6RiskRequest \<Rightarrow> decimal" where
  "stop_buffer r =
     (let base = max (dmul 4 (rq_tick_size r)) (dmul 2 (rq_spread r))
      in case (rq_market r, rq_atr_30s r) of
           (BINANCE_USDM, Some atr) \<Rightarrow> max base (dmul (10 / 100) atr)
         | _ \<Rightarrow> base)"

definition market_blockers :: "V6RiskRequest \<Rightarrow> string list" where
  "market_blockers r =
     (if rq_market r = BINANCE_USDM
      then blocker (rq_atr_30s r = None) ''BINANCE_ATR30S_REQUIRED''
           @ (case rq_leverage r of
                None \<Rightarrow> [''BINANCE_LEVERAGE_REQUIRED'']
              | Some l \<Rightarrow> blocker (l > MAX_LEVERAGE) ''BINANCE_LEVERAGE_LIMIT'')
      else blocker (rq_atr_30s r \<noteq> None) ''CASH_ATR30S_NOT_APPLICABLE''
           @ blocker (rq_leverage r \<noteq> None) ''CASH_LEVERAGE_NOT_APPLICABLE'')"

definition stop_price_of :: "V6RiskRequest \<Rightarrow> decimal" where
  "stop_price_of r =
     (if rq_side r = BUY then dsub (rq_structural_reference r) (stop_buffer r)
      else dadd (rq_structural_reference r) (stop_buffer r))"

definition stop_blockers :: "V6RiskRequest \<Rightarrow> string list" where
  "stop_blockers r =
     (if rq_side r = BUY
      then blocker (rq_structural_reference r \<ge> rq_entry_price r) ''INVALID_LONG_STRUCTURAL_REFERENCE''
      else blocker (rq_structural_reference r \<le> rq_entry_price r) ''INVALID_SHORT_STRUCTURAL_REFERENCE'')
     @ blocker (stop_price_of r \<le> 0) ''NON_POSITIVE_STOP''
     @ blocker (rq_spread r > dmul MAX_SPREAD_TICKS (rq_tick_size r)) ''SPREAD_ABOVE_THREE_TICKS''"

definition stop_distance_of :: "V6RiskRequest \<Rightarrow> decimal" where
  "stop_distance_of r = dabs (dsub (rq_entry_price r) (stop_price_of r))"

definition risk_base_of :: "V6RiskRequest \<Rightarrow> decimal" where
  "risk_base_of r = min (rq_session_start_equity r) (rq_current_equity r)"

definition loss_blockers :: "V6RiskRequest \<Rightarrow> V6RiskPolicySnapshot \<Rightarrow> decimal \<Rightarrow> string list" where
  "loss_blockers r policy risk_budget =
     (let risk_base = risk_base_of r
      in blocker (rq_daily_net_pnl r \<le> dneg (dmul risk_base (vp_daily_loss_fraction policy))) ''DAILY_LOSS_LIMIT''
         @ blocker (rq_weekly_net_pnl r \<le> dneg (dmul risk_base (vp_weekly_loss_fraction policy))) ''WEEKLY_LOSS_LIMIT''
         @ blocker (rq_consecutive_net_losses r \<ge> vp_max_consecutive_losses policy) ''CONSECUTIVE_LOSS_LIMIT''
         @ blocker (rq_session_trade_count r \<ge> SESSION_TRADE_UPPER_BOUND) ''SESSION_TRADE_UPPER_BOUND''
         @ blocker (rq_session_objective_reached r) ''SESSION_OBJECTIVE_REACHED''
         @ blocker (dadd (rq_current_open_structural_risk r) risk_budget
                    > dmul risk_base (vp_max_open_structural_risk_fraction policy)) ''OPEN_RISK_LIMIT'')"

text \<open>The quantity before it is rounded down to a multiple of the step, and after.\<close>

definition raw_quantity_of :: "V6RiskRequest \<Rightarrow> decimal \<Rightarrow> decimal" where
  "raw_quantity_of r risk_budget =
     (let per_unit_loss = dadd (stop_distance_of r) (rq_cost_per_unit r);
          raw = dmul (if per_unit_loss > 0 then ddiv risk_budget per_unit_loss else 0) (rq_size_multiplier r)
      in case rq_max_quantity r of None \<Rightarrow> raw | Some cap \<Rightarrow> min raw cap)"

definition quantity_of :: "V6RiskRequest \<Rightarrow> decimal \<Rightarrow> decimal" where
  "quantity_of r risk_budget =
     dmul (of_int \<lfloor>ddiv (raw_quantity_of r risk_budget) (rq_quantity_step r)\<rfloor>) (rq_quantity_step r)"

definition risk_blockers :: "V6RiskRequest \<Rightarrow> V6RiskPolicySnapshot \<Rightarrow> string list" where
  "risk_blockers r policy =
     (let (grade_blockers, fraction) = risk_fraction policy (rq_grade r);
          risk_budget = dmul (risk_base_of r) fraction;
          distance_atr = ddiv (stop_distance_of r) (rq_atr_5m r)
      in grade_blockers @ market_blockers r @ stop_blockers r
         @ blocker (distance_atr < STOP_DISTANCE_MINIMUM_ATR) ''STOP_DISTANCE_BELOW_0_40_ATR5M''
         @ blocker (distance_atr > STOP_DISTANCE_MAXIMUM_ATR) ''STOP_DISTANCE_ABOVE_1_50_ATR5M''
         @ loss_blockers r policy risk_budget
         @ blocker (quantity_of r risk_budget \<le> 0 \<and> fraction > 0) ''ROUNDED_QUANTITY_ZERO'')"

definition evaluate_v6_risk :: "V6RiskRequest \<Rightarrow> V6RiskPolicySnapshot \<Rightarrow> V6RiskAuthority result" where
  "evaluate_v6_risk r policy =
     (if vp_market policy \<noteq> rq_market r
      then Inl (ValueError ''the policy and the request must name the same market'')
      else case first_error (V6RiskRequest_checks r) of
        Some e \<Rightarrow> Inl e
      | None \<Rightarrow>
          let risk_base = risk_base_of r;
              fraction = snd (risk_fraction policy (rq_grade r));
              risk_budget = dmul risk_base fraction;
              canonical_blockers = sorted_set (risk_blockers r policy)
          in Inr \<lparr>va_allowed = (canonical_blockers = []), va_blocker_codes = canonical_blockers,
                  va_risk_base = risk_base, va_risk_fraction = fraction, va_risk_budget = risk_budget,
                  va_structural_reference = rq_structural_reference r, va_stop_price = stop_price_of r,
                  va_quantity = (if canonical_blockers = [] then quantity_of r risk_budget else 0),
                  va_stop_distance_atr5m = ddiv (stop_distance_of r) (rq_atr_5m r)\<rparr>)"

section \<open>Protection\<close>

record ProtectionAuthority =
  pa_allowed :: bool
  pa_blocker_codes :: "string list"
  pa_stop_price :: decimal
  pa_quantity :: decimal

definition protection_of :: "V6RiskAuthority \<Rightarrow> ProtectionAuthority" where
  "protection_of a = \<lparr>pa_allowed = va_allowed a, pa_blocker_codes = va_blocker_codes a,
     pa_stop_price = va_stop_price a, pa_quantity = va_quantity a\<rparr>"

definition protection_approved :: "py_object \<Rightarrow> py_object \<Rightarrow> ProtectionAuthority result" where
  "protection_approved stop_price quantity =
     and_then (require_decimal stop_price) (\<lambda>s.
     and_then (require_decimal quantity) (\<lambda>q.
       Inr \<lparr>pa_allowed = True, pa_blocker_codes = [], pa_stop_price = s, pa_quantity = q\<rparr>))"

section \<open>Lemmas\<close>

lemma blocker_Nil [simp]: "blocker c code = [] \<longleftrightarrow> \<not> c"
  by (simp add: blocker_def)

lemma V6RiskRequest_valid:
  assumes "first_error (V6RiskRequest_checks r) = None"
  shows "0 < rq_quantity_step r" "0 < rq_atr_5m r" "0 < risk_base_of r" "0 \<le> rq_cost_per_unit r"
    and "0 < rq_size_multiplier r" "rq_size_multiplier r \<le> 1"
  using assms by (auto simp: V6RiskRequest_checks_def not_positive_def is_negative_def risk_base_of_def first_error_None_iff
      split: if_splits)

lemma evaluate_v6_risk_Inr:
  assumes "evaluate_v6_risk r p = Inr a"
  shows "first_error (V6RiskRequest_checks r) = None" "vp_market p = rq_market r"
    and "va_allowed a \<longleftrightarrow> risk_blockers r p = []" "va_blocker_codes a = sorted_set (risk_blockers r p)"
    and "va_risk_fraction a = snd (risk_fraction p (rq_grade r))"
    and "va_risk_budget a = dmul (risk_base_of r) (snd (risk_fraction p (rq_grade r)))"
    and "va_quantity a = (if va_allowed a then quantity_of r (va_risk_budget a) else 0)"
    and "va_risk_base a = risk_base_of r" "va_stop_price a = stop_price_of r"
  using assms by (auto simp: evaluate_v6_risk_def Let_def split: if_splits option.splits)

lemma risk_fraction_bounds:
  assumes "wf_policy p"
  shows "snd (risk_fraction p g) \<le> vp_normal_risk_fraction p" "0 \<le> snd (risk_fraction p g)"
    "snd (risk_fraction p g) \<le> 1 / 100"
    and "fst (risk_fraction p g) = [] \<Longrightarrow> 0 < snd (risk_fraction p g)"
    and "fst (risk_fraction p g) = [] \<longleftrightarrow> g \<noteq> GRADE_REJECT \<and> (g = GRADE_A_CANDIDATE \<longrightarrow> vp_a_candidate_risk_fraction p \<noteq> None)"
  using wf_policy_fractions [OF assms]
  by (auto simp: risk_fraction_def allowed_fraction_def RESEARCH_SCORE_AUTHORITY_def
      split: SetupGrade.splits option.splits dest: less_imp_le)

text \<open>What is bought spends no more than the budget, up to four roundings.\<close>

lemma quantity_spends:
  assumes v: "first_error (V6RiskRequest_checks r) = None" and b: "0 \<le> b" and q: "0 < quantity_of r b"
  shows "quantity_of r b * dadd (stop_distance_of r) (rq_cost_per_unit r) \<le> b * (1 + 5 / 10 ^ 28) ^ 3"
proof -
  let ?d = "dadd (stop_distance_of r) (rq_cost_per_unit r)" and ?s = "rq_quantity_step r" and ?e = "1 + 5 / 10 ^ 28 :: rat"
  let ?raw = "raw_quantity_of r b"
  note f = V6RiskRequest_valid [OF v]
  have d: "0 < ?d"
  proof (rule ccontr)
    assume "\<not> 0 < ?d"
    then have "?raw \<le> 0" by (auto simp: raw_quantity_of_def dec_ops Let_def split: option.splits)
    then have "ddiv ?raw ?s \<le> 0" using f(1) by (simp add: ddiv_def divide_le_0_iff)
    then have "\<lfloor>ddiv ?raw ?s\<rfloor> \<le> 0" by linarith
    then have "quantity_of r b \<le> 0" using f(1) by (simp add: quantity_of_def dmul_def mult_le_0_iff)
    with q show False by simp
  qed
  have c: "0 \<le> rnd (b / ?d)" using b d by simp
  have "rnd (rnd (b / ?d) * rq_size_multiplier r) \<le> rnd (rnd (b / ?d))"
    using f(5,6) c by (intro rnd_mono mult_left_le) auto
  then have raw1: "?raw \<le> rnd (b / ?d)"
    using d by (auto simp: raw_quantity_of_def dmul_def ddiv_def Let_def split: option.splits)
  also have "\<dots> \<le> b / ?d * ?e" using b d by (intro rnd_upper) auto
  finally have raw: "?raw \<le> b / ?d * ?e" .
  define n where "n = \<lfloor>ddiv ?raw ?s\<rfloor>"
  have qn: "quantity_of r b = rnd (of_int n * ?s)" by (simp add: quantity_of_def dmul_def n_def)
  then have n: "0 < n" using q f(1) by (simp add: zero_less_mult_iff)
  have le: "(of_int n :: rat) \<le> rnd (?raw / ?s)" by (simp add: n_def ddiv_def)
  then have "0 < rnd (?raw / ?s)" using n by (metis of_int_0_less_iff order_less_le_trans)
  then have rp: "0 < ?raw" using f(1) by (simp add: zero_less_divide_iff)
  have "rnd (?raw / ?s) \<le> ?raw / ?s * ?e" using rp f(1) by (intro rnd_upper) auto
  with le have "of_int n * ?s \<le> ?raw / ?s * ?e * ?s" using f(1) by (intro mult_right_mono) auto
  then have ns: "of_int n * ?s \<le> ?raw * ?e" using f(1) by simp
  have "quantity_of r b \<le> of_int n * ?s * ?e" unfolding qn using n f(1) by (intro rnd_upper) auto
  also have "\<dots> \<le> ?raw * ?e * ?e" using ns by (intro mult_right_mono) auto
  also have "\<dots> \<le> b / ?d * ?e * ?e * ?e" using raw by (intro mult_right_mono) auto
  finally have "quantity_of r b * ?d \<le> b / ?d * ?e * ?e * ?e * ?d" using d by (intro mult_right_mono) auto
  then show ?thesis using d by (simp add: power3_eq_cube mult.assoc)
qed

lemma quantity_mono:
  assumes v: "first_error (V6RiskRequest_checks r) = None" and le: "b \<le> c"
  shows "quantity_of r b \<le> quantity_of r c"
proof -
  note f = V6RiskRequest_valid [OF v]
  let ?d = "dadd (stop_distance_of r) (rq_cost_per_unit r)"
  have "ddiv b ?d \<le> ddiv c ?d" if "0 < ?d" using le that unfolding ddiv_def by (intro rnd_mono divide_right_mono) auto
  then have "dmul (if ?d > 0 then ddiv b ?d else 0) (rq_size_multiplier r) \<le> dmul (if ?d > 0 then ddiv c ?d else 0) (rq_size_multiplier r)"
    using f(5) unfolding dmul_def by (intro rnd_mono mult_right_mono) auto
  then have "raw_quantity_of r b \<le> raw_quantity_of r c"
    unfolding raw_quantity_of_def Let_def by (cases "rq_max_quantity r") (simp_all only: option.case min.mono order_refl)
  then have "\<lfloor>ddiv (raw_quantity_of r b) (rq_quantity_step r)\<rfloor> \<le> \<lfloor>ddiv (raw_quantity_of r c) (rq_quantity_step r)\<rfloor>"
    using f(1) by (intro floor_mono) (simp add: ddiv_def divide_right_mono rnd_mono)
  then show ?thesis using f(1) unfolding quantity_of_def dmul_def by (intro rnd_mono mult_right_mono) auto
qed

text \<open>The size of a position depends on the grade only through the budget.\<close>

lemma quantity_grade [simp]: "quantity_of (r\<lparr>rq_grade := g\<rparr>) b = quantity_of r b" "risk_base_of (r\<lparr>rq_grade := g\<rparr>) = risk_base_of r"
  by (simp_all add: quantity_of_def raw_quantity_of_def stop_distance_of_def stop_price_of_def stop_buffer_def risk_base_of_def)

section \<open>The rules of a trade\<close>

definition v6_admissible :: "V6RiskRequest \<Rightarrow> V6RiskPolicySnapshot \<Rightarrow> bool" where
  "v6_admissible r p \<longleftrightarrow>
     rq_grade r \<noteq> GRADE_REJECT \<and> (rq_grade r = GRADE_A_CANDIDATE \<longrightarrow> vp_a_candidate_risk_fraction p \<noteq> None)
     \<and> (if rq_market r = BINANCE_USDM
        then rq_atr_30s r \<noteq> None \<and> (\<exists>l. rq_leverage r = Some l \<and> l \<le> 50)
        else rq_atr_30s r = None \<and> rq_leverage r = None)
     \<and> (if rq_side r = BUY then rq_structural_reference r < rq_entry_price r else rq_entry_price r < rq_structural_reference r)
     \<and> 0 < stop_price_of r \<and> rq_spread r \<le> dmul 3 (rq_tick_size r)
     \<and> 2 / 5 \<le> ddiv (stop_distance_of r) (rq_atr_5m r) \<and> ddiv (stop_distance_of r) (rq_atr_5m r) \<le> 3 / 2
     \<and> - dmul (risk_base_of r) (vp_daily_loss_fraction p) < rq_daily_net_pnl r
     \<and> - dmul (risk_base_of r) (vp_weekly_loss_fraction p) < rq_weekly_net_pnl r
     \<and> rq_consecutive_net_losses r < vp_max_consecutive_losses p \<and> rq_session_trade_count r < 8
     \<and> \<not> rq_session_objective_reached r
     \<and> dadd (rq_current_open_structural_risk r) (dmul (risk_base_of r) (snd (risk_fraction p (rq_grade r))))
         \<le> dmul (risk_base_of r) (vp_max_open_structural_risk_fraction p)
     \<and> 0 < quantity_of r (dmul (risk_base_of r) (snd (risk_fraction p (rq_grade r))))"

lemma risk_blockers_Nil:
  assumes "wf_policy p"
  shows "risk_blockers r p = [] \<longleftrightarrow> v6_admissible r p"
proof -
  obtain bs f where bf: "risk_fraction p (rq_grade r) = (bs, f)" by fastforce
  have fr: "bs = [] \<Longrightarrow> 0 < f" "bs = [] \<longleftrightarrow> rq_grade r \<noteq> GRADE_REJECT
      \<and> (rq_grade r = GRADE_A_CANDIDATE \<longrightarrow> vp_a_candidate_risk_fraction p \<noteq> None)"
    using risk_fraction_bounds(4,5) [OF assms, of "rq_grade r"] by (simp_all add: bf)
  have m: "market_blockers r = [] \<longleftrightarrow> (if rq_market r = BINANCE_USDM
        then rq_atr_30s r \<noteq> None \<and> (\<exists>l. rq_leverage r = Some l \<and> l \<le> 50)
        else rq_atr_30s r = None \<and> rq_leverage r = None)"
    by (auto simp: market_blockers_def MAX_LEVERAGE_def split: option.splits)
  have st: "stop_blockers r = [] \<longleftrightarrow> (if rq_side r = BUY then rq_structural_reference r < rq_entry_price r
        else rq_entry_price r < rq_structural_reference r) \<and> 0 < stop_price_of r \<and> rq_spread r \<le> dmul 3 (rq_tick_size r)"
    by (auto simp: stop_blockers_def MAX_SPREAD_TICKS_def not_le not_less)
  have neg: "dneg (dmul x y) = - dmul x y" for x y by (simp add: dneg_def dmul_def)
  show ?thesis
    using fr(1) unfolding v6_admissible_def risk_blockers_def bf conj_assoc [symmetric]
    unfolding fr(2) [symmetric] conj_assoc
    by (simp add: m st loss_blockers_def Let_def neg STOP_DISTANCE_MINIMUM_ATR_def
        STOP_DISTANCE_MAXIMUM_ATR_def SESSION_TRADE_UPPER_BOUND_def not_le not_less cong: conj_cong)
qed

lemma allowed_quantity_pos:
  assumes "wf_policy p" "evaluate_v6_risk r p = Inr a" "va_allowed a"
  shows "0 < va_quantity a" "0 < quantity_of r (va_risk_budget a)"
proof -
  note e = evaluate_v6_risk_Inr [OF assms(2)]
  have "v6_admissible r p" using assms(3) e(3) risk_blockers_Nil [OF assms(1), of r] by simp
  then show "0 < quantity_of r (va_risk_budget a)" unfolding e(6) v6_admissible_def by blast
  with e(7) assms(3) show "0 < va_quantity a" by simp
qed

section \<open>Properties\<close>

text \<open>C5: the risk engine allows exactly the admissible trades. Under a valid policy a request is allowed
  if and only if it satisfies the written rules (a tradeable grade, the evidence and leverage of its
  market, a stop on the protective side within the distance window, the spread, loss, trade count and
  open risk limits, and a positive size); a refused request has size zero and names at least one
  blocker, and the blockers are sorted without repetition.\<close>

theorem v6_risk_allows_exactly_admissible:
  assumes "wf_policy p" and "evaluate_v6_risk r p = Inr a"
  shows "(va_allowed a \<longleftrightarrow> v6_admissible r p)
    \<and> (if va_allowed a then 0 < va_quantity a \<and> va_blocker_codes a = []
       else va_quantity a = 0 \<and> va_blocker_codes a \<noteq> [])
    \<and> sorted (va_blocker_codes a) \<and> distinct (va_blocker_codes a)"
proof -
  note e = evaluate_v6_risk_Inr [OF assms(2)] and b = risk_blockers_Nil [OF assms(1), of r]
  show ?thesis using e b allowed_quantity_pos(1) [OF assms] by simp
qed

text \<open>C4: an allowed trade cannot lose more than one percent at its stop. Whatever the request, an allowed
  size times the loss per unit at the stop, costs included, is at most one percent of the smaller of
  the session's starting and current equity, up to a relative rounding of \<open>10\<^sup>-\<^sup>2\<^sup>6\<close>.\<close>

theorem allowed_loss_within_one_percent:
  assumes "wf_policy p" and "evaluate_v6_risk r p = Inr a" and "va_allowed a"
  shows "va_quantity a * dadd (stop_distance_of r) (rq_cost_per_unit r)
    \<le> min (rq_session_start_equity r) (rq_current_equity r) / 100 * (1 + 1 / 10 ^ 26)"
proof -
  note e = evaluate_v6_risk_Inr [OF assms(2)]
  let ?f = "snd (risk_fraction p (rq_grade r))" and ?b = "risk_base_of r" and ?e = "1 + 5 / 10 ^ 28 :: rat"
  have base: "0 < ?b" using V6RiskRequest_valid(3) [OF e(1)] .
  have f: "0 \<le> ?f" "?f \<le> 1 / 100" using risk_fraction_bounds [OF assms(1)] by auto
  have q: "0 < quantity_of r (va_risk_budget a)"
    by (rule allowed_quantity_pos(2) [OF assms])
  have bud: "0 \<le> va_risk_budget a" using base f by (simp add: e(6) dmul_def)
  have "va_risk_budget a \<le> ?b * ?f * ?e" unfolding e(6) dmul_def using base f by (intro rnd_upper) auto
  also have "\<dots> \<le> ?b * (1 / 100) * ?e" using base f by (intro mult_right_mono mult_left_mono) auto
  finally have le: "va_risk_budget a \<le> ?b * (1 / 100) * ?e" .
  have "va_quantity a * dadd (stop_distance_of r) (rq_cost_per_unit r) \<le> va_risk_budget a * ?e ^ 3"
    using quantity_spends [OF e(1) bud q] assms(3) by (simp add: e(7))
  also have "\<dots> \<le> ?b * (1 / 100) * ?e * ?e ^ 3" by (rule mult_right_mono [OF le]) simp
  also have "\<dots> = ?b / 100 * ?e ^ 4" by (simp add: eval_nat_numeral)
  also have "\<dots> \<le> ?b / 100 * (1 + 1 / 10 ^ 26)" using base by (intro mult_left_mono) (auto simp: eval_nat_numeral)
  finally show ?thesis by (simp add: risk_base_of_def)
qed

text \<open>The research score never enlarges a position. Whatever grade a setup has, its risk budget and
  its size are at most those of the same request graded NORMAL.\<close>

theorem research_score_never_enlarges:
  assumes "wf_policy p" and "evaluate_v6_risk r p = Inr a"
    and "evaluate_v6_risk (r\<lparr>rq_grade := GRADE_NORMAL\<rparr>) p = Inr b" and "va_allowed b"
  shows "va_risk_budget a \<le> va_risk_budget b \<and> va_quantity a \<le> va_quantity b"
proof -
  note e = evaluate_v6_risk_Inr [OF assms(2)] and n = evaluate_v6_risk_Inr [OF assms(3)]
  have "0 < risk_base_of r" using V6RiskRequest_valid(3) [OF e(1)] .
  then have le: "va_risk_budget a \<le> va_risk_budget b"
    using risk_fraction_bounds(1) [OF assms(1), of "rq_grade r"]
    by (simp add: e(6) n(6) dmul_def) (intro rnd_mono, simp add: risk_fraction_def)
  have "0 < va_quantity b" by (rule allowed_quantity_pos(1) [OF assms(1,3,4)])
  then show ?thesis using le quantity_mono [OF e(1) le] assms(4) by (simp add: e(7) n(7))
qed

section \<open>Witnesses\<close>

definition sample_request :: V6RiskRequest where
  "sample_request =
     \<lparr>rq_market = BINANCE_USDM, rq_grade = GRADE_A, rq_side = BUY, rq_entry_price = 100,
      rq_structural_reference = 98, rq_tick_size = 1 / 10, rq_spread = 1 / 10, rq_atr_30s = Some 1, rq_atr_5m = 3,
      rq_session_start_equity = 10000, rq_current_equity = 10000, rq_daily_net_pnl = 0, rq_weekly_net_pnl = 0,
      rq_consecutive_net_losses = 0, rq_current_open_structural_risk = 0, rq_quantity_step = 1 / 1000,
      rq_cost_per_unit = 1 / 10, rq_leverage = Some 5, rq_session_trade_count = 0,
      rq_session_objective_reached = False, rq_size_multiplier = 1, rq_max_quantity = None\<rparr>"

lemma rnd_short: "x * 1000 = of_int n \<Longrightarrow> \<bar>n\<bar> < 10 ^ 28 \<Longrightarrow> rnd x = x"
  by (rule rnd_grid [of 3]) (simp add: dec_gridI field_simps)

lemma sample_amounts:
  assumes "r = sample_request\<lparr>rq_grade := g\<rparr>"
  shows "stop_price_of r = 488 / 5" "stop_distance_of r = 12 / 5" "ddiv (stop_distance_of r) (rq_atr_5m r) = 4 / 5"
    "quantity_of r 50 = 20"
proof -
  have fl: "rq_market r = BINANCE_USDM" "rq_side r = BUY" "rq_entry_price r = 100" "rq_structural_reference r = 98"
    "rq_tick_size r = 1 / 10" "rq_spread r = 1 / 10" "rq_atr_30s r = Some 1" "rq_atr_5m r = 3" "rq_quantity_step r = 1 / 1000"
    "rq_cost_per_unit r = 1 / 10" "rq_size_multiplier r = 1" "rq_max_quantity r = None"
    by (simp_all add: assms sample_request_def)
  have b: "stop_buffer r = 2 / 5"
    by (simp add: fl stop_buffer_def dmul_def rnd_short [of "2 / 5" 400] rnd_short [of "1 / 5" 200] rnd_short [of "1 / 10" 100])
  show p: "stop_price_of r = 488 / 5"
    by (simp add: fl b stop_price_of_def dsub_def rnd_short [of "488 / 5" 97600])
  show d: "stop_distance_of r = 12 / 5"
    by (simp add: fl p stop_distance_of_def dsub_def dabs_def rnd_short [of "12 / 5" 2400])
  show "ddiv (stop_distance_of r) (rq_atr_5m r) = 4 / 5"
    by (simp add: fl d ddiv_def rnd_short [of "4 / 5" 800])
  have raw: "raw_quantity_of r 50 = 20"
    by (simp add: fl d raw_quantity_of_def dec_ops rnd_short [of "5 / 2" 2500] rnd_short [of 20 20000])
  show "quantity_of r 50 = 20"
    by (simp add: fl raw quantity_of_def dec_ops rnd_short [of 20000 20000000] rnd_short [of 20 20000])
qed

lemma sample_evaluated:
  assumes g: "g \<in> {GRADE_A, GRADE_NORMAL}"
  shows "\<exists>a. evaluate_v6_risk (sample_request\<lparr>rq_grade := g\<rparr>) sample_policy = Inr a \<and> va_allowed a \<and> va_quantity a = 20"
proof -
  let ?r = "sample_request\<lparr>rq_grade := g\<rparr>"
  note am = sample_amounts [of ?r, OF refl]
  have f: "risk_fraction sample_policy g = ([], 1 / 200)"
    using g by (auto simp: risk_fraction_def sample_policy_def allowed_fraction_def RESEARCH_SCORE_AUTHORITY_def)
  have base: "risk_base_of ?r = 10000" by (simp add: risk_base_of_def sample_request_def)
  have bud: "dmul 10000 (1 / 200) = 50" by (simp add: dmul_def rnd_short [of 50 50000])
  have adm: "v6_admissible ?r sample_policy"
    unfolding v6_admissible_def am(1,3) base using g
    by (simp add: f bud am(4) [simplified])
       (auto simp: sample_request_def sample_policy_def dec_ops rnd_short [of "3 / 10" 300] rnd_short [of 50 50000]
         rnd_short [of 300 300000] rnd_short [of 600 600000] rnd_short [of 200 200000])
  have ok: "first_error (V6RiskRequest_checks ?r) = None" "vp_market sample_policy = rq_market ?r"
    by (simp_all add: V6RiskRequest_checks_def not_positive_def is_negative_def sample_request_def sample_policy_def)
  obtain a where a: "evaluate_v6_risk ?r sample_policy = Inr a"
    using ok by (simp add: evaluate_v6_risk_def Let_def)
  note e = evaluate_v6_risk_Inr [OF a]
  have al: "va_allowed a" using adm risk_blockers_Nil [OF sample_policy_wf, of ?r] e(3) by simp
  have "va_risk_budget a = 50" using e(6) f base bud by simp
  then have "va_quantity a = 20" using e(7) al am(4) by simp
  with a al show ?thesis by blast
qed

lemma sample_request_sized:
  "\<exists>a. evaluate_v6_risk sample_request sample_policy = Inr a \<and> va_allowed a \<and> va_quantity a = 20"
  using sample_evaluated [of GRADE_A] by (simp add: sample_request_def)

lemma sample_request_normal:
  "\<exists>a. evaluate_v6_risk (sample_request\<lparr>rq_grade := GRADE_NORMAL\<rparr>) sample_policy = Inr a \<and> va_allowed a"
  using sample_evaluated [of GRADE_NORMAL] by auto

theorem v6_risk_allows_exactly_admissible_witness:
  "\<exists>a. evaluate_v6_risk sample_request sample_policy = Inr a \<and> va_allowed a \<and> v6_admissible sample_request sample_policy
     \<and> va_blocker_codes a = []"
  using sample_request_sized v6_risk_allows_exactly_admissible [OF sample_policy_wf, of sample_request] by metis

theorem allowed_loss_within_one_percent_witness:
  "\<exists>a. evaluate_v6_risk sample_request sample_policy = Inr a \<and> va_quantity a = 20
     \<and> 20 * dadd (stop_distance_of sample_request) (1 / 10) \<le> 10000 / 100 * (1 + 1 / 10 ^ 26)"
proof -
  from sample_request_sized obtain a where
    a: "evaluate_v6_risk sample_request sample_policy = Inr a" "va_allowed a" "va_quantity a = 20" by blast
  then show ?thesis using allowed_loss_within_one_percent [OF sample_policy_wf a(1,2)] by (simp add: sample_request_def)
qed

theorem research_score_never_enlarges_witness:
  "\<exists>a b. evaluate_v6_risk sample_request sample_policy = Inr a
     \<and> evaluate_v6_risk (sample_request\<lparr>rq_grade := GRADE_NORMAL\<rparr>) sample_policy = Inr b
     \<and> va_quantity a = 20 \<and> va_quantity a \<le> va_quantity b"
  using sample_request_sized sample_request_normal research_score_never_enlarges [OF sample_policy_wf] by metis

end
