(* ===== verification/Engine.thy ===== *)
theory Engine
  imports Profile Timing RiskV6
begin

text \<open>
  \<^verbatim>\<open>strategies/david_v6/engine.py\<close> with the evidence bundle, the cash universe and the manifest:
  the evaluation that turns the evidence of a pass and a risk context into a decision. The configuration
  hash (SHA-256 of the canonical manifest) is a parameter. Text is ASCII where the source folds case.
  Shown: a decision is tradeable exactly when the written rules of the market and the family hold and the
  risk engine allows the trade, and then carries the size and the stop of the risk engine.
\<close>

section \<open>The cash universe\<close>

definition EXCLUDED_SECTORS :: "string list" where
  "EXCLUDED_SECTORS = [''energy'', ''financial'', ''financials'', ''real_estate'']"

record UniverseFacts =
  uf_country_strength_confirmed :: bool
  uf_member_as_of :: bool
  uf_common_stock_as_of :: bool
  uf_median_value_20d :: decimal
  uf_cross_section_median_value_20d :: decimal
  uf_sector_return_70d_rank :: int
  uf_sector_classification :: "string option"
  uf_eligible :: bool
  uf_blockers :: "string list"

definition to_lower :: "char \<Rightarrow> char" where
  "to_lower c = (if is_ascii_upper c then char_of (code_point c + 32) else c)"

definition to_upper :: "char \<Rightarrow> char" where
  "to_upper c = (if is_ascii_lower c then char_of (code_point c - 32) else c)"

text \<open>\<^verbatim>\<open>str.split()\<close>: the maximal runs without white space.\<close>

function words_of :: "string \<Rightarrow> string list" where
  "words_of s =
     (let rest = dropWhile is_space s
      in if rest = [] then []
         else takeWhile (\<lambda>c. \<not> is_space c) rest # words_of (dropWhile (\<lambda>c. \<not> is_space c) rest))"
  by pat_completeness auto
termination
proof (relation "measure length")
  fix s rest :: string
  assume "rest = dropWhile is_space s" "rest \<noteq> []"
  then have "\<not> is_space (hd rest)" "length rest \<le> length s"
    using hd_dropWhile [of is_space s] length_dropWhile_le [of is_space s] by simp_all
  moreover have "length (dropWhile (\<lambda>c. \<not> is_space c) rest) < length rest"
    using \<open>rest \<noteq> []\<close> \<open>\<not> is_space (hd rest)\<close>
    by (cases rest) (auto simp: le_imp_less_Suc length_dropWhile_le)
  ultimately show "(dropWhile (\<lambda>c. \<not> is_space c) rest, s) \<in> measure length" by simp
qed simp

declare words_of.simps [simp del]

fun joined :: "string \<Rightarrow> string list \<Rightarrow> string" where
  "joined separator [] = []"
| "joined separator [w] = w"
| "joined separator (w # ws) = w @ separator @ joined separator ws"

definition normalize_sector :: "string option \<Rightarrow> string option result" where
  "normalize_sector v =
     (case v of
        None \<Rightarrow> Inr None
      | Some text \<Rightarrow>
          if strip text = [] \<or> CHR 0x0D \<in> set text \<or> CHR 0x0A \<in> set text
          then Inl (ValueError ''sector classification must be single-line text'')
          else Inr (Some (joined ''_'' (words_of
                 (map (\<lambda>c. if c = CHR ''-'' then CHR '' '' else c) (map to_lower (strip text)))))))"

definition universe_blockers :: "bool \<Rightarrow> bool \<Rightarrow> bool \<Rightarrow> decimal \<Rightarrow> decimal \<Rightarrow> int \<Rightarrow> string option \<Rightarrow> string list" where
  "universe_blockers strong member common median cross_section rank sector =
     blocker (\<not> strong) ''COUNTRY_NOT_STRONG''
     @ blocker (\<not> member) ''NOT_MEMBER_AS_OF''
     @ blocker (\<not> common) ''NOT_COMMON_STOCK_AS_OF''
     @ blocker (median < cross_section) ''BELOW_MEDIAN_TRADED_VALUE''
     @ blocker (rank > 3) ''SECTOR_OUTSIDE_TOP_THREE''
     @ (case sector of
          None \<Rightarrow> [''SECTOR_AUTHORITY_UNAVAILABLE'']
        | Some s \<Rightarrow> blocker (s \<in> set EXCLUDED_SECTORS) ''EXCLUDED_SECTOR'')"

definition evaluate_cash_universe ::
  "bool \<Rightarrow> bool \<Rightarrow> bool \<Rightarrow> decimal \<Rightarrow> decimal \<Rightarrow> int \<Rightarrow> string option \<Rightarrow> UniverseFacts result" where
  "evaluate_cash_universe strong member common median cross_section rank classification =
     (if median < 0 \<or> cross_section < 0 then Inl (ValueError ''traded-value medians must be non-negative'')
      else if rank \<le> 0 then Inl (ValueError ''sector rank must be a positive integer'')
      else and_then (normalize_sector classification) (\<lambda>sector.
        let blockers = sort (universe_blockers strong member common median cross_section rank sector)
        in Inr \<lparr>uf_country_strength_confirmed = strong, uf_member_as_of = member, uf_common_stock_as_of = common,
                uf_median_value_20d = median, uf_cross_section_median_value_20d = cross_section,
                uf_sector_return_70d_rank = rank, uf_sector_classification = sector,
                uf_eligible = (blockers = []), uf_blockers = blockers\<rparr>))"

lemma universe_blockers_empty_iff:
  "universe_blockers strong member common median cross_section rank sector = []
   \<longleftrightarrow> strong \<and> member \<and> common \<and> cross_section \<le> median \<and> rank \<le> 3
     \<and> (case sector of None \<Rightarrow> False | Some s \<Rightarrow> s \<notin> set EXCLUDED_SECTORS)"
  by (cases sector) (simp_all add: universe_blockers_def blocker_def not_less)

lemma sort_Nil_iff [simp]: "sort xs = [] \<longleftrightarrow> xs = []"
  by (metis set_sort set_empty)

lemma cash_universe_eligible_iff:
  assumes "evaluate_cash_universe strong member common median cross_section rank classification = Inr f"
  shows "uf_eligible f \<longleftrightarrow> strong \<and> member \<and> common \<and> cross_section \<le> median \<and> rank \<le> 3
    \<and> (case uf_sector_classification f of None \<Rightarrow> False | Some s \<Rightarrow> s \<notin> set EXCLUDED_SECTORS)"
proof -
  obtain sector where "uf_sector_classification f = sector"
    "uf_eligible f = (sort (universe_blockers strong member common median cross_section rank sector) = [])"
    using assms
    by (cases "normalize_sector classification")
      (auto simp: evaluate_cash_universe_def and_then_def Let_def split: if_splits)
  then show ?thesis by (simp only: sort_Nil_iff universe_blockers_empty_iff)
qed

section \<open>The manifest\<close>

definition hex_value :: "char \<Rightarrow> nat" where
  "hex_value c = (let n = code_point c in if n < 58 then n - 48 else n - 87)"

text \<open>\<^verbatim>\<open>bytes.fromhex\<close> of lower-case hexadecimal text.\<close>

fun fromhex :: "string \<Rightarrow> bytes" where
  "fromhex (a # b # cs) = of_nat (16 * hex_value a + hex_value b) # fromhex cs"
| "fromhex _ = []"

definition V6_SOURCE_SHA256 :: bytes where
  "V6_SOURCE_SHA256 = fromhex ''202f7727b1625a07652e6f5c0d826229e4afaa9ab50ab9012bf69138d85fe684''"

definition V6_DESIGN_SHA256 :: bytes where
  "V6_DESIGN_SHA256 = fromhex ''6eb312fddb74db395806015463606db0968877d459db65053bec7bbca9e848a2''"

record V6Manifest =
  mn_id :: uuid
  mn_strategy_version_id :: uuid
  mn_source_sha256 :: bytes
  mn_design_sha256 :: bytes
  mn_configuration_hash :: bytes
  mn_registered_at :: py_datetime

definition V6Manifest_checks :: "bytes \<Rightarrow> V6Manifest \<Rightarrow> checks" where
  "V6Manifest_checks v6_configuration_hash m =
     uuid7_checks [(''id'', mn_id m), (''strategy_version_id'', mn_strategy_version_id m)]
     @ [(mn_source_sha256 m \<noteq> V6_SOURCE_SHA256, ValueError ''source_sha256 must match the canonical v6 manifest''),
        (mn_design_sha256 m \<noteq> V6_DESIGN_SHA256, ValueError ''design_sha256 must match the canonical v6 manifest''),
        (mn_configuration_hash m \<noteq> v6_configuration_hash, ValueError ''configuration_hash must match the canonical v6 manifest''),
        ((case mn_registered_at m of AwareUTC t \<Rightarrow> t mod 1000000 \<noteq> 0 | _ \<Rightarrow> True),
           ValueError ''registered_at must be exact whole-second UTC'')]"

section \<open>The evidence bundle\<close>

text \<open>The value of an item is an \<^verbatim>\<open>object\<close>: one of the facts, or anything else.\<close>

datatype fact =
    FUniverse UniverseFacts
  | FRegime RegimeFacts
  | FMetodo MetodoFacts
  | FZones ZoneFacts
  | FDivergence DivergenceFacts
  | FExhaustion ExhaustionFacts
  | FOrderFlow OrderFlowFacts
  | FProfile ProfileFacts
  | FCalendar CalendarFacts
  | FSession SessionFacts
  | FCosts CostFacts
  | FOther

definition TIMEFRAMES :: "(string \<times> timedelta) list" where
  "TIMEFRAMES =
     [(''5s'', 5000000), (''30s'', 30000000), (''1m'', 60000000), (''5m'', 300000000), (''15m'', 900000000),
      (''1h'', 3600000000), (''1d'', 86400000000)]"

definition CASH_FORBIDDEN_TIMEFRAMES :: "string list" where
  "CASH_FORBIDDEN_TIMEFRAMES = [''5s'', ''30s'']"

record V6EvidenceBundle =
  eb_market :: V6Market
  eb_instrument_id :: uuid
  eb_decision_at :: instant
  eb_bars :: "(string \<times> CompletedOhlcvBar list EvidenceItem) list"
  eb_universe :: "fact EvidenceItem"
  eb_regime :: "fact EvidenceItem"
  eb_metodo :: "fact EvidenceItem"
  eb_zones :: "fact EvidenceItem"
  eb_divergence :: "fact EvidenceItem"
  eb_exhaustion :: "fact EvidenceItem"
  eb_order_flow :: "fact EvidenceItem"
  eb_profile :: "fact EvidenceItem"
  eb_calendar :: "fact EvidenceItem"
  eb_session :: "fact EvidenceItem"
  eb_costs :: "fact EvidenceItem"
  eb_exhaustion_timeframe :: "string option"

definition facts_of :: "V6EvidenceBundle \<Rightarrow> (string \<times> fact EvidenceItem) list" where
  "facts_of b =
     [(''universe'', eb_universe b), (''regime'', eb_regime b), (''metodo'', eb_metodo b), (''zones'', eb_zones b),
      (''divergence'', eb_divergence b), (''exhaustion'', eb_exhaustion b), (''order_flow'', eb_order_flow b),
      (''profile'', eb_profile b), (''calendar'', eb_calendar b), (''session'', eb_session b), (''costs'', eb_costs b)]"

definition require_bar_item :: "instant \<Rightarrow> string \<times> CompletedOhlcvBar list EvidenceItem \<Rightarrow> checks" where
  "require_bar_item decision_at ki =
     (case ki of (key, item) \<Rightarrow>
        EvidenceItem_checks item
        @ [((case (ei_value item, map_of TIMEFRAMES key) of
               (Some bars, Some timeframe) \<Rightarrow> list_ex (\<lambda>b. bar_timestamp b + timeframe > decision_at) bars
             | _ \<Rightarrow> False), ValueError ''bar evidence cannot contain a forming bar'')])"

definition V6EvidenceBundle_checks :: "V6EvidenceBundle \<Rightarrow> checks" where
  "V6EvidenceBundle_checks b =
     [(uuid_version (eb_instrument_id b) \<noteq> Some 7, ValueError ''instrument_id must be UUIDv7''),
      (list_ex (\<lambda>(key, _). key \<notin> fst ` set TIMEFRAMES) (eb_bars b), ValueError ''bars contain an unsupported timeframe key''),
      (eb_market b \<in> {KRX_CASH, US_CASH} \<and> list_ex (\<lambda>(key, _). key \<in> set CASH_FORBIDDEN_TIMEFRAMES) (eb_bars b),
         ValueError ''cash bundles cannot contain 30-second or 5-second evidence'')]
     @ concat (map (require_bar_item (eb_decision_at b)) (eb_bars b))
     @ [((case eb_exhaustion_timeframe b of None \<Rightarrow> False | Some key \<Rightarrow> key \<notin> fst ` set TIMEFRAMES),
           ValueError ''exhaustion_timeframe must be a known timeframe key'')]
     @ concat (map (\<lambda>(_, item). EvidenceItem_checks item) (facts_of b))"

section \<open>Blockers\<close>

definition COMMON_REQUIRED :: "string list" where "COMMON_REQUIRED = [''regime'', ''calendar'', ''session'', ''costs'']"
definition METODO_REQUIRED :: "string list" where "METODO_REQUIRED = [''universe'', ''metodo'']"
definition CASH_HLIT_REQUIRED :: "string list" where
  "CASH_HLIT_REQUIRED = [''universe'', ''zones'', ''divergence'', ''exhaustion'']"
definition BINANCE_HLIT_REQUIRED :: "string list" where
  "BINANCE_HLIT_REQUIRED = [''zones'', ''divergence'', ''exhaustion'', ''order_flow'', ''profile'']"

definition required_keys :: "V6Market \<Rightarrow> StrategyFamily \<Rightarrow> string list" where
  "required_keys market family =
     (if family = METODO then COMMON_REQUIRED @ METODO_REQUIRED
      else if market = BINANCE_USDM then COMMON_REQUIRED @ BINANCE_HLIT_REQUIRED
      else COMMON_REQUIRED @ CASH_HLIT_REQUIRED)"

definition evidence_state_value :: "EvidenceState \<Rightarrow> string" where
  "evidence_state_value s =
     (case s of AVAILABLE \<Rightarrow> ''AVAILABLE'' | UNAVAILABLE \<Rightarrow> ''UNAVAILABLE'' | STALE \<Rightarrow> ''STALE''
      | NOT_APPLICABLE \<Rightarrow> ''N/A'' | EVIDENCE_UNKNOWN \<Rightarrow> ''UNKNOWN'')"

definition upper :: "string \<Rightarrow> string" where "upper s = map to_upper s"

text \<open>The table \<^verbatim>\<open>_FACT_TYPES\<close>: the name of the fact a value is.\<close>

definition fact_key :: "fact \<Rightarrow> string" where
  "fact_key f =
     (case f of FUniverse _ \<Rightarrow> ''universe'' | FRegime _ \<Rightarrow> ''regime'' | FMetodo _ \<Rightarrow> ''metodo'' | FZones _ \<Rightarrow> ''zones''
      | FDivergence _ \<Rightarrow> ''divergence'' | FExhaustion _ \<Rightarrow> ''exhaustion'' | FOrderFlow _ \<Rightarrow> ''order_flow''
      | FProfile _ \<Rightarrow> ''profile'' | FCalendar _ \<Rightarrow> ''calendar'' | FSession _ \<Rightarrow> ''session'' | FCosts _ \<Rightarrow> ''costs''
      | FOther \<Rightarrow> '''')"

definition item_of :: "V6EvidenceBundle \<Rightarrow> string \<Rightarrow> fact EvidenceItem" where
  "item_of b key = the (map_of (facts_of b) key)"

definition missing_blockers :: "V6EvidenceBundle \<Rightarrow> string list \<Rightarrow> string list" where
  "missing_blockers b required =
     concat (map (\<lambda>key. let item = item_of b key
                         in if ei_state item \<noteq> AVAILABLE
                            then [case ei_blocker_code item of Some code \<Rightarrow> code
                                  | None \<Rightarrow> upper key @ ''_'' @ evidence_state_value (ei_state item)]
                            else []) (sort required))"

text \<open>The value of a required, available item of the right type: the dictionary \<^verbatim>\<open>valid_values\<close>.\<close>

definition valid_value :: "V6EvidenceBundle \<Rightarrow> string list \<Rightarrow> string \<Rightarrow> fact option" where
  "valid_value b required key =
     (if key \<in> set required \<and> ei_state (item_of b key) = AVAILABLE
      then (case ei_value (item_of b key) of
              Some f \<Rightarrow> if fact_key f = key then Some f else None
            | None \<Rightarrow> None)
      else None)"

definition type_blockers :: "V6EvidenceBundle \<Rightarrow> string list \<Rightarrow> string list" where
  "type_blockers b required =
     concat (map (\<lambda>key. blocker (ei_state (item_of b key) = AVAILABLE \<and> valid_value b required key = None)
                          (upper key @ ''_VALUE_INVALID'')) (sort required))"

definition internal_state :: "fact \<Rightarrow> EvidenceState" where
  "internal_state f =
     (case f of FRegime r \<Rightarrow> rf_state r | FOrderFlow o' \<Rightarrow> of_state o' | FProfile p \<Rightarrow> prf_state p
      | FCalendar c \<Rightarrow> kf_state c | FSession s \<Rightarrow> sf_state s | FCosts c \<Rightarrow> cf_state c | _ \<Rightarrow> AVAILABLE)"

definition STATE_KEYS :: "string list" where
  "STATE_KEYS = [''regime'', ''order_flow'', ''profile'', ''calendar'', ''session'', ''costs'']"

definition state_blockers :: "V6EvidenceBundle \<Rightarrow> string list \<Rightarrow> string list" where
  "state_blockers b required =
     concat (map (\<lambda>key. case valid_value b required key of
                          None \<Rightarrow> []
                        | Some f \<Rightarrow> blocker (internal_state f \<noteq> AVAILABLE)
                            (upper key @ ''_FACT_'' @ evidence_state_value (internal_state f))) STATE_KEYS)"

text \<open>The table \<^verbatim>\<open>checks\<close>: the attribute each fact is tested by.\<close>

definition gate_blockers :: "V6EvidenceBundle \<Rightarrow> string list \<Rightarrow> string list" where
  "gate_blockers b required =
     (case valid_value b required ''universe'' of
        Some (FUniverse u) \<Rightarrow> blocker (\<not> uf_eligible u) ''UNIVERSE_INELIGIBLE'' | _ \<Rightarrow> [])
     @ (case valid_value b required ''regime'' of
        Some (FRegime r) \<Rightarrow> blocker (rf_excluded r) ''REGIME_EXCLUDED'' | _ \<Rightarrow> [])
     @ (case valid_value b required ''calendar'' of
        Some (FCalendar c) \<Rightarrow> blocker (kf_block_new_exposure c) ''CALENDAR_BLOCKED'' | _ \<Rightarrow> [])
     @ (case valid_value b required ''session'' of
        Some (FSession s) \<Rightarrow> blocker (\<not> sf_entry_allowed s) ''SESSION_ENTRY_BLOCKED'' | _ \<Rightarrow> [])"

text \<open>Signals A and B always, signal C only at a pessimism extreme.\<close>

definition metodo_admits :: "MetodoFacts \<Rightarrow> fact option \<Rightarrow> bool" where
  "metodo_admits m regime =
     (mf_normal_technical_confirmation m
      \<or> (mf_trend_up m \<and> mf_macd_cross_up_below_zero m
         \<and> (case regime of Some (FRegime r) \<Rightarrow> rf_pessimism_extreme r = Some True | _ \<Rightarrow> False)))"

definition metodo_blocker :: "V6EvidenceBundle \<Rightarrow> string list \<Rightarrow> string list" where
  "metodo_blocker b required =
     (case valid_value b required ''metodo'' of
        Some (FMetodo m) \<Rightarrow> blocker (\<not> metodo_admits m (valid_value b required ''regime'')) ''METODO_GATE_FAILED''
      | _ \<Rightarrow> [])"

definition REGULAR_KIND :: "Side \<Rightarrow> DivergenceKind" where
  "REGULAR_KIND side = (if side = BUY then REGULAR_BULLISH else REGULAR_BEARISH)"

definition exhaustion_blockers :: "ExhaustionFacts \<Rightarrow> Side \<Rightarrow> string list" where
  "exhaustion_blockers facts side =
     (case (if side = BUY then ef_bullish facts else ef_bearish facts) of
        None \<Rightarrow> [''EXHAUSTION_ABSENT'']
      | Some s \<Rightarrow>
          if es_direction s \<noteq> side then [''EXHAUSTION_DIRECTION_MISMATCH'']
          else if \<not> es_confirmed s then [''EXHAUSTION_UNCONFIRMED'']
          else [])"

definition flow_blockers :: "OrderFlowFacts \<Rightarrow> Side \<Rightarrow> decimal \<Rightarrow> string list result" where
  "flow_blockers facts side entry_price =
     (case blocking_big_trade_ahead facts side entry_price of
        Inl BigTradesUnmeasured \<Rightarrow> Inr [''BIG_TRADE_SAMPLE_INSUFFICIENT'']
      | Inl e \<Rightarrow> Inl e
      | Inr obstacle \<Rightarrow> Inr (blocker obstacle ''BLOCKING_BIG_TRADE_AHEAD''))"

definition hlit_blockers :: "V6EvidenceBundle \<Rightarrow> string list \<Rightarrow> Side \<Rightarrow> decimal \<Rightarrow> string list result" where
  "hlit_blockers b required side entry_price =
     (let before =
        (case valid_value b required ''divergence'' of
           Some (FDivergence d) \<Rightarrow>
             blocker (\<not> list_ex (\<lambda>s. ds_kind s = REGULAR_KIND side) (df_regular d)) ''REGULAR_DIVERGENCE_ABSENT'' | _ \<Rightarrow> [])
        @ (case valid_value b required ''zones'' of
           Some (FZones z) \<Rightarrow> blocker (zf_zones z = []) ''NO_MARKED_ZONE'' | _ \<Rightarrow> [])
        @ (case valid_value b required ''exhaustion'' of
           Some (FExhaustion e) \<Rightarrow> exhaustion_blockers e side | _ \<Rightarrow> [])
      in case valid_value b required ''order_flow'' of
           Some (FOrderFlow f) \<Rightarrow> and_then (flow_blockers f side entry_price) (\<lambda>after. Inr (before @ after))
         | _ \<Rightarrow> Inr before)"

definition semantic_blockers :: "V6EvidenceBundle \<Rightarrow> string list \<Rightarrow> Side \<Rightarrow> decimal \<Rightarrow> string list result" where
  "semantic_blockers b required side entry_price =
     and_then (hlit_blockers b required side entry_price) (\<lambda>hlit.
       Inr (type_blockers b required @ state_blockers b required @ gate_blockers b required
            @ metodo_blocker b required @ hlit))"

section \<open>The evaluation\<close>

definition context_blockers :: "V6EvidenceBundle \<Rightarrow> V6RiskContext \<Rightarrow> string list" where
  "context_blockers b ctx =
     blocker (rq_market (vc_risk_request ctx) \<noteq> eb_market b) ''RISK_MARKET_MISMATCH''
     @ blocker (vc_family ctx = METODO \<and> eb_market b = BINANCE_USDM) ''METODO_CASH_ONLY''
     @ blocker (eb_market b \<in> set SPOT_ONLY_MARKETS \<and> rq_side (vc_risk_request ctx) = SELL) ''SPOT_VENUE_CANNOT_SHORT''"

definition session_size_multiplier :: "V6EvidenceBundle \<Rightarrow> decimal" where
  "session_size_multiplier b =
     (if ei_state (eb_session b) \<noteq> AVAILABLE then 1
      else case ei_value (eb_session b) of Some (FSession s) \<Rightarrow> sf_size_multiplier s | _ \<Rightarrow> 1)"

definition monday_penalty :: "V6EvidenceBundle \<Rightarrow> int" where
  "monday_penalty b =
     (if ei_state (eb_calendar b) \<noteq> AVAILABLE then 0
      else case ei_value (eb_calendar b) of Some (FCalendar c) \<Rightarrow> kf_monday_score_penalty c | _ \<Rightarrow> 0)"

definition available_provenance :: "'a EvidenceItem \<Rightarrow> EvidenceProvenance option" where
  "available_provenance item = (if ei_state item = AVAILABLE then ei_provenance item else None)"

definition provenances :: "V6EvidenceBundle \<Rightarrow> EvidenceProvenance list" where
  "provenances b =
     List.map_filter (\<lambda>(_, item). available_provenance item) (eb_bars b)
     @ List.map_filter (\<lambda>(_, item). available_provenance item) (facts_of b)"

definition provenance_hashes :: "V6EvidenceBundle \<Rightarrow> bytes list" where
  "provenance_hashes b = map (\<lambda>p. fromhex (ep_digest_sha256 p)) (provenances b)"

definition completed_evidence_at :: "V6EvidenceBundle \<Rightarrow> instant" where
  "completed_evidence_at b =
     (if provenances b = [] then eb_decision_at b else Max (set (map ep_observed_at (provenances b))))"

text \<open>The matched indicators whose evidence the bundle carries, and the blockers of the others.\<close>

definition valid_indicators :: "V6EvidenceBundle \<Rightarrow> V6RiskContext \<Rightarrow> MatchedIndicator list" where
  "valid_indicators b ctx = filter (\<lambda>i. mi_evidence_hash i \<in> set (provenance_hashes b)) (vc_matched_indicators ctx)"

definition indicator_blockers :: "V6EvidenceBundle \<Rightarrow> V6RiskContext \<Rightarrow> string list" where
  "indicator_blockers b ctx =
     map (\<lambda>i. ''INDICATOR_PROVENANCE_MISSING:'' @ mi_key i)
       (filter (\<lambda>i. mi_evidence_hash i \<notin> set (provenance_hashes b)) (vc_matched_indicators ctx))
     @ blocker ((if rq_side (vc_risk_request ctx) = BUY then DIRECTION_LONG else DIRECTION_SHORT)
                  \<notin> set (map mi_key (valid_indicators b ctx))) ''DIRECTION_EVIDENCE_MISSING''"

definition graded :: "V6EvidenceBundle \<Rightarrow> SetupGrade \<Rightarrow> SetupGrade" where
  "graded b grade = (if eb_market b \<in> {KRX_CASH, US_CASH} \<and> grade = GRADE_A_CANDIDATE then GRADE_NORMAL else grade)"

definition sized_request :: "V6EvidenceBundle \<Rightarrow> V6RiskContext \<Rightarrow> SetupGrade \<Rightarrow> V6RiskRequest" where
  "sized_request b ctx grade =
     (vc_risk_request ctx)\<lparr>rq_grade := grade, rq_size_multiplier := session_size_multiplier b\<rparr>"

definition decision_of ::
  "V6EvidenceBundle \<Rightarrow> V6Manifest \<Rightarrow> V6RiskContext \<Rightarrow> MatchedIndicator list \<Rightarrow> SetupGrade \<Rightarrow> string list \<Rightarrow> V6RiskAuthority \<Rightarrow> V6Decision" where
  "decision_of b manifest ctx indicators final_grade blockers authority =
     (let tradeable = (final_grade \<noteq> GRADE_REJECT); request = vc_risk_request ctx;
          quantity = (if tradeable then va_quantity authority else 0)
      in \<lparr>vd_id = vc_decision_id ctx, vd_strategy_version_id = mn_strategy_version_id manifest,
          vd_setup_id = vc_setup_id ctx, vd_feature_snapshot_id = vc_feature_snapshot_id ctx,
          vd_instrument_id = eb_instrument_id b, vd_market = eb_market b, vd_family = vc_family ctx,
          vd_grade = final_grade, vd_side = rq_side request, vd_order_style = vc_order_style ctx,
          vd_matched_indicators = indicators, vd_blockers = blockers,
          vd_planned_entry = (if tradeable then Some (rq_entry_price request) else None),
          vd_structural_stop = (if tradeable then Some (va_stop_price authority) else None),
          vd_target_price = (if tradeable then Some (vc_target_price ctx) else None),
          vd_risk_fraction = (if tradeable then va_risk_fraction authority else 0),
          vd_calculated_quantity = quantity,
          vd_expected_cost = (if tradeable then Some (dmul (rq_cost_per_unit request) quantity) else None),
          vd_source_evidence_hashes =
            sorted_set (mn_source_sha256 manifest # mn_design_sha256 manifest # mn_configuration_hash manifest # provenance_hashes b),
          vd_exhaustion_timeframe = eb_exhaustion_timeframe b, vd_completed_evidence_at = completed_evidence_at b,
          vd_generated_at = eb_decision_at b, vd_valid_until = vc_valid_until ctx\<rparr>)"

definition evaluate_v6 :: "bytes \<Rightarrow> V6EvidenceBundle \<Rightarrow> V6Manifest \<Rightarrow> V6RiskContext \<Rightarrow> V6Decision result" where
  "evaluate_v6 v6_configuration_hash b manifest ctx =
     and_then (validated (V6Manifest_checks v6_configuration_hash manifest) ()) (\<lambda>_.
     and_then (validated (V6RiskContext_checks ctx) ()) (\<lambda>_.
       let required = required_keys (eb_market b) (vc_family ctx); request = vc_risk_request ctx
       in and_then (semantic_blockers b required (rq_side request) (rq_entry_price request)) (\<lambda>semantic.
          let indicators = sort_key mi_key (valid_indicators b ctx)
          in and_then (grade_setup indicators (vc_mandatory_indicator_codes ctx) (- monday_penalty b)) (\<lambda>raw_grade.
             let first_blockers = context_blockers b ctx @ missing_blockers b required @ semantic
                   @ indicator_blockers b ctx @ blocker (raw_grade = GRADE_REJECT) ''CONTRADICTORY_DIRECTION_EVIDENCE'';
                 grade = graded b raw_grade;
                 preliminary = (if first_blockers \<noteq> [] then GRADE_REJECT else grade)
             in and_then (validated (V6RiskRequest_checks (sized_request b ctx preliminary)) ()) (\<lambda>_.
                and_then (evaluate_v6_risk (sized_request b ctx preliminary) (vc_policy ctx)) (\<lambda>authority.
                  let canonical = sorted_set (first_blockers @ va_blocker_codes authority);
                      final_grade = (if canonical \<noteq> [] then GRADE_REJECT else grade);
                      decision = decision_of b manifest ctx indicators final_grade canonical authority
                  in validated (V6Decision_checks decision) decision))))))"

definition market_value :: "V6Market \<Rightarrow> string" where
  "market_value m = (case m of KRX_CASH \<Rightarrow> ''KRX_CASH'' | US_CASH \<Rightarrow> ''US_CASH'' | BINANCE_USDM \<Rightarrow> ''BINANCE_USDM'')"

text \<open>\<^verbatim>\<open>to_strategy_decision\<close>; the prices of a tradeable decision are present (the two assertions).\<close>

definition to_strategy_decision :: "V6Decision \<Rightarrow> StrategyDecision result" where
  "to_strategy_decision d =
     (if vd_grade d = GRADE_REJECT then Inl (ValueError ''tradeable exact V6Decision is required'')
      else case (vd_planned_entry d, vd_structural_stop d) of
        (Some entry, Some stop) \<Rightarrow>
          let decision =
            \<lparr>sd_id = vd_id d, sd_strategy_version_id = vd_strategy_version_id d, sd_setup_id = vd_setup_id d,
             sd_feature_snapshot_id = vd_feature_snapshot_id d, sd_instrument_id = vd_instrument_id d,
             sd_intent_type = ENTRY, sd_side = vd_side d, sd_order_style = vd_order_style d,
             sd_planned_entry = entry, sd_trigger_price = entry, sd_invalidation_price = stop,
             sd_generated_at = vd_generated_at d, sd_valid_until = vd_valid_until d,
             sd_session_type = market_value (vd_market d), sd_source_v6_decision_id = Some (vd_id d)\<rparr>
          in validated (StrategyDecision_checks decision) decision
      | _ \<Rightarrow> Inl AssertionError)"

section \<open>The written rules\<close>

text \<open>What each fact must say for a trade on a side at a price; signal C of the Metodo needs the regime.\<close>

fun fact_admits :: "Side \<Rightarrow> decimal \<Rightarrow> fact option \<Rightarrow> fact \<Rightarrow> bool" where
  "fact_admits side price regime (FUniverse u) = uf_eligible u"
| "fact_admits side price regime (FRegime r) = (\<not> rf_excluded r)"
| "fact_admits side price regime (FCalendar c) = (\<not> kf_block_new_exposure c)"
| "fact_admits side price regime (FSession s) = sf_entry_allowed s"
| "fact_admits side price regime (FMetodo m) = metodo_admits m regime"
| "fact_admits side price regime (FDivergence d) = list_ex (\<lambda>s. ds_kind s = REGULAR_KIND side) (df_regular d)"
| "fact_admits side price regime (FZones z) = (zf_zones z \<noteq> [])"
| "fact_admits side price regime (FExhaustion e) =
     (case (if side = BUY then ef_bullish e else ef_bearish e) of
        None \<Rightarrow> False | Some s \<Rightarrow> es_direction s = side \<and> es_confirmed s)"
| "fact_admits side price regime (FOrderFlow f) = (blocking_big_trade_ahead f side price = Inr False)"
| "fact_admits side price regime _ = True"

definition evidence_admits :: "V6EvidenceBundle \<Rightarrow> string list \<Rightarrow> Side \<Rightarrow> decimal \<Rightarrow> bool" where
  "evidence_admits b required side price =
     list_all (\<lambda>key. case valid_value b required key of
                 None \<Rightarrow> False
               | Some f \<Rightarrow> internal_state f = AVAILABLE
                          \<and> fact_admits side price (valid_value b required ''regime'') f) required"

definition setup_admits :: "V6EvidenceBundle \<Rightarrow> V6RiskContext \<Rightarrow> bool" where
  "setup_admits b ctx \<longleftrightarrow>
     (let request = vc_risk_request ctx
      in rq_market request = eb_market b
         \<and> (vc_family ctx = METODO \<longrightarrow> eb_market b \<noteq> BINANCE_USDM)
         \<and> (eb_market b \<in> set SPOT_ONLY_MARKETS \<longrightarrow> rq_side request = BUY)
         \<and> evidence_admits b (required_keys (eb_market b) (vc_family ctx)) (rq_side request) (rq_entry_price request)
         \<and> (\<forall>i \<in> set (vc_matched_indicators ctx). mi_evidence_hash i \<in> set (provenance_hashes b))
         \<and> (if rq_side request = BUY then DIRECTION_LONG else DIRECTION_SHORT) \<in> mi_key ` set (vc_matched_indicators ctx))"

lemma valid_value_key:
  assumes "valid_value b required k = Some f"
  shows "k \<in> set required" "ei_state (item_of b k) = AVAILABLE" "fact_key f = k"
  using assms by (auto simp: valid_value_def split: if_splits option.splits)

lemma concat_map_Nil: "concat (map f xs) = [] \<longleftrightarrow> (\<forall>x \<in> set xs. f x = [])"
  by auto

lemma missing_type_Nil:
  "missing_blockers b required = [] \<and> type_blockers b required = []
   \<longleftrightarrow> (\<forall>k \<in> set required. valid_value b required k \<noteq> None)"
proof -
  have "missing_blockers b required = [] \<longleftrightarrow> (\<forall>k \<in> set required. ei_state (item_of b k) = AVAILABLE)"
    unfolding missing_blockers_def concat_map_Nil by (auto simp: Let_def)
  moreover have "type_blockers b required = []
      \<longleftrightarrow> (\<forall>k \<in> set required. ei_state (item_of b k) = AVAILABLE \<longrightarrow> valid_value b required k \<noteq> None)"
    unfolding type_blockers_def concat_map_Nil by simp
  ultimately show ?thesis using valid_value_key(2) [of b required] by blast
qed

lemma state_Nil:
  "state_blockers b required = [] \<longleftrightarrow> (\<forall>k f. valid_value b required k = Some f \<longrightarrow> internal_state f = AVAILABLE)"
proof -
  have "state_blockers b required = []
    \<longleftrightarrow> (\<forall>k \<in> set STATE_KEYS. \<forall>f. valid_value b required k = Some f \<longrightarrow> internal_state f = AVAILABLE)"
    unfolding state_blockers_def concat_map_Nil by (auto split: option.splits)
  moreover have "internal_state f = AVAILABLE" if "valid_value b required k = Some f" "k \<notin> set STATE_KEYS" for k f
    using valid_value_key(3) [OF that(1)] that(2) by (cases f) (auto simp: fact_key_def internal_state_def STATE_KEYS_def)
  ultimately show ?thesis by blast
qed

lemma flow_blockers_Nil: "flow_blockers f side price = Inr [] \<longleftrightarrow> blocking_big_trade_ahead f side price = Inr False"
  by (auto simp: flow_blockers_def split: sum.splits py_error.splits)

lemma case_fact_Nil:
  "(case v of Some (FUniverse x) \<Rightarrow> g1 x | _ \<Rightarrow> []) = [] \<longleftrightarrow> (\<forall>x. v = Some (FUniverse x) \<longrightarrow> g1 x = [])"
  "(case v of Some (FRegime x) \<Rightarrow> g2 x | _ \<Rightarrow> []) = [] \<longleftrightarrow> (\<forall>x. v = Some (FRegime x) \<longrightarrow> g2 x = [])"
  "(case v of Some (FMetodo x) \<Rightarrow> g3 x | _ \<Rightarrow> []) = [] \<longleftrightarrow> (\<forall>x. v = Some (FMetodo x) \<longrightarrow> g3 x = [])"
  "(case v of Some (FZones x) \<Rightarrow> g4 x | _ \<Rightarrow> []) = [] \<longleftrightarrow> (\<forall>x. v = Some (FZones x) \<longrightarrow> g4 x = [])"
  "(case v of Some (FDivergence x) \<Rightarrow> g5 x | _ \<Rightarrow> []) = [] \<longleftrightarrow> (\<forall>x. v = Some (FDivergence x) \<longrightarrow> g5 x = [])"
  "(case v of Some (FExhaustion x) \<Rightarrow> g6 x | _ \<Rightarrow> []) = [] \<longleftrightarrow> (\<forall>x. v = Some (FExhaustion x) \<longrightarrow> g6 x = [])"
  "(case v of Some (FCalendar x) \<Rightarrow> g7 x | _ \<Rightarrow> []) = [] \<longleftrightarrow> (\<forall>x. v = Some (FCalendar x) \<longrightarrow> g7 x = [])"
  "(case v of Some (FSession x) \<Rightarrow> g8 x | _ \<Rightarrow> []) = [] \<longleftrightarrow> (\<forall>x. v = Some (FSession x) \<longrightarrow> g8 x = [])"
  by (auto split: option.split fact.split)

lemma case_flow_Nil:
  "(case v of Some (FOrderFlow x) \<Rightarrow> and_then (g x) (\<lambda>after. Inr (before @ after)) | _ \<Rightarrow> Inr before) = Inr []
   \<longleftrightarrow> before = [] \<and> (\<forall>x. v = Some (FOrderFlow x) \<longrightarrow> g x = Inr [])"
  by (auto simp: and_then_eq_Inr_iff split: option.split fact.split)

lemma exhaustion_Nil: "exhaustion_blockers e side = [] \<longleftrightarrow> fact_admits side price regime (FExhaustion e)"
  by (auto simp: exhaustion_blockers_def split: option.split)

lemmas fact_blocker_defs =
  gate_blockers_def metodo_blocker_def hlit_blockers_def Let_def case_flow_Nil append_is_Nil_conv case_fact_Nil
  blocker_Nil flow_blockers_Nil

text \<open>All blockers the facts raise vanish exactly when every present fact admits the trade.\<close>

lemma facts_Nil:
  "gate_blockers b required = [] \<and> metodo_blocker b required = [] \<and> hlit_blockers b required side price = Inr []
   \<longleftrightarrow> (\<forall>k f. valid_value b required k = Some f \<longrightarrow> fact_admits side price (valid_value b required ''regime'') f)"
  (is "?l \<longleftrightarrow> ?r")
proof
  assume l: ?l
  note l' = l [unfolded fact_blocker_defs exhaustion_Nil [of _ side price "valid_value b required ''regime''"]]
  show ?r
  proof (intro allI impI)
    fix k f assume v: "valid_value b required k = Some f"
    have "k = fact_key f" using valid_value_key(3) [OF v] by simp
    with v l' show "fact_admits side price (valid_value b required ''regime'') f"
      by (cases f) (simp_all add: fact_key_def del: fact_admits.simps(8))
  qed
next
  assume ?r
  then have adm: "fact_admits side price (valid_value b required ''regime'') f" if "valid_value b required k = Some f" for k f
    using that by blast
  show ?l unfolding fact_blocker_defs exhaustion_Nil [of _ side price "valid_value b required ''regime''"]
    by (auto simp del: fact_admits.simps(8) dest!: adm)
qed

lemma present_values:
  assumes "\<And>k f. V k = Some f \<Longrightarrow> k \<in> set keys"
  shows "(\<forall>k \<in> set keys. V k \<noteq> None) \<and> (\<forall>k f. V k = Some f \<longrightarrow> P f) \<and> (\<forall>k f. V k = Some f \<longrightarrow> Q f)
    \<longleftrightarrow> (\<forall>k \<in> set keys. \<exists>f. V k = Some f \<and> P f \<and> Q f)"
  using assms by fastforce

lemma semantic_Nil:
  assumes "''regime'' \<in> set required"
  shows "missing_blockers b required = [] \<and> semantic_blockers b required side price = Inr []
    \<longleftrightarrow> evidence_admits b required side price"
proof -
  have "missing_blockers b required = [] \<and> semantic_blockers b required side price = Inr []
    \<longleftrightarrow> (missing_blockers b required = [] \<and> type_blockers b required = []) \<and> state_blockers b required = []
      \<and> (gate_blockers b required = [] \<and> metodo_blocker b required = [] \<and> hlit_blockers b required side price = Inr [])"
    by (auto simp: semantic_blockers_def and_then_eq_Inr_iff)
  also have "\<dots> \<longleftrightarrow> (\<forall>k \<in> set required. \<exists>f. valid_value b required k = Some f \<and> internal_state f = AVAILABLE
      \<and> fact_admits side price (valid_value b required ''regime'') f)"
    unfolding missing_type_Nil state_Nil facts_Nil by (rule present_values) (rule valid_value_key(1))
  also have "\<dots> \<longleftrightarrow> evidence_admits b required side price"
    unfolding evidence_admits_def list_all_iff by (intro ball_cong refl) (auto split: option.split)
  finally show ?thesis .
qed

lemma regime_required: "''regime'' \<in> set (required_keys market family)"
  by (simp add: required_keys_def COMMON_REQUIRED_def)

lemma context_Nil:
  "context_blockers b ctx = [] \<longleftrightarrow>
     rq_market (vc_risk_request ctx) = eb_market b \<and> (vc_family ctx = METODO \<longrightarrow> eb_market b \<noteq> BINANCE_USDM)
     \<and> (eb_market b \<in> set SPOT_ONLY_MARKETS \<longrightarrow> rq_side (vc_risk_request ctx) = BUY)"
  by (cases "rq_side (vc_risk_request ctx)") (auto simp: context_blockers_def)

lemma indicator_Nil:
  "indicator_blockers b ctx = [] \<longleftrightarrow>
     (\<forall>i \<in> set (vc_matched_indicators ctx). mi_evidence_hash i \<in> set (provenance_hashes b))
     \<and> (if rq_side (vc_risk_request ctx) = BUY then DIRECTION_LONG else DIRECTION_SHORT) \<in> mi_key ` set (vc_matched_indicators ctx)"
  by (auto simp: indicator_blockers_def valid_indicators_def filter_empty_conv)

text \<open>What a returned decision was made from.\<close>

definition first_blockers_of :: "V6EvidenceBundle \<Rightarrow> V6RiskContext \<Rightarrow> string list \<Rightarrow> SetupGrade \<Rightarrow> string list" where
  "first_blockers_of b ctx semantic grade =
     context_blockers b ctx @ missing_blockers b (required_keys (eb_market b) (vc_family ctx)) @ semantic
     @ indicator_blockers b ctx @ blocker (grade = GRADE_REJECT) ''CONTRADICTORY_DIRECTION_EVIDENCE''"

definition raw_grade_of :: "V6EvidenceBundle \<Rightarrow> V6RiskContext \<Rightarrow> SetupGrade result" where
  "raw_grade_of b ctx =
     grade_setup (sort_key mi_key (valid_indicators b ctx)) (vc_mandatory_indicator_codes ctx) (- monday_penalty b)"

lemma evaluate_v6_Inr:
  assumes "evaluate_v6 h b m ctx = Inr d"
  shows "\<exists>semantic g a first.
    semantic_blockers b (required_keys (eb_market b) (vc_family ctx)) (rq_side (vc_risk_request ctx))
      (rq_entry_price (vc_risk_request ctx)) = Inr semantic
    \<and> raw_grade_of b ctx = Inr g \<and> first = first_blockers_of b ctx semantic g
    \<and> evaluate_v6_risk (sized_request b ctx (if first = [] then graded b g else GRADE_REJECT)) (vc_policy ctx) = Inr a
    \<and> d = decision_of b m ctx (sort_key mi_key (valid_indicators b ctx))
         (if sorted_set (first @ va_blocker_codes a) = [] then graded b g else GRADE_REJECT)
         (sorted_set (first @ va_blocker_codes a)) a
    \<and> wf_v6_decision d"
proof -
  let ?required = "required_keys (eb_market b) (vc_family ctx)" and ?is = "sort_key mi_key (valid_indicators b ctx)"
  let ?D = "\<lambda>first g a. decision_of b m ctx ?is (if sorted_set (first @ va_blocker_codes a) \<noteq> [] then GRADE_REJECT else graded b g)
      (sorted_set (first @ va_blocker_codes a)) a"
  obtain semantic g a where e:
    "semantic_blockers b ?required (rq_side (vc_risk_request ctx)) (rq_entry_price (vc_risk_request ctx)) = Inr semantic"
    "raw_grade_of b ctx = Inr g"
    "evaluate_v6_risk (sized_request b ctx (if first_blockers_of b ctx semantic g \<noteq> [] then GRADE_REJECT else graded b g))
       (vc_policy ctx) = Inr a"
    "validated (V6Decision_checks (?D (first_blockers_of b ctx semantic g) g a)) (?D (first_blockers_of b ctx semantic g) g a) = Inr d"
    using assms unfolding evaluate_v6_def Let_def and_then_eq_Inr_iff first_blockers_of_def raw_grade_of_def by blast
  then have "d = ?D (first_blockers_of b ctx semantic g) g a" "wf_v6_decision d"
    by (auto simp: validated_def wf_v6_decision_def split: option.splits)
  with e(1-3) show ?thesis by (intro exI [of _ semantic] exI [of _ g] exI [of _ a] exI) auto
qed

lemma first_blockers_Nil:
  assumes "semantic_blockers b (required_keys (eb_market b) (vc_family ctx)) (rq_side (vc_risk_request ctx))
      (rq_entry_price (vc_risk_request ctx)) = Inr semantic"
  shows "first_blockers_of b ctx semantic g = [] \<longleftrightarrow> setup_admits b ctx \<and> g \<noteq> GRADE_REJECT"
proof -
  have "missing_blockers b (required_keys (eb_market b) (vc_family ctx)) = [] \<and> semantic = []
    \<longleftrightarrow> evidence_admits b (required_keys (eb_market b) (vc_family ctx)) (rq_side (vc_risk_request ctx)) (rq_entry_price (vc_risk_request ctx))"
    unfolding semantic_Nil [OF regime_required, symmetric] assms by simp
  then show ?thesis
    unfolding first_blockers_of_def setup_admits_def Let_def append_is_Nil_conv context_Nil indicator_Nil blocker_Nil by blast
qed

lemma graded_not_reject [simp]: "graded b g = GRADE_REJECT \<longleftrightarrow> g = GRADE_REJECT"
  by (auto simp: graded_def)

lemma evaluated_decision:
  assumes "evaluate_v6 h b m ctx = Inr d" and "wf_policy (vc_policy ctx)"
  shows "wf_v6_decision d
    \<and> (case raw_grade_of b ctx of Inl _ \<Rightarrow> False | Inr g \<Rightarrow>
        let r = sized_request b ctx (graded b g); f = snd (risk_fraction (vc_policy ctx) (graded b g))
        in (vd_grade d \<noteq> GRADE_REJECT \<longleftrightarrow> setup_admits b ctx \<and> g \<noteq> GRADE_REJECT \<and> v6_admissible r (vc_policy ctx))
           \<and> vd_side d = rq_side r
           \<and> (vd_grade d = GRADE_REJECT
              \<or> vd_grade d = graded b g \<and> vd_blockers d = [] \<and> vd_planned_entry d = Some (rq_entry_price r)
                \<and> vd_target_price d = Some (vc_target_price ctx)
                \<and> vd_structural_stop d = Some (stop_price_of r) \<and> vd_risk_fraction d = f
                \<and> vd_calculated_quantity d = quantity_of r (dmul (risk_base_of r) f)))"
proof -
  obtain semantic g a first where e:
    "semantic_blockers b (required_keys (eb_market b) (vc_family ctx)) (rq_side (vc_risk_request ctx))
      (rq_entry_price (vc_risk_request ctx)) = Inr semantic"
    "raw_grade_of b ctx = Inr g" "first = first_blockers_of b ctx semantic g"
    "evaluate_v6_risk (sized_request b ctx (if first = [] then graded b g else GRADE_REJECT)) (vc_policy ctx) = Inr a"
    "d = decision_of b m ctx (sort_key mi_key (valid_indicators b ctx))
       (if sorted_set (first @ va_blocker_codes a) = [] then graded b g else GRADE_REJECT)
       (sorted_set (first @ va_blocker_codes a)) a" "wf_v6_decision d"
    using evaluate_v6_Inr [OF assms(1)] by blast
  note first = first_blockers_Nil [OF e(1), of g, folded e(3)]
  let ?r = "sized_request b ctx (graded b g)"
  have canonical: "sorted_set (first @ va_blocker_codes a) = [] \<longleftrightarrow> first = [] \<and> va_blocker_codes a = []"
    by (simp add: sorted_set_def)
  show ?thesis
  proof (cases "first = []")
    case False
    then have "vd_grade d = GRADE_REJECT" "vd_side d = rq_side ?r" by (simp_all add: e(5) decision_of_def Let_def canonical sized_request_def)
    then show ?thesis using e(2,6) False first by (auto simp: Let_def)
  next
    case True
    with e(4) have a: "evaluate_v6_risk ?r (vc_policy ctx) = Inr a" by simp
    note ra = evaluate_v6_risk_Inr [OF a]
    have adm: "va_blocker_codes a = [] \<longleftrightarrow> v6_admissible ?r (vc_policy ctx)"
      using ra(3,4) risk_blockers_Nil [OF assms(2), of ?r] by (simp add: sorted_set_def)
    have "rq_grade ?r = graded b g" "rq_entry_price ?r = rq_entry_price (vc_risk_request ctx)" "rq_side ?r = rq_side (vc_risk_request ctx)" by (simp_all add: sized_request_def)
    then show ?thesis
      using True first e(2,6) ra(3,5-9) adm risk_blockers_Nil [OF assms(2), of ?r]
      by (auto simp: e(5) decision_of_def Let_def canonical)
  qed
qed

section \<open>Properties\<close>

text \<open>C6: a decision proposes a trade exactly when the written rules hold and the risk engine allows it. For
  every evaluation that returns, the decision satisfies every check of its constructor, it is tradeable
  if and only if the evidence admits the setup, the direction evidence is not contradictory and the
  sized request is admissible under the policy, and a tradeable decision carries no blocker, the entry
  of the request, and the stop, the size and the risk fraction the risk engine derives for that request.\<close>

theorem decision_tradeable_exactly_by_rules:
  assumes "evaluate_v6 h b m ctx = Inr d" and "wf_policy (vc_policy ctx)"
  shows "wf_v6_decision d
    \<and> (case raw_grade_of b ctx of Inl _ \<Rightarrow> False | Inr g \<Rightarrow>
        let r = sized_request b ctx (graded b g); f = snd (risk_fraction (vc_policy ctx) (graded b g))
        in (vd_grade d \<noteq> GRADE_REJECT \<longleftrightarrow> setup_admits b ctx \<and> g \<noteq> GRADE_REJECT \<and> v6_admissible r (vc_policy ctx))
           \<and> (vd_grade d = GRADE_REJECT
              \<or> vd_grade d = graded b g \<and> vd_blockers d = [] \<and> vd_planned_entry d = Some (rq_entry_price r)
                \<and> vd_structural_stop d = Some (stop_price_of r) \<and> vd_risk_fraction d = f
                \<and> vd_calculated_quantity d = quantity_of r (dmul (risk_base_of r) f)))"
  using evaluated_decision [OF assms] by (auto simp: Let_def split: sum.splits)

text \<open>C10: no decision rests on what was observed after it. Every available item of evidence, bars and facts
  alike, was observed no later than the moment the decision records as its completed evidence, which is
  no later than the decision; its hash is among the source hashes of the decision, and so is the
  evidence of every matched indicator.\<close>

theorem decision_rests_on_recorded_past_evidence:
  assumes "evaluate_v6 h b m ctx = Inr d"
  shows "vd_completed_evidence_at d \<le> vd_generated_at d \<and> vd_generated_at d = eb_decision_at b
    \<and> (\<forall>p \<in> set (provenances b). ep_observed_at p \<le> vd_completed_evidence_at d
          \<and> fromhex (ep_digest_sha256 p) \<in> set (vd_source_evidence_hashes d))
    \<and> (\<forall>i \<in> set (vd_matched_indicators d). mi_evidence_hash i \<in> set (vd_source_evidence_hashes d))"
proof -
  obtain g bs a where d: "d = decision_of b m ctx (sort_key mi_key (valid_indicators b ctx)) g bs a" "wf_v6_decision d"
    using evaluate_v6_Inr [OF assms] by blast
  have "ep_observed_at p \<le> completed_evidence_at b" if "p \<in> set (provenances b)" for p
    using that by (auto simp: completed_evidence_at_def)
  then show ?thesis
    using wf_v6_decision_common(3) [OF d(2)]
    by (auto simp: d(1) decision_of_def Let_def provenance_hashes_def valid_indicators_def)
qed

text \<open>A target on the wrong side of the entry is an exception, not a rejection. When every rule admits the
  trade but the target of the context is not beyond the entry on the traded side, the evaluation
  raises out of the constructor of the decision; no decision, and so no recorded blocker, is made.\<close>

theorem wrong_side_target_raises:
  assumes "wf_policy (vc_policy ctx)" and "setup_admits b ctx" and "raw_grade_of b ctx = Inr g" and "g \<noteq> GRADE_REJECT"
    and "v6_admissible (sized_request b ctx (graded b g)) (vc_policy ctx)"
    and "\<not> (if rq_side (vc_risk_request ctx) = BUY then rq_entry_price (vc_risk_request ctx) < vc_target_price ctx
         else vc_target_price ctx < rq_entry_price (vc_risk_request ctx))"
  shows "failed (evaluate_v6 h b m ctx)"
proof (rule ccontr)
  assume "\<not> failed (evaluate_v6 h b m ctx)"
  then obtain d where "evaluate_v6 h b m ctx = Inr d" by (cases "evaluate_v6 h b m ctx") (auto simp: failed_def)
  from evaluated_decision [OF this assms(1)] assms(2-5)
  have w: "wf_v6_decision d" and t: "vd_grade d \<noteq> GRADE_REJECT" and s: "vd_side d = rq_side (vc_risk_request ctx)"
    and p: "vd_planned_entry d = Some (rq_entry_price (vc_risk_request ctx))" "vd_target_price d = Some (vc_target_price ctx)"
    by (auto simp: Let_def sized_request_def)
  show False using wf_v6_decision_tradeable(1) [OF w t] assms(6) s p
    by (cases "vd_side d") (auto simp: tradeable_terms_def)
qed

text \<open>Exactly the tradeable decisions become orders' decisions. A decision that passed its constructor
  converts into a strategy decision if and only if its grade is not a rejection, without a further
  check failing, and the result keeps the side, the entry and the stop, names the decision it comes
  from, and has its stop on the protective side of the entry.\<close>

theorem conversion_exactly_of_tradeable:
  assumes "wf_v6_decision d"
  shows "case to_strategy_decision d of
      Inl e \<Rightarrow> vd_grade d = GRADE_REJECT \<and> e = ValueError ''tradeable exact V6Decision is required''
    | Inr s \<Rightarrow> vd_grade d \<noteq> GRADE_REJECT \<and> sd_side s = vd_side d \<and> Some (sd_planned_entry s) = vd_planned_entry d
        \<and> Some (sd_invalidation_price s) = vd_structural_stop d \<and> sd_source_v6_decision_id s = Some (sd_id s)
        \<and> sd_id s = vd_id d
        \<and> (if sd_side s = BUY then sd_invalidation_price s < sd_planned_entry s
           else sd_planned_entry s < sd_invalidation_price s)"
proof (cases "vd_grade d = GRADE_REJECT")
  case True
  then show ?thesis by (simp add: to_strategy_decision_def)
next
  case False
  obtain e s t where "vd_planned_entry d = Some e" "vd_structural_stop d = Some s" "tradeable_terms (vd_side d) e s t"
    using wf_v6_decision_tradeable(1) [OF assms False] by blast
  then show ?thesis
    using False wf_v6_decision_common(4,6) [OF assms]
    by (cases "vd_side d")
      (simp_all add: to_strategy_decision_def StrategyDecision_checks_def validated_def Let_def tradeable_terms_def)
qed

section \<open>A sample pass\<close>

definition sample_provenance :: EvidenceProvenance where
  "sample_provenance =
     \<lparr>ep_source = ''binance'', ep_source_key = ''pass'', ep_source_timezone = ''UTC'', ep_observed_at = 1000000,
      ep_captured_at = 1000000, ep_digest_sha256 = replicate 64 CHR ''a''\<rparr>"

definition sample_pivot :: Pivot where
  "sample_pivot = \<lparr>pv_index = 2, pv_confirmation_index = 4, pv_kind = PIVOT_LOW, pv_price = 98, pv_timestamp = 0, pv_confirmed = True\<rparr>"

definition sample_fact :: "string \<Rightarrow> fact" where
  "sample_fact key =
     (if key = ''regime'' then FRegime \<lparr>rf_state = AVAILABLE, rf_trend = None, rf_sideways = None, rf_low_volatility = None,
           rf_pessimism_extreme = None, rf_excluded = False\<rparr>
      else if key = ''calendar'' then FCalendar \<lparr>kf_state = AVAILABLE, kf_block_new_exposure = False,
           kf_close_intraday_positions = False, kf_active_event_ids = [], kf_blackout_ends_at = None, kf_monday_score_penalty = 0\<rparr>
      else if key = ''session'' then FSession \<lparr>sf_state = AVAILABLE, sf_session_open = True, sf_entry_allowed = True,
           sf_reduce_only = False, sf_must_be_flat = False, sf_overnight_allowed = True, sf_pre_open = False,
           sf_size_multiplier = 1, sf_max_micro_contracts = None, sf_entry_cutoff_at = None, sf_flat_at = None, sf_blockers = []\<rparr>
      else if key = ''costs'' then FCosts \<lparr>cf_state = AVAILABLE, cf_spread_per_unit = 1 / 10, cf_fee_per_unit = None,
           cf_slippage_allowance_per_unit = 0, cf_raw_cost_per_unit = None, cf_cost_offset_per_unit = None, cf_round_trip_cost = None\<rparr>
      else if key = ''zones'' then FZones \<lparr>zf_observed_at = 0, zf_source_timezone = ''UTC'', zf_selected_dates = [], zf_bin_count = 1,
           zf_zones = [\<lparr>hz_lower_boundary = 97, hz_upper_boundary = 99, hz_touch_count = 1, hz_strength = 1, hz_touched_at = [0]\<rparr>]\<rparr>
      else if key = ''divergence'' then FDivergence \<lparr>df_observed_at = Some 0,
           df_regular = [\<lparr>ds_kind = REGULAR_BULLISH, ds_first = sample_pivot, ds_second = sample_pivot,
                          ds_first_oscillator = - 2, ds_second_oscillator = - 1\<rparr>], df_hidden = []\<rparr>
      else if key = ''exhaustion'' then FExhaustion \<lparr>ef_observed_at = Some 0,
           ef_bullish = Some \<lparr>es_direction = BUY, es_confirmed = True, es_research_only = False, es_history = [],
             es_evaluation_pivots = [], es_structural_reference_price = 98, es_confirmed_at = 0\<rparr>, ef_bearish = None\<rparr>
      else if key = ''order_flow'' then FOrderFlow \<lparr>of_state = AVAILABLE, of_trade_count = 0, of_unknown_aggressor_count = 0,
           of_buy_notional = 0, of_sell_notional = 0, of_delta_notional = Some 0, of_big_trades = Some [], of_reversal_mig = None,
           of_continuation_mig = None, of_secado = None, of_ceros = None, of_telemetry_only = True\<rparr>
      else if key = ''profile'' then FProfile \<lparr>prf_state = AVAILABLE, prf_levels = [], prf_point_of_control = None,
           prf_value_area_low = None, prf_value_area_high = None, prf_total_notional = 0\<rparr>
      else FOther)"

definition sample_item :: "string \<Rightarrow> fact EvidenceItem" where
  "sample_item key = available_item (sample_fact key) sample_provenance"

definition sample_bundle :: V6EvidenceBundle where
  "sample_bundle =
     \<lparr>eb_market = BINANCE_USDM, eb_instrument_id = 0x0198000000007000800000000000000b, eb_decision_at = 2000000, eb_bars = [],
      eb_universe = missing_item NOT_APPLICABLE ''UNIVERSE_NOT_APPLICABLE'', eb_regime = sample_item ''regime'',
      eb_metodo = missing_item NOT_APPLICABLE ''METODO_NOT_APPLICABLE'', eb_zones = sample_item ''zones'',
      eb_divergence = sample_item ''divergence'', eb_exhaustion = sample_item ''exhaustion'',
      eb_order_flow = sample_item ''order_flow'', eb_profile = sample_item ''profile'',
      eb_calendar = sample_item ''calendar'', eb_session = sample_item ''session'', eb_costs = sample_item ''costs'',
      eb_exhaustion_timeframe = Some ''30s''\<rparr>"

definition sample_manifest :: V6Manifest where
  "sample_manifest =
     \<lparr>mn_id = 0x0198000000007000800000000000000c, mn_strategy_version_id = 0x0198000000007000800000000000000d,
      mn_source_sha256 = V6_SOURCE_SHA256, mn_design_sha256 = V6_DESIGN_SHA256, mn_configuration_hash = replicate 32 7,
      mn_registered_at = AwareUTC 1000000\<rparr>"

definition sample_context :: "decimal \<Rightarrow> V6RiskContext" where
  "sample_context target =
     \<lparr>vc_decision_id = 0x0198000000007000800000000000000e, vc_setup_id = 0x0198000000007000800000000000000f,
      vc_feature_snapshot_id = 0x01980000000070008000000000000010, vc_family = HLIT, vc_order_style = LIMIT,
      vc_matched_indicators = [\<lparr>mi_key = DIRECTION_LONG, mi_mandatory = True, mi_evidence_state = AVAILABLE,
         mi_evidence_hash = fromhex (replicate 64 CHR ''a'')\<rparr>],
      vc_mandatory_indicator_codes = [], vc_risk_request = sample_request, vc_policy = sample_policy,
      vc_target_price = target, vc_valid_until = 3000000\<rparr>"

lemma sample_admits: "setup_admits sample_bundle (sample_context target)"
  by code_simp

lemma sample_grade: "raw_grade_of sample_bundle (sample_context target) = Inr GRADE_NORMAL"
  by code_simp

lemma sample_sized: "sized_request sample_bundle (sample_context target) GRADE_NORMAL = sample_request\<lparr>rq_grade := GRADE_NORMAL\<rparr>"
  by (simp add: sized_request_def sample_context_def sample_request_def session_size_multiplier_def sample_bundle_def
      sample_item_def available_item_def sample_fact_def)

lemma sample_graded [simp]: "graded sample_bundle GRADE_NORMAL = GRADE_NORMAL"
  by (simp add: graded_def)

lemma sample_policy_of [simp]: "vc_policy (sample_context target) = sample_policy"
  by (simp add: sample_context_def)

lemma sample_checks:
  "first_error (V6Manifest_checks (replicate 32 7) sample_manifest) = None"
  "first_error (V6RiskContext_checks (sample_context 110)) = None"
  by code_simp+

lemma sample_parts:
  "valid_indicators sample_bundle (sample_context 110) = vc_matched_indicators (sample_context 110)"
  "completed_evidence_at sample_bundle = 1000000"
  "list_all (\<lambda>h. length h = 32) (mn_source_sha256 sample_manifest # mn_design_sha256 sample_manifest
     # mn_configuration_hash sample_manifest # provenance_hashes sample_bundle)"
  by code_simp+

lemma sample_decision_checks:
  assumes "va_quantity a = 20" "va_stop_price a = 488 / 5" "va_risk_fraction a = 1 / 200"
  shows "wf_v6_decision (decision_of sample_bundle sample_manifest (sample_context 110)
    (sort_key mi_key (valid_indicators sample_bundle (sample_context 110))) GRADE_NORMAL [] a)"
proof -
  have h: "first_error (require_canonical_hashes (sorted_set (mn_source_sha256 sample_manifest # mn_design_sha256 sample_manifest
     # mn_configuration_hash sample_manifest # provenance_hashes sample_bundle))) = None"
    using sample_parts(3) by (auto simp: require_canonical_hashes_def list_ex_iff list_all_iff)
  have c: "uuid7_checks [(''id'', vc_decision_id (sample_context 110)), (''strategy_version_id'', mn_strategy_version_id sample_manifest),
      (''setup_id'', vc_setup_id (sample_context 110)), (''feature_snapshot_id'', vc_feature_snapshot_id (sample_context 110)),
      (''instrument_id'', eb_instrument_id sample_bundle)] = c \<Longrightarrow> first_error c = None" for c
    by (erule subst) code_simp
  show ?thesis
    unfolding wf_v6_decision_def V6Decision_checks_def first_error_append_None
    using h c [OF refl]
    by (simp_all add: decision_of_def Let_def sample_parts(1,2) assms validate_tradeable_def positive_prices_def
        require_canonical_indicators_def require_sorted_unique_text_def MAXIMUM_RISK_FRACTION_def dmul_def)
      (simp_all add: sample_context_def sample_bundle_def sample_request_def)
qed

text \<open>An evaluation whose rules all hold ends in the constructor of a decision without blockers.\<close>

lemma evaluate_v6_admitted:
  assumes "first_error (V6Manifest_checks h m) = None" "first_error (V6RiskContext_checks ctx) = None"
    and "setup_admits b ctx" "raw_grade_of b ctx = Inr g" "g \<noteq> GRADE_REJECT"
    and "evaluate_v6_risk (sized_request b ctx (graded b g)) (vc_policy ctx) = Inr a" "va_blocker_codes a = []"
    and "D = decision_of b m ctx (sort_key mi_key (valid_indicators b ctx)) (graded b g) [] a"
  shows "evaluate_v6 h b m ctx = validated (V6Decision_checks D) D"
proof -
  let ?required = "required_keys (eb_market b) (vc_family ctx)"
  have s: "missing_blockers b ?required = []"
      "semantic_blockers b ?required (rq_side (vc_risk_request ctx)) (rq_entry_price (vc_risk_request ctx)) = Inr []"
    using assms(3) semantic_Nil [OF regime_required] unfolding setup_admits_def Let_def by blast+
  have f: "context_blockers b ctx = []" "indicator_blockers b ctx = []"
    using assms(3) unfolding setup_admits_def Let_def context_Nil indicator_Nil by blast+
  have r: "first_error (V6RiskRequest_checks (sized_request b ctx (graded b g))) = None"
    by (rule evaluate_v6_risk_Inr(1) [OF assms(6)])
  show ?thesis
    using assms(1,2,4,5-8) s f r
    by (simp add: evaluate_v6_def validated_def and_then_def raw_grade_of_def Let_def blocker_def sorted_set_def
        split: option.split)
qed

lemma sample_evaluates:
  "\<exists>d. evaluate_v6 (replicate 32 7) sample_bundle sample_manifest (sample_context 110) = Inr d \<and> vd_grade d = GRADE_NORMAL
     \<and> vd_calculated_quantity d = 20 \<and> wf_v6_decision d"
proof -
  let ?r = "sample_request\<lparr>rq_grade := GRADE_NORMAL\<rparr>"
  obtain a where a: "evaluate_v6_risk ?r sample_policy = Inr a" "va_allowed a" "va_quantity a = 20"
    using sample_evaluated [of GRADE_NORMAL] by auto
  note ra = evaluate_v6_risk_Inr [OF a(1)]
  have p: "va_stop_price a = 488 / 5" "va_risk_fraction a = 1 / 200"
    using ra(5,9) sample_amounts(1) [of ?r GRADE_NORMAL] by (simp_all add: risk_fraction_def sample_policy_def)
  have c: "va_blocker_codes a = []" using ra(3,4) a(2) by (simp add: sorted_set_def)
  define D where "D = decision_of sample_bundle sample_manifest (sample_context 110)
    (sort_key mi_key (valid_indicators sample_bundle (sample_context 110))) GRADE_NORMAL [] a"
  have "wf_v6_decision D" unfolding D_def by (rule sample_decision_checks [OF a(3) p])
  moreover have "evaluate_v6 (replicate 32 7) sample_bundle sample_manifest (sample_context 110) = validated (V6Decision_checks D) D"
    by (rule evaluate_v6_admitted [OF sample_checks sample_admits sample_grade])
      (simp_all add: sample_sized a(1) c D_def)
  moreover have "vd_grade D = GRADE_NORMAL" "vd_calculated_quantity D = 20" by (simp_all add: D_def decision_of_def Let_def a(3))
  ultimately show ?thesis by (auto simp: validated_def wf_v6_decision_def)
qed

lemma sample_admissible: "v6_admissible (sized_request sample_bundle (sample_context target) GRADE_NORMAL) sample_policy"
proof -
  obtain a where a: "evaluate_v6_risk (sample_request\<lparr>rq_grade := GRADE_NORMAL\<rparr>) sample_policy = Inr a" "va_allowed a"
    using sample_evaluated [of GRADE_NORMAL] by auto
  then show ?thesis unfolding sample_sized
    using evaluate_v6_risk_Inr(3) [OF a(1)] risk_blockers_Nil [OF sample_policy_wf] by blast
qed

section \<open>Witnesses\<close>

theorem decision_tradeable_exactly_by_rules_witness:
  "\<exists>d. evaluate_v6 (replicate 32 7) sample_bundle sample_manifest (sample_context 110) = Inr d
     \<and> setup_admits sample_bundle (sample_context 110) \<and> vd_planned_entry d = Some 100 \<and> vd_blockers d = []"
proof -
  obtain d where d: "evaluate_v6 (replicate 32 7) sample_bundle sample_manifest (sample_context 110) = Inr d"
      "vd_grade d = GRADE_NORMAL" using sample_evaluates by blast
  have "wf_policy (vc_policy (sample_context 110))" by (simp add: sample_policy_wf)
  from decision_tradeable_exactly_by_rules [OF d(1) this] d show ?thesis
    by (auto simp: sample_grade sample_sized Let_def) (simp add: sample_request_def)
qed

theorem decision_rests_on_recorded_past_evidence_witness:
  "\<exists>d. evaluate_v6 (replicate 32 7) sample_bundle sample_manifest (sample_context 110) = Inr d
     \<and> vd_generated_at d = 2000000 \<and> vd_completed_evidence_at d \<le> 2000000"
proof -
  obtain d where d: "evaluate_v6 (replicate 32 7) sample_bundle sample_manifest (sample_context 110) = Inr d"
    using sample_evaluates by blast
  from decision_rests_on_recorded_past_evidence [OF this] d show ?thesis by (auto simp: sample_bundle_def)
qed

theorem wrong_side_target_raises_witness:
  "failed (evaluate_v6 (replicate 32 7) sample_bundle sample_manifest (sample_context 90))
   \<and> \<not> failed (evaluate_v6 (replicate 32 7) sample_bundle sample_manifest (sample_context 110))"
proof
  show "failed (evaluate_v6 (replicate 32 7) sample_bundle sample_manifest (sample_context 90))"
  proof (rule wrong_side_target_raises [OF _ sample_admits sample_grade])
    show "\<not> (if rq_side (vc_risk_request (sample_context 90)) = BUY
        then rq_entry_price (vc_risk_request (sample_context 90)) < vc_target_price (sample_context 90)
        else vc_target_price (sample_context 90) < rq_entry_price (vc_risk_request (sample_context 90)))"
      by (simp add: sample_context_def sample_request_def)
  qed (simp_all add: sample_policy_wf sample_admissible)
  show "\<not> failed (evaluate_v6 (replicate 32 7) sample_bundle sample_manifest (sample_context 110))"
    using sample_evaluates by (auto simp: failed_def)
qed

theorem conversion_exactly_of_tradeable_witness:
  "\<exists>d. wf_v6_decision d \<and> (case to_strategy_decision d of Inl _ \<Rightarrow> False | Inr s \<Rightarrow> sd_id s = vd_id d)"
proof -
  obtain d where "vd_grade d = GRADE_NORMAL" "wf_v6_decision d" using sample_evaluates by blast
  with conversion_exactly_of_tradeable [of d] show ?thesis by (intro exI [of _ d]) (auto split: sum.splits)
qed

end
