(* ===== verification/PositionOps.thy ===== *)
theory PositionOps
  imports Engine
begin

text \<open>
  \<^verbatim>\<open>operations/david_v6_position.py\<close>, \<^verbatim>\<open>strategies/david_v6/position_facts.py\<close> and
  \<^verbatim>\<open>apps/trader/position_management.py\<close>: what is done with an open position. A position and the
  market of one pass give a list of actions; a sink applies them. Shown: an exit is the only action of
  its pass and closes everything, no action widens the stop or raises the worst case above what was
  approved, an add or a move to break-even leaves no risk, and telemetry carries no order.
\<close>

section \<open>Records\<close>

datatype V6PositionActionKind =
    ACTIVATE_INITIAL_STOP | ADD_AND_MOVE_STOP | MOVE_STOP_TO_BREAK_EVEN | RECORD_FIB_25 | RECORD_FIB_50_RESEARCH
  | OBSERVE_PARTIAL_1_2R | OBSERVE_PARTIAL_1_5R | EXIT_FULL_FIB_66 | EXIT_FULL_METODO_CROSS_DOWN
  | EXIT_FULL_BLOCKING_BIG_TRADE | EXIT_FULL_SESSION_CLOSE | EMERGENCY_EXIT_FULL

definition kind_value :: "V6PositionActionKind \<Rightarrow> string" where
  "kind_value k =
     (case k of
        ACTIVATE_INITIAL_STOP \<Rightarrow> ''ACTIVATE_INITIAL_STOP''
      | ADD_AND_MOVE_STOP \<Rightarrow> ''ADD_AND_MOVE_STOP''
      | MOVE_STOP_TO_BREAK_EVEN \<Rightarrow> ''MOVE_STOP_TO_BREAK_EVEN''
      | RECORD_FIB_25 \<Rightarrow> ''RECORD_FIB_25''
      | RECORD_FIB_50_RESEARCH \<Rightarrow> ''RECORD_FIB_50_RESEARCH''
      | OBSERVE_PARTIAL_1_2R \<Rightarrow> ''OBSERVE_PARTIAL_1_2R''
      | OBSERVE_PARTIAL_1_5R \<Rightarrow> ''OBSERVE_PARTIAL_1_5R''
      | EXIT_FULL_FIB_66 \<Rightarrow> ''EXIT_FULL_FIB_66''
      | EXIT_FULL_METODO_CROSS_DOWN \<Rightarrow> ''EXIT_FULL_METODO_CROSS_DOWN''
      | EXIT_FULL_BLOCKING_BIG_TRADE \<Rightarrow> ''EXIT_FULL_BLOCKING_BIG_TRADE''
      | EXIT_FULL_SESSION_CLOSE \<Rightarrow> ''EXIT_FULL_SESSION_CLOSE''
      | EMERGENCY_EXIT_FULL \<Rightarrow> ''EMERGENCY_EXIT_FULL'')"

record V6ManagedPosition =
  mp_side :: Side
  mp_initial_entry_price :: decimal
  mp_average_entry_price :: decimal
  mp_initial_quantity :: decimal
  mp_remaining_quantity :: decimal
  mp_initial_stop_price :: decimal
  mp_active_stop_price :: "decimal option"
  mp_initial_stop_active :: bool
  mp_original_approved_risk :: decimal
  mp_current_worst_case_risk :: decimal
  mp_add_count :: int
  mp_break_even_active :: bool
  mp_fib_25_recorded :: bool
  mp_fib_50_recorded :: bool
  mp_shadow_1_2r_recorded :: bool
  mp_shadow_1_5r_recorded :: bool

definition must_be_positive :: "string \<times> decimal \<Rightarrow> bool \<times> py_error" where
  "must_be_positive nv = (snd nv \<le> 0, ValueError (fst nv @ '' must be positive''))"

definition must_not_be_negative :: "string \<times> decimal \<Rightarrow> bool \<times> py_error" where
  "must_not_be_negative nv = (snd nv < 0, ValueError (fst nv @ '' must not be negative''))"

definition V6ManagedPosition_checks :: "V6ManagedPosition \<Rightarrow> checks" where
  "V6ManagedPosition_checks p =
     map must_be_positive
       [(''initial_entry_price'', mp_initial_entry_price p), (''average_entry_price'', mp_average_entry_price p),
        (''initial_quantity'', mp_initial_quantity p), (''remaining_quantity'', mp_remaining_quantity p),
        (''initial_stop_price'', mp_initial_stop_price p)]
     @ map must_not_be_negative
       [(''original_approved_risk'', mp_original_approved_risk p), (''current_worst_case_risk'', mp_current_worst_case_risk p)]
     @ [((case mp_active_stop_price p of None \<Rightarrow> False | Some s \<Rightarrow> s \<le> 0), ValueError ''active_stop_price must be positive''),
        (mp_initial_stop_active p \<noteq> (mp_active_stop_price p \<noteq> None), ValueError ''active stop state and price must agree''),
        (mp_add_count p \<notin> {0, 1}, ValueError ''add_count must be zero or one''),
        (mp_current_worst_case_risk p > mp_original_approved_risk p,
           ValueError ''current risk cannot exceed original approved risk''),
        (mp_side p = BUY \<and> mp_initial_stop_price p \<ge> mp_initial_entry_price p, ValueError ''long initial stop must be below entry''),
        (mp_side p = SELL \<and> mp_initial_stop_price p \<le> mp_initial_entry_price p, ValueError ''short initial stop must be above entry'')]"

record V6PositionFacts =
  pf_current_price :: decimal
  pf_atr_5m :: decimal
  pf_tick_size :: decimal
  pf_actual_entry_fee_per_unit :: decimal
  pf_taker_exit_fee_per_unit :: decimal
  pf_q95_adverse_stop_slippage :: decimal
  pf_slippage_sample_sufficient :: bool
  pf_fib_25_price :: "decimal option"
  pf_fib_50_price :: "decimal option"
  pf_fib_66_price :: "decimal option"
  pf_blocking_big_trade :: bool
  pf_metodo_exit_signal :: bool
  pf_protection_failed :: bool
  pf_must_be_flat :: bool

definition positive_if_present :: "string \<times> decimal option \<Rightarrow> bool \<times> py_error" where
  "positive_if_present nv =
     ((case snd nv of None \<Rightarrow> False | Some x \<Rightarrow> x \<le> 0), ValueError (fst nv @ '' must be positive''))"

definition V6PositionFacts_checks :: "V6PositionFacts \<Rightarrow> checks" where
  "V6PositionFacts_checks f =
     map must_be_positive
       [(''current_price'', pf_current_price f), (''atr_5m'', pf_atr_5m f), (''tick_size'', pf_tick_size f)]
     @ map positive_if_present
       [(''fib_25_price'', pf_fib_25_price f), (''fib_50_price'', pf_fib_50_price f), (''fib_66_price'', pf_fib_66_price f)]
     @ map must_not_be_negative
       [(''actual_entry_fee_per_unit'', pf_actual_entry_fee_per_unit f),
        (''taker_exit_fee_per_unit'', pf_taker_exit_fee_per_unit f),
        (''q95_adverse_stop_slippage'', pf_q95_adverse_stop_slippage f)]"

record V6PositionAction =
  act_kind :: V6PositionActionKind
  act_reason :: string
  act_order_style :: "OrderStyle option"
  act_quantity :: "decimal option"
  act_stop_price :: "decimal option"
  act_average_entry_price :: "decimal option"
  act_resulting_worst_case_risk :: decimal
  act_reduce_only :: bool
  act_telemetry_only :: bool
  act_account_halt :: bool

definition V6PositionAction_checks :: "V6PositionAction \<Rightarrow> checks" where
  "V6PositionAction_checks a =
     [(act_telemetry_only a \<and> (act_order_style a \<noteq> None \<or> act_quantity a \<noteq> None \<or> act_stop_price a \<noteq> None \<or> act_account_halt a),
       ValueError ''a telemetry-only action cannot carry an order'')]"

section \<open>The price rules\<close>

definition favorable_move :: "Side \<Rightarrow> decimal \<Rightarrow> decimal \<Rightarrow> decimal" where
  "favorable_move side entry current = (if side = BUY then dsub current entry else dsub entry current)"

definition reached :: "Side \<Rightarrow> decimal \<Rightarrow> decimal \<Rightarrow> bool" where
  "reached side current target = (if side = BUY then current \<ge> target else current \<le> target)"

definition break_even_offset :: "V6PositionFacts \<Rightarrow> decimal" where
  "break_even_offset f =
     (let raw = dadd (dadd (dadd (pf_actual_entry_fee_per_unit f) (pf_taker_exit_fee_per_unit f)) (pf_q95_adverse_stop_slippage f))
                  (pf_tick_size f)
      in ceil_to_tick raw (pf_tick_size f))"

definition break_even_stop :: "Side \<Rightarrow> decimal \<Rightarrow> V6PositionFacts \<Rightarrow> decimal" where
  "break_even_stop side entry_price f =
     (if side = BUY then dadd entry_price (break_even_offset f) else dsub entry_price (break_even_offset f))"

definition non_widening_stop :: "Side \<Rightarrow> decimal option \<Rightarrow> decimal \<Rightarrow> decimal" where
  "non_widening_stop side current proposed =
     (case current of None \<Rightarrow> proposed | Some c \<Rightarrow> if side = BUY then max c proposed else min c proposed)"

definition worst_case_risk :: "Side \<Rightarrow> decimal \<Rightarrow> decimal \<Rightarrow> decimal \<Rightarrow> decimal" where
  "worst_case_risk side average_entry stop quantity =
     dmul (max (if side = BUY then dsub average_entry stop else dsub stop average_entry) 0) quantity"

section \<open>The actions\<close>

definition telemetry_action :: "V6ManagedPosition \<Rightarrow> V6PositionActionKind \<Rightarrow> V6PositionAction" where
  "telemetry_action p kind =
     \<lparr>act_kind = kind, act_reason = kind_value kind, act_order_style = None, act_quantity = None, act_stop_price = None, act_average_entry_price = None,
      act_resulting_worst_case_risk = mp_current_worst_case_risk p, act_reduce_only = False, act_telemetry_only = True,
      act_account_halt = False\<rparr>"

definition full_exit :: "V6ManagedPosition \<Rightarrow> V6PositionActionKind \<Rightarrow> bool \<Rightarrow> V6PositionAction" where
  "full_exit p kind account_halt =
     \<lparr>act_kind = kind, act_reason = kind_value kind, act_order_style = Some MARKET, act_quantity = Some (mp_remaining_quantity p), act_stop_price = None,
      act_average_entry_price = None, act_resulting_worst_case_risk = 0, act_reduce_only = True, act_telemetry_only = False,
      act_account_halt = account_halt\<rparr>"

definition initial_stop_action :: "V6ManagedPosition \<Rightarrow> V6PositionAction" where
  "initial_stop_action p =
     \<lparr>act_kind = ACTIVATE_INITIAL_STOP, act_reason = ''INITIAL_PROTECTION_REQUIRED'', act_order_style = None, act_quantity = None,
      act_stop_price = Some (mp_initial_stop_price p), act_average_entry_price = Some (mp_average_entry_price p),
      act_resulting_worst_case_risk = mp_current_worst_case_risk p, act_reduce_only = False, act_telemetry_only = False,
      act_account_halt = False\<rparr>"

definition add_threshold :: "V6ManagedPosition \<Rightarrow> V6PositionFacts \<Rightarrow> decimal" where
  "add_threshold p f = max (dmul (mp_initial_entry_price p) (10 / 10000)) (dmul (pf_atr_5m f) (35 / 100))"

definition averaged_entry :: "V6ManagedPosition \<Rightarrow> V6PositionFacts \<Rightarrow> decimal" where
  "averaged_entry p f =
     ddiv (dadd (dmul (mp_average_entry_price p) (mp_remaining_quantity p)) (dmul (pf_current_price f) (mp_initial_quantity p)))
       (dadd (mp_remaining_quantity p) (mp_initial_quantity p))"

definition add_action :: "V6ManagedPosition \<Rightarrow> V6PositionFacts \<Rightarrow> V6PositionAction option" where
  "add_action p f =
     (let favorable = favorable_move (mp_side p) (mp_initial_entry_price p) (pf_current_price f);
          quantity = mp_initial_quantity p;
          total_quantity = dadd (mp_remaining_quantity p) quantity;
          average_entry = averaged_entry p f;
          active_stop = non_widening_stop (mp_side p) (mp_active_stop_price p) (break_even_stop (mp_side p) average_entry f);
          resulting_risk = worst_case_risk (mp_side p) average_entry active_stop total_quantity
      in if mp_add_count p \<noteq> 0 \<or> \<not> pf_slippage_sample_sufficient f then None
         else if favorable < add_threshold p f \<or> favorable \<le> 0 then None
         else if resulting_risk > min (mp_current_worst_case_risk p) (mp_original_approved_risk p) then None
         else Some \<lparr>act_kind = ADD_AND_MOVE_STOP, act_reason = ''ONE_FAVORABLE_ADD_WITH_WEIGHTED_BREAK_EVEN'',
                    act_order_style = Some MARKET, act_quantity = Some quantity,
                    act_stop_price = Some active_stop, act_average_entry_price = Some average_entry,
                    act_resulting_worst_case_risk = resulting_risk, act_reduce_only = False, act_telemetry_only = False,
                    act_account_halt = False\<rparr>)"

definition initial_r :: "V6ManagedPosition \<Rightarrow> decimal" where
  "initial_r p = dabs (dsub (mp_initial_entry_price p) (mp_initial_stop_price p))"

definition break_even_action :: "V6ManagedPosition \<Rightarrow> V6PositionFacts \<Rightarrow> V6PositionAction option" where
  "break_even_action p f =
     (let favorable = favorable_move (mp_side p) (mp_initial_entry_price p) (pf_current_price f);
          active_stop = non_widening_stop (mp_side p) (mp_active_stop_price p)
            (break_even_stop (mp_side p) (mp_average_entry_price p) f);
          resulting_risk = worst_case_risk (mp_side p) (mp_average_entry_price p) active_stop (mp_remaining_quantity p)
      in if mp_break_even_active p \<or> \<not> pf_slippage_sample_sufficient f then None
         else if favorable < dmul (initial_r p) (30 / 100) then None
         else Some \<lparr>act_kind = MOVE_STOP_TO_BREAK_EVEN, act_reason = ''GENERAL_BREAK_EVEN_AT_0_30R'',
                    act_order_style = None, act_quantity = None,
                    act_stop_price = Some active_stop, act_average_entry_price = Some (mp_average_entry_price p),
                    act_resulting_worst_case_risk = resulting_risk, act_reduce_only = False, act_telemetry_only = False,
                    act_account_halt = False\<rparr>)"

text \<open>The list of telemetry actions, one conditional each.\<close>

definition level_reached :: "V6ManagedPosition \<Rightarrow> V6PositionFacts \<Rightarrow> decimal option \<Rightarrow> bool" where
  "level_reached p f level = (case level of None \<Rightarrow> False | Some x \<Rightarrow> reached (mp_side p) (pf_current_price f) x)"

definition telemetry_actions :: "V6ManagedPosition \<Rightarrow> V6PositionFacts \<Rightarrow> RuntimeMode \<Rightarrow> V6PositionAction list" where
  "telemetry_actions p f mode =
     (let favorable = favorable_move (mp_side p) (mp_initial_entry_price p) (pf_current_price f)
      in (if \<not> mp_fib_25_recorded p \<and> level_reached p f (pf_fib_25_price f) then [telemetry_action p RECORD_FIB_25] else [])
         @ (if \<not> mp_fib_50_recorded p \<and> level_reached p f (pf_fib_50_price f) then [telemetry_action p RECORD_FIB_50_RESEARCH] else [])
         @ (if mode = SHADOW_MODE \<and> \<not> mp_shadow_1_2r_recorded p \<and> favorable \<ge> dmul (initial_r p) (12 / 10)
            then [telemetry_action p OBSERVE_PARTIAL_1_2R] else [])
         @ (if mode = SHADOW_MODE \<and> \<not> mp_shadow_1_5r_recorded p \<and> favorable \<ge> dmul (initial_r p) (15 / 10)
            then [telemetry_action p OBSERVE_PARTIAL_1_5R] else []))"

definition managed_actions :: "V6ManagedPosition \<Rightarrow> V6PositionFacts \<Rightarrow> RuntimeMode \<Rightarrow> V6PositionAction list" where
  "managed_actions p f mode =
     (if pf_protection_failed f then [full_exit p EMERGENCY_EXIT_FULL True]
      else if pf_must_be_flat f then [full_exit p EXIT_FULL_SESSION_CLOSE False]
      else if pf_blocking_big_trade f then [full_exit p EXIT_FULL_BLOCKING_BIG_TRADE False]
      else if pf_metodo_exit_signal f then [full_exit p EXIT_FULL_METODO_CROSS_DOWN False]
      else if level_reached p f (pf_fib_66_price f) then [full_exit p EXIT_FULL_FIB_66 False]
      else if \<not> mp_initial_stop_active p then [initial_stop_action p]
      else case add_action p f of
             Some a \<Rightarrow> [a]
           | None \<Rightarrow> (case break_even_action p f of None \<Rightarrow> [] | Some a \<Rightarrow> [a]) @ telemetry_actions p f mode)"

definition manage_v6_position :: "V6ManagedPosition \<Rightarrow> V6PositionFacts \<Rightarrow> RuntimeMode \<Rightarrow> V6PositionAction list result" where
  "manage_v6_position p f mode =
     and_then (validated (V6ManagedPosition_checks p) ()) (\<lambda>_.
     and_then (validated (V6PositionFacts_checks f) ()) (\<lambda>_.
       validated (concat (map V6PositionAction_checks (managed_actions p f mode))) (managed_actions p f mode)))"

section \<open>The facts of a pass\<close>

definition blocking_trade :: "V6EvidenceBundle \<Rightarrow> Side \<Rightarrow> decimal \<Rightarrow> bool result" where
  "blocking_trade b side price =
     (if ei_state (eb_order_flow b) \<noteq> AVAILABLE then Inr False
      else case ei_value (eb_order_flow b) of
             Some (FOrderFlow flow) \<Rightarrow>
               (case blocking_big_trade_ahead flow side price of Inl BigTradesUnmeasured \<Rightarrow> Inr False | r \<Rightarrow> r)
           | _ \<Rightarrow> Inr False)"

definition session_must_be_flat :: "V6EvidenceBundle \<Rightarrow> bool" where
  "session_must_be_flat b =
     (if ei_state (eb_session b) \<noteq> AVAILABLE then False
      else case ei_value (eb_session b) of Some (FSession s) \<Rightarrow> sf_must_be_flat s | _ \<Rightarrow> False)"

definition metodo_exit :: "V6EvidenceBundle \<Rightarrow> Side \<Rightarrow> bool" where
  "metodo_exit b side =
     (if ei_state (eb_metodo b) \<noteq> AVAILABLE then False
      else case ei_value (eb_metodo b) of
             Some (FMetodo m) \<Rightarrow> if side = BUY then mf_sma_6_70_cross_down m else mf_sma_6_70_cross_up m
           | _ \<Rightarrow> False)"

definition zero_if_none :: "decimal option \<Rightarrow> decimal" where
  "zero_if_none v = (case v of None \<Rightarrow> 0 | Some x \<Rightarrow> x)"

definition position_facts ::
  "V6EvidenceBundle \<Rightarrow> Side \<Rightarrow> HlitSetup option \<Rightarrow> decimal \<Rightarrow> decimal \<Rightarrow> decimal \<Rightarrow> FeeSchedule \<Rightarrow> decimal option \<Rightarrow> bool
   \<Rightarrow> V6PositionFacts result" where
  "position_facts b side setup current_price atr_5m tick_size fees slippage protection_failed =
     and_then (blocking_trade b side current_price) (\<lambda>blocking.
       let f = \<lparr>pf_current_price = current_price, pf_atr_5m = atr_5m, pf_tick_size = tick_size,
                pf_actual_entry_fee_per_unit = zero_if_none (fs_entry_fee_per_unit fees),
                pf_taker_exit_fee_per_unit = zero_if_none (fs_exit_taker_fee_per_unit fees),
                pf_q95_adverse_stop_slippage = zero_if_none slippage, pf_slippage_sample_sufficient = (slippage \<noteq> None),
                pf_fib_25_price = map_option hs_fib_25 setup, pf_fib_50_price = map_option hs_fib_50 setup,
                pf_fib_66_price = map_option hs_fib_66 setup, pf_blocking_big_trade = blocking,
                pf_metodo_exit_signal = metodo_exit b side, pf_protection_failed = protection_failed,
                pf_must_be_flat = session_must_be_flat b\<rparr>
       in validated (V6PositionFacts_checks f) f)"

section \<open>The manager\<close>

record PositionMarket =
  pm_bundle :: V6EvidenceBundle
  pm_hlit :: "HlitFacts option"
  pm_current_price :: decimal
  pm_atr_5m :: decimal
  pm_tick_size :: decimal
  pm_fee_schedule :: FeeSchedule
  pm_stop_slippage_q95 :: "decimal option"

text \<open>The actions are applied in order; the first that raises ends the pass with its error.\<close>

fun apply_actions :: "(V6PositionAction \<Rightarrow> 's \<Rightarrow> 's result) \<Rightarrow> V6PositionAction list \<Rightarrow> 's \<Rightarrow> 's result" where
  "apply_actions apply_one [] s = Inr s"
| "apply_actions apply_one (a # as) s = and_then (apply_one a s) (apply_actions apply_one as)"

text \<open>\<^verbatim>\<open>V6PositionManager.manage\<close>: the state of the sink, the counter \<^verbatim>\<open>managed\<close> and whether anything was
  done. The open position and the state of its protection are read from the two collaborators.\<close>

definition manage ::
  "(V6PositionAction \<Rightarrow> 's \<Rightarrow> 's result) \<Rightarrow> V6ManagedPosition option \<Rightarrow> bool \<Rightarrow> RuntimeMode \<Rightarrow> PositionMarket
   \<Rightarrow> 's \<times> nat \<Rightarrow> (('s \<times> nat) \<times> bool) result" where
  "manage apply_one held protection_failed mode market sm =
     (case held of
        None \<Rightarrow> Inr (sm, False)
      | Some p \<Rightarrow>
          and_then (position_facts (pm_bundle market) (mp_side p)
              (case pm_hlit market of None \<Rightarrow> None | Some h \<Rightarrow> for_side h (mp_side p))
              (pm_current_price market) (pm_atr_5m market) (pm_tick_size market) (pm_fee_schedule market)
              (pm_stop_slippage_q95 market) protection_failed) (\<lambda>facts.
          and_then (manage_v6_position p facts mode) (\<lambda>actions.
          and_then (apply_actions apply_one actions (fst sm)) (\<lambda>s.
            Inr ((s, snd sm + length actions), actions \<noteq> [])))))"

text \<open>\<^verbatim>\<open>RefusingPositionActions\<close>: the marks recorded on the position and its two counters.\<close>

record RefusingSink =
  rs_marks :: "V6PositionActionKind list"
  rs_recorded :: nat
  rs_refused :: nat

definition refusing_apply :: "V6PositionAction \<Rightarrow> RefusingSink \<Rightarrow> RefusingSink result" where
  "refusing_apply a s =
     (if act_telemetry_only a then Inr (s\<lparr>rs_marks := act_kind a # rs_marks s, rs_recorded := rs_recorded s + 1\<rparr>)
      else Inr (s\<lparr>rs_refused := rs_refused s + 1\<rparr>))"

section \<open>What the actions are\<close>

lemma manage_Inr:
  assumes "manage_v6_position p f mode = Inr acts"
  shows "acts = managed_actions p f mode" "first_error (V6ManagedPosition_checks p) = None"
    "first_error (V6PositionFacts_checks f) = None"
  using assms by (auto simp: manage_v6_position_def and_then_eq_Inr_iff validated_def split: option.splits)

definition exit_due :: "V6ManagedPosition \<Rightarrow> V6PositionFacts \<Rightarrow> V6PositionActionKind option" where
  "exit_due p f =
     (if pf_protection_failed f then Some EMERGENCY_EXIT_FULL
      else if pf_must_be_flat f then Some EXIT_FULL_SESSION_CLOSE
      else if pf_blocking_big_trade f then Some EXIT_FULL_BLOCKING_BIG_TRADE
      else if pf_metodo_exit_signal f then Some EXIT_FULL_METODO_CROSS_DOWN
      else if level_reached p f (pf_fib_66_price f) then Some EXIT_FULL_FIB_66
      else None)"

lemma managed_exit:
  "managed_actions p f mode =
     (case exit_due p f of
        Some k \<Rightarrow> [full_exit p k (pf_protection_failed f)]
      | None \<Rightarrow> if \<not> mp_initial_stop_active p then [initial_stop_action p]
          else case add_action p f of
             Some a \<Rightarrow> [a]
           | None \<Rightarrow> (case break_even_action p f of None \<Rightarrow> [] | Some a \<Rightarrow> [a]) @ telemetry_actions p f mode)"
  by (simp add: managed_actions_def exit_due_def)

definition TELEMETRY_KINDS :: "V6PositionActionKind list" where
  "TELEMETRY_KINDS = [RECORD_FIB_25, RECORD_FIB_50_RESEARCH, OBSERVE_PARTIAL_1_2R, OBSERVE_PARTIAL_1_5R]"

text \<open>The five forms of an action.\<close>

lemma managed_action_cases:
  assumes "a \<in> set (managed_actions p f mode)"
  shows "(\<exists>k. exit_due p f = Some k \<and> a = full_exit p k (pf_protection_failed f))
    \<or> (exit_due p f = None \<and> \<not> mp_initial_stop_active p \<and> a = initial_stop_action p)
    \<or> (exit_due p f = None \<and> mp_initial_stop_active p
        \<and> (add_action p f = Some a \<or> break_even_action p f = Some a \<or> (\<exists>k \<in> set TELEMETRY_KINDS. a = telemetry_action p k)))"
  using assms by (auto simp: managed_exit TELEMETRY_KINDS_def telemetry_actions_def Let_def split: option.splits if_splits)

lemma facts_valid:
  assumes "first_error (V6PositionFacts_checks f) = None"
  shows "0 < pf_tick_size f" "0 < pf_current_price f" "0 \<le> pf_actual_entry_fee_per_unit f" "0 \<le> pf_taker_exit_fee_per_unit f"
    "0 \<le> pf_q95_adverse_stop_slippage f"
  using assms by (auto simp: V6PositionFacts_checks_def must_be_positive_def must_not_be_negative_def positive_if_present_def
      split: if_splits)

lemma position_valid:
  assumes "first_error (V6ManagedPosition_checks p) = None"
  shows "mp_initial_stop_active p \<longleftrightarrow> mp_active_stop_price p \<noteq> None" "0 \<le> mp_current_worst_case_risk p"
    "mp_current_worst_case_risk p \<le> mp_original_approved_risk p"
  using assms by (auto simp: V6ManagedPosition_checks_def must_be_positive_def must_not_be_negative_def split: if_splits)

lemma ceil_to_tick_nonneg:
  assumes "0 \<le> x" "0 < tick"
  shows "0 \<le> ceil_to_tick x tick"
proof -
  have "0 \<le> ddiv x tick" using assms by (simp add: ddiv_def)
  then have "0 \<le> \<lceil>ddiv x tick\<rceil>" by linarith
  then show ?thesis using assms(2) by (simp add: ceil_to_tick_def dmul_def)
qed

lemma break_even_offset_nonneg: "first_error (V6PositionFacts_checks f) = None \<Longrightarrow> 0 \<le> break_even_offset f"
  unfolding break_even_offset_def Let_def
  using facts_valid [of f] by (intro ceil_to_tick_nonneg) (simp_all add: dadd_def)

text \<open>The break-even stop is at the entry or beyond it, on the profitable side.\<close>

lemma break_even_stop_beyond:
  assumes "first_error (V6PositionFacts_checks f) = None" "rnd e = e"
  shows "if side = BUY then e \<le> break_even_stop side e f else break_even_stop side e f \<le> e"
  using break_even_offset_nonneg [OF assms(1)] assms(2)
  by (auto simp: break_even_stop_def dadd_def dsub_def intro: rnd_ge rnd_le)

lemma non_widening:
  "non_widening_stop side (Some c) s = (if side = BUY then max c s else min c s)"
  "if side = BUY then s \<le> non_widening_stop side cur s else non_widening_stop side cur s \<le> s"
  by (auto simp: non_widening_stop_def split: option.splits)

lemma no_risk_beyond_entry:
  assumes "if side = BUY then e \<le> s else s \<le> e"
  shows "worst_case_risk side e s q = 0"
  using assms by (auto simp: worst_case_risk_def dsub_def dmul_def max_def split: if_splits)

lemma break_even_no_risk:
  assumes "first_error (V6PositionFacts_checks f) = None" "rnd e = e"
  shows "worst_case_risk side e (non_widening_stop side cur (break_even_stop side e f)) q = 0"
proof (rule no_risk_beyond_entry)
  show "if side = BUY then e \<le> non_widening_stop side cur (break_even_stop side e f)
      else non_widening_stop side cur (break_even_stop side e f) \<le> e"
    using break_even_stop_beyond [OF assms, of side] non_widening(2) [of side "break_even_stop side e f" cur]
    by (auto split: if_splits)
qed

lemma add_action_Some:
  assumes "add_action p f = Some a"
  shows "act_kind a = ADD_AND_MOVE_STOP" "act_average_entry_price a = Some (averaged_entry p f)" "\<not> act_reduce_only a"
    "act_stop_price a = Some (non_widening_stop (mp_side p) (mp_active_stop_price p) (break_even_stop (mp_side p) (averaged_entry p f) f))"
    "act_resulting_worst_case_risk a = worst_case_risk (mp_side p) (averaged_entry p f)
       (non_widening_stop (mp_side p) (mp_active_stop_price p) (break_even_stop (mp_side p) (averaged_entry p f) f))
       (dadd (mp_remaining_quantity p) (mp_initial_quantity p))"
    "\<not> act_telemetry_only a" "\<not> act_account_halt a"
  using assms by (auto simp: add_action_def Let_def split: if_splits)

lemma break_even_action_Some:
  assumes "break_even_action p f = Some a"
  shows "act_kind a = MOVE_STOP_TO_BREAK_EVEN" "act_average_entry_price a = Some (mp_average_entry_price p)" "\<not> act_reduce_only a"
    "act_stop_price a = Some (non_widening_stop (mp_side p) (mp_active_stop_price p) (break_even_stop (mp_side p) (mp_average_entry_price p) f))"
    "act_resulting_worst_case_risk a = worst_case_risk (mp_side p) (mp_average_entry_price p)
       (non_widening_stop (mp_side p) (mp_active_stop_price p) (break_even_stop (mp_side p) (mp_average_entry_price p) f))
       (mp_remaining_quantity p)"
    "\<not> act_telemetry_only a" "\<not> act_account_halt a"
  using assms by (auto simp: break_even_action_def Let_def split: if_splits)

section \<open>The interface of a sink\<close>

text \<open>What the manager needs of a sink: an action that is applied is counted exactly once.\<close>

locale action_sink =
  fixes apply_one :: "V6PositionAction \<Rightarrow> 's \<Rightarrow> 's result" and counted :: "'s \<Rightarrow> nat"
  assumes counts: "apply_one a s = Inr t \<Longrightarrow> counted t = counted s + 1"
begin

lemma apply_counts: "apply_actions apply_one xs s = Inr t \<Longrightarrow> counted t = counted s + length xs"
  by (induction xs arbitrary: s) (auto simp: and_then_eq_Inr_iff dest: counts)

lemma manage_counts:
  assumes "manage apply_one held broken mode market (s, n) = Inr ((t, m), acted)"
  shows "counted t + n = counted s + m" "acted \<longleftrightarrow> n < m"
  using assms by (auto simp: manage_def and_then_eq_Inr_iff dest!: apply_counts split: option.splits)

end

lemma refusing_apply_counts:
  "refusing_apply a s = Inr t \<Longrightarrow> rs_recorded t + rs_refused t = rs_recorded s + rs_refused s + 1"
  by (auto simp: refusing_apply_def split: if_splits)

interpretation refusing: action_sink refusing_apply "\<lambda>s. rs_recorded s + rs_refused s"
  by unfold_locales (rule refusing_apply_counts)

lemma refusing_marks:
  assumes "apply_actions refusing_apply xs s = Inr t"
  shows "set (rs_marks t) = set (rs_marks s) \<union> act_kind ` {a \<in> set xs. act_telemetry_only a}"
  using assms by (induction xs arbitrary: s) (auto simp: and_then_eq_Inr_iff refusing_apply_def split: if_splits)

lemma telemetry_kinds:
  assumes "manage_v6_position p f mode = Inr acts" "a \<in> set acts" "act_telemetry_only a"
  shows "act_kind a \<in> set TELEMETRY_KINDS"
  using managed_action_cases [of a p f mode] assms(2,3) manage_Inr(1) [OF assms(1)]
    add_action_Some(6) [of p f a] break_even_action_Some(6) [of p f a]
  by (auto simp: full_exit_def initial_stop_action_def telemetry_action_def)

lemma refusing_apply_total: "\<exists>t. apply_actions refusing_apply xs s = Inr t"
  by (induction xs arbitrary: s) (auto simp: and_then_def refusing_apply_def)

section \<open>Properties\<close>

text \<open>C9: an exit comes first, comes alone and closes everything. A pass that must get out (a failed
  protection, a session that must be flat, an opposing big trade, an exit cross, the target) yields
  exactly one action, of the kind the first of these reasons in that order names, a reduce-only market
  order for the whole remaining quantity that halts the account only when protection failed; a pass
  with none of these reasons closes nothing and halts nothing.\<close>

theorem exit_is_first_alone_and_full:
  assumes "manage_v6_position p f mode = Inr acts"
  shows "case exit_due p f of
      Some k \<Rightarrow> (\<exists>a. acts = [a] \<and> act_kind a = k \<and> act_order_style a = Some MARKET \<and> act_reduce_only a
                   \<and> act_quantity a = Some (mp_remaining_quantity p) \<and> (act_account_halt a \<longleftrightarrow> pf_protection_failed f))
    | None \<Rightarrow> list_all (\<lambda>a. \<not> act_reduce_only a \<and> \<not> act_account_halt a) acts"
proof (cases "exit_due p f")
  case None
  have "\<not> act_reduce_only a \<and> \<not> act_account_halt a" if "a \<in> set acts" for a
    using managed_action_cases [of a p f mode] that manage_Inr(1) [OF assms] None
      add_action_Some(3,7) [of p f a] break_even_action_Some(3,7) [of p f a]
    by (auto simp: initial_stop_action_def telemetry_action_def)
  then show ?thesis by (simp add: None list_all_iff)
next
  case (Some k)
  then show ?thesis using manage_Inr(1) [OF assms] by (simp add: managed_exit full_exit_def)
qed

text \<open>C8: no action widens the stop. Whatever the pass decides, a stop price that goes with it is never
  behind the stop that is working: not lower for a long position, not higher for a short one.\<close>

theorem managed_stop_never_widens:
  assumes "manage_v6_position p f mode = Inr acts" and "a \<in> set acts"
    and "act_stop_price a = Some s" and "mp_active_stop_price p = Some c"
  shows "if mp_side p = BUY then c \<le> s else s \<le> c"
  using managed_action_cases [of a p f mode] assms(2-4) manage_Inr [OF assms(1)]
    add_action_Some(4) [of p f a] break_even_action_Some(4) [of p f a] position_valid(1) [of p]
  by (auto simp: full_exit_def initial_stop_action_def telemetry_action_def non_widening(1))

text \<open>C7: no action raises the worst case above what was approved, and an add or a move to break-even leaves
  none. For a position whose average entry is an exact 28-digit decimal, the worst case after any
  action is at most the current one and so at most the approved one; after the one favourable add and
  after the move to break-even it is zero, whatever the size.\<close>

theorem managed_risk_never_grows:
  assumes "manage_v6_position p f mode = Inr acts" and "a \<in> set acts" and "rnd (mp_average_entry_price p) = mp_average_entry_price p"
  shows "act_resulting_worst_case_risk a \<le> mp_current_worst_case_risk p
    \<and> mp_current_worst_case_risk p \<le> mp_original_approved_risk p
    \<and> (act_kind a \<notin> {ADD_AND_MOVE_STOP, MOVE_STOP_TO_BREAK_EVEN} \<or> act_resulting_worst_case_risk a = 0)"
proof -
  note m = manage_Inr [OF assms(1)] and v = position_valid [OF manage_Inr(2) [OF assms(1)]]
  have avg: "rnd (averaged_entry p f) = averaged_entry p f" by (simp add: averaged_entry_def ddiv_def)
  have "act_resulting_worst_case_risk a = 0 \<or> act_resulting_worst_case_risk a = mp_current_worst_case_risk p
      \<and> act_kind a \<notin> {ADD_AND_MOVE_STOP, MOVE_STOP_TO_BREAK_EVEN}"
    using managed_action_cases [OF assms(2) [unfolded m(1)]]
  proof (elim disjE conjE exE)
    assume "add_action p f = Some a"
    then show ?thesis using break_even_no_risk [OF m(3) avg] add_action_Some(5) by metis
  next
    assume "break_even_action p f = Some a"
    then show ?thesis using break_even_no_risk [OF m(3) assms(3)] break_even_action_Some(5) by metis
  qed (auto simp: full_exit_def initial_stop_action_def telemetry_action_def TELEMETRY_KINDS_def)
  then show ?thesis using v(2,3) by auto
qed

text \<open>A run that may not trade refuses every order and records every observation. Through the refusing
  sink a pass counts each decided action exactly once, as recorded or as refused, tells its caller
  that something was done exactly when there was an action, and marks nothing on the position but
  the four telemetry kinds.\<close>

theorem refusing_sink_accounts_for_every_action:
  assumes "manage refusing_apply held broken mode market (s, n) = Inr ((t, m), acted)"
  shows "rs_recorded t + rs_refused t + n = rs_recorded s + rs_refused s + m \<and> (acted \<longleftrightarrow> n < m)
    \<and> set (rs_marks s) \<subseteq> set (rs_marks t) \<and> set (rs_marks t) \<subseteq> set (rs_marks s) \<union> set TELEMETRY_KINDS"
proof -
  have "set (rs_marks s) \<subseteq> set (rs_marks t) \<and> set (rs_marks t) \<subseteq> set (rs_marks s) \<union> set TELEMETRY_KINDS"
  proof (cases held)
    case None
    then show ?thesis using assms by (auto simp: manage_def)
  next
    case (Some p)
    then obtain f acts where f: "manage_v6_position p f mode = Inr acts" and a: "apply_actions refusing_apply acts s = Inr t"
      using assms by (auto simp: manage_def and_then_eq_Inr_iff)
    then show ?thesis using refusing_marks [OF a] telemetry_kinds [OF f] by auto
  qed
  then show ?thesis using refusing.manage_counts [OF assms] by simp
qed

text \<open>The stop of an add or of a move to break-even can be past the market. For a long position the stop of
  such an action is at least the averaged entry plus the costs of the round trip; when these costs
  exceed the move the action was taken on, the sell stop it asks for is above the current price, and
  nothing in the manager refuses it.\<close>

theorem break_even_stop_past_market:
  assumes "manage_v6_position p f mode = Inr acts" and "a \<in> set acts" and "mp_side p = BUY"
    and "act_kind a \<in> {ADD_AND_MOVE_STOP, MOVE_STOP_TO_BREAK_EVEN}" and "act_average_entry_price a = Some e"
    and "pf_current_price f < dadd e (break_even_offset f)"
  shows "case act_stop_price a of None \<Rightarrow> False | Some s \<Rightarrow> pf_current_price f < s"
proof -
  have s: "add_action p f = Some a \<or> break_even_action p f = Some a"
    using managed_action_cases [of a p f mode] assms(2,4,5) manage_Inr(1) [OF assms(1)]
    by (auto simp: initial_stop_action_def telemetry_action_def full_exit_def)
  then have "act_stop_price a = Some (non_widening_stop BUY (mp_active_stop_price p) (dadd e (break_even_offset f)))"
    using add_action_Some(2,4) [of p f a] break_even_action_Some(2,4) [of p f a] assms(3,5)
    by (auto simp: break_even_stop_def)
  then show ?thesis
    using non_widening(2) [of BUY "dadd e (break_even_offset f)" "mp_active_stop_price p"] assms(6) by simp
qed

section \<open>Witnesses\<close>

definition sample_position :: V6ManagedPosition where
  "sample_position =
     \<lparr>mp_side = BUY, mp_initial_entry_price = 100, mp_average_entry_price = 100, mp_initial_quantity = 1, mp_remaining_quantity = 1,
      mp_initial_stop_price = 199 / 2, mp_active_stop_price = Some (199 / 2), mp_initial_stop_active = True,
      mp_original_approved_risk = 1, mp_current_worst_case_risk = 1 / 2, mp_add_count = 1, mp_break_even_active = False,
      mp_fib_25_recorded = False, mp_fib_50_recorded = False, mp_shadow_1_2r_recorded = False, mp_shadow_1_5r_recorded = False\<rparr>"

definition sample_market_facts :: V6PositionFacts where
  "sample_market_facts =
     \<lparr>pf_current_price = 501 / 5, pf_atr_5m = 1, pf_tick_size = 1 / 10, pf_actual_entry_fee_per_unit = 1 / 25,
      pf_taker_exit_fee_per_unit = 1 / 20, pf_q95_adverse_stop_slippage = 1 / 10, pf_slippage_sample_sufficient = True,
      pf_fib_25_price = None, pf_fib_50_price = None, pf_fib_66_price = None, pf_blocking_big_trade = False,
      pf_metodo_exit_signal = False, pf_protection_failed = False, pf_must_be_flat = False\<rparr>"

definition sample_move :: V6PositionAction where
  "sample_move =
     \<lparr>act_kind = MOVE_STOP_TO_BREAK_EVEN, act_reason = ''GENERAL_BREAK_EVEN_AT_0_30R'', act_order_style = None,
      act_quantity = None, act_stop_price = Some (1003 / 10), act_average_entry_price = Some 100,
      act_resulting_worst_case_risk = 0, act_reduce_only = False, act_telemetry_only = False, act_account_halt = False\<rparr>"

lemma sample_offset: "break_even_offset sample_market_facts = 3 / 10"
proof -
  have raw: "dadd (dadd (dadd (1 / 25) (1 / 20)) (1 / 10)) (1 / 10) = 29 / 100"
    by (simp add: dadd_def rnd_short [of "9 / 100" 90] rnd_short [of "19 / 100" 190] rnd_short [of "29 / 100" 290])
  have "\<lceil>29 / 10 :: rat\<rceil> = 3" by code_simp
  then have c: "ceil_to_tick (29 / 100) (1 / 10) = 3 / 10"
    by (simp add: ceil_to_tick_def ddiv_def dmul_def rnd_short [of "29 / 10" 2900] rnd_short [of "3 / 10" 300])
  show ?thesis by (simp only: break_even_offset_def sample_market_facts_def V6PositionFacts.simps Let_def raw c)
qed

lemma sample_break_even: "break_even_action sample_position sample_market_facts = Some sample_move"
  by (simp add: break_even_action_def break_even_stop_def sample_offset)
    (simp add: favorable_move_def initial_r_def non_widening_stop_def worst_case_risk_def dec_ops sample_position_def
      sample_market_facts_def sample_move_def rnd_short [of "1 / 5" 200] rnd_short [of "1 / 2" 500] rnd_short [of "3 / 20" 150]
      rnd_short [of "1003 / 10" 100300] rnd_short [of "- (3 / 10)" "- 300"])

lemma sample_telemetry: "telemetry_actions sample_position sample_market_facts PAPER_MODE = []"
  by (simp add: telemetry_actions_def level_reached_def sample_market_facts_def)

lemma sample_valid:
  "first_error (V6ManagedPosition_checks sample_position) = None" "first_error (V6PositionFacts_checks sample_market_facts) = None"
  by code_simp+

lemma sample_managed:
  "manage_v6_position sample_position sample_market_facts PAPER_MODE
   = Inr [sample_move]"
proof -
  have "exit_due sample_position sample_market_facts = None" "add_action sample_position sample_market_facts = None"
    "mp_initial_stop_active sample_position"
    by (simp_all add: exit_due_def level_reached_def add_action_def sample_position_def sample_market_facts_def)
  then have "managed_actions sample_position sample_market_facts PAPER_MODE = [sample_move]"
    by (simp add: managed_exit sample_break_even sample_telemetry)
  then show ?thesis
    by (simp add: manage_v6_position_def validated_def and_then_def sample_valid V6PositionAction_checks_def sample_move_def)
qed

lemma sample_average: "rnd (mp_average_entry_price sample_position) = mp_average_entry_price sample_position"
  by code_simp

theorem exit_is_first_alone_and_full_witness:
  "case manage_v6_position sample_position (sample_market_facts\<lparr>pf_must_be_flat := True\<rparr>) LIVE_MODE of
     Inl _ \<Rightarrow> False
   | Inr acts \<Rightarrow> (case exit_due sample_position (sample_market_facts\<lparr>pf_must_be_flat := True\<rparr>) of
       None \<Rightarrow> False
     | Some k \<Rightarrow> k = EXIT_FULL_SESSION_CLOSE \<and> (\<exists>a. acts = [a] \<and> act_kind a = k \<and> act_quantity a = Some 1))"
proof -
  let ?f = "sample_market_facts\<lparr>pf_must_be_flat := True\<rparr>"
  have m: "manage_v6_position sample_position ?f LIVE_MODE = Inr [full_exit sample_position EXIT_FULL_SESSION_CLOSE False]"
    by code_simp
  have k: "exit_due sample_position ?f = Some EXIT_FULL_SESSION_CLOSE" by code_simp
  from exit_is_first_alone_and_full [OF m, unfolded k] show ?thesis
    unfolding m k sum.case option.case by (simp add: full_exit_def) (simp add: sample_position_def)
qed

theorem managed_stop_never_widens_witness:
  "manage_v6_position sample_position sample_market_facts PAPER_MODE
     = Inr [sample_move] \<and> (199 / 2 :: rat) \<le> 1003 / 10"
  using managed_stop_never_widens [OF sample_managed, of sample_move "1003 / 10" "199 / 2"] sample_managed
  by (simp add: sample_move_def sample_position_def)

theorem managed_risk_never_grows_witness:
  "manage_v6_position sample_position sample_market_facts PAPER_MODE
     = Inr [sample_move]
   \<and> act_resulting_worst_case_risk sample_move = 0 \<and> mp_current_worst_case_risk sample_position = 1 / 2"
  using managed_risk_never_grows [OF sample_managed, of sample_move] sample_average sample_managed
  by (simp add: sample_move_def) (simp add: sample_position_def)

definition sample_sink :: RefusingSink where
  "sample_sink = \<lparr>rs_marks = [], rs_recorded = 0, rs_refused = 0\<rparr>"

definition sample_pass :: PositionMarket where
  "sample_pass =
     \<lparr>pm_bundle = sample_bundle, pm_hlit = None, pm_current_price = 501 / 5, pm_atr_5m = 1, pm_tick_size = 1 / 10,
      pm_fee_schedule = \<lparr>fs_entry_fee_per_unit = Some (1 / 25), fs_exit_taker_fee_per_unit = Some (1 / 20)\<rparr>,
      pm_stop_slippage_q95 = Some (1 / 10)\<rparr>"

theorem refusing_sink_accounts_for_every_action_witness:
  "\<exists>t. manage refusing_apply (Some sample_position) False PAPER_MODE sample_pass (sample_sink, 0) = Inr ((t, 1), True)
   \<and> rs_recorded t + rs_refused t = 1 \<and> set (rs_marks t) \<subseteq> set TELEMETRY_KINDS"
proof -
  have flow: "blocking_trade sample_bundle BUY (501 / 5) = Inr False" by code_simp
  have rest: "metodo_exit sample_bundle BUY = False" "session_must_be_flat sample_bundle = False" by code_simp+
  have side: "mp_side sample_position = BUY" by (simp add: sample_position_def)
  have facts: "position_facts sample_bundle BUY None (501 / 5) 1 (1 / 10)
      \<lparr>fs_entry_fee_per_unit = Some (1 / 25), fs_exit_taker_fee_per_unit = Some (1 / 20)\<rparr> (Some (1 / 10)) False
      = Inr sample_market_facts"
    by (simp add: position_facts_def flow rest and_then_def validated_def zero_if_none_def V6PositionFacts_checks_def
        must_be_positive_def must_not_be_negative_def positive_if_present_def sample_market_facts_def)
  obtain t where t: "apply_actions refusing_apply [sample_move] sample_sink = Inr t" using refusing_apply_total by blast
  have m: "manage refusing_apply (Some sample_position) False PAPER_MODE sample_pass (sample_sink, 0) = Inr ((t, 1), True)"
    by (simp add: manage_def sample_pass_def side facts and_then_def sample_managed t del: apply_actions.simps)
  from refusing_sink_accounts_for_every_action [OF this] m show ?thesis by (auto simp: sample_sink_def)
qed

theorem break_even_stop_past_market_witness:
  "manage_v6_position sample_position sample_market_facts PAPER_MODE
     = Inr [sample_move]
   \<and> act_stop_price sample_move = Some (1003 / 10) \<and> pf_current_price sample_market_facts < 1003 / 10"
proof -
  have c: "pf_current_price sample_market_facts < dadd 100 (break_even_offset sample_market_facts)" by code_simp
  have "mp_side sample_position = BUY" "act_kind sample_move = MOVE_STOP_TO_BREAK_EVEN" "act_average_entry_price sample_move = Some 100"
    "act_stop_price sample_move = Some (1003 / 10)"
    by (simp_all add: sample_position_def sample_move_def)
  then show ?thesis
    using break_even_stop_past_market [OF sample_managed, of sample_move 100] c sample_managed by simp
qed

end
