(* ===== verification/Venue.thy ===== *)
theory Venue
  imports RiskV6 Evidence Dispatch
begin

text \<open>
  What the two Binance services (\<^verbatim>\<open>integrations/brokers/binance_usdm/orders.py\<close> and
  \<^verbatim>\<open>algo_orders.py\<close>) share: requests, responses and their JSON, the text of a decimal and
  \<^verbatim>\<open>Decimal(text)\<close>, client identifiers, the classification of an error answer, and operations
  that change a state and may raise. The body of a request is the list of parameters that
  \<^verbatim>\<open>urlencode\<close> writes and \<^verbatim>\<open>parse_qsl\<close> reads back; SHA-256 is a parameter on it. Shown: the text
  of a decimal reads back as the decimal, and no error answer is both ambiguous and final.
\<close>

section \<open>Operations that change a state and may raise\<close>

datatype venue_error =
    BrokerWriteDisabled string
  | OrderUnknown string
  | OrderNotSent string
  | OrderRejected string
  | ProtectionNotMoved string
  | ProtectionUnknown string
  | ProtectionRejected string
  | ProtectionEmergencyUnknown string
  | OrderRecordMissing string
  | ContextUnavailable string
  | SubmissionUnsupported string
  | Cancellation
  | SenderError
  | Py py_error

text \<open>\<^verbatim>\<open>except Exception\<close> catches everything but a cancellation, an interrupt or an exit.\<close>

definition is_exception :: "venue_error \<Rightarrow> bool" where
  "is_exception e \<longleftrightarrow> e \<noteq> Cancellation"

type_synonym 'a outcome = "venue_error + 'a"

type_synonym ('w, 'a) op = "'w \<Rightarrow> 'w \<times> 'a outcome"

definition give :: "'a \<Rightarrow> ('w, 'a) op" where
  "give x w = (w, Inr x)"

definition throw :: "venue_error \<Rightarrow> ('w, 'a) op" where
  "throw e w = (w, Inl e)"

definition followed_by :: "('w, 'a) op \<Rightarrow> ('a \<Rightarrow> ('w, 'b) op) \<Rightarrow> ('w, 'b) op" where
  "followed_by m f w = (case m w of (v, Inl e) \<Rightarrow> (v, Inl e) | (v, Inr x) \<Rightarrow> f x v)"

text \<open>\<^verbatim>\<open>try: m except: h\<close>, and a computation that raises without touching the state.\<close>

definition rescued :: "('w, 'a) op \<Rightarrow> (venue_error \<Rightarrow> ('w, 'a) op) \<Rightarrow> ('w, 'a) op" where
  "rescued m h w = (case m w of (v, Inl e) \<Rightarrow> h e v | (v, Inr x) \<Rightarrow> (v, Inr x))"

definition pure_op :: "'a outcome \<Rightarrow> ('w, 'a) op" where
  "pure_op r w = (w, r)"

definition py :: "'a result \<Rightarrow> 'a outcome" where
  "py r = (case r of Inl e \<Rightarrow> Inl (Py e) | Inr x \<Rightarrow> Inr x)"

definition checked :: "checks \<Rightarrow> ('w, unit) op" where
  "checked cs = pure_op (py (validated cs ()))"

lemmas op_defs = give_def throw_def followed_by_def rescued_def pure_op_def checked_def py_def

section \<open>Text\<close>

text \<open>\<^verbatim>\<open>_text\<close>, and \<^verbatim>\<open>_utc\<close> with whole seconds.\<close>

definition wire_text :: "string \<Rightarrow> bool" where
  "wire_text s \<longleftrightarrow> single_line_text s \<and> isascii s"

definition whole_second :: "instant \<Rightarrow> bool" where
  "whole_second t \<longleftrightarrow> t mod 1000000 = 0"

definition utc_check :: "string \<Rightarrow> instant \<Rightarrow> bool \<times> py_error" where
  "utc_check name t = (\<not> whole_second t, ValueError (''Binance USD-M '' @ name @ '' must use whole-second UTC''))"

definition uuid7_check :: "string \<Rightarrow> uuid \<Rightarrow> bool \<times> py_error" where
  "uuid7_check name u = (uuid_version u \<noteq> Some 7, ValueError (name @ '' must be UUIDv7''))"

definition ID_CHARACTERS :: string where
  "ID_CHARACTERS = ''.:/_abcdefghijklmnopqrstuvwxyzABCDEFGHIJKLMNOPQRSTUVWXYZ0123456789-''"

definition client_id_text :: "string \<Rightarrow> bool" where
  "client_id_text s \<longleftrightarrow> wire_text s \<and> length s \<le> 36 \<and> list_all (\<lambda>c. c \<in> set ID_CHARACTERS) s"

definition is_digit :: "char \<Rightarrow> bool" where
  "is_digit c = (let n = code_point c in 48 \<le> n \<and> n \<le> 57)"

definition starts_with :: "string \<Rightarrow> string \<Rightarrow> bool" where
  "starts_with p s = (take (length p) s = p)"

definition provider_id_text :: "string \<Rightarrow> string \<Rightarrow> bool" where
  "provider_id_text prefix s \<longleftrightarrow>
     wire_text s \<and> starts_with prefix s \<and> drop (length prefix) s \<noteq> []
     \<and> list_all is_digit (drop (length prefix) s)"

definition binance_protection_client_algo_id :: "uuid \<Rightarrow> string" where
  "binance_protection_client_algo_id u = ''v6s-'' @ uuid_hex u"

section \<open>Decimals as text\<close>

text \<open>
  \<^verbatim>\<open>Decimal(text)\<close> of a finite value: an optional sign, digits with an optional point, an optional
  exponent; underscores are ignored.
\<close>

definition digit_value :: "char \<Rightarrow> int" where
  "digit_value c = int (code_point c) - 48"

definition digits_value :: "string \<Rightarrow> int" where
  "digits_value s = foldl (\<lambda>acc c. 10 * acc + digit_value c) 0 s"

definition split_sign :: "string \<Rightarrow> bool \<times> string" where
  "split_sign s = (case s of c # t \<Rightarrow> if c = CHR ''-'' then (True, t) else if c = CHR ''+'' then (False, t) else (False, s)
                           | [] \<Rightarrow> (False, []))"

definition parse_exponent :: "string \<Rightarrow> int option" where
  "parse_exponent s =
     (case s of
        [] \<Rightarrow> Some 0
      | c # t \<Rightarrow>
          if c \<notin> set ''eE'' then None
          else let (negative, ds) = split_sign t
               in if ds = [] \<or> \<not> list_all is_digit ds then None
                  else Some (if negative then - digits_value ds else digits_value ds))"

definition parse_decimal :: "string \<Rightarrow> decimal option" where
  "parse_decimal text =
     (let (negative, s) = split_sign (filter (\<lambda>c. c \<noteq> CHR ''_'') text);
          whole = takeWhile is_digit s;
          rest = dropWhile is_digit s;
          fraction = (case rest of c # t \<Rightarrow> if c = CHR ''.'' then takeWhile is_digit t else [] | [] \<Rightarrow> []);
          tail = (case rest of c # t \<Rightarrow> if c = CHR ''.'' then dropWhile is_digit t else rest | [] \<Rightarrow> [])
      in if whole = [] \<and> fraction = [] then None
         else case parse_exponent tail of
                None \<Rightarrow> None
              | Some e \<Rightarrow>
                  let v = of_int (digits_value (whole @ fraction)) * 10 powi (e - int (length fraction))
                  in Some (if negative then - v else v))"

text \<open>
  \<^verbatim>\<open>_decimal_text\<close>: \<^verbatim>\<open>format(value, "f")\<close> without trailing zeros, for a value with at most 64
  fractional digits.
\<close>

fun fraction_digits :: "nat \<Rightarrow> rat \<Rightarrow> string" where
  "fraction_digits 0 f = []"
| "fraction_digits (Suc n) f =
     (if f = 0 then []
      else digit_char \<lfloor>10 * f\<rfloor> # fraction_digits n (10 * f - of_int \<lfloor>10 * f\<rfloor>))"

definition decimal_text :: "decimal \<Rightarrow> string" where
  "decimal_text d =
     (let a = \<bar>d\<bar>; digits = fraction_digits 64 (a - of_int \<lfloor>a\<rfloor>)
      in (if d < 0 then ''-'' else []) @ nat_str \<lfloor>a\<rfloor> @ (if digits = [] then [] else CHR ''.'' # digits))"

section \<open>JSON, requests and responses\<close>

datatype json =
    JNull
  | JBool bool
  | JInt int
  | JFloat rat
  | JText string
  | JList "json list"
  | JObject "(string \<times> json) list"

type_synonym params = "(string \<times> string) list"

record BrokerRequest =
  wr_method :: string
  wr_path :: string
  wr_query :: params
  wr_body :: "params option"

text \<open>A response carries its status and its body as \<^verbatim>\<open>json.loads\<close> reads it, if it does.\<close>

record BrokerResponse =
  resp_status :: int
  resp_body :: "json option"

datatype reply = Answer BrokerResponse | PreSendFailure | SendFailed | SendCancelled

definition json_object :: "BrokerResponse \<Rightarrow> ((string \<times> json) list) option" where
  "json_object r = (case resp_body r of Some (JObject kvs) \<Rightarrow> Some kvs | _ \<Rightarrow> None)"

definition payload_get :: "string \<Rightarrow> (string \<times> json) list \<Rightarrow> json" where
  "payload_get k kvs = (case map_of kvs k of Some v \<Rightarrow> v | None \<Rightarrow> JNull)"

text \<open>A number equal to an integer, as \<^verbatim>\<open>==\<close> sees it, and a value that has no hash.\<close>

definition equals_int :: "json \<Rightarrow> int \<Rightarrow> bool" where
  "equals_int j n = (case j of JInt m \<Rightarrow> m = n | JFloat x \<Rightarrow> x = of_int n | JBool b \<Rightarrow> n = (if b then 1 else 0) | _ \<Rightarrow> False)"

definition unhashable :: "json \<Rightarrow> bool" where
  "unhashable j = (case j of JList _ \<Rightarrow> True | JObject _ \<Rightarrow> True | _ \<Rightarrow> False)"

definition bad_value :: "string \<Rightarrow> py_error" where
  "bad_value name = ValueError (''Binance USD-M '' @ name @ '' is invalid'')"

definition json_text :: "string \<Rightarrow> json \<Rightarrow> string result" where
  "json_text name j = (case j of JText s \<Rightarrow> if wire_text s then Inr s else Inl (bad_value name) | _ \<Rightarrow> Inl (bad_value name))"

definition json_integer :: "string \<Rightarrow> int \<Rightarrow> json \<Rightarrow> int result" where
  "json_integer name least j =
     (case j of JInt n \<Rightarrow> if n < least then Inl (bad_value name) else Inr n | _ \<Rightarrow> Inl (bad_value name))"

definition json_boolean :: "string \<Rightarrow> json \<Rightarrow> bool result" where
  "json_boolean name j = (case j of JBool b \<Rightarrow> Inr b | _ \<Rightarrow> Inl (bad_value name))"

definition text_decimal :: "string \<Rightarrow> string \<Rightarrow> decimal result" where
  "text_decimal name s =
     (if \<not> trimmed_text s then Inl (bad_value name)
      else case parse_decimal s of None \<Rightarrow> Inl (bad_value name) | Some d \<Rightarrow> Inr d)"

definition json_decimal :: "string \<Rightarrow> json \<Rightarrow> decimal result" where
  "json_decimal name j = (case j of JText s \<Rightarrow> text_decimal name s | _ \<Rightarrow> Inl (bad_value name))"

definition parse_side :: "string \<Rightarrow> Side option" where
  "parse_side s = (if s = ''BUY'' then Some BUY else if s = ''SELL'' then Some SELL else None)"

fun side_value :: "Side \<Rightarrow> string" where
  "side_value BUY = ''BUY''"
| "side_value SELL = ''SELL''"

fun style_value :: "OrderStyle \<Rightarrow> string" where
  "style_value MARKET = ''MARKET''"
| "style_value LIMIT = ''LIMIT''"

fun opposite :: "Side \<Rightarrow> Side" where
  "opposite BUY = SELL"
| "opposite SELL = BUY"

section \<open>The class of an error answer\<close>

definition AMBIGUOUS_POST_ERROR_CODES :: "int list" where
  "AMBIGUOUS_POST_ERROR_CODES = [-1000, -1006, -1007, -4116]"

definition AUTHORITATIVE_POST_ERROR_CODES :: "int list" where
  "AUTHORITATIVE_POST_ERROR_CODES = [-1008]"

definition AUTHORITATIVE_POST_ERROR_RANGES :: "(int \<times> int) list" where
  "AUTHORITATIVE_POST_ERROR_RANGES = [(-1999, -1100), (-2999, -2000), (-4999, -4000)]"

definition post_response_is_authoritative_rejection :: "BrokerResponse \<Rightarrow> bool" where
  "post_response_is_authoritative_rejection r =
     (400 \<le> resp_status r \<and> resp_status r < 500 \<and>
      (case json_object r of
         None \<Rightarrow> False
       | Some payload \<Rightarrow>
           (case payload_get ''code'' payload of
              JInt code \<Rightarrow>
                code \<notin> set AMBIGUOUS_POST_ERROR_CODES \<and>
                (code \<in> set AUTHORITATIVE_POST_ERROR_CODES
                 \<or> list_ex (\<lambda>(lower, upper). lower \<le> code \<and> code \<le> upper) AUTHORITATIVE_POST_ERROR_RANGES)
            | _ \<Rightarrow> False)))"

text \<open>The three arms of both \<^verbatim>\<open>_accept_post_response\<close> methods.\<close>

definition post_outcome_unknown :: "BrokerResponse \<Rightarrow> bool" where
  "post_outcome_unknown r \<longleftrightarrow>
     resp_status r = 408 \<or> 500 \<le> resp_status r
     \<or> (400 \<le> resp_status r \<and> resp_status r < 500 \<and> \<not> post_response_is_authoritative_rejection r)"

definition post_rejected :: "BrokerResponse \<Rightarrow> bool" where
  "post_rejected r \<longleftrightarrow> 400 \<le> resp_status r \<and> resp_status r < 500"

text \<open>\<^verbatim>\<open>_is_order_not_found\<close> and \<^verbatim>\<open>_is_algo_not_found\<close>\<close>

definition is_not_found :: "BrokerResponse \<Rightarrow> bool" where
  "is_not_found r \<longleftrightarrow>
     resp_status r \<in> {400, 404} \<and>
     (case json_object r of None \<Rightarrow> False | Some payload \<Rightarrow> equals_int (payload_get ''code'' payload) (- 2013))"

section \<open>Lemmas\<close>

named_theorems op_simps \<open>operations applied to a state\<close>

lemma give_apply [op_simps]: "give x w = (w, Inr x)"
  by (simp add: give_def)

lemma throw_apply [op_simps]: "throw e w = (w, Inl e)"
  by (simp add: throw_def)

lemma pure_op_apply [op_simps]: "pure_op r w = (w, r)"
  by (simp add: pure_op_def)

lemma followed_by_Inr: "m w = (v, Inr x) \<Longrightarrow> followed_by m f w = f x v"
  by (simp add: followed_by_def)

lemma followed_by_Inl: "m w = (v, Inl e) \<Longrightarrow> followed_by m f w = (v, Inl e)"
  by (simp add: followed_by_def)

lemma followed_by_give [op_simps]: "followed_by (give x) f = f x"
  by (simp add: fun_eq_iff op_defs)

lemma followed_by_throw [op_simps]: "followed_by (throw e) f = throw e"
  by (simp add: fun_eq_iff op_defs)

lemma checked_apply [op_simps]:
  "checked cs w = (w, case first_error cs of None \<Rightarrow> Inr () | Some e \<Rightarrow> Inl (Py e))"
  by (simp add: checked_def py_def validated_def pure_op_def split: option.splits)

lemma client_ids_distinct [simp]:
  "binance_normal_client_order_id u = binance_normal_client_order_id v \<longleftrightarrow> u = v"
  "binance_protection_client_algo_id u = binance_protection_client_algo_id v \<longleftrightarrow> u = v"
  by (simp_all add: binance_normal_client_order_id_def binance_protection_client_algo_id_def uuid_hex_inj)

text \<open>An answer to a write is unknown, a rejection or neither; a rejection is authoritative.\<close>

lemma rejection_is_authoritative:
  "post_rejected r \<Longrightarrow> \<not> post_outcome_unknown r \<Longrightarrow> post_response_is_authoritative_rejection r"
  by (auto simp: post_rejected_def post_outcome_unknown_def)

section \<open>Invariants of operations\<close>

text \<open>An operation keeps a property of the state also when it raises; what it gives meets a condition.\<close>

definition keeps :: "('w \<Rightarrow> bool) \<Rightarrow> ('w, 'a) op \<Rightarrow> bool" where
  "keeps I m \<longleftrightarrow> (\<forall>w. I w \<longrightarrow> I (fst (m w)))"

definition yields :: "('w, 'a) op \<Rightarrow> ('a \<Rightarrow> bool) \<Rightarrow> bool" where
  "yields m Q \<longleftrightarrow> (\<forall>w v x. m w = (v, Inr x) \<longrightarrow> Q x)"

named_theorems keeps_intros \<open>operations that keep an invariant\<close>

lemma keepsD: "keeps I m \<Longrightarrow> I w \<Longrightarrow> m w = (v, r) \<Longrightarrow> I v"
  by (auto simp: keeps_def dest: spec [of _ w])

lemma keeps_at: "keeps I m \<Longrightarrow> I w \<Longrightarrow> I (fst (m w))"
  by (simp add: keeps_def)

lemma yieldsD: "yields m Q \<Longrightarrow> m w = (v, Inr x) \<Longrightarrow> Q x"
  by (simp add: yields_def)

lemma keeps_basic [keeps_intros]: "keeps I (give x)" "keeps I (throw e)" "keeps I (pure_op r)" "keeps I (checked cs)"
  by (simp_all add: keeps_def op_defs)

lemma keeps_followed_by [keeps_intros]:
  "keeps I m \<Longrightarrow> (\<And>x. keeps I (f x)) \<Longrightarrow> keeps I (followed_by m f)"
  by (auto simp: keeps_def followed_by_def split: prod.splits sum.splits)

lemma keeps_followed_by_yields:
  "keeps I m \<Longrightarrow> yields m Q \<Longrightarrow> (\<And>x. Q x \<Longrightarrow> keeps I (f x)) \<Longrightarrow> keeps I (followed_by m f)"
  by (auto simp: keeps_def yields_def followed_by_def split: prod.splits sum.splits)

lemma keeps_rescued [keeps_intros]:
  "keeps I m \<Longrightarrow> (\<And>e. keeps I (h e)) \<Longrightarrow> keeps I (rescued m h)"
  by (auto simp: keeps_def rescued_def split: prod.splits sum.splits)

lemma followed_by_InrE:
  assumes "followed_by m f w = (v, Inr y)"
  obtains u x where "m w = (u, Inr x)" "f x u = (v, Inr y)"
  using assms by (auto simp: followed_by_def split: prod.splits sum.splits)

lemma yields_followed_by: "(\<And>x. yields (f x) Q) \<Longrightarrow> yields (followed_by m f) Q"
  unfolding yields_def by (blast elim: followed_by_InrE)

lemma yields_throw: "yields (throw e) Q"
  by (simp add: yields_def throw_def)

lemma yields_rescued: "yields m Q \<Longrightarrow> (\<And>e. yields (h e) Q) \<Longrightarrow> yields (rescued m h) Q"
  by (auto simp: yields_def rescued_def split: prod.splits sum.splits)

section \<open>The text of a decimal reads back\<close>

lemma digit_cases:
  assumes "0 \<le> d" "d < 10"
  shows "digit_value (digit_char d) = d \<and> is_digit (digit_char d)"
proof -
  have "d = 0 \<or> d = 1 \<or> d = 2 \<or> d = 3 \<or> d = 4 \<or> d = 5 \<or> d = 6 \<or> d = 7 \<or> d = 8 \<or> d = 9"
    using assms by presburger
  then show ?thesis
    by (elim disjE) (simp_all add: digit_char_def digit_value_def is_digit_def code_point_def)
qed

lemma foldl_digits:
  "foldl (\<lambda>acc c. 10 * acc + digit_value c) a s = a * 10 ^ length s + digits_value s"
proof (induction s arbitrary: a)
  case (Cons c s)
  have "digits_value (c # s) = digit_value c * 10 ^ length s + digits_value s"
    using Cons.IH [of "digit_value c"] by (simp add: digits_value_def)
  with Cons.IH [of "10 * a + digit_value c"] show ?case by (simp add: algebra_simps)
qed (simp add: digits_value_def)

lemma digits_value_append: "digits_value (a @ b) = digits_value a * 10 ^ length b + digits_value b"
  using foldl_digits [of "digits_value a" b] by (simp add: digits_value_def)

lemma digits_value_Cons: "digits_value (c # b) = digit_value c * 10 ^ length b + digits_value b"
  using foldl_digits [of "digit_value c" b] by (simp add: digits_value_def)

lemma digits_value_Nil [simp]: "digits_value [] = 0"
  by (simp add: digits_value_def)

lemma nat_str_digits: "0 \<le> n \<Longrightarrow> digits_value (nat_str n) = n \<and> list_all is_digit (nat_str n) \<and> nat_str n \<noteq> []"
proof (induction n rule: nat_str.induct)
  case (1 n)
  show ?case
  proof (cases "n < 10")
    case True
    then show ?thesis using "1.prems" digit_cases [of n] by (simp add: nat_str.simps [of n] digits_value_Cons)
  next
    case False
    have "0 \<le> n div 10" using "1.prems" by simp
    from "1.IH" [OF False this] digit_cases [of "n mod 10"] False show ?thesis
      by (simp add: nat_str.simps [of n] digits_value_append digits_value_Cons)
  qed
qed

lemma fraction_digits_value:
  assumes "0 \<le> f" "f < 1" "f * 10 ^ n \<in> \<int>"
  shows "list_all is_digit (fraction_digits n f)
    \<and> of_int (digits_value (fraction_digits n f)) = f * 10 ^ length (fraction_digits n f)"
  using assms
proof (induction n arbitrary: f)
  case 0
  from 0 obtain k where k: "f = of_int k" by (auto elim: Ints_cases)
  with 0 have "k = 0" by auto
  with k show ?case by simp
next
  case (Suc n)
  show ?case
  proof (cases "f = 0")
    case False
    let ?d = "\<lfloor>10 * f\<rfloor>"
    let ?g = "10 * f - of_int ?d"
    have g: "0 \<le> ?g" "?g < 1" using floor_correct [of "10 * f"] by linarith+
    have d: "0 \<le> ?d" "?d < 10" using Suc.prems by (auto simp: floor_less_iff)
    have "?g * 10 ^ n = f * 10 ^ Suc n - of_int (?d * 10 ^ n)" by (simp add: algebra_simps)
    also have "\<dots> \<in> \<int>" using Suc.prems(3) by (intro Ints_diff) simp_all
    finally have ih: "list_all is_digit (fraction_digits n ?g)
      \<and> of_int (digits_value (fraction_digits n ?g)) = ?g * 10 ^ length (fraction_digits n ?g)"
      using Suc.IH [OF g] by simp
    with d digit_cases [of ?d] False show ?thesis
      by (simp add: digits_value_Cons algebra_simps)
  qed simp
qed

lemma digit_is_plain:
  "is_digit c \<Longrightarrow> c \<noteq> CHR ''_'' \<and> c \<noteq> CHR ''-'' \<and> c \<noteq> CHR ''+'' \<and> c \<noteq> CHR ''.''"
  by (auto simp: is_digit_def code_point_def Let_def)

lemma take_digits:
  assumes "list_all is_digit ds" "rest = [] \<or> \<not> is_digit (hd rest)"
  shows "takeWhile is_digit (ds @ rest) = ds \<and> dropWhile is_digit (ds @ rest) = rest"
  using assms by (induction ds; cases rest) auto

lemma digits_no_underscore: "list_all is_digit ds \<Longrightarrow> filter (\<lambda>c. c \<noteq> CHR ''_'') ds = ds"
  by (induction ds) (auto dest: digit_is_plain)

lemma parse_plain:
  assumes w: "list_all is_digit w" "w \<noteq> []" and f: "list_all is_digit f"
  shows "parse_decimal ((if s then ''-'' else []) @ w @ (if f = [] then [] else CHR ''.'' # f))
    = Some (if s then - (of_int (digits_value (w @ f)) / 10 ^ length f)
            else of_int (digits_value (w @ f)) / 10 ^ length f)"
proof -
  let ?rest = "if f = [] then [] else CHR ''.'' # f"
  have under: "filter (\<lambda>c. c \<noteq> CHR ''_'') ((if s then ''-'' else []) @ w @ ?rest) = (if s then ''-'' else []) @ w @ ?rest"
    using w f by (simp add: digits_no_underscore)
  have sign: "split_sign ((if s then ''-'' else []) @ w @ ?rest) = (s, w @ ?rest)"
    using w digit_is_plain by (cases w) (auto simp: split_sign_def)
  have nd: "\<not> is_digit CHR ''.''" using digit_is_plain by blast
  have split: "takeWhile is_digit (w @ ?rest) = w" "dropWhile is_digit (w @ ?rest) = ?rest"
    using take_digits [OF w(1), of ?rest] nd by auto
  have tails: "takeWhile is_digit f = f" "dropWhile is_digit f = []"
    using take_digits [OF f, of "[]"] by auto
  show ?thesis
    unfolding parse_decimal_def under sign prod.case Let_def split
    using w(2) by (simp add: tails parse_exponent_def power_int_minus divide_inverse)
qed

lemma decimal_text_reads_back:
  assumes "d * 10 ^ 64 \<in> \<int>"
  shows "parse_decimal (decimal_text d) = Some d"
proof -
  define a where "a = \<bar>d\<bar>"
  define f where "f = a - of_int \<lfloor>a\<rfloor>"
  let ?ds = "fraction_digits 64 f"
  have "f * 10 ^ 64 = \<bar>d * 10 ^ 64\<bar> - of_int (\<lfloor>a\<rfloor> * 10 ^ 64)"
    by (simp add: a_def f_def abs_mult algebra_simps)
  also have "\<dots> \<in> \<int>" using Ints_abs [OF assms] by (intro Ints_diff) simp_all
  finally have f: "list_all is_digit ?ds" "of_int (digits_value ?ds) = f * 10 ^ length ?ds"
    using fraction_digits_value [of f 64] floor_correct [of a] by (auto simp: f_def)
  have w: "digits_value (nat_str \<lfloor>a\<rfloor>) = \<lfloor>a\<rfloor>" "list_all is_digit (nat_str \<lfloor>a\<rfloor>)" "nat_str \<lfloor>a\<rfloor> \<noteq> []"
    using nat_str_digits [of "\<lfloor>a\<rfloor>"] by (auto simp: a_def)
  have v: "of_int (digits_value (nat_str \<lfloor>a\<rfloor> @ ?ds)) / 10 ^ length ?ds = a"
    using f(2) by (simp add: digits_value_append w(1) field_simps f_def)
  have "decimal_text d = (if d < 0 then ''-'' else []) @ nat_str \<lfloor>a\<rfloor> @ (if ?ds = [] then [] else CHR ''.'' # ?ds)"
    by (simp add: decimal_text_def Let_def a_def f_def)
  then show ?thesis
    using parse_plain [OF w(2,3) f(1), of "d < 0", unfolded v]
    by (simp add: a_def)
qed

lemma dec_grid_64:
  assumes "dec_grid k d" "k \<le> 64"
  shows "d * 10 ^ 64 \<in> \<int>"
proof -
  from assms(1) obtain n where n: "d * 10 ^ k = of_int n" by (auto simp: dec_grid_def Let_def)
  have "(10::rat) ^ 64 = 10 ^ k * 10 ^ (64 - k)" using assms(2) by (simp flip: power_add)
  then have "d * 10 ^ 64 = of_int (n * 10 ^ (64 - k))" using n by (simp only: mult.assoc [symmetric] of_int_mult of_int_power of_int_numeral)
  then show ?thesis by (simp only: Ints_of_int)
qed

end
