(* ===== verification/VenueOrders.thy ===== *)
theory VenueOrders
  imports Venue
begin

text \<open>
  \<^verbatim>\<open>integrations/brokers/binance_usdm/orders.py\<close> and \<^verbatim>\<open>order_store.py\<close>: the service that sends a
  market order to the venue behind a durable claim, and recovers its outcome. The venue, the clock and
  the source of write authority are arguments; the venue answers with the whole history of requests in
  view. Every call of the store is its own statement, as the repository writes it. Shown: a client order
  identifier reaches the venue at most once, whatever the venue answers and however calls are repeated;
  what is sent is authorized; what is acknowledged agrees with its fills.
\<close>

section \<open>Records\<close>

datatype BinanceUsdmOrderRole = ROLE_ENTRY | ROLE_ADD | SESSION_CLOSE | RISK_CLOSE | EMERGENCY_CLOSE

definition opens_exposure :: "BinanceUsdmOrderRole \<Rightarrow> bool" where
  "opens_exposure role \<longleftrightarrow> role \<in> {ROLE_ENTRY, ROLE_ADD}"

datatype BinanceUsdmNormalOrderState =
    PREPARED_ORDER | NOT_SENT | AMBIGUOUS_ORDER | ACKNOWLEDGED_ORDER | REJECTED_ORDER | UNKNOWN_ORDER

definition ALLOWED_ORDER_STATUSES :: "string list" where
  "ALLOWED_ORDER_STATUSES =
     [''NEW'', ''PARTIALLY_FILLED'', ''FILLED'', ''CANCELED'', ''REJECTED'', ''EXPIRED'', ''EXPIRED_IN_MATCH'']"

definition SYMBOL :: string where "SYMBOL = ''BTCUSDT''"
definition STRATEGY_VERSION :: string where "STRATEGY_VERSION = ''david-trullas-v6.0''"
definition AUTHORITY_MAX_AGE :: timedelta where "AUTHORITY_MAX_AGE = 30000000"

record BinanceUsdmSymbolFilters =
  sfl_tick_size :: decimal
  sfl_step_size :: decimal
  sfl_minimum_quantity :: decimal
  sfl_minimum_notional :: decimal
  sfl_captured_at :: instant

definition SymbolFilters_checks :: "BinanceUsdmSymbolFilters \<Rightarrow> checks" where
  "SymbolFilters_checks f =
     [(sfl_tick_size f \<le> 0, ValueError ''Binance USD-M tick_size must be positive''),
      (sfl_step_size f \<le> 0, ValueError ''Binance USD-M step_size must be positive''),
      (sfl_minimum_quantity f \<le> 0, ValueError ''Binance USD-M minimum_quantity must be positive''),
      (sfl_minimum_notional f \<le> 0, ValueError ''Binance USD-M minimum_notional must be positive''),
      utc_check ''symbol filter captured_at'' (sfl_captured_at f)]"

record BinanceUsdmNormalOrderAuthority =
  au_command_id :: uuid
  au_account_id :: uuid
  au_instrument_id :: uuid
  au_binding_id :: uuid
  au_binding_generation :: int
  au_policy_version_id :: uuid
  au_strategy_version :: string
  au_writer_capability :: bool
  au_account_enabled :: bool
  au_binding_active :: bool
  au_intent_locked :: bool
  au_symbol :: string
  au_role :: BinanceUsdmOrderRole
  au_side :: Side
  au_order_style :: OrderStyle
  au_quantity :: decimal
  au_limit_price :: "decimal option"
  au_expected_leverage :: int
  au_verified_leverage :: int
  au_leverage_verified_at :: instant
  au_position_mode :: string
  au_margin_type :: string
  au_auto_add_margin :: bool
  au_filters :: BinanceUsdmSymbolFilters
  au_notional_reference_price :: decimal
  au_authorized_reduce_quantity :: decimal

record BinanceUsdmFill =
  bf_trade_id :: int
  bf_order_id :: int
  bf_side :: Side
  bf_quantity :: decimal
  bf_price :: decimal
  bf_commission :: decimal
  bf_commission_asset :: string
  bf_realized_pnl :: decimal
  bf_occurred_at :: instant

definition asset_text :: "string \<Rightarrow> bool" where
  "asset_text s \<longleftrightarrow> wire_text s \<and> list_all (\<lambda>c. is_digit c \<or> is_ascii_upper c) s"

definition BinanceUsdmFill_checks :: "BinanceUsdmFill \<Rightarrow> checks" where
  "BinanceUsdmFill_checks f =
     [(bf_trade_id f < 0, ValueError ''Binance USD-M trade ID is invalid''),
      (bf_order_id f \<le> 0, ValueError ''Binance USD-M fill order ID is invalid''),
      (bf_quantity f \<le> 0, ValueError ''Binance USD-M fill quantity must be positive''),
      (bf_price f \<le> 0, ValueError ''Binance USD-M fill price must be positive''),
      (bf_commission f < 0, ValueError ''Binance USD-M commission cannot be negative''),
      (\<not> asset_text (bf_commission_asset f), ValueError ''Binance USD-M asset is invalid'')]"

record BrokerWriteResult =
  bw_broker_order_id :: string
  bw_client_order_id :: string
  bw_provider_state :: string
  bw_cumulative_filled_quantity :: decimal
  bw_cumulative_quote_quantity :: decimal
  bw_average_fill_price :: decimal
  bw_commissions :: "(string \<times> decimal) list"
  bw_fills :: "BinanceUsdmFill list"
  bw_recovered :: bool

definition BrokerWriteResult_checks :: "BrokerWriteResult \<Rightarrow> checks" where
  "BrokerWriteResult_checks r =
     [(\<not> provider_id_text ''BINANCE-USDM:'' (bw_broker_order_id r), ValueError ''Binance USD-M provider order ID is invalid''),
      (\<not> client_id_text (bw_client_order_id r), ValueError ''Binance USD-M client order ID is invalid''),
      (bw_provider_state r \<notin> set ALLOWED_ORDER_STATUSES, ValueError ''Binance USD-M provider state is invalid''),
      (bw_cumulative_filled_quantity r < 0, ValueError ''Binance USD-M cumulative_filled_quantity cannot be negative''),
      (bw_cumulative_quote_quantity r < 0, ValueError ''Binance USD-M cumulative_quote_quantity cannot be negative''),
      (bw_average_fill_price r < 0, ValueError ''Binance USD-M average_fill_price cannot be negative''),
      (list_ex (\<lambda>(asset, amount). \<not> asset_text asset) (bw_commissions r), ValueError ''Binance USD-M asset is invalid''),
      (list_ex (\<lambda>(asset, amount). amount < 0) (bw_commissions r), ValueError ''Binance USD-M commission cannot be negative'')]"

record BinanceUsdmNormalOrderRecord =
  no_command_id :: uuid
  no_account_id :: uuid
  no_binding_id :: uuid
  no_client_order_id :: string
  no_request_body :: params
  no_request_digest :: bytes
  no_prepared_at :: instant
  no_not_after :: instant
  no_dispatch_count :: int
  no_state :: BinanceUsdmNormalOrderState
  no_result :: "BrokerWriteResult option"

definition NormalOrderRecord_checks :: "(params \<Rightarrow> bytes) \<Rightarrow> BinanceUsdmNormalOrderRecord \<Rightarrow> checks" where
  "NormalOrderRecord_checks sha256 r =
     [uuid7_check ''command_id'' (no_command_id r), uuid7_check ''account_id'' (no_account_id r),
      uuid7_check ''binding_id'' (no_binding_id r),
      (\<not> client_id_text (no_client_order_id r), ValueError ''Binance USD-M client order ID is invalid''),
      (no_request_body r = [], ValueError ''Binance USD-M persisted request body is invalid''),
      (length (no_request_digest r) \<noteq> 32 \<or> sha256 (no_request_body r) \<noteq> no_request_digest r,
         ValueError ''Binance USD-M persisted request digest is invalid''),
      utc_check ''prepared_at'' (no_prepared_at r), utc_check ''not_after'' (no_not_after r),
      (no_prepared_at r \<ge> no_not_after r, ValueError ''Binance USD-M persisted request window is invalid''),
      (no_dispatch_count r \<le> 0, ValueError ''Binance USD-M dispatch count is invalid''),
      (no_state r = ACKNOWLEDGED_ORDER \<and> no_result r = None, ValueError ''acknowledged Binance USD-M order needs a result''),
      (no_state r \<noteq> ACKNOWLEDGED_ORDER \<and> no_result r \<noteq> None, ValueError ''only acknowledged Binance USD-M order has a result'')]"

record ProviderOrder =
  po_order_id :: int
  po_client_order_id :: string
  po_symbol :: string
  po_status :: string
  po_side :: Side
  po_order_type :: OrderStyle
  po_original_quantity :: decimal
  po_executed_quantity :: decimal
  po_cumulative_quote :: decimal
  po_average_price :: decimal
  po_reduce_only :: bool
  po_position_side :: string

section \<open>The state of the service and what it asks\<close>

record OrderWorld =
  ow_orders :: "BinanceUsdmNormalOrderRecord list"
  ow_log :: "(BrokerRequest \<times> reply) list"
  ow_ticks :: nat

record OrderEnv =
  oe_sha256 :: "params \<Rightarrow> bytes"
  oe_send :: "(BrokerRequest \<times> reply) list \<Rightarrow> BrokerRequest \<Rightarrow> reply"
  oe_clock :: "nat \<Rightarrow> instant"
  oe_authority :: "BrokerOrderCommand \<Rightarrow> BinanceUsdmNormalOrderAuthority outcome"

definition clock_now :: "('e OrderEnv_scheme) \<Rightarrow> string \<Rightarrow> ('x OrderWorld_scheme, instant) op" where
  "clock_now E name w =
     (let t = oe_clock E (ow_ticks w)
      in (w\<lparr>ow_ticks := ow_ticks w + 1\<rparr>, py (validated [utc_check name t] t)))"

definition send :: "('e OrderEnv_scheme) \<Rightarrow> BrokerRequest \<Rightarrow> ('x OrderWorld_scheme, reply) op" where
  "send E q w =
     (let a = oe_send E (ow_log w) q in (w\<lparr>ow_log := ow_log w @ [(q, a)]\<rparr>, Inr a))"

section \<open>The durable record\<close>

definition find_order :: "string \<Rightarrow> ('x OrderWorld_scheme) \<Rightarrow> BinanceUsdmNormalOrderRecord option" where
  "find_order cid w = next_where (\<lambda>r. no_client_order_id r = cid) (ow_orders w)"

definition change_order ::
  "string \<Rightarrow> (BinanceUsdmNormalOrderRecord \<Rightarrow> BinanceUsdmNormalOrderRecord) \<Rightarrow> 'x OrderWorld_scheme \<Rightarrow> 'x OrderWorld_scheme" where
  "change_order cid f w = w\<lparr>ow_orders := map (\<lambda>r. if no_client_order_id r = cid then f r else r) (ow_orders w)\<rparr>"

text \<open>\<^verbatim>\<open>_record\<close>: a row read back is validated.\<close>

definition read_order :: "('e OrderEnv_scheme) \<Rightarrow> BinanceUsdmNormalOrderRecord \<Rightarrow> BinanceUsdmNormalOrderRecord outcome" where
  "read_order E r = py (validated (NormalOrderRecord_checks (oe_sha256 E) r) r)"

definition load_by_client_id ::
  "('e OrderEnv_scheme) \<Rightarrow> string \<Rightarrow> ('x OrderWorld_scheme, BinanceUsdmNormalOrderRecord option) op" where
  "load_by_client_id E cid w =
     (w, case find_order cid w of
           None \<Rightarrow> Inr None
         | Some r \<Rightarrow> (case read_order E r of Inl e \<Rightarrow> Inl e | Inr x \<Rightarrow> Inr (Some x)))"

definition reread_order ::
  "('e OrderEnv_scheme) \<Rightarrow> string \<Rightarrow> string \<Rightarrow> ('x OrderWorld_scheme, BinanceUsdmNormalOrderRecord) op" where
  "reread_order E cid vanished w =
     (w, case find_order cid w of None \<Rightarrow> Inl (OrderRecordMissing vanished) | Some r \<Rightarrow> read_order E r)"

definition require_same_request :: "BinanceUsdmNormalOrderRecord \<Rightarrow> BinanceUsdmNormalOrderRecord \<Rightarrow> unit outcome" where
  "require_same_request row r =
     (if no_request_digest row \<noteq> no_request_digest r \<or> no_command_id row \<noteq> no_command_id r
         \<or> no_account_id row \<noteq> no_account_id r \<or> no_binding_id row \<noteq> no_binding_id r
      then Inl (Py (ValueError ''Binance USD-M client order id names a different request'')) else Inr ())"

text \<open>
  \<^verbatim>\<open>prepare\<close>: \<^verbatim>\<open>INSERT IGNORE\<close> writes nothing when the command or the client identifier is taken.
\<close>

definition prepare_order ::
  "('e OrderEnv_scheme) \<Rightarrow> BinanceUsdmNormalOrderRecord \<Rightarrow> ('x OrderWorld_scheme, BinanceUsdmNormalOrderRecord \<times> bool) op" where
  "prepare_order E r w =
     (case first_error (NormalOrderRecord_checks (oe_sha256 E) r) of
        Some e \<Rightarrow> (w, Inl (Py e))
      | None \<Rightarrow>
          if no_state r \<noteq> PREPARED_ORDER
            then (w, Inl (Py (ValueError ''only a prepared Binance USD-M order may be claimed'')))
          else if \<not> list_ex (\<lambda>s. no_client_order_id s = no_client_order_id r \<or> no_command_id s = no_command_id r) (ow_orders w)
            then (w\<lparr>ow_orders := ow_orders w @ [r]\<rparr>, Inr (r, True))
          else case find_order (no_client_order_id r) w of
            None \<Rightarrow> (w, Inl (OrderRecordMissing ''Binance USD-M order record vanished between claim and read''))
          | Some row \<Rightarrow>
              (case require_same_request row r of
                 Inl e \<Rightarrow> (w, Inl e)
               | Inr _ \<Rightarrow>
                   if no_state row \<noteq> NOT_SENT
                     then (w, case read_order E row of Inl e \<Rightarrow> Inl e | Inr x \<Rightarrow> Inr (x, False))
                   else followed_by
                     (\<lambda>v. reread_order E (no_client_order_id r) ''Binance USD-M order record vanished during retry''
                       (change_order (no_client_order_id r)
                         (\<lambda>row. row\<lparr>no_state := PREPARED_ORDER, no_dispatch_count := no_dispatch_count row + 1,
                                   no_prepared_at := no_prepared_at r, no_not_after := no_not_after r,
                                   no_result := None\<rparr>) v))
                     (\<lambda>x. give (x, True)) w))"

definition mark_not_sent ::
  "('e OrderEnv_scheme) \<Rightarrow> string \<Rightarrow> bytes \<Rightarrow> ('x OrderWorld_scheme, BinanceUsdmNormalOrderRecord) op" where
  "mark_not_sent E cid digest w =
     (case find_order cid w of
        None \<Rightarrow> (w, Inl (OrderRecordMissing ''Binance USD-M order record to mark is absent''))
      | Some row \<Rightarrow>
          if no_request_digest row \<noteq> digest
            then (w, Inl (Py (ValueError ''Binance USD-M order digest does not match the record'')))
          else reread_order E cid ''Binance USD-M order record vanished after a write''
                 (change_order cid (\<lambda>r. r\<lparr>no_state := NOT_SENT, no_result := None\<rparr>) w))"

definition finish_order ::
  "('e OrderEnv_scheme) \<Rightarrow> string \<Rightarrow> BinanceUsdmNormalOrderState \<Rightarrow> BrokerWriteResult option
     \<Rightarrow> ('x OrderWorld_scheme, BinanceUsdmNormalOrderRecord) op" where
  "finish_order E cid state answer w =
     (if state = ACKNOWLEDGED_ORDER \<and> answer = None
        then (w, Inl (Py (ValueError ''an acknowledged Binance USD-M order needs a result'')))
      else if state \<noteq> ACKNOWLEDGED_ORDER \<and> answer \<noteq> None
        then (w, Inl (Py (ValueError ''only an acknowledged Binance USD-M order has a result'')))
      else case find_order cid w of
        None \<Rightarrow> (w, Inl (OrderRecordMissing ''Binance USD-M order record to finish is absent''))
      | Some _ \<Rightarrow> reread_order E cid ''Binance USD-M order record vanished after a write''
                    (change_order cid (\<lambda>r. r\<lparr>no_state := state, no_result := answer\<rparr>) w))"

definition mark_ambiguous ::
  "('e OrderEnv_scheme) \<Rightarrow> string \<Rightarrow> ('x OrderWorld_scheme, BinanceUsdmNormalOrderRecord) op" where
  "mark_ambiguous E cid = finish_order E cid AMBIGUOUS_ORDER None"

section \<open>What a command may write\<close>

definition PROVIDER_WRITE_ORIGINS :: "string list" where
  "PROVIDER_WRITE_ORIGINS = [''STRATEGY'', ''PROTECTION'']"

definition OPENING_AUTHORITY :: string where "OPENING_AUTHORITY = ''SUBMIT_NEW_EXPOSURE''"

definition PROVIDER_WRITE_AUTHORITIES :: "string list" where
  "PROVIDER_WRITE_AUTHORITIES = [OPENING_AUTHORITY, CLOSING_AUTHORITY]"

definition writes_to_a_venue :: "string \<Rightarrow> string \<Rightarrow> bool" where
  "writes_to_a_venue origin_type authority_class \<longleftrightarrow>
     origin_type \<in> set PROVIDER_WRITE_ORIGINS \<and> authority_class \<in> set PROVIDER_WRITE_AUTHORITIES"

text \<open>
  \<^verbatim>\<open>value % quantum == 0\<close> for a positive quantum; the remainder raises when the integer quotient has
  more than 28 digits.
\<close>

definition modulo_raises :: "decimal \<Rightarrow> decimal \<Rightarrow> bool" where
  "modulo_raises v q \<longleftrightarrow> 10 ^ 28 \<le> \<lfloor>\<bar>v / q\<bar>\<rfloor>"

definition aligned :: "decimal \<Rightarrow> decimal \<Rightarrow> bool" where
  "aligned v q \<longleftrightarrow> v / q = of_int \<lfloor>v / q\<rfloor>"

definition fresh :: "instant \<Rightarrow> instant \<Rightarrow> bool" where
  "fresh captured now \<longleftrightarrow> 0 \<le> now - captured \<and> now - captured \<le> AUTHORITY_MAX_AGE"

type_synonym refusals = "(bool \<times> string) list"

definition INVALID_AUTHORITY :: string where
  "INVALID_AUTHORITY = ''exact Binance USD-M write authority is invalid''"

definition entry_refusals :: "BinanceUsdmNormalOrderAuthority \<Rightarrow> instant \<Rightarrow> refusals" where
  "entry_refusals a now =
     [(\<not> (1 \<le> au_expected_leverage a \<and> au_expected_leverage a \<le> MAX_LEVERAGE)
         \<or> au_verified_leverage a \<noteq> au_expected_leverage a, ''Binance USD-M leverage authority is invalid''),
      (\<not> whole_second (au_leverage_verified_at a), INVALID_AUTHORITY),
      (\<not> fresh (au_leverage_verified_at a) now, ''Binance USD-M leverage authority is invalid''),
      (au_position_mode a \<noteq> ''ONE_WAY'', ''Binance USD-M ONE_WAY authority is required''),
      (au_margin_type a \<noteq> ''ISOLATED'', ''Binance USD-M ISOLATED authority is required''),
      (au_auto_add_margin a, ''Binance USD-M automatic margin addition is invalid''),
      (au_authorized_reduce_quantity a \<noteq> 0, ''Binance USD-M entry cannot carry reduce authority'')]"

definition close_refusals :: "BrokerOrderCommand \<Rightarrow> BinanceUsdmNormalOrderAuthority \<Rightarrow> refusals" where
  "close_refusals c a =
     [(au_position_mode a \<noteq> ''ONE_WAY'', ''Binance USD-M ONE_WAY authority is required''),
      (cmd_order_style c \<noteq> MARKET, ''Binance USD-M close must be a market order''),
      (au_authorized_reduce_quantity a \<le> 0 \<or> cmd_quantity c \<noteq> au_authorized_reduce_quantity a,
         ''Binance USD-M close must cover full position'')]"

text \<open>The price an order is measured at, once its style has been checked.\<close>

definition order_price :: "BrokerOrderCommand \<Rightarrow> BinanceUsdmNormalOrderAuthority \<Rightarrow> decimal" where
  "order_price c a =
     (case cmd_order_style c of
        LIMIT \<Rightarrow> (case cmd_limit_price c of Some p \<Rightarrow> p | None \<Rightarrow> 0)
      | MARKET \<Rightarrow> au_notional_reference_price a)"

definition style_refusals :: "BrokerOrderCommand \<Rightarrow> BinanceUsdmNormalOrderAuthority \<Rightarrow> refusals" where
  "style_refusals c a =
     (case cmd_order_style c of
        LIMIT \<Rightarrow>
          [(cmd_time_in_force c \<noteq> ''GTC'', ''Binance USD-M limit time in force is invalid''),
           (cmd_limit_price c = None, INVALID_AUTHORITY),
           (order_price c a \<le> 0, ''Binance USD-M price tick filter failed''),
           (modulo_raises (order_price c a) (sfl_tick_size (au_filters a)), INVALID_AUTHORITY),
           (\<not> aligned (order_price c a) (sfl_tick_size (au_filters a)), ''Binance USD-M price tick filter failed'')]
      | MARKET \<Rightarrow>
          [(cmd_time_in_force c \<noteq> ''NONE'' \<or> cmd_limit_price c \<noteq> None, ''Binance USD-M market order is invalid''),
           (au_notional_reference_price a \<le> 0, ''Binance USD-M notional reference is invalid'')])"

definition identity_refusals :: "BrokerOrderCommand \<Rightarrow> BinanceUsdmNormalOrderAuthority \<Rightarrow> refusals" where
  "identity_refusals c a =
     [(list_ex (\<lambda>u. uuid_version u \<noteq> Some 7)
         [au_command_id a, au_account_id a, au_instrument_id a, au_binding_id a, au_policy_version_id a], INVALID_AUTHORITY),
      (cmd_command_type c \<noteq> SUBMIT \<or> cmd_target_broker_order_id c \<noteq> None \<or> cmd_replaces_command_id c \<noteq> None
         \<or> \<not> writes_to_a_venue (cmd_origin_type c) (cmd_authority_class c) \<or> au_command_id a \<noteq> cmd_id c
         \<or> au_account_id a \<noteq> cmd_account_id c \<or> au_instrument_id a \<noteq> cmd_instrument_id c
         \<or> au_binding_generation a \<le> 0 \<or> au_strategy_version a \<noteq> STRATEGY_VERSION \<or> \<not> au_writer_capability a
         \<or> \<not> au_account_enabled a \<or> \<not> au_binding_active a \<or> \<not> au_intent_locked a,
         ''exact Binance USD-M write authority does not match''),
      (au_symbol a \<noteq> SYMBOL, ''Binance USD-M supports BTCUSDT only''),
      (cmd_side c \<noteq> au_side a \<or> cmd_order_style c \<noteq> au_order_style a \<or> cmd_quantity c \<noteq> au_quantity a
         \<or> cmd_limit_price c \<noteq> au_limit_price a, ''Binance USD-M locked intent does not match''),
      (cmd_broker_client_order_id c \<noteq> binance_normal_client_order_id (cmd_id c),
         ''Binance USD-M deterministic client ID does not match'')]"

definition window_refusals :: "BrokerOrderCommand \<Rightarrow> instant \<Rightarrow> refusals" where
  "window_refusals c now =
     (case cmd_dispatch_attempted_at c of
        None \<Rightarrow> [(True, INVALID_AUTHORITY)]
      | Some attempted_at \<Rightarrow>
          [(\<not> whole_second attempted_at \<or> \<not> whole_second (cmd_not_after c), INVALID_AUTHORITY),
           (\<not> (attempted_at \<le> now \<and> now < cmd_not_after c), ''Binance USD-M command window is invalid'')])"

definition filter_refusals :: "BrokerOrderCommand \<Rightarrow> BinanceUsdmNormalOrderAuthority \<Rightarrow> instant \<Rightarrow> refusals" where
  "filter_refusals c a now =
     [(first_error (SymbolFilters_checks (au_filters a)) \<noteq> None, INVALID_AUTHORITY),
      (\<not> fresh (sfl_captured_at (au_filters a)) now, ''Binance USD-M exchange filter authority is stale''),
      (cmd_quantity c \<le> 0 \<or> cmd_quantity c < sfl_minimum_quantity (au_filters a), ''Binance USD-M quantity filter failed''),
      (modulo_raises (cmd_quantity c) (sfl_step_size (au_filters a)), INVALID_AUTHORITY),
      (\<not> aligned (cmd_quantity c) (sfl_step_size (au_filters a)), ''Binance USD-M quantity step filter failed'')]"

text \<open>\<^verbatim>\<open>_validate_write_authority\<close>: the first refusal raises.\<close>

definition write_refusals :: "BrokerOrderCommand \<Rightarrow> BinanceUsdmNormalOrderAuthority \<Rightarrow> instant \<Rightarrow> refusals" where
  "write_refusals c a now =
     identity_refusals c a @ window_refusals c now @ filter_refusals c a now @ style_refusals c a
     @ [(opens_exposure (au_role a)
           \<and> dmul (cmd_quantity c) (order_price c a) < sfl_minimum_notional (au_filters a),
         ''Binance USD-M minimum notional filter failed'')]
     @ (if opens_exposure (au_role a) then entry_refusals a now else close_refusals c a)"

definition refused_by :: "refusals \<Rightarrow> unit outcome" where
  "refused_by rs = (case find fst rs of None \<Rightarrow> Inr () | Some (_, message) \<Rightarrow> Inl (BrokerWriteDisabled message))"

definition validate_write_authority ::
  "BrokerOrderCommand \<Rightarrow> BinanceUsdmNormalOrderAuthority \<Rightarrow> instant \<Rightarrow> unit outcome" where
  "validate_write_authority c a now = refused_by (write_refusals c a now)"

definition INVALID_RECOVERY :: string where
  "INVALID_RECOVERY = ''Binance USD-M recovery command is invalid''"

definition recovery_refusals :: "BrokerOrderCommand \<Rightarrow> refusals" where
  "recovery_refusals c =
     [(uuid_version (cmd_id c) \<noteq> Some 7 \<or> uuid_version (cmd_account_id c) \<noteq> Some 7, INVALID_RECOVERY),
      ((case cmd_dispatch_attempted_at c of None \<Rightarrow> True | Some t \<Rightarrow> \<not> whole_second t)
         \<or> \<not> whole_second (cmd_not_after c), INVALID_RECOVERY),
      (cmd_broker_client_order_id c \<noteq> binance_normal_client_order_id (cmd_id c),
         ''Binance USD-M deterministic client ID does not match''),
      (cmd_command_type c \<noteq> SUBMIT \<or> cmd_target_broker_order_id c \<noteq> None \<or> cmd_replaces_command_id c \<noteq> None
         \<or> \<not> writes_to_a_venue (cmd_origin_type c) (cmd_authority_class c)
         \<or> length (cmd_canonical_payload_hash c) \<noteq> 32
         \<or> (case cmd_dispatch_attempted_at c of None \<Rightarrow> True | Some t \<Rightarrow> cmd_not_after c \<le> t), INVALID_RECOVERY)]"

definition validate_persisted_command ::
  "('e OrderEnv_scheme) \<Rightarrow> BrokerOrderCommand \<Rightarrow> BinanceUsdmNormalOrderRecord \<Rightarrow> unit outcome" where
  "validate_persisted_command E c r =
     (case first_error (NormalOrderRecord_checks (oe_sha256 E) r) of
        Some e \<Rightarrow> Inl (Py e)
      | None \<Rightarrow>
          refused_by
            [(no_command_id r \<noteq> cmd_id c \<or> no_account_id r \<noteq> cmd_account_id c
                \<or> no_client_order_id r \<noteq> cmd_broker_client_order_id c
                \<or> no_request_digest r \<noteq> cmd_canonical_payload_hash c
                \<or> Some (no_prepared_at r) \<noteq> cmd_dispatch_attempted_at c \<or> no_not_after r \<noteq> cmd_not_after c,
              ''Binance USD-M persisted command identity does not match'')])"

section \<open>The request and its answers\<close>

definition build_binance_usdm_order_request :: "BrokerOrderCommand \<Rightarrow> BinanceUsdmNormalOrderAuthority \<Rightarrow> BrokerRequest outcome" where
  "build_binance_usdm_order_request c a =
     (let body = (\<lambda>priced.
            [(''symbol'', au_symbol a), (''side'', side_value (cmd_side c)), (''positionSide'', ''BOTH''),
             (''type'', style_value (cmd_order_style c)), (''quantity'', decimal_text (cmd_quantity c))]
            @ priced
            @ (if opens_exposure (au_role a) then [] else [(''reduceOnly'', ''true'')])
            @ [(''newClientOrderId'', cmd_broker_client_order_id c), (''newOrderRespType'', ''RESULT'')]);
          request = (\<lambda>priced. \<lparr>wr_method = ''POST'', wr_path = ''/fapi/v1/order'', wr_query = [], wr_body = Some (body priced)\<rparr>)
      in case cmd_order_style c of
           MARKET \<Rightarrow> Inr (request [])
         | LIMIT \<Rightarrow>
             (case cmd_limit_price c of
                None \<Rightarrow> Inl (Py (ValueError ''Binance USD-M request decimal must be an exact Decimal''))
              | Some p \<Rightarrow> Inr (request [(''price'', decimal_text p), (''timeInForce'', cmd_time_in_force c)])))"

definition request_body :: "BrokerRequest \<Rightarrow> params" where
  "request_body q = (case wr_body q of None \<Rightarrow> [] | Some b \<Rightarrow> b)"

definition prepared_record ::
  "('e OrderEnv_scheme) \<Rightarrow> BrokerOrderCommand \<Rightarrow> BinanceUsdmNormalOrderAuthority \<Rightarrow> BrokerRequest
     \<Rightarrow> BinanceUsdmNormalOrderRecord outcome" where
  "prepared_record E c a q =
     (case cmd_dispatch_attempted_at c of
        None \<Rightarrow> Inl (Py (snd (utc_check ''dispatch_attempted_at'' 0)))
      | Some attempted_at \<Rightarrow>
          let r = \<lparr>no_command_id = cmd_id c, no_account_id = cmd_account_id c, no_binding_id = au_binding_id a,
                   no_client_order_id = cmd_broker_client_order_id c, no_request_body = request_body q,
                   no_request_digest = oe_sha256 E (request_body q), no_prepared_at = attempted_at,
                   no_not_after = cmd_not_after c, no_dispatch_count = 1, no_state = PREPARED_ORDER, no_result = None\<rparr>
          in py (validated (utc_check ''dispatch_attempted_at'' attempted_at # NormalOrderRecord_checks (oe_sha256 E) r) r))"

definition decode_provider_order :: "BrokerResponse \<Rightarrow> BinanceUsdmNormalOrderRecord \<Rightarrow> ProviderOrder result" where
  "decode_provider_order resp r =
     (case json_object resp of
        None \<Rightarrow> Inl (ValueError ''Binance USD-M response object is invalid'')
      | Some payload \<Rightarrow>
          let get = (\<lambda>k. payload_get k payload); expected = map_of (no_request_body r) in
          and_then (json_integer ''orderId'' 1 (get ''orderId'')) (\<lambda>order_id.
          and_then (json_text ''clientOrderId'' (get ''clientOrderId'')) (\<lambda>client_order_id.
          and_then (json_text ''symbol'' (get ''symbol'')) (\<lambda>symbol.
          and_then (json_text ''status'' (get ''status'')) (\<lambda>status.
          and_then (json_text ''side'' (get ''side'')) (\<lambda>side.
          and_then (json_text ''type'' (get ''type'')) (\<lambda>order_type.
          and_then (json_decimal ''origQty'' (get ''origQty'')) (\<lambda>original_quantity.
          and_then (json_decimal ''executedQty'' (get ''executedQty'')) (\<lambda>executed_quantity.
          and_then (json_decimal ''cumQuote'' (get ''cumQuote'')) (\<lambda>cumulative_quote.
          and_then (json_decimal ''avgPrice'' (get ''avgPrice'')) (\<lambda>average_price.
          and_then (json_boolean ''reduceOnly'' (get ''reduceOnly'')) (\<lambda>reduce_only.
          and_then (json_text ''positionSide'' (get ''positionSide'')) (\<lambda>position_side.
          and_then (case expected ''quantity'' of None \<Rightarrow> Inl (bad_value ''expected quantity'')
                                                | Some t \<Rightarrow> text_decimal ''expected quantity'' t) (\<lambda>quantity.
            case (parse_side side, if order_type = ''MARKET'' then Some MARKET else if order_type = ''LIMIT'' then Some LIMIT else None) of
              (Some s, Some style) \<Rightarrow>
                if client_order_id \<noteq> no_client_order_id r \<or> Some symbol \<noteq> expected ''symbol''
                   \<or> Some side \<noteq> expected ''side'' \<or> Some order_type \<noteq> expected ''type''
                   \<or> original_quantity \<noteq> quantity \<or> reduce_only \<noteq> (expected ''reduceOnly'' = Some ''true'')
                   \<or> position_side \<noteq> ''BOTH'' \<or> status \<notin> set ALLOWED_ORDER_STATUSES \<or> executed_quantity < 0
                   \<or> executed_quantity > original_quantity \<or> cumulative_quote < 0 \<or> average_price < 0
                then Inl (ValueError ''Binance USD-M normal order response is invalid'')
                else Inr \<lparr>po_order_id = order_id, po_client_order_id = client_order_id, po_symbol = symbol, po_status = status,
                          po_side = s, po_order_type = style, po_original_quantity = original_quantity,
                          po_executed_quantity = executed_quantity, po_cumulative_quote = cumulative_quote,
                          po_average_price = average_price, po_reduce_only = reduce_only, po_position_side = position_side\<rparr>
            | _ \<Rightarrow> Inl (ValueError ''not a valid member'')))))))))))))))"

text \<open>\<^verbatim>\<open>_provider_time\<close>: milliseconds since the epoch, up to the year 9999.\<close>

definition provider_time :: "json \<Rightarrow> instant result" where
  "provider_time j =
     (case j of
        JInt n \<Rightarrow> if n < 0 \<or> 253402300800000 \<le> n then Inl (ValueError ''Binance USD-M provider time is invalid'')
                  else Inr (n * 1000)
      | _ \<Rightarrow> Inl (ValueError ''Binance USD-M provider time is invalid''))"

definition decode_fill :: "ProviderOrder \<Rightarrow> json \<Rightarrow> BinanceUsdmFill result" where
  "decode_fill ord raw =
     (case raw of
        JObject row \<Rightarrow>
          let get = (\<lambda>k. payload_get k row) in
          and_then (json_integer ''trade id'' 0 (get ''id'')) (\<lambda>trade_id.
          and_then (json_integer ''orderId'' 1 (get ''orderId'')) (\<lambda>order_id.
          and_then (json_text ''side'' (get ''side'')) (\<lambda>side.
          case parse_side side of
            None \<Rightarrow> Inl (ValueError ''not a valid Side'')
          | Some sd \<Rightarrow>
              and_then (json_decimal ''qty'' (get ''qty'')) (\<lambda>quantity.
              and_then (json_decimal ''price'' (get ''price'')) (\<lambda>price.
              and_then (json_decimal ''commission'' (get ''commission'')) (\<lambda>commission.
              and_then (json_text ''commissionAsset'' (get ''commissionAsset'')) (\<lambda>asset.
              and_then (json_decimal ''realizedPnl'' (get ''realizedPnl'')) (\<lambda>realized_pnl.
              and_then (provider_time (get ''time'')) (\<lambda>occurred_at.
                let f = \<lparr>bf_trade_id = trade_id, bf_order_id = order_id, bf_side = sd, bf_quantity = quantity,
                         bf_price = price, bf_commission = commission, bf_commission_asset = asset,
                         bf_realized_pnl = realized_pnl, bf_occurred_at = occurred_at\<rparr>
                in and_then (validated (BinanceUsdmFill_checks f) f) (\<lambda>f.
                     if get ''symbol'' \<noteq> JText SYMBOL \<or> bf_order_id f \<noteq> po_order_id ord \<or> bf_side f \<noteq> po_side ord
                     then Inl (ValueError ''Binance USD-M fill identity is invalid'') else Inr f))))))))))
      | _ \<Rightarrow> Inl (ValueError ''Binance USD-M response object is invalid''))"

fun decode_rows :: "ProviderOrder \<Rightarrow> json list \<Rightarrow> BinanceUsdmFill list result" where
  "decode_rows ord [] = Inr []"
| "decode_rows ord (raw # rows) =
     and_then (decode_fill ord raw) (\<lambda>f. and_then (decode_rows ord rows) (\<lambda>fs. Inr (f # fs)))"

definition decode_fills :: "BrokerResponse \<Rightarrow> ProviderOrder \<Rightarrow> BinanceUsdmFill list result" where
  "decode_fills resp ord =
     (case resp_body resp of
        Some (JList rows) \<Rightarrow>
          and_then (decode_rows ord rows) (\<lambda>fills.
            let fs = sort_key bf_trade_id fills
            in if \<not> distinct (map bf_trade_id fs) then Inl (ValueError ''duplicate Binance USD-M trade ID'') else Inr fs)
      | _ \<Rightarrow> Inl (ValueError ''Binance USD-M fill response is invalid''))"

definition filled_quantity :: "BinanceUsdmFill list \<Rightarrow> decimal" where
  "filled_quantity fills = dsum (map bf_quantity fills)"

definition quote_quantity :: "BinanceUsdmFill list \<Rightarrow> decimal" where
  "quote_quantity fills = dsum (map (\<lambda>f. dmul (bf_quantity f) (bf_price f)) fills)"

definition expected_average :: "BinanceUsdmFill list \<Rightarrow> decimal" where
  "expected_average fills =
     (if filled_quantity fills = 0 then 0 else ddiv (quote_quantity fills) (filled_quantity fills))"

definition match_cumulative_order_facts :: "ProviderOrder \<Rightarrow> BinanceUsdmFill list \<Rightarrow> unit result" where
  "match_cumulative_order_facts ord fills =
     validated
       [(filled_quantity fills \<noteq> po_executed_quantity ord \<or> quote_quantity fills \<noteq> po_cumulative_quote ord,
           ValueError ''Binance USD-M cumulative fill evidence does not match''),
        (po_average_price ord \<noteq> expected_average fills, ValueError ''Binance USD-M average fill price does not match'')] ()"

definition commissions_of :: "BinanceUsdmFill list \<Rightarrow> (string \<times> decimal) list" where
  "commissions_of fills =
     map (\<lambda>asset. (asset, dsum (map bf_commission (filter (\<lambda>f. bf_commission_asset f = asset) fills))))
       (sorted_set (map bf_commission_asset fills))"

definition binance_provider_order_id :: "int \<Rightarrow> string" where
  "binance_provider_order_id order_id = ''BINANCE-USDM:'' @ nat_str order_id"

definition get_request :: "string \<Rightarrow> params \<Rightarrow> BrokerRequest" where
  "get_request path query = \<lparr>wr_method = ''GET'', wr_path = path, wr_query = query, wr_body = None\<rparr>"

definition write_result :: "ProviderOrder \<Rightarrow> BinanceUsdmFill list \<Rightarrow> bool \<Rightarrow> BrokerWriteResult result" where
  "write_result ord fills recovered =
     (let r = \<lparr>bw_broker_order_id = binance_provider_order_id (po_order_id ord), bw_client_order_id = po_client_order_id ord,
               bw_provider_state = po_status ord, bw_cumulative_filled_quantity = po_executed_quantity ord,
               bw_cumulative_quote_quantity = po_cumulative_quote ord, bw_average_fill_price = po_average_price ord,
               bw_commissions = commissions_of fills, bw_fills = fills, bw_recovered = recovered\<rparr>
      in validated (BrokerWriteResult_checks r) r)"

text \<open>\<^verbatim>\<open>_result_with_fills\<close>\<close>

definition fills_evidence :: "ProviderOrder \<Rightarrow> bool \<Rightarrow> BrokerResponse \<Rightarrow> BrokerWriteResult result" where
  "fills_evidence ord recovered resp =
     (if resp_status resp \<noteq> 200 then Inl (ValueError ''Binance USD-M fills are unavailable'')
      else and_then (decode_fills resp ord) (\<lambda>fills.
           and_then (match_cumulative_order_facts ord fills) (\<lambda>_. write_result ord fills recovered)))"

definition result_with_fills ::
  "('e OrderEnv_scheme) \<Rightarrow> ProviderOrder \<Rightarrow> bool \<Rightarrow> ('x OrderWorld_scheme, BrokerWriteResult) op" where
  "result_with_fills E ord recovered =
     followed_by
       (send E (get_request ''/fapi/v1/userTrades''
          [(''symbol'', SYMBOL), (''orderId'', nat_str (po_order_id ord)), (''limit'', ''1000'')]))
       (\<lambda>answer. case answer of
          SendCancelled \<Rightarrow> throw Cancellation
        | Answer resp \<Rightarrow> pure_op (py (fills_evidence ord recovered resp))
        | _ \<Rightarrow> throw SenderError)"

section \<open>Submission and recovery\<close>

definition order_evidence ::
  "('e OrderEnv_scheme) \<Rightarrow> BinanceUsdmNormalOrderRecord \<Rightarrow> BrokerResponse \<Rightarrow> bool \<Rightarrow> ('x OrderWorld_scheme, BrokerWriteResult) op" where
  "order_evidence E r resp recovered =
     followed_by (pure_op (py (decode_provider_order resp r))) (\<lambda>ord. result_with_fills E ord recovered)"

definition acknowledge ::
  "('e OrderEnv_scheme) \<Rightarrow> string \<Rightarrow> BrokerWriteResult \<Rightarrow> ('x OrderWorld_scheme, BrokerWriteResult) op" where
  "acknowledge E cid x = followed_by (finish_order E cid ACKNOWLEDGED_ORDER (Some x)) (\<lambda>_. give x)"

text \<open>The evidence is read under a handler, then the record is finished.\<close>

definition confirmed ::
  "('e OrderEnv_scheme) \<Rightarrow> string \<Rightarrow> BinanceUsdmNormalOrderRecord \<Rightarrow> BrokerResponse \<Rightarrow> bool
     \<Rightarrow> (venue_error \<Rightarrow> ('x OrderWorld_scheme, BrokerWriteResult) op) \<Rightarrow> ('x OrderWorld_scheme, BrokerWriteResult) op" where
  "confirmed E cid r resp recovered handler =
     followed_by (rescued (order_evidence E r resp recovered) handler) (acknowledge E cid)"

definition recover_by_client_id ::
  "('e OrderEnv_scheme) \<Rightarrow> string \<Rightarrow> ('x OrderWorld_scheme, BrokerWriteResult) op" where
  "recover_by_client_id E cid =
     (if \<not> client_id_text cid then throw (Py (ValueError ''Binance USD-M client order ID is invalid''))
      else followed_by (load_by_client_id E cid) (\<lambda>loaded. case loaded of
        None \<Rightarrow> throw (OrderUnknown ''Binance USD-M durable order record is unavailable'')
      | Some r \<Rightarrow>
          (case no_state r of
             ACKNOWLEDGED_ORDER \<Rightarrow> (case no_result r of Some x \<Rightarrow> give x | None \<Rightarrow> throw (Py AssertionError))
           | REJECTED_ORDER \<Rightarrow> throw (OrderRejected ''Binance USD-M order was rejected'')
           | UNKNOWN_ORDER \<Rightarrow> throw (OrderUnknown ''Binance USD-M order is terminal unknown'')
           | NOT_SENT \<Rightarrow> throw (OrderNotSent ''Binance USD-M order request was not sent'')
           | _ \<Rightarrow>
               followed_by (send E (get_request ''/fapi/v1/order'' [(''symbol'', SYMBOL), (''origClientOrderId'', cid)]))
                 (\<lambda>answer. case answer of
                    SendCancelled \<Rightarrow> throw Cancellation
                  | Answer resp \<Rightarrow>
                      if is_not_found resp then throw (OrderUnknown ''Binance USD-M order is not yet found'')
                      else if resp_status resp \<noteq> 200 then throw (OrderUnknown ''Binance USD-M order recovery is unavailable'')
                      else confirmed E cid r resp True
                        (\<lambda>e. throw (if e = Cancellation then e
                                   else OrderUnknown ''Binance USD-M recovered order evidence is invalid''))
                  | _ \<Rightarrow> throw (OrderUnknown ''Binance USD-M order recovery is unavailable'')))))"

definition existing_or_recover ::
  "('e OrderEnv_scheme) \<Rightarrow> BinanceUsdmNormalOrderRecord \<Rightarrow> ('x OrderWorld_scheme, BrokerWriteResult) op" where
  "existing_or_recover E r =
     (case no_state r of
        ACKNOWLEDGED_ORDER \<Rightarrow> (case no_result r of Some x \<Rightarrow> give x | None \<Rightarrow> throw (Py AssertionError))
      | REJECTED_ORDER \<Rightarrow> throw (OrderRejected ''Binance USD-M order was rejected'')
      | UNKNOWN_ORDER \<Rightarrow> throw (OrderUnknown ''Binance USD-M order is terminal unknown'')
      | NOT_SENT \<Rightarrow> throw (OrderNotSent ''Binance USD-M order request was not sent'')
      | _ \<Rightarrow> recover_by_client_id E (no_client_order_id r))"

definition ambiguous_then ::
  "('e OrderEnv_scheme) \<Rightarrow> string \<Rightarrow> venue_error \<Rightarrow> ('x OrderWorld_scheme, 'a) op" where
  "ambiguous_then E cid e = followed_by (mark_ambiguous E cid) (\<lambda>_. throw e)"

definition accept_post_response ::
  "('e OrderEnv_scheme) \<Rightarrow> BinanceUsdmNormalOrderRecord \<Rightarrow> BrokerResponse \<Rightarrow> ('x OrderWorld_scheme, BrokerWriteResult) op" where
  "accept_post_response E r resp =
     (let cid = no_client_order_id r; unknown = OrderUnknown ''Binance USD-M order dispatch outcome is unknown''
      in if post_outcome_unknown resp then ambiguous_then E cid unknown
         else if post_rejected resp
           then followed_by (finish_order E cid REJECTED_ORDER None)
                  (\<lambda>_. throw (OrderRejected ''Binance USD-M order was rejected''))
         else if resp_status resp \<noteq> 200 then ambiguous_then E cid unknown
         else confirmed E cid r resp False
           (\<lambda>e. ambiguous_then E cid (if e = Cancellation then e
                   else OrderUnknown ''Binance USD-M order acknowledgement is invalid'')))"

definition post_claimed ::
  "('e OrderEnv_scheme) \<Rightarrow> BinanceUsdmNormalOrderRecord \<Rightarrow> BrokerRequest \<Rightarrow> ('x OrderWorld_scheme, BrokerWriteResult) op" where
  "post_claimed E r request =
     followed_by (send E request) (\<lambda>answer. case answer of
       PreSendFailure \<Rightarrow>
         followed_by (mark_not_sent E (no_client_order_id r) (no_request_digest r))
           (\<lambda>_. throw (OrderNotSent ''Binance USD-M order request was not sent''))
     | SendCancelled \<Rightarrow> ambiguous_then E (no_client_order_id r) Cancellation
     | SendFailed \<Rightarrow>
         ambiguous_then E (no_client_order_id r) (OrderUnknown ''Binance USD-M order dispatch outcome is unknown'')
     | Answer resp \<Rightarrow> accept_post_response E r resp)"

definition submit_new ::
  "('e OrderEnv_scheme) \<Rightarrow> BrokerOrderCommand \<Rightarrow> instant \<Rightarrow> ('x OrderWorld_scheme, BrokerWriteResult) op" where
  "submit_new E c now =
     followed_by (pure_op (oe_authority E c)) (\<lambda>a.
     followed_by (pure_op (validate_write_authority c a now)) (\<lambda>_.
     followed_by (pure_op (build_binance_usdm_order_request c a)) (\<lambda>request.
       if cmd_canonical_payload_hash c \<noteq> oe_sha256 E (request_body request)
         then throw (BrokerWriteDisabled ''Binance USD-M canonical payload hash does not match'')
       else followed_by (pure_op (prepared_record E c a request)) (\<lambda>prepared.
            followed_by (prepare_order E prepared) (\<lambda>(r, acquired).
              if acquired then post_claimed E r request else existing_or_recover E r)))))"

definition submit_locked ::
  "('e OrderEnv_scheme) \<Rightarrow> BrokerOrderCommand \<Rightarrow> ('x OrderWorld_scheme, BrokerWriteResult) op" where
  "submit_locked E c =
     followed_by (clock_now E ''order service clock'') (\<lambda>now.
     followed_by (pure_op (refused_by (recovery_refusals c))) (\<lambda>_.
     followed_by (load_by_client_id E (cmd_broker_client_order_id c)) (\<lambda>loaded. case loaded of
       None \<Rightarrow> submit_new E c now
     | Some r \<Rightarrow>
         followed_by (pure_op (validate_persisted_command E c r)) (\<lambda>_.
           if no_state r \<noteq> NOT_SENT then existing_or_recover E r else submit_new E c now))))"

section \<open>What has reached the venue\<close>

definition reaches :: "string \<Rightarrow> BrokerRequest \<times> reply \<Rightarrow> bool" where
  "reaches cid e \<longleftrightarrow>
     wr_method (fst e) = ''POST'' \<and> wr_path (fst e) = ''/fapi/v1/order''
     \<and> (''newClientOrderId'', cid) \<in> set (request_body (fst e)) \<and> snd e \<noteq> PreSendFailure"

definition posted :: "string \<Rightarrow> (BrokerRequest \<times> reply) list \<Rightarrow> nat" where
  "posted cid h = length (filter (reaches cid) h)"

text \<open>An answer agrees with its fills.\<close>

definition answer_agrees :: "string \<Rightarrow> BrokerWriteResult \<Rightarrow> bool" where
  "answer_agrees cid x \<longleftrightarrow>
     bw_client_order_id x = cid \<and> distinct (map bf_trade_id (bw_fills x))
     \<and> bw_cumulative_filled_quantity x = filled_quantity (bw_fills x)
     \<and> bw_cumulative_quote_quantity x = quote_quantity (bw_fills x)
     \<and> bw_average_fill_price x = expected_average (bw_fills x)
     \<and> bw_commissions x = commissions_of (bw_fills x)"

definition venue_inv :: "'x OrderWorld_scheme \<Rightarrow> bool" where
  "venue_inv w \<longleftrightarrow>
     distinct (map no_client_order_id (ow_orders w))
     \<and> (\<forall>cid. posted cid (ow_log w) \<le> 1)
     \<and> (\<forall>cid. 0 < posted cid (ow_log w) \<longrightarrow>
          (\<exists>r \<in> set (ow_orders w). no_client_order_id r = cid \<and> no_state r \<noteq> NOT_SENT))
     \<and> (\<forall>r \<in> set (ow_orders w). \<forall>x. no_result r = Some x \<longrightarrow> answer_agrees (no_client_order_id r) x)"

lemma posted_append: "posted cid (h @ [e]) = posted cid h + (if reaches cid e then 1 else 0)"
  by (simp add: posted_def)

lemma find_order_Some:
  "find_order cid w = Some r \<Longrightarrow> r \<in> set (ow_orders w) \<and> no_client_order_id r = cid"
  using next_where_Some by (fastforce simp: find_order_def)

lemma read_order_Inr: "read_order E r = Inr x \<Longrightarrow> x = r"
  by (auto simp: read_order_def py_def validated_def split: option.splits)

lemma change_order_simps [simp]:
  "ow_log (change_order cid f w) = ow_log w"
  "ow_orders (change_order cid f w) = map (\<lambda>r. if no_client_order_id r = cid then f r else r) (ow_orders w)"
  by (simp_all add: change_order_def)

lemma change_order_inv:
  assumes "venue_inv w" "\<And>r. no_client_order_id (f r) = no_client_order_id r"
    and "\<And>r. no_state (f r) = NOT_SENT \<Longrightarrow> posted cid (ow_log w) = 0"
    and "\<And>r x. no_result (f r) = Some x \<Longrightarrow> answer_agrees cid x"
  shows "venue_inv (change_order cid f w)"
proof -
  have "map no_client_order_id (ow_orders (change_order cid f w)) = map no_client_order_id (ow_orders w)"
    by (simp add: assms(2))
  then have "distinct (map no_client_order_id (ow_orders (change_order cid f w)))"
    using assms(1) by (simp only: venue_inv_def)
  moreover have "\<exists>r \<in> set (ow_orders (change_order cid f w)). no_client_order_id r = c \<and> no_state r \<noteq> NOT_SENT"
    if "0 < posted c (ow_log w)" for c
  proof -
    from assms(1) that obtain r where r: "r \<in> set (ow_orders w)" "no_client_order_id r = c" "no_state r \<noteq> NOT_SENT"
      by (auto simp: venue_inv_def)
    show ?thesis
    proof (cases "c = cid")
      case True
      then show ?thesis using r assms(2,3) that by (force simp: image_iff)
    next
      case False
      then show ?thesis using r by force
    qed
  qed
  moreover have "answer_agrees (no_client_order_id r) x"
    if "r \<in> set (ow_orders (change_order cid f w))" "no_result r = Some x" for r x
    using that assms(1,2,4) by (auto simp: venue_inv_def split: if_splits)
  ultimately show ?thesis using assms(1) unfolding venue_inv_def change_order_simps(1) by blast
qed

lemma reread_order_state [simp]: "fst (reread_order E cid m w) = w"
  by (simp add: reread_order_def)

lemma finish_order_keeps:
  assumes "state \<noteq> NOT_SENT" "\<And>x. answer = Some x \<Longrightarrow> answer_agrees cid x"
  shows "keeps venue_inv (finish_order E cid state answer)"
  using assms by (auto simp: keeps_def finish_order_def split: option.splits intro!: change_order_inv)

lemma mark_ambiguous_keeps [keeps_intros]: "keeps venue_inv (mark_ambiguous E cid)"
  unfolding mark_ambiguous_def by (rule finish_order_keeps) simp_all

lemma ambiguous_then_keeps [keeps_intros]: "keeps venue_inv (ambiguous_then E cid e)"
  unfolding ambiguous_then_def by (intro keeps_intros)

lemma clock_now_keeps [keeps_intros]: "keeps venue_inv (clock_now E name)"
  by (simp add: keeps_def clock_now_def Let_def venue_inv_def)

lemma load_keeps [keeps_intros]: "keeps venue_inv (load_by_client_id E cid)"
  by (simp add: keeps_def load_by_client_id_def)

lemma send_get_keeps [keeps_intros]: "keeps venue_inv (send E (get_request path query))"
  by (simp add: keeps_def send_def Let_def venue_inv_def posted_append reaches_def get_request_def)

lemma write_result_agrees:
  assumes "match_cumulative_order_facts ord fills = Inr ()" "write_result ord fills b = Inr x"
    and "distinct (map bf_trade_id fills)"
  shows "answer_agrees (po_client_order_id ord) x"
  using assms by (auto simp: match_cumulative_order_facts_def write_result_def answer_agrees_def checks_simps Let_def
      split: if_splits)

lemma decode_fills_distinct:
  assumes "decode_fills resp ord = Inr fills"
  shows "distinct (map bf_trade_id fills)"
  using assms by (auto simp: decode_fills_def and_then_eq_Inr_iff Let_def split: option.splits json.splits if_splits)

lemma fills_evidence_agrees:
  assumes "fills_evidence ord b resp = Inr x"
  shows "answer_agrees (po_client_order_id ord) x"
proof -
  from assms obtain fills where "decode_fills resp ord = Inr fills" "match_cumulative_order_facts ord fills = Inr ()"
    "write_result ord fills b = Inr x"
    by (auto simp: fills_evidence_def and_then_eq_Inr_iff split: if_splits)
  then show ?thesis using write_result_agrees decode_fills_distinct by blast
qed

lemma decode_provider_order_id:
  assumes "decode_provider_order resp r = Inr ord"
  shows "po_client_order_id ord = no_client_order_id r"
  using assms by (auto simp: decode_provider_order_def and_then_eq_Inr_iff Let_def split: option.splits if_splits)

lemma py_Inr_iff [simp]: "py r = Inr x \<longleftrightarrow> r = Inr x"
  by (simp add: py_def split: sum.splits)

lemma order_evidence_agrees: "yields (order_evidence E r resp b) (answer_agrees (no_client_order_id r))"
  unfolding yields_def
proof (intro allI impI)
  fix w v x
  assume "order_evidence E r resp b w = (v, Inr x)"
  then obtain u ord where ord: "decode_provider_order resp r = Inr ord" and res: "result_with_fills E ord b u = (v, Inr x)"
    unfolding order_evidence_def by (auto elim!: followed_by_InrE simp: pure_op_def)
  from res obtain resp' where "fills_evidence ord b resp' = Inr x"
    unfolding result_with_fills_def
    by (auto elim!: followed_by_InrE simp: op_simps split: reply.splits)
  with ord show "answer_agrees (no_client_order_id r) x" using fills_evidence_agrees decode_provider_order_id by metis
qed

lemma order_evidence_keeps [keeps_intros]: "keeps venue_inv (order_evidence E r resp b)"
  unfolding order_evidence_def result_with_fills_def
  by (intro keeps_intros) (auto intro!: keeps_intros split: reply.splits)

lemma acknowledge_keeps: "answer_agrees cid x \<Longrightarrow> keeps venue_inv (acknowledge E cid x)"
  unfolding acknowledge_def by (intro keeps_intros finish_order_keeps) simp_all

lemma confirmed_keeps:
  assumes "no_client_order_id r = cid" "\<And>e. keeps venue_inv (h e)" "\<And>e Q. yields (h e) Q"
  shows "keeps venue_inv (confirmed E cid r resp b h)"
  unfolding confirmed_def
  by (rule keeps_followed_by_yields [where Q = "answer_agrees cid"])
    (simp_all add: keeps_rescued order_evidence_keeps assms yields_rescued acknowledge_keeps
      order_evidence_agrees [where r = r, unfolded assms(1)])

lemma ambiguous_then_yields: "yields (ambiguous_then E cid e) Q"
  unfolding ambiguous_then_def by (rule yields_followed_by) (rule yields_throw)

lemma load_by_client_id_yields:
  "yields (load_by_client_id E cid) (\<lambda>l. \<forall>r. l = Some r \<longrightarrow> no_client_order_id r = cid)"
  by (auto simp: yields_def load_by_client_id_def dest!: find_order_Some read_order_Inr split: option.splits sum.splits)

lemma loaded_keeps:
  assumes "keeps venue_inv (f None)" "\<And>r. no_client_order_id r = cid \<Longrightarrow> keeps venue_inv (f (Some r))"
  shows "keeps venue_inv (followed_by (load_by_client_id E cid) f)"
proof (rule keeps_followed_by_yields [OF load_keeps load_by_client_id_yields])
  fix l :: "BinanceUsdmNormalOrderRecord option" assume "\<forall>r. l = Some r \<longrightarrow> no_client_order_id r = cid"
  with assms show "keeps venue_inv (f l)" by (cases l) auto
qed

lemma recover_keeps [keeps_intros]: "keeps venue_inv (recover_by_client_id E cid)"
  unfolding recover_by_client_id_def
  by (auto intro!: keeps_basic loaded_keeps keeps_followed_by [OF send_get_keeps] confirmed_keeps yields_throw
      split: option.splits BinanceUsdmNormalOrderState.splits reply.splits)

lemma existing_or_recover_keeps [keeps_intros]: "keeps venue_inv (existing_or_recover E r)"
  unfolding existing_or_recover_def
  by (auto intro!: keeps_intros split: option.splits BinanceUsdmNormalOrderState.splits)

lemma accept_post_response_keeps [keeps_intros]: "keeps venue_inv (accept_post_response E r resp)"
  unfolding accept_post_response_def Let_def
  by (auto intro!: keeps_intros finish_order_keeps confirmed_keeps ambiguous_then_yields)

section \<open>The claim and the request\<close>

text \<open>A record that was claimed: nothing has reached the venue under its identifier.\<close>

definition claimed_unsent :: "string \<Rightarrow> 'x OrderWorld_scheme \<Rightarrow> bool" where
  "claimed_unsent cid w \<longleftrightarrow>
     venue_inv w \<and> posted cid (ow_log w) = 0
     \<and> (\<exists>r \<in> set (ow_orders w). no_client_order_id r = cid \<and> no_state r \<noteq> NOT_SENT)"

lemma unsent_row:
  assumes "venue_inv w" "find_order cid w = Some row" "no_state row = NOT_SENT"
  shows "posted cid (ow_log w) = 0"
proof (rule ccontr)
  assume "posted cid (ow_log w) \<noteq> 0"
  with assms(1) obtain r where r: "r \<in> set (ow_orders w)" "no_client_order_id r = cid" "no_state r \<noteq> NOT_SENT"
    by (auto simp: venue_inv_def)
  from find_order_Some [OF assms(2)] r assms(1) have "row = r"
    by (auto simp: venue_inv_def distinct_map dest: inj_onD)
  with r assms(3) show False by simp
qed

lemma prepare_order_claims:
  assumes inv: "venue_inv w" and p: "prepare_order E r w = (v, res)"
  shows "venue_inv v \<and> (\<forall>x. res = Inr (x, True) \<longrightarrow>
           no_client_order_id x = no_client_order_id r \<and> claimed_unsent (no_client_order_id r) v)"
proof -
  let ?cid = "no_client_order_id r"
  let ?ok = "first_error (NormalOrderRecord_checks (oe_sha256 E) r) = None \<and> no_state r = PREPARED_ORDER"
  let ?taken = "list_ex (\<lambda>s. no_client_order_id s = ?cid \<or> no_command_id s = no_command_id r) (ow_orders w)"
  let ?again = "\<lambda>row. row\<lparr>no_state := PREPARED_ORDER, no_dispatch_count := no_dispatch_count row + 1,
                     no_prepared_at := no_prepared_at r, no_not_after := no_not_after r, no_result := None\<rparr>"
  consider (same) "v = w" "\<And>x. res \<noteq> Inr (x, True)"
    | (insert) "v = w\<lparr>ow_orders := ow_orders w @ [r]\<rparr>" "res = Inr (r, True)" "no_state r = PREPARED_ORDER"
        "\<forall>s \<in> set (ow_orders w). no_client_order_id s \<noteq> ?cid"
        "first_error (NormalOrderRecord_checks (oe_sha256 E) r) = None"
    | (again) row where "find_order ?cid w = Some row" "no_state row = NOT_SENT" "v = change_order ?cid ?again w"
        "\<And>x. res = Inr (x, True) \<Longrightarrow> no_client_order_id x = ?cid"
  proof (cases "?ok \<and> ?taken")
    case True
    show ?thesis
    proof (cases "find_order ?cid w")
      case None
      with True p show ?thesis by (intro that(1)) (auto simp: prepare_order_def)
    next
      case (Some row)
      show ?thesis
      proof (cases "require_same_request row r = Inr () \<and> no_state row = NOT_SENT")
        case False
        with True Some p show ?thesis
          by (intro that(1)) (auto simp: prepare_order_def split: sum.splits if_splits)
      next
        case ok: True
        then have step: "followed_by (\<lambda>v. reread_order E ?cid ''Binance USD-M order record vanished during retry''
            (change_order ?cid ?again v)) (\<lambda>x. give (x, True)) w = (v, res)"
          using True Some p by (simp add: prepare_order_def)
        show ?thesis
        proof (rule that(3) [OF Some])
          show "no_state row = NOT_SENT" using ok by simp
          show "v = change_order ?cid ?again w"
            using step by (auto simp: followed_by_def give_def reread_order_def split: prod.splits sum.splits)
          show "no_client_order_id x = ?cid" if "res = Inr (x, True)" for x
            using step that find_order_Some
            by (auto simp: followed_by_def give_def reread_order_def dest!: read_order_Inr split: prod.splits sum.splits option.splits)
        qed
      qed
    qed
  next
    case False
    with p show ?thesis
      by (cases ?ok) (auto intro: that(1) that(2) simp: prepare_order_def list_ex_iff split: option.splits if_splits)
  qed
  then show ?thesis
  proof cases
    case same
    with inv show ?thesis by simp
  next
    case insert
    have none: "posted ?cid (ow_log w) = 0"
      using inv insert(4) by (auto simp: venue_inv_def)
    have "no_result r = None" using insert(3,5) by (auto simp: NormalOrderRecord_checks_def first_error_None_iff)
    then have "venue_inv v" using inv insert(1,4) by (auto simp: venue_inv_def)
    with insert none show ?thesis by (simp add: claimed_unsent_def)
  next
    case again
    have none: "posted ?cid (ow_log w) = 0" by (rule unsent_row [OF inv again(1,2)])
    have "venue_inv v" unfolding again(3) by (rule change_order_inv [OF inv]) (simp_all add: none)
    moreover have "\<exists>r' \<in> set (ow_orders v). no_client_order_id r' = ?cid \<and> no_state r' \<noteq> NOT_SENT"
    proof (rule bexI)
      show "?again row \<in> set (ow_orders v)"
        using find_order_Some [OF again(1)] by (auto simp: again(3) image_iff intro!: bexI [of _ row])
    qed (use find_order_Some [OF again(1)] in simp)
    ultimately show ?thesis using none again(3,4) by (simp add: claimed_unsent_def)
  qed
qed

text \<open>The body of a built request names the client identifier of its command, once.\<close>

lemma built_request:
  assumes "build_binance_usdm_order_request c a = Inr q"
  shows "wr_method q = ''POST''" "wr_path q = ''/fapi/v1/order''"
    and "(''newClientOrderId'', cid) \<in> set (request_body q) \<longleftrightarrow> cid = cmd_broker_client_order_id c"
  using assms by (auto simp: build_binance_usdm_order_request_def request_body_def Let_def split: OrderStyle.splits option.splits if_splits)

lemma closing_request:
  assumes "build_binance_usdm_order_request c a = Inr q" "\<not> opens_exposure (au_role a)"
  shows "(''reduceOnly'', ''true'') \<in> set (request_body q)"
  using assms by (auto simp: build_binance_usdm_order_request_def request_body_def Let_def split: OrderStyle.splits option.splits)

lemma prepared_record_Inr:
  assumes "prepared_record E c a q = Inr r"
  shows "no_client_order_id r = cmd_broker_client_order_id c" "no_state r = PREPARED_ORDER"
    and "no_request_body r = request_body q" "no_request_digest r = oe_sha256 E (request_body q)"
  using assms by (auto simp: prepared_record_def Let_def checks_simps split: option.splits)

lemma post_claimed_keeps:
  assumes w: "claimed_unsent cid w" and r: "no_client_order_id r = cid"
    and q: "wr_method q = ''POST''" "wr_path q = ''/fapi/v1/order''"
      "\<And>c. (''newClientOrderId'', c) \<in> set (request_body q) \<longleftrightarrow> c = cid"
  shows "venue_inv (fst (post_claimed E r q w))"
proof -
  let ?a = "oe_send E (ow_log w) q"
  let ?v = "w\<lparr>ow_log := ow_log w @ [(q, ?a)]\<rparr>"
  have count: "posted c (ow_log ?v) = posted c (ow_log w) + (if c = cid \<and> ?a \<noteq> PreSendFailure then 1 else 0)" for c
    by (simp add: posted_append reaches_def q)
  have v: "venue_inv ?v"
    using w unfolding venue_inv_def claimed_unsent_def count by auto
  have step: "post_claimed E r q w = (case ?a of
       PreSendFailure \<Rightarrow> followed_by (mark_not_sent E (no_client_order_id r) (no_request_digest r))
           (\<lambda>_. throw (OrderNotSent ''Binance USD-M order request was not sent''))
     | SendCancelled \<Rightarrow> ambiguous_then E (no_client_order_id r) Cancellation
     | SendFailed \<Rightarrow>
         ambiguous_then E (no_client_order_id r) (OrderUnknown ''Binance USD-M order dispatch outcome is unknown'')
     | Answer resp \<Rightarrow> accept_post_response E r resp) ?v"
    by (simp add: post_claimed_def followed_by_def send_def Let_def)
  show ?thesis
  proof (cases ?a)
    case PreSendFailure
    then have none: "posted cid (ow_log ?v) = 0" using w count by (simp add: claimed_unsent_def)
    have "venue_inv (fst (mark_not_sent E cid (no_request_digest r) ?v))"
      using v none by (auto simp: mark_not_sent_def split: option.splits intro!: change_order_inv)
    then show ?thesis
      unfolding step using PreSendFailure r by (auto simp: followed_by_def throw_def split: prod.splits sum.splits)
  qed (use v in \<open>simp_all add: step keeps_at ambiguous_then_keeps accept_post_response_keeps\<close>)
qed

lemma submit_new_keeps [keeps_intros]:
  "keeps venue_inv (submit_new E c now :: ('x OrderWorld_scheme, BrokerWriteResult) op)"
  unfolding keeps_def
proof (intro allI impI)
  fix w :: "'x OrderWorld_scheme"
  assume inv: "venue_inv w"
  show "venue_inv (fst (submit_new E c now w))"
  proof (cases "\<exists>a q p. oe_authority E c = Inr a \<and> validate_write_authority c a now = Inr ()
        \<and> build_binance_usdm_order_request c a = Inr q \<and> cmd_canonical_payload_hash c = oe_sha256 E (request_body q)
        \<and> prepared_record E c a q = Inr p")
    case False
    then have "fst (submit_new E c now w) = w"
      by (auto simp: submit_new_def followed_by_def pure_op_def throw_def split: sum.splits)
    with inv show ?thesis by simp
  next
    case True
    then obtain a q p where a: "oe_authority E c = Inr a" "validate_write_authority c a now = Inr ()"
      and q: "build_binance_usdm_order_request c a = Inr q" "cmd_canonical_payload_hash c = oe_sha256 E (request_body q)"
      and p: "prepared_record E c a q = Inr p" by blast
    have s: "submit_new E c now w = followed_by (prepare_order E p)
        (\<lambda>(r, acquired). if acquired then post_claimed E r q else existing_or_recover E r) w"
      by (simp add: submit_new_def followed_by_def pure_op_def a q p)
    obtain v res where v: "prepare_order E p w = (v, res)" by fastforce
    note claim = prepare_order_claims [OF inv v]
    show ?thesis
    proof (cases "\<exists>r. res = Inr (r, True)")
      case True
      then obtain r where r: "res = Inr (r, True)" by blast
      then have r': "claimed_unsent (cmd_broker_client_order_id c) v" "no_client_order_id r = cmd_broker_client_order_id c"
        using claim prepared_record_Inr(1) [OF p] by auto
      from post_claimed_keeps [OF r' built_request [OF q(1)], of E] r show ?thesis
        by (simp add: s followed_by_def v)
    next
      case False
      then show ?thesis
        using claim by (auto simp: s followed_by_def v split: sum.splits
            intro: keeps_at existing_or_recover_keeps)
    qed
  qed
qed

lemma submit_locked_keeps: "keeps venue_inv (submit_locked E c)"
  unfolding submit_locked_def by (intro keeps_intros) (auto intro!: keeps_intros split: option.splits)

section \<open>Runs of calls\<close>

text \<open>Calls in any order, each with the venue, the clock and the authority as they are then.\<close>

datatype order_call = Submit OrderEnv BrokerOrderCommand | RecoverOrder OrderEnv string

fun order_call_step :: "OrderWorld \<Rightarrow> order_call \<Rightarrow> OrderWorld option" where
  "order_call_step w (Submit E c) = Some (fst (submit_locked E c w))"
| "order_call_step w (RecoverOrder E cid) = Some (fst (recover_by_client_id E cid w))"

definition no_orders :: OrderWorld where
  "no_orders = \<lparr>ow_orders = [], ow_log = [], ow_ticks = 0\<rparr>"

interpretation order_service: transition_system order_call_step "venue_inv :: OrderWorld \<Rightarrow> bool"
proof
  fix w w' :: OrderWorld and e
  assume "venue_inv w" "order_call_step w e = Some w'"
  then show "venue_inv w'"
    by (cases e) (auto intro: keeps_at submit_locked_keeps recover_keeps)
qed

lemma no_orders_inv: "venue_inv no_orders"
  by (simp add: venue_inv_def no_orders_def posted_def)

lemmas order_run_inv = order_service.run_inv [OF no_orders_inv]

text \<open>C12: 
  However calls of \<^verbatim>\<open>submit_locked\<close> and \<^verbatim>\<open>recover_by_client_id\<close> follow each other, and
  whatever the venue answers, at most one request with a given client order identifier can have reached
  the venue; a request counts unless the transport proved that no byte was sent.
\<close>

theorem order_reaches_venue_at_most_once:
  "posted cid (ow_log (run_steps order_call_step no_orders calls)) \<le> 1"
  using order_run_inv by (simp add: venue_inv_def)

section \<open>What is sent is authorized\<close>

text \<open>An operation sends only requests of a kind.\<close>

definition sends_only :: "(BrokerRequest \<Rightarrow> bool) \<Rightarrow> ('x OrderWorld_scheme, 'a) op \<Rightarrow> bool" where
  "sends_only P m \<longleftrightarrow>
     (\<forall>w. \<exists>es. ow_log (fst (m w)) = ow_log w @ es \<and> (\<forall>e \<in> set es. P (fst e)))"

named_theorems sends_intros \<open>operations and the requests they send\<close>

lemma sends_basic [sends_intros]: "sends_only P (give x)" "sends_only P (throw e)" "sends_only P (pure_op r)"
  by (simp_all add: sends_only_def op_defs)

lemma sends_state: "(\<And>w. ow_log (fst (m w)) = ow_log w) \<Longrightarrow> sends_only P m"
  by (simp add: sends_only_def)

lemma sends_onlyE:
  assumes "sends_only P m"
  obtains es where "ow_log (fst (m w)) = ow_log w @ es" "\<forall>e \<in> set es. P (fst e)"
  using assms unfolding sends_only_def by blast

lemma sends_followed_by_yields:
  assumes "sends_only P m" "yields m Q" "\<And>x. Q x \<Longrightarrow> sends_only P (f x)"
  shows "sends_only P (followed_by m f)"
  unfolding sends_only_def
proof
  fix w
  obtain es where es: "ow_log (fst (m w)) = ow_log w @ es" "\<forall>e \<in> set es. P (fst e)" by (rule sends_onlyE [OF assms(1)])
  show "\<exists>es. ow_log (fst (followed_by m f w)) = ow_log w @ es \<and> (\<forall>e \<in> set es. P (fst e))"
  proof (cases "m w")
    case (Pair v r)
    show ?thesis
    proof (cases r)
      case (Inl e)
      with Pair es show ?thesis by (auto simp: followed_by_def)
    next
      case (Inr x)
      with assms(2) Pair have "sends_only P (f x)" by (auto simp: yields_def intro: assms(3))
      then obtain ds where "ow_log (fst (f x v)) = ow_log v @ ds" "\<forall>e \<in> set ds. P (fst e)" by (rule sends_onlyE)
      with Pair Inr es show ?thesis by (auto simp: followed_by_def intro!: exI [of _ "es @ ds"])
    qed
  qed
qed

lemma sends_followed_by [sends_intros]:
  "sends_only P m \<Longrightarrow> (\<And>x. sends_only P (f x)) \<Longrightarrow> sends_only P (followed_by m f)"
  by (rule sends_followed_by_yields [where Q = "\<lambda>_. True"]) (simp_all add: yields_def)

lemma sends_pure_then [sends_intros]:
  "(\<And>x. r = Inr x \<Longrightarrow> sends_only P (f x)) \<Longrightarrow> sends_only P (followed_by (pure_op r) f)"
  by (rule sends_followed_by_yields [where Q = "\<lambda>x. r = Inr x"])
    (simp_all add: yields_def pure_op_def sends_only_def)

lemma sends_rescued [sends_intros]:
  assumes "sends_only P m" "\<And>e. sends_only P (h e)"
  shows "sends_only P (rescued m h)"
  unfolding sends_only_def
proof
  fix w
  obtain es where es: "ow_log (fst (m w)) = ow_log w @ es" "\<forall>e \<in> set es. P (fst e)" by (rule sends_onlyE [OF assms(1)])
  show "\<exists>es. ow_log (fst (rescued m h w)) = ow_log w @ es \<and> (\<forall>e \<in> set es. P (fst e))"
  proof (cases "m w")
    case (Pair v r)
    show ?thesis
    proof (cases r)
      case (Inl e)
      obtain ds where "ow_log (fst (h e v)) = ow_log v @ ds" "\<forall>e \<in> set ds. P (fst e)"
        by (rule sends_onlyE [OF assms(2)])
      with Pair Inl es show ?thesis by (auto simp: rescued_def intro!: exI [of _ "es @ ds"])
    qed (use Pair es in \<open>auto simp: rescued_def\<close>)
  qed
qed

lemma sends_send [sends_intros]: "P q \<Longrightarrow> sends_only P (send E q)"
  by (simp add: sends_only_def send_def Let_def)

lemma store_log [simp]:
  "ow_log (fst (clock_now E n w)) = ow_log w" "ow_log (fst (load_by_client_id E cid w)) = ow_log w"
  "ow_log (fst (finish_order E cid st x w)) = ow_log w" "ow_log (fst (mark_ambiguous E cid w)) = ow_log w"
  "ow_log (fst (mark_not_sent E cid d w)) = ow_log w" "ow_log (fst (reread_order E cid m w)) = ow_log w"
  by (simp_all add: clock_now_def load_by_client_id_def finish_order_def mark_ambiguous_def mark_not_sent_def
      reread_order_def Let_def split: option.splits)

lemma prepare_order_log [simp]: "ow_log (fst (prepare_order E r w)) = ow_log w"
  by (auto simp: prepare_order_def followed_by_def give_def reread_order_def split: option.splits sum.splits prod.splits)

lemmas sends_store [sends_intros] =
  sends_state [of "clock_now E n" for E n, simplified] sends_state [of "load_by_client_id E cid" for E cid, simplified]
  sends_state [of "finish_order E cid st x" for E cid st x, simplified] sends_state [of "mark_ambiguous E cid" for E cid, simplified]
  sends_state [of "mark_not_sent E cid d" for E cid d, simplified] sends_state [of "prepare_order E r" for E r, simplified]

lemma ambiguous_then_log [simp]: "ow_log (fst (ambiguous_then E cid e w)) = ow_log w"
proof (cases "mark_ambiguous E cid w")
  case (Pair v r)
  with store_log(4) [of E cid w] show ?thesis by (cases r) (simp_all add: ambiguous_then_def followed_by_def throw_def)
qed

lemma sends_ambiguous_then [sends_intros]: "sends_only P (ambiguous_then E cid e)"
  unfolding ambiguous_then_def by (intro sends_intros)

definition is_get :: "BrokerRequest \<Rightarrow> bool" where
  "is_get q \<longleftrightarrow> wr_method q = ''GET''"

lemma is_get_request [simp]: "is_get (get_request path query)"
  by (simp add: is_get_def get_request_def)

lemma confirmed_sends [sends_intros]:
  assumes "\<And>q. is_get q \<Longrightarrow> P q" "\<And>e. sends_only P (h e)"
  shows "sends_only P (confirmed E cid r resp b h)"
  unfolding confirmed_def order_evidence_def result_with_fills_def acknowledge_def
  using assms by (intro sends_intros) (auto intro!: sends_intros split: reply.splits)

lemma recover_order_sends [sends_intros]:
  assumes "\<And>q. is_get q \<Longrightarrow> P q"
  shows "sends_only P (recover_by_client_id E cid)"
  unfolding recover_by_client_id_def
  by (auto intro!: sends_intros assms split: option.splits BinanceUsdmNormalOrderState.splits reply.splits)

lemma existing_or_recover_sends [sends_intros]:
  assumes "\<And>q. is_get q \<Longrightarrow> P q"
  shows "sends_only P (existing_or_recover E r)"
  unfolding existing_or_recover_def
  by (auto intro!: sends_intros assms split: option.splits BinanceUsdmNormalOrderState.splits)

lemma post_claimed_sends [sends_intros]:
  assumes "\<And>q. is_get q \<Longrightarrow> P q" "P q"
  shows "sends_only P (post_claimed E r q)"
  unfolding post_claimed_def accept_post_response_def Let_def
  by (auto intro!: sends_intros assms split: reply.splits)

lemma refused_by_Nil [simp]: "refused_by [] = Inr ()"
  by (simp add: refused_by_def)

lemma refused_by_Cons [simp]: "refused_by ((bad, message) # rs) = Inr () \<longleftrightarrow> \<not> bad \<and> refused_by rs = Inr ()"
  by (simp add: refused_by_def)

lemma refused_by_Inr: "refused_by rs = Inr () \<longleftrightarrow> (\<forall>(bad, message) \<in> set rs. \<not> bad)"
  by (induction rs) auto

lemma refused_by_append: "refused_by (rs @ ss) = Inr () \<longleftrightarrow> refused_by rs = Inr () \<and> refused_by ss = Inr ()"
  by (auto simp: refused_by_Inr)

text \<open>A request that may be written for a command at an instant.\<close>

definition authorized_request :: "('e OrderEnv_scheme) \<Rightarrow> BrokerOrderCommand \<Rightarrow> instant \<Rightarrow> BrokerRequest \<Rightarrow> bool" where
  "authorized_request E c now q \<longleftrightarrow>
     (\<exists>a. oe_authority E c = Inr a \<and> validate_write_authority c a now = Inr ()
        \<and> build_binance_usdm_order_request c a = Inr q \<and> cmd_canonical_payload_hash c = oe_sha256 E (request_body q))"

lemma submit_new_sends: "sends_only (\<lambda>q. is_get q \<or> authorized_request E c now q) (submit_new E c now)"
  unfolding submit_new_def
  by (intro sends_intros) (auto intro!: sends_intros simp: authorized_request_def)

lemma submit_locked_sends:
  assumes "submit_locked E c w = (v, res)"
  obtains es where "ow_log v = ow_log w @ es"
    "\<forall>e \<in> set es. is_get (fst e) \<or> authorized_request E c (oe_clock E (ow_ticks w)) (fst e)"
proof -
  let ?P = "\<lambda>q. is_get q \<or> authorized_request E c (oe_clock E (ow_ticks w)) q"
  let ?rest = "\<lambda>now. followed_by (pure_op (refused_by (recovery_refusals c))) (\<lambda>_.
     followed_by (load_by_client_id E (cmd_broker_client_order_id c)) (\<lambda>loaded. case loaded of
       None \<Rightarrow> submit_new E c now
     | Some r \<Rightarrow>
         followed_by (pure_op (validate_persisted_command E c r)) (\<lambda>_.
           if no_state r \<noteq> NOT_SENT then existing_or_recover E r else submit_new E c now)))"
  have rest: "sends_only ?P (?rest (oe_clock E (ow_ticks w)))"
    by (intro sends_intros) (auto intro!: sends_intros submit_new_sends split: option.splits)
  obtain u t where u: "clock_now E ''order service clock'' w = (u, t)" by fastforce
  have log: "ow_log u = ow_log w" using store_log(1) [of E "''order service clock''" w] u by simp
  show thesis
  proof (cases t)
    case (Inl e)
    with assms u log show thesis by (intro that [of "[]"]) (simp_all add: submit_locked_def followed_by_def)
  next
    case (Inr now)
    then have "now = oe_clock E (ow_ticks w)"
      using u by (auto simp: clock_now_def Let_def checks_simps)
    with Inr assms u have "?rest (oe_clock E (ow_ticks w)) u = (v, res)"
      by (simp add: submit_locked_def followed_by_def [of "clock_now E ''order service clock''"])
    with sends_onlyE [OF rest, of u thesis] log show thesis by (auto intro: that)
  qed
qed

text \<open>C13: 
  Every request a submission writes is one its authority allows at that moment: it is the request
  the command's hash names, inside the command's window, of an aligned quantity not below the minimum;
  an opening order has fresh, verified leverage within the limit, isolated margin and the minimum
  notional, and a closing order is reduce-only and covers exactly the authorized quantity.
\<close>

theorem sent_order_is_authorized:
  assumes "submit_locked E c w = (v, res)"
    and "e \<in> set (drop (length (ow_log w)) (ow_log v))" "wr_method (fst e) = ''POST''"
  defines "now \<equiv> oe_clock E (ow_ticks w)"
  shows "\<exists>a t. oe_authority E c = Inr a \<and> cmd_dispatch_attempted_at c = Some t \<and> t \<le> now \<and> now < cmd_not_after c
    \<and> cmd_canonical_payload_hash c = oe_sha256 E (request_body (fst e))
    \<and> au_side a = cmd_side c \<and> au_quantity a = cmd_quantity c \<and> au_writer_capability a
    \<and> sfl_minimum_quantity (au_filters a) \<le> cmd_quantity c \<and> aligned (cmd_quantity c) (sfl_step_size (au_filters a))
    \<and> (if opens_exposure (au_role a)
       then au_verified_leverage a = au_expected_leverage a \<and> au_expected_leverage a \<le> MAX_LEVERAGE
            \<and> now - au_leverage_verified_at a \<le> AUTHORITY_MAX_AGE \<and> au_margin_type a = ''ISOLATED''
            \<and> sfl_minimum_notional (au_filters a) \<le> dmul (cmd_quantity c) (order_price c a)
       else cmd_quantity c = au_authorized_reduce_quantity a \<and> cmd_order_style c = MARKET
            \<and> (''reduceOnly'', ''true'') \<in> set (request_body (fst e)))"
proof -
  obtain es where es: "ow_log v = ow_log w @ es" "\<forall>e \<in> set es. is_get (fst e) \<or> authorized_request E c now (fst e)"
    using submit_locked_sends [OF assms(1)] unfolding now_def by blast
  with assms(2,3) have "authorized_request E c now (fst e)" by (auto simp: is_get_def)
  then obtain a where a: "oe_authority E c = Inr a" "validate_write_authority c a now = Inr ()"
    "build_binance_usdm_order_request c a = Inr (fst e)" "cmd_canonical_payload_hash c = oe_sha256 E (request_body (fst e))"
    by (auto simp: authorized_request_def)
  have ok: "refused_by (identity_refusals c a) = Inr ()" "refused_by (window_refusals c now) = Inr ()"
    "refused_by (filter_refusals c a now) = Inr ()"
    "opens_exposure (au_role a) \<Longrightarrow> sfl_minimum_notional (au_filters a) \<le> dmul (cmd_quantity c) (order_price c a)"
    "refused_by (if opens_exposure (au_role a) then entry_refusals a now else close_refusals c a) = Inr ()"
    using a(2) by (auto simp: validate_write_authority_def write_refusals_def refused_by_append split: if_splits)
  obtain t where t: "cmd_dispatch_attempted_at c = Some t" "t \<le> now" "now < cmd_not_after c"
    using ok(2) by (auto simp: window_refusals_def refused_by_Inr split: option.splits)
  have ident: "au_side a = cmd_side c" "au_quantity a = cmd_quantity c" "au_writer_capability a"
    using ok(1) by (auto simp: identity_refusals_def refused_by_Inr)
  have filt: "sfl_minimum_quantity (au_filters a) \<le> cmd_quantity c" "aligned (cmd_quantity c) (sfl_step_size (au_filters a))"
    using ok(3) by (auto simp: filter_refusals_def refused_by_Inr)
  have role: "if opens_exposure (au_role a)
       then au_verified_leverage a = au_expected_leverage a \<and> au_expected_leverage a \<le> MAX_LEVERAGE
            \<and> now - au_leverage_verified_at a \<le> AUTHORITY_MAX_AGE \<and> au_margin_type a = ''ISOLATED''
       else cmd_quantity c = au_authorized_reduce_quantity a \<and> cmd_order_style c = MARKET"
    using ok(5) by (auto simp: entry_refusals_def close_refusals_def refused_by_Inr fresh_def split: if_splits)
  have "(''reduceOnly'', ''true'') \<in> set (request_body (fst e))" if "\<not> opens_exposure (au_role a)"
    using closing_request [OF a(3) that] .
  with a t ident filt role ok(4) show ?thesis
    by (intro exI [of _ a] exI [of _ t]) (simp split: if_splits)
qed

text \<open>
  A clock with a fraction of a second refuses every order before anything is read or sent, and
  the process clock is \<^verbatim>\<open>datetime.now(UTC)\<close>.
\<close>

theorem subsecond_clock_refuses_orders:
  assumes "oe_clock E (ow_ticks w) mod 1000000 \<noteq> 0"
  shows "submit_locked E c w =
    (w\<lparr>ow_ticks := ow_ticks w + 1\<rparr>, Inl (Py (ValueError ''Binance USD-M order service clock must use whole-second UTC'')))"
  using assms by (simp add: submit_locked_def followed_by_def clock_now_def Let_def utc_check_def whole_second_def validated_def py_def)

section \<open>A concrete submission\<close>

definition sample_filters :: BinanceUsdmSymbolFilters where
  "sample_filters =
     \<lparr>sfl_tick_size = 1 / 10, sfl_step_size = 1 / 1000, sfl_minimum_quantity = 1 / 1000, sfl_minimum_notional = 100,
      sfl_captured_at = 0\<rparr>"

definition sample_order_command :: BrokerOrderCommand where
  "sample_order_command =
     \<lparr>cmd_id = v7 11, cmd_order_id = v7 12, cmd_account_id = v7 13,
      cmd_instrument_id = v7 14, cmd_command_type = SUBMIT, cmd_target_aggregate_version = 1,
      cmd_idempotency_key = ''k'', cmd_command_sequence = 1, cmd_canonical_payload_hash = replicate 32 0,
      cmd_broker_client_order_id = binance_normal_client_order_id (v7 11), cmd_target_broker_order_id = None,
      cmd_replaces_command_id = None, cmd_origin_type = ''STRATEGY'', cmd_authority_class = OPENING_AUTHORITY,
      cmd_owner_runtime_instance_id = None, cmd_fencing_token = 1, cmd_not_after = 60000000, cmd_side = BUY,
      cmd_order_style = MARKET, cmd_quantity = 1 / 100, cmd_limit_price = None, cmd_time_in_force = ''NONE'',
      cmd_trigger_price = None, cmd_status = ''PENDING'', cmd_dispatch_attempted_at = Some 0\<rparr>"

definition sample_order_authority :: BinanceUsdmNormalOrderAuthority where
  "sample_order_authority =
     \<lparr>au_command_id = v7 11, au_account_id = v7 13, au_instrument_id = v7 14,
      au_binding_id = v7 15, au_binding_generation = 1, au_policy_version_id = v7 16,
      au_strategy_version = STRATEGY_VERSION, au_writer_capability = True, au_account_enabled = True,
      au_binding_active = True, au_intent_locked = True, au_symbol = SYMBOL, au_role = ROLE_ENTRY, au_side = BUY,
      au_order_style = MARKET, au_quantity = 1 / 100, au_limit_price = None, au_expected_leverage = 5,
      au_verified_leverage = 5, au_leverage_verified_at = 0, au_position_mode = ''ONE_WAY'', au_margin_type = ''ISOLATED'',
      au_auto_add_margin = False, au_filters = sample_filters, au_notional_reference_price = 50000,
      au_authorized_reduce_quantity = 0\<rparr>"

definition sample_order_env :: OrderEnv where
  "sample_order_env =
     \<lparr>oe_sha256 = (\<lambda>_. replicate 32 0), oe_send = (\<lambda>_ _. SendFailed), oe_clock = (\<lambda>_. 1000000),
      oe_authority = (\<lambda>_. Inr sample_order_authority)\<rparr>"

lemma sample_version:
  "uuid_version (v7 11) = Some 7" "uuid_version (v7 13) = Some 7" "uuid_version (v7 14) = Some 7"
  "uuid_version (v7 15) = Some 7" "uuid_version (v7 16) = Some 7"
  by code_simp+

lemma sample_order_allowed: "validate_write_authority sample_order_command sample_order_authority 1000000 = Inr ()"
proof -
  have "dmul (1 / 100) 50000 = 500" by (simp add: dmul_def rnd_short [of 500 500000])
  then show ?thesis
    by (simp add: validate_write_authority_def write_refusals_def identity_refusals_def window_refusals_def
        filter_refusals_def style_refusals_def entry_refusals_def sample_order_command_def sample_order_authority_def
        sample_filters_def sample_version opens_exposure_def order_price_def SymbolFilters_checks_def utc_check_def
        whole_second_def fresh_def AUTHORITY_MAX_AGE_def aligned_def modulo_raises_def MAX_LEVERAGE_def
        writes_to_a_venue_def PROVIDER_WRITE_ORIGINS_def PROVIDER_WRITE_AUTHORITIES_def)
qed

lemma sample_order_body:
  "build_binance_usdm_order_request sample_order_command sample_order_authority
     = Inr \<lparr>wr_method = ''POST'', wr_path = ''/fapi/v1/order'', wr_query = [],
            wr_body = Some [(''symbol'', SYMBOL), (''side'', ''BUY''), (''positionSide'', ''BOTH''), (''type'', ''MARKET''),
              (''quantity'', decimal_text (1 / 100)), (''newClientOrderId'', binance_normal_client_order_id (v7 11)),
              (''newOrderRespType'', ''RESULT'')]\<rparr>"
  by (simp add: build_binance_usdm_order_request_def sample_order_command_def sample_order_authority_def opens_exposure_def)

lemma sample_order_id: "client_id_text (binance_normal_client_order_id (v7 11))"
  by code_simp

lemma sample_order_sent:
  "\<exists>q v res. submit_locked sample_order_env sample_order_command no_orders = (v, res)
     \<and> ow_log v = [(q, SendFailed)] \<and> wr_method q = ''POST''"
proof -
  let ?q = "\<lparr>wr_method = ''POST'', wr_path = ''/fapi/v1/order'', wr_query = [],
            wr_body = Some [(''symbol'', SYMBOL), (''side'', ''BUY''), (''positionSide'', ''BOTH''), (''type'', ''MARKET''),
              (''quantity'', decimal_text (1 / 100)), (''newClientOrderId'', binance_normal_client_order_id (v7 11)),
              (''newOrderRespType'', ''RESULT'')]\<rparr>"
  obtain r where r: "prepared_record sample_order_env sample_order_command sample_order_authority ?q = Inr r"
    "first_error (NormalOrderRecord_checks (\<lambda>_. replicate 32 0) r) = None" "no_state r = PREPARED_ORDER"
    by (simp add: prepared_record_def sample_order_env_def sample_order_command_def sample_order_authority_def Let_def
        NormalOrderRecord_checks_def uuid7_check_def utc_check_def whole_second_def sample_version sample_order_id
        request_body_def checks_simps)
  have f: "refused_by (recovery_refusals sample_order_command) = Inr ()"
    by (simp add: recovery_refusals_def sample_order_command_def sample_version whole_second_def
        writes_to_a_venue_def PROVIDER_WRITE_ORIGINS_def PROVIDER_WRITE_AUTHORITIES_def)
  have h: "cmd_canonical_payload_hash sample_order_command = replicate 32 0"
    by (simp add: sample_order_command_def)
  have "ow_log (fst (submit_locked sample_order_env sample_order_command no_orders)) = [(?q, SendFailed)]"
    using r by (simp add: h submit_locked_def followed_by_def clock_now_def sample_order_env_def Let_def utc_check_def
        whole_second_def checks_simps validated_def py_def pure_op_def f [unfolded sample_order_env_def] load_by_client_id_def
        find_order_def no_orders_def next_where_def submit_new_def sample_order_allowed sample_order_body
        prepare_order_def post_claimed_def send_def request_body_def)
  then show ?thesis by (metis prod.collapse wr_method_def BrokerRequest.select_convs(1))
qed

theorem sent_order_is_authorized_witness:
  "\<exists>a. oe_authority sample_order_env sample_order_command = Inr a \<and> au_quantity a = 1 / 100 \<and> au_verified_leverage a = 5"
proof -
  obtain q v res where s: "submit_locked sample_order_env sample_order_command no_orders = (v, res)"
    "ow_log v = [(q, SendFailed)]" "wr_method q = ''POST''"
    using sample_order_sent by blast
  from sent_order_is_authorized [OF s(1), of "(q, SendFailed)"] s show ?thesis
    by (auto simp: no_orders_def sample_order_env_def sample_order_command_def sample_order_authority_def)
qed

theorem subsecond_clock_refuses_orders_witness:
  "snd (submit_locked (sample_order_env\<lparr>oe_clock := (\<lambda>_. 1234567)\<rparr>) sample_order_command no_orders)
     = Inl (Py (ValueError ''Binance USD-M order service clock must use whole-second UTC''))"
  by (subst subsecond_clock_refuses_orders) (simp_all add: no_orders_def)

section \<open>The average price\<close>

text \<open>A decimal with at most \<open>k\<close> fractional digits.\<close>

definition has_digits :: "nat \<Rightarrow> decimal \<Rightarrow> bool" where
  "has_digits k x \<longleftrightarrow> x * 10 ^ k = of_int \<lfloor>x * 10 ^ k\<rfloor>"

text \<open>
  The venue prints an average price with a fixed number of digits, and the service compares it
  with the quotient at 28 digits: an order whose average does not fit is filled and never acknowledged.
\<close>

theorem rounded_average_never_acknowledged:
  assumes "has_digits k (po_average_price ord)" "\<not> has_digits k (expected_average fills)"
  shows "match_cumulative_order_facts ord fills \<noteq> Inr ()"
  using assms by (auto simp: match_cumulative_order_facts_def checks_simps)

definition two_price_fills :: "BinanceUsdmFill list" where
  "two_price_fills =
     map (\<lambda>(n, q, p). \<lparr>bf_trade_id = n, bf_order_id = 1, bf_side = BUY, bf_quantity = q, bf_price = p, bf_commission = 0,
            bf_commission_asset = ''USDT'', bf_realized_pnl = 0, bf_occurred_at = 0\<rparr>)
       [(1, 1 / 10, 650001 / 10), (2, 2 / 10, 650002 / 10)]"

definition two_price_order :: ProviderOrder where
  "two_price_order =
     \<lparr>po_order_id = 1, po_client_order_id = ''c'', po_symbol = SYMBOL, po_status = ''FILLED'', po_side = BUY,
      po_order_type = MARKET, po_original_quantity = 3 / 10, po_executed_quantity = 3 / 10,
      po_cumulative_quote = 1950005 / 100, po_average_price = 650001667 / 10000, po_reduce_only = False,
      po_position_side = ''BOTH''\<rparr>"

lemma two_price_average: "expected_average two_price_fills \<noteq> 0 \<and> \<not> has_digits 8 (expected_average two_price_fills)"
proof -
  have "expected_average two_price_fills = rnd (650001666 / 10000 + 2 / 30000)"
    by (simp add: expected_average_def two_price_fills_def filled_quantity_def quote_quantity_def dsum_def dadd_def dmul_def
        ddiv_def rnd_short [of "1 / 10" 100] rnd_short [of "3 / 10" 300] rnd_short [of "650001 / 100" 6500010]
        rnd_short [of "325001 / 25" 13000040] rnd_short [of "390001 / 20" 19500050])
  moreover have "\<not> has_digits 8 (rnd x) \<and> rnd x \<noteq> 0"
    if x: "x = 650001666 / 10000 + 2 / 30000" for x
  proof -
    have "65000166666666 / 10 ^ 9 \<le> rnd x"
      by (rule rnd_ge) (simp_all add: x rnd_exact [of _ 65000166666666 "- 9"] power_int_minus)
    moreover have "rnd x \<le> 65000166666667 / 10 ^ 9"
      by (rule rnd_le) (simp_all add: x rnd_exact [of _ 65000166666667 "- 9"] power_int_minus)
    ultimately have lo: "6500016666666 < rnd x * 10 ^ 8" and hi: "rnd x * 10 ^ 8 < 6500016666667" by simp_all
    then have "\<lfloor>rnd x * 10 ^ 8\<rfloor> = 6500016666666" by (simp add: floor_eq_iff)
    with lo show ?thesis by (auto simp: has_digits_def)
  qed
  ultimately show ?thesis by simp
qed

theorem rounded_average_never_acknowledged_witness:
  "match_cumulative_order_facts two_price_order two_price_fills \<noteq> Inr ()"
  by (rule rounded_average_never_acknowledged [where k = 8])
    (simp add: has_digits_def two_price_order_def, use two_price_average in blast)

end
