(* ===== verification/Protection.thy ===== *)
theory Protection
  imports VenueOrders
begin

text \<open>
  \<^verbatim>\<open>integrations/brokers/binance_usdm/algo_orders.py\<close> and \<^verbatim>\<open>algo_order_store.py\<close> with
  \<^verbatim>\<open>apps/trader/live_safety.py\<close>, \<^verbatim>\<open>live_protection.py\<close> and \<^verbatim>\<open>live_submitter.py\<close>: the stop behind
  a filled entry, its moves, its recovery and the emergency close. The emergency close is sent by the
  order service of the previous theory on the same state. Shown: a stop is posted at most once under its
  identifier; a position that cannot be protected always ends with a halted account; the old stop is
  withdrawn only behind a working new one; and what the code does against its own documentation.
\<close>

section \<open>Records\<close>

datatype BinanceUsdmAlgoOrderState =
    PREPARED_STOP | AMBIGUOUS_STOP | ACTIVE_STOP | REJECTED_STOP | EMERGENCY_CLOSED | UNKNOWN_STOP | SUPERSEDED

record EntryFill =
  en_entry_command_id :: uuid
  en_account_id :: uuid
  en_instrument_id :: uuid
  en_binding_id :: uuid
  en_side :: Side
  en_first_fill_quantity :: decimal
  en_cumulative_quantity_before :: decimal
  en_average_fill_price :: decimal
  en_symbol :: string
  en_tick_size :: decimal
  en_filled_at :: instant
  en_protection_deadline :: instant
  en_emergency_close_command_id :: uuid

definition EntryFill_checks :: "EntryFill \<Rightarrow> checks" where
  "EntryFill_checks f =
     [uuid7_check ''entry_command_id'' (en_entry_command_id f), uuid7_check ''account_id'' (en_account_id f),
      uuid7_check ''instrument_id'' (en_instrument_id f), uuid7_check ''binding_id'' (en_binding_id f),
      (en_first_fill_quantity f \<le> 0, ValueError ''Binance USD-M first fill quantity must be positive''),
      (en_cumulative_quantity_before f < 0, ValueError ''Binance USD-M prior fill quantity cannot be negative''),
      (en_average_fill_price f \<le> 0, ValueError ''Binance USD-M average fill price must be positive''),
      (en_symbol f \<noteq> SYMBOL, ValueError ''Binance USD-M protection supports BTCUSDT only''),
      (en_tick_size f \<le> 0, ValueError ''Binance USD-M tick size must be positive''),
      utc_check ''fill time'' (en_filled_at f), utc_check ''protection deadline'' (en_protection_deadline f),
      (en_filled_at f \<ge> en_protection_deadline f, ValueError ''Binance USD-M protection deadline is invalid''),
      uuid7_check ''emergency_close_command_id'' (en_emergency_close_command_id f)]"

record ProtectionResult =
  pt_provider_algo_id :: "string option"
  pt_client_algo_id :: string
  pt_state :: BinanceUsdmAlgoOrderState
  pt_trigger_price :: decimal
  pt_recovered :: bool
  pt_emergency_close :: "BrokerWriteResult option"

definition valid_provider_algo_id :: "string option \<Rightarrow> bool" where
  "valid_provider_algo_id p = (case p of None \<Rightarrow> False | Some s \<Rightarrow> provider_id_text ''BINANCE-USDM-ALGO:'' s)"

definition ProtectionResult_checks :: "ProtectionResult \<Rightarrow> checks" where
  "ProtectionResult_checks r =
     [(\<not> client_id_text (pt_client_algo_id r), ValueError ''Binance USD-M client algo ID is invalid''),
      (pt_trigger_price r \<le> 0, ValueError ''Binance USD-M trigger price must be positive'')]
     @ (case pt_state r of
          ACTIVE_STOP \<Rightarrow>
            [(\<not> valid_provider_algo_id (pt_provider_algo_id r), ValueError ''Binance USD-M provider algo ID is invalid''),
             (pt_emergency_close r \<noteq> None, ValueError ''active protection cannot have an emergency close'')]
        | EMERGENCY_CLOSED \<Rightarrow>
            [(pt_provider_algo_id r \<noteq> None \<and> \<not> valid_provider_algo_id (pt_provider_algo_id r),
                ValueError ''Binance USD-M provider algo ID is invalid''),
             (pt_emergency_close r = None, ValueError ''emergency protection needs an exact close result'')]
        | _ \<Rightarrow> [(True, ValueError ''Binance USD-M protection result is not terminal safe'')])"

record BinanceUsdmAlgoOrderRecord =
  al_entry_fill :: EntryFill
  al_client_algo_id :: string
  al_trigger_price :: decimal
  al_request_body :: params
  al_request_digest :: bytes
  al_prepared_at :: instant
  al_state :: BinanceUsdmAlgoOrderState
  al_result :: "ProtectionResult option"
  al_placement_command_id :: "uuid option"

definition placement_id :: "BinanceUsdmAlgoOrderRecord \<Rightarrow> uuid" where
  "placement_id r =
     (case al_placement_command_id r of Some u \<Rightarrow> u | None \<Rightarrow> en_entry_command_id (al_entry_fill r))"

definition safe_state :: "BinanceUsdmAlgoOrderState \<Rightarrow> bool" where
  "safe_state s \<longleftrightarrow> s \<in> {ACTIVE_STOP, EMERGENCY_CLOSED}"

text \<open>\<^verbatim>\<open>BinanceUsdmAlgoOrderRecord.validate\<close>\<close>

definition AlgoOrderRecord_checks :: "(params \<Rightarrow> bytes) \<Rightarrow> BinanceUsdmAlgoOrderRecord \<Rightarrow> checks" where
  "AlgoOrderRecord_checks sha256 r =
     EntryFill_checks (al_entry_fill r)
     @ [(case al_placement_command_id r of None \<Rightarrow> (False, bad_value '''') | Some u \<Rightarrow> uuid7_check ''placement_command_id'' u),
        (al_client_algo_id r \<noteq> binance_protection_client_algo_id (placement_id r),
           ValueError ''Binance USD-M persisted client algo ID is invalid''),
        (al_trigger_price r \<le> 0, ValueError ''Binance USD-M persisted trigger price is invalid''),
        (al_request_body r = [], ValueError ''Binance USD-M persisted algo body is invalid''),
        (length (al_request_digest r) \<noteq> 32 \<or> sha256 (al_request_body r) \<noteq> al_request_digest r,
           ValueError ''Binance USD-M persisted algo digest is invalid''),
        utc_check ''algo prepared_at'' (al_prepared_at r),
        (al_prepared_at r < en_filled_at (al_entry_fill r), ValueError ''Binance USD-M algo preparation predates the fill'')]
     @ (if safe_state (al_state r)
        then [(al_result r = None, ValueError ''safe Binance USD-M protection needs a result''),
              (case al_result r of None \<Rightarrow> False | Some x \<Rightarrow> pt_state x \<noteq> al_state r,
                 ValueError ''Binance USD-M protection result state differs''),
              (case al_result r of None \<Rightarrow> False | Some x \<Rightarrow> pt_client_algo_id x \<noteq> al_client_algo_id r,
                 ValueError ''Binance USD-M protection result identity differs'')]
        else [(al_result r \<noteq> None, ValueError ''unsafe Binance USD-M protection cannot have a result'')])"

section \<open>The state, and what the service asks\<close>

record ProtectionWorld = OrderWorld +
  pw_algos :: "BinanceUsdmAlgoOrderRecord list"
  pw_controls :: "ControlRow list"

text \<open>
  Beyond what the order service asks: the emergency close prepared for a fill, the account snapshot of
  the venue (its completeness and the instruments it holds), the binding and the instrument of this
  process, and the entry fill behind a protective command.
\<close>

record ProtectionEnv = OrderEnv +
  pe_close_command :: "EntryFill \<Rightarrow> BrokerOrderCommand outcome"
  pe_snapshot :: "(BrokerRequest \<times> reply) list \<Rightarrow> (bool \<times> uuid list) outcome"
  pe_binding_id :: uuid
  pe_instrument_id :: uuid
  pe_entry_fill :: "BrokerOrderCommand \<Rightarrow> EntryFill outcome"

section \<open>Stopping the account\<close>

text \<open>\<^verbatim>\<open>live_safety.py\<close>: the kill switch only ever moves up; an unknown level counts as the strongest.\<close>

definition kill_switch_rank :: "string \<Rightarrow> nat" where
  "kill_switch_rank level =
     (if level = ''NONE'' then 0 else if level = ''BLOCK_NEW_EXPOSURE'' then 1 else if level = ''EMERGENCY'' then 2 else 3)"

definition raised_control :: "string \<Rightarrow> bool \<Rightarrow> ControlRow \<Rightarrow> ControlRow" where
  "raised_control level disarm c =
     (let c1 = (if kill_switch_rank (ctl_kill_switch_level c) < kill_switch_rank level
                then c\<lparr>ctl_kill_switch_level := level, ctl_row_version := ctl_row_version c + 1\<rparr>
                else if disarm \<and> ctl_armed c then c\<lparr>ctl_row_version := ctl_row_version c + 1\<rparr> else c)
      in if disarm then c1\<lparr>ctl_armed := False\<rparr> else c1)"

definition raise_to :: "string \<Rightarrow> bool \<Rightarrow> ('x ProtectionWorld_scheme, unit) op" where
  "raise_to level disarm w = (w\<lparr>pw_controls := map (raised_control level disarm) (pw_controls w)\<rparr>, Inr ())"

definition require_own :: "('e ProtectionEnv_scheme) \<Rightarrow> uuid \<Rightarrow> unit outcome" where
  "require_own E binding_id =
     (if binding_id \<noteq> pe_binding_id E
      then Inl (Py (ValueError ''these safety actions answer for one binding only'')) else Inr ())"

definition cancel_entry_and_adds :: "('e ProtectionEnv_scheme) \<Rightarrow> uuid \<Rightarrow> ('x ProtectionWorld_scheme, unit) op" where
  "cancel_entry_and_adds E binding_id =
     followed_by (pure_op (require_own E binding_id)) (\<lambda>_. raise_to ''BLOCK_NEW_EXPOSURE'' False)"

definition halt_account :: "('e ProtectionEnv_scheme) \<Rightarrow> uuid \<Rightarrow> string \<Rightarrow> ('x ProtectionWorld_scheme, unit) op" where
  "halt_account E binding_id reason =
     followed_by (pure_op (require_own E binding_id)) (\<lambda>_.
       if strip reason = [] then throw (Py (ValueError ''halting an account needs a reason''))
       else raise_to ''EMERGENCY'' True)"

text \<open>\<^verbatim>\<open>MySqlEmergencyOrders.confirm_zero_position\<close>\<close>

definition confirm_zero_position :: "('e ProtectionEnv_scheme) \<Rightarrow> ('x ProtectionWorld_scheme, bool) op" where
  "confirm_zero_position E w =
     (w, case pe_snapshot E (ow_log w) of
           Inl e \<Rightarrow> Inl e
         | Inr (whole, held) \<Rightarrow> Inr (whole \<and> list_all (\<lambda>u. u \<noteq> pe_instrument_id E) held))"

section \<open>The durable record of a stop\<close>

definition find_algo :: "string \<Rightarrow> ('x ProtectionWorld_scheme) \<Rightarrow> BinanceUsdmAlgoOrderRecord option" where
  "find_algo cid w = next_where (\<lambda>r. al_client_algo_id r = cid) (pw_algos w)"

definition read_algo :: "('e OrderEnv_scheme) \<Rightarrow> BinanceUsdmAlgoOrderRecord \<Rightarrow> BinanceUsdmAlgoOrderRecord outcome" where
  "read_algo E r = py (validated (AlgoOrderRecord_checks (oe_sha256 E) r) r)"

definition load_by_client_algo_id ::
  "('e OrderEnv_scheme) \<Rightarrow> string \<Rightarrow> ('x ProtectionWorld_scheme, BinanceUsdmAlgoOrderRecord option) op" where
  "load_by_client_algo_id E cid w =
     (w, case find_algo cid w of
           None \<Rightarrow> Inr None
         | Some r \<Rightarrow> (case read_algo E r of Inl e \<Rightarrow> Inl e | Inr x \<Rightarrow> Inr (Some x)))"

definition require_same_stop :: "BinanceUsdmAlgoOrderRecord \<Rightarrow> BinanceUsdmAlgoOrderRecord \<Rightarrow> unit outcome" where
  "require_same_stop row r =
     (if al_request_digest row \<noteq> al_request_digest r
         \<or> en_entry_command_id (al_entry_fill row) \<noteq> en_entry_command_id (al_entry_fill r)
         \<or> en_account_id (al_entry_fill row) \<noteq> en_account_id (al_entry_fill r)
         \<or> en_binding_id (al_entry_fill row) \<noteq> en_binding_id (al_entry_fill r)
      then Inl (Py (ValueError ''Binance USD-M client algo id names a different stop'')) else Inr ())"

definition prepare_algo ::
  "('e OrderEnv_scheme) \<Rightarrow> BinanceUsdmAlgoOrderRecord \<Rightarrow> ('x ProtectionWorld_scheme, BinanceUsdmAlgoOrderRecord \<times> bool) op" where
  "prepare_algo E r w =
     (case first_error (AlgoOrderRecord_checks (oe_sha256 E) r) of
        Some e \<Rightarrow> (w, Inl (Py e))
      | None \<Rightarrow>
          if al_state r \<noteq> PREPARED_STOP
            then (w, Inl (Py (ValueError ''only prepared Binance USD-M protection may be claimed'')))
          else if \<not> list_ex (\<lambda>s. al_client_algo_id s = al_client_algo_id r \<or> placement_id s = placement_id r) (pw_algos w)
            then (w\<lparr>pw_algos := pw_algos w @ [r]\<rparr>, Inr (r, True))
          else case find_algo (al_client_algo_id r) w of
            None \<Rightarrow> (w, Inl (OrderRecordMissing ''Binance USD-M protection record vanished between claim and read''))
          | Some row \<Rightarrow>
              (w, case require_same_stop row r of
                    Inl e \<Rightarrow> Inl e
                  | Inr _ \<Rightarrow> (case read_algo E row of Inl e \<Rightarrow> Inl e | Inr x \<Rightarrow> Inr (x, False))))"

definition finish_algo ::
  "('e OrderEnv_scheme) \<Rightarrow> string \<Rightarrow> BinanceUsdmAlgoOrderState \<Rightarrow> ProtectionResult option
     \<Rightarrow> ('x ProtectionWorld_scheme, BinanceUsdmAlgoOrderRecord) op" where
  "finish_algo E cid state answer =
     followed_by
       (checked (if safe_state state
          then [(answer = None, ValueError ''safe Binance USD-M protection needs a result''),
                (case answer of None \<Rightarrow> False | Some x \<Rightarrow> pt_state x \<noteq> state,
                   ValueError ''Binance USD-M protection result state differs''),
                (case answer of None \<Rightarrow> False | Some x \<Rightarrow> pt_client_algo_id x \<noteq> cid,
                   ValueError ''Binance USD-M protection result identity differs'')]
          else [(answer \<noteq> None, ValueError ''unsafe Binance USD-M protection cannot have a result'')]))
       (\<lambda>_ w. case find_algo cid w of
          None \<Rightarrow> (w, Inl (OrderRecordMissing ''Binance USD-M protection record to finish is absent''))
        | Some _ \<Rightarrow>
            let v = w\<lparr>pw_algos := map (\<lambda>r. if al_client_algo_id r = cid then r\<lparr>al_state := state, al_result := answer\<rparr> else r)
                                   (pw_algos w)\<rparr>
            in (v, case find_algo cid v of
                     None \<Rightarrow> Inl (OrderRecordMissing ''Binance USD-M protection record vanished after a write'')
                   | Some row \<Rightarrow> read_algo E row))"

definition mark_stop_ambiguous ::
  "('e OrderEnv_scheme) \<Rightarrow> string \<Rightarrow> ('x ProtectionWorld_scheme, BinanceUsdmAlgoOrderRecord) op" where
  "mark_stop_ambiguous E cid = finish_algo E cid AMBIGUOUS_STOP None"

section \<open>Authority, requests and answers\<close>

text \<open>
  \<^verbatim>\<open>_validate_risk_authority\<close>: the stop of the authority on the far side of the entry price, rounded
  to a tick away from the market.
\<close>

definition stop_refused :: "EntryFill \<Rightarrow> ProtectionAuthority \<Rightarrow> bool" where
  "stop_refused f a \<longleftrightarrow>
     \<not> pa_allowed a \<or> pa_blocker_codes a \<noteq> [] \<or> pa_quantity a < en_first_fill_quantity f \<or> pa_stop_price a \<le> 0
     \<or> (en_side f = BUY \<and> pa_stop_price a \<ge> en_average_fill_price f)
     \<or> (en_side f = SELL \<and> pa_stop_price a \<le> en_average_fill_price f)"

definition stop_trigger :: "EntryFill \<Rightarrow> ProtectionAuthority \<Rightarrow> decimal" where
  "stop_trigger f a =
     (let ticks = ddiv (pa_stop_price a) (en_tick_size f)
      in dmul (of_int (case en_side f of BUY \<Rightarrow> \<lfloor>ticks\<rfloor> | SELL \<Rightarrow> \<lceil>ticks\<rceil>)) (en_tick_size f))"

definition validate_risk_authority :: "EntryFill \<Rightarrow> ProtectionAuthority \<Rightarrow> decimal outcome" where
  "validate_risk_authority f a =
     (if stop_refused f a \<or> stop_trigger f a \<le> 0
      then Inl (BrokerWriteDisabled ''exact Binance USD-M v6 risk authority is invalid'') else Inr (stop_trigger f a))"

definition protection_parameters :: "EntryFill \<Rightarrow> decimal \<Rightarrow> uuid option \<Rightarrow> params" where
  "protection_parameters f trigger placement =
     [(''algoType'', ''CONDITIONAL''), (''symbol'', SYMBOL), (''side'', side_value (opposite (en_side f))),
      (''positionSide'', ''BOTH''), (''type'', ''STOP_MARKET''), (''triggerPrice'', decimal_text trigger),
      (''workingType'', ''MARK_PRICE''), (''closePosition'', ''true''), (''priceProtect'', ''false''),
      (''clientAlgoId'', binance_protection_client_algo_id (case placement of Some u \<Rightarrow> u | None \<Rightarrow> en_entry_command_id f)),
      (''newOrderRespType'', ''RESULT'')]"

text \<open>The remainder of the trigger and the tick is exact: their quotient has at most 28 digits.\<close>

definition build_binance_usdm_protection_request :: "EntryFill \<Rightarrow> decimal \<Rightarrow> uuid option \<Rightarrow> BrokerRequest outcome" where
  "build_binance_usdm_protection_request f trigger placement =
     (case first_error (EntryFill_checks f) of
        Some e \<Rightarrow> Inl (Py e)
      | None \<Rightarrow>
          if trigger \<le> 0 \<or> \<not> aligned trigger (en_tick_size f)
          then Inl (Py (ValueError ''Binance USD-M trigger price is not tick aligned''))
          else Inr \<lparr>wr_method = ''POST'', wr_path = ''/fapi/v1/algoOrder'', wr_query = [],
                    wr_body = Some (protection_parameters f trigger placement)\<rparr>)"

definition build_binance_usdm_protection_cancel :: "string \<Rightarrow> BrokerRequest outcome" where
  "build_binance_usdm_protection_cancel cid =
     (if \<not> client_id_text cid then Inl (Py (ValueError ''Binance USD-M client algo ID is invalid''))
      else Inr \<lparr>wr_method = ''DELETE'', wr_path = ''/fapi/v1/algoOrder'', wr_query = [(''clientAlgoId'', cid)], wr_body = None\<rparr>)"

definition prepared_algo ::
  "('e OrderEnv_scheme) \<Rightarrow> EntryFill \<Rightarrow> decimal \<Rightarrow> BrokerRequest \<Rightarrow> instant \<Rightarrow> uuid option \<Rightarrow> BinanceUsdmAlgoOrderRecord outcome" where
  "prepared_algo E f trigger q now placement =
     (let r = \<lparr>al_entry_fill = f,
               al_client_algo_id = binance_protection_client_algo_id
                 (case placement of Some u \<Rightarrow> u | None \<Rightarrow> en_entry_command_id f),
               al_trigger_price = trigger, al_request_body = request_body q,
               al_request_digest = oe_sha256 E (request_body q), al_prepared_at = now, al_state = PREPARED_STOP,
               al_result = None, al_placement_command_id = placement\<rparr>
      in py (validated (AlgoOrderRecord_checks (oe_sha256 E) r) r))"

text \<open>\<^verbatim>\<open>_is_algo_order_absent\<close>: membership in a set raises for a value without a hash.\<close>

definition is_algo_order_absent :: "BrokerResponse \<Rightarrow> bool outcome" where
  "is_algo_order_absent resp =
     (if resp_status resp \<notin> {400, 404} then Inr False
      else case json_object resp of
        None \<Rightarrow> Inr False
      | Some payload \<Rightarrow>
          let code = payload_get ''code'' payload
          in if unhashable code then Inl (Py (TypeError ''unhashable type''))
             else Inr (equals_int code (- 2011) \<or> equals_int code (- 2013)))"

definition binance_provider_algo_id :: "int \<Rightarrow> string" where
  "binance_provider_algo_id n = ''BINANCE-USDM-ALGO:'' @ nat_str n"

definition provider_price :: "string \<Rightarrow> json \<Rightarrow> decimal result" where
  "provider_price name j =
     and_then (json_decimal name j) (\<lambda>d. if d < 0 then Inl (bad_value name) else Inr d)"

definition absent_or_false :: "json \<Rightarrow> bool" where
  "absent_or_false j \<longleftrightarrow> j = JNull \<or> equals_int j 0"

definition decode_active_protection :: "BrokerResponse \<Rightarrow> BinanceUsdmAlgoOrderRecord \<Rightarrow> bool \<Rightarrow> ProtectionResult result" where
  "decode_active_protection resp r recovered =
     (case json_object resp of
        None \<Rightarrow> Inl (ValueError ''Binance USD-M response object is invalid'')
      | Some payload \<Rightarrow>
          let get = (\<lambda>k. payload_get k payload); side = map_of (al_request_body r) ''side'' in
          and_then (json_integer ''algoId'' 1 (get ''algoId'')) (\<lambda>algo_id.
          and_then (json_text ''clientAlgoId'' (get ''clientAlgoId'')) (\<lambda>client_algo_id.
          and_then (provider_price ''triggerPrice'' (get ''triggerPrice'')) (\<lambda>trigger_price.
            if client_algo_id \<noteq> al_client_algo_id r \<or> get ''algoType'' \<noteq> JText ''CONDITIONAL''
               \<or> get ''orderType'' \<noteq> JText ''STOP_MARKET'' \<or> get ''symbol'' \<noteq> JText SYMBOL
               \<or> get ''side'' \<noteq> (case side of Some s \<Rightarrow> JText s | None \<Rightarrow> JNull) \<or> get ''positionSide'' \<noteq> JText ''BOTH''
               \<or> get ''algoStatus'' \<noteq> JText ''NEW'' \<or> trigger_price \<noteq> al_trigger_price r
               \<or> get ''workingType'' \<noteq> JText ''MARK_PRICE'' \<or> get ''closePosition'' \<noteq> JBool True
               \<or> get ''priceProtect'' \<noteq> JBool False \<or> \<not> absent_or_false (get ''reduceOnly'')
            then Inl (ValueError ''Binance USD-M active protection response is invalid'')
            else let x = \<lparr>pt_provider_algo_id = Some (binance_provider_algo_id algo_id), pt_client_algo_id = client_algo_id,
                          pt_state = ACTIVE_STOP, pt_trigger_price = trigger_price, pt_recovered = recovered,
                          pt_emergency_close = None\<rparr>
                 in validated (ProtectionResult_checks x) x))))"

definition validate_emergency_command :: "EntryFill \<Rightarrow> BrokerOrderCommand \<Rightarrow> unit outcome" where
  "validate_emergency_command f c =
     (if cmd_id c \<noteq> en_emergency_close_command_id f \<or> cmd_account_id c \<noteq> en_account_id f
         \<or> cmd_instrument_id c \<noteq> en_instrument_id f \<or> cmd_command_type c \<noteq> SUBMIT \<or> cmd_side c \<noteq> opposite (en_side f)
         \<or> cmd_order_style c \<noteq> MARKET \<or> cmd_limit_price c \<noteq> None \<or> cmd_time_in_force c \<noteq> ''NONE''
         \<or> cmd_target_broker_order_id c \<noteq> None \<or> cmd_replaces_command_id c \<noteq> None
         \<or> cmd_origin_type c \<notin> set PROVIDER_WRITE_ORIGINS \<or> cmd_authority_class c \<noteq> CLOSING_AUTHORITY
         \<or> cmd_broker_client_order_id c \<noteq> binance_normal_client_order_id (cmd_id c) \<or> cmd_quantity c \<le> 0
      then Inl (Py (ValueError ''Binance USD-M emergency close command is invalid'')) else Inr ())"

definition validate_emergency_result :: "BrokerOrderCommand \<Rightarrow> BrokerWriteResult \<Rightarrow> unit outcome" where
  "validate_emergency_result c x =
     py (validated
       (BrokerWriteResult_checks x
        @ [(bw_client_order_id x \<noteq> cmd_broker_client_order_id c \<or> bw_provider_state x \<noteq> ''FILLED''
              \<or> bw_cumulative_filled_quantity x \<noteq> cmd_quantity c,
            ValueError ''Binance USD-M emergency close is not fully reconciled'')]) ())"

definition validate_persisted_fill :: "('e OrderEnv_scheme) \<Rightarrow> EntryFill \<Rightarrow> BinanceUsdmAlgoOrderRecord \<Rightarrow> unit outcome" where
  "validate_persisted_fill E f r =
     (case first_error (AlgoOrderRecord_checks (oe_sha256 E) r) of
        Some e \<Rightarrow> Inl (Py e)
      | None \<Rightarrow>
          if al_entry_fill r \<noteq> f
          then Inl (BrokerWriteDisabled ''Binance USD-M persisted protection identity does not match'') else Inr ())"

section \<open>The emergency close\<close>

text \<open>\<^verbatim>\<open>try: ... except Exception: failed = True\<close>; a cancellation goes through.\<close>

definition attempt :: "('w, 'a) op \<Rightarrow> ('w, 'a option) op" where
  "attempt m =
     rescued (followed_by m (\<lambda>x. give (Some x))) (\<lambda>e. if e = Cancellation then throw e else give None)"

definition close_position ::
  "('e ProtectionEnv_scheme) \<Rightarrow> EntryFill \<Rightarrow> ('x ProtectionWorld_scheme, BrokerWriteResult) op" where
  "close_position E f =
     followed_by (pure_op (pe_close_command E f)) (\<lambda>c.
     followed_by (pure_op (validate_emergency_command f c)) (\<lambda>_.
     followed_by
       (rescued (submit_locked E c)
         (\<lambda>e. case e of OrderUnknown _ \<Rightarrow> recover_by_client_id E (cmd_broker_client_order_id c) | _ \<Rightarrow> throw e)) (\<lambda>x.
     followed_by (pure_op (validate_emergency_result c x)) (\<lambda>_. give x))))"

definition emergency_result ::
  "BinanceUsdmAlgoOrderRecord \<Rightarrow> string option \<Rightarrow> BrokerWriteResult \<Rightarrow> ProtectionResult" where
  "emergency_result r observed shut =
     \<lparr>pt_provider_algo_id = observed, pt_client_algo_id = al_client_algo_id r, pt_state = EMERGENCY_CLOSED,
      pt_trigger_price = al_trigger_price r, pt_recovered = False, pt_emergency_close = Some shut\<rparr>"

definition fail_safe ::
  "('e ProtectionEnv_scheme) \<Rightarrow> BinanceUsdmAlgoOrderRecord \<Rightarrow> string \<Rightarrow> string option
     \<Rightarrow> ('x ProtectionWorld_scheme, ProtectionResult) op" where
  "fail_safe E r reason observed =
     (if al_state r = EMERGENCY_CLOSED
      then (case al_result r of Some x \<Rightarrow> give x | None \<Rightarrow> throw (Py AssertionError))
      else
        let f = al_entry_fill r in
        followed_by (attempt (close_position E f)) (\<lambda>shut.
        followed_by (attempt (cancel_entry_and_adds E (en_binding_id f))) (\<lambda>blocked.
        followed_by (attempt (confirm_zero_position E)) (\<lambda>flat.
        followed_by (attempt (halt_account E (en_binding_id f) reason)) (\<lambda>halted.
          case (shut, blocked, flat, halted) of
            (Some x, Some _, Some True, Some _) \<Rightarrow>
              let answer = emergency_result r observed x in
              followed_by (checked (ProtectionResult_checks answer)) (\<lambda>_.
              followed_by (finish_algo E (al_client_algo_id r) EMERGENCY_CLOSED (Some answer)) (\<lambda>_. give answer))
          | _ \<Rightarrow>
              followed_by (finish_algo E (al_client_algo_id r) UNKNOWN_STOP None)
                (\<lambda>_. throw (ProtectionEmergencyUnknown ''Binance USD-M emergency protection outcome is unknown'')))))))"

definition fail_safe_then ::
  "('e ProtectionEnv_scheme) \<Rightarrow> BinanceUsdmAlgoOrderRecord \<Rightarrow> string \<Rightarrow> string option \<Rightarrow> venue_error
     \<Rightarrow> ('x ProtectionWorld_scheme, 'a) op" where
  "fail_safe_then E r reason observed e = followed_by (fail_safe E r reason observed) (\<lambda>_. throw e)"

definition deadline_reached ::
  "('e OrderEnv_scheme) \<Rightarrow> BinanceUsdmAlgoOrderRecord \<Rightarrow> ('x OrderWorld_scheme, bool) op" where
  "deadline_reached E r =
     followed_by (clock_now E ''protection clock'') (\<lambda>now. give (en_protection_deadline (al_entry_fill r) \<le> now))"

definition DEADLINE :: string where "DEADLINE = ''BINANCE_PROTECTION_DEADLINE''"

definition DEADLINE_ERROR :: venue_error where
  "DEADLINE_ERROR = ProtectionUnknown ''Binance USD-M protection deadline required emergency close''"

text \<open>\<^verbatim>\<open>if self._deadline_reached(record): await self._fail_safe(...); raise\<close>, else another error.\<close>

definition late_or ::
  "('e ProtectionEnv_scheme) \<Rightarrow> BinanceUsdmAlgoOrderRecord \<Rightarrow> string \<Rightarrow> ('x ProtectionWorld_scheme, 'a) op" where
  "late_or E r message =
     followed_by (deadline_reached E r) (\<lambda>late.
       if late then fail_safe_then E r DEADLINE None DEADLINE_ERROR else throw (ProtectionUnknown message))"

section \<open>Placing, moving and recovering a stop\<close>

definition algo_query :: "string \<Rightarrow> BrokerRequest" where
  "algo_query cid = get_request ''/fapi/v1/algoOrder'' [(''clientAlgoId'', cid)]"

definition LATE_ERROR :: venue_error where
  "LATE_ERROR = ProtectionUnknown ''Binance USD-M late protection required emergency close''"

definition activate ::
  "('e ProtectionEnv_scheme) \<Rightarrow> BinanceUsdmAlgoOrderRecord \<Rightarrow> string \<Rightarrow> ProtectionResult
     \<Rightarrow> ('x ProtectionWorld_scheme, ProtectionResult) op" where
  "activate E r cid x =
     followed_by (deadline_reached E r) (\<lambda>late.
       if late then fail_safe_then E r DEADLINE (pt_provider_algo_id x) LATE_ERROR
       else followed_by (finish_algo E cid ACTIVE_STOP (Some x)) (\<lambda>_. give x))"

definition recover_row ::
  "('e ProtectionEnv_scheme) \<Rightarrow> string \<Rightarrow> BinanceUsdmAlgoOrderRecord \<Rightarrow> ('x ProtectionWorld_scheme, ProtectionResult) op" where
  "recover_row E cid r =
     (if safe_state (al_state r)
        then (case al_result r of Some x \<Rightarrow> give x | None \<Rightarrow> throw (Py AssertionError))
      else if al_state r = SUPERSEDED
        then throw (ProtectionNotMoved ''Binance USD-M protection was superseded by a later stop'')
      else if al_state r = UNKNOWN_STOP then fail_safe E r ''BINANCE_PROTECTION_RESTART'' None
      else followed_by (send E (algo_query cid)) (\<lambda>answer. case answer of
          SendCancelled \<Rightarrow> throw Cancellation
        | Answer resp \<Rightarrow>
            if is_not_found resp then late_or E r ''Binance USD-M protection is not yet found''
            else if resp_status resp \<noteq> 200 then late_or E r ''Binance USD-M protection recovery is unavailable''
            else (case decode_active_protection resp r True of
               Inl _ \<Rightarrow> late_or E r ''Binance USD-M recovered protection evidence is invalid''
             | Inr x \<Rightarrow> activate E r cid x)
        | _ \<Rightarrow> late_or E r ''Binance USD-M protection recovery is unavailable''))"

definition recover_by_client_algo_id ::
  "('e ProtectionEnv_scheme) \<Rightarrow> string \<Rightarrow> ('x ProtectionWorld_scheme, ProtectionResult) op" where
  "recover_by_client_algo_id E cid =
     (if \<not> client_id_text cid then throw (Py (ValueError ''Binance USD-M client algo ID is invalid''))
      else followed_by (load_by_client_algo_id E cid) (\<lambda>loaded. case loaded of
        None \<Rightarrow> throw (ProtectionUnknown ''Binance USD-M durable protection record is unavailable'')
      | Some r \<Rightarrow> recover_row E cid r))"

definition existing_stop ::
  "('e ProtectionEnv_scheme) \<Rightarrow> BinanceUsdmAlgoOrderRecord \<Rightarrow> ('x ProtectionWorld_scheme, ProtectionResult) op" where
  "existing_stop E r =
     (if safe_state (al_state r)
      then (case al_result r of Some x \<Rightarrow> give x | None \<Rightarrow> throw (Py AssertionError))
      else recover_by_client_algo_id E (al_client_algo_id r))"

definition accept_stop_response ::
  "('e ProtectionEnv_scheme) \<Rightarrow> BinanceUsdmAlgoOrderRecord \<Rightarrow> BrokerResponse \<Rightarrow> ('x ProtectionWorld_scheme, ProtectionResult) op" where
  "accept_stop_response E r resp =
     (let cid = al_client_algo_id r in
      if post_outcome_unknown resp
        then followed_by (mark_stop_ambiguous E cid)
               (\<lambda>_. late_or E r ''Binance USD-M protection dispatch outcome is unknown'')
      else if post_rejected resp
        then followed_by (finish_algo E cid REJECTED_STOP None) (\<lambda>_.
               fail_safe_then E r ''BINANCE_PROTECTION_REJECTED'' None
                 (ProtectionRejected ''Binance USD-M protection rejection required emergency close''))
      else if resp_status resp \<noteq> 200
        then followed_by (mark_stop_ambiguous E cid)
               (\<lambda>_. throw (ProtectionUnknown ''Binance USD-M protection dispatch outcome is unknown''))
      else case decode_active_protection resp r False of
        Inl _ \<Rightarrow> followed_by (mark_stop_ambiguous E cid)
                   (\<lambda>_. late_or E r ''Binance USD-M protection acknowledgement is unknown'')
      | Inr x \<Rightarrow> activate E r cid x)"

definition post_first_stop ::
  "('e ProtectionEnv_scheme) \<Rightarrow> BinanceUsdmAlgoOrderRecord \<Rightarrow> BrokerRequest \<Rightarrow> ('x ProtectionWorld_scheme, ProtectionResult) op" where
  "post_first_stop E r request =
     followed_by (send E request) (\<lambda>answer. case answer of
       SendCancelled \<Rightarrow> followed_by (mark_stop_ambiguous E (al_client_algo_id r)) (\<lambda>_. throw Cancellation)
     | Answer resp \<Rightarrow> accept_stop_response E r resp
     | _ \<Rightarrow> followed_by (mark_stop_ambiguous E (al_client_algo_id r))
              (\<lambda>_. late_or E r ''Binance USD-M protection dispatch outcome is unknown''))"

text \<open>
  What the first placement and a move do alike: the authority, the request, the clock and the claim.
\<close>

definition claim_stop ::
  "('e ProtectionEnv_scheme) \<Rightarrow> EntryFill \<Rightarrow> ProtectionAuthority \<Rightarrow> uuid option
     \<Rightarrow> ('x ProtectionWorld_scheme, BinanceUsdmAlgoOrderRecord \<times> bool \<times> BrokerRequest \<times> instant) op" where
  "claim_stop E f a placement =
     followed_by (pure_op (validate_risk_authority f a)) (\<lambda>trigger.
     followed_by (pure_op (build_binance_usdm_protection_request f trigger placement)) (\<lambda>request.
     followed_by (clock_now E ''protection clock'') (\<lambda>now.
       if now < en_filled_at f then throw (BrokerWriteDisabled ''Binance USD-M protection clock predates fill'')
       else followed_by (pure_op (prepared_algo E f trigger request now placement)) (\<lambda>prepared.
            followed_by (prepare_algo E prepared) (\<lambda>(r, acquired). give (r, acquired, request, now))))))"

definition protect_first_fill ::
  "('e ProtectionEnv_scheme) \<Rightarrow> EntryFill \<Rightarrow> ProtectionAuthority \<Rightarrow> ('x ProtectionWorld_scheme, ProtectionResult) op" where
  "protect_first_fill E f a =
     followed_by (checked (EntryFill_checks f)) (\<lambda>_.
     followed_by (load_by_client_algo_id E (binance_protection_client_algo_id (en_entry_command_id f))) (\<lambda>existing.
       case existing of
         Some r \<Rightarrow> followed_by (pure_op (validate_persisted_fill E f r)) (\<lambda>_. existing_stop E r)
       | None \<Rightarrow>
           if en_cumulative_quantity_before f \<noteq> 0
             then throw (BrokerWriteDisabled ''Binance USD-M protection requires the first non-zero fill'')
           else followed_by (claim_stop E f a None) (\<lambda>(r, acquired, request, now).
             if \<not> acquired
               then followed_by (pure_op (validate_persisted_fill E f r)) (\<lambda>_. existing_stop E r)
             else if en_protection_deadline f \<le> now then fail_safe_then E r DEADLINE None DEADLINE_ERROR
             else post_first_stop E r request)))"

text \<open>\<^verbatim>\<open>_accept_move_response\<close>, \<^verbatim>\<open>_withdraw\<close> and \<^verbatim>\<open>move_stop\<close>\<close>

definition accept_move_response ::
  "('e ProtectionEnv_scheme) \<Rightarrow> BinanceUsdmAlgoOrderRecord \<Rightarrow> BrokerResponse \<Rightarrow> ('x ProtectionWorld_scheme, ProtectionResult) op" where
  "accept_move_response E r resp =
     (if post_outcome_unknown resp
        then followed_by (mark_stop_ambiguous E (al_client_algo_id r))
               (\<lambda>_. throw (ProtectionNotMoved ''Binance USD-M stop move outcome is unknown''))
      else if post_rejected resp
        then followed_by (finish_algo E (al_client_algo_id r) REJECTED_STOP None)
               (\<lambda>_. throw (ProtectionNotMoved ''Binance USD-M stop move was rejected''))
      else accept_stop_response E r resp)"

definition withdraw :: "('e ProtectionEnv_scheme) \<Rightarrow> string \<Rightarrow> ('x ProtectionWorld_scheme, unit) op" where
  "withdraw E cid =
     (let ambiguous = followed_by (mark_stop_ambiguous E cid) (\<lambda>_. give ());
          superseded = followed_by (finish_algo E cid SUPERSEDED None) (\<lambda>_. give ())
      in followed_by (pure_op (build_binance_usdm_protection_cancel cid)) (\<lambda>request.
         followed_by (send E request) (\<lambda>answer. case answer of
           SendCancelled \<Rightarrow> followed_by (mark_stop_ambiguous E cid) (\<lambda>_. throw Cancellation)
         | Answer resp \<Rightarrow>
             if resp_status resp = 200 then superseded
             else followed_by (pure_op (is_algo_order_absent resp)) (\<lambda>absent. if absent then superseded else ambiguous)
         | _ \<Rightarrow> ambiguous)))"

definition post_move ::
  "('e ProtectionEnv_scheme) \<Rightarrow> BinanceUsdmAlgoOrderRecord \<Rightarrow> BrokerRequest \<Rightarrow> ('x ProtectionWorld_scheme, ProtectionResult) op" where
  "post_move E r request =
     followed_by (send E request) (\<lambda>answer. case answer of
       SendCancelled \<Rightarrow> followed_by (mark_stop_ambiguous E (al_client_algo_id r)) (\<lambda>_. throw Cancellation)
     | Answer resp \<Rightarrow> accept_move_response E r resp
     | _ \<Rightarrow> followed_by (mark_stop_ambiguous E (al_client_algo_id r))
              (\<lambda>_. throw (ProtectionNotMoved ''Binance USD-M stop move outcome is unknown'')))"

definition place_move ::
  "('e ProtectionEnv_scheme) \<Rightarrow> EntryFill \<Rightarrow> ProtectionAuthority \<Rightarrow> uuid \<Rightarrow> string
     \<Rightarrow> ('x ProtectionWorld_scheme, ProtectionResult) op" where
  "place_move E f a placement superseded =
     followed_by (claim_stop E f a (Some placement)) (\<lambda>(r, acquired, request, now).
       if \<not> acquired then existing_stop E r
       else followed_by (post_move E r request) (\<lambda>placed.
            followed_by (withdraw E superseded) (\<lambda>_. give placed)))"

definition move_stop ::
  "('e ProtectionEnv_scheme) \<Rightarrow> EntryFill \<Rightarrow> ProtectionAuthority \<Rightarrow> uuid \<Rightarrow> string
     \<Rightarrow> ('x ProtectionWorld_scheme, ProtectionResult) op" where
  "move_stop E f a placement superseded =
     followed_by (checked (EntryFill_checks f @ [uuid7_check ''placement_command_id'' placement,
        (\<not> client_id_text superseded, ValueError ''Binance USD-M client algo ID is invalid'')])) (\<lambda>_.
     if placement = en_entry_command_id f
       then throw (BrokerWriteDisabled ''a moved Binance USD-M stop needs its own id'')
     else followed_by (load_by_client_algo_id E superseded) (\<lambda>loaded. case loaded of
       None \<Rightarrow> throw (ProtectionNotMoved ''Binance USD-M superseded protection record is unavailable'')
     | Some working \<Rightarrow>
         if al_state working \<noteq> ACTIVE_STOP
           then throw (ProtectionNotMoved ''Binance USD-M protection to supersede is not active'')
         else if en_entry_command_id (al_entry_fill working) \<noteq> en_entry_command_id f
           then throw (BrokerWriteDisabled ''Binance USD-M stop belongs to another entry'')
         else place_move E f a placement superseded))"

section \<open>The live submitter\<close>

text \<open>\<^verbatim>\<open>MySqlProtectionContext\<close>: the stop that works behind an entry, the latest prepared one.\<close>

definition later_prepared ::
  "BinanceUsdmAlgoOrderRecord option \<Rightarrow> BinanceUsdmAlgoOrderRecord \<Rightarrow> BinanceUsdmAlgoOrderRecord option" where
  "later_prepared best r =
     (case best of None \<Rightarrow> Some r | Some b \<Rightarrow> if al_prepared_at b < al_prepared_at r then Some r else Some b)"

definition working_stop :: "uuid \<Rightarrow> ('x ProtectionWorld_scheme) \<Rightarrow> string option" where
  "working_stop entry w =
     map_option al_client_algo_id
       (foldl later_prepared None
          (filter (\<lambda>r. en_entry_command_id (al_entry_fill r) = entry \<and> al_state r = ACTIVE_STOP) (pw_algos w)))"

record ProtectionPlacement =
  pl_fill :: EntryFill
  pl_authority :: ProtectionAuthority
  pl_superseded :: "string option"

definition placement_for ::
  "('e ProtectionEnv_scheme) \<Rightarrow> BrokerOrderCommand \<Rightarrow> ('x ProtectionWorld_scheme, ProtectionPlacement) op" where
  "placement_for E c =
     (case cmd_trigger_price c of
        None \<Rightarrow> throw (ContextUnavailable ''a command with no trigger price is not a protective stop'')
      | Some stop \<Rightarrow>
          followed_by (pure_op (pe_entry_fill E c)) (\<lambda>f w.
            (w, Inr \<lparr>pl_fill = f,
                     pl_authority = \<lparr>pa_allowed = True, pa_blocker_codes = [], pa_stop_price = stop, pa_quantity = cmd_quantity c\<rparr>,
                     pl_superseded = working_stop (en_entry_command_id f) w\<rparr>)))"

definition receipt :: "ProtectionResult \<Rightarrow> string outcome" where
  "receipt x =
     (case pt_provider_algo_id x of
        None \<Rightarrow> Inl (SubmissionUnsupported ''Binance USD-M protection ended in an emergency close, not an order'')
      | Some s \<Rightarrow> Inr s)"

definition place_stop :: "('e ProtectionEnv_scheme) \<Rightarrow> BrokerOrderCommand \<Rightarrow> ('x ProtectionWorld_scheme, string) op" where
  "place_stop E c =
     followed_by (placement_for E c) (\<lambda>p.
     followed_by
       (rescued
         (case pl_superseded p of
            None \<Rightarrow> protect_first_fill E (pl_fill p) (pl_authority p)
          | Some cid \<Rightarrow> move_stop E (pl_fill p) (pl_authority p) (cmd_id c) cid)
         (\<lambda>e. case e of ProtectionRejected m \<Rightarrow> throw (OrderRejected m) | _ \<Rightarrow> throw e))
       (\<lambda>x. pure_op (receipt x)))"

definition wrong_command :: "CommandType \<Rightarrow> string \<Rightarrow> BrokerOrderCommand \<Rightarrow> checks" where
  "wrong_command expected name c =
     [(cmd_command_type c \<noteq> expected, ValueError (''Binance USD-M dispatch expected a '' @ name @ '' command''))]"

definition live_submit :: "('e ProtectionEnv_scheme) \<Rightarrow> BrokerOrderCommand \<Rightarrow> ('x ProtectionWorld_scheme, string) op" where
  "live_submit E c =
     followed_by (checked (wrong_command SUBMIT ''SUBMIT'' c)) (\<lambda>_.
       case cmd_trigger_price c of
         None \<Rightarrow> followed_by (submit_locked E c) (\<lambda>x. give (bw_broker_order_id x))
       | Some _ \<Rightarrow> place_stop E c)"

definition live_cancel :: "BrokerOrderCommand \<Rightarrow> ('x ProtectionWorld_scheme, string) op" where
  "live_cancel c =
     followed_by (checked (wrong_command CANCEL ''CANCEL'' c)) (\<lambda>_.
       throw (SubmissionUnsupported
         (if cmd_trigger_price c = None then ''a Binance USD-M market order has no working state to cancel''
          else ''a Binance USD-M protective stop is withdrawn by the move that replaces it, never on its own'')))"

definition live_replace :: "('e ProtectionEnv_scheme) \<Rightarrow> BrokerOrderCommand \<Rightarrow> ('x ProtectionWorld_scheme, string) op" where
  "live_replace E c =
     followed_by (checked (wrong_command REPLACE ''REPLACE'' c)) (\<lambda>_.
       case cmd_trigger_price c of
         None \<Rightarrow> throw (SubmissionUnsupported ''a Binance USD-M market order has no working state to replace'')
       | Some _ \<Rightarrow> place_stop E c)"

text \<open>\<^verbatim>\<open>_protection_client_algo_id\<close>: a first placement is filed under the entry, a move under itself.\<close>

definition protection_client_algo_id :: "BrokerOrderCommand \<Rightarrow> ProtectionPlacement \<Rightarrow> string" where
  "protection_client_algo_id c p =
     binance_protection_client_algo_id
       (if pl_superseded p = None then en_entry_command_id (pl_fill p) else cmd_id c)"

definition live_recover_submit :: "('e ProtectionEnv_scheme) \<Rightarrow> BrokerOrderCommand \<Rightarrow> ('x ProtectionWorld_scheme, string) op" where
  "live_recover_submit E c =
     (case cmd_trigger_price c of
        None \<Rightarrow> followed_by (recover_by_client_id E (cmd_broker_client_order_id c)) (\<lambda>x. give (bw_broker_order_id x))
      | Some _ \<Rightarrow>
          followed_by (placement_for E c) (\<lambda>p.
          followed_by (recover_by_client_algo_id E (protection_client_algo_id c p)) (\<lambda>x. pure_op (receipt x))))"

section \<open>What the order service leaves alone\<close>

text \<open>The operations of the order service change nothing but their own tables, the log and the clock.\<close>

named_theorems frame_intros \<open>operations that leave the extension of the state alone\<close>

definition same_more :: "'x \<Rightarrow> 'x OrderWorld_scheme \<Rightarrow> bool" where
  "same_more m w \<longleftrightarrow> OrderWorld.more w = m"

lemma frame_store [frame_intros]:
  "keeps (same_more m) (clock_now E n)" "keeps (same_more m) (send E q)" "keeps (same_more m) (load_by_client_id E cid)"
  "keeps (same_more m) (finish_order E cid st x)" "keeps (same_more m) (mark_not_sent E cid d)"
  by (auto simp: keeps_def same_more_def clock_now_def send_def load_by_client_id_def finish_order_def mark_not_sent_def
      reread_order_def change_order_def Let_def split: option.splits)

lemma frame_prepare [frame_intros]: "keeps (same_more m) (prepare_order E r)"
  by (auto simp: keeps_def same_more_def prepare_order_def followed_by_def give_def reread_order_def change_order_def
      split: option.splits sum.splits prod.splits)

lemma frame_ambiguous [frame_intros]: "keeps (same_more m) (mark_ambiguous E cid)" "keeps (same_more m) (ambiguous_then E cid e)"
  unfolding mark_ambiguous_def ambiguous_then_def by (intro keeps_intros frame_intros)+

lemma frame_confirmed [frame_intros]:
  assumes "\<And>e. keeps (same_more m) (h e)"
  shows "keeps (same_more m) (confirmed E cid r resp b h)"
  unfolding confirmed_def order_evidence_def result_with_fills_def acknowledge_def
  by (intro keeps_intros frame_intros assms) (auto intro!: keeps_intros split: reply.splits)

lemma frame_recover [frame_intros]: "keeps (same_more m) (recover_by_client_id E cid)"
  unfolding recover_by_client_id_def
  by (auto intro!: keeps_intros frame_intros split: option.splits BinanceUsdmNormalOrderState.splits reply.splits)

lemma frame_existing [frame_intros]: "keeps (same_more m) (existing_or_recover E r)"
  unfolding existing_or_recover_def
  by (auto intro!: keeps_intros frame_intros split: option.splits BinanceUsdmNormalOrderState.splits)

lemma frame_post [frame_intros]: "keeps (same_more m) (post_claimed E r q)"
  unfolding post_claimed_def accept_post_response_def Let_def
  by (auto intro!: keeps_intros frame_intros split: reply.splits)

lemma frame_submit [frame_intros]: "keeps (same_more m) (submit_locked E c)"
  unfolding submit_locked_def submit_new_def
  by (auto intro!: keeps_intros frame_intros split: option.splits prod.splits)

section \<open>A stop is posted at most once\<close>

definition posts_stop :: "string \<Rightarrow> BrokerRequest \<Rightarrow> bool" where
  "posts_stop cid q \<longleftrightarrow>
     wr_method q = ''POST'' \<and> wr_path q = ''/fapi/v1/algoOrder'' \<and> (''clientAlgoId'', cid) \<in> set (request_body q)"

definition stop_posts :: "string \<Rightarrow> (BrokerRequest \<times> reply) list \<Rightarrow> nat" where
  "stop_posts cid h = length (filter (\<lambda>e. posts_stop cid (fst e)) h)"

definition stops_inv :: "'x ProtectionWorld_scheme \<Rightarrow> bool" where
  "stops_inv w \<longleftrightarrow>
     distinct (map al_client_algo_id (pw_algos w))
     \<and> (\<forall>cid. stop_posts cid (ow_log w) \<le> 1)
     \<and> (\<forall>cid. 0 < stop_posts cid (ow_log w) \<longrightarrow> cid \<in> set (map al_client_algo_id (pw_algos w)))"

lemma stop_posts_append: "stop_posts cid (h @ h') = stop_posts cid h + stop_posts cid h'"
  by (simp add: stop_posts_def)

lemma no_stop_posts: "\<forall>e \<in> set h. \<not> posts_stop cid (fst e) \<Longrightarrow> stop_posts cid h = 0"
  by (simp add: stop_posts_def)

definition not_a_stop :: "BrokerRequest \<Rightarrow> bool" where
  "not_a_stop q \<longleftrightarrow> \<not> (wr_method q = ''POST'' \<and> wr_path q = ''/fapi/v1/algoOrder'')"

lemma is_get_not_a_stop: "is_get q \<Longrightarrow> not_a_stop q"
  by (simp add: is_get_def not_a_stop_def)

lemma foreign_keeps:
  fixes m :: "('x ProtectionWorld_scheme, 'a) op"
  assumes "\<And>x. keeps (same_more x) m" "sends_only not_a_stop m"
  shows "keeps stops_inv m"
  unfolding keeps_def
proof (intro allI impI)
  fix w :: "'x ProtectionWorld_scheme"
  assume inv: "stops_inv w"
  have "same_more (OrderWorld.more w) (fst (m w))"
    by (rule keeps_at [OF assms(1)]) (simp add: same_more_def)
  then have algos: "pw_algos (fst (m w)) = pw_algos w"
    by (cases w, cases "fst (m w)") (simp add: same_more_def)
  obtain es where es: "ow_log (fst (m w)) = ow_log w @ es" "\<forall>e \<in> set es. not_a_stop (fst e)"
    by (rule sends_onlyE [OF assms(2)])
  have "stop_posts cid (ow_log (fst (m w))) = stop_posts cid (ow_log w)" for cid
  proof -
    have "stop_posts cid es = 0"
      by (rule no_stop_posts) (use es(2) in \<open>auto simp: posts_stop_def not_a_stop_def\<close>)
    with es(1) show ?thesis by (simp add: stop_posts_append)
  qed
  with inv algos show "stops_inv (fst (m w))" by (simp add: stops_inv_def)
qed

lemma submit_locked_foreign: "sends_only not_a_stop (submit_locked E c)"
  unfolding sends_only_def
proof
  fix w
  obtain v res where s: "submit_locked E c w = (v, res)" by fastforce
  obtain es where es: "ow_log v = ow_log w @ es"
    "\<forall>e \<in> set es. is_get (fst e) \<or> authorized_request E c (oe_clock E (ow_ticks w)) (fst e)"
    by (rule submit_locked_sends [OF s])
  moreover have "not_a_stop q" if "authorized_request E c now q" for q now
    using that by (auto simp: authorized_request_def not_a_stop_def dest: built_request(2))
  ultimately show "\<exists>es. ow_log (fst (submit_locked E c w)) = ow_log w @ es \<and> (\<forall>e \<in> set es. not_a_stop (fst e))"
    using s by (intro exI [of _ es]) (auto intro: is_get_not_a_stop)
qed

lemma orders_keep_stops [keeps_intros]:
  "keeps stops_inv (submit_locked E c :: ('x ProtectionWorld_scheme, _) op)"
  "keeps stops_inv (recover_by_client_id E cid :: ('x ProtectionWorld_scheme, _) op)"
  "keeps stops_inv (clock_now E n :: ('x ProtectionWorld_scheme, _) op)"
  by (rule foreign_keeps; (intro frame_intros sends_intros submit_locked_foreign is_get_not_a_stop; assumption?))+

lemma send_keeps_stops: "not_a_stop q \<Longrightarrow> keeps stops_inv (send E q :: ('x ProtectionWorld_scheme, _) op)"
  by (rule foreign_keeps) (auto intro: frame_intros sends_intros)

lemma algo_query_not_a_stop [simp]: "not_a_stop (algo_query cid)"
  by (simp add: algo_query_def is_get_not_a_stop)

lemma cancel_not_a_stop: "build_binance_usdm_protection_cancel cid = Inr q \<Longrightarrow> not_a_stop q"
  by (auto simp: build_binance_usdm_protection_cancel_def not_a_stop_def split: if_splits)

lemma finish_algo_fst:
  "ow_log (fst (finish_algo E cid st x w)) = ow_log w
   \<and> map al_client_algo_id (pw_algos (fst (finish_algo E cid st x w))) = map al_client_algo_id (pw_algos w)
   \<and> pw_controls (fst (finish_algo E cid st x w)) = pw_controls w"
  by (auto simp: finish_algo_def followed_by_def checked_apply Let_def split: option.splits)

lemma finish_algo_keeps [keeps_intros]: "keeps stops_inv (finish_algo E cid st x)" "keeps stops_inv (mark_stop_ambiguous E cid)"
  unfolding keeps_def stops_inv_def mark_stop_ambiguous_def by (simp_all add: finish_algo_fst)

lemma attempt_keeps [keeps_intros]: "keeps I m \<Longrightarrow> keeps I (attempt m)"
  unfolding attempt_def by (intro keeps_intros) (auto intro: keeps_intros)

lemma safety_keeps [keeps_intros]:
  "keeps stops_inv (cancel_entry_and_adds E b)" "keeps stops_inv (halt_account E b reason)"
  "keeps stops_inv (confirm_zero_position E)"
  by (auto simp: cancel_entry_and_adds_def halt_account_def raise_to_def confirm_zero_position_def keeps_def followed_by_def
      pure_op_def throw_def stops_inv_def split: sum.splits)

lemma close_position_keeps [keeps_intros]: "keeps stops_inv (close_position E f)"
  unfolding close_position_def by (intro keeps_intros) (auto intro: keeps_intros split: venue_error.splits)

lemma fail_safe_keeps [keeps_intros]: "keeps stops_inv (fail_safe E r reason observed)" "keeps stops_inv (fail_safe_then E r reason observed e)"
  unfolding fail_safe_then_def fail_safe_def Let_def
  by (auto intro!: keeps_intros split: option.splits bool.splits)

lemma load_algo_keeps [keeps_intros]: "keeps stops_inv (load_by_client_algo_id E cid)"
  by (simp add: keeps_def load_by_client_algo_id_def)

lemma late_or_keeps [keeps_intros]: "keeps stops_inv (late_or E r m)" "keeps stops_inv (deadline_reached E r :: ('x ProtectionWorld_scheme, _) op)"
  unfolding late_or_def deadline_reached_def by (auto intro!: keeps_intros)

lemma activate_keeps [keeps_intros]: "keeps stops_inv (activate E r cid x)"
  unfolding activate_def by (auto intro!: keeps_intros)

lemma recover_stop_keeps [keeps_intros]: "keeps stops_inv (recover_by_client_algo_id E cid)"
  unfolding recover_by_client_algo_id_def recover_row_def
  by (auto intro!: keeps_intros send_keeps_stops split: option.splits reply.splits sum.splits)

lemma accept_keeps [keeps_intros]: "keeps stops_inv (accept_stop_response E r resp)" "keeps stops_inv (accept_move_response E r resp)"
  unfolding accept_stop_response_def accept_move_response_def Let_def
  by (auto intro!: keeps_intros split: sum.splits)

lemma existing_stop_keeps [keeps_intros]: "keeps stops_inv (existing_stop E r)"
  unfolding existing_stop_def by (auto intro!: keeps_intros split: option.splits)

text \<open>A claimed stop: its row is there and nothing was posted under its identifier.\<close>

definition claimed_stop :: "string \<Rightarrow> 'x ProtectionWorld_scheme \<Rightarrow> bool" where
  "claimed_stop cid w \<longleftrightarrow> stops_inv w \<and> stop_posts cid (ow_log w) = 0 \<and> cid \<in> set (map al_client_algo_id (pw_algos w))"

lemma prepare_algo_claims:
  assumes inv: "stops_inv w" and p: "prepare_algo E r w = (v, res)"
  shows "stops_inv v" and "res = Inr (x, True) \<Longrightarrow> x = r \<and> claimed_stop (al_client_algo_id r) v
    \<and> v = w\<lparr>pw_algos := pw_algos w @ [r]\<rparr> \<and> find_algo (al_client_algo_id r) w = None \<and> al_state r = PREPARED_STOP"
proof -
  have cases: "v = w \<and> (\<forall>x. res \<noteq> Inr (x, True))
      \<or> (v = w\<lparr>pw_algos := pw_algos w @ [r]\<rparr> \<and> res = Inr (r, True) \<and> al_state r = PREPARED_STOP
         \<and> (\<forall>s \<in> set (pw_algos w). al_client_algo_id s \<noteq> al_client_algo_id r))"
    using p by (auto simp: prepare_algo_def list_ex_iff split: option.splits if_splits sum.splits)
  then show "stops_inv v"
  proof
    assume "v = w \<and> (\<forall>x. res \<noteq> Inr (x, True))"
    with inv show ?thesis by simp
  next
    assume "v = w\<lparr>pw_algos := pw_algos w @ [r]\<rparr> \<and> res = Inr (r, True) \<and> al_state r = PREPARED_STOP
         \<and> (\<forall>s \<in> set (pw_algos w). al_client_algo_id s \<noteq> al_client_algo_id r)"
    with inv show ?thesis by (auto simp: stops_inv_def)
  qed
  assume x: "res = Inr (x, True)"
  with cases have v: "v = w\<lparr>pw_algos := pw_algos w @ [r]\<rparr>" "x = r" "al_state r = PREPARED_STOP"
    and new: "\<forall>s \<in> set (pw_algos w). al_client_algo_id s \<noteq> al_client_algo_id r" by auto
  from new have none: "al_client_algo_id r \<notin> set (map al_client_algo_id (pw_algos w))" by auto
  with inv have zero: "stop_posts (al_client_algo_id r) (ow_log w) = 0" unfolding stops_inv_def by blast
  have "find_algo (al_client_algo_id r) w = None"
    using new by (simp add: find_algo_def next_where_None)
  with v zero \<open>stops_inv v\<close> show "x = r \<and> claimed_stop (al_client_algo_id r) v
    \<and> v = w\<lparr>pw_algos := pw_algos w @ [r]\<rparr> \<and> find_algo (al_client_algo_id r) w = None \<and> al_state r = PREPARED_STOP"
    by (simp add: claimed_stop_def)
qed

lemma built_stop:
  assumes "build_binance_usdm_protection_request f trigger placement = Inr q"
  shows "posts_stop cid q \<longleftrightarrow>
    cid = binance_protection_client_algo_id (case placement of Some u \<Rightarrow> u | None \<Rightarrow> en_entry_command_id f)"
  using assms by (auto simp: build_binance_usdm_protection_request_def posts_stop_def request_body_def
      protection_parameters_def split: option.splits if_splits)

lemma prepared_algo_Inr:
  assumes "prepared_algo E f trigger q now placement = Inr r"
  shows "al_client_algo_id r = binance_protection_client_algo_id (case placement of Some u \<Rightarrow> u | None \<Rightarrow> en_entry_command_id f)"
    and "al_entry_fill r = f" "al_state r = PREPARED_STOP" "al_trigger_price r = trigger" "al_request_body r = request_body q"
  using assms by (auto simp: prepared_algo_def Let_def checks_simps)

text \<open>Sending the request of a claimed stop, and anything that keeps the invariant after it.\<close>

lemma post_then_keeps:
  assumes w: "claimed_stop cid w" and q: "\<And>c. posts_stop c q \<longleftrightarrow> c = cid" and f: "\<And>a. keeps stops_inv (f a)"
  shows "stops_inv (fst (followed_by (send E q) f w))"
proof -
  let ?v = "w\<lparr>ow_log := ow_log w @ [(q, oe_send E (ow_log w) q)]\<rparr>"
  have "stop_posts c (ow_log ?v) = stop_posts c (ow_log w) + (if c = cid then 1 else 0)" for c
    by (simp add: stop_posts_append stop_posts_def q)
  with w have "stops_inv ?v" by (auto simp: stops_inv_def claimed_stop_def)
  then show ?thesis by (simp add: followed_by_def send_def Let_def keeps_at [OF f])
qed

definition stop_id :: "EntryFill \<Rightarrow> uuid option \<Rightarrow> string" where
  "stop_id f placement =
     binance_protection_client_algo_id (case placement of Some u \<Rightarrow> u | None \<Rightarrow> en_entry_command_id f)"

lemma claim_stop_cases:
  fixes w v :: "'x ProtectionWorld_scheme"
  assumes c: "claim_stop E f a placement w = (v, res)"
  obtains (refused) e where "res = Inl e" "pw_algos v = pw_algos w" "ow_log v = ow_log w" "pw_controls v = pw_controls w"
  | (claim) trigger q now r u x where
      "validate_risk_authority f a = Inr trigger" "build_binance_usdm_protection_request f trigger placement = Inr q"
      "prepared_algo E f trigger q now placement = Inr r" "now = oe_clock E (ow_ticks w)"
      "u = w\<lparr>ow_ticks := ow_ticks w + 1\<rparr>" "prepare_algo E r u = (v, x)"
      "res = (case x of Inl e \<Rightarrow> Inl e | Inr (r', acquired) \<Rightarrow> Inr (r', acquired, q, now))"
proof -
  let ?u = "w\<lparr>ow_ticks := ow_ticks w + 1\<rparr>"
  let ?now = "oe_clock E (ow_ticks w)"
  show thesis
  proof (cases "\<exists>trigger q r. validate_risk_authority f a = Inr trigger
      \<and> build_binance_usdm_protection_request f trigger placement = Inr q \<and> whole_second ?now
      \<and> en_filled_at f \<le> ?now \<and> prepared_algo E f trigger q ?now placement = Inr r")
    case False
    then have "pw_algos v = pw_algos w \<and> ow_log v = ow_log w \<and> pw_controls v = pw_controls w \<and> (\<exists>e. res = Inl e)"
      using c by (auto simp: claim_stop_def followed_by_def pure_op_def clock_now_def Let_def utc_check_def py_def validated_def
          throw_def split: sum.splits if_splits)
    then show thesis using refused by blast
  next
    case True
    then obtain trigger q r where ok: "validate_risk_authority f a = Inr trigger"
      "build_binance_usdm_protection_request f trigger placement = Inr q" "whole_second ?now"
      "en_filled_at f \<le> ?now" "prepared_algo E f trigger q ?now placement = Inr r" by blast
    obtain v' x where p: "prepare_algo E r ?u = (v', x)" by fastforce
    have "v' = v \<and> res = (case x of Inl e \<Rightarrow> Inl e | Inr (r', acquired) \<Rightarrow> Inr (r', acquired, q, ?now))"
      using c ok p by (auto simp: claim_stop_def followed_by_def pure_op_def clock_now_def Let_def utc_check_def py_def
          validated_def give_def split: sum.splits)
    with ok p show thesis by (intro claim) auto
  qed
qed

lemma claim_stop_claims:
  assumes inv: "stops_inv w" and c: "claim_stop E f a placement w = (v, res)"
  shows "stops_inv v" and "res = Inr (r, True, q, now) \<Longrightarrow> al_client_algo_id r = stop_id f placement
    \<and> al_entry_fill r = f \<and> claimed_stop (stop_id f placement) v \<and> (\<forall>c. posts_stop c q \<longleftrightarrow> c = stop_id f placement)"
proof -
  show "stops_inv v"
    using c
  proof (cases rule: claim_stop_cases)
    case refused
    with inv show ?thesis by (simp add: stops_inv_def)
  next
    case (claim trigger q now r u x)
    have "stops_inv u" using inv claim(5) by (simp add: stops_inv_def)
    then show ?thesis by (rule prepare_algo_claims(1) [OF _ claim(6)])
  qed
  assume res: "res = Inr (r, True, q, now)"
  show "al_client_algo_id r = stop_id f placement
    \<and> al_entry_fill r = f \<and> claimed_stop (stop_id f placement) v \<and> (\<forall>c. posts_stop c q \<longleftrightarrow> c = stop_id f placement)"
    using c
  proof (cases rule: claim_stop_cases)
    case refused
    with res show ?thesis by simp
  next
    case (claim trigger q' now' r' u x)
    with res have x: "x = Inr (r, True)" "q' = q" by (auto split: sum.splits)
    have "stops_inv u" using inv claim(5) by (simp add: stops_inv_def)
    from prepare_algo_claims(2) [OF this claim(6) x(1)] have r: "r = r'" "claimed_stop (al_client_algo_id r') v" by auto
    with prepared_algo_Inr [OF claim(3)] built_stop [OF claim(2)] x(2) show ?thesis by (simp add: stop_id_def)
  qed
qed

lemma claim_then_keeps:
  fixes f' :: "_ \<Rightarrow> ('x ProtectionWorld_scheme, 'b) op"
  assumes claimed: "\<And>w r q now. claimed_stop (stop_id f placement) w \<Longrightarrow> al_client_algo_id r = stop_id f placement \<Longrightarrow>
      (\<And>c. posts_stop c q \<longleftrightarrow> c = stop_id f placement) \<Longrightarrow> stops_inv (fst (f' (r, True, q, now) w))"
    and other: "\<And>r q now. keeps stops_inv (f' (r, False, q, now))"
  shows "keeps stops_inv (followed_by (claim_stop E f a placement) f')"
  unfolding keeps_def
proof (intro allI impI)
  fix w :: "'x ProtectionWorld_scheme"
  assume inv: "stops_inv w"
  obtain v res where c: "claim_stop E f a placement w = (v, res)" by fastforce
  note facts = claim_stop_claims [OF inv c]
  show "stops_inv (fst (followed_by (claim_stop E f a placement) f' w))"
  proof (cases res)
    case (Inl e)
    with c facts(1) show ?thesis by (simp add: followed_by_def)
  next
    case (Inr y)
    obtain r b q now where y: "y = (r, b, q, now)" by (metis surj_pair)
    show ?thesis
    proof (cases b)
      case True
      with facts(2) [of r q now] Inr y claimed [of v r q now] c show ?thesis by (simp add: followed_by_def)
    next
      case False
      with Inr y c keeps_at [OF other facts(1)] show ?thesis by (simp add: followed_by_def)
    qed
  qed
qed

lemma followed_by_keeps_at:
  assumes "I (fst (m w))" "\<And>x. keeps I (f x)"
  shows "I (fst (followed_by m f w))"
proof (cases "m w")
  case (Pair v r)
  with assms show ?thesis by (cases r) (auto simp: followed_by_def keeps_def)
qed

lemma claimed_stop_inv: "claimed_stop cid w \<Longrightarrow> stops_inv w"
  by (simp add: claimed_stop_def)

lemma protect_first_fill_keeps [keeps_intros]:
  "keeps stops_inv (protect_first_fill E f a :: ('x ProtectionWorld_scheme, _) op)"
proof -
  have "stops_inv (fst (post_first_stop E r q w))"
    if "claimed_stop (stop_id f None) w" "\<And>c. posts_stop c q \<longleftrightarrow> c = stop_id f None" for r q and w :: "'x ProtectionWorld_scheme"
    unfolding post_first_stop_def by (rule post_then_keeps [OF that]) (auto intro!: keeps_intros split: reply.splits)
  then have "keeps stops_inv (followed_by (claim_stop E f a None) (\<lambda>(r, acquired, request, now).
             if \<not> acquired
               then followed_by (pure_op (validate_persisted_fill E f r)) (\<lambda>_. existing_stop E r)
             else if en_protection_deadline f \<le> now then fail_safe_then E r DEADLINE None DEADLINE_ERROR
             else post_first_stop E r request) :: ('x ProtectionWorld_scheme, _) op)"
    by (intro claim_then_keeps)
      (simp_all add: keeps_at [OF fail_safe_keeps(2) claimed_stop_inv] keeps_followed_by keeps_basic existing_stop_keeps)
  then show ?thesis
    unfolding protect_first_fill_def by (auto intro!: keeps_basic keeps_followed_by load_algo_keeps existing_stop_keeps split: option.splits)
qed

lemma followed_by_pure: "followed_by (pure_op r) f = (case r of Inl e \<Rightarrow> throw e | Inr x \<Rightarrow> f x)"
  by (simp add: fun_eq_iff op_defs split: sum.splits)

lemma withdraw_keeps [keeps_intros]: "keeps stops_inv (withdraw E cid)"
proof (cases "build_binance_usdm_protection_cancel cid")
  case (Inl e)
  then show ?thesis by (simp add: withdraw_def followed_by_pure keeps_basic)
next
  case (Inr q)
  have "keeps stops_inv (send E q)" by (rule send_keeps_stops [OF cancel_not_a_stop [OF Inr]])
  then show ?thesis
    by (auto simp: withdraw_def followed_by_pure Inr Let_def intro!: keeps_followed_by keeps_basic finish_algo_keeps
        split: reply.splits sum.splits)
qed

lemma move_stop_keeps [keeps_intros]: "keeps stops_inv (move_stop E f a placement superseded :: ('x ProtectionWorld_scheme, _) op)"
proof -
  have post: "stops_inv (fst (post_move E r q w))"
    if "claimed_stop (stop_id f (Some placement)) w" "\<And>c. posts_stop c q \<longleftrightarrow> c = stop_id f (Some placement)"
    for r q and w :: "'x ProtectionWorld_scheme"
    unfolding post_move_def by (rule post_then_keeps [OF that]) (auto intro!: keeps_intros split: reply.splits)
  have "keeps stops_inv (place_move E f a placement superseded :: ('x ProtectionWorld_scheme, _) op)"
    unfolding place_move_def
    by (intro claim_then_keeps) (simp_all add: followed_by_keeps_at post keeps_followed_by keeps_basic withdraw_keeps existing_stop_keeps)
  then show ?thesis
    unfolding move_stop_def by (auto intro!: keeps_basic keeps_followed_by load_algo_keeps split: option.splits)
qed

lemma placement_for_keeps [keeps_intros]: "keeps I (placement_for E c)"
  by (auto simp: placement_for_def keeps_def followed_by_def pure_op_def throw_def split: option.splits sum.splits)

lemma place_stop_keeps [keeps_intros]: "keeps stops_inv (place_stop E c)"
  unfolding place_stop_def by (auto intro!: keeps_intros split: option.splits venue_error.splits)

text \<open>Calls of the live submitter, in any order, each with its environment as it is then.\<close>

datatype live_call =
    LiveSubmit ProtectionEnv BrokerOrderCommand
  | LiveReplace ProtectionEnv BrokerOrderCommand
  | LiveRecover ProtectionEnv BrokerOrderCommand
  | RecoverStop ProtectionEnv string

fun live_call_step :: "ProtectionWorld \<Rightarrow> live_call \<Rightarrow> ProtectionWorld option" where
  "live_call_step w (LiveSubmit E c) = Some (fst (live_submit E c w))"
| "live_call_step w (LiveReplace E c) = Some (fst (live_replace E c w))"
| "live_call_step w (LiveRecover E c) = Some (fst (live_recover_submit E c w))"
| "live_call_step w (RecoverStop E cid) = Some (fst (recover_by_client_algo_id E cid w))"

definition no_stops :: "ControlRow list \<Rightarrow> ProtectionWorld" where
  "no_stops controls = \<lparr>ow_orders = [], ow_log = [], ow_ticks = 0, pw_algos = [], pw_controls = controls\<rparr>"

lemma live_keeps [keeps_intros]:
  "keeps stops_inv (live_submit E c)" "keeps stops_inv (live_replace E c)" "keeps stops_inv (live_recover_submit E c)"
  unfolding live_submit_def live_replace_def live_recover_submit_def
  by (auto intro!: keeps_intros split: option.splits)

interpretation live_service: transition_system live_call_step "stops_inv :: ProtectionWorld \<Rightarrow> bool"
proof
  fix w w' :: ProtectionWorld and e
  assume "stops_inv w" "live_call_step w e = Some w'"
  then show "stops_inv w'"
    by (cases e) (auto intro!: keeps_at [of stops_inv] keeps_intros)
qed

text \<open>C14: 
  However submissions, replacements and recoveries follow each other, and whatever the venue
  answers, a protective stop is posted at most once under its identifier: an ambiguous stop is asked
  for, never posted again.
\<close>

theorem stop_posted_at_most_once:
  "stop_posts cid (ow_log (run_steps live_call_step (no_stops controls) calls)) \<le> 1"
proof -
  have "stops_inv (no_stops controls)" by (simp add: stops_inv_def no_stops_def stop_posts_def)
  from live_service.run_inv [OF this] show ?thesis by (simp add: stops_inv_def)
qed

section \<open>A position that cannot be protected\<close>

text \<open>A control that is disarmed under a kill switch no weaker than \<^verbatim>\<open>EMERGENCY\<close>.\<close>

definition halted_control :: "ControlRow \<Rightarrow> bool" where
  "halted_control c \<longleftrightarrow> \<not> ctl_armed c \<and> kill_switch_rank ''EMERGENCY'' \<le> kill_switch_rank (ctl_kill_switch_level c)"

definition account_halted :: "'x ProtectionWorld_scheme \<Rightarrow> bool" where
  "account_halted w \<longleftrightarrow> list_all halted_control (pw_controls w)"

text \<open>The kill switch never moves down.\<close>

lemma raised_control_up:
  "kill_switch_rank (ctl_kill_switch_level c) \<le> kill_switch_rank (ctl_kill_switch_level (raised_control level disarm c))"
  "kill_switch_rank level \<le> kill_switch_rank (ctl_kill_switch_level (raised_control level disarm c))"
  "ctl_armed (raised_control level disarm c) \<longleftrightarrow> ctl_armed c \<and> \<not> disarm"
  by (auto simp: raised_control_def Let_def)

lemma raised_halted: "halted_control (raised_control ''EMERGENCY'' True c)"
  by (simp add: halted_control_def raised_control_up)

lemma attempt_cases:
  assumes "attempt m w = (v, res)"
  obtains (cancelled) "res = Inl Cancellation" | (caught) "res = Inr None" "fst (m w) = v"
    | (ok) x where "m w = (v, Inr x)" "res = Inr (Some x)"
proof (cases "m w")
  case (Pair u r)
  with assms that show thesis
    by (cases r) (auto simp: attempt_def rescued_def followed_by_def give_def throw_def split: if_splits)
qed

lemma own_safety:
  assumes "b = pe_binding_id E"
  shows "cancel_entry_and_adds E b w = (w\<lparr>pw_controls := map (raised_control ''BLOCK_NEW_EXPOSURE'' False) (pw_controls w)\<rparr>, Inr ())"
    and "strip reason \<noteq> [] \<Longrightarrow>
      halt_account E b reason w = (w\<lparr>pw_controls := map (raised_control ''EMERGENCY'' True) (pw_controls w)\<rparr>, Inr ())"
  using assms by (simp_all add: cancel_entry_and_adds_def halt_account_def require_own_def followed_by_pure raise_to_def)

text \<open>What a finished emergency close has established.\<close>

definition position_closed :: "('e ProtectionEnv_scheme) \<Rightarrow> EntryFill \<Rightarrow> ProtectionResult \<Rightarrow> bool" where
  "position_closed E f x \<longleftrightarrow>
     (\<exists>c y h held. pe_close_command E f = Inr c \<and> cmd_side c = opposite (en_side f) \<and> cmd_authority_class c = CLOSING_AUTHORITY
        \<and> pt_emergency_close x = Some y \<and> bw_provider_state y = ''FILLED''
        \<and> bw_cumulative_filled_quantity y = cmd_quantity c
        \<and> pe_snapshot E h = Inr (True, held) \<and> pe_instrument_id E \<notin> set held)"

lemma close_position_Inr:
  assumes "close_position E f w = (v, Inr x)"
  shows "\<exists>c. pe_close_command E f = Inr c \<and> validate_emergency_command f c = Inr () \<and> validate_emergency_result c x = Inr ()"
  using assms by (auto simp: close_position_def followed_by_pure give_def throw_def split: sum.splits elim!: followed_by_InrE)

lemma fail_safe_halts:
  fixes w v :: "'x ProtectionWorld_scheme"
  assumes run: "fail_safe E r reason observed w = (v, res)" and live: "res \<noteq> Inl Cancellation"
    and r: "al_state r \<noteq> EMERGENCY_CLOSED" "en_binding_id (al_entry_fill r) = pe_binding_id E" "strip reason \<noteq> []"
  shows "account_halted v" and "res = Inr x \<Longrightarrow> position_closed E (al_entry_fill r) x"
proof -
  let ?f = "al_entry_fill r"
  let ?B = "\<lambda>w. w\<lparr>pw_controls := map (raised_control ''BLOCK_NEW_EXPOSURE'' False) (pw_controls w)\<rparr>"
  let ?H = "\<lambda>w. w\<lparr>pw_controls := map (raised_control ''EMERGENCY'' True) (pw_controls w)\<rparr>"
  obtain w1 r1 where s1: "attempt (close_position E ?f) w = (w1, r1)" by fastforce
  with run live r(1) have c1: "r1 \<noteq> Inl Cancellation"
    by (auto simp: fail_safe_def Let_def followed_by_def)
  have "r1 \<noteq> Inl e" for e using c1 s1 by (cases rule: attempt_cases [OF s1]) auto
  then obtain o1 where o1: "r1 = Inr o1" by (cases r1) auto
  have s2: "attempt (cancel_entry_and_adds E (en_binding_id ?f)) w1 = (?B w1, Inr (Some ()))"
    by (simp add: attempt_def rescued_def followed_by_def give_def own_safety [OF r(2)])
  obtain w3 r3 where s3: "attempt (confirm_zero_position E :: ('x ProtectionWorld_scheme, bool) op) (?B w1) = (w3, r3)" by fastforce
  with run live r(1) have c3: "r3 \<noteq> Inl Cancellation"
    by (auto simp: fail_safe_def Let_def followed_by_def s1 o1 s2)
  have "r3 \<noteq> Inl e" for e using c3 s3 by (cases rule: attempt_cases [OF s3]) auto
  then obtain o3 where o3: "r3 = Inr o3" by (cases r3) auto
  have w3: "w3 = ?B w1"
    using s3 by (auto simp: attempt_def rescued_def followed_by_def give_def throw_def confirm_zero_position_def
        split: sum.splits if_splits)
  have s4: "attempt (halt_account E (en_binding_id ?f) reason) w3 = (?H w3, Inr (Some ()))"
    by (simp add: attempt_def rescued_def followed_by_def give_def own_safety [OF r(2)] r(3))
  define tl :: "('x ProtectionWorld_scheme, ProtectionResult) op" where "tl = (case (o1, Some (), o3, Some ()) of
            (Some x, Some _, Some True, Some _) \<Rightarrow>
              let answer = emergency_result r observed x in
              followed_by (checked (ProtectionResult_checks answer)) (\<lambda>_.
              followed_by (finish_algo E (al_client_algo_id r) EMERGENCY_CLOSED (Some answer)) (\<lambda>_. give answer))
          | _ \<Rightarrow>
              followed_by (finish_algo E (al_client_algo_id r) UNKNOWN_STOP None)
                (\<lambda>_. throw (ProtectionEmergencyUnknown ''Binance USD-M emergency protection outcome is unknown'')))"
  have tail: "tl (?H w3) = (v, res)"
    using run r(1) by (simp add: fail_safe_def Let_def followed_by_def s1 o1 s2 s3 o3 s4 tl_def)
  have ctl: "keeps (\<lambda>u :: 'x ProtectionWorld_scheme. pw_controls u = C) (finish_algo E cid st y)" for C cid st y
    by (simp add: keeps_def finish_algo_fst)
  have "keeps (\<lambda>u :: 'x ProtectionWorld_scheme. pw_controls u = pw_controls (?H w3)) tl"
    unfolding tl_def by (auto simp: Let_def intro!: keeps_intros ctl split: option.splits bool.splits)
  then have "pw_controls (fst (tl (?H w3))) = pw_controls (?H w3)" unfolding keeps_def by blast
  with tail have "pw_controls v = pw_controls (?H w3)" by simp
  then show "account_halted v" by (simp add: account_halted_def list_all_iff raised_halted)
  assume x: "res = Inr x"
  obtain y where y: "o1 = Some y" "o3 = Some True" "x = emergency_result r observed y"
  proof (cases "\<exists>y. o1 = Some y \<and> o3 = Some True")
    case True
    then obtain y where y: "o1 = Some y" "o3 = Some True" by blast
    with tail x that [OF y] show ?thesis
      by (auto simp: tl_def Let_def give_def elim!: followed_by_InrE)
  next
    case False
    with tail x show ?thesis
      by (auto simp: tl_def throw_def elim!: followed_by_InrE split: option.splits bool.splits)
  qed
  from s1 o1 y(1) have "close_position E ?f w = (w1, Inr y)"
    by (cases rule: attempt_cases [OF s1]) auto
  then obtain c where c: "pe_close_command E ?f = Inr c" "validate_emergency_command ?f c = Inr ()" "validate_emergency_result c y = Inr ()"
    using close_position_Inr by blast
  from s3 o3 y(2) have "confirm_zero_position E (?B w1) = (w3, Inr True)"
    by (cases rule: attempt_cases [OF s3]) auto
  then obtain held where "pe_snapshot E (ow_log (?B w1)) = Inr (True, held)" "pe_instrument_id E \<notin> set held"
    by (auto simp: confirm_zero_position_def list_all_iff split: sum.splits)
  with c y(3) show "position_closed E ?f x"
    unfolding position_closed_def
    by (auto simp: validate_emergency_command_def validate_emergency_result_def emergency_result_def checks_simps
        first_error_append split: if_splits option.splits)
qed

text \<open>Every error that tells of an emergency close, and the rows of this binding.\<close>

definition emergency_error :: "venue_error \<Rightarrow> bool" where
  "emergency_error e \<longleftrightarrow>
     (\<exists>m. e = ProtectionRejected m \<or> e = ProtectionEmergencyUnknown m) \<or> e = DEADLINE_ERROR \<or> e = LATE_ERROR"

definition own_rows :: "('e ProtectionEnv_scheme) \<Rightarrow> 'x ProtectionWorld_scheme \<Rightarrow> bool" where
  "own_rows E w \<longleftrightarrow> (\<forall>r \<in> set (pw_algos w). en_binding_id (al_entry_fill r) = pe_binding_id E)"

definition halts :: "('e ProtectionEnv_scheme) \<Rightarrow> ('x ProtectionWorld_scheme, 'a) op \<Rightarrow> bool" where
  "halts E m \<longleftrightarrow>
     (\<forall>w. own_rows E w \<longrightarrow> own_rows E (fst (m w))
        \<and> (\<forall>e. snd (m w) = Inl e \<longrightarrow> emergency_error e \<longrightarrow> account_halted (fst (m w))))"

named_theorems halts_intros \<open>operations that tell of an emergency close only on a halted account\<close>

lemma halts_calm:
  "keeps (own_rows E) m \<Longrightarrow> (\<And>w e. snd (m w) = Inl e \<Longrightarrow> \<not> emergency_error e) \<Longrightarrow> halts E m"
  by (auto simp: halts_def keeps_def)

lemma halts_followed_by_yields:
  fixes m :: "('x ProtectionWorld_scheme, 'a) op"
  assumes "halts E m" "yields m Q" "\<And>x. Q x \<Longrightarrow> halts E (f x)"
  shows "halts E (followed_by m f)"
  unfolding halts_def
proof (intro allI impI)
  fix w :: "'x ProtectionWorld_scheme"
  assume own: "own_rows E w"
  obtain v r where m: "m w = (v, r)" by fastforce
  with own assms(1) have v: "own_rows E v" "\<And>e. r = Inl e \<Longrightarrow> emergency_error e \<Longrightarrow> account_halted v"
    unfolding halts_def by (auto dest!: spec [of _ w])
  show "own_rows E (fst (followed_by m f w)) \<and> (\<forall>e. snd (followed_by m f w) = Inl e \<longrightarrow> emergency_error e
      \<longrightarrow> account_halted (fst (followed_by m f w)))"
  proof (cases r)
    case (Inl e)
    with m v show ?thesis by (simp add: followed_by_def)
  next
    case (Inr x)
    with m have "Q x" by (auto intro: yieldsD [OF assms(2)])
    with assms(3) v(1) have "own_rows E (fst (f x v)) \<and> (\<forall>e. snd (f x v) = Inl e \<longrightarrow> emergency_error e
      \<longrightarrow> account_halted (fst (f x v)))" unfolding halts_def by blast
    with m Inr show ?thesis by (simp add: followed_by_def)
  qed
qed

lemma halts_followed_by [halts_intros]: "halts E m \<Longrightarrow> (\<And>x. halts E (f x)) \<Longrightarrow> halts E (followed_by m f)"
  by (rule halts_followed_by_yields [where Q = "\<lambda>_. True"]) (simp_all add: yields_def)

lemma emergency_errors [simp]:
  "\<not> emergency_error (Py e)" "\<not> emergency_error (BrokerWriteDisabled m)" "\<not> emergency_error Cancellation"
  "\<not> emergency_error (OrderRecordMissing m)" "\<not> emergency_error (ProtectionNotMoved m)" "\<not> emergency_error (ContextUnavailable m)"
  by (simp_all add: emergency_error_def DEADLINE_ERROR_def LATE_ERROR_def)

lemma halts_basic [halts_intros]:
  "halts E (give x)" "\<not> emergency_error e \<Longrightarrow> halts E (throw e)" "halts E (checked cs)"
  by (auto simp: halts_def op_simps split: option.splits)

lemma halts_pure: "(\<And>e. r = Inl e \<Longrightarrow> \<not> emergency_error e) \<Longrightarrow> halts E (pure_op r)"
  by (simp add: halts_def pure_op_def)

lemma own_foreign [halts_intros]:
  fixes m :: "('x ProtectionWorld_scheme, 'a) op"
  assumes "\<And>x. keeps (same_more x) m"
  shows "keeps (own_rows E) m"
  unfolding keeps_def
proof (intro allI impI)
  fix w :: "'x ProtectionWorld_scheme"
  assume own: "own_rows E w"
  have "same_more (OrderWorld.more w) (fst (m w))"
    by (rule keeps_at [OF assms]) (simp add: same_more_def)
  then have "pw_algos (fst (m w)) = pw_algos w"
    by (cases w, cases "fst (m w)") (simp add: same_more_def)
  with own show "own_rows E (fst (m w))" by (simp add: own_rows_def)
qed

lemma finish_algo_calm:
  "snd (finish_algo E cid st x w) = Inl e \<Longrightarrow> \<not> emergency_error e"
  by (auto simp: finish_algo_def followed_by_def checked_apply Let_def read_algo_def py_def
      split: option.splits sum.splits if_splits)

lemma finish_algo_own: "keeps (own_rows E) (finish_algo E' cid st x)"
  by (auto simp: keeps_def own_rows_def finish_algo_def followed_by_def checked_apply Let_def split: option.splits)

lemma halts_store [halts_intros]:
  "halts E (finish_algo E' cid st x)" "halts E (mark_stop_ambiguous E' cid)" "halts E (load_by_client_algo_id E' cid)"
  "halts E (clock_now E' n :: ('x ProtectionWorld_scheme, _) op)" "halts E (send E' q :: ('x ProtectionWorld_scheme, _) op)"
  "halts E (deadline_reached E' r :: ('x ProtectionWorld_scheme, _) op)"
proof -
  show f: "halts E (finish_algo E' cid st x)" for cid st x
    by (rule halts_calm [OF finish_algo_own finish_algo_calm])
  then show "halts E (mark_stop_ambiguous E' cid)" by (simp add: mark_stop_ambiguous_def)
  show "halts E (load_by_client_algo_id E' cid)"
    by (auto simp: halts_def load_by_client_algo_id_def read_algo_def py_def split: option.splits sum.splits)
  show c: "halts E (clock_now E' n :: ('x ProtectionWorld_scheme, _) op)" for n
    by (rule halts_calm [OF own_foreign [OF frame_store(1)]])
      (auto simp: clock_now_def Let_def py_def split: sum.splits)
  show "halts E (send E' q :: ('x ProtectionWorld_scheme, _) op)"
    by (rule halts_calm [OF own_foreign [OF frame_store(2)]]) (simp add: send_def Let_def)
  show "halts E (deadline_reached E' r :: ('x ProtectionWorld_scheme, _) op)"
    unfolding deadline_reached_def by (intro halts_intros c)
qed

lemma fail_safe_own: "keeps (own_rows E) (fail_safe E r reason observed)"
proof -
  have s: "keeps (own_rows E) (cancel_entry_and_adds E b)" "keeps (own_rows E) (halt_account E b reason)"
    "keeps (own_rows E) (confirm_zero_position E)" for b
    by (auto simp: cancel_entry_and_adds_def halt_account_def raise_to_def confirm_zero_position_def keeps_def followed_by_pure
        throw_def own_rows_def split: sum.splits)
  have "keeps (own_rows E) (close_position E f)" for f
    unfolding close_position_def
    by (auto intro!: keeps_intros own_foreign frame_intros split: venue_error.splits)
  with s show ?thesis
    unfolding fail_safe_def Let_def
    by (auto intro!: keeps_intros finish_algo_own split: option.splits bool.splits)
qed

lemma fail_safe_halts_op:
  assumes "al_state r \<noteq> EMERGENCY_CLOSED" "en_binding_id (al_entry_fill r) = pe_binding_id E" "strip reason \<noteq> []"
  shows "halts E (fail_safe E r reason observed :: ('x ProtectionWorld_scheme, _) op)"
    and "halts E (fail_safe_then E r reason observed e :: ('x ProtectionWorld_scheme, 'b) op)"
proof -
  have h: "account_halted (fst (fail_safe E r reason observed w))"
    if "snd (fail_safe E r reason observed w) \<noteq> Inl Cancellation" for w :: "'x ProtectionWorld_scheme"
    using fail_safe_halts(1) [OF _ that assms] by (metis prod.collapse)
  have own: "own_rows E (fst (fail_safe E r reason observed w))" if "own_rows E w" for w :: "'x ProtectionWorld_scheme"
    by (rule keeps_at [OF fail_safe_own that])
  show "halts E (fail_safe E r reason observed :: ('x ProtectionWorld_scheme, _) op)"
    unfolding halts_def
  proof (intro allI impI conjI)
    fix w :: "'x ProtectionWorld_scheme" and e
    assume "snd (fail_safe E r reason observed w) = Inl e" "emergency_error e"
    then show "account_halted (fst (fail_safe E r reason observed w))"
      using h [of w] by (cases "e = Cancellation") auto
  qed (rule own)
  show "halts E (fail_safe_then E r reason observed e :: ('x ProtectionWorld_scheme, 'b) op)"
    unfolding halts_def
  proof (intro allI impI conjI)
    fix w :: "'x ProtectionWorld_scheme"
    assume "own_rows E w"
    with own [of w] show "own_rows E (fst ((fail_safe_then E r reason observed e :: ('x ProtectionWorld_scheme, 'b) op) w))"
      by (auto simp: fail_safe_then_def followed_by_def throw_def split: prod.splits sum.splits)
  next
    fix w :: "'x ProtectionWorld_scheme" and e'
    assume "own_rows E w" "snd ((fail_safe_then E r reason observed e :: ('x ProtectionWorld_scheme, 'b) op) w) = Inl e'" "emergency_error e'"
    then show "account_halted (fst ((fail_safe_then E r reason observed e :: ('x ProtectionWorld_scheme, 'b) op) w))"
      using h [of w] by (cases "e' = Cancellation") (auto simp: fail_safe_then_def followed_by_def throw_def split: prod.splits sum.splits)
  qed
qed

lemma reasons_given [simp]: "strip DEADLINE \<noteq> []" "strip ''BINANCE_PROTECTION_REJECTED'' \<noteq> []" "strip ''BINANCE_PROTECTION_RESTART'' \<noteq> []"
  by (simp_all add: DEADLINE_def) code_simp+

text \<open>A record of this binding that was not closed already.\<close>

definition open_record :: "('e ProtectionEnv_scheme) \<Rightarrow> BinanceUsdmAlgoOrderRecord \<Rightarrow> bool" where
  "open_record E r \<longleftrightarrow> al_state r \<noteq> EMERGENCY_CLOSED \<and> en_binding_id (al_entry_fill r) = pe_binding_id E"

lemma late_or_halts:
  assumes "open_record E r" "\<not> emergency_error (ProtectionUnknown m)"
  shows "halts E (late_or E r m)"
proof -
  have "halts E (if late then fail_safe_then E r DEADLINE None DEADLINE_ERROR else throw (ProtectionUnknown m))" for late
    using assms by (auto intro!: fail_safe_halts_op(2) halts_basic simp: open_record_def)
  then show ?thesis unfolding late_or_def by (intro halts_followed_by halts_store)
qed

lemma activate_halts:
  assumes "open_record E r"
  shows "halts E (activate E r cid x)"
proof -
  have "halts E (if late then fail_safe_then E r DEADLINE (pt_provider_algo_id x) LATE_ERROR
       else followed_by (finish_algo E cid ACTIVE_STOP (Some x)) (\<lambda>_. give x))" for late
    using assms by (auto intro!: fail_safe_halts_op(2) halts_followed_by halts_store halts_basic simp: open_record_def)
  then show ?thesis unfolding activate_def by (intro halts_followed_by halts_store)
qed

lemma calm_messages [simp]:
  "\<not> emergency_error (ProtectionUnknown ''Binance USD-M protection is not yet found'')"
  "\<not> emergency_error (ProtectionUnknown ''Binance USD-M protection recovery is unavailable'')"
  "\<not> emergency_error (ProtectionUnknown ''Binance USD-M recovered protection evidence is invalid'')"
  "\<not> emergency_error (ProtectionUnknown ''Binance USD-M protection dispatch outcome is unknown'')"
  "\<not> emergency_error (ProtectionUnknown ''Binance USD-M protection acknowledgement is unknown'')"
  "\<not> emergency_error (ProtectionUnknown ''Binance USD-M durable protection record is unavailable'')"
  by (simp_all add: emergency_error_def DEADLINE_ERROR_def LATE_ERROR_def)

lemma accept_stop_halts:
  assumes "open_record E r"
  shows "halts E (accept_stop_response E r resp)"
proof -
  have "halts E (fail_safe_then E r ''BINANCE_PROTECTION_REJECTED'' None e)" for e
    using assms by (auto intro!: fail_safe_halts_op(2) simp: open_record_def)
  then show ?thesis
    unfolding accept_stop_response_def Let_def
    by (auto intro!: halts_followed_by halts_store halts_basic late_or_halts activate_halts assms split: sum.splits)
qed

lemma post_first_stop_halts:
  assumes "open_record E r"
  shows "halts E (post_first_stop E r q)"
  unfolding post_first_stop_def
  by (auto intro!: halts_followed_by halts_store halts_basic late_or_halts accept_stop_halts assms split: reply.splits)

lemma find_algo_Some: "find_algo cid w = Some r \<Longrightarrow> r \<in> set (pw_algos w) \<and> al_client_algo_id r = cid"
  using next_where_Some by (fastforce simp: find_algo_def)

lemma read_algo_Inr: "read_algo E r = Inr x \<Longrightarrow> x = r"
  by (auto simp: read_algo_def checks_simps)

text \<open>What is loaded from the rows of this binding belongs to it.\<close>

lemma halts_loaded:
  fixes f :: "_ \<Rightarrow> ('x ProtectionWorld_scheme, 'a) op"
  assumes "halts E (f None)" "\<And>r. en_binding_id (al_entry_fill r) = pe_binding_id E \<Longrightarrow> halts E (f (Some r))"
  shows "halts E (followed_by (load_by_client_algo_id E cid) f)"
  unfolding halts_def
proof (intro allI impI)
  fix w :: "'x ProtectionWorld_scheme"
  assume own: "own_rows E w"
  obtain x where x: "load_by_client_algo_id E cid w = (w, x)" by (simp add: load_by_client_algo_id_def)
  have calm: "\<not> emergency_error e" if "x = Inl e" for e
    using x that by (auto simp: load_by_client_algo_id_def read_algo_def py_def split: option.splits sum.splits)
  have "halts E (f l)" if "x = Inr l" for l
  proof (cases l)
    case (Some r)
    with x that have "r \<in> set (pw_algos w)"
      by (auto simp: load_by_client_algo_id_def dest!: find_algo_Some read_algo_Inr split: option.splits sum.splits)
    with own Some assms(2) show ?thesis by (auto simp: own_rows_def)
  qed (simp add: assms(1))
  with own x calm show "own_rows E (fst (followed_by (load_by_client_algo_id E cid) f w))
     \<and> (\<forall>e. snd (followed_by (load_by_client_algo_id E cid) f w) = Inl e \<longrightarrow> emergency_error e
          \<longrightarrow> account_halted (fst (followed_by (load_by_client_algo_id E cid) f w)))"
    by (cases x) (auto simp: followed_by_def halts_def)
qed

lemma recover_loaded_halts:
  fixes E :: "'e ProtectionEnv_scheme"
  assumes "en_binding_id (al_entry_fill r) = pe_binding_id E" "\<not> safe_state (al_state r)"
  shows "open_record E r" "halts E (fail_safe E r ''BINANCE_PROTECTION_RESTART'' None)"
proof -
  show o: "open_record E r" using assms by (auto simp: open_record_def safe_state_def)
  then show "halts E (fail_safe E r ''BINANCE_PROTECTION_RESTART'' None)"
    by (auto intro!: fail_safe_halts_op(1) simp: open_record_def)
qed

lemma recover_row_halts:
  assumes "en_binding_id (al_entry_fill r) = pe_binding_id E"
  shows "halts E (recover_row E cid r)"
proof (cases "safe_state (al_state r)")
  case True
  then show ?thesis by (auto simp: recover_row_def intro!: halts_basic split: option.splits)
next
  case False
  note open_ = recover_loaded_halts [OF assms False]
  have q: "halts E (followed_by (send E (algo_query cid)) (\<lambda>answer. case answer of
          SendCancelled \<Rightarrow> throw Cancellation
        | Answer resp \<Rightarrow>
            if is_not_found resp then late_or E r ''Binance USD-M protection is not yet found''
            else if resp_status resp \<noteq> 200 then late_or E r ''Binance USD-M protection recovery is unavailable''
            else (case decode_active_protection resp r True of
               Inl _ \<Rightarrow> late_or E r ''Binance USD-M recovered protection evidence is invalid''
             | Inr x \<Rightarrow> activate E r cid x)
        | _ \<Rightarrow> late_or E r ''Binance USD-M protection recovery is unavailable''))"
    by (auto intro!: halts_followed_by halts_store halts_basic late_or_halts activate_halts open_(1)
        split: reply.splits sum.splits)
  from False show ?thesis
    unfolding recover_row_def by (auto intro: q halts_basic open_(2))
qed

lemma recover_stop_halts: "halts E (recover_by_client_algo_id E cid)"
  by (auto simp: recover_by_client_algo_id_def intro!: halts_loaded recover_row_halts halts_basic)

lemma existing_stop_halts: "halts E (existing_stop E r)"
  unfolding existing_stop_def
  by (auto intro!: halts_basic recover_stop_halts split: option.splits)

lemma claim_stop_halts:
  assumes "en_binding_id f = pe_binding_id E"
  shows "halts E (claim_stop E f a placement :: ('x ProtectionWorld_scheme, _) op)"
  unfolding halts_def
proof (intro allI impI)
  fix w :: "'x ProtectionWorld_scheme"
  assume own: "own_rows E w"
  obtain v res where c: "claim_stop E f a placement w = (v, res)" by fastforce
  have calm: "\<not> emergency_error e" if "prepare_algo E r u = (v, Inl e)" for e r and u :: "'x ProtectionWorld_scheme"
    using that by (auto simp: prepare_algo_def require_same_stop_def read_algo_def py_def split: option.splits sum.splits if_splits)
  have early: "\<not> emergency_error e" if "res = Inl e" "\<And>r u. prepare_algo E r u \<noteq> (v, Inl e)" for e
    using c that
    by (auto simp: claim_stop_def followed_by_def pure_op_def clock_now_def Let_def py_def throw_def give_def
        validate_risk_authority_def build_binance_usdm_protection_request_def prepared_algo_def
        split: sum.splits if_splits option.splits prod.splits)
  have rows: "own_rows E v"
    using c
  proof (cases rule: claim_stop_cases)
    case refused
    with own show ?thesis by (simp add: own_rows_def)
  next
    case (claim trigger q now r u x)
    with own assms prepared_algo_Inr(2) [OF claim(3)] show ?thesis
      by (auto simp: own_rows_def prepare_algo_def split: option.splits if_splits)
  qed
  have "\<not> emergency_error e" if "res = Inl e" for e using early [OF that] calm by blast
  with rows c show "own_rows E (fst (claim_stop E f a placement w))
     \<and> (\<forall>e. snd (claim_stop E f a placement w) = Inl e \<longrightarrow> emergency_error e
          \<longrightarrow> account_halted (fst (claim_stop E f a placement w)))" by simp
qed

lemma claim_stop_yields:
  assumes "en_binding_id f = pe_binding_id E"
  shows "yields (claim_stop E f a placement :: ('x ProtectionWorld_scheme, _) op)
    (\<lambda>(r, acquired, q, now). acquired \<longrightarrow> open_record E r)"
  unfolding yields_def
proof (intro allI impI)
  fix w v :: "'x ProtectionWorld_scheme" and y
  assume c: "claim_stop E f a placement w = (v, Inr y)"
  show "case y of (r, acquired, q, now) \<Rightarrow> acquired \<longrightarrow> open_record E r"
    using c
  proof (cases rule: claim_stop_cases)
    case (claim trigger q now r u x)
    with assms prepared_algo_Inr(2,3) [OF claim(3)] show ?thesis
      by (auto simp: open_record_def prepare_algo_def split: sum.splits option.splits if_splits)
  qed simp
qed

lemma validate_persisted_calm: "validate_persisted_fill E f r = Inl e \<Longrightarrow> \<not> emergency_error e"
  by (auto simp: validate_persisted_fill_def split: option.splits if_splits)

lemma withdraw_halts: "halts E (withdraw E' cid)"
  unfolding withdraw_def Let_def
  by (auto intro!: halts_followed_by halts_store halts_basic halts_pure split: reply.splits
      simp: build_binance_usdm_protection_cancel_def is_algo_order_absent_def Let_def split: if_splits option.splits)

lemma post_move_halts:
  assumes "open_record E r"
  shows "halts E (post_move E r q)"
  unfolding post_move_def accept_move_response_def
  by (auto intro!: halts_followed_by halts_store halts_basic accept_stop_halts assms split: reply.splits)

lemma claim_then_halts:
  assumes "en_binding_id f = pe_binding_id E"
    and "\<And>r b q now. b \<longrightarrow> open_record E r \<Longrightarrow> halts E (g (r, b, q, now))"
  shows "halts E (followed_by (claim_stop E f a placement) g)"
  by (rule halts_followed_by_yields [OF claim_stop_halts claim_stop_yields]) (auto intro: assms)

lemma protect_first_fill_halts:
  assumes "en_binding_id f = pe_binding_id E"
  shows "halts E (protect_first_fill E f a)"
proof -
  have e: "halts E (followed_by (pure_op (validate_persisted_fill E f r)) (\<lambda>_. existing_stop E r))" for r
    by (intro halts_followed_by halts_pure existing_stop_halts validate_persisted_calm)
  have d: "halts E (fail_safe_then E r DEADLINE None DEADLINE_ERROR)" if "open_record E r" for r
    using that by (auto intro!: fail_safe_halts_op(2) simp: open_record_def)
  show ?thesis
    unfolding protect_first_fill_def
    by (auto intro!: halts_followed_by halts_store halts_basic claim_then_halts assms e d post_first_stop_halts
        split: option.splits)
qed

lemma move_stop_halts:
  assumes "en_binding_id f = pe_binding_id E"
  shows "halts E (move_stop E f a placement superseded)"
proof -
  have "halts E (place_move E f a placement superseded)"
    unfolding place_move_def
    by (rule claim_then_halts [OF assms])
      (auto intro!: halts_followed_by existing_stop_halts post_move_halts withdraw_halts halts_basic)
  then show ?thesis
    unfolding move_stop_def
    by (auto intro!: halts_followed_by halts_store halts_basic split: option.splits)
qed

text \<open>C15: 
  Whatever the venue answers, an operation that tells of an emergency close leaves the account halted:
  when the first protection is rejected, or comes after the deadline of its fill, or its close cannot be
  confirmed, the binding is disarmed under a kill switch of at least \<^verbatim>\<open>EMERGENCY\<close>. The same holds when a
  stop is moved or recovered.
\<close>

theorem unprotectable_position_halts:
  assumes "m = protect_first_fill E f a \<or> m = move_stop E f a placement superseded \<or> m = recover_by_client_algo_id E cid"
    and "own_rows E w" "en_binding_id f = pe_binding_id E"
    and "m w = (v, Inl e)" "emergency_error e"
  shows "account_halted v"
proof -
  have "halts E m"
    using assms(1) protect_first_fill_halts [OF assms(3)] move_stop_halts [OF assms(3)] recover_stop_halts by fast
  with assms(2,4,5) show ?thesis unfolding halts_def by (metis fst_conv snd_conv)
qed

section \<open>A stop is withdrawn behind its replacement\<close>

definition withdraws :: "BrokerRequest \<Rightarrow> bool" where
  "withdraws q \<longleftrightarrow> wr_method q = ''DELETE''"

definition working_row :: "string \<Rightarrow> 'x ProtectionWorld_scheme \<Rightarrow> bool" where
  "working_row cid w \<longleftrightarrow> (\<exists>r \<in> set (pw_algos w). al_client_algo_id r = cid \<and> al_state r = ACTIVE_STOP)"

named_theorems stays_intros \<open>operations that withdraw nothing\<close>

abbreviation stays :: "('x OrderWorld_scheme, 'a) op \<Rightarrow> bool" where
  "stays \<equiv> sends_only (\<lambda>q. \<not> withdraws q)"

lemma orders_stay [stays_intros]:
  "stays (submit_locked E c)" "stays (recover_by_client_id E cid)" "\<not> withdraws q \<Longrightarrow> stays (send E q)"
  "stays (give x)" "stays (throw e)" "stays (pure_op r)" "stays (checked cs)" "stays (clock_now E n)"
proof -
  show "stays (submit_locked E c)"
    unfolding sends_only_def
  proof
    fix w
    obtain v res where s: "submit_locked E c w = (v, res)" by fastforce
    obtain es where es: "ow_log v = ow_log w @ es"
      "\<forall>e \<in> set es. is_get (fst e) \<or> authorized_request E c (oe_clock E (ow_ticks w)) (fst e)"
      by (rule submit_locked_sends [OF s])
    moreover have "\<not> withdraws q" if "authorized_request E c now q" for q now
      using that by (auto simp: authorized_request_def withdraws_def dest: built_request(1))
    ultimately show "\<exists>es. ow_log (fst (submit_locked E c w)) = ow_log w @ es \<and> (\<forall>e \<in> set es. \<not> withdraws (fst e))"
      using s by (intro exI [of _ es]) (auto simp: is_get_def withdraws_def)
  qed
  show "stays (checked cs)" by (simp add: sends_only_def checked_apply split: option.splits)
  show "stays (clock_now E n)" by (rule sends_state) (simp add: clock_now_def Let_def)
qed (auto intro!: sends_intros simp: is_get_def withdraws_def)

lemma stores_stay [stays_intros]:
  "stays (finish_algo E cid st x)" "stays (mark_stop_ambiguous E cid)" "stays (load_by_client_algo_id E cid)"
  "stays (prepare_algo E r)" "stays (confirm_zero_position E')" "stays (cancel_entry_and_adds E' b)" "stays (halt_account E' b reason)"
  by (auto intro!: sends_state simp: mark_stop_ambiguous_def finish_algo_fst load_by_client_algo_id_def prepare_algo_def
      confirm_zero_position_def cancel_entry_and_adds_def halt_account_def raise_to_def followed_by_pure throw_def
      split: option.splits sum.splits)

lemma composed_stay [stays_intros]:
  "stays m \<Longrightarrow> (\<And>x. stays (f x)) \<Longrightarrow> stays (followed_by m f)"
  "stays m \<Longrightarrow> (\<And>e. stays (h e)) \<Longrightarrow> stays (rescued m h)"
  by (intro sends_intros; assumption)+

lemma attempt_stays [stays_intros]: "stays m \<Longrightarrow> stays (attempt m)"
  unfolding attempt_def by (auto intro!: stays_intros)

lemma close_position_stays [stays_intros]: "stays (close_position E f)"
  unfolding close_position_def by (auto intro!: stays_intros split: venue_error.splits)

lemma fail_safe_stays [stays_intros]: "stays (fail_safe E r reason observed)" "stays (fail_safe_then E r reason observed e)"
  unfolding fail_safe_then_def fail_safe_def Let_def
  by (auto intro!: stays_intros split: option.splits bool.splits)

lemma late_stays [stays_intros]: "stays (late_or E r m)" "stays (activate E r cid x)"
  unfolding late_or_def deadline_reached_def activate_def by (auto intro!: stays_intros)

lemma accept_stays [stays_intros]: "stays (accept_stop_response E r resp)" "stays (accept_move_response E r resp)"
  unfolding accept_stop_response_def accept_move_response_def Let_def by (auto intro!: stays_intros split: sum.splits)

lemma algo_query_stays [simp]: "\<not> withdraws (algo_query cid)"
  by (simp add: algo_query_def get_request_def withdraws_def)

lemma recover_stop_stays [stays_intros]: "stays (recover_by_client_algo_id E cid)"
  unfolding recover_by_client_algo_id_def recover_row_def
  by (auto intro!: stays_intros
      split: option.splits reply.splits sum.splits)

lemma existing_stop_stays [stays_intros]: "stays (existing_stop E r)"
  unfolding existing_stop_def by (auto intro!: stays_intros split: option.splits)

lemma post_move_stays: "\<not> withdraws q \<Longrightarrow> stays (post_move E r q)"
  unfolding post_move_def by (auto intro!: stays_intros split: reply.splits)

text \<open>What holds of the state whenever an operation succeeds.\<close>

definition ends :: "('w, 'a) op \<Rightarrow> ('w \<Rightarrow> bool) \<Rightarrow> bool" where
  "ends m P \<longleftrightarrow> (\<forall>w v x. m w = (v, Inr x) \<longrightarrow> P v)"

lemma ends_composed:
  "(\<And>x. ends (f x) P) \<Longrightarrow> ends (followed_by m f) P" "ends (throw e) P" "ends m P \<Longrightarrow> ends (followed_by m (\<lambda>_. give x)) P"
  unfolding ends_def by (blast elim: followed_by_InrE, simp add: throw_def, force simp: give_def elim!: followed_by_InrE)

lemma finish_algo_Inr:
  assumes "finish_algo E cid st x w = (v, Inr r)"
  shows "pw_algos v = map (\<lambda>r. if al_client_algo_id r = cid then r\<lparr>al_state := st, al_result := x\<rparr> else r) (pw_algos w)"
    and "\<exists>s \<in> set (pw_algos w). al_client_algo_id s = cid"
  using assms by (auto simp: finish_algo_def followed_by_def checked_apply Let_def dest: find_algo_Some split: option.splits)

lemma finish_algo_working: "ends (finish_algo E cid ACTIVE_STOP x) (working_row cid)"
  unfolding ends_def working_row_def
proof (intro allI impI)
  fix w v :: "'x ProtectionWorld_scheme" and r
  assume f: "finish_algo E cid ACTIVE_STOP x w = (v, Inr r)"
  from finish_algo_Inr(2) [OF f] obtain s where s: "s \<in> set (pw_algos w)" "al_client_algo_id s = cid" by blast
  then have "s\<lparr>al_state := ACTIVE_STOP, al_result := x\<rparr> \<in> set (pw_algos v)"
    unfolding finish_algo_Inr(1) [OF f] by (auto simp: image_iff intro!: bexI [of _ s])
  with s(2) show "\<exists>r \<in> set (pw_algos v). al_client_algo_id r = cid \<and> al_state r = ACTIVE_STOP" by (intro bexI) auto
qed

lemma activate_working: "ends (activate E r cid x) (working_row cid)"
  unfolding activate_def fail_safe_then_def by (auto intro!: ends_composed finish_algo_working)

lemma post_move_working: "ends (post_move E r q) (working_row (al_client_algo_id r))"
  unfolding post_move_def accept_move_response_def accept_stop_response_def Let_def fail_safe_then_def late_or_def
  by (auto intro!: ends_composed activate_working split: reply.splits sum.splits)

lemma withdraw_keeps_working: "cid \<noteq> c \<Longrightarrow> keeps (working_row c) (withdraw E cid)"
proof -
  assume "cid \<noteq> c"
  then have f: "keeps (working_row c) (finish_algo E cid st x)" for st x
    by (auto simp: keeps_def working_row_def finish_algo_def followed_by_def checked_apply Let_def split: option.splits)
  have "keeps (working_row c) (send E q :: ('x ProtectionWorld_scheme, _) op)" for q
    by (simp add: keeps_def working_row_def send_def Let_def)
  with f show "keeps (working_row c) (withdraw E cid)"
    unfolding withdraw_def Let_def mark_stop_ambiguous_def
    by (auto intro!: keeps_followed_by keeps_basic split: reply.splits)
qed

lemma claim_stop_new:
  assumes c: "claim_stop E f a placement w = (v, res)"
  shows "ow_log v = ow_log w"
    and "res = Inr (r, True, q, now) \<Longrightarrow> al_client_algo_id r = stop_id f placement
      \<and> find_algo (stop_id f placement) w = None \<and> \<not> withdraws q"
proof -
  have p: "ow_log v = ow_log u" "x = Inr (y, True) \<Longrightarrow> y = r' \<and> find_algo (al_client_algo_id r') u = None"
    if "prepare_algo E r' u = (v, x)" for r' u x y
    using that by (auto simp: prepare_algo_def list_ex_iff find_algo_def next_where_None split: option.splits if_splits sum.splits)
  show "ow_log v = ow_log w" using c by (cases rule: claim_stop_cases) (simp_all add: p(1))
  assume res: "res = Inr (r, True, q, now)"
  show "al_client_algo_id r = stop_id f placement \<and> find_algo (stop_id f placement) w = None \<and> \<not> withdraws q"
    using c
  proof (cases rule: claim_stop_cases)
    case (claim trigger q' now' r' u x)
    with res have x: "x = Inr (r, True)" "q' = q" by (auto split: sum.splits)
    from p(2) [OF claim(6) x(1)] have r: "r = r'" "find_algo (al_client_algo_id r') w = None"
      using claim(5) by (simp_all add: find_algo_def)
    have "\<not> withdraws q"
      using claim(2) x(2)
      by (auto simp: build_binance_usdm_protection_request_def withdraws_def split: option.splits if_splits)
    with r prepared_algo_Inr(1) [OF claim(3)] show ?thesis by (simp add: stop_id_def)
  qed (simp add: res)
qed

lemma stays_log:
  assumes "stays m" "m w = (v, res)" "ow_log v = ow_log w @ es" "e \<in> set es"
  shows "\<not> withdraws (fst e)"
proof -
  obtain ds where "ow_log v = ow_log w @ ds" "\<forall>d \<in> set ds. \<not> withdraws (fst d)"
    using sends_onlyE [OF assms(1), of w thesis] assms(2) by auto
  with assms(3,4) show ?thesis by simp
qed

lemma place_move_withdraws:
  fixes w v :: "'x ProtectionWorld_scheme"
  assumes m: "place_move E f a placement superseded w = (v, res)" and old: "find_algo superseded w \<noteq> None"
    and es: "ow_log v = ow_log w @ es" "e \<in> set es" "withdraws (fst e)"
  shows "working_row (stop_id f (Some placement)) v"
proof -
  obtain u c where c: "claim_stop E f a (Some placement) w = (u, c)" by fastforce
  note log = claim_stop_new(1) [OF c]
  show ?thesis
  proof (cases c)
    case (Inl e')
    with m c log es show ?thesis by (simp add: place_move_def followed_by_def)
  next
    case (Inr y)
    obtain r b q now where y: "y = (r, b, q, now)" by (metis surj_pair)
    show ?thesis
    proof (cases b)
      case False
      with m c Inr y have "existing_stop E r u = (v, res)" by (simp add: place_move_def followed_by_def)
      from stays_log [OF existing_stop_stays this _ es(2)] es log show ?thesis by simp
    next
      case True
      with Inr y c claim_stop_new(2) [OF c, of r q now]
      have new: "al_client_algo_id r = stop_id f (Some placement)" "find_algo (stop_id f (Some placement)) w = None"
        "\<not> withdraws q" by auto
      from old new(2) have other: "superseded \<noteq> stop_id f (Some placement)" by auto
      obtain u' p where p: "post_move E r q u = (u', p)" by fastforce
      show ?thesis
      proof (cases p)
        case (Inl e')
        with m c Inr y True p have "post_move E r q u = (v, p)" by (simp add: place_move_def followed_by_def)
        from stays_log [OF post_move_stays [OF new(3)] this _ es(2)] es log show ?thesis by simp
      next
        case (Inr x)
        with p post_move_working [of E r q] new(1) have "working_row (stop_id f (Some placement)) u'"
          by (auto simp: ends_def)
        moreover have "v = fst (withdraw E superseded u')"
          using m c \<open>c = Inr y\<close> y True p Inr by (auto simp: place_move_def followed_by_def give_def split: prod.splits sum.splits)
        ultimately show ?thesis using keeps_at [OF withdraw_keeps_working [OF other]] by simp
      qed
    qed
  qed
qed

text \<open>C16: 
  A stop is moved without a gap: by the time the old stop is withdrawn at the venue, the row of its
  replacement says that the venue accepted the replacement, and it still says so when the move is over.
\<close>

theorem stop_withdrawn_behind_replacement:
  assumes m: "move_stop E f a placement superseded w = (v, res)"
    and es: "ow_log v = ow_log w @ es" "e \<in> set es" "withdraws (fst e)"
  shows "working_row (stop_id f (Some placement)) v"
proof -
  have "place_move E f a placement superseded w = (v, res) \<and> find_algo superseded w \<noteq> None \<or> v = w"
    using m by (auto simp: move_stop_def followed_by_def checked_apply load_by_client_algo_id_def throw_def
        split: option.splits sum.splits if_splits)
  then show ?thesis
  proof
    assume "place_move E f a placement superseded w = (v, res) \<and> find_algo superseded w \<noteq> None"
    then show ?thesis by (auto intro: place_move_withdraws [OF _ _ es])
  next
    assume "v = w"
    with es show ?thesis by simp
  qed
qed

section \<open>What the code does against its own documentation\<close>

text \<open>
  The authority of a move is checked like that of the first stop: a stop at the entry price or beyond
  it, which is where a winning position moves its stop, is refused before anything is written or sent.
\<close>

definition beyond_entry :: "EntryFill \<Rightarrow> decimal \<Rightarrow> bool" where
  "beyond_entry f stop \<longleftrightarrow> (case en_side f of BUY \<Rightarrow> en_average_fill_price f \<le> stop | SELL \<Rightarrow> stop \<le> en_average_fill_price f)"

theorem stop_beyond_entry_never_moves:
  assumes "beyond_entry f (pa_stop_price a)"
  shows "\<exists>e. move_stop E f a placement superseded w = (w, Inl e)"
proof -
  have "validate_risk_authority f a = Inl (BrokerWriteDisabled ''exact Binance USD-M v6 risk authority is invalid'')"
    using assms by (cases "en_side f") (auto simp: validate_risk_authority_def stop_refused_def beyond_entry_def)
  then have "place_move E f a placement superseded w
      = (w, Inl (BrokerWriteDisabled ''exact Binance USD-M v6 risk authority is invalid''))"
    by (simp add: place_move_def claim_stop_def followed_by_def pure_op_def)
  then show ?thesis
    by (auto simp: move_stop_def followed_by_def checked_apply load_by_client_algo_id_def throw_def
        split: option.splits sum.splits)
qed

lemma ends_never: "ends m (\<lambda>_. False) \<Longrightarrow> \<exists>v e. m w = (v, Inl e)"
  unfolding ends_def by (cases "m w"; cases "snd (m w)") auto

lemma late_activate_fails:
  fixes E :: "'e ProtectionEnv_scheme"
  assumes "\<forall>n. en_protection_deadline (al_entry_fill r) \<le> oe_clock E n"
  shows "ends (activate E r cid x :: ('x ProtectionWorld_scheme, _) op) (\<lambda>_. False)"
proof -
  have "ends (fail_safe_then E r DEADLINE (pt_provider_algo_id x) LATE_ERROR :: ('x ProtectionWorld_scheme, _) op) (\<lambda>_. False)"
    unfolding fail_safe_then_def by (intro ends_composed)
  moreover have "late" if "deadline_reached E r w = (v, Inr late)" for late and w v :: "'x ProtectionWorld_scheme"
    using that assms by (auto simp: deadline_reached_def give_def clock_now_def Let_def py_def validated_def elim!: followed_by_InrE
        split: sum.splits if_splits option.splits)
  ultimately show ?thesis
    unfolding activate_def ends_def by (fastforce elim!: followed_by_InrE)
qed

lemma late_post_fails:
  fixes E :: "'e ProtectionEnv_scheme"
  assumes "\<forall>n. en_protection_deadline (al_entry_fill r) \<le> oe_clock E n"
  shows "ends (post_move E r q :: ('x ProtectionWorld_scheme, _) op) (\<lambda>_. False)"
  unfolding post_move_def accept_move_response_def accept_stop_response_def Let_def fail_safe_then_def late_or_def
  by (auto intro!: ends_composed late_activate_fails assms split: reply.splits sum.splits)

lemma late_place_move_stays:
  fixes E :: "'e ProtectionEnv_scheme"
  assumes late: "\<forall>n. en_protection_deadline f \<le> oe_clock E n"
  shows "stays (place_move E f a placement superseded :: ('x ProtectionWorld_scheme, _) op)"
  unfolding sends_only_def
proof
  fix w :: "'x ProtectionWorld_scheme"
  obtain u c where c: "claim_stop E f a (Some placement) w = (u, c)" by fastforce
  note log = claim_stop_new(1) [OF c]
  show "\<exists>es. ow_log (fst (place_move E f a placement superseded w)) = ow_log w @ es \<and> (\<forall>e \<in> set es. \<not> withdraws (fst e))"
  proof (cases c)
    case (Inl e')
    with c log show ?thesis by (simp add: place_move_def followed_by_def)
  next
    case (Inr y)
    obtain r b q now where y: "y = (r, b, q, now)" by (metis surj_pair)
    show ?thesis
    proof (cases b)
      case False
      with c Inr y have "place_move E f a placement superseded w = existing_stop E r u"
        by (simp add: place_move_def followed_by_def)
      with log sends_onlyE [OF existing_stop_stays] show ?thesis by metis
    next
      case True
      with Inr y c claim_stop_new(2) [OF c, of r q now] have q: "\<not> withdraws q" by auto
      have "al_entry_fill r = f"
        using c
      proof (cases rule: claim_stop_cases)
        case (claim trigger q' now' r' u' x)
        with Inr y True prepared_algo_Inr(2) [OF claim(3)] show ?thesis
          by (auto simp: prepare_algo_def split: sum.splits option.splits if_splits)
      qed (simp add: Inr)
      with late have "\<exists>u' e. post_move E r q u = (u', Inl e)" by (intro ends_never late_post_fails) simp
      then have "fst (place_move E f a placement superseded w) = fst (post_move E r q u)"
        using c Inr y True by (auto simp: place_move_def followed_by_def)
      with log sends_onlyE [OF post_move_stays [OF q]] show ?thesis by metis
    qed
  qed
qed

text \<open>The venue accepts the stop that a move posts: the placement is claimed, its request is answered with
  status 200, and the answer describes the new stop.\<close>

definition venue_accepts ::
  "('e ProtectionEnv_scheme) \<Rightarrow> EntryFill \<Rightarrow> ProtectionAuthority \<Rightarrow> uuid \<Rightarrow> 'x ProtectionWorld_scheme \<Rightarrow> bool" where
  "venue_accepts E f a placement w \<longleftrightarrow>
     (case claim_stop E f a (Some placement) w of
        (u, Inr (r, acquired, q, now)) \<Rightarrow> acquired \<and>
          (case oe_send E (ow_log u) q of
             Answer resp \<Rightarrow> resp_status resp = 200 \<and> (\<exists>x. decode_active_protection resp r False = Inr x)
           | _ \<Rightarrow> False)
      | _ \<Rightarrow> False)"

lemma claimed_row:
  assumes "claim_stop E f a placement w = (u, Inr (r, True, q, now))"
  shows "al_entry_fill r = f" "al_state r = PREPARED_STOP"
proof -
  from assms have "al_entry_fill r = f \<and> al_state r = PREPARED_STOP"
  proof (cases rule: claim_stop_cases)
    case (claim trigger q' now' r' u' x)
    then show ?thesis using prepared_algo_Inr(2,3) [OF claim(3)]
      by (auto simp: prepare_algo_def split: sum.splits option.splits if_splits)
  qed simp
  then show "al_entry_fill r = f" "al_state r = PREPARED_STOP" by auto
qed

lemma late_accepted_move:
  fixes w :: "'x ProtectionWorld_scheme"
  assumes late: "\<forall>n. en_protection_deadline f \<le> oe_clock E n \<and> whole_second (oe_clock E n)"
    and accepts: "venue_accepts E f a placement w"
  shows "\<exists>r observed v. al_entry_fill r = f \<and> al_state r = PREPARED_STOP \<and> ow_log v \<noteq> []
    \<and> place_move E f a placement superseded w = fail_safe_then E r DEADLINE observed LATE_ERROR v"
proof -
  obtain u y where y: "claim_stop E f a (Some placement) w = (u, y)" by fastforce
  have "\<not> isl y" using accepts y by (cases y) (simp_all add: venue_accepts_def)
  then obtain z where "y = Inr z" by (cases y) auto
  then obtain r b q now where rbq: "y = Inr (r, b, q, now)" by (cases z) auto
  have b using accepts by (simp add: venue_accepts_def y rbq)
  with y rbq have c: "claim_stop E f a (Some placement) w = (u, Inr (r, True, q, now))" by simp
  then obtain resp x where resp: "oe_send E (ow_log u) q = Answer resp" "resp_status resp = 200"
    "decode_active_protection resp r False = Inr x"
    using accepts by (auto simp: venue_accepts_def split: reply.splits)
  let ?v = "u\<lparr>ow_log := ow_log u @ [(q, Answer resp)], ow_ticks := ow_ticks u + 1\<rparr>"
  note row = claimed_row [OF c]
  have "post_move E r q u = fail_safe_then E r DEADLINE (pt_provider_algo_id x) LATE_ERROR ?v"
    using late row(1) resp
    by (simp add: post_move_def send_def followed_by_def Let_def accept_move_response_def accept_stop_response_def
        post_outcome_unknown_def post_rejected_def activate_def deadline_reached_def clock_now_def utc_check_def checks_simps
        validated_def py_def give_def)
  moreover have "place_move E f a placement superseded w = followed_by (post_move E r q)
      (\<lambda>placed. followed_by (withdraw E superseded) (\<lambda>_. give placed)) u"
    using c by (simp add: place_move_def followed_by_def)
  ultimately have "place_move E f a placement superseded w
      = fail_safe_then E r DEADLINE (pt_provider_algo_id x) LATE_ERROR ?v"
    by (simp add: followed_by_def fail_safe_then_def throw_def split: prod.splits sum.splits)
  moreover have "ow_log ?v \<noteq> []" by simp
  ultimately show ?thesis using row by blast
qed

lemma fail_safe_then_halts:
  assumes "fail_safe_then E r DEADLINE observed e w = (v, res)" "res \<noteq> Inl Cancellation"
    and "al_state r = PREPARED_STOP" "en_binding_id (al_entry_fill r) = pe_binding_id E"
  shows "account_halted v"
proof -
  obtain x where x: "fail_safe E r DEADLINE observed w = (v, x)" "x \<noteq> Inl Cancellation"
    using assms(1,2) by (auto simp: fail_safe_then_def followed_by_def throw_def split: prod.splits sum.splits)
  have "strip DEADLINE \<noteq> []" unfolding DEADLINE_def by code_simp
  from fail_safe_halts(1) [OF x _ assms(4) this] assms(3) show ?thesis by simp
qed


text \<open>
  A first stop is filed under the identifier of its entry. Once it works, the recovery of its command
  asks for a stop filed under the command itself, which does not exist.
\<close>

theorem working_first_stop_not_recovered:
  assumes "cmd_trigger_price c \<noteq> None" "pe_entry_fill E c = Inr f"
    and "working_stop (en_entry_command_id f) w = Some cid"
    and "find_algo (binance_protection_client_algo_id (cmd_id c)) w = None"
    and "client_id_text (binance_protection_client_algo_id (cmd_id c))"
  shows "live_recover_submit E c w
    = (w, Inl (ProtectionUnknown ''Binance USD-M durable protection record is unavailable''))"
  using assms
  by (auto simp: live_recover_submit_def placement_for_def followed_by_pure followed_by_def protection_client_algo_id_def
      recover_by_client_algo_id_def load_by_client_algo_id_def throw_def)

section \<open>A concrete position\<close>

definition sample_fill :: EntryFill where
  "sample_fill =
     \<lparr>en_entry_command_id = v7 31, en_account_id = v7 32, en_instrument_id = v7 33, en_binding_id = v7 34, en_side = BUY,
      en_first_fill_quantity = 1 / 100, en_cumulative_quantity_before = 0, en_average_fill_price = 60000, en_symbol = SYMBOL,
      en_tick_size = 1 / 10, en_filled_at = 0, en_protection_deadline = 60000000, en_emergency_close_command_id = v7 35\<rparr>"

definition sample_stop :: "decimal \<Rightarrow> ProtectionAuthority" where
  "sample_stop stop = \<lparr>pa_allowed = True, pa_blocker_codes = [], pa_stop_price = stop, pa_quantity = 1 / 100\<rparr>"

definition sample_stop_result :: ProtectionResult where
  "sample_stop_result =
     \<lparr>pt_provider_algo_id = Some ''BINANCE-USDM-ALGO:7'', pt_client_algo_id = binance_protection_client_algo_id (v7 31),
      pt_state = ACTIVE_STOP, pt_trigger_price = 59000, pt_recovered = False, pt_emergency_close = None\<rparr>"

definition sample_stop_row :: BinanceUsdmAlgoOrderRecord where
  "sample_stop_row =
     \<lparr>al_entry_fill = sample_fill, al_client_algo_id = binance_protection_client_algo_id (v7 31), al_trigger_price = 59000,
      al_request_body = [(''symbol'', SYMBOL)], al_request_digest = replicate 32 0, al_prepared_at = 1000000,
      al_state = ACTIVE_STOP, al_result = Some sample_stop_result, al_placement_command_id = None\<rparr>"

definition sample_world :: "BinanceUsdmAlgoOrderRecord list \<Rightarrow> ProtectionWorld" where
  "sample_world rows =
     \<lparr>ow_orders = [], ow_log = [], ow_ticks = 0, pw_algos = rows,
      pw_controls = [\<lparr>ctl_scope_type = ''ACCOUNT'', ctl_scope_key = ''a'', ctl_armed = True, ctl_kill_switch_level = ''NONE'',
        ctl_owner_runtime_instance_id = None, ctl_acquired_at = None, ctl_expires_at = None, ctl_fencing_token = 1,
        ctl_row_version = 1\<rparr>]\<rparr>"

text \<open>The venue accepts a stop at 59500 and the withdrawal of another.\<close>

definition sample_acceptance :: "string \<Rightarrow> BrokerResponse" where
  "sample_acceptance cid =
     \<lparr>resp_status = 200, resp_body = Some (JObject
       [(''algoId'', JInt 8), (''clientAlgoId'', JText cid), (''algoType'', JText ''CONDITIONAL''),
        (''orderType'', JText ''STOP_MARKET''), (''symbol'', JText SYMBOL), (''side'', JText ''SELL''),
        (''positionSide'', JText ''BOTH''), (''algoStatus'', JText ''NEW''), (''triggerPrice'', JText ''59500''),
        (''workingType'', JText ''MARK_PRICE''), (''closePosition'', JBool True), (''priceProtect'', JBool False)])\<rparr>"

definition sample_stop_env :: "instant \<Rightarrow> ProtectionEnv" where
  "sample_stop_env t =
     \<lparr>oe_sha256 = (\<lambda>_. replicate 32 0),
      oe_send = (\<lambda>_ _. Answer (sample_acceptance (binance_protection_client_algo_id (v7 36)))), oe_clock = (\<lambda>_. t),
      oe_authority = (\<lambda>_. Inl (ContextUnavailable ''no order'')),
      pe_close_command = (\<lambda>_. Inl (ContextUnavailable ''no close'')), pe_snapshot = (\<lambda>_. Inr (True, [])),
      pe_binding_id = v7 34, pe_instrument_id = v7 33, pe_entry_fill = (\<lambda>_. Inr sample_fill)\<rparr>"

lemma sample_stop_versions:
  "uuid_version (v7 31) = Some 7" "uuid_version (v7 32) = Some 7" "uuid_version (v7 33) = Some 7"
  "uuid_version (v7 34) = Some 7" "uuid_version (v7 35) = Some 7" "uuid_version (v7 36) = Some 7"
  by code_simp+

lemma sample_stop_ids:
  "client_id_text (binance_protection_client_algo_id (v7 31))" "client_id_text (binance_protection_client_algo_id (v7 36))"
  "binance_protection_client_algo_id (v7 31) \<noteq> binance_protection_client_algo_id (v7 36)"
  "wire_text (binance_protection_client_algo_id (v7 36))"
  "provider_id_text ''BINANCE-USDM-ALGO:'' ''BINANCE-USDM-ALGO:7''"
  "provider_id_text ''BINANCE-USDM-ALGO:'' (binance_provider_algo_id 8)"
  by code_simp+

lemma sample_fill_checks: "first_error (EntryFill_checks sample_fill) = None"
  by (simp add: EntryFill_checks_def sample_fill_def uuid7_check_def utc_check_def whole_second_def sample_stop_versions checks_simps)

lemma sample_trigger: "validate_risk_authority sample_fill (sample_stop 59500) = Inr 59500"
proof -
  have "ddiv 59500 (1 / 10) = 595000" "dmul 595000 (1 / 10) = 59500"
    by (simp_all add: ddiv_def dmul_def rnd_short [of 595000 595000000] rnd_short [of 59500 59500000])
  then show ?thesis
    by (simp add: validate_risk_authority_def stop_refused_def stop_trigger_def sample_fill_def sample_stop_def)
qed

lemma sample_price: "parse_decimal ''59500'' = Some 59500"
  by code_simp

definition sample_move_request :: BrokerRequest where
  "sample_move_request =
     \<lparr>wr_method = ''POST'', wr_path = ''/fapi/v1/algoOrder'', wr_query = [],
      wr_body = Some (protection_parameters sample_fill 59500 (Some (v7 36)))\<rparr>"

definition sample_prepared :: BinanceUsdmAlgoOrderRecord where
  "sample_prepared =
     \<lparr>al_entry_fill = sample_fill, al_client_algo_id = binance_protection_client_algo_id (v7 36), al_trigger_price = 59500,
      al_request_body = request_body sample_move_request, al_request_digest = replicate 32 0, al_prepared_at = 1000000,
      al_state = PREPARED_STOP, al_result = None, al_placement_command_id = Some (v7 36)\<rparr>"

lemma sample_move_request_built:
  "build_binance_usdm_protection_request sample_fill 59500 (Some (v7 36)) = Inr sample_move_request"
proof -
  have "aligned 59500 (en_tick_size sample_fill)" by (simp add: aligned_def sample_fill_def)
  then show ?thesis
    by (simp add: build_binance_usdm_protection_request_def sample_fill_checks sample_move_request_def)
qed

lemma sample_record_checks:
  assumes "safe_state s \<longleftrightarrow> x \<noteq> None" "\<forall>y. x = Some y \<longrightarrow> pt_state y = s \<and> pt_client_algo_id y = al_client_algo_id sample_prepared"
  shows "first_error (AlgoOrderRecord_checks (\<lambda>_. replicate 32 0) (sample_prepared\<lparr>al_state := s, al_result := x\<rparr>)) = None"
    and "AlgoOrderRecord_checks (\<lambda>_. replicate 32 0) sample_prepared
      = AlgoOrderRecord_checks (\<lambda>_. replicate 32 0) (sample_prepared\<lparr>al_state := PREPARED_STOP, al_result := None\<rparr>)"
  using assms sample_fill_checks
  by (auto simp: AlgoOrderRecord_checks_def sample_prepared_def first_error_append checks_simps placement_id_def uuid7_check_def
      utc_check_def whole_second_def sample_stop_versions request_body_def sample_move_request_def protection_parameters_def
      sample_fill_def split: option.splits)

lemma sample_row_checks: "first_error (AlgoOrderRecord_checks (\<lambda>_. replicate 32 0) sample_stop_row) = None"
  using sample_fill_checks
  by (auto simp: AlgoOrderRecord_checks_def sample_stop_row_def first_error_append checks_simps placement_id_def uuid7_check_def
      utc_check_def whole_second_def sample_stop_versions sample_stop_result_def sample_fill_def safe_state_def)

lemma sample_prepared_algo:
  "prepared_algo (sample_stop_env t) sample_fill 59500 sample_move_request 1000000 (Some (v7 36)) = Inr sample_prepared"
proof -
  have "first_error (AlgoOrderRecord_checks (\<lambda>_. replicate 32 0) sample_prepared) = None"
    using sample_record_checks [of PREPARED_STOP None] by (simp add: safe_state_def)
  then show ?thesis
    by (simp add: prepared_algo_def sample_prepared_def sample_stop_env_def Let_def checks_simps)
qed

definition sample_decoded :: ProtectionResult where
  "sample_decoded =
     \<lparr>pt_provider_algo_id = Some (binance_provider_algo_id 8), pt_client_algo_id = binance_protection_client_algo_id (v7 36),
      pt_state = ACTIVE_STOP, pt_trigger_price = 59500, pt_recovered = False, pt_emergency_close = None\<rparr>"

lemma sample_decodes:
  "decode_active_protection (sample_acceptance (binance_protection_client_algo_id (v7 36))) sample_prepared False
     = Inr sample_decoded"
proof -
  have "trimmed_text ''59500''" by code_simp
  then show ?thesis
    by (simp add: decode_active_protection_def sample_acceptance_def json_object_def payload_get_def sample_prepared_def
        request_body_def sample_move_request_def protection_parameters_def sample_fill_def json_integer_def json_text_def
        provider_price_def json_decimal_def text_decimal_def sample_price sample_stop_ids Let_def absent_or_false_def
        equals_int_def validated_def ProtectionResult_checks_def valid_provider_algo_id_def checks_simps sample_decoded_def)
qed

lemma sample_claimed:
  "claim_stop (sample_stop_env 1000000) sample_fill (sample_stop 59500) (Some (v7 36)) (sample_world [sample_stop_row])
     = ((sample_world [sample_stop_row, sample_prepared])\<lparr>ow_ticks := 1\<rparr>, Inr (sample_prepared, True, sample_move_request, 1000000))"
proof -
  have "first_error (AlgoOrderRecord_checks (\<lambda>_. replicate 32 0) sample_prepared) = None"
    using sample_record_checks [of PREPARED_STOP None] by (simp add: safe_state_def)
  moreover have "placement_id sample_stop_row \<noteq> placement_id sample_prepared"
    "al_client_algo_id sample_stop_row \<noteq> al_client_algo_id sample_prepared" "al_state sample_prepared = PREPARED_STOP"
    using sample_stop_ids by (simp_all add: placement_id_def sample_stop_row_def sample_prepared_def sample_fill_def)
  moreover have "en_filled_at sample_fill \<le> 1000000" "oe_sha256 (sample_stop_env 1000000) = (\<lambda>_. replicate 32 0)"
    "oe_clock (sample_stop_env 1000000) = (\<lambda>_. 1000000)"
    by (simp_all add: sample_fill_def sample_stop_env_def)
  ultimately show ?thesis
    by (simp add: claim_stop_def followed_by_pure sample_trigger sample_move_request_built sample_prepared_algo)
      (simp add: followed_by_def clock_now_def Let_def utc_check_def whole_second_def checks_simps validated_def py_def give_def
        pure_op_def prepare_algo_def sample_world_def sample_prepared_algo)
qed

abbreviation sample_env :: ProtectionEnv where
  "sample_env \<equiv> sample_stop_env 1000000"

lemma sample_env_facts:
  "oe_sha256 (sample_stop_env t) = (\<lambda>_. replicate 32 0)" "oe_clock (sample_stop_env t) = (\<lambda>_. t)"
  "oe_send (sample_stop_env t) = (\<lambda>_ _. Answer (sample_acceptance (binance_protection_client_algo_id (v7 36))))"
  "pe_entry_fill (sample_stop_env t) = (\<lambda>_. Inr sample_fill)" "pe_binding_id (sample_stop_env t) = v7 34"
  "pe_close_command (sample_stop_env t) = (\<lambda>_. Inl (ContextUnavailable ''no close''))"
  "resp_status (sample_acceptance cid) = 200"
  "al_client_algo_id sample_prepared = binance_protection_client_algo_id (v7 36)"
  "al_client_algo_id sample_stop_row = binance_protection_client_algo_id (v7 31)"
  "al_entry_fill sample_prepared = sample_fill" "al_entry_fill sample_stop_row = sample_fill"
  "en_entry_command_id sample_fill = v7 31" "en_protection_deadline sample_fill = 60000000"
  "en_binding_id sample_fill = v7 34" "al_state sample_stop_row = ACTIVE_STOP"
  by (simp_all add: sample_stop_env_def sample_acceptance_def sample_prepared_def sample_stop_row_def sample_fill_def)

lemma sample_posted:
  assumes "pw_algos w = [sample_stop_row, sample_prepared]"
  shows "post_move sample_env sample_prepared q w =
    (w\<lparr>ow_log := ow_log w @ [(q, Answer (sample_acceptance (binance_protection_client_algo_id (v7 36))))],
       ow_ticks := ow_ticks w + 1,
       pw_algos := [sample_stop_row, sample_prepared\<lparr>al_state := ACTIVE_STOP, al_result := Some sample_decoded\<rparr>]\<rparr>,
     Inr sample_decoded)"
proof -
  have "first_error (AlgoOrderRecord_checks (\<lambda>_. replicate 32 0)
      (sample_prepared\<lparr>al_state := ACTIVE_STOP, al_result := Some sample_decoded\<rparr>)) = None"
    using sample_record_checks(1) [of ACTIVE_STOP "Some sample_decoded"]
    by (simp add: safe_state_def sample_decoded_def sample_env_facts)
  then show ?thesis
    using assms sample_stop_ids
    by (simp add: post_move_def send_def followed_by_def Let_def accept_move_response_def accept_stop_response_def
        post_outcome_unknown_def post_rejected_def sample_decodes activate_def deadline_reached_def clock_now_def
        utc_check_def whole_second_def checks_simps validated_def py_def give_def finish_algo_def checked_apply safe_state_def
        sample_env_facts sample_decoded_def find_algo_def next_where_def read_algo_def)
qed

lemma sample_withdrawn:
  assumes "pw_algos w = [sample_stop_row, r]" "al_client_algo_id r = binance_protection_client_algo_id (v7 36)"
  shows "\<exists>q. withdraws q \<and> ow_log (fst (withdraw sample_env (binance_protection_client_algo_id (v7 31)) w))
    = ow_log w @ [(q, Answer (sample_acceptance (binance_protection_client_algo_id (v7 36))))]"
  using sample_stop_ids assms
  by (simp add: withdraw_def Let_def followed_by_pure build_binance_usdm_protection_cancel_def withdraws_def)
    (simp add: followed_by_def send_def Let_def sample_env_facts finish_algo_def checked_apply safe_state_def checks_simps
      find_algo_def next_where_def give_def split: sum.splits)

lemma sample_moved:
  "\<exists>q v res. move_stop sample_env sample_fill (sample_stop 59500) (v7 36) (binance_protection_client_algo_id (v7 31))
      (sample_world [sample_stop_row]) = (v, res) \<and> withdraws q
    \<and> (\<exists>p a b. ow_log v = [(p, a), (q, b)])"
proof -
  let ?w = "sample_world [sample_stop_row]"
  let ?u = "(sample_world [sample_stop_row, sample_prepared])\<lparr>ow_ticks := 1\<rparr>"
  have "first_error (EntryFill_checks sample_fill @ [uuid7_check ''placement_command_id'' (v7 36),
        (\<not> client_id_text (binance_protection_client_algo_id (v7 31)), ValueError ''Binance USD-M client algo ID is invalid'')]) = None"
    using sample_fill_checks sample_stop_ids by (simp add: first_error_append uuid7_check_def sample_stop_versions checks_simps)
  moreover have "load_by_client_algo_id sample_env (binance_protection_client_algo_id (v7 31)) ?w = (?w, Inr (Some sample_stop_row))"
    using sample_row_checks
    by (simp add: load_by_client_algo_id_def find_algo_def next_where_def sample_world_def sample_env_facts read_algo_def
        checks_simps validated_def py_def)
  moreover have "v7 36 \<noteq> v7 31" by (simp add: v7_def)
  ultimately have m: "move_stop sample_env sample_fill (sample_stop 59500) (v7 36) (binance_protection_client_algo_id (v7 31)) ?w
      = place_move sample_env sample_fill (sample_stop 59500) (v7 36) (binance_protection_client_algo_id (v7 31)) ?w"
    by (simp add: move_stop_def followed_by_def checked_apply sample_env_facts)
  let ?v = "fst (post_move sample_env sample_prepared sample_move_request ?u)"
  let ?x = "withdraw sample_env (binance_protection_client_algo_id (v7 31)) ?v"
  have u: "pw_algos ?u = [sample_stop_row, sample_prepared]" "ow_log ?u = []" by (simp_all add: sample_world_def)
  have "pw_algos ?v = [sample_stop_row, sample_prepared\<lparr>al_state := ACTIVE_STOP, al_result := Some sample_decoded\<rparr>]"
    "\<exists>p a. ow_log ?v = [(p, a)]"
    using u by (simp_all add: sample_posted)
  then obtain p a q b where x: "withdraws q" "ow_log (fst ?x) = [(p, a), (q, b)]"
    using sample_withdrawn [of ?v] by (auto simp: sample_env_facts)
  have "fst (place_move sample_env sample_fill (sample_stop 59500) (v7 36) (binance_protection_client_algo_id (v7 31)) ?w) = fst ?x"
    by (simp add: place_move_def followed_by_def sample_claimed give_def sample_posted [OF u(1)] del: One_nat_def
        split: prod.splits sum.splits)
  with x m show ?thesis by (metis prod.collapse)
qed

text \<open>A stop whose emergency close could not be confirmed, recovered while the close cannot be prepared.\<close>

abbreviation unknown_row :: BinanceUsdmAlgoOrderRecord where
  "unknown_row \<equiv> sample_stop_row\<lparr>al_state := UNKNOWN_STOP, al_result := None\<rparr>"

lemma sample_unrecovered:
  "\<exists>v. recover_by_client_algo_id sample_env (binance_protection_client_algo_id (v7 31)) (sample_world [unknown_row])
     = (v, Inl (ProtectionEmergencyUnknown ''Binance USD-M emergency protection outcome is unknown'')) \<and> pw_controls v \<noteq> []"
proof -
  have "first_error (AlgoOrderRecord_checks (\<lambda>_. replicate 32 0) unknown_row) = None"
    using sample_fill_checks
    by (simp add: AlgoOrderRecord_checks_def sample_stop_row_def first_error_append checks_simps placement_id_def uuid7_check_def
        utc_check_def whole_second_def sample_stop_versions sample_fill_def safe_state_def)
  then show ?thesis
    using sample_stop_ids
    by (simp add: recover_by_client_algo_id_def recover_row_def followed_by_def load_by_client_algo_id_def find_algo_def
        next_where_def sample_world_def sample_env_facts read_algo_def checks_simps validated_def py_def safe_state_def
        fail_safe_def Let_def attempt_def rescued_def close_position_def pure_op_def throw_def give_def
        cancel_entry_and_adds_def require_own_def raise_to_def confirm_zero_position_def halt_account_def
        finish_algo_def checked_apply sample_stop_env_def)
qed

theorem unprotectable_position_halts_witness:
  "\<exists>v. account_halted v \<and> pw_controls v \<noteq> [] \<and>
     fst (recover_by_client_algo_id sample_env (binance_protection_client_algo_id (v7 31)) (sample_world [unknown_row])) = v"
proof -
  obtain v where v: "recover_by_client_algo_id sample_env (binance_protection_client_algo_id (v7 31)) (sample_world [unknown_row])
     = (v, Inl (ProtectionEmergencyUnknown ''Binance USD-M emergency protection outcome is unknown''))" "pw_controls v \<noteq> []"
    using sample_unrecovered by blast
  have own: "own_rows sample_env (sample_world [unknown_row])"
    by (simp add: own_rows_def sample_world_def sample_env_facts)
  have bound: "en_binding_id sample_fill = pe_binding_id sample_env" by (simp add: sample_env_facts)
  have told: "emergency_error (ProtectionEmergencyUnknown ''Binance USD-M emergency protection outcome is unknown'')"
    by (simp add: emergency_error_def)
  have "account_halted v"
    by (rule unprotectable_position_halts
        [where m = "recover_by_client_algo_id sample_env (binance_protection_client_algo_id (v7 31))", OF disjI2 [OF disjI2 [OF refl]] own bound v(1) told])
  with v show ?thesis by simp
qed

theorem stop_withdrawn_behind_replacement_witness:
  "\<exists>v. working_row (binance_protection_client_algo_id (v7 36)) v \<and> length (ow_log v) = 2
     \<and> fst (move_stop sample_env sample_fill (sample_stop 59500) (v7 36) (binance_protection_client_algo_id (v7 31))
          (sample_world [sample_stop_row])) = v"
proof -
  obtain q v res p a b where m: "move_stop sample_env sample_fill (sample_stop 59500) (v7 36)
      (binance_protection_client_algo_id (v7 31)) (sample_world [sample_stop_row]) = (v, res)"
    and w: "withdraws q" "ow_log v = [(p, a), (q, b)]"
    using sample_moved by blast
  from stop_withdrawn_behind_replacement [OF m, of "[(p, a), (q, b)]" "(q, b)"] w
  have "working_row (binance_protection_client_algo_id (v7 36)) v" by (simp add: sample_world_def stop_id_def)
  with m w show ?thesis by simp
qed

theorem stop_beyond_entry_never_moves_witness:
  "\<exists>e. move_stop sample_env sample_fill (sample_stop 60000) (v7 36) (binance_protection_client_algo_id (v7 31))
     (sample_world [sample_stop_row]) = (sample_world [sample_stop_row], Inl e)"
  by (rule stop_beyond_entry_never_moves) (simp add: beyond_entry_def sample_stop_def sample_fill_def)

lemma sample_move_placed:
  "move_stop (sample_stop_env t) sample_fill (sample_stop 59500) (v7 36) (binance_protection_client_algo_id (v7 31)) (sample_world [sample_stop_row])
     = place_move (sample_stop_env t) sample_fill (sample_stop 59500) (v7 36) (binance_protection_client_algo_id (v7 31)) (sample_world [sample_stop_row])"
proof -
  let ?w = "sample_world [sample_stop_row]"
  have "first_error (EntryFill_checks sample_fill @ [uuid7_check ''placement_command_id'' (v7 36),
        (\<not> client_id_text (binance_protection_client_algo_id (v7 31)), ValueError ''Binance USD-M client algo ID is invalid'')]) = None"
    using sample_fill_checks sample_stop_ids by (simp add: first_error_append uuid7_check_def sample_stop_versions checks_simps)
  moreover have "load_by_client_algo_id (sample_stop_env t) (binance_protection_client_algo_id (v7 31)) ?w = (?w, Inr (Some sample_stop_row))"
    using sample_row_checks
    by (simp add: load_by_client_algo_id_def find_algo_def next_where_def sample_world_def sample_env_facts read_algo_def
        checks_simps validated_def py_def)
  moreover have "v7 36 \<noteq> v7 31" by (simp add: v7_def)
  ultimately show ?thesis by (simp add: move_stop_def followed_by_def checked_apply sample_env_facts)
qed

abbreviation late_env :: ProtectionEnv where
  "late_env \<equiv> sample_stop_env 60000000"

abbreviation late_prepared :: BinanceUsdmAlgoOrderRecord where
  "late_prepared \<equiv> sample_prepared\<lparr>al_prepared_at := 60000000\<rparr>"

lemma sample_late_claimed:
  "claim_stop late_env sample_fill (sample_stop 59500) (Some (v7 36)) (sample_world [sample_stop_row])
     = ((sample_world [sample_stop_row, late_prepared])\<lparr>ow_ticks := 1\<rparr>, Inr (late_prepared, True, sample_move_request, 60000000))"
proof -
  have "first_error (AlgoOrderRecord_checks (\<lambda>_. replicate 32 0) late_prepared) = None"
    using sample_fill_checks
    by (auto simp: AlgoOrderRecord_checks_def sample_prepared_def first_error_append checks_simps placement_id_def uuid7_check_def
        utc_check_def whole_second_def sample_stop_versions request_body_def sample_move_request_def protection_parameters_def
        sample_fill_def safe_state_def split: option.splits)
  moreover from this have "prepared_algo late_env sample_fill 59500 sample_move_request 60000000 (Some (v7 36)) = Inr late_prepared"
    by (simp add: prepared_algo_def sample_prepared_def sample_stop_env_def Let_def checks_simps)
  moreover have "placement_id sample_stop_row \<noteq> placement_id late_prepared"
    "al_client_algo_id sample_stop_row \<noteq> al_client_algo_id late_prepared" "al_state late_prepared = PREPARED_STOP"
    using sample_stop_ids by (simp_all add: placement_id_def sample_stop_row_def sample_prepared_def sample_fill_def)
  moreover have "en_filled_at sample_fill \<le> 60000000" by (simp add: sample_fill_def)
  ultimately show ?thesis
    by (simp add: claim_stop_def followed_by_pure sample_trigger sample_move_request_built)
      (simp add: followed_by_def clock_now_def Let_def utc_check_def whole_second_def checks_simps validated_def py_def give_def
        pure_op_def prepare_algo_def sample_world_def sample_env_facts)
qed

lemma sample_late_accepted: "venue_accepts late_env sample_fill (sample_stop 59500) (v7 36) (sample_world [sample_stop_row])"
proof -
  have "decode_active_protection resp late_prepared False = decode_active_protection resp sample_prepared False" for resp
    by (cases "json_object resp") (simp_all add: decode_active_protection_def Let_def)
  then show ?thesis by (simp add: venue_accepts_def sample_late_claimed sample_env_facts sample_decodes)
qed


definition sample_stop_command :: BrokerOrderCommand where
  "sample_stop_command = sample_order_command\<lparr>cmd_id := v7 36, cmd_trigger_price := Some 59000\<rparr>"

theorem working_first_stop_not_recovered_witness:
  "snd (live_recover_submit sample_env sample_stop_command (sample_world [sample_stop_row]))
     = Inl (ProtectionUnknown ''Binance USD-M durable protection record is unavailable'')"
proof -
  have "binance_protection_client_algo_id (v7 31) \<noteq> binance_protection_client_algo_id (v7 36)" by (rule sample_stop_ids)
  then show ?thesis
    by (subst working_first_stop_not_recovered [where f = sample_fill and cid = "binance_protection_client_algo_id (v7 31)"])
      (simp_all add: sample_stop_command_def sample_env_facts working_stop_def later_prepared_def sample_world_def find_algo_def next_where_def
        sample_stop_ids)
qed

end
