(* ===== verification/Promotion.thy ===== *)
theory Promotion
  imports Reconciliation
begin

text \<open>
  \<^verbatim>\<open>execution/promotion/models.py\<close>, \<^verbatim>\<open>persistence/mysql/repositories/promotion.py\<close> with its
  table, the progress that \<^verbatim>\<open>apps/backoffice/promotion_read_model.py\<close> reads and the start-up gate
  \<^verbatim>\<open>apps/trader/live_gate.py\<close>. A session is one exchange date of one binding; the evidence it closes
  with is counted in the tables of the other theories. A date is a number of days since the epoch and
  covers a day of UTC. Shown: a completed session was verified in the tables of the moment in which a call
  completed it, after its day, and never changes, whatever happens to the tables afterwards; no two sessions of a binding share mode and date, so the requirement counts
  days; no run of claims and completions lets a LIVE process start; and the evidence is counted without
  regard to the strategy manifest the session is pinned to.
\<close>

section \<open>Sessions and their evidence\<close>

definition REQUIRED_SESSIONS :: nat where "REQUIRED_SESSIONS = 2"

datatype PromotionMode = SHADOW_SESSION | PAPER_SESSION

datatype SessionStatus = SESSION_CLAIMED | SESSION_COMPLETE

datatype PromotionBlocker =
    NO_DECISIONS | BLOCKING_INCIDENT | BLOCKING_RECONCILIATION | UNRESOLVED_UNKNOWN_ORDER | NO_ORDERS | SESSION_NOT_OVER

datatype StrategyGate = NOT_EVALUATED | GATE_PASSED | GATE_FAILED

record SessionEvidence =
  se_decision_count :: nat
  se_order_count :: nat
  se_blocking_incident_count :: nat
  se_blocking_reconciliation_count :: nat
  se_unresolved_unknown_count :: nat

record PromotionSession =
  ps_id :: uuid
  ps_binding_id :: uuid
  ps_account_id :: uuid
  ps_manifest_id :: uuid
  ps_mode :: PromotionMode
  ps_exchange_date :: int
  ps_status :: SessionStatus
  ps_claimed_at :: instant
  ps_completed_at :: "instant option"

definition PromotionSession_checks :: "'a PromotionSession_scheme \<Rightarrow> checks" where
  "PromotionSession_checks s =
     (case ps_status s of
        SESSION_COMPLETE \<Rightarrow>
          [(ps_completed_at s = None, ValueError ''a complete session has a completion time''),
           (case ps_completed_at s of None \<Rightarrow> False | Some t \<Rightarrow> t < ps_claimed_at s,
              ValueError ''a session cannot complete before it was claimed'')]
      | SESSION_CLAIMED \<Rightarrow>
          [(ps_completed_at s \<noteq> None, ValueError ''an incomplete session has no completion time'')])"

text \<open>\<^verbatim>\<open>verify\<close>: every reason, in the order of the tests.\<close>

definition verify :: "SessionEvidence \<Rightarrow> PromotionMode \<Rightarrow> int \<Rightarrow> int \<Rightarrow> PromotionBlocker list" where
  "verify e mode exchange_date today =
     (if exchange_date \<ge> today then [SESSION_NOT_OVER] else [])
     @ (if se_decision_count e = 0 then [NO_DECISIONS] else [])
     @ (if mode = PAPER_SESSION \<and> se_order_count e = 0 then [NO_ORDERS] else [])
     @ (if se_blocking_incident_count e \<noteq> 0 then [BLOCKING_INCIDENT] else [])
     @ (if se_blocking_reconciliation_count e \<noteq> 0 then [BLOCKING_RECONCILIATION] else [])
     @ (if se_unresolved_unknown_count e \<noteq> 0 then [UNRESOLVED_UNKNOWN_ORDER] else [])"

section \<open>Progress\<close>

record ModeProgress =
  mp_mode :: PromotionMode
  mp_completed_dates :: "int list"

definition satisfied :: "ModeProgress \<Rightarrow> bool" where
  "satisfied p \<longleftrightarrow> REQUIRED_SESSIONS \<le> length (mp_completed_dates p)"

text \<open>\<^verbatim>\<open>max(0, REQUIRED_SESSIONS - n)\<close>\<close>

definition remaining :: "ModeProgress \<Rightarrow> nat" where
  "remaining p = REQUIRED_SESSIONS - length (mp_completed_dates p)"

record PromotionState =
  pst_manifest_id :: uuid
  pst_shadow :: ModeProgress
  pst_paper :: ModeProgress
  pst_strategy_gate :: StrategyGate

definition sessions_satisfied :: "PromotionState \<Rightarrow> bool" where
  "sessions_satisfied s \<longleftrightarrow> satisfied (pst_shadow s) \<and> satisfied (pst_paper s)"

definition ready :: "PromotionState \<Rightarrow> bool" where
  "ready s \<longleftrightarrow> sessions_satisfied s \<and> pst_strategy_gate s = GATE_PASSED"

definition mode_progress :: "'a PromotionSession_scheme list \<Rightarrow> uuid \<Rightarrow> PromotionMode \<Rightarrow> ModeProgress" where
  "mode_progress sessions manifest_id mode =
     \<lparr>mp_mode = mode,
      mp_completed_dates = sorted_set (map ps_exchange_date (filter
        (\<lambda>s. ps_manifest_id s = manifest_id \<and> ps_status s = SESSION_COMPLETE \<and> ps_mode s = mode) sessions))\<rparr>"

definition promotion_state :: "'a PromotionSession_scheme list \<Rightarrow> uuid \<Rightarrow> PromotionState" where
  "promotion_state sessions manifest_id =
     \<lparr>pst_manifest_id = manifest_id, pst_shadow = mode_progress sessions manifest_id SHADOW_SESSION,
      pst_paper = mode_progress sessions manifest_id PAPER_SESSION, pst_strategy_gate = NOT_EVALUATED\<rparr>"

section \<open>The store\<close>

text \<open>The table of sessions with its columns of counts, and the decisions of the strategy.\<close>

record PromotionSessionRow = PromotionSession +
  psr_evidence :: SessionEvidence
  psr_evidence_digest :: "bytes option"

record V6DecisionRow =
  dcr_manifest_id :: uuid
  dcr_generated_at :: instant

record PromotionTables = ExecTables +
  pt_decisions :: "V6DecisionRow list"
  pt_sessions :: "PromotionSessionRow list"

text \<open>The check constraint \<^verbatim>\<open>ck_exec_promotion_session_verified\<close>.\<close>

definition session_row_ok :: "PromotionSessionRow \<Rightarrow> bool" where
  "session_row_ok r \<longleftrightarrow>
     ps_status r = SESSION_CLAIMED \<and> ps_completed_at r = None \<and> psr_evidence_digest r = None
     \<or> ps_status r = SESSION_COMPLETE \<and> (case ps_completed_at r of None \<Rightarrow> False | Some t \<Rightarrow> ps_claimed_at r \<le> t)
       \<and> (case psr_evidence_digest r of None \<Rightarrow> False | Some d \<Rightarrow> length d = 32)
       \<and> 0 < se_decision_count (psr_evidence r)
       \<and> (ps_mode r = SHADOW_SESSION \<or> 0 < se_order_count (psr_evidence r))
       \<and> se_blocking_incident_count (psr_evidence r) = 0 \<and> se_blocking_reconciliation_count (psr_evidence r) = 0
       \<and> se_unresolved_unknown_count (psr_evidence r) = 0"

definition session_key :: "'a PromotionSession_scheme \<Rightarrow> uuid \<times> PromotionMode \<times> int" where
  "session_key s = (ps_binding_id s, ps_mode s, ps_exchange_date s)"

text \<open>A refusal, an error of a guard, or the integrity error of the table.\<close>

datatype promotion_error =
    AlreadyClaimed PromotionMode int
  | SessionAbsent
  | AlreadyComplete
  | NotVerified "PromotionBlocker list"
  | ConstraintViolated
  | Guard py_error

definition DAY :: timedelta where "DAY = 86400000000"

definition on_day :: "int \<Rightarrow> instant \<Rightarrow> bool" where
  "on_day exchange_date t \<longleftrightarrow> exchange_date * DAY \<le> t \<and> t < exchange_date * DAY + DAY"

definition count_of :: "('a \<Rightarrow> bool) \<Rightarrow> 'a list \<Rightarrow> nat" where
  "count_of p xs = length (filter p xs)"

definition evidence_for :: "'a PromotionTables_scheme \<Rightarrow> uuid \<Rightarrow> int \<Rightarrow> SessionEvidence" where
  "evidence_for db account_id exchange_date =
     \<lparr>se_decision_count = count_of (\<lambda>d. on_day exchange_date (dcr_generated_at d)) (pt_decisions db),
      se_order_count = count_of (\<lambda>r. ord_account_id r = account_id \<and> on_day exchange_date (ord_created_at r)) (et_orders db),
      se_blocking_incident_count =
        count_of (\<lambda>i. inc_severity i = ''BLOCKING'' \<and> inc_status i = ''OPEN'' \<and> on_day exchange_date (inc_created_at i))
          (et_incidents db),
      se_blocking_reconciliation_count =
        count_of (\<lambda>d. list_ex (\<lambda>run. rnr_id run = dfr_run_id d \<and> rnr_account_id run = account_id) (et_runs db)
            \<and> dfr_severity d = ''BLOCKING'' \<and> dfr_status d = ''OPEN'' \<and> on_day exchange_date (dfr_created_at d))
          (et_diffs db),
      se_unresolved_unknown_count =
        count_of (\<lambda>r. ord_account_id r = account_id \<and> ord_status r = UNKNOWN \<and> on_day exchange_date (ord_created_at r))
          (et_orders db)\<rparr>"

text \<open>\<^verbatim>\<open>_view\<close>: a row read back is validated.\<close>

definition session_view :: "PromotionSessionRow \<Rightarrow> promotion_error + PromotionSession" where
  "session_view r =
     (case first_error (PromotionSession_checks r) of
        Some e \<Rightarrow> Inl (Guard e) | None \<Rightarrow> Inr (PromotionSession.truncate r))"

definition no_evidence :: SessionEvidence where
  "no_evidence =
     \<lparr>se_decision_count = 0, se_order_count = 0, se_blocking_incident_count = 0, se_blocking_reconciliation_count = 0,
      se_unresolved_unknown_count = 0\<rparr>"

text \<open>\<^verbatim>\<open>claim\<close>: \<open>fresh_id\<close> is the identifier it draws.\<close>

definition claim_session ::
  "PromotionTables \<Rightarrow> uuid \<Rightarrow> uuid \<Rightarrow> uuid \<Rightarrow> uuid \<Rightarrow> PromotionMode \<Rightarrow> int \<Rightarrow> py_datetime
     \<Rightarrow> promotion_error + PromotionTables \<times> PromotionSession" where
  "claim_session db fresh_id binding_id account_id manifest_id mode exchange_date now =
     (case require_utc now of
        Inl e \<Rightarrow> Inl (Guard e)
      | Inr moment \<Rightarrow>
          if get_by session_key (binding_id, mode, exchange_date) (pt_sessions db) \<noteq> None
            then Inl (AlreadyClaimed mode exchange_date)
          else let r = \<lparr>ps_id = fresh_id, ps_binding_id = binding_id, ps_account_id = account_id,
                        ps_manifest_id = manifest_id, ps_mode = mode, ps_exchange_date = exchange_date,
                        ps_status = SESSION_CLAIMED, ps_claimed_at = moment, ps_completed_at = None,
                        psr_evidence = no_evidence, psr_evidence_digest = None\<rparr>
            in if list_ex (\<lambda>s. ps_id s = fresh_id) (pt_sessions db) then Inl ConstraintViolated
               else (case session_view r of
                       Inl e \<Rightarrow> Inl e
                     | Inr s \<Rightarrow> Inr (db\<lparr>pt_sessions := pt_sessions db @ [r]\<rparr>, s)))"

definition complete_session ::
  "(SessionEvidence \<Rightarrow> bytes) \<Rightarrow> PromotionTables \<Rightarrow> uuid \<Rightarrow> py_datetime \<Rightarrow> int
     \<Rightarrow> promotion_error + PromotionTables \<times> PromotionSession" where
  "complete_session sha256 db session_id now today =
     (case require_utc now of
        Inl e \<Rightarrow> Inl (Guard e)
      | Inr moment \<Rightarrow>
          (case get_by ps_id session_id (pt_sessions db) of
             None \<Rightarrow> Inl SessionAbsent
           | Some row \<Rightarrow>
               if ps_status row = SESSION_COMPLETE then Inl AlreadyComplete
               else let evidence = evidence_for db (ps_account_id row) (ps_exchange_date row);
                        blockers = verify evidence (ps_mode row) (ps_exchange_date row) today
                 in if blockers \<noteq> [] then Inl (NotVerified blockers)
                    else let r = row\<lparr>ps_status := SESSION_COMPLETE, ps_completed_at := Some moment,
                                    psr_evidence := evidence, psr_evidence_digest := Some (sha256 evidence)\<rparr>
                      in if \<not> session_row_ok r then Inl ConstraintViolated
                         else (case session_view r of
                                 Inl e \<Rightarrow> Inl e
                               | Inr s \<Rightarrow> Inr (db\<lparr>pt_sessions := put_by ps_id r (pt_sessions db)\<rparr>, s))))"

record SessionView =
  svw_session :: PromotionSessionRow
  svw_evidence :: SessionEvidence
  svw_blockers :: "PromotionBlocker list"

text \<open>\<^verbatim>\<open>timeline\<close>: newest date first, then the mode by its text (\<^verbatim>\<open>PAPER\<close> before \<^verbatim>\<open>SHADOW\<close>).\<close>

definition mode_rank :: "PromotionMode \<Rightarrow> int" where
  "mode_rank m = (case m of PAPER_SESSION \<Rightarrow> 0 | SHADOW_SESSION \<Rightarrow> 1)"

definition timeline :: "PromotionTables \<Rightarrow> uuid \<Rightarrow> int \<Rightarrow> SessionView list" where
  "timeline db binding_id today =
     map (\<lambda>r. if ps_status r = SESSION_COMPLETE
              then \<lparr>svw_session = r, svw_evidence = psr_evidence r, svw_blockers = []\<rparr>
              else let e = evidence_for db (ps_account_id r) (ps_exchange_date r)
                   in \<lparr>svw_session = r, svw_evidence = e, svw_blockers = verify e (ps_mode r) (ps_exchange_date r) today\<rparr>)
       (sort_key (\<lambda>r. - 2 * ps_exchange_date r + mode_rank (ps_mode r))
          (filter (\<lambda>r. ps_binding_id r = binding_id) (pt_sessions db)))"

definition stored_state :: "PromotionTables \<Rightarrow> uuid \<Rightarrow> uuid \<Rightarrow> PromotionState" where
  "stored_state db binding_id manifest_id =
     promotion_state (filter (\<lambda>r. ps_binding_id r = binding_id) (pt_sessions db)) manifest_id"

section \<open>The view of a screen and the start of a LIVE run\<close>

record BindingProgress =
  bpr_binding_id :: uuid
  bpr_manifest_id :: "uuid option"
  bpr_shadow_dates :: "int list"
  bpr_paper_dates :: "int list"
  bpr_shadow_remaining :: nat
  bpr_paper_remaining :: nat
  bpr_ready :: bool

text \<open>\<^verbatim>\<open>PromotionReadModel.load\<close> for the active bindings and the latest manifest, if there is one.\<close>

definition load_progress :: "PromotionTables \<Rightarrow> uuid option \<Rightarrow> uuid list \<Rightarrow> BindingProgress list" where
  "load_progress db manifest_id bindings =
     map (\<lambda>b. case manifest_id of
            None \<Rightarrow> \<lparr>bpr_binding_id = b, bpr_manifest_id = None, bpr_shadow_dates = [], bpr_paper_dates = [],
                    bpr_shadow_remaining = REQUIRED_SESSIONS,
                    bpr_paper_remaining = REQUIRED_SESSIONS, bpr_ready = False\<rparr>
          | Some m \<Rightarrow>
              let s = stored_state db b m
              in \<lparr>bpr_binding_id = b, bpr_manifest_id = Some m,
                  bpr_shadow_dates = mp_completed_dates (pst_shadow s), bpr_paper_dates = mp_completed_dates (pst_paper s),
                  bpr_shadow_remaining = remaining (pst_shadow s),
                  bpr_paper_remaining = remaining (pst_paper s), bpr_ready = ready s\<rparr>) bindings"

record LiveSettings =
  lst_allow_live :: bool
  lst_trading_mode :: RuntimeMode

definition not_promoted :: "BindingProgress \<Rightarrow> string" where
  "not_promoted p =
     ''the binding has not completed two Shadow and two Paper sessions (shadow '' @ nat_str (int (bpr_shadow_remaining p))
     @ '' left, paper '' @ nat_str (int (bpr_paper_remaining p)) @ '' left)''"

text \<open>\<^verbatim>\<open>may_start_live\<close>: allowed when the list of reasons is empty.\<close>

definition live_reasons ::
  "LiveSettings \<Rightarrow> string \<Rightarrow> BindingProgress list \<Rightarrow> uuid \<Rightarrow> bool \<Rightarrow> string list" where
  "live_reasons settings account_environment bindings binding_id composition_wired =
     (if \<not> lst_allow_live settings then [''AUTOTRADER_ALLOW_LIVE is not set''] else [])
     @ (if lst_trading_mode settings \<noteq> LIVE_MODE then [''AUTOTRADER_TRADING_MODE is not LIVE''] else [])
     @ (if account_environment \<noteq> ''LIVE'' then [''the account is not registered as a LIVE account''] else [])
     @ (case next_where (\<lambda>p. bpr_binding_id p = binding_id) bindings of
          None \<Rightarrow> [''this account has no provider binding to promote'']
        | Some p \<Rightarrow> if bpr_ready p then [] else [not_promoted p])
     @ (if composition_wired then [] else [''the LIVE loop is not wired yet''])"

definition may_start_live ::
  "LiveSettings \<Rightarrow> string \<Rightarrow> BindingProgress list \<Rightarrow> uuid \<Rightarrow> bool \<Rightarrow> bool" where
  "may_start_live settings account_environment bindings binding_id composition_wired \<longleftrightarrow>
     live_reasons settings account_environment bindings binding_id composition_wired = []"

section \<open>What a claim and a completion do\<close>

lemma claim_session_Inr:
  assumes "claim_session db fresh_id binding_id account_id manifest_id mode exchange_date now = Inr (db', s)"
  obtains r where "db' = db\<lparr>pt_sessions := pt_sessions db @ [r]\<rparr>" "ps_status r = SESSION_CLAIMED" "session_row_ok r"
    "session_key r = (binding_id, mode, exchange_date)" "ps_manifest_id r = manifest_id"
    "session_key r \<notin> set (map session_key (pt_sessions db))" "ps_id r \<notin> set (map ps_id (pt_sessions db))"
  using assms
  by (auto simp: claim_session_def Let_def session_view_def session_row_ok_def session_key_def get_by_def next_where_None
      list_ex_iff split: sum.splits if_splits option.splits intro!: that)

lemma complete_session_Inr:
  assumes "complete_session sha256 db session_id now today = Inr (db', s)"
  obtains row r where "row \<in> set (pt_sessions db)" "ps_id row = session_id" "ps_status row = SESSION_CLAIMED"
    "verify (evidence_for db (ps_account_id row) (ps_exchange_date row)) (ps_mode row) (ps_exchange_date row) today = []"
    "ps_status r = SESSION_COMPLETE" "session_row_ok r" "ps_id r = ps_id row" "session_key r = session_key row"
    "ps_manifest_id r = ps_manifest_id row" "ps_account_id r = ps_account_id row"
    "psr_evidence r = evidence_for db (ps_account_id row) (ps_exchange_date row)" "db' = db\<lparr>pt_sessions := put_by ps_id r (pt_sessions db)\<rparr>"
proof -
  from assms obtain moment row where row: "get_by ps_id session_id (pt_sessions db) = Some row"
    "ps_status row \<noteq> SESSION_COMPLETE" and rest: "require_utc now = Inr moment"
    by (auto simp: complete_session_def Let_def split: sum.splits option.splits if_splits)
  from row have mem: "row \<in> set (pt_sessions db)" "ps_id row = session_id" "ps_status row = SESSION_CLAIMED"
    using next_where_Some by (fastforce simp: get_by_def, fastforce simp: get_by_def, cases "ps_status row") auto
  let ?e = "evidence_for db (ps_account_id row) (ps_exchange_date row)"
  let ?r = "row\<lparr>ps_status := SESSION_COMPLETE, ps_completed_at := Some moment, psr_evidence := ?e,
               psr_evidence_digest := Some (sha256 ?e)\<rparr>"
  from assms row rest have "verify ?e (ps_mode row) (ps_exchange_date row) today = []" "session_row_ok ?r"
    "db' = db\<lparr>pt_sessions := put_by ps_id ?r (pt_sessions db)\<rparr>"
    by (auto simp: complete_session_def Let_def split: sum.splits if_splits)
  then show thesis using mem by (intro that [of row ?r]) (auto simp: session_key_def)
qed

section \<open>Runs\<close>

text \<open>Anything may happen to the other tables between two calls.\<close>

datatype promotion_call =
    ClaimCall uuid uuid uuid uuid PromotionMode int py_datetime
  | CompleteCall "SessionEvidence \<Rightarrow> bytes" uuid py_datetime int
  | OtherWork "PromotionTables \<Rightarrow> PromotionTables"

fun promotion_step :: "PromotionTables \<Rightarrow> promotion_call \<Rightarrow> PromotionTables option" where
  "promotion_step db (ClaimCall i b a m mode d now) =
     (case claim_session db i b a m mode d now of Inl _ \<Rightarrow> None | Inr (db', _) \<Rightarrow> Some db')"
| "promotion_step db (CompleteCall sha256 i now today) =
     (case complete_session sha256 db i now today of Inl _ \<Rightarrow> None | Inr (db', _) \<Rightarrow> Some db')"
| "promotion_step db (OtherWork f) = Some ((f db)\<lparr>pt_sessions := pt_sessions db\<rparr>)"

definition promotion_inv :: "PromotionTables \<Rightarrow> bool" where
  "promotion_inv db \<longleftrightarrow>
     distinct (map ps_id (pt_sessions db)) \<and> distinct (map session_key (pt_sessions db))
     \<and> (\<forall>r \<in> set (pt_sessions db). session_row_ok r)"

definition completed_rows :: "PromotionTables \<Rightarrow> PromotionSessionRow set" where
  "completed_rows db = {r \<in> set (pt_sessions db). ps_status r = SESSION_COMPLETE}"

lemma put_by_map:
  assumes "\<And>x. x \<in> set rows \<Longrightarrow> key x = key r \<Longrightarrow> g x = g r"
  shows "map g (put_by key r rows) = map g rows"
  using assms by (auto simp: put_by_def)

lemma completion_keeps:
  assumes inv: "promotion_inv db" and row: "row \<in> set (pt_sessions db)" "ps_status row = SESSION_CLAIMED"
    and r: "session_row_ok r" "ps_id r = ps_id row" "session_key r = session_key row"
  shows "promotion_inv (db\<lparr>pt_sessions := put_by ps_id r (pt_sessions db)\<rparr>)"
    and "completed_rows db \<subseteq> completed_rows (db\<lparr>pt_sessions := put_by ps_id r (pt_sessions db)\<rparr>)"
proof -
  have same: "x = row" if "x \<in> set (pt_sessions db)" "ps_id x = ps_id r" for x
    using inv row(1) that r(2) by (auto simp: promotion_inv_def distinct_map inj_on_def)
  then have key: "session_key x = session_key r" if "x \<in> set (pt_sessions db)" "ps_id x = ps_id r" for x
    using that r(3) by metis
  then have "map session_key (put_by ps_id r (pt_sessions db)) = map session_key (pt_sessions db)" by (rule put_by_map)
  moreover have "map ps_id (put_by ps_id r (pt_sessions db)) = map ps_id (pt_sessions db)" by (rule put_by_map)
  moreover note inv
  ultimately have d: "distinct (map ps_id (put_by ps_id r (pt_sessions db)))"
    "distinct (map session_key (put_by ps_id r (pt_sessions db)))"
    by (simp_all only: promotion_inv_def)
  with d inv r(1) show "promotion_inv (db\<lparr>pt_sessions := put_by ps_id r (pt_sessions db)\<rparr>)"
    by (auto simp: promotion_inv_def put_by_def)
  show "completed_rows db \<subseteq> completed_rows (db\<lparr>pt_sessions := put_by ps_id r (pt_sessions db)\<rparr>)"
    using same row(2) by (force simp: completed_rows_def put_by_def image_iff)
qed

interpretation promotion: monotone_system promotion_step promotion_inv "\<lambda>s t. completed_rows s \<subseteq> completed_rows t"
proof
  fix s e s'
  assume inv: "promotion_inv s" and st: "promotion_step s e = Some s'"
  have both: "promotion_inv s' \<and> completed_rows s \<subseteq> completed_rows s'"
  proof (cases e)
    case (ClaimCall i b a m mode d now)
    with st obtain v where "claim_session s i b a m mode d now = Inr (s', v)" by (auto split: sum.splits)
    then obtain r where r: "s' = s\<lparr>pt_sessions := pt_sessions s @ [r]\<rparr>" "session_row_ok r"
      "session_key r \<notin> set (map session_key (pt_sessions s))" "ps_id r \<notin> set (map ps_id (pt_sessions s))"
      by (rule claim_session_Inr)
    with inv show ?thesis by (auto simp: promotion_inv_def completed_rows_def)
  next
    case (CompleteCall sha256 i now today)
    with st obtain v where "complete_session sha256 s i now today = Inr (s', v)" by (auto split: sum.splits)
    then show ?thesis by (rule complete_session_Inr) (use completion_keeps [OF inv] in auto)
  next
    case (OtherWork f)
    with st inv show ?thesis by (auto simp: promotion_inv_def completed_rows_def)
  qed
  then show "promotion_inv s'" "completed_rows s \<subseteq> completed_rows s'" by auto
qed auto

text \<open>The days a binding has completed in a mode under a manifest.\<close>

definition completed_days :: "PromotionTables \<Rightarrow> uuid \<Rightarrow> uuid \<Rightarrow> PromotionMode \<Rightarrow> int set" where
  "completed_days db binding_id manifest_id mode =
     ps_exchange_date ` {r \<in> completed_rows db. ps_binding_id r = binding_id \<and> ps_manifest_id r = manifest_id \<and> ps_mode r = mode}"

lemma progress_days:
  "length (mp_completed_dates (mode_progress (filter (\<lambda>r. ps_binding_id r = b) (pt_sessions db)) m mode))
     = card (completed_days db b m mode)"
proof -
  have "set (mp_completed_dates (mode_progress (filter (\<lambda>r. ps_binding_id r = b) (pt_sessions db)) m mode))
      = completed_days db b m mode"
    by (auto simp: mode_progress_def completed_days_def completed_rows_def sorted_set_def)
  moreover have "distinct (mp_completed_dates (mode_progress (filter (\<lambda>r. ps_binding_id r = b) (pt_sessions db)) m mode))"
    by (simp add: mode_progress_def sorted_set_def)
  ultimately show ?thesis by (metis distinct_card)
qed

text \<open>What a session is verified by when it is completed: the counts of the day in the tables of that moment.\<close>

definition verified_at :: "PromotionTables \<Rightarrow> int \<Rightarrow> PromotionSessionRow \<Rightarrow> bool" where
  "verified_at db today r \<longleftrightarrow>
     (let day = on_day (ps_exchange_date r);
          orders = {x \<in> set (et_orders db). ord_account_id x = ps_account_id r \<and> day (ord_created_at x)}
      in ps_exchange_date r < today
         \<and> (\<exists>d \<in> set (pt_decisions db). day (dcr_generated_at d))
         \<and> (ps_mode r = PAPER_SESSION \<longrightarrow> orders \<noteq> {})
         \<and> (\<forall>x \<in> orders. ord_status x \<noteq> UNKNOWN)
         \<and> (\<forall>i \<in> set (et_incidents db). inc_severity i = ''BLOCKING'' \<and> inc_status i = ''OPEN'' \<longrightarrow> \<not> day (inc_created_at i))
         \<and> (\<forall>d \<in> set (et_diffs db). \<forall>run \<in> set (et_runs db). rnr_id run = dfr_run_id d \<and> rnr_account_id run = ps_account_id r
              \<and> dfr_severity d = ''BLOCKING'' \<and> dfr_status d = ''OPEN'' \<longrightarrow> \<not> day (dfr_created_at d))
         \<and> psr_evidence r = evidence_for db (ps_account_id r) (ps_exchange_date r))"

lemma count_of_0 [simp]: "count_of p xs = 0 \<longleftrightarrow> (\<forall>x \<in> set xs. \<not> p x)"
  by (auto simp: count_of_def filter_empty_conv)

lemma verify_Nil:
  "verify e mode exchange_date today = [] \<longleftrightarrow>
     exchange_date < today \<and> se_decision_count e \<noteq> 0 \<and> (mode = PAPER_SESSION \<longrightarrow> se_order_count e \<noteq> 0)
     \<and> se_blocking_incident_count e = 0 \<and> se_blocking_reconciliation_count e = 0 \<and> se_unresolved_unknown_count e = 0"
  by (auto simp: verify_def)

lemma completion_verified:
  assumes "promotion_inv s" "promotion_step s c = Some s'" "r \<in> completed_rows s'" "r \<notin> completed_rows s"
  shows "\<exists>sha256 now today. c = CompleteCall sha256 (ps_id r) now today \<and> verified_at s today r"
proof (cases c)
  case (ClaimCall i b a m mode d now)
  with assms(2) obtain v where "claim_session s i b a m mode d now = Inr (s', v)" by (auto split: sum.splits)
  then show ?thesis by (rule claim_session_Inr) (use assms(3,4) in \<open>auto simp: completed_rows_def\<close>)
next
  case (CompleteCall sha256 i now today)
  with assms(2) obtain v where "complete_session sha256 s i now today = Inr (s', v)" by (auto split: sum.splits)
  then show ?thesis
  proof (rule complete_session_Inr)
    fix row r'
    assume row: "row \<in> set (pt_sessions s)" "ps_id row = i" "ps_id r' = ps_id row" "session_key r' = session_key row"
      "ps_account_id r' = ps_account_id row" "psr_evidence r' = evidence_for s (ps_account_id row) (ps_exchange_date row)"
      and s': "s' = s\<lparr>pt_sessions := put_by ps_id r' (pt_sessions s)\<rparr>"
      and v: "verify (evidence_for s (ps_account_id row) (ps_exchange_date row)) (ps_mode row) (ps_exchange_date row) today = []"
    have r: "r = r'" using assms(3,4) by (auto simp: s' completed_rows_def dest!: put_by_set)
    have "verified_at s today r'"
      using v row by (auto simp: verify_Nil verified_at_def evidence_for_def session_key_def Let_def list_ex_iff)
    then show ?thesis using CompleteCall row(2,3) r by simp
  qed
qed (use assms in \<open>auto simp: completed_rows_def\<close>)

lemma run_steps_append: "run_steps step s (xs @ ys) = run_steps step (run_steps step s xs) ys"
  by (induction xs arbitrary: s) simp_all

lemma completed_by:
  assumes "promotion_inv start" "completed_rows start = {}" "r \<in> completed_rows (run_steps promotion_step start calls)"
  shows "\<exists>before sha256 now today after. calls = before @ CompleteCall sha256 (ps_id r) now today # after
    \<and> verified_at (run_steps promotion_step start before) today r"
  using assms(3)
proof (induction calls rule: rev_induct)
  case Nil
  with assms(2) show ?case by simp
next
  case (snoc c calls)
  let ?s = "run_steps promotion_step start calls"
  show ?case
  proof (cases "r \<in> completed_rows ?s")
    case True
    from snoc.IH [OF this] show ?thesis by (metis append.assoc append_Cons)
  next
    case False
    then obtain s' where s': "promotion_step ?s c = Some s'" "r \<in> completed_rows s'"
      using snoc.prems by (auto simp: run_steps_append split: option.splits)
    have "promotion_inv ?s" by (rule promotion.run_inv [OF assms(1)])
    from completion_verified [OF this s' False] show ?thesis by blast
  qed
qed

text \<open>C21: 
  In every run of claims and completions that starts without sessions, with anything else happening to the
  tables in between, the requirement is met exactly when two days are completed in each mode under the manifest.
  Every completed session was completed by a call on a later day, at a moment when the tables held a
  decision of its day, an order of its day if it is a Paper session, no open blocking incident or
  reconciliation difference of its day and no order of its day with an unknown outcome; it keeps the
  counts of that moment, and stays as it is for ever.
\<close>

theorem promotion_rests_on_verified_days:
  assumes "pt_sessions start = []" and db: "db = run_steps promotion_step start calls"
  shows "(sessions_satisfied (stored_state db b m)
      \<longleftrightarrow> 2 \<le> card (completed_days db b m SHADOW_SESSION) \<and> 2 \<le> card (completed_days db b m PAPER_SESSION))
    \<and> (\<forall>r \<in> completed_rows db. \<exists>before sha256 now today after. calls = before @ CompleteCall sha256 (ps_id r) now today # after
         \<and> verified_at (run_steps promotion_step start before) today r)
    \<and> completed_rows db \<subseteq> completed_rows (run_steps promotion_step db later)"
proof -
  have start: "promotion_inv start" "completed_rows start = {}" using assms(1) by (simp_all add: promotion_inv_def completed_rows_def)
  then have inv: "promotion_inv db" unfolding db by (metis promotion.run_inv)
  from promotion.run_below [OF this] completed_by [OF start] show ?thesis
    by (auto simp: db sessions_satisfied_def satisfied_def REQUIRED_SESSIONS_def stored_state_def promotion_state_def progress_days)
qed

text \<open>
  No process starts LIVE: whatever is stored, the strategy gate is never judged, so the reasons are
  never empty.
\<close>

theorem live_never_starts:
  "\<not> may_start_live settings account_environment (load_progress db manifest_id bindings) binding_id composition_wired"
proof -
  have "\<not> bpr_ready p" if "p \<in> set (load_progress db manifest_id bindings)" for p
    using that by (auto simp: load_progress_def Let_def stored_state_def promotion_state_def ready_def split: option.splits)
  then show ?thesis
    using next_where_Some by (auto simp: may_start_live_def live_reasons_def split: option.splits) fastforce
qed

text \<open>
  The decisions of a day count towards a session whichever manifest they were made under, although the
  session is pinned to one: relabelling every decision changes no claim and no completion.
\<close>

theorem evidence_ignores_manifest:
  "evidence_for (db\<lparr>pt_decisions := map (\<lambda>d. d\<lparr>dcr_manifest_id := f d\<rparr>) (pt_decisions db)\<rparr>) account_id exchange_date
     = evidence_for db account_id exchange_date"
  by (simp add: evidence_for_def count_of_def filter_map comp_def)

section \<open>Two days of a Shadow run\<close>

definition sample_promotion_start :: PromotionTables where
  "sample_promotion_start =
     ExecTables.extend empty_tables
       \<lparr>pt_decisions = [\<lparr>dcr_manifest_id = 3, dcr_generated_at = 10 * DAY + 5\<rparr>, \<lparr>dcr_manifest_id = 3, dcr_generated_at = 11 * DAY + 5\<rparr>],
        pt_sessions = []\<rparr>"

definition sample_promotion_calls :: "promotion_call list" where
  "sample_promotion_calls =
     [ClaimCall 21 1 2 3 SHADOW_SESSION 10 (AwareUTC 0), ClaimCall 22 1 2 3 SHADOW_SESSION 11 (AwareUTC 0),
      ClaimCall 23 1 2 3 SHADOW_SESSION 11 (AwareUTC 0),
      CompleteCall (\<lambda>_. replicate 32 0) 21 (AwareUTC (20 * DAY)) 20, CompleteCall (\<lambda>_. replicate 32 0) 22 (AwareUTC (20 * DAY)) 20]"

lemma sample_promotion_run:
  "map ps_exchange_date (filter (\<lambda>r. ps_status r = SESSION_COMPLETE)
     (pt_sessions (run_steps promotion_step sample_promotion_start sample_promotion_calls))) = [10, 11]"
  by code_simp

theorem promotion_rests_on_verified_days_witness:
  "\<exists>r before today. ps_exchange_date r \<in> {10, 11} \<and> ps_status r = SESSION_COMPLETE
     \<and> verified_at (run_steps promotion_step sample_promotion_start before) today r"
proof -
  let ?db = "run_steps promotion_step sample_promotion_start sample_promotion_calls"
  have "pt_sessions sample_promotion_start = []" by (simp add: sample_promotion_start_def ExecTables.extend_def)
  note t = promotion_rests_on_verified_days [OF this refl, of sample_promotion_calls 1 3 "[]"]
  let ?done = "filter (\<lambda>r. ps_status r = SESSION_COMPLETE) (pt_sessions ?db)"
  obtain r rs where r: "?done = r # rs" using sample_promotion_run by (cases ?done) auto
  then have "r \<in> set ?done" by simp
  then have "r \<in> completed_rows ?db" by (auto simp: completed_rows_def)
  moreover have "ps_exchange_date r = 10" using sample_promotion_run r by simp
  ultimately show ?thesis using t unfolding completed_rows_def by blast
qed

end
