(* ===== verification/Spec2Isabelle.thy ===== *)
theory Spec2Isabelle
  imports Reconciliation PositionOps Protection Promotion
begin

text \<open>
  Verification of the execution core of an automatic trading system, the Python package
  \<^verbatim>\<open>src/src/autotrader\<close>. Paths below are relative to it.

  \<^bold>\<open>The program.\<close> A strategy proposes a trade; an intent is built from it
  (\<^verbatim>\<open>execution/intents\<close>) and judged by the risk engine (\<^verbatim>\<open>risk\<close>), which reserves money
  on two budget anchors, one global and one per account. An approved decision becomes an order with a
  submit command (\<^verbatim>\<open>execution/orders\<close>). A dispatcher claims the command under a lease, behind a
  submission gate, and calls the broker (\<^verbatim>\<open>execution/dispatch\<close>, \<^verbatim>\<open>execution/controls\<close>). The
  broker's status evidence moves the order along a state machine; its executions change the order, the
  position and the reservation (\<^verbatim>\<open>persistence/mysql\<close>). What is left of a reservation is released
  when the order is over and the execution stream is proved complete. Reconciliation compares the
  broker's account with the tables and stops the account when they differ
  (\<^verbatim>\<open>execution/reconciliation\<close>). Components meet in the database: a transaction is a function
  on \<^verbatim>\<open>ExecTables\<close>, a record with one list of rows per table, that returns the new tables or the
  exception it raises, and a raised exception leaves the tables as they were.

  \<^bold>\<open>Theories.\<close>
  \<^item> \<^verbatim>\<open>PyDecimal\<close>: Python's \<^verbatim>\<open>Decimal\<close> at 28 digits with half-even rounding, and the grids
    on which its sums are exact. \<^verbatim>\<open>Prelude\<close>: exceptions as values, constructor checks, timestamps,
    text, reason lists, and the locales for transition systems. \<^verbatim>\<open>Ids\<close>: UUID version 7.
  \<^item> \<^verbatim>\<open>Orders\<close>: orders, links, watermarks and the status machine. \<^verbatim>\<open>Intents\<close>: routing and
    the intent factory. \<^verbatim>\<open>V6Models\<close>, \<^verbatim>\<open>Grading\<close>, \<^verbatim>\<open>RiskV6\<close>: the decision model of the
    david v6 strategy, its research grade and its risk engine.
  \<^item> \<^verbatim>\<open>RiskModels\<close>, \<^verbatim>\<open>RiskEngine\<close>, \<^verbatim>\<open>RiskStore\<close>: policies, reservations and sizing; the
    risk engine; the stored approval with its anchors.
  \<^item> \<^verbatim>\<open>Events\<close>: envelopes, outbox and inbox. \<^verbatim>\<open>Tables\<close>: the rows and the tables.
    \<^verbatim>\<open>OrderService\<close>: an order from a risk decision. \<^verbatim>\<open>Controls\<close>, \<^verbatim>\<open>Dispatch\<close>: the gate, the
    claim, the outcome and the recovery of a command. \<^verbatim>\<open>StatusHandler\<close>: broker status evidence.
  \<^item> \<^verbatim>\<open>Watermarks\<close>: execution streams, gaps, checkpoints and the release decision.
    \<^verbatim>\<open>Fills\<close>, \<^verbatim>\<open>FillStore\<close>: one execution applied, one reservation released.
    \<^verbatim>\<open>ExecutionRuns\<close>, \<^verbatim>\<open>ExecutionBudget\<close>: runs of these operations and their invariants.
  \<^item> \<^verbatim>\<open>Reconciliation\<close>: the comparison, the stored run and the gate of the consumers.
    \<^verbatim>\<open>Promotion\<close>: sessions of a strategy promotion, their evidence and the start-up gate of a
    LIVE run (\<^verbatim>\<open>execution/promotion\<close>, \<^verbatim>\<open>apps/backoffice/promotion_read_model.py\<close>,
    \<^verbatim>\<open>apps/trader/live_gate.py\<close>).
  \<^item> The strategy \<^verbatim>\<open>strategies/david_v6\<close>, in the order in which its evaluation reads it:
    \<^verbatim>\<open>Sequences\<close> (deduplication, slices, quantiles), \<^verbatim>\<open>Bars\<close> (\<^verbatim>\<open>bars.py\<close>, \<^verbatim>\<open>costs.py\<close>,
    \<^verbatim>\<open>domain/completed_ohlcv.py\<close>), \<^verbatim>\<open>Timing\<close> (\<^verbatim>\<open>calendar.py\<close>, \<^verbatim>\<open>sessions.py\<close>),
    \<^verbatim>\<open>Pivots\<close> (\<^verbatim>\<open>pivots.py\<close>), \<^verbatim>\<open>Zones\<close> (\<^verbatim>\<open>zones.py\<close>, \<^verbatim>\<open>exhaustion.py\<close>),
    \<^verbatim>\<open>Hlit\<close> (\<^verbatim>\<open>hlit.py\<close>), \<^verbatim>\<open>Evidence\<close> (\<^verbatim>\<open>evidence.py\<close>), \<^verbatim>\<open>Metodo\<close>
    (\<^verbatim>\<open>metodo.py\<close>, \<^verbatim>\<open>direction.py\<close>, \<^verbatim>\<open>regime.py\<close>), \<^verbatim>\<open>OrderFlow\<close>
    (\<^verbatim>\<open>order_flow.py\<close>), \<^verbatim>\<open>Profile\<close> (\<^verbatim>\<open>profile.py\<close>) and \<^verbatim>\<open>Engine\<close>
    (\<^verbatim>\<open>engine.py\<close>, \<^verbatim>\<open>universe.py\<close>, \<^verbatim>\<open>manifest.py\<close>).
  \<^item> \<^verbatim>\<open>PositionOps\<close>: the management of an open position (\<^verbatim>\<open>operations/david_v6_position.py\<close>,
    \<^verbatim>\<open>position_facts.py\<close>, \<^verbatim>\<open>apps/trader/position_management.py\<close>).
  \<^item> The venue Binance USD-M, \<^verbatim>\<open>integrations/brokers/binance_usdm\<close>: \<^verbatim>\<open>Venue\<close>
    (operations that change a state and may raise, wire formats, error answers), \<^verbatim>\<open>VenueOrders\<close>
    (\<^verbatim>\<open>orders.py\<close>, \<^verbatim>\<open>order_store.py\<close>) and \<^verbatim>\<open>Protection\<close> (\<^verbatim>\<open>algo_orders.py\<close>,
    \<^verbatim>\<open>algo_order_store.py\<close>, \<^verbatim>\<open>live_submitter.py\<close>, and \<^verbatim>\<open>apps/trader/live_safety.py\<close>,
    \<^verbatim>\<open>live_protection.py\<close>). A state holds the durable records and the log of every request with
    its answer; a sender and a clock are functions of that state, so a theorem holds for every venue.

  \<^bold>\<open>What is shown.\<close> Safety of dispatch (once a dispatch that wrote a command has returned, no later one
  writes it; a command is claimed only under its lease and an open gate; a dispatch records what the broker
  answered, and raises exactly when it is interrupted or the broker names an order that is linked elsewhere,
  and then it is rolled back and may write the command again); conservation of the risk budget from
  the approval over executions to the release; the ledger of fills against orders and positions; the
  status machine and its store; completeness of execution streams; idempotence of the writes; exact
  decisions of both risk engines. Of the strategy: no fact depends on a bar or print that was not complete
  when it was read, nor on the order or the repetition of the inputs; zones, setups, averages, events and
  the value area meet their descriptions although every decimal operation rounds; the evaluation
  is tradeable exactly when the written rules hold and then carries the size of the risk engine;
  an open position is never managed into more risk than was approved. At the venue: an order and a stop
  are sent at most once whatever is answered, only as authorized; a position that cannot be protected ends
  with a halted account; a stop is withdrawn only behind a working replacement. A promotion rests on two
  days in each mode, each verified in the tables of the moment in which it was completed and never changed
  afterwards, and no process starts LIVE. A late move of a stop never withdraws the old one and ends in the
  emergency close. And behaviours of the code
  that contradict its intent, each as a theorem on the model. Runs are \<^verbatim>\<open>run_steps\<close> of a partial
  step function; a transaction that raises is a step that does not happen, while an operation on the
  venue keeps the state it had reached when it raised.

  \<^bold>\<open>Conventions.\<close> A record field holds a value the constructor has already coerced, so checks of
  exact Python types hold by typing; timestamps are microseconds in UTC. Identifiers drawn at random
  are arguments, and a run requires them new where the code relies on it. Digests (SHA-256 of
  canonical JSON), the configuration hash and the time zone database are arguments. Where the strategy
  folds the case of text, the text is ASCII. Loops are structural recursion; the loop over
  contiguous status evidence and the loop that grows the value area have their bounds proved, so no fuel
  remains anywhere else. A dispatch is a session that its caller commits when it returns; a flush that violates a
  unique key leaves the session unusable. Theorems about exact sums assume amounts on a decimal grid with
  \<open>k\<close> fractional digits and at most 28 digits in all, which the columns \<^verbatim>\<open>Numeric(38, 18)\<close> with amounts below
  \<open>10\<^sup>1\<^sup>0\<close> satisfy for \<open>k = 18\<close>.

  \<^bold>\<open>Not modelled.\<close> Foreign keys and the rounding of a value to its column, deadlocks and
  isolation (every transaction here runs alone, as the row locks of the source make it), the exponent
  of a \<^verbatim>\<open>Decimal\<close> and the context's exponent limits, cancellation of a coroutine elsewhere than
  in a call of the broker or of the venue (there it is a value). The JSON column of a stored answer
  is the answer itself, and an answer of the venue is its parsed JSON. The transports, the other brokers,
  the market data clients, the web applications, the process composition, the security modules and the
  offline research are input and output around this core.
  The assembly of the evidence (\<^verbatim>\<open>strategies/david_v6/assembly.py\<close>) and the stores of the strategy
  call the modelled functions and copy their fields to rows.
\<close>

end
